(* ===== verification/JsPrelude.thy ===== *)
theory JsPrelude
  imports Main "HOL-Library.Sublist" "HOL-Library.Code_Target_Nat"
begin

text \<open>
  The part of the JavaScript language and its standard library that the modelled modules use,
  and the loop combinator on which the lexical scanners are built.

  A JavaScript string is a sequence of UTF-16 code units: \<open>js_string\<close> is a list of code units,
  so that indices, \<open>length\<close> and \<open>slice\<close> count what the code counts. An ASCII literal of the
  source is written \<open>js ''select''\<close>. Reading past the end, which gives \<open>undefined\<close> or the
  empty string in the source, is \<open>None\<close> in \<open>js_at\<close>.

  \<open>js_lower\<close> and \<open>js_upper\<close> follow the Unicode mapping on ASCII and Latin-1 and on the other
  code units whose image contains an ASCII letter, so that comparing their result with an ASCII
  constant is exact; every other code unit is left alone.
\<close>

named_theorems js_defs \<open>definitions of the JavaScript string operations\<close>
named_theorems char_defs \<open>definitions of the character classes\<close>

section \<open>Strings as lists of code units\<close>

type_synonym js_string = "nat list"

definition js :: "string \<Rightarrow> js_string" where
  "js s = map of_char s"

lemma js_Nil [simp]: "js [] = []"
  by (simp add: js_def)

lemma js_Cons [simp]: "js (c # s) = of_char c # js s"
  by (simp add: js_def)

abbreviation (input) cu :: "char \<Rightarrow> nat" where
  "cu c \<equiv> of_char c"

subsection \<open>Character classes\<close>

definition js_space :: "nat \<Rightarrow> bool" where
  [char_defs]: "js_space c \<longleftrightarrow>
     (9 \<le> c \<and> c \<le> 13) \<or> c = 32 \<or> c = 160 \<or> c = 5760 \<or> (8192 \<le> c \<and> c \<le> 8202)
     \<or> c = 8232 \<or> c = 8233 \<or> c = 8239 \<or> c = 8287 \<or> c = 12288 \<or> c = 65279"

definition ascii_digit :: "nat \<Rightarrow> bool" where
  [char_defs]: "ascii_digit c \<longleftrightarrow> 48 \<le> c \<and> c \<le> 57"

definition ascii_upper :: "nat \<Rightarrow> bool" where
  [char_defs]: "ascii_upper c \<longleftrightarrow> 65 \<le> c \<and> c \<le> 90"

definition ascii_lower :: "nat \<Rightarrow> bool" where
  [char_defs]: "ascii_lower c \<longleftrightarrow> 97 \<le> c \<and> c \<le> 122"

definition ascii_alpha :: "nat \<Rightarrow> bool" where
  [char_defs]: "ascii_alpha c \<longleftrightarrow> ascii_upper c \<or> ascii_lower c"

text \<open>The class \<open>[A-Za-z0-9_]\<close>, which is also \<open>\w\<close> of a regular expression.\<close>

definition js_word :: "nat \<Rightarrow> bool" where
  [char_defs]: "js_word c \<longleftrightarrow> ascii_alpha c \<or> ascii_digit c \<or> c = 95"

definition lower_unit :: "nat \<Rightarrow> js_string" where
  "lower_unit c =
     (if ascii_upper c \<or> (192 \<le> c \<and> c \<le> 222 \<and> c \<noteq> 215) then [c + 32]
      else if c = 8490 then [107]
      else if c = 304 then [105, 775]
      else [c])"

definition js_lower :: "js_string \<Rightarrow> js_string" where
  "js_lower s = concat (map lower_unit s)"

definition upper_unit :: "nat \<Rightarrow> js_string" where
  "upper_unit c =
     (if ascii_lower c \<or> (224 \<le> c \<and> c \<le> 254 \<and> c \<noteq> 247) then [c - 32]
      else if c = 181 then [924]
      else if c = 223 then [83, 83]
      else if c = 255 then [376]
      else if c = 305 then [73]
      else if c = 383 then [83]
      else if c = 64256 then [70, 70]
      else if c = 64257 then [70, 73]
      else if c = 64258 then [70, 76]
      else if c = 64259 then [70, 70, 73]
      else if c = 64260 then [70, 70, 76]
      else if c = 64261 \<or> c = 64262 then [83, 84]
      else [c])"

definition js_upper :: "js_string \<Rightarrow> js_string" where
  "js_upper s = concat (map upper_unit s)"

text \<open>
  Case folding of a regular expression with the flag \<open>i\<close> and without \<open>u\<close>: a code unit beyond
  ASCII never matches an ASCII letter.
\<close>

definition ascii_fold :: "nat \<Rightarrow> nat" where
  "ascii_fold c = (if ascii_upper c then c + 32 else c)"

definition js_fold :: "js_string \<Rightarrow> js_string" where
  "js_fold s = map ascii_fold s"

subsection \<open>Positions\<close>

definition js_at :: "js_string \<Rightarrow> nat \<Rightarrow> nat option" where
  "js_at t i = (if i < length t then Some (t ! i) else None)"

definition js_at_is :: "js_string \<Rightarrow> nat \<Rightarrow> (nat \<Rightarrow> bool) \<Rightarrow> bool" where
  "js_at_is t i P \<longleftrightarrow> i < length t \<and> P (t ! i)"

definition js_slice :: "js_string \<Rightarrow> nat \<Rightarrow> nat \<Rightarrow> js_string" where
  "js_slice t a b = take (b - a) (drop a t)"

definition js_starts_at :: "js_string \<Rightarrow> js_string \<Rightarrow> nat \<Rightarrow> bool" where
  "js_starts_at p t i \<longleftrightarrow> prefix p (drop i t)"

definition js_index_of :: "js_string \<Rightarrow> js_string \<Rightarrow> nat \<Rightarrow> nat option" where
  "js_index_of t p i = find (\<lambda>k. js_starts_at p t k) [i..<Suc (length t)]"

definition js_last_index_of :: "js_string \<Rightarrow> nat \<Rightarrow> nat \<Rightarrow> nat option" where
  "js_last_index_of t c k = find (\<lambda>j. js_at t j = Some c) (rev [0..<Suc k])"

definition js_includes :: "js_string \<Rightarrow> js_string \<Rightarrow> bool" where
  "js_includes t p \<longleftrightarrow> js_index_of t p 0 \<noteq> None"

subsection \<open>Trimming, splitting and replacing\<close>

definition js_trim_start :: "js_string \<Rightarrow> js_string" where
  "js_trim_start s = dropWhile js_space s"

definition js_trim_end :: "js_string \<Rightarrow> js_string" where
  "js_trim_end s = rev (dropWhile js_space (rev s))"

definition js_trim :: "js_string \<Rightarrow> js_string" where
  "js_trim s = js_trim_end (js_trim_start s)"

fun js_split :: "nat \<Rightarrow> js_string \<Rightarrow> js_string list" where
  "js_split c [] = [[]]"
| "js_split c (x # xs) =
     (if x = c then [] # js_split c xs
      else (case js_split c xs of [] \<Rightarrow> [[x]] | p # ps \<Rightarrow> (x # p) # ps))"

fun js_join :: "js_string \<Rightarrow> js_string list \<Rightarrow> js_string" where
  "js_join sep [] = []"
| "js_join sep [p] = p"
| "js_join sep (p # q # ps) = p @ sep @ js_join sep (q # ps)"

definition js_replace_unit :: "nat \<Rightarrow> js_string \<Rightarrow> js_string \<Rightarrow> js_string" where
  "js_replace_unit c r s = concat (map (\<lambda>x. if x = c then r else [x]) s)"

fun crlf_to_lf :: "js_string \<Rightarrow> js_string" where
  "crlf_to_lf (x # y # xs) =
     (if x = 13 \<and> y = 10 then 10 # crlf_to_lf xs else x # crlf_to_lf (y # xs))"
| "crlf_to_lf xs = xs"

text \<open>\<open>Array.from(new Set(xs))\<close>: the first occurrence of every element, in order.\<close>

fun js_uniq :: "'a list \<Rightarrow> 'a list" where
  "js_uniq [] = []"
| "js_uniq (x # xs) = x # filter (\<lambda>y. y \<noteq> x) (js_uniq xs)"

text \<open>\<open>Array.prototype.sort\<close>, which is stable: insertion from the right.\<close>

fun js_insert_by :: "('a \<Rightarrow> 'a \<Rightarrow> int) \<Rightarrow> 'a \<Rightarrow> 'a list \<Rightarrow> 'a list" where
  "js_insert_by cmp x [] = [x]"
| "js_insert_by cmp x (y # ys) =
     (if cmp x y \<le> 0 then x # y # ys else y # js_insert_by cmp x ys)"

definition js_sort :: "('a \<Rightarrow> 'a \<Rightarrow> int) \<Rightarrow> 'a list \<Rightarrow> 'a list" where
  "js_sort cmp xs = foldr (js_insert_by cmp) xs []"

section \<open>Lemmas on strings\<close>

lemma js_atD: "js_at t i = Some c \<Longrightarrow> i < length t \<and> t ! i = c"
  by (simp add: js_at_def split: if_splits)

lemma js_at_None [simp]: "js_at t i = None \<longleftrightarrow> length t \<le> i"
  by (simp add: js_at_def)

lemma js_at_nth: "i < length t \<Longrightarrow> js_at t i = Some (t ! i)"
  by (simp add: js_at_def)

lemma js_slice_length [simp]: "length (js_slice t a b) = min (b - a) (length t - a)"
  by (simp add: js_slice_def min.commute)

lemma js_slice_empty [simp]: "b \<le> a \<Longrightarrow> js_slice t a b = []"
  by (simp add: js_slice_def)

lemma js_slice_all [simp]: "length t \<le> b \<Longrightarrow> js_slice t 0 b = t"
  by (simp add: js_slice_def)

lemma js_slice_nth:
  "a + k < b \<Longrightarrow> b \<le> length t \<Longrightarrow> js_slice t a b ! k = t ! (a + k)"
  by (simp add: js_slice_def)

lemma js_slice_append:
  "a \<le> b \<Longrightarrow> b \<le> c \<Longrightarrow> js_slice t a b @ js_slice t b c = js_slice t a c"
proof -
  assume ab: "a \<le> b" and bc: "b \<le> c"
  have "drop b t = drop (b - a) (drop a t)" using ab by simp
  moreover have "c - a = (b - a) + (c - b)" using ab bc by simp
  ultimately show ?thesis unfolding js_slice_def by (simp only: take_add)
qed

lemma js_slice_slice:
  "b \<le> d - c \<Longrightarrow> js_slice (js_slice t c d) a b = js_slice t (c + a) (c + b)"
proof -
  assume b: "b \<le> d - c"
  have "drop a (take (d - c) (drop c t)) = take (d - c - a) (drop (c + a) t)"
    by (simp add: drop_take add.commute)
  with b show ?thesis by (simp add: js_slice_def min_absorb1)
qed

lemma js_slice_to_end: "length t \<le> b \<Longrightarrow> js_slice t a b = drop a t"
  by (simp add: js_slice_def)

lemma js_index_ofD:
  assumes "js_index_of t p i = Some k"
  shows "i \<le> k \<and> k + length p \<le> length t \<and> js_slice t k (k + length p) = p"
proof -
  from assms have k: "k \<in> set [i..<Suc (length t)]" and pre: "js_starts_at p t k"
    unfolding js_index_of_def by (auto simp: find_Some_iff in_set_conv_nth simp del: upt_Suc)
  from pre obtain r where r: "drop k t = p @ r"
    by (auto simp: js_starts_at_def prefix_def)
  have "length t - k = length p + length r" using arg_cong [OF r, of length] by simp
  moreover have "i \<le> k \<and> k \<le> length t" using k by (auto simp del: upt_Suc)
  ultimately have "i \<le> k \<and> k + length p \<le> length t" by arith
  with r show ?thesis by (simp add: js_slice_def)
qed

lemma js_index_of_least:
  assumes "js_index_of t p i = Some k" "i \<le> j" "j < k"
  shows "\<not> js_starts_at p t j"
proof -
  from assms(1) obtain m where m: "m < length [i..<Suc (length t)]"
    "k = [i..<Suc (length t)] ! m"
    "\<forall>n<m. \<not> js_starts_at p t ([i..<Suc (length t)] ! n)"
    unfolding js_index_of_def by (auto simp: find_Some_iff simp del: upt_Suc)
  then have "k = i + m" by (simp del: upt_Suc)
  then have "j - i < m" and "[i..<Suc (length t)] ! (j - i) = j"
    using assms(2,3) m(1) by (auto simp del: upt_Suc)
  with m(3) show ?thesis by metis
qed

lemma js_trim_startE: "\<exists>pre. s = pre @ js_trim_start s \<and> (\<forall>c\<in>set pre. js_space c)"
  unfolding js_trim_start_def
  by (metis set_takeWhileD takeWhile_dropWhile_id)

lemma js_trim_endE: "\<exists>suf. s = js_trim_end s @ suf \<and> (\<forall>c\<in>set suf. js_space c)"
proof -
  obtain pre where "rev s = pre @ dropWhile js_space (rev s)" "\<forall>c\<in>set pre. js_space c"
    by (metis set_takeWhileD takeWhile_dropWhile_id)
  then have "s = js_trim_end s @ rev pre" "\<forall>c\<in>set (rev pre). js_space c"
    unfolding js_trim_end_def by (metis rev_append rev_rev_ident, simp)
  then show ?thesis by blast
qed

lemma js_trim_Nil_iff: "js_trim s = [] \<longleftrightarrow> (\<forall>c\<in>set s. js_space c)"
proof
  assume "js_trim s = []"
  then have "\<forall>c\<in>set (js_trim_start s). js_space c"
    using js_trim_endE [of "js_trim_start s"] by (simp add: js_trim_def)
  then show "\<forall>c\<in>set s. js_space c"
    using js_trim_startE [of s] by (metis Un_iff set_append)
next
  assume "\<forall>c\<in>set s. js_space c"
  then have "js_trim_start s = []" by (simp add: js_trim_start_def)
  then show "js_trim s = []" by (simp add: js_trim_def js_trim_end_def)
qed

lemma js_trim_Nil [simp]: "js_trim [] = []"
  by (simp add: js_trim_Nil_iff)

lemma set_js_trim: "set (js_trim s) \<subseteq> set s"
  unfolding js_trim_def js_trim_end_def js_trim_start_def
  by (metis dual_order.trans set_dropWhileD set_rev subsetI)

lemma js_trim_start_idem [simp]: "js_trim_start (js_trim_start s) = js_trim_start s"
  by (simp add: js_trim_start_def)

lemma js_trim_end_idem [simp]: "js_trim_end (js_trim_end s) = js_trim_end s"
  by (simp add: js_trim_end_def)

lemma js_trim_end_hd:
  assumes "js_trim_end s \<noteq> []" shows "hd (js_trim_end s) = hd s"
  using assms js_trim_endE [of s] by (metis hd_append2)

lemma js_trim_start_trim_end:
  "js_trim_start (js_trim_end (js_trim_start s)) = js_trim_end (js_trim_start s)"
proof (cases "js_trim_end (js_trim_start s)")
  case Nil
  then show ?thesis by (simp add: js_trim_start_def)
next
  case (Cons a u)
  then have "a = hd (js_trim_start s)" using js_trim_end_hd by (metis list.distinct(1) list.sel(1))
  moreover have "js_trim_start s \<noteq> []" using Cons by (auto simp: js_trim_end_def)
  ultimately have "\<not> js_space a" by (simp add: js_trim_start_def hd_dropWhile)
  with Cons show ?thesis by (simp add: js_trim_start_def)
qed

lemma js_trim_idem [simp]: "js_trim (js_trim s) = js_trim s"
  by (simp add: js_trim_def js_trim_start_trim_end)

lemma js_join_Cons: "ps \<noteq> [] \<Longrightarrow> js_join sep (p # ps) = p @ sep @ js_join sep ps"
  by (cases ps) auto

lemma js_split_nonempty [simp]: "js_split c s \<noteq> []"
  by (induction s) (auto split: list.splits)

lemma js_join_split: "js_join [c] (js_split c s) = s"
proof (induction s)
  case (Cons x xs)
  then show ?case
    by (cases "js_split c xs" rule: list.exhaust; cases "x = c")
      (auto simp: js_join_Cons split: list.splits, metis append_Cons js_join.simps(2) js_join_Cons)
qed simp

lemma js_split_part_free: "p \<in> set (js_split c s) \<Longrightarrow> c \<notin> set p"
  by (induction s arbitrary: p) (auto split: if_splits list.splits)

lemma set_js_uniq [simp]: "set (js_uniq xs) = set xs"
  by (induction xs) auto

lemma distinct_js_uniq [simp]: "distinct (js_uniq xs)"
  by (induction xs) auto

lemma js_uniq_id: "distinct xs \<Longrightarrow> js_uniq xs = xs"
  by (induction xs) (auto simp: filter_id_conv)

lemma set_js_insert_by [simp]: "set (js_insert_by cmp x ys) = insert x (set ys)"
  by (induction ys) auto

lemma set_js_sort [simp]: "set (js_sort cmp xs) = set xs"
  by (induction xs) (auto simp: js_sort_def)

lemma length_js_insert_by [simp]: "length (js_insert_by cmp x ys) = Suc (length ys)"
  by (induction ys) auto

lemma length_js_sort [simp]: "length (js_sort cmp xs) = length xs"
  by (induction xs) (auto simp: js_sort_def)

lemma js_lower_append [simp]: "js_lower (a @ b) = js_lower a @ js_lower b"
  by (simp add: js_lower_def)

lemma js_lower_Nil [simp]: "js_lower [] = []"
  by (simp add: js_lower_def)

lemma lower_unit_idem: "js_lower (lower_unit c) = lower_unit c"
  by (auto simp: lower_unit_def js_lower_def ascii_upper_def)

lemma js_lower_idem [simp]: "js_lower (js_lower s) = js_lower s"
proof (induction s)
  case (Cons c s)
  have "js_lower (c # s) = lower_unit c @ js_lower s" by (simp add: js_lower_def)
  with Cons show ?case by (simp add: lower_unit_idem)
qed (simp add: js_lower_def)

lemma js_trim_id:
  assumes "s \<noteq> [] \<Longrightarrow> \<not> js_space (hd s)" "s \<noteq> [] \<Longrightarrow> \<not> js_space (last s)"
  shows "js_trim s = s"
proof (cases "s = []")
  case False
  then have "dropWhile js_space s = s" "dropWhile js_space (rev s) = rev s"
    using assms by (cases s; simp) (cases s rule: rev_cases; use assms in simp)
  then show ?thesis by (simp add: js_trim_def js_trim_start_def js_trim_end_def)
qed simp

lemma js_trim_ends:
  assumes "js_trim s \<noteq> []"
  shows "\<not> js_space (hd (js_trim s))" "\<not> js_space (last (js_trim s))"
proof -
  let ?u = "js_trim_start s"
  have u: "js_trim_end ?u \<noteq> []" using assms by (simp add: js_trim_def)
  then have "?u \<noteq> []" by (auto simp: js_trim_end_def)
  then have "\<not> js_space (hd ?u)" by (simp add: js_trim_start_def hd_dropWhile)
  with u js_trim_end_hd [of ?u] show "\<not> js_space (hd (js_trim s))" by (simp add: js_trim_def)
  from u have "dropWhile js_space (rev ?u) \<noteq> []" by (simp add: js_trim_end_def)
  then show "\<not> js_space (last (js_trim s))"
    by (simp add: js_trim_def js_trim_end_def last_rev hd_dropWhile)
qed

lemma lower_unit_nonempty [simp]: "lower_unit c \<noteq> []"
  by (simp add: lower_unit_def)

lemma lower_unit_cases:
  "x \<in> set (lower_unit c) \<Longrightarrow> x = c \<or> x = 107 \<or> x = 105 \<or> x = 775 \<or> (97 \<le> x \<and> x \<le> 254 \<and> x \<noteq> 160)"
  by (simp add: lower_unit_def ascii_upper_def split: if_splits; linarith | blast)

lemma lower_unit_not_space:
  assumes "x \<in> set (lower_unit c)" "\<not> js_space c" shows "\<not> js_space x"
proof -
  have "97 \<le> x \<Longrightarrow> x \<le> 254 \<Longrightarrow> x \<noteq> 160 \<Longrightarrow> \<not> js_space x" by (simp add: js_space_def)
  moreover have "x = 107 \<or> x = 105 \<or> x = 775 \<Longrightarrow> \<not> js_space x" by (auto simp: js_space_def)
  ultimately show ?thesis using lower_unit_cases [OF assms(1)] assms(2) by fast
qed

lemma js_lower_hd: "js_lower (a # u) \<noteq> [] \<and> hd (js_lower (a # u)) \<in> set (lower_unit a)"
  using lower_unit_nonempty [of a] by (simp add: js_lower_def)

lemma js_lower_last: "js_lower (u @ [a]) \<noteq> [] \<and> last (js_lower (u @ [a])) \<in> set (lower_unit a)"
  using lower_unit_nonempty [of a] by (simp add: js_lower_def)

lemma js_trim_lower_trim [simp]: "js_trim (js_lower (js_trim s)) = js_lower (js_trim s)"
proof (cases "js_trim s = []")
  case False
  from False obtain a u where au: "js_trim s = a # u" by (cases "js_trim s") auto
  from False obtain v b where vb: "js_trim s = v @ [b]" by (cases "js_trim s" rule: rev_cases) auto
  have "\<not> js_space a" "\<not> js_space b"
    using js_trim_ends(1) [OF False] js_trim_ends(2) [OF False] by (simp add: au, simp add: vb)
  then show ?thesis
    using js_lower_hd [of a u, folded au] js_lower_last [of v b, folded vb]
      lower_unit_not_space by (intro js_trim_id) blast+
qed (simp add: js_lower_def)

lemma lower_unit_of_space: "js_space c \<Longrightarrow> lower_unit c = [c]"
  by (auto simp: lower_unit_def js_space_def ascii_upper_def)

lemma trim_lower_no_space:
  assumes "\<forall>c\<in>set (js_lower db). \<not> js_space c" shows "js_trim db = db"
proof -
  have "\<not> js_space c" if "c \<in> set db" for c
  proof
    assume "js_space c"
    then have "c \<in> set (js_lower db)"
      using that lower_unit_of_space [of c] by (force simp: js_lower_def)
    with assms \<open>js_space c\<close> show False by blast
  qed
  then show ?thesis by (intro js_trim_id) auto
qed

lemma find_SomeD: "find P xs = Some x \<Longrightarrow> x \<in> set xs \<and> P x"
  by (induction xs) (auto split: if_splits)

subsection \<open>Reading a suffix\<close>

lemma js_at_drop [simp]: "js_at (drop k t) i = js_at t (k + i)"
  by (auto simp: js_at_def)

lemma js_starts_at_drop [simp]: "js_starts_at p (drop k t) i = js_starts_at p t (k + i)"
  by (simp add: js_starts_at_def add.commute)

lemma js_slice_drop [simp]: "js_slice (drop k t) a b = js_slice t (k + a) (k + b)"
  by (simp add: js_slice_def add.commute)

lemma find_map_option: "find P (map f xs) = map_option f (find (\<lambda>x. P (f x)) xs)"
  by (induction xs) auto

lemma js_index_of_drop:
  assumes "k \<le> length t"
  shows "js_index_of (drop k t) p i = map_option (\<lambda>x. x - k) (js_index_of t p (k + i))"
proof -
  have "[k + i..<Suc (length t)] = map ((+) k) [i..<Suc (length t - k)]"
    using assms by (intro nth_equalityI) (auto simp del: upt_Suc)
  then have "js_index_of t p (k + i)
      = map_option ((+) k) (find (\<lambda>x. js_starts_at p t (k + x)) [i..<Suc (length t - k)])"
    by (simp add: js_index_of_def find_map_option del: upt_Suc)
  then show ?thesis
    by (simp add: js_index_of_def option.map_comp comp_def option.map_ident del: upt_Suc)
qed

end
