(* ===== verification/JsScan.thy ===== *)
theory JsScan
  imports JsPrelude
begin

text \<open>
  The loop combinator of the scanners. A scanner of the source is a \<open>for\<close> or \<open>while\<close> loop over a
  position of a text, with a body that changes local variables, continues, breaks or returns.
  \<open>scan_loop pos len step\<close> runs \<open>step\<close> while \<open>pos s < len\<close>; a body that \<open>Return\<close>s stops the loop.
  A body that does not move the position would run forever in the source; the combinator stops
  there, and the locale \<open>scanner\<close> asks every interpretation to prove that it never happens, so
  that the loop is the loop of the source and ends at the end of the text.
\<close>

datatype ('s, 'r) flow = Continue 's | Return 'r

function scan_loop ::
  "('s \<Rightarrow> nat) \<Rightarrow> nat \<Rightarrow> ('s \<Rightarrow> ('s, 'r) flow) \<Rightarrow> 's \<Rightarrow> ('s, 'r) flow" where
  "scan_loop pos len step s =
     (if pos s < len then
        (case step s of
           Return r \<Rightarrow> Return r
         | Continue s' \<Rightarrow> if pos s < pos s' then scan_loop pos len step s' else Continue s')
      else Continue s)"
  by pat_completeness auto
termination
  by (relation "measure (\<lambda>(pos, len, step, s). len - pos s)") auto

declare scan_loop.simps [simp del]

text \<open>The position of a loop whose only state is the index.\<close>

definition at_index :: "nat \<Rightarrow> nat" where
  "at_index i = i"

lemma at_index_less [simp]: "at_index i < n \<longleftrightarrow> i < n" "n < at_index i \<longleftrightarrow> n < i"
  by (simp_all add: at_index_def)

lemma at_index_le [simp]: "at_index i \<le> n \<longleftrightarrow> i \<le> n" "n \<le> at_index i \<longleftrightarrow> n \<le> i"
  by (simp_all add: at_index_def)

text \<open>A loop whose only exit besides the end of the text is \<open>break\<close> returns its state.\<close>

fun loop_state :: "('s, 's) flow \<Rightarrow> 's" where
  "loop_state (Continue s) = s"
| "loop_state (Return s) = s"

text \<open>A loop that returns \<open>r\<close> from its body, or \<open>d\<close> after its end.\<close>

fun loop_result :: "'r \<Rightarrow> ('s, 'r) flow \<Rightarrow> 'r" where
  "loop_result d (Continue s) = d"
| "loop_result d (Return r) = r"

locale scanner =
  fixes pos :: "'s \<Rightarrow> nat" and len :: nat and step :: "'s \<Rightarrow> ('s, 'r) flow"
  assumes progress: "pos s < len \<Longrightarrow> step s = Continue s' \<Longrightarrow> pos s < pos s'"
begin

lemma unfold:
  "scan_loop pos len step s =
     (if pos s < len then
        (case step s of Return r \<Rightarrow> Return r | Continue s' \<Rightarrow> scan_loop pos len step s')
      else Continue s)"
  by (subst scan_loop.simps) (auto split: flow.splits dest: progress)

lemma induct_loop:
  assumes "\<And>s. (\<And>s'. pos s < len \<Longrightarrow> step s = Continue s' \<Longrightarrow> P s') \<Longrightarrow> P s"
  shows "P s"
proof (induction "len - pos s" arbitrary: s rule: less_induct)
  case less
  show ?case
  proof (rule assms)
    fix s' assume "pos s < len" "step s = Continue s'"
    then have "len - pos s' < len - pos s" using progress [of s s'] by linarith
    then show "P s'" by (rule less)
  qed
qed

lemma at_end [simp]: "len \<le> pos s \<Longrightarrow> scan_loop pos len step s = Continue s"
  by (simp add: unfold [of s])

lemma step_Return: "pos s < len \<Longrightarrow> step s = Return r \<Longrightarrow> scan_loop pos len step s = Return r"
  by (simp add: unfold [of s])

lemma step_Continue:
  "pos s < len \<Longrightarrow> step s = Continue s' \<Longrightarrow>
     scan_loop pos len step s = scan_loop pos len step s'"
  by (simp add: unfold [of s])

lemma runs_to_end: "scan_loop pos len step s = Continue t \<Longrightarrow> len \<le> pos t"
proof (induction s rule: induct_loop)
  case (1 s)
  then show ?case
    by (subst (asm) (2) unfold) (auto split: if_splits flow.splits)
qed

lemma moves_forward: "scan_loop pos len step s = Continue t \<Longrightarrow> pos s \<le> pos t"
proof (induction s rule: induct_loop)
  case (1 s)
  then show ?case
    by (subst (asm) (2) unfold)
      (auto split: if_splits flow.splits dest: progress intro: order_trans less_imp_le)
qed

lemma invariant:
  assumes "scan_loop pos len step s = Continue t" "I s"
    and "\<And>s s'. I s \<Longrightarrow> pos s < len \<Longrightarrow> step s = Continue s' \<Longrightarrow> I s'"
  shows "I t"
  using assms(1,2)
proof (induction s rule: induct_loop)
  case (1 s)
  show ?case
  proof (cases "pos s < len")
    case True
    with 1(2) obtain s' where s': "step s = Continue s'"
      by (subst (asm) unfold) (auto split: flow.splits)
    have "I s'" by (rule assms(3) [OF 1(3) True s'])
    moreover have "scan_loop pos len step s' = Continue t"
      using 1(2) by (simp add: step_Continue [OF True s'])
    ultimately show ?thesis using 1(1) [OF True s'] by blast
  next
    case False
    with 1(2,3) show ?thesis by simp
  qed
qed

lemma return_from:
  assumes "scan_loop pos len step s = Return r" "I s"
    and "\<And>s s'. I s \<Longrightarrow> pos s < len \<Longrightarrow> step s = Continue s' \<Longrightarrow> I s'"
    and "\<And>s r. I s \<Longrightarrow> pos s < len \<Longrightarrow> step s = Return r \<Longrightarrow> Q r"
  shows "Q r"
  using assms(1,2)
proof (induction s rule: induct_loop)
  case (1 s)
  have lt: "pos s < len" using 1(2) by (subst (asm) unfold) (auto split: if_splits)
  show ?case
  proof (cases "step s")
    case (Continue s')
    have "I s'" by (rule assms(3) [OF 1(3) lt Continue])
    moreover have "scan_loop pos len step s' = Return r"
      using 1(2) by (simp add: step_Continue [OF lt Continue])
    ultimately show ?thesis using 1(1) [OF lt Continue] by blast
  next
    case (Return r')
    with 1(2) lt have "r' = r" by (simp add: step_Return)
    with Return lt assms(4) [OF 1(3)] show ?thesis by blast
  qed
qed

end

text \<open>A scanner that never breaks or returns runs over the whole text.\<close>

locale total_scanner = scanner pos len step
  for pos :: "'s \<Rightarrow> nat" and len :: nat and step :: "'s \<Rightarrow> ('s, 'r) flow" +
  assumes continues: "pos s < len \<Longrightarrow> \<exists>s'. step s = Continue s'"
begin

lemma total: "\<exists>t. scan_loop pos len step s = Continue t \<and> len \<le> pos t"
proof (induction s rule: induct_loop)
  case (1 s)
  show ?case
  proof (cases "pos s < len")
    case True
    then obtain s' where s': "step s = Continue s'" using continues by blast
    from 1 [OF True s'] show ?thesis by (simp add: step_Continue [OF True s'])
  qed simp
qed

end

text \<open>
  A loop whose body is the whole iteration of a \<open>for\<close> over the index: the body may move the index
  itself (to skip a token), and the \<open>for\<close> then adds one.
\<close>

definition each_index ::
  "((nat \<Rightarrow> nat) \<Rightarrow> 's \<Rightarrow> 's) \<Rightarrow> ('s \<Rightarrow> ('s, 'r) flow) \<Rightarrow> 's \<Rightarrow> ('s, 'r) flow" where
  "each_index upd body s =
     (case body s of Return r \<Rightarrow> Return r | Continue s' \<Rightarrow> Continue (upd Suc s'))"

lemma each_index_Continue:
  "each_index upd body s = Continue s' \<longleftrightarrow> (\<exists>b. body s = Continue b \<and> s' = upd Suc b)"
  by (auto simp: each_index_def split: flow.splits)

lemma each_index_Return:
  "each_index upd body s = Return r \<longleftrightarrow> body s = Return r"
  by (auto simp: each_index_def split: flow.splits)

text \<open>A run of positions that satisfy a predicate: \<open>while (i < n && P(text[i])) i++\<close>.\<close>

definition skip_while :: "(nat \<Rightarrow> bool) \<Rightarrow> js_string \<Rightarrow> nat \<Rightarrow> nat" where
  "skip_while P t i = i + length (takeWhile P (drop i t))"

lemma skip_while_ge [simp]: "i \<le> skip_while P t i"
  by (simp add: skip_while_def)

lemma skip_while_le [simp]: "i \<le> length t \<Longrightarrow> skip_while P t i \<le> length t"
  using length_takeWhile_le [of P "drop i t"] by (simp add: skip_while_def)

lemma skip_while_stop: "skip_while P t i < length t \<Longrightarrow> \<not> P (t ! skip_while P t i)"
  using nth_length_takeWhile [of P "drop i t"]
  by (simp add: skip_while_def less_diff_conv add.commute)

lemma skip_while_all: "i \<le> j \<Longrightarrow> j < skip_while P t i \<Longrightarrow> P (t ! j)"
proof -
  assume ij: "i \<le> j" and j: "j < skip_while P t i"
  then have k: "j - i < length (takeWhile P (drop i t))" by (simp add: skip_while_def less_diff_conv2)
  then have "takeWhile P (drop i t) ! (j - i) \<in> set (takeWhile P (drop i t))" by simp
  then have "P (takeWhile P (drop i t) ! (j - i))" using set_takeWhileD by metis
  moreover have "takeWhile P (drop i t) ! (j - i) = drop i t ! (j - i)"
    by (rule takeWhile_nth [OF k])
  moreover have "j - i < length (drop i t)"
    using k length_takeWhile_le [of P "drop i t"] by linarith
  ultimately show ?thesis using ij by simp
qed

end
