(* ===== verification/SqlLexical.thy ===== *)
theory SqlLexical
  imports JsScan
begin

text \<open>
  The lexical helpers of \<open>src/frontend/src/utils/sqlStatementSelection.ts\<close>: white space, the
  dialects' comment and identifier conventions, executable comments, and the two loops that walk
  over the trivia before a statement (\<open>hasExecutableSqlStatementContent\<close> and
  \<open>stripLeadingSqlTrivia\<close>).
\<close>

section \<open>Characters and dialects\<close>

definition isWhitespace :: "nat \<Rightarrow> bool" where
  [char_defs]: "isWhitespace ch \<longleftrightarrow>
     ch = cu CHR '' '' \<or> ch = 9 \<or> ch = 10 \<or> ch = 13 \<or> ch = 12"

definition isHorizontalWhitespace :: "nat \<Rightarrow> bool" where
  [char_defs]: "isHorizontalWhitespace ch \<longleftrightarrow> ch = cu CHR '' '' \<or> ch = 9 \<or> ch = 13 \<or> ch = 12"

text \<open>The two statement delimiters: the ASCII semicolon and the full-width one (U+FF1B).\<close>

definition isDelimiter :: "nat \<Rightarrow> bool" where
  [char_defs]: "isDelimiter ch \<longleftrightarrow> ch = cu CHR '';'' \<or> ch = 65307"

definition isDelimiterFollowupOffset :: "js_string \<Rightarrow> nat \<Rightarrow> bool" where
  "isDelimiterFollowupOffset text offset =
     (if offset = 0 \<or> \<not> js_at_is text (offset - 1) isDelimiter then False
      else if length text \<le> offset \<or> isWhitespace (text ! offset) then True
      else (js_at text offset = Some (cu CHR ''-'') \<and> js_at text (offset + 1) = Some (cu CHR ''-''))
         \<or> (js_at text offset = Some (cu CHR ''/'') \<and> js_at text (offset + 1) = Some (cu CHR ''*'')))"

definition isSqlIdentifierStart :: "nat \<Rightarrow> bool" where
  [char_defs]: "isSqlIdentifierStart ch \<longleftrightarrow> ascii_alpha ch \<or> ch = 95"

definition isSqlIdentifierPart :: "nat \<Rightarrow> bool" where
  [char_defs]: "isSqlIdentifierPart ch \<longleftrightarrow>
     ascii_alpha ch \<or> ascii_digit ch \<or> ch = 95 \<or> ch = cu CHR ''$'' \<or> ch = cu CHR ''#''"

definition normalizeSqlLexicalDbType :: "js_string \<Rightarrow> js_string" where
  "normalizeSqlLexicalDbType dbType =
     (let normalized = js_lower (js_trim dbType) in
      if normalized = js ''doris'' then js ''diros''
      else if normalized = js ''greatdb'' \<or> normalized = js ''gdb'' then js ''goldendb''
      else if normalized = js ''mssql'' \<or> normalized = js ''sql_server''
              \<or> normalized = js ''sql-server'' then js ''sqlserver''
      else normalized)"

definition supportsSqlBracketIdentifier :: "js_string \<Rightarrow> bool" where
  "supportsSqlBracketIdentifier dbType \<longleftrightarrow>
     normalizeSqlLexicalDbType dbType \<in> set [js ''sqlserver'', js ''sqlite'']"

definition supportsSqlEscapedBracketIdentifier :: "js_string \<Rightarrow> bool" where
  "supportsSqlEscapedBracketIdentifier dbType \<longleftrightarrow>
     normalizeSqlLexicalDbType dbType = js ''sqlserver''"

definition MYSQL_DASH_COMMENT_DIALECTS :: "js_string list" where
  "MYSQL_DASH_COMMENT_DIALECTS =
     [js ''mysql'', js ''mariadb'', js ''oceanbase'', js ''diros'', js ''starrocks'',
      js ''goldendb'', js ''sphinx'', js ''tidb'']"

definition supportsSqlHashLineComment :: "js_string \<Rightarrow> bool" where
  "supportsSqlHashLineComment dbType \<longleftrightarrow>
     (let normalized = normalizeSqlLexicalDbType dbType in
      normalized = [] \<or> normalized = js ''clickhouse''
      \<or> normalized \<in> set MYSQL_DASH_COMMENT_DIALECTS)"

definition isSqlDashLineCommentStart :: "js_string \<Rightarrow> nat option \<Rightarrow> bool" where
  "isSqlDashLineCommentStart dbType next2 \<longleftrightarrow>
     normalizeSqlLexicalDbType dbType \<notin> set MYSQL_DASH_COMMENT_DIALECTS
     \<or> (case next2 of None \<Rightarrow> True | Some c \<Rightarrow> isWhitespace c)"

definition isExecutableSqlBlockComment :: "js_string \<Rightarrow> nat \<Rightarrow> js_string \<Rightarrow> bool" where
  "isExecutableSqlBlockComment sql index dbType =
     (let isMySqlVersionComment = js_starts_at (js ''/*!'') sql index;
          isMariaDbVersionComment = js_lower (js_slice sql index (index + 4)) = js ''/*m!'' in
      if \<not> isMySqlVersionComment \<and> \<not> isMariaDbVersionComment then False
      else
        (let normalized = normalizeSqlLexicalDbType dbType in
         if normalized = [] then True
         else if isMariaDbVersionComment then normalized = js ''mariadb''
         else normalized \<in> set MYSQL_DASH_COMMENT_DIALECTS))"

section \<open>Walking over trivia\<close>

text \<open>The end of a line comment and of a block comment, and the end of the text without one.\<close>

definition lineCommentEnd :: "js_string \<Rightarrow> nat \<Rightarrow> nat" where
  "lineCommentEnd text i =
     (case js_index_of text [10] i of None \<Rightarrow> length text | Some lineEnd \<Rightarrow> lineEnd + 1)"

definition blockCommentEnd :: "js_string \<Rightarrow> nat \<Rightarrow> nat" where
  "blockCommentEnd text i =
     (case js_index_of text (js ''*/'') i of None \<Rightarrow> length text | Some blockEnd \<Rightarrow> blockEnd + 2)"

definition lineCommentAt :: "js_string \<Rightarrow> js_string \<Rightarrow> nat \<Rightarrow> bool" where
  "lineCommentAt text dbType i \<longleftrightarrow>
     (js_at text i = Some (cu CHR ''#'') \<and> supportsSqlHashLineComment dbType)
     \<or> (js_at text i = Some (cu CHR ''-'') \<and> js_at text (i + 1) = Some (cu CHR ''-'')
         \<and> isSqlDashLineCommentStart dbType (js_at text (i + 2)))"

definition blockCommentAt :: "js_string \<Rightarrow> nat \<Rightarrow> bool" where
  "blockCommentAt text i \<longleftrightarrow>
     js_at text i = Some (cu CHR ''/'') \<and> js_at text (i + 1) = Some (cu CHR ''*'')"

text \<open>The body of the loop of \<open>hasExecutableSqlStatementContent\<close>.\<close>

definition executableContentStep ::
  "js_string \<Rightarrow> js_string \<Rightarrow> nat \<Rightarrow> (nat, bool) flow" where
  "executableContentStep text dbType index =
     (if isWhitespace (text ! index) then Continue (index + 1)
      else if lineCommentAt text dbType index then
        Continue (lineCommentEnd text
          (index + (if js_at text index = Some (cu CHR ''#'') then 1 else 2)))
      else if blockCommentAt text index then
        (if isExecutableSqlBlockComment text index dbType then Return True
         else Continue (blockCommentEnd text (index + 2)))
      else Return True)"

definition hasExecutableFrom :: "js_string \<Rightarrow> js_string \<Rightarrow> nat \<Rightarrow> bool" where
  "hasExecutableFrom text dbType index =
     loop_result False (scan_loop at_index (length text) (executableContentStep text dbType) index)"

definition hasExecutableSqlStatementContent :: "js_string \<Rightarrow> js_string \<Rightarrow> bool" where
  "hasExecutableSqlStatementContent sql dbType = hasExecutableFrom sql dbType 0"

text \<open>
  The body of the loop of \<open>stripLeadingSqlTrivia\<close>, which also stops at an optimizer hint; \<open>break\<close>
  returns the position.
\<close>

definition leadingTriviaStep :: "js_string \<Rightarrow> js_string \<Rightarrow> nat \<Rightarrow> (nat, nat) flow" where
  "leadingTriviaStep text dbType index =
     (if isWhitespace (text ! index) then Continue (index + 1)
      else if lineCommentAt text dbType index then
        Continue (lineCommentEnd text
          (index + (if js_at text index = Some (cu CHR ''#'') then 1 else 2)))
      else if blockCommentAt text index then
        (if isExecutableSqlBlockComment text index dbType
            \<or> js_starts_at (js ''/*+'') text index then Return index
         else Continue (blockCommentEnd text (index + 2)))
      else Return index)"

definition leadingTriviaEnd :: "js_string \<Rightarrow> js_string \<Rightarrow> nat" where
  "leadingTriviaEnd text dbType =
     loop_state (scan_loop at_index (length text) (leadingTriviaStep text dbType) 0)"

definition stripLeadingSqlTrivia :: "js_string \<Rightarrow> js_string \<Rightarrow> js_string" where
  "stripLeadingSqlTrivia sql dbType =
     js_trim_end (drop (leadingTriviaEnd sql dbType) sql)"

section \<open>The loops end, and what they keep\<close>

lemma lineCommentEnd_gt: "i \<le> k \<Longrightarrow> i < length text \<Longrightarrow> i < lineCommentEnd text k"
  by (auto simp: lineCommentEnd_def split: option.splits dest!: js_index_ofD)

lemma blockCommentEnd_gt: "i \<le> k \<Longrightarrow> i < length text \<Longrightarrow> i < blockCommentEnd text k"
  by (auto simp: blockCommentEnd_def split: option.splits dest!: js_index_ofD)

lemma lineCommentEnd_le: "lineCommentEnd text k \<le> length text"
  by (auto simp: lineCommentEnd_def split: option.splits dest!: js_index_ofD)

lemma blockCommentEnd_le: "blockCommentEnd text k \<le> length text"
  by (auto simp: blockCommentEnd_def split: option.splits dest!: js_index_ofD)

interpretation exec_content: scanner at_index "length t" "executableContentStep t db"
  for t db
  by unfold_locales
    (auto simp: executableContentStep_def lineCommentEnd_gt blockCommentEnd_gt split: if_splits)

interpretation trivia: scanner at_index "length t" "leadingTriviaStep t db"
  for t db
  by unfold_locales
    (auto simp: leadingTriviaStep_def lineCommentEnd_gt blockCommentEnd_gt split: if_splits)

lemma hasExecutableFrom_end: "length t \<le> i \<Longrightarrow> \<not> hasExecutableFrom t db i"
  by (simp add: hasExecutableFrom_def)

lemma leadingTrivia_same_executable:
  "hasExecutableFrom t db (loop_state (scan_loop at_index (length t) (leadingTriviaStep t db) i))
     = hasExecutableFrom t db i"
proof (induction i rule: trivia.induct_loop [where t = t and db = db])
  case (1 i)
  show ?case
  proof (cases "i < length t")
    case True
    show ?thesis
    proof (cases "leadingTriviaStep t db i")
      case (Continue j)
      then have "executableContentStep t db i = Continue j"
        by (auto simp: leadingTriviaStep_def executableContentStep_def split: if_splits)
      with True have "hasExecutableFrom t db i = hasExecutableFrom t db j"
        by (simp add: hasExecutableFrom_def exec_content.step_Continue)
      with 1 Continue True show ?thesis by (simp add: trivia.step_Continue)
    next
      case (Return j)
      then have "j = i" by (auto simp: leadingTriviaStep_def split: if_splits)
      with Return True show ?thesis by (simp add: trivia.step_Return)
    qed
  qed simp
qed

text \<open>The scan of a suffix is the scan of the text from there.\<close>

lemma isExecutable_drop:
  "isExecutableSqlBlockComment (drop k t) i db = isExecutableSqlBlockComment t (k + i) db"
  by (simp add: isExecutableSqlBlockComment_def add.assoc)

lemma commentAt_drop:
  "lineCommentAt (drop k t) db i = lineCommentAt t db (k + i)"
  "blockCommentAt (drop k t) i = blockCommentAt t (k + i)"
  by (simp_all add: lineCommentAt_def blockCommentAt_def add.assoc)

lemma commentEnd_drop:
  assumes "k \<le> length t"
  shows "lineCommentEnd (drop k t) i = lineCommentEnd t (k + i) - k"
    and "blockCommentEnd (drop k t) i = blockCommentEnd t (k + i) - k"
  using assms
  by (auto simp: lineCommentEnd_def blockCommentEnd_def js_index_of_drop dest!: js_index_ofD
      split: option.splits)

lemma executableContentStep_drop:
  assumes "k + i < length t"
  shows "executableContentStep (drop k t) db i =
     (case executableContentStep t db (k + i) of
        Return r \<Rightarrow> Return r | Continue j \<Rightarrow> Continue (j - k))"
  using assms
  by (simp add: executableContentStep_def isExecutable_drop commentAt_drop commentEnd_drop)

lemma hasExecutableFrom_drop:
  assumes "k \<le> length t"
  shows "hasExecutableFrom (drop k t) db i = hasExecutableFrom t db (k + i)"
proof (induction i rule: exec_content.induct_loop [where t = "drop k t" and db = db])
  case (1 i)
  show ?case
  proof (cases "k + i < length t")
    case True
    then have lt: "i < length (drop k t)" by simp
    show ?thesis
    proof (cases "executableContentStep t db (k + i)")
      case (Continue j)
      from True have lt': "at_index (k + i) < length t" by simp
      have j: "k + i < j" using exec_content.progress [OF lt' Continue] by simp
      have c: "executableContentStep (drop k t) db i = Continue (j - k)"
        by (simp add: executableContentStep_drop True Continue)
      from lt have lt2: "at_index i < length (drop k t)" by simp
      have "k + (j - k) = j" using j by simp
      with 1 [OF lt2 c] show ?thesis
        by (simp only: hasExecutableFrom_def exec_content.step_Continue [OF lt2 c]
            exec_content.step_Continue [OF lt' Continue])
    next
      case (Return r)
      then have "executableContentStep (drop k t) db i = Return r"
        by (simp add: executableContentStep_drop True)
      moreover from lt True have "at_index i < length (drop k t)" "at_index (k + i) < length t"
        by simp_all
      ultimately show ?thesis using Return
        by (simp only: hasExecutableFrom_def exec_content.step_Return)
    qed
  qed (simp add: hasExecutableFrom_end)
qed

lemma leadingTriviaEnd_le: "leadingTriviaEnd t db \<le> length t"
proof -
  let ?loop = "scan_loop at_index (length t) (leadingTriviaStep t db) 0"
  have step: "leadingTriviaStep t db s = Continue s' \<Longrightarrow> s < length t \<Longrightarrow> s' \<le> length t"
    "leadingTriviaStep t db s = Return s' \<Longrightarrow> s < length t \<Longrightarrow> s' \<le> length t" for s s'
    by (auto simp: leadingTriviaStep_def lineCommentEnd_le blockCommentEnd_le split: if_splits)
  show ?thesis
  proof (cases ?loop)
    case (Continue j)
    have "j \<le> length t"
      by (rule trivia.invariant [OF Continue]) (auto intro: step)
    with Continue show ?thesis by (simp add: leadingTriviaEnd_def)
  next
    case (Return j)
    have "j \<le> length t"
      by (rule trivia.return_from [OF Return, where I = "\<lambda>_. True"]) (auto intro: step)
    with Return show ?thesis by (simp add: leadingTriviaEnd_def)
  qed
qed

end
