(* ===== verification/SqlStatements.thy ===== *)
theory SqlStatements
  imports SqlLexical
begin

text \<open>
  The statement splitter of \<open>src/frontend/src/utils/sqlStatementSelection.ts\<close>: the look-ahead
  helpers, the PL/SQL block tracking, the character loop of \<open>findSqlStatementRanges\<close> as a step on
  a record of its local variables, and the functions that choose the statement at the caret.
\<close>

section \<open>Look-ahead\<close>

record sqlStatementRange =
  range_start :: nat
  range_end :: nat
  range_text :: js_string

text \<open>
  An unterminated block comment leaves the position at the last code unit (the loop of the source
  stops when fewer than two code units are left).
\<close>

definition skipBlockBody :: "js_string \<Rightarrow> nat \<Rightarrow> nat" where
  "skipBlockBody text index =
     (case js_index_of text (js ''*/'') index of
        Some e \<Rightarrow> e + 2
      | None \<Rightarrow> max index (length text - 1))"

definition skipTriviaStep :: "js_string \<Rightarrow> nat \<Rightarrow> (nat, nat) flow" where
  "skipTriviaStep text index =
     (if isWhitespace (text ! index) then Continue (index + 1)
      else if js_at text index = Some (cu CHR ''-'') \<and> js_at text (index + 1) = Some (cu CHR ''-'')
        then Continue (skip_while (\<lambda>c. c \<noteq> 10) text (index + 2))
      else if blockCommentAt text index then Continue (skipBlockBody text (index + 2))
      else Return index)"

definition skipSqlWhitespaceAndComments :: "js_string \<Rightarrow> nat \<Rightarrow> nat" where
  "skipSqlWhitespaceAndComments text position =
     loop_state (scan_loop at_index (length text) (skipTriviaStep text) position)"

definition nextSqlSignificantTokenSpan :: "js_string \<Rightarrow> nat \<Rightarrow> js_string \<times> nat" where
  "nextSqlSignificantTokenSpan text position =
     (let index = skipSqlWhitespaceAndComments text position in
      if \<not> js_at_is text index isSqlIdentifierStart then ([], index)
      else (let e = skip_while isSqlIdentifierPart text (index + 1) in
            (js_lower (js_slice text index e), e)))"

definition nextSqlSignificantToken :: "js_string \<Rightarrow> nat \<Rightarrow> js_string" where
  "nextSqlSignificantToken text position =
     (let index = skipSqlWhitespaceAndComments text position in
      if \<not> js_at_is text index isSqlIdentifierStart then []
      else js_lower (js_slice text index (skip_while isSqlIdentifierPart text (index + 1))))"

definition nextSqlSignificantChar :: "js_string \<Rightarrow> nat \<Rightarrow> nat option" where
  "nextSqlSignificantChar text position = js_at text (skipSqlWhitespaceAndComments text position)"

text \<open>\<open>text.lastIndexOf('\n', Math.max(0, index - 1)) + 1\<close>\<close>

definition lineStartBefore :: "js_string \<Rightarrow> nat \<Rightarrow> nat" where
  "lineStartBefore text index =
     (case js_last_index_of text 10 (index - 1) of None \<Rightarrow> 0 | Some j \<Rightarrow> j + 1)"

text \<open>The next line break from a position, or the end of the text.\<close>

definition lineEndAt :: "js_string \<Rightarrow> nat \<Rightarrow> nat" where
  "lineEndAt text i = (case js_index_of text [10] i of None \<Rightarrow> length text | Some j \<Rightarrow> j)"

definition slashLineStep :: "js_string \<Rightarrow> nat \<times> bool \<Rightarrow> (nat \<times> bool, nat option) flow" where
  "slashLineStep text = (\<lambda>(lineEnd, seenOptionalSemicolon).
     (if text ! lineEnd = 10 then Return (Some lineEnd)
      else if text ! lineEnd = cu CHR '';'' \<and> \<not> seenOptionalSemicolon
        then Continue (lineEnd + 1, True)
      else if text ! lineEnd = cu CHR ''-'' \<and> js_at text (lineEnd + 1) = Some (cu CHR ''-'')
        then Return (Some (skip_while (\<lambda>c. c \<noteq> 10) text lineEnd))
      else if \<not> isHorizontalWhitespace (text ! lineEnd) then Return None
      else Continue (lineEnd + 1, seenOptionalSemicolon)))"

definition resolveStandaloneSqlSlashLineEnd :: "js_string \<Rightarrow> nat \<Rightarrow> nat option" where
  "resolveStandaloneSqlSlashLineEnd text index =
     (if js_at text index \<noteq> Some (cu CHR ''/'') then None
      else if \<not> list_all (\<lambda>pos. isHorizontalWhitespace (text ! pos)) [lineStartBefore text index..<index]
        then None
      else (case scan_loop fst (length text) (slashLineStep text) (index + 1, False) of
              Return r \<Rightarrow> r
            | Continue s \<Rightarrow> Some (fst s)))"

record slashLine =
  lineStart :: nat
  lineEnd :: nat
  slashIndex :: nat

definition resolveStandaloneSqlSlashLineAtOffset :: "js_string \<Rightarrow> nat \<Rightarrow> slashLine option" where
  "resolveStandaloneSqlSlashLineAtOffset text offset =
     (let ls = lineStartBefore text offset;
          le = lineEndAt text ls;
          si = min le (skip_while isHorizontalWhitespace text ls) in
      if le \<le> si \<or> text ! si \<noteq> cu CHR ''/'' then None
      else (case resolveStandaloneSqlSlashLineEnd text si of
              None \<Rightarrow> None
            | Some resolved \<Rightarrow>
                if resolved \<noteq> le then None
                else Some \<lparr>lineStart = ls, lineEnd = le, slashIndex = si\<rparr>))"

definition findPreviousSqlStatementRange ::
  "sqlStatementRange list \<Rightarrow> nat \<Rightarrow> sqlStatementRange option" where
  "findPreviousSqlStatementRange rs offset = find (\<lambda>r. range_end r \<le> offset) (rev rs)"

definition findStatementBeforeDelimiter ::
  "js_string \<Rightarrow> sqlStatementRange list \<Rightarrow> nat \<Rightarrow> sqlStatementRange option" where
  "findStatementBeforeDelimiter text rs delimiterIndex =
     find (\<lambda>r. range_start r \<le> delimiterIndex \<and> range_end r \<le> delimiterIndex
               \<and> js_trim (js_slice text (range_end r) delimiterIndex) = []) (rev rs)"

section \<open>PL/SQL blocks\<close>

definition shouldEnterPlsqlBeginBlock :: "js_string \<Rightarrow> nat \<Rightarrow> bool" where
  "shouldEnterPlsqlBeginBlock text tokenEnd =
     (case nextSqlSignificantChar text tokenEnd of
        None \<Rightarrow> False
      | Some c \<Rightarrow> c \<noteq> cu CHR '';''
          \<and> nextSqlSignificantToken text tokenEnd
              \<notin> set [js ''transaction'', js ''work'', js ''isolation'', js ''read'', js ''write''])"

definition shouldEnterPlsqlDeclareBlock :: "js_string \<Rightarrow> nat \<Rightarrow> bool" where
  "shouldEnterPlsqlDeclareBlock text tokenEnd \<longleftrightarrow> nextSqlSignificantToken text tokenEnd \<noteq> []"

lemma skipTriviaStep_progress:
  "index < length text \<Longrightarrow> skipTriviaStep text index = Continue s' \<Longrightarrow> index < s'"
proof -
  assume a: "index < length text" "skipTriviaStep text index = Continue s'"
  have "index + 2 \<le> skip_while (\<lambda>c. c \<noteq> 10) text (index + 2)" by (rule skip_while_ge)
  moreover have "index < skipBlockBody text (index + 2)"
    using a(1) by (auto simp: skipBlockBody_def split: option.splits dest!: js_index_ofD)
  ultimately show ?thesis using a(2)
    by (auto simp: skipTriviaStep_def split: if_splits simp del: skip_while_ge)
qed

interpretation skip_trivia: scanner at_index "length t" "skipTriviaStep t" for t
  by unfold_locales (auto dest: skipTriviaStep_progress)

lemma skipSql_ge: "position \<le> skipSqlWhitespaceAndComments text position"
proof (cases "scan_loop at_index (length text) (skipTriviaStep text) position")
  case (Continue s)
  then show ?thesis
    using skip_trivia.moves_forward [OF Continue] by (simp add: skipSqlWhitespaceAndComments_def)
next
  case (Return r)
  have "position \<le> r"
    by (rule skip_trivia.return_from [OF Return, where I = "\<lambda>i. position \<le> i"])
      (auto dest: skipTriviaStep_progress simp: skipTriviaStep_def split: if_splits)
  with Return show ?thesis by (simp add: skipSqlWhitespaceAndComments_def)
qed

lemma nextSpan_progress:
  assumes "nextSqlSignificantTokenSpan text position = (token, e)" "token \<noteq> []"
  shows "position < length text \<and> position < e"
proof -
  let ?i = "skipSqlWhitespaceAndComments text position"
  have i: "js_at_is text ?i isSqlIdentifierStart"
    and e: "e = skip_while isSqlIdentifierPart text (?i + 1)"
    using assms by (auto simp: nextSqlSignificantTokenSpan_def Let_def split: if_splits)
  have "?i + 1 \<le> e" unfolding e by (rule skip_while_ge)
  moreover have "position \<le> ?i" by (rule skipSql_ge)
  ultimately show ?thesis using i by (auto simp: js_at_is_def)
qed

text \<open>\<open>while (['editionable', 'noneditionable'].includes(current.token))\<close>\<close>

function skipEditionable :: "js_string \<Rightarrow> js_string \<times> nat \<Rightarrow> js_string \<times> nat" where
  "skipEditionable text current =
     (if fst current \<in> set [js ''editionable'', js ''noneditionable'']
      then skipEditionable text (nextSqlSignificantTokenSpan text (snd current))
      else current)"
  by pat_completeness auto
termination
proof (relation "measure (\<lambda>(text, cur). if fst cur = [] then 0 else Suc (length text - snd cur))",
    goal_cases)
  case (2 t current)
  show ?case
  proof (cases "fst (nextSqlSignificantTokenSpan t (snd current)) = []")
    case True
    with 2 show ?thesis by auto
  next
    case False
    with nextSpan_progress [of t "snd current"] 2 show ?thesis
      by (cases "nextSqlSignificantTokenSpan t (snd current)") force
  qed
qed simp

declare skipEditionable.simps [simp del]

text \<open>
  \<open>CREATE [OR REPLACE] [EDITIONABLE]\<close>: the token after the prefix, or nothing when the text does
  not start this way. The source repeats this code in its two header tests.
\<close>

definition createHeaderToken :: "js_string \<Rightarrow> (js_string \<times> nat) option" where
  "createHeaderToken text =
     (let current = nextSqlSignificantTokenSpan text 0 in
      if fst current \<noteq> js ''create'' then None
      else
        (let current = nextSqlSignificantTokenSpan text (snd current) in
         if fst current = js ''or'' then
           (let current = nextSqlSignificantTokenSpan text (snd current) in
            if fst current \<noteq> js ''replace'' then None
            else Some (skipEditionable text (nextSqlSignificantTokenSpan text (snd current))))
         else Some (skipEditionable text current)))"

definition isCreateRoutineHeaderPrefix :: "js_string \<Rightarrow> bool" where
  "isCreateRoutineHeaderPrefix text =
     (case createHeaderToken text of
        None \<Rightarrow> False
      | Some current \<Rightarrow>
          if fst current = js ''procedure'' \<or> fst current = js ''function'' then True
          else if fst current \<noteq> js ''package'' then False
          else
            (let token = fst (nextSqlSignificantTokenSpan text (snd current)) in
             token = [] \<or> token = js ''body'' \<or> js_at_is token 0 isSqlIdentifierStart))"

definition isCreatePackageHeaderPrefix :: "js_string \<Rightarrow> bool" where
  "isCreatePackageHeaderPrefix text =
     (case createHeaderToken text of
        None \<Rightarrow> False
      | Some current \<Rightarrow> fst current = js ''package'')"

definition shouldEnterPlsqlCreateRoutineBlock ::
  "js_string \<Rightarrow> nat \<Rightarrow> js_string \<Rightarrow> nat \<Rightarrow> bool" where
  "shouldEnterPlsqlCreateRoutineBlock text statementStart token tokenEnd =
     (if token \<noteq> js ''is'' \<and> token \<noteq> js ''as'' then False
      else
        (case nextSqlSignificantChar text tokenEnd of
           None \<Rightarrow> False
         | Some nextChar \<Rightarrow>
             if token = js ''as'' \<and> (nextChar = cu CHR ''$'' \<or> nextChar = 39 \<or> nextChar = cu CHR ''\"'')
             then False
             else isCreateRoutineHeaderPrefix
                    (js_slice text statementStart (tokenEnd - length token))))"

definition isPlsqlControlEnd :: "js_string \<Rightarrow> nat \<Rightarrow> bool" where
  "isPlsqlControlEnd text tokenEnd \<longleftrightarrow>
     nextSqlSignificantToken text tokenEnd \<in> set [js ''if'', js ''loop'', js ''case'']"

end
