(* ===== verification/SqlSplit.thy ===== *)
theory SqlSplit
  imports SqlStatements
begin

text \<open>
  \<open>findSqlStatementRanges\<close> of \<open>src/frontend/src/utils/sqlStatementSelection.ts\<close>: its local
  variables are the record \<open>splitState\<close>, its loop body is split where the source has its groups
  of \<open>continue\<close> branches (\<open>splitQuoted\<close>, \<open>splitOpening\<close>, \<open>splitQuotes\<close>, \<open>splitToken\<close>,
  \<open>splitDelimiter\<close>), and \<open>splitStep\<close> is the body followed by the \<open>index++\<close> of the loop.
\<close>

section \<open>The state of the loop\<close>

record splitState =
  sp_index :: nat
  sp_statementStart :: nat
  sp_inSingle :: bool
  sp_inDouble :: bool
  sp_inBacktick :: bool
  sp_inBracket :: bool
  sp_escaped :: bool
  sp_inLineComment :: bool
  sp_inBlockComment :: bool
  sp_dollarTag :: "js_string option"
  sp_plsqlDepth :: nat
  sp_declareBeginSkips :: nat
  sp_caseDepth :: nat
  sp_skipNextCaseEnd :: bool
  sp_justClosed :: bool
  sp_ranges :: "sqlStatementRange list"

definition splitInit :: splitState where
  "splitInit = \<lparr>sp_index = 0, sp_statementStart = 0, sp_inSingle = False, sp_inDouble = False,
     sp_inBacktick = False, sp_inBracket = False, sp_escaped = False, sp_inLineComment = False,
     sp_inBlockComment = False, sp_dollarTag = None, sp_plsqlDepth = 0, sp_declareBeginSkips = 0,
     sp_caseDepth = 0, sp_skipNextCaseEnd = False, sp_justClosed = False, sp_ranges = []\<rparr>"

definition trimStatementRange ::
  "js_string \<Rightarrow> nat \<Rightarrow> nat \<Rightarrow> js_string \<Rightarrow> sqlStatementRange option" where
  "trimStatementRange sql s e dbType =
     (let limit = min (length sql) (max s e);
          nextStart = s + length (takeWhile isWhitespace (js_slice sql s limit));
          nextEnd = limit - length (takeWhile isWhitespace (rev (js_slice sql nextStart limit))) in
      if nextEnd \<le> nextStart then None
      else if \<not> hasExecutableSqlStatementContent (js_slice sql nextStart nextEnd) dbType then None
      else Some \<lparr>range_start = nextStart, range_end = nextEnd,
                 range_text = js_slice sql nextStart nextEnd\<rparr>)"

definition splitPush :: "js_string \<Rightarrow> js_string \<Rightarrow> nat \<Rightarrow> splitState \<Rightarrow> splitState" where
  "splitPush text dbType e s =
     (case trimStatementRange text (sp_statementStart s) e dbType of
        None \<Rightarrow> s
      | Some r \<Rightarrow> s\<lparr>sp_ranges := sp_ranges s @ [r]\<rparr>)"

section \<open>The loop body\<close>

text \<open>\<open>text.slice(index).match(/^\$[A-Za-z0-9_]*\$/)\<close>\<close>

definition dollarTagAt :: "js_string \<Rightarrow> nat \<Rightarrow> js_string option" where
  "dollarTagAt text index =
     (let e = skip_while js_word text (index + 1) in
      if js_at text index = Some (cu CHR ''$'') \<and> js_at text e = Some (cu CHR ''$'')
      then Some (js_slice text index (e + 1)) else None)"

text \<open>Inside a dollar-quoted text, a comment, a quoted or a bracketed identifier.\<close>

definition splitQuoted :: "js_string \<Rightarrow> js_string \<Rightarrow> splitState \<Rightarrow> splitState option" where
  "splitQuoted text dbType s =
     (let index = sp_index s; ch = text ! index; nxt = js_at text (index + 1) in
      case sp_dollarTag s of
        Some tag \<Rightarrow>
          Some (if js_starts_at tag text index
                then s\<lparr>sp_index := index + (length tag - 1), sp_dollarTag := None\<rparr> else s)
      | None \<Rightarrow>
        if sp_inLineComment s then
          Some (if ch = 10 then s\<lparr>sp_inLineComment := False\<rparr> else s)
        else if sp_inBlockComment s then
          Some (if ch = cu CHR ''*'' \<and> nxt = Some (cu CHR ''/'')
                then s\<lparr>sp_index := index + 1, sp_inBlockComment := False\<rparr> else s)
        else if sp_inDouble s then
          Some (if sp_escaped s then s\<lparr>sp_escaped := False\<rparr>
                else if ch = 92 then s\<lparr>sp_escaped := True\<rparr>
                else if ch = 34 \<and> nxt = Some 34 then s\<lparr>sp_index := index + 1\<rparr>
                else if ch = 34 then s\<lparr>sp_inDouble := False\<rparr>
                else s)
        else if sp_inBacktick s then
          Some (if ch = cu CHR ''`'' \<and> nxt = Some (cu CHR ''`'') then s\<lparr>sp_index := index + 1\<rparr>
                else if ch = cu CHR ''`'' then s\<lparr>sp_inBacktick := False\<rparr>
                else s)
        else if supportsSqlBracketIdentifier dbType \<and> sp_inBracket s then
          Some (if supportsSqlEscapedBracketIdentifier dbType \<and> ch = cu CHR '']''
                   \<and> nxt = Some (cu CHR '']'') then s\<lparr>sp_index := index + 1\<rparr>
                else if ch = cu CHR '']'' then s\<lparr>sp_inBracket := False\<rparr>
                else s)
        else None)"

text \<open>Outside every quote: comments, a standalone slash line, a dollar quote.\<close>

definition splitOpening :: "js_string \<Rightarrow> js_string \<Rightarrow> splitState \<Rightarrow> splitState option" where
  "splitOpening text dbType s =
     (let index = sp_index s; ch = text ! index; nxt = js_at text (index + 1);
          slash = (if (sp_justClosed s \<or> js_trim (js_slice text (sp_statementStart s) index) = [])
                      \<and> ch = cu CHR ''/''
                   then resolveStandaloneSqlSlashLineEnd text index else None) in
      if sp_inSingle s \<or> sp_inDouble s \<or> sp_inBacktick s \<or> sp_inBracket s then None
      else if ch = cu CHR ''/'' \<and> nxt = Some (cu CHR ''*'') then
        Some (s\<lparr>sp_index := index + 1, sp_inBlockComment := True\<rparr>)
      else
        (case slash of
           Some slashLineEnd \<Rightarrow>
             Some ((splitPush text dbType index s)
               \<lparr>sp_statementStart := (if js_at text slashLineEnd = Some 10 then slashLineEnd + 1
                                      else slashLineEnd),
                sp_index := slashLineEnd, sp_justClosed := False\<rparr>)
         | None \<Rightarrow>
             if ch = cu CHR ''#'' \<and> supportsSqlHashLineComment dbType then
               Some (s\<lparr>sp_inLineComment := True\<rparr>)
             else if ch = cu CHR ''-'' \<and> nxt = Some (cu CHR ''-'')
                     \<and> isSqlDashLineCommentStart dbType (js_at text (index + 2)) then
               Some (s\<lparr>sp_index := index + 1, sp_inLineComment := True\<rparr>)
             else
               (case dollarTagAt text index of
                  Some tag \<Rightarrow> Some (s\<lparr>sp_dollarTag := Some tag,
                                     sp_index := index + (length tag - 1)\<rparr>)
                | None \<Rightarrow> None)))"

text \<open>Escapes and the opening and closing of quotes.\<close>

definition splitQuotes :: "js_string \<Rightarrow> js_string \<Rightarrow> splitState \<Rightarrow> splitState option" where
  "splitQuotes text dbType s =
     (let ch = text ! sp_index s in
      if sp_escaped s then Some (s\<lparr>sp_escaped := False\<rparr>)
      else if (sp_inSingle s \<or> sp_inDouble s) \<and> ch = 92 then Some (s\<lparr>sp_escaped := True\<rparr>)
      else if \<not> sp_inDouble s \<and> \<not> sp_inBacktick s \<and> ch = 39 then
        Some (s\<lparr>sp_inSingle := \<not> sp_inSingle s\<rparr>)
      else if \<not> sp_inSingle s \<and> \<not> sp_inBacktick s \<and> ch = 34 then
        Some (s\<lparr>sp_inDouble := \<not> sp_inDouble s\<rparr>)
      else if \<not> sp_inSingle s \<and> \<not> sp_inDouble s \<and> ch = cu CHR ''`'' then
        Some (s\<lparr>sp_inBacktick := \<not> sp_inBacktick s\<rparr>)
      else if supportsSqlBracketIdentifier dbType \<and> \<not> sp_inSingle s \<and> \<not> sp_inDouble s
              \<and> \<not> sp_inBacktick s \<and> ch = cu CHR ''['' then
        Some (s\<lparr>sp_inBracket := True\<rparr>)
      else None)"

text \<open>A word outside quotes: the CASE bookkeeping, then the PL/SQL block depth.\<close>

definition splitCaseToken :: "js_string \<Rightarrow> splitState \<Rightarrow> splitState" where
  "splitCaseToken token s =
     (if token = js ''case'' \<and> 0 < sp_plsqlDepth s then
        (if sp_skipNextCaseEnd s then s\<lparr>sp_skipNextCaseEnd := False\<rparr>
         else s\<lparr>sp_caseDepth := sp_caseDepth s + 1, sp_justClosed := False\<rparr>)
      else if token \<noteq> js ''case'' then s\<lparr>sp_skipNextCaseEnd := False\<rparr>
      else s)"

definition splitBlockToken ::
  "js_string \<Rightarrow> js_string \<Rightarrow> nat \<Rightarrow> splitState \<Rightarrow> splitState" where
  "splitBlockToken text token tokenEnd s =
     (if token = js ''begin'' \<and> 0 < sp_declareBeginSkips s then
        s\<lparr>sp_declareBeginSkips := sp_declareBeginSkips s - 1, sp_justClosed := False\<rparr>
      else if token = js ''begin'' \<and> shouldEnterPlsqlBeginBlock text tokenEnd then
        s\<lparr>sp_plsqlDepth := sp_plsqlDepth s + 1, sp_justClosed := False\<rparr>
      else if token = js ''declare'' \<and> shouldEnterPlsqlDeclareBlock text tokenEnd then
        s\<lparr>sp_plsqlDepth := sp_plsqlDepth s + 1,
           sp_declareBeginSkips := sp_declareBeginSkips s + 1, sp_justClosed := False\<rparr>
      else if sp_plsqlDepth s = 0
              \<and> shouldEnterPlsqlCreateRoutineBlock text (sp_statementStart s) token tokenEnd then
        s\<lparr>sp_plsqlDepth := sp_plsqlDepth s + 1,
           sp_declareBeginSkips :=
             (if isCreatePackageHeaderPrefix
                   (js_slice text (sp_statementStart s) (tokenEnd - length token))
              then sp_declareBeginSkips s else sp_declareBeginSkips s + 1),
           sp_justClosed := False\<rparr>
      else if token = js ''end'' \<and> 0 < sp_plsqlDepth s \<and> 0 < sp_caseDepth s then
        s\<lparr>sp_caseDepth := sp_caseDepth s - 1,
           sp_skipNextCaseEnd :=
             (if nextSqlSignificantToken text tokenEnd = js ''case'' then True
              else sp_skipNextCaseEnd s),
           sp_justClosed := False\<rparr>
      else if token = js ''end'' \<and> 0 < sp_plsqlDepth s \<and> \<not> isPlsqlControlEnd text tokenEnd then
        (let depth = sp_plsqlDepth s - 1 in
         s\<lparr>sp_plsqlDepth := depth,
            sp_declareBeginSkips := min (sp_declareBeginSkips s) depth,
            sp_caseDepth := min (sp_caseDepth s) depth,
            sp_justClosed := (depth = 0)\<rparr>)
      else s)"

definition splitToken :: "js_string \<Rightarrow> splitState \<Rightarrow> splitState option" where
  "splitToken text s =
     (let index = sp_index s in
      if \<not> sp_inSingle s \<and> \<not> sp_inDouble s \<and> \<not> sp_inBacktick s \<and> sp_dollarTag s = None
         \<and> isSqlIdentifierStart (text ! index) then
        (let tokenEnd = skip_while isSqlIdentifierPart text (index + 1);
             token = js_lower (js_slice text index tokenEnd);
             s' = splitBlockToken text token tokenEnd (splitCaseToken token s) in
         Some (s'\<lparr>sp_index := tokenEnd - 1\<rparr>))
      else None)"

definition splitDelimiter :: "js_string \<Rightarrow> js_string \<Rightarrow> splitState \<Rightarrow> splitState" where
  "splitDelimiter text dbType s =
     (let index = sp_index s in
      if \<not> sp_inSingle s \<and> \<not> sp_inDouble s \<and> \<not> sp_inBacktick s \<and> isDelimiter (text ! index) then
        (if 0 < sp_plsqlDepth s then s
         else (splitPush text dbType (if sp_justClosed s then index + 1 else index) s)
                \<lparr>sp_statementStart := index + 1, sp_justClosed := False\<rparr>)
      else s)"

definition splitBody :: "js_string \<Rightarrow> js_string \<Rightarrow> splitState \<Rightarrow> splitState" where
  "splitBody text dbType s =
     (case splitQuoted text dbType s of
        Some s' \<Rightarrow> s'
      | None \<Rightarrow>
     (case splitOpening text dbType s of
        Some s' \<Rightarrow> s'
      | None \<Rightarrow>
     (case splitQuotes text dbType s of
        Some s' \<Rightarrow> s'
      | None \<Rightarrow>
     (case splitToken text s of
        Some s' \<Rightarrow> s'
      | None \<Rightarrow> splitDelimiter text dbType s))))"

definition splitStep ::
  "js_string \<Rightarrow> js_string \<Rightarrow> splitState \<Rightarrow> (splitState, splitState) flow" where
  "splitStep text dbType s =
     Continue ((splitBody text dbType s)\<lparr>sp_index := sp_index (splitBody text dbType s) + 1\<rparr>)"

definition splitFinal :: "js_string \<Rightarrow> js_string \<Rightarrow> splitState" where
  "splitFinal text dbType =
     loop_state (scan_loop sp_index (length text) (splitStep text dbType) splitInit)"

definition findSqlStatementRanges :: "js_string \<Rightarrow> js_string \<Rightarrow> sqlStatementRange list" where
  "findSqlStatementRanges sql dbType =
     (let text = crlf_to_lf sql in
      sp_ranges (splitPush text dbType (length text) (splitFinal text dbType)))"

end
