(* ===== verification/SqlSplitProps.thy ===== *)
theory SqlSplitProps
  imports SqlSplit
begin

text \<open>
  What the splitter guarantees: it moves forward, the ranges it returns are non-empty, trimmed,
  inside the text, in order and disjoint, and the text outside them is white space, a delimiter, a
  standalone slash line or a piece without executable content.
\<close>

section \<open>One range\<close>

definition wf_range :: "js_string \<Rightarrow> js_string \<Rightarrow> sqlStatementRange \<Rightarrow> bool" where
  "wf_range t db r \<longleftrightarrow>
     range_start r < range_end r \<and> range_end r \<le> length t
     \<and> range_text r = js_slice t (range_start r) (range_end r)
     \<and> \<not> isWhitespace (t ! range_start r) \<and> \<not> isWhitespace (t ! (range_end r - 1))
     \<and> hasExecutableSqlStatementContent (range_text r) db"

definition ranges_ordered :: "sqlStatementRange list \<Rightarrow> bool" where
  "ranges_ordered rs \<longleftrightarrow> sorted_wrt (\<lambda>a b. range_end a \<le> range_start b) rs"

lemma takeWhile_trim_bounds:
  fixes t :: js_string and P :: "nat \<Rightarrow> bool"
  defines "k s b \<equiv> length (takeWhile P (js_slice t s b))"
  assumes "s + k s b < b" "b \<le> length t"
  shows "\<not> P (t ! (s + k s b))" and "\<And>p. s \<le> p \<Longrightarrow> p < s + k s b \<Longrightarrow> P (t ! p)"
proof -
  have len: "length (js_slice t s b) = b - s" using assms by auto
  have lt: "k s b < length (js_slice t s b)" using assms len by linarith
  then have "\<not> P (js_slice t s b ! k s b)" unfolding k_def by (rule nth_length_takeWhile)
  moreover have "js_slice t s b ! k s b = t ! (s + k s b)"
    using assms by (intro js_slice_nth) auto
  ultimately show "\<not> P (t ! (s + k s b))" by simp
  fix p assume p: "s \<le> p" "p < s + k s b"
  then have pk: "p - s < k s b" by linarith
  then have "takeWhile P (js_slice t s b) ! (p - s) = js_slice t s b ! (p - s)"
    unfolding k_def by (rule takeWhile_nth)
  moreover have "js_slice t s b ! (p - s) = t ! p"
    using p pk assms by (subst js_slice_nth) auto
  moreover have "P (takeWhile P (js_slice t s b) ! (p - s))"
    using pk unfolding k_def by (metis nth_mem set_takeWhileD)
  ultimately show "P (t ! p)" by simp
qed

lemma takeWhile_rev_trim_bounds:
  fixes t :: js_string and P :: "nat \<Rightarrow> bool"
  defines "k a b \<equiv> length (takeWhile P (rev (js_slice t a b)))"
  assumes "a < b - k a b" "b \<le> length t"
  shows "\<not> P (t ! (b - k a b - 1))" and "\<And>p. b - k a b \<le> p \<Longrightarrow> p < b \<Longrightarrow> P (t ! p)"
proof -
  have len: "length (rev (js_slice t a b)) = b - a" using assms by auto
  have lt: "k a b < length (rev (js_slice t a b))" using assms len by linarith
  then have "\<not> P (rev (js_slice t a b) ! k a b)" unfolding k_def by (rule nth_length_takeWhile)
  moreover have "rev (js_slice t a b) ! k a b = js_slice t a b ! (b - a - Suc (k a b))"
    using lt len by (simp add: rev_nth)
  moreover have "js_slice t a b ! (b - a - Suc (k a b)) = t ! (b - k a b - 1)"
    using assms lt len by (subst js_slice_nth) auto
  ultimately show "\<not> P (t ! (b - k a b - 1))" by simp
  fix p assume p: "b - k a b \<le> p" "p < b"
  let ?i = "b - 1 - p"
  have ik: "?i < k a b" using p by linarith
  then have "P (rev (js_slice t a b) ! ?i)"
    unfolding k_def by (metis nth_mem set_takeWhileD takeWhile_nth)
  moreover have "rev (js_slice t a b) ! ?i = js_slice t a b ! (p - a)"
    using p ik lt len assms by (subst rev_nth) (auto intro: arg_cong)
  moreover have "js_slice t a b ! (p - a) = t ! p"
    using p ik lt len assms by (subst js_slice_nth) auto
  ultimately show "P (t ! p)" by simp
qed

lemma trimStatementRange_Some:
  assumes "trimStatementRange t s e db = Some r"
  shows "wf_range t db r" and "s \<le> range_start r" and "range_end r \<le> max s e"
    and "\<And>p. s \<le> p \<Longrightarrow> p < min (length t) (max s e) \<Longrightarrow>
           p < range_start r \<or> range_end r \<le> p \<Longrightarrow> isWhitespace (t ! p)"
proof -
  define b where "b = min (length t) (max s e)"
  define ns where "ns = s + length (takeWhile isWhitespace (js_slice t s b))"
  define ne where "ne = b - length (takeWhile isWhitespace (rev (js_slice t ns b)))"
  have lt: "ns < ne" and ex: "hasExecutableSqlStatementContent (js_slice t ns ne) db"
    and r: "r = \<lparr>range_start = ns, range_end = ne, range_text = js_slice t ns ne\<rparr>"
    using assms unfolding trimStatementRange_def Let_def b_def [symmetric] ns_def [symmetric]
      ne_def [symmetric] by (auto split: if_splits)
  have b: "b \<le> length t" "b \<le> max s e" by (simp_all add: b_def)
  have nb: "ne \<le> b" by (simp add: ne_def)
  have s1: "\<not> isWhitespace (t ! ns)" "\<And>p. s \<le> p \<Longrightarrow> p < ns \<Longrightarrow> isWhitespace (t ! p)"
    using takeWhile_trim_bounds [where P = isWhitespace and t = t and s = s and b = b] lt nb b
    unfolding ns_def by auto
  have s2: "\<not> isWhitespace (t ! (ne - 1))" "\<And>p. ne \<le> p \<Longrightarrow> p < b \<Longrightarrow> isWhitespace (t ! p)"
    using takeWhile_rev_trim_bounds [where P = isWhitespace and t = t and a = ns and b = b] lt b
    unfolding ne_def by auto
  show "wf_range t db r" using lt ex r s1 s2 nb b by (simp add: wf_range_def)
  show "s \<le> range_start r" by (simp add: r ns_def)
  show "range_end r \<le> max s e" using r nb b by simp
  show "\<And>p. s \<le> p \<Longrightarrow> p < min (length t) (max s e) \<Longrightarrow>
           p < range_start r \<or> range_end r \<le> p \<Longrightarrow> isWhitespace (t ! p)"
    using s1(2) s2(2) r by (auto simp: b_def)
qed

lemma trimStatementRange_None:
  assumes "trimStatementRange t s e db = None" "s \<le> p" "p < min (length t) (max s e)"
  shows "isWhitespace (t ! p)
    \<or> (\<exists>a b. s \<le> a \<and> a \<le> p \<and> p < b \<and> b \<le> max s e
          \<and> \<not> hasExecutableSqlStatementContent (js_slice t a b) db)"
proof -
  define b where "b = min (length t) (max s e)"
  define ns where "ns = s + length (takeWhile isWhitespace (js_slice t s b))"
  define ne where "ne = b - length (takeWhile isWhitespace (rev (js_slice t ns b)))"
  have none: "ne \<le> ns \<or> \<not> hasExecutableSqlStatementContent (js_slice t ns ne) db"
    using assms(1) unfolding trimStatementRange_def Let_def b_def [symmetric] ns_def [symmetric]
      ne_def [symmetric] by (auto split: if_splits)
  have b: "b \<le> length t" "p < b" "s \<le> p" using assms by (simp_all add: b_def)
  show ?thesis
  proof (cases "ns < b")
    case True
    note t1 = takeWhile_trim_bounds [where P = isWhitespace and t = t and s = s and b = b,
        folded ns_def, OF True b(1)]
    have len: "length (js_slice t ns b) = b - ns" using b by auto
    have "length (takeWhile isWhitespace (rev (js_slice t ns b))) < length (rev (js_slice t ns b))"
    proof (rule ccontr)
      assume "\<not> ?thesis"
      then have "takeWhile isWhitespace (rev (js_slice t ns b)) = rev (js_slice t ns b)"
        by (metis le_neq_implies_less length_takeWhile_le takeWhile_eq_take take_all_iff)
      then have "\<forall>c\<in>set (js_slice t ns b). isWhitespace c"
        by (metis set_rev set_takeWhileD)
      moreover have "t ! ns \<in> set (js_slice t ns b)"
        using js_slice_nth [of ns 0 b t] True b len by (metis add_0_right nth_mem zero_less_diff)
      ultimately show False using t1(1) by blast
    qed
    then have ne: "ns < ne" using True unfolding ne_def length_rev len by linarith
    note t2 = takeWhile_rev_trim_bounds [where P = isWhitespace and t = t and a = ns and b = b,
        folded ne_def, OF ne b(1)]
    from none ne have nex: "\<not> hasExecutableSqlStatementContent (js_slice t ns ne) db" by simp
    have "s \<le> ns" "ne \<le> max s e" by (simp_all add: ns_def ne_def b_def)
    then show ?thesis using t1(2) [of p] t2(2) [of p] b nex by (metis not_le)
  next
    case False
    have "takeWhile isWhitespace (js_slice t s b) = js_slice t s b"
    proof -
      have "length (js_slice t s b) = b - s" using b by auto
      then have "length (js_slice t s b) \<le> length (takeWhile isWhitespace (js_slice t s b))"
        using False by (simp add: ns_def)
      then show ?thesis by (metis takeWhile_eq_take take_all_iff)
    qed
    then have "\<forall>c\<in>set (js_slice t s b). isWhitespace c" by (metis set_takeWhileD)
    moreover have "js_slice t s b ! (p - s) = t ! p" using b by (subst js_slice_nth) auto
    moreover have "p - s < length (js_slice t s b)" using b by auto
    ultimately show ?thesis by (metis nth_mem)
  qed
qed

section \<open>The step moves forward\<close>

interpretation slash_line: scanner fst "length t" "slashLineStep t" for t
  by unfold_locales (auto simp: slashLineStep_def split: if_splits prod.splits)

lemma slashLineEnd_bounds:
  assumes "resolveStandaloneSqlSlashLineEnd t i = Some e"
  shows "i < e \<and> e \<le> length t"
proof -
  have at: "js_at t i = Some 47"
    using assms by (auto simp: resolveStandaloneSqlSlashLineEnd_def split: if_splits)
  then have lt: "i < length t" by (simp add: js_atD)
  define I where "I = (\<lambda>s :: nat \<times> bool. i < fst s \<and> fst s \<le> length t)"
  have start: "I (i + 1, False)" using lt by (simp add: I_def)
  have step: "I s'" if "I s" "fst s < length t" "slashLineStep t s = Continue s'" for s s'
    using that by (auto simp: I_def slashLineStep_def split: if_splits prod.splits)
  have ret: "\<forall>e. r = Some e \<longrightarrow> i < e \<and> e \<le> length t"
    if "I s" "fst s < length t" "slashLineStep t s = Return r" for s r
    using that skip_while_le [of "fst s" t] skip_while_ge [of "fst s"]
    by (auto simp: I_def slashLineStep_def split: if_splits prod.splits intro: less_le_trans)
  show ?thesis
  proof (cases "scan_loop fst (length t) (slashLineStep t) (i + 1, False)")
    case (Continue s)
    have "I s" by (rule slash_line.invariant [where I = I, OF Continue start]) (rule step)
    then show ?thesis using assms at Continue
      by (auto simp: resolveStandaloneSqlSlashLineEnd_def I_def split: if_splits)
  next
    case (Return r)
    have "\<forall>e. r = Some e \<longrightarrow> i < e \<and> e \<le> length t"
      by (rule slash_line.return_from [where I = I, OF Return]) (fact start, fact step, fact ret)
    then show ?thesis using assms at Return
      by (auto simp: resolveStandaloneSqlSlashLineEnd_def split: if_splits)
  qed
qed

lemma splitPush_frame [simp]:
  "sp_index (splitPush t db e s) = sp_index s"
  "sp_statementStart (splitPush t db e s) = sp_statementStart s"
  by (simp_all add: splitPush_def split: option.splits)

lemma splitQuoted_frame:
  "splitQuoted t db s = Some s' \<Longrightarrow>
     sp_index s \<le> sp_index s' \<and> sp_statementStart s' = sp_statementStart s
     \<and> sp_ranges s' = sp_ranges s"
  by (auto simp: splitQuoted_def Let_def split: option.splits if_splits)

lemma splitQuotes_frame:
  "splitQuotes t db s = Some s' \<Longrightarrow>
     sp_index s' = sp_index s \<and> sp_statementStart s' = sp_statementStart s
     \<and> sp_ranges s' = sp_ranges s"
  by (auto simp: splitQuotes_def Let_def split: if_splits)

lemma splitBlockToken_frame [simp]:
  "sp_index (splitBlockToken t tok e s) = sp_index s"
  "sp_statementStart (splitBlockToken t tok e s) = sp_statementStart s"
  "sp_ranges (splitBlockToken t tok e s) = sp_ranges s"
  by (simp_all add: splitBlockToken_def Let_def)

lemma splitCaseToken_frame [simp]:
  "sp_index (splitCaseToken tok s) = sp_index s"
  "sp_statementStart (splitCaseToken tok s) = sp_statementStart s"
  "sp_ranges (splitCaseToken tok s) = sp_ranges s"
  by (simp_all add: splitCaseToken_def)

lemma splitToken_frame:
  "splitToken t s = Some s' \<Longrightarrow>
     sp_index s \<le> sp_index s' \<and> sp_statementStart s' = sp_statementStart s
     \<and> sp_ranges s' = sp_ranges s"
  using skip_while_ge [of "Suc (sp_index s)" isSqlIdentifierPart t]
  by (auto simp: splitToken_def Let_def simp del: skip_while_ge split: if_splits)

text \<open>
  What a step can do to the ranges: nothing; or close the statement before a delimiter; or close
  it before a standalone slash line.
\<close>

inductive split_move :: "js_string \<Rightarrow> js_string \<Rightarrow> splitState \<Rightarrow> splitState \<Rightarrow> bool"
  for t db where
  stay: "sp_index s \<le> sp_index s' \<Longrightarrow> sp_statementStart s' = sp_statementStart s \<Longrightarrow>
     sp_ranges s' = sp_ranges s \<Longrightarrow> split_move t db s s'"
| at_delimiter: "isDelimiter (t ! sp_index s) \<Longrightarrow> sp_index s' = sp_index s \<Longrightarrow>
     sp_statementStart s' = sp_index s + 1 \<Longrightarrow> e = sp_index s \<or> e = sp_index s + 1 \<Longrightarrow>
     sp_ranges s' = sp_ranges (splitPush t db e s) \<Longrightarrow> split_move t db s s'"
| at_slash: "resolveStandaloneSqlSlashLineEnd t (sp_index s) = Some e \<Longrightarrow> sp_index s' = e \<Longrightarrow>
     sp_statementStart s' = (if js_at t e = Some 10 then e + 1 else e) \<Longrightarrow>
     sp_ranges s' = sp_ranges (splitPush t db (sp_index s) s) \<Longrightarrow> split_move t db s s'"

lemma splitOpening_move: "splitOpening t db s = Some s' \<Longrightarrow> split_move t db s s'"
  by (auto simp: splitOpening_def Let_def split: if_splits option.splits
      intro: split_move.intros)

lemma splitDelimiter_move: "split_move t db s (splitDelimiter t db s)"
  by (auto simp: splitDelimiter_def Let_def intro: split_move.intros)

lemma splitBody_move: "split_move t db s (splitBody t db s)"
proof (cases "splitQuoted t db s")
  case q: None
  show ?thesis
  proof (cases "splitOpening t db s")
    case o: None
    show ?thesis
    proof (cases "splitQuotes t db s")
      case r: None
      with q o show ?thesis
        by (cases "splitToken t s")
          (auto simp: splitBody_def splitDelimiter_move
            intro!: split_move.stay dest!: splitToken_frame)
    qed (auto simp: splitBody_def q o intro!: split_move.stay dest!: splitQuotes_frame)
  qed (simp add: splitBody_def q splitOpening_move)
qed (auto simp: splitBody_def intro!: split_move.stay dest!: splitQuoted_frame)

lemma split_move_forward: "split_move t db s s' \<Longrightarrow> sp_index s \<le> sp_index s'"
  by (auto elim!: split_move.cases dest: slashLineEnd_bounds)

interpretation splitter: total_scanner sp_index "length t" "splitStep t db" for t db
proof unfold_locales
  fix s s' :: splitState
  assume "splitStep t db s = Continue s'"
  then show "sp_index s < sp_index s'"
    using split_move_forward [OF splitBody_move [of t db s]] by (auto simp: splitStep_def)
qed (simp add: splitStep_def)

section \<open>Order, shape and coverage of the ranges\<close>

text \<open>
  Where a position outside every range can lie. A dropped piece \<open>[a, b)\<close> overlaps no range and lies
  before the point up to which the text has been split.
\<close>

definition outside_ok ::
  "js_string \<Rightarrow> js_string \<Rightarrow> sqlStatementRange list \<Rightarrow> nat \<Rightarrow> nat \<Rightarrow> bool" where
  "outside_ok t db rs bound p \<longleftrightarrow>
     isWhitespace (t ! p) \<or> isDelimiter (t ! p)
     \<or> (\<exists>i e. resolveStandaloneSqlSlashLineEnd t i = Some e \<and> i \<le> p \<and> p \<le> e)
     \<or> (\<exists>a b. a \<le> p \<and> p < b \<and> b \<le> bound
           \<and> (\<forall>r\<in>set rs. range_end r \<le> a \<or> b \<le> range_start r)
           \<and> \<not> hasExecutableSqlStatementContent (js_slice t a b) db)"

definition covered ::
  "js_string \<Rightarrow> js_string \<Rightarrow> sqlStatementRange list \<Rightarrow> nat \<Rightarrow> nat \<Rightarrow> bool" where
  "covered t db rs bound p \<longleftrightarrow>
     (\<exists>r\<in>set rs. range_start r \<le> p \<and> p < range_end r) \<or> outside_ok t db rs bound p"

definition split_inv :: "js_string \<Rightarrow> js_string \<Rightarrow> nat \<Rightarrow> sqlStatementRange list \<Rightarrow> bool" where
  "split_inv t db start rs \<longleftrightarrow>
     (\<forall>r\<in>set rs. wf_range t db r \<and> range_end r \<le> start) \<and> ranges_ordered rs
     \<and> (\<forall>p < min start (length t). covered t db rs start p)"

lemma outside_ok_bound: "outside_ok t db rs e p \<Longrightarrow> e \<le> e' \<Longrightarrow> outside_ok t db rs e' p"
  unfolding outside_ok_def by (meson order_trans)

lemma outside_ok_snoc:
  "outside_ok t db rs e p \<Longrightarrow> e \<le> range_start r \<Longrightarrow> outside_ok t db (rs @ [r]) e p"
  unfolding outside_ok_def by (fastforce intro: order_trans)

lemma covered_bound: "covered t db rs e p \<Longrightarrow> e \<le> e' \<Longrightarrow> covered t db rs e' p"
  by (auto simp: covered_def intro: outside_ok_bound)

lemma covered_snoc:
  "covered t db rs e p \<Longrightarrow> e \<le> range_start r \<Longrightarrow> covered t db (rs @ [r]) e p"
  by (auto simp: covered_def intro: outside_ok_snoc)

lemma ranges_ordered_snoc:
  "ranges_ordered rs \<Longrightarrow> \<forall>r'\<in>set rs. range_end r' \<le> range_start r \<Longrightarrow> ranges_ordered (rs @ [r])"
  by (simp add: ranges_ordered_def sorted_wrt_append)

lemma split_inv_push:
  assumes inv: "split_inv t db (sp_statementStart s) (sp_ranges s)"
    and e: "sp_statementStart s \<le> e"
  shows "split_inv t db e (sp_ranges (splitPush t db e s))"
proof (cases "trimStatementRange t (sp_statementStart s) e db")
  case None
  have "covered t db (sp_ranges s) e p" if "p < min e (length t)" for p
  proof (cases "p < sp_statementStart s")
    case True
    with inv that e show ?thesis by (auto simp: split_inv_def intro: covered_bound)
  next
    case False
    with trimStatementRange_None [OF None, of p] that e inv
    have "outside_ok t db (sp_ranges s) e p"
      unfolding outside_ok_def split_inv_def by (fastforce intro: order_trans)
    then show ?thesis by (simp add: covered_def)
  qed
  with None inv e show ?thesis by (fastforce simp: splitPush_def split_inv_def)
next
  case (Some r)
  note trim = trimStatementRange_Some [OF Some]
  have "covered t db (sp_ranges s @ [r]) e p" if "p < min e (length t)" for p
  proof (cases "p < sp_statementStart s")
    case True
    with inv that have "covered t db (sp_ranges s) (sp_statementStart s) p"
      by (simp add: split_inv_def)
    then show ?thesis using trim(2) e by (meson covered_snoc covered_bound)
  next
    case False
    with trim(4) [of p] that e show ?thesis by (auto simp: covered_def outside_ok_def)
  qed
  moreover have "\<forall>r'\<in>set (sp_ranges s). range_end r' \<le> range_start r"
    using inv trim(2) by (auto simp: split_inv_def intro: order_trans)
  moreover have "range_end r \<le> e" using trim(3) e by simp
  ultimately show ?thesis
    using Some inv e trim(1)
    by (auto simp: splitPush_def split_inv_def intro: ranges_ordered_snoc order_trans)
qed

lemma split_inv_extend:
  assumes "split_inv t db e rs" "e \<le> e'"
    and "\<And>p. e \<le> p \<Longrightarrow> p < e' \<Longrightarrow> p < length t \<Longrightarrow> outside_ok t db rs e' p"
  shows "split_inv t db e' rs"
proof -
  have "covered t db rs e' p" if "p < min e' (length t)" for p
  proof (cases "p < e")
    case True
    with assms(1) that have "covered t db rs e p" by (simp add: split_inv_def)
    then show ?thesis using assms(2) by (rule covered_bound)
  next
    case False
    with assms(3) that show ?thesis by (simp add: covered_def)
  qed
  with assms(1,2) show ?thesis by (fastforce simp: split_inv_def)
qed

lemma split_move_inv:
  assumes "split_move t db s s'" "split_inv t db (sp_statementStart s) (sp_ranges s)"
    and "sp_statementStart s \<le> sp_index s" and "sp_index s < length t"
    and "sp_statementStart s \<le> length t"
  shows "split_inv t db (sp_statementStart s') (sp_ranges s')
    \<and> sp_statementStart s' \<le> sp_index s' + 1 \<and> sp_statementStart s' \<le> length t"
  using assms
proof cases
  case stay
  with assms show ?thesis by simp
next
  case (at_delimiter e)
  have "split_inv t db e (sp_ranges s')"
    using split_inv_push [OF assms(2), of e] at_delimiter assms(3) by auto
  then have "split_inv t db (sp_index s + 1) (sp_ranges s')"
  proof (rule split_inv_extend)
    show "e \<le> sp_index s + 1" using at_delimiter by auto
    fix p assume "e \<le> p" "p < sp_index s + 1"
    then have "p = sp_index s" using at_delimiter by auto
    then show "outside_ok t db (sp_ranges s') (sp_index s + 1) p" using at_delimiter(1) by (simp add: outside_ok_def)
  qed
  with at_delimiter assms(4) show ?thesis by simp
next
  case (at_slash e)
  note b = slashLineEnd_bounds [OF at_slash(1)]
  have "split_inv t db (sp_index s) (sp_ranges s')"
    using split_inv_push [OF assms(2), of "sp_index s"] at_slash assms(3) by simp
  then have "split_inv t db (sp_statementStart s') (sp_ranges s')"
  proof (rule split_inv_extend)
    show "sp_index s \<le> sp_statementStart s'" using at_slash b by simp
    fix p assume "sp_index s \<le> p" "p < sp_statementStart s'"
    then have "sp_index s \<le> p \<and> p \<le> e" using at_slash by (simp split: if_splits)
    then show "outside_ok t db (sp_ranges s') (sp_statementStart s') p" using at_slash(1) by (auto simp: outside_ok_def)
  qed
  with at_slash b show ?thesis by (auto dest: js_atD)
qed

lemma splitFinal_inv:
  "split_inv t db (sp_statementStart (splitFinal t db)) (sp_ranges (splitFinal t db))
   \<and> sp_statementStart (splitFinal t db) \<le> length t"
proof -
  obtain u where u: "scan_loop sp_index (length t) (splitStep t db) splitInit = Continue u"
    using splitter.total by blast
  define I where "I = (\<lambda>s :: splitState. split_inv t db (sp_statementStart s) (sp_ranges s)
      \<and> sp_statementStart s \<le> sp_index s \<and> sp_statementStart s \<le> length t)"
  have "I u"
  proof (rule splitter.invariant [where I = I, OF u])
    show "I splitInit"
      by (simp add: I_def splitInit_def split_inv_def ranges_ordered_def)
    fix s s' assume "I s" "sp_index s < length t" "splitStep t db s = Continue s'"
    then show "I s'"
      using split_move_inv [OF splitBody_move [of t db s]] by (auto simp: I_def splitStep_def)
  qed
  with u show ?thesis by (simp add: I_def splitFinal_def)
qed

lemma findSqlStatementRanges_inv:
  "split_inv (crlf_to_lf sql) db (length (crlf_to_lf sql)) (findSqlStatementRanges sql db)"
proof -
  let ?t = "crlf_to_lf sql"
  have "split_inv ?t db (length ?t) (sp_ranges (splitPush ?t db (length ?t) (splitFinal ?t db)))"
    using splitFinal_inv [of ?t db] by (intro split_inv_push) auto
  then show ?thesis by (simp add: findSqlStatementRanges_def Let_def)
qed

lemma statement_ranges_order:
  "list_all (wf_range (crlf_to_lf sql) dbType) (findSqlStatementRanges sql dbType)
   \<and> sorted_wrt (\<lambda>a b. range_end a \<le> range_start b) (findSqlStatementRanges sql dbType)"
  using findSqlStatementRanges_inv [of sql dbType]
  by (simp add: split_inv_def ranges_ordered_def list_all_iff)

text \<open>
  C1. Every range of \<open>findSqlStatementRanges\<close> is a non-empty slice of the text (with its line ends
  normalised), trimmed at both ends, with executable content, and the ranges are disjoint and in
  the order of the text.
\<close>

theorem statement_ranges_well_formed:
  "list_all (wf_range (crlf_to_lf sql) dbType) (findSqlStatementRanges sql dbType)
   \<and> sorted_wrt (\<lambda>a b. range_end a \<le> range_start b) (findSqlStatementRanges sql dbType)"
  by (rule statement_ranges_order)

text \<open>
  C2. The splitter loses no statement: a position outside every range is white space, a delimiter,
  on a standalone slash line, or in a piece of text between the ranges that has no executable
  content.
\<close>

theorem statement_ranges_cover_text:
  assumes "p < length (crlf_to_lf sql)"
    and "\<forall>r\<in>set (findSqlStatementRanges sql dbType). p < range_start r \<or> range_end r \<le> p"
  shows "outside_ok (crlf_to_lf sql) dbType (findSqlStatementRanges sql dbType)
           (length (crlf_to_lf sql)) p"
proof -
  have "covered (crlf_to_lf sql) dbType (findSqlStatementRanges sql dbType)
      (length (crlf_to_lf sql)) p"
    using findSqlStatementRanges_inv [of sql dbType] assms(1) by (simp add: split_inv_def)
  then show ?thesis using assms(2) by (auto simp: covered_def)
qed

theorem statement_ranges_cover_text_witness:
  "outside_ok (crlf_to_lf (js ''a;b'')) (js ''mysql'')
     (findSqlStatementRanges (js ''a;b'') (js ''mysql'')) (length (crlf_to_lf (js ''a;b''))) 1"
proof (rule statement_ranges_cover_text)
  show "(1 :: nat) < length (crlf_to_lf (js ''a;b''))" by simp
  show "\<forall>r\<in>set (findSqlStatementRanges (js ''a;b'') (js ''mysql'')).
      (1 :: nat) < range_start r \<or> range_end r \<le> 1"
    by code_simp
qed

end
