(* ===== verification/SqlCaret.thy ===== *)
theory SqlCaret
  imports SqlSplitProps
begin

text \<open>
  The functions of \<open>src/frontend/src/utils/sqlStatementSelection.ts\<close> that choose what to run or to
  complete at the caret: \<open>resolveSqlStatementPrefix\<close>, \<open>resolveCurrentSqlStatementRange\<close> and
  \<open>resolveExecutableSql\<close>, and the properties of their choices. A caret offset that is not a finite
  number is \<open>None\<close>.
\<close>

datatype sqlExecutionSource = FromSelection | FromStatement | FromLine | FromAll

record sqlExecutionSelection =
  sel_sql :: js_string
  sel_source :: sqlExecutionSource

definition clampOffset :: "js_string \<Rightarrow> int option \<Rightarrow> nat" where
  "clampOffset text cursorOffset =
     nat (max 0 (min (int (length text)) (case cursorOffset of Some k \<Rightarrow> k | None \<Rightarrow> 0)))"

definition resolveSqlStatementPrefix :: "js_string \<Rightarrow> js_string \<Rightarrow> js_string" where
  "resolveSqlStatementPrefix sql dbType =
     (let text = crlf_to_lf sql; ranges = findSqlStatementRanges text dbType in
      if ranges \<noteq> [] \<and> range_end (last ranges) = length (js_trim_end text)
      then drop (range_start (last ranges)) text else [])"

definition containsOffset :: "nat \<Rightarrow> sqlStatementRange \<Rightarrow> bool" where
  "containsOffset offset r \<longleftrightarrow> range_start r \<le> offset \<and> offset \<le> range_end r"

definition delimiterStatement ::
  "js_string \<Rightarrow> sqlStatementRange list \<Rightarrow> nat \<Rightarrow> sqlStatementRange option" where
  "delimiterStatement text ranges offset =
     (if isDelimiterFollowupOffset text offset
      then findStatementBeforeDelimiter text ranges (offset - 1) else None)"

definition resolveCurrentSqlStatementRange ::
  "js_string \<Rightarrow> int option \<Rightarrow> js_string \<Rightarrow> sqlStatementRange option" where
  "resolveCurrentSqlStatementRange sql cursorOffset dbType =
     (let text = crlf_to_lf sql; offset = clampOffset text cursorOffset;
          ranges = findSqlStatementRanges text dbType in
      if ranges = [] then None
      else
        (case delimiterStatement text ranges offset of
           Some r \<Rightarrow> Some r
         | None \<Rightarrow>
        (case find (containsOffset offset) ranges of
           Some r \<Rightarrow> Some r
         | None \<Rightarrow>
        (case resolveStandaloneSqlSlashLineAtOffset text offset of
           Some slashLine \<Rightarrow> findPreviousSqlStatementRange ranges (lineStart slashLine)
         | None \<Rightarrow>
        (case find (\<lambda>r. offset < range_start r) ranges of
           Some r \<Rightarrow> Some r
         | None \<Rightarrow> Some (last ranges))))))"

text \<open>\<open>range?.text.trim() ? { sql: stripLeadingSqlTrivia(range.text), source: 'statement' } : null\<close>\<close>

definition statementSelection ::
  "js_string \<Rightarrow> sqlStatementRange option \<Rightarrow> sqlExecutionSelection option" where
  "statementSelection dbType r =
     (case r of
        Some r \<Rightarrow> if js_trim (range_text r) \<noteq> []
                  then Some \<lparr>sel_sql = stripLeadingSqlTrivia (range_text r) dbType,
                             sel_source = FromStatement\<rparr>
                  else None
      | None \<Rightarrow> None)"

definition lineStatement ::
  "sqlStatementRange list \<Rightarrow> nat \<Rightarrow> nat \<Rightarrow> nat \<Rightarrow> sqlStatementRange option" where
  "lineStatement ranges ls le offset =
     (let lineStatements = filter (\<lambda>r. range_start r < le \<and> ls \<le> range_end r) ranges in
      case find (\<lambda>r. range_end r < offset) (rev lineStatements) of
        Some r \<Rightarrow> Some r
      | None \<Rightarrow> (case lineStatements of [] \<Rightarrow> None | r # _ \<Rightarrow> Some r))"

definition resolveExecutableSql ::
  "js_string \<Rightarrow> int option \<Rightarrow> js_string \<Rightarrow> js_string \<Rightarrow> sqlExecutionSelection option" where
  "resolveExecutableSql sql cursorOffset selectedSql dbType =
     (if js_trim selectedSql \<noteq> []
      then Some \<lparr>sel_sql = selectedSql, sel_source = FromSelection\<rparr>
      else
        (let text = crlf_to_lf sql; offset = clampOffset text cursorOffset;
             ranges = findSqlStatementRanges text dbType in
         if ranges = [] then None
         else
           (case statementSelection dbType (delimiterStatement text ranges offset) of
              Some sel \<Rightarrow> Some sel
            | None \<Rightarrow>
           (case statementSelection dbType (find (containsOffset offset) ranges) of
              Some sel \<Rightarrow> Some sel
            | None \<Rightarrow>
           (case resolveStandaloneSqlSlashLineAtOffset text offset of
              Some slashLine \<Rightarrow>
                statementSelection dbType
                  (findPreviousSqlStatementRange ranges (lineStart slashLine))
            | None \<Rightarrow>
              (let ls = lineStartBefore text offset;
                   le = lineEndAt text offset;
                   line = js_trim (js_slice text ls le) in
               if line = [] then Some \<lparr>sel_sql = sql, sel_source = FromAll\<rparr>
               else
                 (case statementSelection dbType (lineStatement ranges ls le offset) of
                    Some sel \<Rightarrow> Some sel
                  | None \<Rightarrow> Some \<lparr>sel_sql = line, sel_source = FromLine\<rparr>)))))))"

section \<open>What the caret selects\<close>

lemma find_in_set: "find P xs = Some x \<Longrightarrow> x \<in> set xs \<and> P x"
  by (auto simp: find_Some_iff)

lemma delimiterStatement_in: "delimiterStatement t rs off = Some r \<Longrightarrow> r \<in> set rs"
  by (auto simp: delimiterStatement_def findStatementBeforeDelimiter_def
      split: if_splits dest: find_in_set)

lemma previousRange_in: "findPreviousSqlStatementRange rs off = Some r \<Longrightarrow> r \<in> set rs"
  by (auto simp: findPreviousSqlStatementRange_def dest: find_in_set)

lemma lineStatement_in:
  assumes "lineStatement rs ls le off = Some r" shows "r \<in> set rs"
proof -
  have "r \<in> set (filter (\<lambda>r. range_start r < le \<and> ls \<le> range_end r) rs)"
    using assms by (auto simp only: lineStatement_def Let_def set_rev list.set(2)
        split: option.splits list.splits dest!: find_in_set)
  then show ?thesis by simp
qed

lemma statementSelection_Some:
  "statementSelection db r = Some sel \<longleftrightarrow>
     (\<exists>q. r = Some q \<and> js_trim (range_text q) \<noteq> []
          \<and> sel = \<lparr>sel_sql = stripLeadingSqlTrivia (range_text q) db, sel_source = FromStatement\<rparr>)"
  by (auto simp: statementSelection_def split: option.splits if_splits)

lemma find_ordered:
  assumes "sorted_wrt (\<lambda>a b. range_end a \<le> range_start b) rs" "r \<in> set rs"
    and "range_start r < off" "off \<le> range_end r" "\<forall>q\<in>set rs. range_start q < range_end q"
  shows "find (containsOffset off) rs = Some r"
  using assms
proof (induction rs)
  case (Cons q rs)
  show ?case
  proof (cases "q = r")
    case True
    with Cons.prems show ?thesis by (simp add: containsOffset_def)
  next
    case False
    with Cons.prems have "range_end q \<le> range_start r" by auto
    with Cons.prems have "\<not> containsOffset off q" by (auto simp: containsOffset_def)
    moreover have "find (containsOffset off) rs = Some r" using Cons False by auto
    ultimately show ?thesis by simp
  qed
qed simp

lemma find_inside_statement:
  assumes "r \<in> set (findSqlStatementRanges t db)" "range_start r < off" "off \<le> range_end r"
  shows "find (containsOffset off) (findSqlStatementRanges t db) = Some r"
  using statement_ranges_order [of t db] assms
  by (intro find_ordered) (auto simp: list_all_iff wf_range_def)

text \<open>
  C5. The statement chosen at the caret is one of the statements of the script; a caret inside a
  statement and not behind a delimiter chooses that statement; and there is a choice unless the
  script has no statement or the caret stands on a slash line with no statement before it.
\<close>

theorem current_statement_at_caret:
  "(resolveCurrentSqlStatementRange sql co dbType = Some r \<longrightarrow>
      r \<in> set (findSqlStatementRanges (crlf_to_lf sql) dbType))
   \<and> (resolveCurrentSqlStatementRange sql co dbType = None \<longrightarrow>
        findSqlStatementRanges (crlf_to_lf sql) dbType = []
        \<or> (\<exists>line. resolveStandaloneSqlSlashLineAtOffset (crlf_to_lf sql)
              (clampOffset (crlf_to_lf sql) co) = Some line
            \<and> (\<forall>q\<in>set (findSqlStatementRanges (crlf_to_lf sql) dbType). lineStart line < range_end q)))
   \<and> (r \<in> set (findSqlStatementRanges (crlf_to_lf sql) dbType)
        \<and> range_start r < clampOffset (crlf_to_lf sql) co
        \<and> clampOffset (crlf_to_lf sql) co \<le> range_end r
        \<and> \<not> isDelimiterFollowupOffset (crlf_to_lf sql) (clampOffset (crlf_to_lf sql) co)
        \<longrightarrow> resolveCurrentSqlStatementRange sql co dbType = Some r)"
  (is "?one \<and> ?two \<and> ?three")
proof (intro conjI)
  show ?one
    by (auto simp: resolveCurrentSqlStatementRange_def Let_def split: if_splits option.splits
        dest: delimiterStatement_in previousRange_in find_in_set)
  show ?two
    by (auto simp: resolveCurrentSqlStatementRange_def Let_def findPreviousSqlStatementRange_def
        find_None_iff not_le split: if_splits option.splits)
  show ?three
    by (auto simp: resolveCurrentSqlStatementRange_def Let_def delimiterStatement_def
        find_inside_statement)
qed

text \<open>
  Without a selection, what is executed is one statement of the script with its leading trivia
  removed, or the trimmed line of the caret, or, on a blank line outside every statement, the whole
  script; and a selection that is not blank is executed as it is.
\<close>

lemma executable_sql_source:
  "(js_trim selected \<noteq> [] \<longrightarrow>
      resolveExecutableSql sql co selected dbType
        = Some \<lparr>sel_sql = selected, sel_source = FromSelection\<rparr>)
   \<and> (js_trim selected = [] \<and> resolveExecutableSql sql co selected dbType = Some sel \<longrightarrow>
        (case sel_source sel of
           FromSelection \<Rightarrow> False
         | FromStatement \<Rightarrow>
             \<exists>r\<in>set (findSqlStatementRanges (crlf_to_lf sql) dbType).
               sel_sql sel = stripLeadingSqlTrivia (range_text r) dbType
         | FromLine \<Rightarrow> sel_sql sel \<noteq> []
             \<and> sel_sql sel = js_trim (js_slice (crlf_to_lf sql)
                   (lineStartBefore (crlf_to_lf sql) (clampOffset (crlf_to_lf sql) co))
                   (lineEndAt (crlf_to_lf sql) (clampOffset (crlf_to_lf sql) co)))
         | FromAll \<Rightarrow> sel_sql sel = sql
             \<and> (\<forall>r\<in>set (findSqlStatementRanges (crlf_to_lf sql) dbType).
                  js_trim (range_text r) \<noteq> [] \<longrightarrow>
                  \<not> (range_start r < clampOffset (crlf_to_lf sql) co
                     \<and> clampOffset (crlf_to_lf sql) co \<le> range_end r))))"
proof (intro conjI impI)
  assume "js_trim selected \<noteq> []"
  then show "resolveExecutableSql sql co selected dbType
      = Some \<lparr>sel_sql = selected, sel_source = FromSelection\<rparr>"
    by (simp add: resolveExecutableSql_def)
next
  let ?t = "crlf_to_lf sql"
  assume a: "js_trim selected = [] \<and> resolveExecutableSql sql co selected dbType = Some sel"
  have inside: "\<not> (range_start r < clampOffset ?t co \<and> clampOffset ?t co \<le> range_end r)"
    if "sel_source sel = FromAll" "r \<in> set (findSqlStatementRanges ?t dbType)"
      "js_trim (range_text r) \<noteq> []" for r
    using a that find_inside_statement [of r ?t dbType "clampOffset ?t co"]
    by (auto simp: resolveExecutableSql_def Let_def statementSelection_Some
        statementSelection_def split: if_splits option.splits)
  show "case sel_source sel of
           FromSelection \<Rightarrow> False
         | FromStatement \<Rightarrow>
             \<exists>r\<in>set (findSqlStatementRanges ?t dbType).
               sel_sql sel = stripLeadingSqlTrivia (range_text r) dbType
         | FromLine \<Rightarrow> sel_sql sel \<noteq> []
             \<and> sel_sql sel = js_trim (js_slice ?t
                   (lineStartBefore ?t (clampOffset ?t co)) (lineEndAt ?t (clampOffset ?t co)))
         | FromAll \<Rightarrow> sel_sql sel = sql
             \<and> (\<forall>r\<in>set (findSqlStatementRanges ?t dbType).
                  js_trim (range_text r) \<noteq> [] \<longrightarrow>
                  \<not> (range_start r < clampOffset ?t co \<and> clampOffset ?t co \<le> range_end r))"
    using a inside
    by (auto simp: resolveExecutableSql_def Let_def statementSelection_Some
        split: if_splits option.splits
        dest!: delimiterStatement_in previousRange_in lineStatement_in find_in_set)
qed

theorem current_statement_at_caret_witness:
  "resolveCurrentSqlStatementRange (js ''a;b'') (Some 1) (js ''mysql'')
     = Some \<lparr>range_start = 0, range_end = 1, range_text = js ''a''\<rparr>"
proof -
  let ?r = "\<lparr>range_start = 0, range_end = 1, range_text = js ''a''\<rparr>"
  have "?r \<in> set (findSqlStatementRanges (crlf_to_lf (js ''a;b'')) (js ''mysql''))
      \<and> range_start ?r < clampOffset (crlf_to_lf (js ''a;b'')) (Some 1)
      \<and> clampOffset (crlf_to_lf (js ''a;b'')) (Some 1) \<le> range_end ?r
      \<and> \<not> isDelimiterFollowupOffset (crlf_to_lf (js ''a;b''))
            (clampOffset (crlf_to_lf (js ''a;b'')) (Some 1))"
    by code_simp
  then show ?thesis
    using current_statement_at_caret [of "js ''a;b''" "Some 1" "js ''mysql''" ?r] by blast
qed

lemma executable_sql_source_witness:
  "resolveExecutableSql (js ''a;b'') (Some 1) (js ''b'') (js ''mysql'')
     = Some \<lparr>sel_sql = js ''b'', sel_source = FromSelection\<rparr>"
proof -
  have "js_trim (js ''b'') \<noteq> []" by code_simp
  then show ?thesis
    using executable_sql_source [of "js ''b''" "js ''a;b''" "Some 1" "js ''mysql''"] by blast
qed

end
