(* ===== verification/JsText.thy ===== *)
theory JsText
  imports JsPrelude
begin

text \<open>
  More of the JavaScript string library: global replacement of a literal pattern, doubling and
  undoubling of a quote character, decimal rendering of a non-negative integer, and the pieces of
  regular expressions the sources use (a case-insensitive word at a position, a word boundary).
\<close>

section \<open>Defaults\<close>

text \<open>\<open>a || b\<close> on strings.\<close>

definition js_or :: "js_string \<Rightarrow> js_string \<Rightarrow> js_string" where
  "js_or a b = (if a = [] then b else a)"

text \<open>A text that is left as it is by trimming and is not empty, as identifiers are after reading.\<close>

definition clean :: "js_string \<Rightarrow> bool" where
  "clean q \<longleftrightarrow> q \<noteq> [] \<and> js_trim q = q"

lemma clean_trim: "clean (js_trim s) \<longleftrightarrow> js_trim s \<noteq> []"
  by (simp add: clean_def)

lemma clean_not_Nil [simp]: "\<not> clean []"
  by (simp add: clean_def)

section \<open>Values of unknown type\<close>

text \<open>
  A value read from storage: a number comes with its text, everything that is neither string, number,
  boolean nor array is \<open>RawOther\<close>.
\<close>

datatype rawValue =
  RawString js_string | RawNumber js_string | RawBool bool | RawArray "rawValue list" | RawOther

section \<open>Replacing\<close>

text \<open>\<open>s.replace(/p/g, r)\<close> for a literal pattern \<open>p\<close>: leftmost matches that do not overlap.\<close>

function js_replace_all :: "js_string \<Rightarrow> js_string \<Rightarrow> js_string \<Rightarrow> js_string" where
  "js_replace_all p r [] = []"
| "js_replace_all p r (c # s) =
     (if p \<noteq> [] \<and> prefix p (c # s) then r @ js_replace_all p r (drop (length p) (c # s))
      else c # js_replace_all p r s)"
  by pat_completeness auto
termination
  by (relation "measure (\<lambda>(p, r, s). length s)") auto

abbreviation js_double :: "nat \<Rightarrow> js_string \<Rightarrow> js_string" where
  "js_double q s \<equiv> js_replace_unit q [q, q] s"

abbreviation js_undouble :: "nat \<Rightarrow> js_string \<Rightarrow> js_string" where
  "js_undouble q s \<equiv> js_replace_all [q, q] [q] s"

lemma js_replace_unit_simps [simp]:
  "js_replace_unit c r [] = []"
  "js_replace_unit c r (x # s) = (if x = c then r else [x]) @ js_replace_unit c r s"
  by (simp_all add: js_replace_unit_def)

lemma js_undouble_double [simp]: "js_undouble q (js_double q s) = s"
  by (induction s) (auto simp: prefix_def)

lemma js_replace_all_absent:
  "hd p \<notin> set s \<Longrightarrow> p \<noteq> [] \<Longrightarrow> js_replace_all p r s = s"
proof (induction s)
  case (Cons c s)
  then have "\<not> prefix p (c # s)" by (cases p) auto
  with Cons show ?case by simp
qed simp

lemma set_js_double: "set (js_double q s) = set s"
  by (induction s) auto

lemma js_double_absent [simp]: "q \<notin> set s \<Longrightarrow> js_double q s = s"
  by (induction s) auto

section \<open>Numbers\<close>

text \<open>The decimal digits of a non-negative integer below \<open>2 ^ 53\<close>, as a template literal prints it.\<close>

fun nat_text :: "nat \<Rightarrow> js_string" where
  "nat_text n = (if n < 10 then [48 + n] else nat_text (n div 10) @ [48 + n mod 10])"

declare nat_text.simps [simp del]

lemma nat_text_digits: "c \<in> set (nat_text n) \<Longrightarrow> ascii_digit c"
proof (induction n rule: nat_text.induct)
  case (1 n)
  show ?case
  proof (cases "n < 10")
    case True
    with 1(2) show ?thesis by (subst (asm) nat_text.simps) (simp add: ascii_digit_def)
  next
    case False
    with 1(2) have "c \<in> set (nat_text (n div 10)) \<or> c = 48 + n mod 10"
      by (subst (asm) nat_text.simps) (auto simp del: nat_text.simps)
    moreover have "ascii_digit (48 + n mod 10)"
      using mod_less_divisor [of 10 n] by (simp add: ascii_digit_def)
    ultimately show ?thesis using 1(1) [OF False] by blast
  qed
qed

lemma nat_text_nonempty [simp]: "nat_text n \<noteq> []"
  by (subst nat_text.simps) simp

lemma clean_numbered:
  assumes "p \<noteq> []" "\<not> js_space (hd p)"
  shows "clean (p @ nat_text n)"
proof -
  have "js_trim (p @ nat_text n) = p @ nat_text n"
  proof (rule js_trim_id)
    have "last (nat_text n) \<in> set (nat_text n)" by simp
    from nat_text_digits [OF this] show "\<not> js_space (last (p @ nat_text n))"
      by (auto simp: ascii_digit_def js_space_def)
  qed (simp_all add: assms)
  then show ?thesis using assms(1) by (simp add: clean_def)
qed

text \<open>Reading the digits back.\<close>

definition digits_value :: "js_string \<Rightarrow> nat" where
  "digits_value s = fold (\<lambda>c v. v * 10 + (c - 48)) s 0"

lemma digits_value_nat_text [simp]: "digits_value (nat_text n) = n"
proof (induction n rule: nat_text.induct)
  case (1 n)
  then show ?case
    by (subst nat_text.simps) (auto simp: digits_value_def)
qed

section \<open>Regular expressions\<close>

text \<open>A literal (given in lower case) at a position, without regard to ASCII case.\<close>

definition kw_at :: "js_string \<Rightarrow> js_string \<Rightarrow> nat \<Rightarrow> bool" where
  "kw_at w t i \<longleftrightarrow> i + length w \<le> length t \<and> js_fold (js_slice t i (i + length w)) = w"

text \<open>\<open>\b\<close>: exactly one side of the position is a word character.\<close>

definition word_boundary :: "js_string \<Rightarrow> nat \<Rightarrow> bool" where
  "word_boundary t i \<longleftrightarrow>
     (0 < i \<and> js_at_is t (i - 1) js_word) \<noteq> js_at_is t i js_word"

text \<open>\<open>\bw\b\<close> for a word \<open>w\<close>.\<close>

definition whole_word_at :: "js_string \<Rightarrow> js_string \<Rightarrow> nat \<Rightarrow> bool" where
  "whole_word_at w t i \<longleftrightarrow>
     kw_at w t i \<and> word_boundary t i \<and> word_boundary t (i + length w)"

definition has_whole_word :: "js_string \<Rightarrow> js_string \<Rightarrow> bool" where
  "has_whole_word w t \<longleftrightarrow> (\<exists>i\<in>set [0..<length t]. whole_word_at w t i)"

text \<open>\<open>\s*\<close> and \<open>\s+\<close> are greedy; what follows them in the sources never starts with a space.\<close>

abbreviation skip_space :: "js_string \<Rightarrow> nat \<Rightarrow> nat" where
  "skip_space t i \<equiv> i + length (takeWhile js_space (drop i t))"

lemma kw_at_append:
  "js_fold w' = w \<Longrightarrow> kw_at w (a @ w' @ b) (length a)"
  by (auto simp: kw_at_def js_slice_def js_fold_def)

end
