(* ===== verification/QualifiedName.thy ===== *)
theory QualifiedName
  imports JsText
begin

text \<open>
  \<open>src/frontend/src/utils/qualifiedName.ts\<close>: reading SQL identifiers. A name is split at the dots
  that stand outside its quotes, and every segment loses its quotes. The locale \<open>name_style\<close> is the
  contract of a way of writing an identifier that this parser reads back; the three quote styles
  and the plain style are instances, and the writers of \<open>sql.ts\<close> are proved to be one in
  \<open>SqlQuote\<close>.
\<close>

record qualifiedNameSegment =
  seg_raw :: js_string
  seg_value :: js_string
  seg_quoted :: bool

record qualifiedNameParts =
  parentPath :: js_string
  objectName :: js_string

section \<open>Identifiers\<close>

definition unescapeQuotes :: "js_string \<Rightarrow> js_string" where
  "unescapeQuotes s = js_replace_all [92, 34] [34] (js_replace_all [92, 92, 34] [92, 34] s)"

fun escapesLoop :: "nat \<Rightarrow> js_string \<Rightarrow> js_string" where
  "escapesLoop 0 value = value"
| "escapesLoop (Suc k) value =
     (let next = unescapeQuotes (js_trim value) in
      if next = value then value else escapesLoop k next)"

definition normalizeIdentifierEscapes :: "js_string \<Rightarrow> js_string" where
  "normalizeIdentifierEscapes raw = js_trim (escapesLoop 4 (js_trim raw))"

definition supportsBracketIdentifier :: "js_string \<Rightarrow> bool" where
  "supportsBracketIdentifier dbType \<longleftrightarrow>
     (let dialect = js_lower (js_trim dbType) in
      dialect = []
      \<or> dialect \<in> set [js ''sqlserver'', js ''mssql'', js ''sql_server'', js ''sql-server'',
                     js ''sql server'', js ''sqlite'', js ''sqlite3''])"

definition supportsEscapedBracketIdentifier :: "js_string \<Rightarrow> bool" where
  "supportsEscapedBracketIdentifier dbType \<longleftrightarrow>
     (let dialect = js_lower (js_trim dbType) in
      dialect = []
      \<or> dialect \<in> set [js ''sqlserver'', js ''mssql'', js ''sql_server'', js ''sql-server'',
                     js ''sql server''])"

text \<open>\<open>text.slice(1, -1)\<close>\<close>

definition innerText :: "js_string \<Rightarrow> js_string" where
  "innerText t = butlast (tl t)"

definition stripIdentifierQuotes :: "js_string \<Rightarrow> js_string \<Rightarrow> js_string" where
  "stripIdentifierQuotes part dbType =
     (let text = normalizeIdentifierEscapes part in
      if text = [] then []
      else if 2 \<le> length text \<and> hd text = 34 \<and> last text = 34 then js_undouble 34 (innerText text)
      else if 2 \<le> length text \<and> hd text = 96 \<and> last text = 96 then js_undouble 96 (innerText text)
      else if 2 \<le> length text \<and> supportsBracketIdentifier dbType
              \<and> hd text = cu CHR ''['' \<and> last text = cu CHR '']'' then
        (if supportsEscapedBracketIdentifier dbType then js_undouble 93 (innerText text)
         else innerText text)
      else text)"

definition isQuotedIdentifier :: "js_string \<Rightarrow> js_string \<Rightarrow> bool" where
  "isQuotedIdentifier part dbType \<longleftrightarrow>
     (let text = normalizeIdentifierEscapes part in
      2 \<le> length text
      \<and> ((hd text = 34 \<and> last text = 34) \<or> (hd text = 96 \<and> last text = 96)
         \<or> (supportsBracketIdentifier dbType \<and> hd text = cu CHR ''['' \<and> last text = cu CHR '']'')))"

section \<open>Splitting a path\<close>

text \<open>The locals of the loop of \<open>splitQualifiedNameSegmentsDetailed\<close>.\<close>

record nameState =
  nm_current :: js_string
  nm_inDouble :: bool
  nm_inBacktick :: bool
  nm_inBracket :: bool
  nm_segments :: "qualifiedNameSegment list"

definition nameInit :: nameState where
  "nameInit = \<lparr>nm_current = [], nm_inDouble = False, nm_inBacktick = False,
     nm_inBracket = False, nm_segments = []\<rparr>"

definition nameFlush :: "js_string \<Rightarrow> nameState \<Rightarrow> nameState" where
  "nameFlush dbType s =
     (let v = js_trim (nm_current s); s = s\<lparr>nm_current := []\<rparr> in
      if v = [] then s
      else s\<lparr>nm_segments := nm_segments s
             @ [\<lparr>seg_raw = v, seg_value = stripIdentifierQuotes v dbType,
                 seg_quoted = isQuotedIdentifier v dbType\<rparr>]\<rparr>)"

definition nameAppend :: "js_string \<Rightarrow> nameState \<Rightarrow> nameState" where
  "nameAppend t s = s\<lparr>nm_current := nm_current s @ t\<rparr>"

text \<open>
  The body of the loop for the character \<open>ch\<close> with the look-ahead \<open>text[i + 1]\<close>; the flag of the
  result says that the body also took the next character (\<open>i += 1; continue\<close>).
\<close>

definition nameChar :: "js_string \<Rightarrow> nat \<Rightarrow> nat option \<Rightarrow> nameState \<Rightarrow> nameState \<times> bool" where
  "nameChar dbType ch next s =
     (if nm_inDouble s then
        (if ch = 34 \<and> next = Some 34 then (nameAppend [ch, 34] s, True)
         else ((nameAppend [ch] s)\<lparr>nm_inDouble := ch \<noteq> 34\<rparr>, False))
      else if nm_inBacktick s then
        (if ch = 96 \<and> next = Some 96 then (nameAppend [ch, 96] s, True)
         else ((nameAppend [ch] s)\<lparr>nm_inBacktick := ch \<noteq> 96\<rparr>, False))
      else if supportsBracketIdentifier dbType \<and> nm_inBracket s then
        (if supportsEscapedBracketIdentifier dbType \<and> ch = 93 \<and> next = Some 93
         then (nameAppend [ch, 93] s, True)
         else ((nameAppend [ch] s)\<lparr>nm_inBracket := ch \<noteq> 93\<rparr>, False))
      else if ch = 34 then (nameAppend [ch] (s\<lparr>nm_inDouble := True\<rparr>), False)
      else if ch = 96 then (nameAppend [ch] (s\<lparr>nm_inBacktick := True\<rparr>), False)
      else if supportsBracketIdentifier dbType \<and> ch = 91 then
        (nameAppend [ch] (s\<lparr>nm_inBracket := True\<rparr>), False)
      else if ch = cu CHR ''.'' then (nameFlush dbType s, False)
      else (nameAppend [ch] s, False))"

text \<open>The loop, over the rest of the text.\<close>

function nameLoop :: "js_string \<Rightarrow> js_string \<Rightarrow> nameState \<Rightarrow> nameState" where
  "nameLoop dbType [] s = s"
| "nameLoop dbType (ch # rest) s =
     (case nameChar dbType ch (js_at rest 0) s of
        (s', tookNext) \<Rightarrow> nameLoop dbType (if tookNext then drop 1 rest else rest) s')"
  by pat_completeness auto
termination
  by (relation "measure (\<lambda>(db, t, s). length t)") auto

definition splitQualifiedNameSegmentsDetailed ::
  "js_string \<Rightarrow> js_string \<Rightarrow> qualifiedNameSegment list" where
  "splitQualifiedNameSegmentsDetailed qualifiedName dbType =
     (let text = normalizeIdentifierEscapes qualifiedName in
      if text = [] then []
      else nm_segments (nameFlush dbType (nameLoop dbType text nameInit)))"

definition splitQualifiedNameSegments :: "js_string \<Rightarrow> js_string \<Rightarrow> js_string list" where
  "splitQualifiedNameSegments qualifiedName dbType =
     map seg_value (splitQualifiedNameSegmentsDetailed qualifiedName dbType)"

definition dotted :: "js_string list \<Rightarrow> js_string" where
  "dotted = js_join (js ''.'')"

definition splitQualifiedName :: "js_string \<Rightarrow> js_string \<Rightarrow> qualifiedNameParts" where
  "splitQualifiedName qualifiedName dbType =
     (let segments = splitQualifiedNameSegments qualifiedName dbType in
      if length segments = 0 then \<lparr>parentPath = [], objectName = []\<rparr>
      else if length segments = 1 then \<lparr>parentPath = [], objectName = segments ! 0\<rparr>
      else \<lparr>parentPath = dotted (butlast segments), objectName = last segments\<rparr>)"

text \<open>
  \<open>splitMetadataQualifiedName\<close>; \<open>sameName\<close> stands for \<open>localeCompare\<close> with the sensitivity
  \<open>accent\<close> returning 0, which the host's collation decides.
\<close>

definition splitMetadataQualifiedName ::
  "(js_string \<Rightarrow> js_string \<Rightarrow> bool) \<Rightarrow> js_string \<Rightarrow> js_string \<Rightarrow> qualifiedNameParts" where
  "splitMetadataQualifiedName sameName qualifiedName expectedParent =
     (let raw = js_trim qualifiedName in
      if raw = [] then \<lparr>parentPath = [], objectName = []\<rparr>
      else
        (let segments = splitQualifiedNameSegmentsDetailed raw [];
             parent = js_trim expectedParent;
             hasExpectedParent = parent \<noteq> [] \<and> 1 < length segments
               \<and> sameName (seg_value (segments ! 0)) parent;
             hasExplicitPath = 1 < length segments
               \<and> ((\<exists>segment\<in>set segments. seg_quoted segment) \<or> hasExpectedParent) in
         if \<not> hasExplicitPath then \<lparr>parentPath = [], objectName = raw\<rparr>
         else \<lparr>parentPath = dotted (map seg_value (butlast segments)),
               objectName = (let v = seg_value (last segments) in if v = [] then raw else v)\<rparr>))"

section \<open>Reading back what was written\<close>

lemma escapesLoop_no_backslash: "92 \<notin> set s \<Longrightarrow> js_trim s = s \<Longrightarrow> escapesLoop k s = s"
  by (induction k) (simp_all add: unescapeQuotes_def js_replace_all_absent)

lemma normalize_no_backslash:
  assumes "92 \<notin> set s" shows "normalizeIdentifierEscapes s = js_trim s"
proof -
  have "92 \<notin> set (js_trim s)" using assms set_js_trim [of s] by blast
  then have "escapesLoop 4 (js_trim s) = js_trim s" by (intro escapesLoop_no_backslash) simp_all
  then show ?thesis by (simp only: normalizeIdentifierEscapes_def js_trim_idem)
qed

lemma not_space_quotes [simp]:
  "\<not> js_space 34" "\<not> js_space 96" "\<not> js_space 91" "\<not> js_space 93" "\<not> js_space 46" "\<not> js_space 39"
  by (simp_all add: js_space_def)

lemma nameAppend_append [simp]: "nameAppend u (nameAppend t s) = nameAppend (t @ u) s"
  by (simp add: nameAppend_def)

lemma nameAppend_Nil [simp]: "nameAppend [] s = s"
  by (simp add: nameAppend_def)

lemma nameAppend_flags [simp]:
  "nm_inDouble (nameAppend t s) = nm_inDouble s"
  "nm_inBacktick (nameAppend t s) = nm_inBacktick s"
  "nm_inBracket (nameAppend t s) = nm_inBracket s"
  "(nameAppend t s)\<lparr>nm_inDouble := b\<rparr> = nameAppend t (s\<lparr>nm_inDouble := b\<rparr>)"
  "(nameAppend t s)\<lparr>nm_inBacktick := b\<rparr> = nameAppend t (s\<lparr>nm_inBacktick := b\<rparr>)"
  "(nameAppend t s)\<lparr>nm_inBracket := b\<rparr> = nameAppend t (s\<lparr>nm_inBracket := b\<rparr>)"
  by (cases s; simp add: nameAppend_def)+

lemma name_flags_off [simp]:
  "\<not> nm_inDouble s \<Longrightarrow> s\<lparr>nm_inDouble := False\<rparr> = s"
  "\<not> nm_inBacktick s \<Longrightarrow> s\<lparr>nm_inBacktick := False\<rparr> = s"
  "\<not> nm_inBracket s \<Longrightarrow> s\<lparr>nm_inBracket := False\<rparr> = s"
  by (cases s; simp)+

text \<open>A state outside quotes.\<close>

abbreviation name_outside :: "nameState \<Rightarrow> bool" where
  "name_outside s \<equiv> \<not> nm_inDouble s \<and> \<not> nm_inBacktick s \<and> \<not> nm_inBracket s"

text \<open>
  A style of writing names: \<open>render v\<close> is one token for the splitting loop, has no white space at its
  ends, no backslash, and reads back as \<open>v\<close>.
\<close>

locale name_style =
  fixes render :: "js_string \<Rightarrow> js_string" and writable :: "js_string \<Rightarrow> bool" and dbType :: js_string
  assumes one_token: "writable v \<Longrightarrow> name_outside s \<Longrightarrow> js_at rest 0 \<in> {None, Some (cu CHR ''.'')} \<Longrightarrow>
      nameLoop dbType (render v @ rest) s = nameLoop dbType rest (nameAppend (render v) s)"
    and tight: "writable v \<Longrightarrow> render v \<noteq> [] \<and> \<not> js_space (hd (render v)) \<and> \<not> js_space (last (render v))"
    and plain: "writable v \<Longrightarrow> 92 \<notin> set (render v)"
    and reads_back: "writable v \<Longrightarrow> stripIdentifierQuotes (render v) dbType = v"
begin

lemma trim_render: "writable v \<Longrightarrow> js_trim (render v) = render v"
  using tight by (intro js_trim_id) auto

lemma dot_step:
  "name_outside s \<Longrightarrow> nameLoop dbType (46 # rest) s = nameLoop dbType rest (nameFlush dbType s)"
  by (simp add: nameChar_def)

lemma flush_render:
  "writable v \<Longrightarrow> nm_current s = [] \<Longrightarrow>
     nameFlush dbType (nameAppend (render v) s) = s\<lparr>nm_segments := nm_segments s
       @ [\<lparr>seg_raw = render v, seg_value = v, seg_quoted = isQuotedIdentifier (render v) dbType\<rparr>]\<rparr>"
  using tight [of v] by (cases s) (simp add: nameFlush_def nameAppend_def Let_def trim_render reads_back)

abbreviation segment :: "js_string \<Rightarrow> qualifiedNameSegment" where
  "segment v \<equiv> \<lparr>seg_raw = render v, seg_value = v,
     seg_quoted = isQuotedIdentifier (render v) dbType\<rparr>"

lemma loop_dotted:
  assumes "\<forall>v\<in>set vs. writable v" "vs \<noteq> []" "name_outside s" "nm_current s = []"
  shows "nm_segments (nameFlush dbType (nameLoop dbType (dotted (map render vs)) s))
     = nm_segments s @ map segment vs"
  using assms
proof (induction vs arbitrary: s)
  case (Cons v vs)
  show ?case
  proof (cases "vs = []")
    case True
    with Cons.prems one_token [of v s "[]"] show ?thesis
      by (simp add: dotted_def flush_render)
  next
    case False
    let ?s = "nameFlush dbType (nameAppend (render v) s)"
    have "nameLoop dbType (dotted (map render (v # vs))) s
        = nameLoop dbType (dotted (map render vs)) ?s"
      using Cons.prems False one_token [of v s "46 # dotted (map render vs)"]
        dot_step [of "nameAppend (render v) s"]
      by (simp add: dotted_def js_join_Cons js_at_def nameAppend_def del: nameLoop.simps)
    moreover have "name_outside ?s" "nm_current ?s = []"
      using Cons.prems by (simp_all add: flush_render)
    ultimately show ?thesis
      using Cons.IH [of ?s] Cons.prems False by (simp add: flush_render)
  qed
qed simp

lemma dotted_plain: "\<forall>v\<in>set vs. writable v \<Longrightarrow> 92 \<notin> set (dotted (map render vs))"
proof (induction vs)
  case (Cons v vs)
  then show ?case using plain [of v]
    by (cases "vs = []") (auto simp: dotted_def js_join_Cons)
qed (simp add: dotted_def)

lemma dotted_tight:
  "\<forall>v\<in>set vs. writable v \<Longrightarrow> vs \<noteq> [] \<Longrightarrow>
     dotted (map render vs) \<noteq> [] \<and> \<not> js_space (hd (dotted (map render vs)))
     \<and> \<not> js_space (last (dotted (map render vs)))"
proof (induction vs)
  case (Cons v vs)
  then show ?case using tight [of v]
    by (cases "vs = []") (auto simp: dotted_def js_join_Cons hd_append last_append)
qed simp

text \<open>The segments of a written path are the names.\<close>

lemma split_detailed:
  assumes "\<forall>v\<in>set vs. writable v"
  shows "splitQualifiedNameSegmentsDetailed (dotted (map render vs)) dbType = map segment vs"
proof (cases "vs = []")
  case True
  then show ?thesis
    by (simp add: dotted_def splitQualifiedNameSegmentsDetailed_def normalize_no_backslash)
next
  case False
  let ?t = "dotted (map render vs)"
  have "normalizeIdentifierEscapes ?t = ?t"
    using dotted_plain [OF assms] dotted_tight [OF assms False]
    by (simp add: normalize_no_backslash js_trim_id)
  then show ?thesis
    using loop_dotted [OF assms False, of nameInit] dotted_tight [OF assms False]
    by (simp add: splitQualifiedNameSegmentsDetailed_def nameInit_def)
qed

lemma split_dotted:
  "\<forall>v\<in>set vs. writable v \<Longrightarrow> splitQualifiedNameSegments (dotted (map render vs)) dbType = vs"
  by (simp add: splitQualifiedNameSegments_def split_detailed comp_def)

lemma split_name:
  assumes "\<forall>v\<in>set vs. writable v" "vs \<noteq> []"
  shows "splitQualifiedName (dotted (map render vs)) dbType
     = \<lparr>parentPath = dotted (butlast vs), objectName = last vs\<rparr>"
  using split_dotted [OF assms(1)] assms(2)
  by (cases vs rule: rev_cases)
    (auto simp: splitQualifiedName_def Let_def dotted_def nth_append Suc_le_eq)

end

subsection \<open>The quote styles\<close>

definition enclosed :: "nat \<Rightarrow> nat \<Rightarrow> js_string \<Rightarrow> js_string" where
  "enclosed l r v = l # js_double r v @ [r]"

abbreviation readable :: "js_string \<Rightarrow> bool" where
  "readable v \<equiv> 92 \<notin> set v"

lemma strip_enclosed:
  assumes "readable v" "(l, r) \<in> {(34, 34), (96, 96), (91, 93)}"
    and "l = 91 \<Longrightarrow> supportsBracketIdentifier db \<and> supportsEscapedBracketIdentifier db"
  shows "stripIdentifierQuotes (enclosed l r v) db = v"
proof -
  have "92 \<notin> set (enclosed l r v)" using assms by (auto simp: enclosed_def set_js_double)
  moreover have "js_trim (enclosed l r v) = enclosed l r v"
    using assms(2) by (intro js_trim_id) (auto simp: enclosed_def)
  ultimately have "normalizeIdentifierEscapes (enclosed l r v) = enclosed l r v"
    by (simp add: normalize_no_backslash)
  then show ?thesis
    using assms(2,3) by (auto simp: stripIdentifierQuotes_def enclosed_def innerText_def)
qed

lemma loop_in_double:
  "nm_inDouble s \<Longrightarrow> js_at rest 0 \<noteq> Some 34 \<Longrightarrow>
     nameLoop db (js_double 34 v @ 34 # rest) s
       = nameLoop db rest (nameAppend (js_double 34 v @ [34]) (s\<lparr>nm_inDouble := False\<rparr>))"
proof (induction v arbitrary: s)
  case (Cons c v)
  then show ?case
    by (cases "c = 34") (simp_all add: nameChar_def js_at_def)
qed (simp add: nameChar_def)

lemma loop_in_backtick:
  "nm_inBacktick s \<Longrightarrow> \<not> nm_inDouble s \<Longrightarrow> js_at rest 0 \<noteq> Some 96 \<Longrightarrow>
     nameLoop db (js_double 96 v @ 96 # rest) s
       = nameLoop db rest (nameAppend (js_double 96 v @ [96]) (s\<lparr>nm_inBacktick := False\<rparr>))"
proof (induction v arbitrary: s)
  case (Cons c v)
  then show ?case
    by (cases "c = 96") (simp_all add: nameChar_def js_at_def)
qed (simp add: nameChar_def)

lemma loop_in_bracket:
  "nm_inBracket s \<Longrightarrow> \<not> nm_inDouble s \<Longrightarrow> \<not> nm_inBacktick s \<Longrightarrow> js_at rest 0 \<noteq> Some 93 \<Longrightarrow>
     supportsBracketIdentifier db \<Longrightarrow> supportsEscapedBracketIdentifier db \<Longrightarrow>
     nameLoop db (js_double 93 v @ 93 # rest) s
       = nameLoop db rest (nameAppend (js_double 93 v @ [93]) (s\<lparr>nm_inBracket := False\<rparr>))"
proof (induction v arbitrary: s)
  case (Cons c v)
  then show ?case
    by (cases "c = 93") (simp_all add: nameChar_def js_at_def)
qed (simp add: nameChar_def)

interpretation double_quoted: name_style "enclosed 34 34" readable db for db
proof unfold_locales
  fix v s rest assume "readable v" "name_outside s" "js_at rest 0 \<in> {None, Some (cu CHR ''.'')}"
  moreover from this have "js_at rest 0 \<noteq> Some 34" by (auto simp: js_at_def)
  ultimately show "nameLoop db (enclosed 34 34 v @ rest) s = nameLoop db rest (nameAppend (enclosed 34 34 v) s)"
    by (simp add: enclosed_def nameChar_def loop_in_double)
qed (auto simp: enclosed_def strip_enclosed [unfolded enclosed_def] set_js_double)

interpretation backticked: name_style "enclosed 96 96" readable db for db
proof unfold_locales
  fix v s rest assume "readable v" "name_outside s" "js_at rest 0 \<in> {None, Some (cu CHR ''.'')}"
  moreover from this have "js_at rest 0 \<noteq> Some 96" by (auto simp: js_at_def)
  ultimately show "nameLoop db (enclosed 96 96 v @ rest) s = nameLoop db rest (nameAppend (enclosed 96 96 v) s)"
    by (simp add: enclosed_def nameChar_def loop_in_backtick)
qed (auto simp: enclosed_def strip_enclosed [unfolded enclosed_def] set_js_double)

lemma generic_brackets [simp]: "supportsBracketIdentifier []" "supportsEscapedBracketIdentifier []"
  by (simp_all add: supportsBracketIdentifier_def supportsEscapedBracketIdentifier_def js_lower_def)

lemma bracketed_style:
  assumes db: "supportsBracketIdentifier db" "supportsEscapedBracketIdentifier db"
  shows "name_style (enclosed 91 93) readable db"
proof unfold_locales
  fix v s rest assume "readable v" "name_outside s" "js_at rest 0 \<in> {None, Some (cu CHR ''.'')}"
  moreover from this have "js_at rest 0 \<noteq> Some 93" by (auto simp: js_at_def)
  ultimately show "nameLoop db (enclosed 91 93 v @ rest) s = nameLoop db rest (nameAppend (enclosed 91 93 v) s)"
    by (simp add: enclosed_def nameChar_def loop_in_bracket db)
qed (auto simp: enclosed_def strip_enclosed [unfolded enclosed_def] set_js_double db)

interpretation bracketed: name_style "enclosed 91 93" readable "[]"
  by (rule bracketed_style) simp_all

text \<open>Words: an identifier that needs no quotes.\<close>

definition plain_name :: "js_string \<Rightarrow> bool" where
  "plain_name v \<longleftrightarrow> v \<noteq> [] \<and> (\<forall>c\<in>set v. js_word c)"

lemma js_word_special:
  "js_word c \<Longrightarrow> \<not> js_space c \<and> c \<noteq> 92 \<and> c \<noteq> 34 \<and> c \<noteq> 96 \<and> c \<noteq> 91 \<and> c \<noteq> 93 \<and> c \<noteq> 46 \<and> c \<noteq> 39"
  by (auto simp: char_defs)

lemma loop_plain:
  "\<forall>c\<in>set v. js_word c \<Longrightarrow> name_outside s \<Longrightarrow>
     nameLoop db (v @ rest) s = nameLoop db rest (nameAppend v s)"
proof (induction v arbitrary: s)
  case (Cons c v)
  then show ?case using js_word_special [of c]
    by (simp add: nameChar_def)
qed simp

interpretation unquoted: name_style "\<lambda>v. v" plain_name db for db
proof unfold_locales
  fix v s rest assume "plain_name v" "name_outside s"
  then show "nameLoop db (v @ rest) s = nameLoop db rest (nameAppend v s)"
    by (simp add: loop_plain plain_name_def)
next
  fix v assume v: "plain_name v"
  then have w: "js_word (hd v)" "js_word (last v)" "\<forall>c\<in>set v. js_word c" "v \<noteq> []"
    by (auto simp: plain_name_def)
  show "v \<noteq> [] \<and> \<not> js_space (hd v) \<and> \<not> js_space (last v)"
    using w js_word_special by simp
  show nb: "92 \<notin> set v" using w js_word_special by blast
  show "stripIdentifierQuotes v db = v"
    using w js_word_special [OF w(1)] js_word_special [OF w(2)] nb
    by (simp add: stripIdentifierQuotes_def normalize_no_backslash js_trim_id)
qed

text \<open>A writer that picks a style name by name.\<close>

lemma name_style_choice:
  assumes "\<And>v. W v \<Longrightarrow> \<exists>r P. name_style r P db \<and> P v \<and> w v = r v"
  shows "name_style w W db"
proof unfold_locales
  fix v s rest assume W: "W v"
  from assms [OF W] obtain r P where r: "name_style r P db" "P v" "w v = r v" by blast
  show "name_outside s \<Longrightarrow> js_at rest 0 \<in> {None, Some (cu CHR ''.'')} \<Longrightarrow>
      nameLoop db (w v @ rest) s = nameLoop db rest (nameAppend (w v) s)"
    using name_style.one_token [OF r(1,2)] r(3) by simp
next
  fix v assume W: "W v"
  from assms [OF W] obtain r P where r: "name_style r P db" "P v" "w v = r v" by blast
  show "w v \<noteq> [] \<and> \<not> js_space (hd (w v)) \<and> \<not> js_space (last (w v))"
    using name_style.tight [OF r(1,2)] r(3) by simp
  show "92 \<notin> set (w v)" using name_style.plain [OF r(1,2)] r(3) by simp
  show "stripIdentifierQuotes (w v) db = v" using name_style.reads_back [OF r(1,2)] r(3) by simp
qed

end
