(* ===== verification/SqlEmbeddedWrite.thy ===== *)
theory SqlEmbeddedWrite
  imports SqlLexical
begin

text \<open>
  \<open>src/frontend/src/utils/sqlEmbeddedWrite.ts\<close>: the lexical scan that looks for a write keyword
  inside a statement whose first keyword reads. The scan is refined to a specification over the
  words of the text that stand outside quotes and comments.
\<close>

section \<open>The scan\<close>

definition SQL_EMBEDDED_WRITE_KEYWORDS :: "js_string list" where
  "SQL_EMBEDDED_WRITE_KEYWORDS =
     [js ''insert'', js ''delete'', js ''update'', js ''upsert'',
      js ''create'', js ''alter'', js ''drop'', js ''truncate'', js ''rename'',
      js ''grant'', js ''revoke'']"

definition isSqlKeywordChar :: "nat \<Rightarrow> bool" where
  [char_defs]: "isSqlKeywordChar c \<longleftrightarrow> ascii_alpha c \<or> ascii_digit c \<or> c = 95"

definition quotedTextStep ::
  "js_string \<Rightarrow> js_string \<Rightarrow> nat \<Rightarrow> nat \<Rightarrow> (nat, nat) flow" where
  "quotedTextStep text dbType q pos =
     (if text ! pos = q then
        (if js_at text (pos + 1) = Some q then Continue (pos + 2) else Return (pos + 1))
      else if text ! pos = 92 \<and> q = 39 \<and> supportsSqlHashLineComment dbType then Continue (pos + 2)
      else Continue (pos + 1))"

definition bracketTextStep :: "js_string \<Rightarrow> js_string \<Rightarrow> nat \<Rightarrow> (nat, nat) flow" where
  "bracketTextStep text dbType pos =
     (if text ! pos = cu CHR '']'' then
        (if supportsSqlEscapedBracketIdentifier dbType \<and> js_at text (pos + 1) = Some (cu CHR '']'')
         then Continue (pos + 2) else Return (pos + 1))
      else Continue (pos + 1))"

definition dollarTextEnd :: "js_string \<Rightarrow> nat \<Rightarrow> nat option" where
  "dollarTextEnd text i =
     (let tagEnd = skip_while isSqlKeywordChar text (i + 1) in
      if js_at text tagEnd = Some (cu CHR ''$'')
         \<and> (tagEnd = i + 1 \<or> js_at_is text (i + 1) (\<lambda>c. ascii_alpha c \<or> c = 95))
      then (let tag = js_slice text i (tagEnd + 1) in
            Some (case js_index_of text tag (tagEnd + 1) of
                    None \<Rightarrow> length text
                  | Some dollarEnd \<Rightarrow> dollarEnd + length tag))
      else None)"

text \<open>\<open>None\<close> is the \<open>-1\<close> of the source.\<close>

definition skipQuotedOrComment :: "js_string \<Rightarrow> nat \<Rightarrow> js_string \<Rightarrow> nat option" where
  "skipQuotedOrComment text i dbType =
     (if js_starts_at (js ''--'') text i \<and> isSqlDashLineCommentStart dbType (js_at text (i + 2)) then
        Some (lineCommentEnd text i)
      else if js_starts_at (js ''#'') text i \<and> supportsSqlHashLineComment dbType then
        Some (lineCommentEnd text i)
      else if js_starts_at (js ''/*'') text i then Some (blockCommentEnd text (i + 2))
      else
        (let c = text ! i in
         if c = 39 \<or> c = 34 \<or> c = cu CHR ''`'' then
           Some (loop_result (length text)
             (scan_loop at_index (length text) (quotedTextStep text dbType c) (i + 1)))
         else if c = cu CHR ''['' \<and> supportsSqlBracketIdentifier dbType then
           Some (loop_result (length text)
             (scan_loop at_index (length text) (bracketTextStep text dbType) (i + 1)))
         else if c = cu CHR ''$'' then dollarTextEnd text i
         else None))"

definition isReadOnlyContextualKeyword :: "js_string \<Rightarrow> bool" where
  "isReadOnlyContextualKeyword precedingToken \<longleftrightarrow>
     precedingToken = js ''show'' \<or> precedingToken = js ''explain''"

record embeddedState =
  em_index :: nat
  em_previousToken :: js_string
  em_updateNeedsOfCheck :: bool

definition embeddedWord :: "js_string \<Rightarrow> nat \<Rightarrow> js_string" where
  "embeddedWord text i = js_lower (js_slice text i (skip_while isSqlKeywordChar text i))"

text \<open>What the loop does with a word: \<open>Return\<close> a write keyword, or go on behind the word.\<close>

definition embeddedToken ::
  "js_string \<Rightarrow> embeddedState \<Rightarrow> (embeddedState, js_string) flow" where
  "embeddedToken token s =
     (let wasPending = em_updateNeedsOfCheck s;
          s = s\<lparr>em_updateNeedsOfCheck := False\<rparr> in
      if wasPending \<and> token = js ''of'' then Continue (s\<lparr>em_previousToken := token\<rparr>)
      else if token = js ''with'' then Continue (s\<lparr>em_previousToken := token\<rparr>)
      else if token = js ''update'' \<and> em_previousToken s = js ''for'' then
        Continue (s\<lparr>em_updateNeedsOfCheck := True, em_previousToken := token\<rparr>)
      else if token \<in> set SQL_EMBEDDED_WRITE_KEYWORDS
              \<and> \<not> isReadOnlyContextualKeyword (em_previousToken s) then Return token
      else Continue (s\<lparr>em_previousToken := token\<rparr>))"

definition embeddedStep ::
  "js_string \<Rightarrow> js_string \<Rightarrow> embeddedState \<Rightarrow> (embeddedState, js_string) flow" where
  "embeddedStep text dbType s =
     (case skipQuotedOrComment text (em_index s) dbType of
        Some skipped \<Rightarrow> Continue (s\<lparr>em_index := skipped\<rparr>)
      | None \<Rightarrow>
          if \<not> isSqlKeywordChar (text ! em_index s) then Continue (s\<lparr>em_index := em_index s + 1\<rparr>)
          else embeddedToken (embeddedWord text (em_index s))
                 (s\<lparr>em_index := skip_while isSqlKeywordChar text (em_index s)\<rparr>))"

definition firstEmbeddedWriteKeyword :: "js_string \<Rightarrow> js_string \<Rightarrow> js_string" where
  "firstEmbeddedWriteKeyword statement dbType =
     loop_result [] (scan_loop em_index (length statement) (embeddedStep statement dbType)
       \<lparr>em_index = 0, em_previousToken = [], em_updateNeedsOfCheck = False\<rparr>)"

definition hasEmbeddedWriteStatement :: "js_string \<Rightarrow> js_string \<Rightarrow> bool" where
  "hasEmbeddedWriteStatement statement dbType \<longleftrightarrow> firstEmbeddedWriteKeyword statement dbType \<noteq> []"

section \<open>The loops end\<close>

interpretation quoted_text: scanner at_index "length t" "quotedTextStep t db q" for t db q
  by unfold_locales (auto simp: quotedTextStep_def split: if_splits)

interpretation bracket_text: scanner at_index "length t" "bracketTextStep t db" for t db
  by unfold_locales (auto simp: bracketTextStep_def split: if_splits)

lemma quotedText_gt:
  assumes "i < length t"
  shows "i < loop_result (length t) (scan_loop at_index (length t) (quotedTextStep t db q) (i + 1))"
proof (cases "scan_loop at_index (length t) (quotedTextStep t db q) (i + 1)")
  case (Return r)
  have "i < r"
    by (rule quoted_text.return_from [OF Return, where I = "\<lambda>j. i < j"])
      (auto simp: quotedTextStep_def split: if_splits)
  with Return show ?thesis by simp
qed (use assms in simp)

lemma bracketText_gt:
  assumes "i < length t"
  shows "i < loop_result (length t) (scan_loop at_index (length t) (bracketTextStep t db) (i + 1))"
proof (cases "scan_loop at_index (length t) (bracketTextStep t db) (i + 1)")
  case (Return r)
  have "i < r"
    by (rule bracket_text.return_from [OF Return, where I = "\<lambda>j. i < j"])
      (auto simp: bracketTextStep_def split: if_splits)
  with Return show ?thesis by simp
qed (use assms in simp)

lemma dollarTextEnd_gt: "i < length t \<Longrightarrow> dollarTextEnd t i = Some e \<Longrightarrow> i < e"
  using skip_while_ge [of "i + 1" isSqlKeywordChar t]
  by (auto simp: dollarTextEnd_def Let_def simp del: skip_while_ge
      split: if_splits option.splits dest!: js_index_ofD)

lemma skipQuotedOrComment_gt:
  "i < length t \<Longrightarrow> skipQuotedOrComment t i db = Some e \<Longrightarrow> i < e"
  by (auto simp: skipQuotedOrComment_def Let_def lineCommentEnd_gt blockCommentEnd_gt
      quotedText_gt [simplified] bracketText_gt [simplified] dollarTextEnd_gt
      split: if_splits)

lemma skip_word_gt:
  "i < length t \<Longrightarrow> P (t ! i) \<Longrightarrow> i < skip_while P t i"
  using Cons_nth_drop_Suc [of i t] by (simp add: skip_while_def) (metis takeWhile.simps(2) length_greater_0_conv list.distinct(1))

lemma embeddedToken_index:
  "embeddedToken tok s = Continue s' \<Longrightarrow> em_index s' = em_index s"
  by (auto simp: embeddedToken_def Let_def split: if_splits)

interpretation embedded: scanner em_index "length t" "embeddedStep t db" for t db
  by unfold_locales
    (auto simp: embeddedStep_def split: option.splits if_splits
      dest: skipQuotedOrComment_gt embeddedToken_index simp: skip_word_gt)

section \<open>The words of a statement\<close>

text \<open>
  The specification: the lower-cased words that stand outside quotes and comments, in order, and
  which of them is a write.
\<close>

definition wordsStep ::
  "js_string \<Rightarrow> js_string \<Rightarrow> nat \<times> js_string list \<Rightarrow> (nat \<times> js_string list, nat \<times> js_string list) flow" where
  "wordsStep text dbType = (\<lambda>(i, ws).
     (case skipQuotedOrComment text i dbType of
        Some skipped \<Rightarrow> Continue (skipped, ws)
      | None \<Rightarrow>
          if \<not> isSqlKeywordChar (text ! i) then Continue (i + 1, ws)
          else Continue (skip_while isSqlKeywordChar text i, ws @ [embeddedWord text i])))"

definition sqlWordsFrom :: "js_string \<Rightarrow> js_string \<Rightarrow> nat \<Rightarrow> js_string list" where
  "sqlWordsFrom text dbType i =
     snd (loop_state (scan_loop fst (length text) (wordsStep text dbType) (i, [])))"

abbreviation sqlWords :: "js_string \<Rightarrow> js_string \<Rightarrow> js_string list" where
  "sqlWords text dbType \<equiv> sqlWordsFrom text dbType 0"

text \<open>A word that writes, given the word before it.\<close>

definition writeWord :: "js_string \<Rightarrow> js_string \<Rightarrow> bool" where
  "writeWord prev w \<longleftrightarrow>
     w \<in> set SQL_EMBEDDED_WRITE_KEYWORDS \<and> \<not> isReadOnlyContextualKeyword prev
     \<and> \<not> (w = js ''update'' \<and> prev = js ''for'')"

fun firstWriteWord :: "js_string \<Rightarrow> js_string list \<Rightarrow> js_string" where
  "firstWriteWord prev [] = []"
| "firstWriteWord prev (w # ws) = (if writeWord prev w then w else firstWriteWord w ws)"

interpretation words: total_scanner fst "length t" "wordsStep t db" for t db
  by unfold_locales
    (auto simp: wordsStep_def skip_word_gt split: option.splits if_splits
      dest: skipQuotedOrComment_gt)

lemma words_acc:
  "snd (loop_state (scan_loop fst (length t) (wordsStep t db) (i, ws))) = ws @ sqlWordsFrom t db i"
proof (induction "length t - i" arbitrary: i ws rule: less_induct)
  case less
  show ?case
  proof (cases "i < length t")
    case True
    obtain j new where st: "\<And>us. wordsStep t db (i, us) = Continue (j, us @ new)"
    proof (cases "skipQuotedOrComment t i db")
      case (Some k)
      with that [of k "[]"] show ?thesis by (simp add: wordsStep_def)
    next
      case None
      with that [of "i + 1" "[]"] that [of "skip_while isSqlKeywordChar t i" "[embeddedWord t i]"]
      show ?thesis by (cases "isSqlKeywordChar (t ! i)") (simp_all add: wordsStep_def)
    qed
    have lt: "fst (i, us) < length t" for us :: "js_string list" using True by simp
    have ij: "i < j" using words.progress [OF lt st] by simp
    have IH: "snd (loop_state (scan_loop fst (length t) (wordsStep t db) (j, us)))
        = us @ sqlWordsFrom t db j" for us
      by (rule less) (use ij True in linarith)
    have "scan_loop fst (length t) (wordsStep t db) (i, us)
        = scan_loop fst (length t) (wordsStep t db) (j, us @ new)" for us
      by (rule words.step_Continue [OF lt st])
    then have eq: "snd (loop_state (scan_loop fst (length t) (wordsStep t db) (i, us)))
        = us @ new @ sqlWordsFrom t db j" for us
      by (simp only: IH append_assoc)
    show ?thesis by (simp only: eq sqlWordsFrom_def [of t db i] append_Nil)
  qed (simp add: sqlWordsFrom_def)
qed

lemma sqlWordsFrom_end [simp]: "length t \<le> i \<Longrightarrow> sqlWordsFrom t db i = []"
  by (simp add: sqlWordsFrom_def)

lemma sqlWordsFrom_unfold:
  assumes "i < length t"
  shows "sqlWordsFrom t db i =
    (case skipQuotedOrComment t i db of
       Some k \<Rightarrow> sqlWordsFrom t db k
     | None \<Rightarrow> if \<not> isSqlKeywordChar (t ! i) then sqlWordsFrom t db (i + 1)
               else embeddedWord t i # sqlWordsFrom t db (skip_while isSqlKeywordChar t i))"
proof -
  have lt: "fst (i, []) < length t" using assms by simp
  have "sqlWordsFrom t db i =
      (case wordsStep t db (i, []) of Continue s \<Rightarrow> snd s @ sqlWordsFrom t db (fst s) | Return s \<Rightarrow> snd s)"
    using words_acc [of t db] words.step_Continue [OF lt, where db = db]
      words.step_Return [OF lt, where db = db]
    by (cases "wordsStep t db (i, [])") (auto simp: sqlWordsFrom_def [of t db i] split: prod.splits)
  then show ?thesis
    by (auto simp: wordsStep_def split: option.splits)
qed

text \<open>
  The look-ahead for \<open>FOR UPDATE OF\<close> never changes the result: the word after \<open>update\<close> is \<open>of\<close>, which
  is no write keyword, or it is examined as any other word.
\<close>

lemma embeddedToken_spec:
  "embeddedToken w s =
     (if writeWord (em_previousToken s) w then Return w
      else Continue (s\<lparr>em_previousToken := w,
             em_updateNeedsOfCheck := (w = js ''update'' \<and> em_previousToken s = js ''for'')\<rparr>))"
  by (auto simp: embeddedToken_def Let_def writeWord_def SQL_EMBEDDED_WRITE_KEYWORDS_def)

lemma embedded_loop_spec:
  "loop_result [] (scan_loop em_index (length t) (embeddedStep t db) s)
     = firstWriteWord (em_previousToken s) (sqlWordsFrom t db (em_index s))"
proof (induction s rule: embedded.induct_loop [where t = t and db = db])
  case (1 s)
  show ?case
  proof (cases "em_index s < length t")
    case True
    show ?thesis
    proof (cases "embeddedStep t db s")
      case (Continue s')
      with True 1 show ?thesis
        by (simp add: embedded.step_Continue sqlWordsFrom_unfold)
          (auto simp: embeddedStep_def embeddedToken_spec split: option.splits if_splits)
    next
      case (Return w)
      with True show ?thesis
        by (simp add: embedded.step_Return sqlWordsFrom_unfold)
          (auto simp: embeddedStep_def embeddedToken_spec split: option.splits if_splits)
    qed
  qed simp
qed

lemma firstWriteWord_nonempty:
  "firstWriteWord prev ws \<noteq> [] \<longleftrightarrow>
     (\<exists>k < length ws. writeWord ((prev # ws) ! k) (ws ! k))"
proof (induction ws arbitrary: prev)
  case (Cons w ws)
  have "writeWord prev w \<Longrightarrow> w \<noteq> []"
    by (auto simp: writeWord_def SQL_EMBEDDED_WRITE_KEYWORDS_def)
  then show ?case using Cons [of w]
    by (auto simp: less_Suc_eq_0_disj)
qed simp

lemma embedded_write_words:
  "firstEmbeddedWriteKeyword t db = firstWriteWord [] (sqlWords t db)"
  "hasEmbeddedWriteStatement t db \<longleftrightarrow> firstWriteWord [] (sqlWords t db) \<noteq> []"
  using embedded_loop_spec [of t db "\<lparr>em_index = 0, em_previousToken = [], em_updateNeedsOfCheck = False\<rparr>"]
  by (simp_all add: firstEmbeddedWriteKeyword_def hasEmbeddedWriteStatement_def)

text \<open>
  C26. The scan for an embedded write refines its specification: it returns the first word outside
  quotes and comments that is a write keyword, is not preceded by SHOW or EXPLAIN and is not the
  UPDATE of FOR UPDATE. Every such word of a statement is therefore found, and nothing in a literal
  or a comment is.
\<close>

theorem embedded_write_refines_words:
  "firstEmbeddedWriteKeyword statement dbType = firstWriteWord [] (sqlWords statement dbType)
   \<and> (hasEmbeddedWriteStatement statement dbType \<longleftrightarrow>
        (\<exists>k < length (sqlWords statement dbType).
           writeWord (([] # sqlWords statement dbType) ! k) (sqlWords statement dbType ! k)))"
  by (simp add: embedded_write_words firstWriteWord_nonempty)

end
