(* ===== verification/SqlQuote.thy ===== *)
theory SqlQuote
  imports QualifiedName SqlEmbeddedWrite
begin

text \<open>
  The writers of \<open>src/frontend/src/utils/sql.ts\<close>: quoted identifiers (\<open>quoteIdentPart\<close>,
  \<open>quoteQualifiedIdent\<close>) and string literals (\<open>escapeLiteral\<close>). They are instances of the
  contract \<open>name_style\<close> of the name parser, and of the contract \<open>opaque_text\<close> of the lexical scan
  that looks for writes: what is quoted is one token for it, whatever the text inside is.
\<close>

section \<open>Identifiers\<close>

definition normalizeIdentPart :: "js_string \<Rightarrow> js_string" where
  "normalizeIdentPart ident = stripIdentifierQuotes ident []"

definition reservedWords :: "js_string list" where
  "reservedWords =
     [js ''select'', js ''from'', js ''where'', js ''table'', js ''index'', js ''user'', js ''order'',
      js ''group'', js ''by'', js ''limit'', js ''offset'', js ''and'', js ''or'', js ''not'', js ''null'',
      js ''true'', js ''false'', js ''key'', js ''primary'', js ''foreign'', js ''references'',
      js ''default'', js ''constraint'', js ''create'', js ''drop'', js ''alter'', js ''insert'',
      js ''update'', js ''delete'', js ''set'', js ''values'', js ''into'', js ''join'', js ''left'',
      js ''right'', js ''inner'', js ''outer'', js ''on'', js ''as'', js ''is'', js ''in'', js ''like'',
      js ''between'', js ''case'', js ''when'', js ''then'', js ''else'', js ''end'', js ''having'',
      js ''distinct'', js ''all'', js ''any'', js ''exists'', js ''union'', js ''except'',
      js ''intersect'']"

lemmas reservedWords_code [code] = reservedWords_def [simplified]

definition needsQuote :: "js_string \<Rightarrow> bool" where
  "needsQuote ident \<longleftrightarrow>
     (case ident of [] \<Rightarrow> False
      | c # cs \<Rightarrow>
          \<not> ((ascii_alpha c \<or> c = 95) \<and> (\<forall>d\<in>set cs. js_word d))
          \<or> (\<exists>d\<in>set ident. ascii_upper d)
          \<or> js_lower ident \<in> set reservedWords)"

definition quoteIdentPart :: "js_string \<Rightarrow> js_string \<Rightarrow> js_string" where
  "quoteIdentPart dbType ident =
     (let raw = normalizeIdentPart ident; dbTypeLower = js_lower dbType in
      if raw = [] then raw
      else if dbTypeLower \<in> set [js ''mysql'', js ''goldendb'', js ''mariadb'', js ''oceanbase'',
           js ''diros'', js ''starrocks'', js ''sphinx'', js ''tdengine'', js ''iotdb'',
           js ''clickhouse''] then js ''`'' @ js_double 96 raw @ js ''`''
      else if dbTypeLower \<in> set [js ''kingbase'', js ''postgres'', js ''opengauss'', js ''gaussdb''] then
        (if needsQuote raw then [34] @ js_double 34 raw @ [34] else raw)
      else if dbTypeLower \<in> set [js ''sqlserver'', js ''mssql''] then
        js ''['' @ js_double 93 raw @ js '']''
      else [34] @ js_double 34 raw @ [34])"

definition quoteQualifiedIdent :: "js_string \<Rightarrow> js_string \<Rightarrow> js_string" where
  "quoteQualifiedIdent dbType ident =
     (let raw = js_trim ident in
      if raw = [] then raw
      else
        (let normalizedType = js_lower (js_trim dbType) in
         if normalizedType \<in> set [js ''rocketmq'', js ''mqtt'', js ''kafka'', js ''rabbitmq'', js ''pulsar'']
         then quoteIdentPart dbType raw
         else
           (let parts = filter (\<lambda>p. p \<noteq> []) (splitQualifiedNameSegments raw []) in
            if length parts = 0 then quoteIdentPart dbType raw
            else if normalizedType = js ''iotdb''
                    \<and> js_lower (normalizeIdentPart (parts ! 0)) = js ''root'' then
              dotted (js ''root'' # map (quoteIdentPart dbType) (tl parts))
            else if length parts = 1 \<and> parts ! 0 = normalizeIdentPart raw then
              quoteIdentPart dbType raw
            else dotted (map (quoteIdentPart dbType) parts))))"

definition escapeLiteral :: "js_string \<Rightarrow> js_string" where
  "escapeLiteral val = js_double 39 val"

text \<open>The template \<open>'${escapeLiteral(v)}'\<close>.\<close>

definition sqlLiteral :: "js_string \<Rightarrow> js_string" where
  "sqlLiteral v = [39] @ escapeLiteral v @ [39]"

section \<open>Identifiers read back\<close>

definition writableIdent :: "js_string \<Rightarrow> bool" where
  "writableIdent v \<longleftrightarrow> v \<noteq> [] \<and> readable v \<and> normalizeIdentPart v = v"

lemma plain_name_unquoted: "v \<noteq> [] \<Longrightarrow> \<not> needsQuote v \<Longrightarrow> plain_name v"
  by (auto simp: needsQuote_def plain_name_def js_word_def split: list.splits)

lemma quoteIdentPart_cases:
  assumes "writableIdent v"
  shows "quoteIdentPart db v = enclosed 96 96 v
    \<or> (js_lower db \<in> set [js ''sqlserver'', js ''mssql''] \<and> quoteIdentPart db v = enclosed 91 93 v)
    \<or> quoteIdentPart db v = enclosed 34 34 v \<or> (plain_name v \<and> quoteIdentPart db v = v)"
  using assms by (auto simp: quoteIdentPart_def writableIdent_def Let_def enclosed_def plain_name_unquoted)

interpretation ident_names: name_style "quoteIdentPart db" writableIdent "[]" for db
proof (rule name_style_choice)
  fix v assume w: "writableIdent v"
  then have "readable v" by (simp add: writableIdent_def)
  then show "\<exists>r P. name_style r P [] \<and> P v \<and> quoteIdentPart db v = r v"
    using quoteIdentPart_cases [OF w] double_quoted.name_style_axioms
      backticked.name_style_axioms unquoted.name_style_axioms bracketed.name_style_axioms by metis
qed

section \<open>Quoted text is opaque to the scan for writes\<close>

text \<open>
  A way of writing a text that the scan skips as a whole: from its first character the scan goes to
  its end, when what follows does not continue the quotation.
\<close>

locale opaque_text =
  fixes render :: "js_string \<Rightarrow> js_string" and ok :: "js_string \<Rightarrow> bool"
    and dbType :: js_string and closing :: nat
  assumes nonempty: "ok v \<Longrightarrow> render v \<noteq> []"
    and skipped: "ok v \<Longrightarrow> js_at rest 0 \<noteq> Some closing \<Longrightarrow>
      skipQuotedOrComment (pre @ render v @ rest) (length pre) dbType
        = Some (length pre + length (render v))"
begin

lemma words_skip:
  "ok v \<Longrightarrow> js_at rest 0 \<noteq> Some closing \<Longrightarrow>
     sqlWordsFrom (pre @ render v @ rest) dbType (length pre)
       = sqlWordsFrom (pre @ render v @ rest) dbType (length pre + length (render v))"
  using nonempty [of v] by (simp add: sqlWordsFrom_unfold [of "length pre"] skipped)

end

lemma quoted_scan:
  assumes "js_at rest 0 \<noteq> Some q" "q \<noteq> 39 \<or> \<not> supportsSqlHashLineComment db \<or> 92 \<notin> set v"
  shows "loop_result d (scan_loop at_index (length (pre @ js_double q v @ q # rest))
      (quotedTextStep (pre @ js_double q v @ q # rest) db q) (length pre))
    = length pre + length (js_double q v) + 1"
  using assms(2)
proof (induction v arbitrary: pre)
  case Nil
  have "quotedTextStep (pre @ q # rest) db q (length pre) = Return (length pre + 1)"
    using assms(1) by (auto simp: quotedTextStep_def js_at_def nth_append split: if_splits)
  moreover have "at_index (length pre) < length (pre @ q # rest)" by simp
  ultimately have "scan_loop at_index (length (pre @ q # rest)) (quotedTextStep (pre @ q # rest) db q) (length pre)
      = Return (length pre + 1)"
    using quoted_text.step_Return by metis
  then show ?case by simp
next
  case (Cons c v)
  show ?case
  proof (cases "c = q")
    case True
    let ?t = "pre @ q # q # js_double q v @ q # rest"
    have "quotedTextStep ?t db q (length pre) = Continue (length pre + 2)"
      by (simp add: quotedTextStep_def js_at_def nth_append)
    moreover have "at_index (length pre) < length ?t" by simp
    ultimately have "scan_loop at_index (length ?t) (quotedTextStep ?t db q) (length pre)
      = scan_loop at_index (length ?t) (quotedTextStep ?t db q) (length pre + 2)"
      using quoted_text.step_Continue by metis
    with Cons.IH [of "pre @ [q, q]"] Cons.prems True show ?thesis by auto
  next
    case False
    let ?t = "pre @ c # js_double q v @ q # rest"
    have "quotedTextStep ?t db q (length pre) = Continue (length pre + 1)"
      using False Cons.prems by (auto simp: quotedTextStep_def nth_append)
    moreover have "at_index (length pre) < length ?t" by simp
    ultimately have "scan_loop at_index (length ?t) (quotedTextStep ?t db q) (length pre)
      = scan_loop at_index (length ?t) (quotedTextStep ?t db q) (length pre + 1)"
      using quoted_text.step_Continue by metis
    with Cons.IH [of "pre @ [c]"] Cons.prems False show ?thesis by auto
  qed
qed

lemma skip_quoted:
  assumes "q \<in> {39, 34, 96}" "js_at rest 0 \<noteq> Some q"
    "q \<noteq> 39 \<or> \<not> supportsSqlHashLineComment db \<or> 92 \<notin> set v"
  shows "skipQuotedOrComment (pre @ enclosed q q v @ rest) (length pre) db
    = Some (length pre + length (enclosed q q v))"
proof -
  have "drop (length pre) (pre @ enclosed q q v @ rest) = q # js_double q v @ q # rest"
    by (simp add: enclosed_def)
  moreover have "(pre @ enclosed q q v @ rest) ! length pre = q" by (simp add: enclosed_def)
  moreover have "pre @ enclosed q q v @ rest = (pre @ [q]) @ js_double q v @ q # rest"
    by (simp add: enclosed_def)
  ultimately show ?thesis
    using assms(1) quoted_scan [OF assms(2,3), of _ "pre @ [q]"]
    by (auto simp: skipQuotedOrComment_def js_starts_at_def enclosed_def)
qed

interpretation opaque_identifier: opaque_text "enclosed 34 34" "\<lambda>_. True" db 34 for db
  by unfold_locales (simp add: enclosed_def, simp add: skip_quoted)

interpretation opaque_backticks: opaque_text "enclosed 96 96" "\<lambda>_. True" db 96 for db
  by unfold_locales (simp add: enclosed_def, simp add: skip_quoted)

lemma sqlLiteral_enclosed: "sqlLiteral v = enclosed 39 39 v"
  by (simp add: sqlLiteral_def escapeLiteral_def enclosed_def)

interpretation opaque_literal: opaque_text sqlLiteral
  "\<lambda>v. \<not> supportsSqlHashLineComment db \<or> 92 \<notin> set v" db 39 for db
  by unfold_locales (simp add: enclosed_def sqlLiteral_enclosed, simp add: sqlLiteral_enclosed skip_quoted)

text \<open>
  C16. A value cannot escape from its literal: the scan for writes, standing before the literal that
  the builders write for a value, goes on behind it, so no word of the value is a word of the
  statement. For the dialects that read a backslash as an escape the value must have none; see the
  next property.
\<close>

theorem literal_is_opaque:
  assumes "\<not> supportsSqlHashLineComment dbType \<or> 92 \<notin> set v"
    and "js_at rest 0 \<noteq> Some 39"
  shows "sqlWordsFrom (pre @ sqlLiteral v @ rest) dbType (length pre)
    = sqlWordsFrom (pre @ sqlLiteral v @ rest) dbType (length pre + length (sqlLiteral v))"
  using assms by (rule opaque_literal.words_skip)

theorem literal_is_opaque_witness:
  "sqlWordsFrom (js ''a = '' @ sqlLiteral ([39] @ js ''; drop table t --'') @ js '' or b'') (js ''postgres'') 4
   = sqlWordsFrom (js ''a = '' @ sqlLiteral ([39] @ js ''; drop table t --'') @ js '' or b'') (js ''postgres'') 25"
proof -
  have 1: "\<not> supportsSqlHashLineComment (js ''postgres'') \<or> 92 \<notin> set ([39] @ js ''; drop table t --'')"
    by code_simp
  have 2: "js_at (js '' or b'') 0 \<noteq> Some 39" by code_simp
  have 3: "length (js ''a = '') = 4" "4 + length (sqlLiteral ([39] @ js ''; drop table t --'')) = 25"
    by code_simp+
  from literal_is_opaque [OF 1 2, where pre = "js ''a = ''"] show ?thesis unfolding 3 .
qed

lemma skip_at_quote:
  assumes "i < length t" "t ! i = 39"
  shows "skipQuotedOrComment t i db
    = Some (loop_result (length t) (scan_loop at_index (length t) (quotedTextStep t db 39) (i + 1)))"
proof -
  have "drop i t = 39 # drop (Suc i) t" using assms by (metis Cons_nth_drop_Suc)
  then show ?thesis by (simp add: skipQuotedOrComment_def js_starts_at_def assms)
qed

text \<open>
  With a backslash the literal does escape in the dialects whose scan (and server) reads a
  backslash as an escape: the builders double the quotes only, so for a value that starts with a
  backslash and a quote the literal is over after its fourth character and everything behind it
  becomes text of the statement.
\<close>

lemma literal_escapes_with_backslash:
  assumes "supportsSqlHashLineComment dbType" "v \<noteq> []" "hd v \<noteq> 39"
  shows "sqlWordsFrom (pre @ sqlLiteral ([92, 39] @ v) @ rest) dbType (length pre)
    = sqlWordsFrom (pre @ sqlLiteral ([92, 39] @ v) @ rest) dbType (length pre + 4)"
proof -
  obtain c u where v: "v = c # u" "c \<noteq> 39" using assms(2,3) by (cases v) auto
  let ?tail = "c # js_double 39 u @ 39 # rest"
  let ?t = "pre @ 39 # 92 # 39 # 39 # ?tail"
  have t: "pre @ sqlLiteral ([92, 39] @ v) @ rest = ?t"
    using v by (simp add: sqlLiteral_def escapeLiteral_def)
  let ?loop = "scan_loop at_index (length ?t) (quotedTextStep ?t dbType 39)"
  have lt0: "length pre < length ?t" by simp
  have lt: "at_index (length pre + 1) < length ?t" "at_index (length pre + 3) < length ?t" by simp_all
  have one: "quotedTextStep ?t dbType 39 (length pre + 1) = Continue (length pre + 3)"
    using assms(1) by (simp add: quotedTextStep_def nth_append)
  have two: "quotedTextStep ?t dbType 39 (length pre + 3) = Return (length pre + 4)"
    using v(2) by (simp add: quotedTextStep_def nth_append js_at_def numeral_3_eq_3)
  have "?loop (length pre + 1) = Return (length pre + 4)"
    by (simp only: quoted_text.step_Continue [OF lt(1) one] quoted_text.step_Return [OF lt(2) two])
  then have loop: "loop_result n (?loop (length pre + 1)) = length pre + 4" for n by simp
  have at: "?t ! length pre = 39" by simp
  from skip_at_quote [OF lt0 at] loop have "skipQuotedOrComment ?t (length pre) dbType
      = Some (length pre + 4)" by (simp only:)
  with sqlWordsFrom_unfold [OF lt0, of dbType] show ?thesis by (simp only: t option.case)
qed

lemma literal_escapes_with_backslash_witness:
  "sqlWordsFrom (sqlLiteral ([92, 39] @ js '' or drop'') @ []) (js ''mysql'') 0
   = sqlWordsFrom (sqlLiteral ([92, 39] @ js '' or drop'') @ []) (js ''mysql'') 4"
proof -
  have "supportsSqlHashLineComment (js ''mysql'')" by code_simp
  from literal_escapes_with_backslash [OF this, of "js '' or drop''" "[]" "[]"] show ?thesis
    by (simp del: append_Nil2)
qed

end
