(* ===== verification/SqlBuild.thy ===== *)
theory SqlBuild
  imports SqlQuote
begin

text \<open>
  The query builders of \<open>src/frontend/src/utils/sql.ts\<close>: ORDER BY clauses and their reversal, TOP and
  LIMIT pagination per database, and the WHERE clause of the grid's filters. A missing text field
  is the empty string, as \<open>x || ''\<close> makes it; a limit or an offset is an integer, as the callers
  pass it.
\<close>

section \<open>Ordering\<close>

record sortInfoItem =
  so_columnKey :: js_string
  so_order :: js_string
  so_enabled :: "bool option"

datatype sortInfo = NoSort | OneSort sortInfoItem | ManySort "sortInfoItem list"

definition selectWordAt :: "js_string \<Rightarrow> nat \<Rightarrow> bool" where
  "selectWordAt t i \<longleftrightarrow> kw_at (js ''select'') t i \<and> word_boundary t (i + 6)"

definition withSortBufferTuningSQL :: "js_string \<Rightarrow> js_string \<Rightarrow> int \<Rightarrow> js_string" where
  "withSortBufferTuningSQL dbType sql sortBufferBytes =
     (let trimmed = js_trim sql in
      if trimmed = [] then sql
      else if \<not> selectWordAt trimmed 0 then sql
      else
        (let normalizedType = js_lower (js_trim dbType);
             bytes = nat_text (max (256 * 1024) (nat sortBufferBytes)) in
         if normalizedType = js ''mysql'' then
           (let k = skip_space sql 0 in
            if selectWordAt sql k then
              take (k + 6) sql @ js '' /*+ SET_VAR(sort_buffer_size='' @ bytes @ js '') */'' @ drop (k + 6) sql
            else sql)
         else if normalizedType = js ''mariadb'' then
           js ''SET STATEMENT sort_buffer_size='' @ bytes @ js '' FOR '' @ sql
         else sql))"

definition normalizeSortInfoItems :: "sortInfo \<Rightarrow> sortInfoItem list" where
  "normalizeSortInfoItems s =
     (case s of NoSort \<Rightarrow> [] | OneSort item \<Rightarrow> [item] | ManySort items \<Rightarrow> items)"

definition hasExplicitSort :: "sortInfo \<Rightarrow> bool" where
  "hasExplicitSort s \<longleftrightarrow>
     (\<exists>item\<in>set (normalizeSortInfoItems s).
        so_enabled item \<noteq> Some False \<and> js_trim (so_columnKey item) \<noteq> []
        \<and> (so_order item = js ''ascend'' \<or> so_order item = js ''descend''))"

definition sortDirection :: "js_string \<Rightarrow> js_string" where
  "sortDirection order =
     (if order = js ''ascend'' then js ''ASC'' else if order = js ''descend'' then js ''DESC'' else [])"

text \<open>The loop over the sort items: the keys seen so far and the parts.\<close>

fun sortLoop ::
  "js_string \<Rightarrow> bool \<Rightarrow> sortInfoItem list \<Rightarrow> js_string list \<Rightarrow> js_string list
     \<Rightarrow> js_string list \<times> js_string list" where
  "sortLoop dbType isElasticsearch [] seen parts = (seen, parts)"
| "sortLoop dbType isElasticsearch (item # items) seen parts =
     (let sortColumn = normalizeIdentPart (so_columnKey item);
          direction = sortDirection (so_order item);
          key = js_lower sortColumn in
      if so_enabled item = Some False then sortLoop dbType isElasticsearch items seen parts
      else if isElasticsearch \<and> key = js ''_id'' then sortLoop dbType isElasticsearch items seen parts
      else if sortColumn \<noteq> [] \<and> direction \<noteq> [] \<and> key \<notin> set seen then
        sortLoop dbType isElasticsearch items (seen @ [key])
          (parts @ [quoteIdentPart dbType sortColumn @ js '' '' @ direction])
      else sortLoop dbType isElasticsearch items seen parts)"

text \<open>The \<open>filter\<close> of the fallback columns, which also fills \<open>seen\<close>.\<close>

fun stableLoop :: "js_string list \<Rightarrow> js_string list \<Rightarrow> js_string list" where
  "stableLoop [] seen = []"
| "stableLoop (col # cols) seen =
     (let key = js_lower col in
      if col = [] \<or> key \<in> set seen then stableLoop cols seen
      else col # stableLoop cols (seen @ [key]))"

definition commaJoin :: "js_string list \<Rightarrow> js_string" where
  "commaJoin = js_join (js '', '')"

definition buildOrderBySQL :: "js_string \<Rightarrow> sortInfo \<Rightarrow> js_string list \<Rightarrow> js_string" where
  "buildOrderBySQL dbType s fallbackColumns =
     (let dbTypeLower = js_lower (js_trim dbType);
          isElasticsearch = (dbTypeLower = js ''elasticsearch'' \<or> dbTypeLower = js ''elastic'');
          (seen, sortParts) = sortLoop dbType isElasticsearch (normalizeSortInfoItems s) [] [] in
      if sortParts \<noteq> [] then js '' ORDER BY '' @ commaJoin sortParts
      else if dbTypeLower \<in> set [js ''mysql'', js ''goldendb'', js ''mariadb'', js ''oceanbase'',
                js ''diros'', js ''starrocks'', js ''duckdb''] \<or> isElasticsearch then []
      else
        (let stableColumns = stableLoop (map normalizeIdentPart fallbackColumns) seen in
         if stableColumns \<noteq> [] then
           js '' ORDER BY '' @ commaJoin (map (\<lambda>col. quoteIdentPart dbType col @ js '' ASC'') stableColumns)
         else []))"

subsection \<open>Reversing an ORDER BY\<close>

record orderState =
  or_start :: nat
  or_parenDepth :: nat
  or_inSingle :: bool
  or_inDouble :: bool
  or_inBracket :: bool
  or_parts :: "js_string list"

text \<open>The body of the loop at \<open>i\<close>; the flag says that \<open>i++\<close> skipped the next character.\<close>

definition orderChar ::
  "js_string \<Rightarrow> nat \<Rightarrow> orderState \<Rightarrow> orderState \<times> bool" where
  "orderChar text i s =
     (let ch = text ! i; next = js_at text (i + 1) in
      if or_inSingle s then
        (if ch = 39 \<and> next = Some 39 then (s, True)
         else if ch = 39 then (s\<lparr>or_inSingle := False\<rparr>, False) else (s, False))
      else if or_inDouble s then
        (if ch = 34 \<and> next = Some 34 then (s, True)
         else if ch = 34 then (s\<lparr>or_inDouble := False\<rparr>, False) else (s, False))
      else if or_inBracket s then
        (if ch = 93 \<and> next = Some 93 then (s, True)
         else if ch = 93 then (s\<lparr>or_inBracket := False\<rparr>, False) else (s, False))
      else if ch = 39 then (s\<lparr>or_inSingle := True\<rparr>, False)
      else if ch = 34 then (s\<lparr>or_inDouble := True\<rparr>, False)
      else if ch = cu CHR ''['' then (s\<lparr>or_inBracket := True\<rparr>, False)
      else if ch = cu CHR ''('' then (s\<lparr>or_parenDepth := or_parenDepth s + 1\<rparr>, False)
      else if ch = cu CHR '')'' then (s\<lparr>or_parenDepth := or_parenDepth s - 1\<rparr>, False)
      else if ch = cu CHR '','' \<and> or_parenDepth s = 0 then
        (let part = js_trim (js_slice text (or_start s) i) in
         (s\<lparr>or_parts := (if part = [] then or_parts s else or_parts s @ [part]),
            or_start := i + 1\<rparr>, False))
      else (s, False))"

function orderLoop :: "js_string \<Rightarrow> nat \<Rightarrow> orderState \<Rightarrow> orderState" where
  "orderLoop text i s =
     (if i < length text then
        (case orderChar text i s of (s', skipNext) \<Rightarrow> orderLoop text (if skipNext then i + 2 else i + 1) s')
      else s)"
  by pat_completeness auto
termination
  by (relation "measure (\<lambda>(t, i, s). length t - i)") auto

declare orderLoop.simps [simp del]

definition orderInit :: orderState where
  "orderInit = \<lparr>or_start = 0, or_parenDepth = 0, or_inSingle = False, or_inDouble = False,
     or_inBracket = False, or_parts = []\<rparr>"

definition splitOrderByParts :: "js_string \<Rightarrow> js_string list" where
  "splitOrderByParts body =
     (let s = orderLoop body 0 orderInit; tail = js_trim (drop (or_start s) body) in
      or_parts s @ (if tail = [] then [] else [tail]))"

text \<open>\<open>/\s+w$/i\<close> on a part, and the part without the match.\<close>

definition endsWithWord :: "js_string \<Rightarrow> js_string \<Rightarrow> bool" where
  "endsWithWord w part \<longleftrightarrow>
     length w < length part \<and> kw_at w part (length part - length w)
     \<and> js_space (part ! (length part - length w - 1))"

definition withoutLastWord :: "js_string \<Rightarrow> js_string \<Rightarrow> js_string" where
  "withoutLastWord w part = js_trim_end (take (length part - length w) part)"

definition reversePart :: "js_string \<Rightarrow> js_string" where
  "reversePart part =
     (if endsWithWord (js ''asc'') part then withoutLastWord (js ''asc'') part @ js '' DESC''
      else if endsWithWord (js ''desc'') part then withoutLastWord (js ''desc'') part @ js '' ASC''
      else part @ js '' DESC'')"

text \<open>\<open>raw.replace(/^order\s+by\s+/i, '')\<close>\<close>

definition withoutOrderBy :: "js_string \<Rightarrow> js_string" where
  "withoutOrderBy raw =
     (let byAt = skip_space raw 5; rest = skip_space raw (byAt + 2) in
      if kw_at (js ''order'') raw 0 \<and> 5 < byAt \<and> kw_at (js ''by'') raw byAt \<and> byAt + 2 < rest
      then drop rest raw else raw)"

definition reverseOrderBySQL :: "js_string \<Rightarrow> js_string" where
  "reverseOrderBySQL orderBySQL =
     (let raw = js_trim orderBySQL in
      if raw = [] then []
      else
        (let body = js_trim (withoutOrderBy raw) in
         if body = [] then []
         else
           (let parts = filter (\<lambda>p. p \<noteq> []) (map reversePart (splitOrderByParts body)) in
            if parts = [] then [] else js '' ORDER BY '' @ commaJoin parts)))"

section \<open>Pagination\<close>

definition hasTopAt :: "js_string \<Rightarrow> nat \<Rightarrow> bool" where
  "hasTopAt t i \<longleftrightarrow> kw_at (js ''top'') t i \<and> word_boundary t (i + 3)"

text \<open>\<open>/^\s*select\s+(?:distinct\s+)?top\b/i\<close>\<close>

definition startsWithSelectTop :: "js_string \<Rightarrow> bool" where
  "startsWithSelectTop t \<longleftrightarrow>
     (let k = skip_space t 0; j = skip_space t (k + 6); m = skip_space t (j + 8) in
      kw_at (js ''select'') t k \<and> k + 6 < j
      \<and> (hasTopAt t j \<or> (kw_at (js ''distinct'') t j \<and> j + 8 < m \<and> hasTopAt t m)))"

definition addSqlServerTopLimit :: "js_string \<Rightarrow> nat \<Rightarrow> js_string" where
  "addSqlServerTopLimit sql limit =
     (let text = js_trim sql in
      if text = [] then text
      else if startsWithSelectTop text then text
      else
        (let k = skip_space text 0; j = skip_space text (k + 6) in
         if selectWordAt text k then
           (let e = (if k + 6 < j \<and> kw_at (js ''distinct'') text j \<and> word_boundary text (j + 8)
                     then j + 8 else k + 6) in
            take e text @ js '' TOP '' @ nat_text limit @ drop e text)
         else text))"

record splitClause =
  sc_main :: js_string
  sc_tail :: js_string

text \<open>The end of a match of \<open>\s+WITH\s+(?:UR|CS|RS|RR)\<close> at \<open>k\<close> that only white space follows.\<close>

definition isolationClauseAt :: "js_string \<Rightarrow> nat \<Rightarrow> nat option" where
  "isolationClauseAt t k =
     (let j = skip_space t k; m = skip_space t (j + 4) in
      if k < j \<and> kw_at (js ''with'') t j \<and> j + 4 < m
         \<and> (\<exists>w\<in>set [js ''ur'', js ''cs'', js ''rs'', js ''rr'']. kw_at w t m)
         \<and> skip_space t (m + 2) = length t
      then Some (m + 2) else None)"

definition splitTrailingIsolationClause :: "js_string \<Rightarrow> splitClause" where
  "splitTrailingIsolationClause sql =
     (let text = js_trim sql in
      case find (\<lambda>k. isolationClauseAt text k \<noteq> None) [0..<length text] of
        None \<Rightarrow> \<lparr>sc_main = text, sc_tail = []\<rparr>
      | Some clauseStart \<Rightarrow>
          (let lineStart = (case js_last_index_of text 10 (clauseStart - 1) of None \<Rightarrow> 0 | Some n \<Rightarrow> n + 1);
               currentLine = js_slice text lineStart clauseStart in
           if \<exists>k\<in>set [0..<length currentLine].
                (js_starts_at (js ''--'') currentLine k \<or> js_starts_at (js ''#'') currentLine k)
                \<and> 10 \<notin> set (drop k currentLine) \<and> 13 \<notin> set (drop k currentLine)
           then \<lparr>sc_main = text, sc_tail = []\<rparr>
           else \<lparr>sc_main = js_trim_end (take clauseStart text),
                 sc_tail = js_slice text clauseStart (the (isolationClauseAt text clauseStart))\<rparr>))"

definition buildSqlServerPaginatedSelectSQL ::
  "js_string \<Rightarrow> js_string \<Rightarrow> nat \<Rightarrow> nat \<Rightarrow> js_string" where
  "buildSqlServerPaginatedSelectSQL base orderBy limit offset =
     (if offset = 0 then addSqlServerTopLimit base limit @ orderBy
      else
        (let effectiveOrderBy = js_trim orderBy;
             reverseOrderBy = (if effectiveOrderBy = [] then [] else reverseOrderBySQL effectiveOrderBy);
             upperBound = nat_text (offset + limit) in
         if reverseOrderBy \<noteq> [] then
           js ''SELECT * FROM (SELECT TOP '' @ nat_text limit @ js '' * FROM (SELECT TOP '' @ upperBound
           @ js '' * FROM ('' @ base @ js '') AS [__gonavi_page_base__] '' @ effectiveOrderBy
           @ js '') AS [__gonavi_page_window__] '' @ reverseOrderBy
           @ js '') AS [__gonavi_page_slice__] '' @ effectiveOrderBy
         else
           (let rowNumberOrderBy = (if effectiveOrderBy = [] then js ''ORDER BY (SELECT NULL)''
                                    else effectiveOrderBy) in
            js ''SELECT * FROM (SELECT [__gonavi_page__].*, ROW_NUMBER() OVER ('' @ rowNumberOrderBy
            @ js '') AS [__gonavi_rn__] FROM ('' @ base
            @ js '') AS [__gonavi_page__]) AS [__gonavi_page_result__] WHERE [__gonavi_rn__] > ''
            @ nat_text offset @ js '' AND [__gonavi_rn__] <= '' @ upperBound
            @ js '' ORDER BY [__gonavi_rn__]'')))"

definition limitOffset :: "nat \<Rightarrow> nat \<Rightarrow> js_string" where
  "limitOffset limit offset = js '' LIMIT '' @ nat_text limit @ js '' OFFSET '' @ nat_text offset"

definition buildPaginatedSelectSQL ::
  "js_string \<Rightarrow> js_string \<Rightarrow> js_string \<Rightarrow> int \<Rightarrow> int \<Rightarrow> js_string" where
  "buildPaginatedSelectSQL dbType baseSql orderBy limit offset =
     (let normalizedType = js_lower (js_trim dbType);
          safeLimit = nat limit; safeOffset = nat offset; base = js_trim baseSql in
      if base = [] \<or> safeLimit = 0 then base @ orderBy
      else if normalizedType = js ''oracle'' then
        (let orderedSql = base @ orderBy; upperBound = nat_text (safeOffset + safeLimit) in
         if safeOffset = 0 then
           js ''SELECT * FROM ('' @ orderedSql @ js '') WHERE ROWNUM <= '' @ upperBound
         else
           js ''SELECT * FROM (SELECT '' @ [34] @ js ''__gonavi_page__'' @ [34] @ js ''.*, ROWNUM '' @ [34]
           @ js ''__gonavi_rn__'' @ [34] @ js '' FROM ('' @ orderedSql @ js '') '' @ [34]
           @ js ''__gonavi_page__'' @ [34] @ js '' WHERE ROWNUM <= '' @ upperBound @ js '') WHERE '' @ [34]
           @ js ''__gonavi_rn__'' @ [34] @ js '' > '' @ nat_text safeOffset)
      else if normalizedType = js ''dameng'' then
        (let statement = splitTrailingIsolationClause base in
         sc_main statement @ orderBy @ limitOffset safeLimit safeOffset @ sc_tail statement)
      else if normalizedType = js ''sqlserver'' \<or> normalizedType = js ''mssql'' then
        buildSqlServerPaginatedSelectSQL base orderBy safeLimit safeOffset
      else base @ orderBy @ limitOffset safeLimit safeOffset)"

section \<open>Filters\<close>

record filterValueSelection =
  vs_values :: "js_string list"
  vs_includeNull :: bool
  vs_includeEmpty :: bool

record filterCondition =
  fc_enabled :: "bool option"
  fc_logic :: js_string
  fc_column :: js_string
  fc_op :: js_string
  fc_value :: js_string
  fc_value2 :: js_string
  fc_valueSelection :: "filterValueSelection option"

text \<open>
  \<open>raw.split(/[\n,\uff0c]+/)\<close>: a run of separators leaves no empty string that the following
  \<open>filter(Boolean)\<close> would not drop, so one separator at a time gives the same list.
\<close>

fun splitListSeparators :: "js_string \<Rightarrow> js_string list" where
  "splitListSeparators [] = [[]]"
| "splitListSeparators (c # cs) =
     (if c = 10 \<or> c = cu CHR '','' \<or> c = 65292 then [] # splitListSeparators cs
      else (case splitListSeparators cs of [] \<Rightarrow> [[c]] | p # ps \<Rightarrow> (c # p) # ps))"

definition parseListValues :: "js_string \<Rightarrow> js_string list" where
  "parseListValues val =
     (let raw = js_trim val in
      if raw = [] then []
      else filter (\<lambda>s. s \<noteq> []) (map js_trim (splitListSeparators raw)))"

definition normalizeConditionLogic :: "js_string \<Rightarrow> js_string" where
  "normalizeConditionLogic logic = (if js_upper (js_trim logic) = js ''OR'' then js ''OR'' else js ''AND'')"

text \<open>The expression of a value selection; \<open>[]\<close> where the source appends nothing.\<close>

definition selectionExpr :: "js_string \<Rightarrow> filterValueSelection \<Rightarrow> js_string" where
  "selectionExpr col sel =
     (let selectedValues = js_uniq (vs_values sel);
          selectionParts =
            (if selectedValues \<noteq> [] then [col @ js '' IN ('' @ commaJoin (map sqlLiteral selectedValues) @ js '')''] else [])
            @ (if vs_includeNull sel then [col @ js '' IS NULL''] else [])
            @ (if vs_includeEmpty sel then [col @ js '' = '' @ sqlLiteral []] else []) in
      if length selectionParts = 0 then []
      else if length selectionParts = 1 then selectionParts ! 0
      else js ''('' @ js_join (js '' OR '') selectionParts @ js '')'')"

definition comparisonOps :: "js_string list" where
  "comparisonOps = [js ''='', js ''!='', js ''<'', js ''<='', js ''>'', js ''>='']"

text \<open>The \<open>switch\<close> over the operator.\<close>

definition operatorExpr :: "js_string \<Rightarrow> js_string \<Rightarrow> js_string \<Rightarrow> js_string \<Rightarrow> js_string" where
  "operatorExpr col op value value2 =
     (let v = js_trim value; v2 = js_trim value2;
          like = (\<lambda>kw before after. if v = [] then []
            else col @ js '' '' @ kw @ js '' '' @ sqlLiteral (before @ v @ after)) in
      if op = js ''IS_NULL'' then col @ js '' IS NULL''
      else if op = js ''IS_NOT_NULL'' then col @ js '' IS NOT NULL''
      else if op = js ''IS_EMPTY'' then
        js ''('' @ col @ js '' IS NULL OR '' @ col @ js '' = '' @ sqlLiteral [] @ js '')''
      else if op = js ''IS_NOT_EMPTY'' then
        js ''('' @ col @ js '' IS NOT NULL AND '' @ col @ js '' <> '' @ sqlLiteral [] @ js '')''
      else if op = js ''BETWEEN'' then
        (if v = [] \<or> v2 = [] then []
         else col @ js '' BETWEEN '' @ sqlLiteral v @ js '' AND '' @ sqlLiteral v2)
      else if op = js ''NOT_BETWEEN'' then
        (if v = [] \<or> v2 = [] then []
         else col @ js '' NOT BETWEEN '' @ sqlLiteral v @ js '' AND '' @ sqlLiteral v2)
      else if op = js ''IN'' then
        (if parseListValues value = [] then []
         else col @ js '' IN ('' @ commaJoin (map sqlLiteral (parseListValues value)) @ js '')'')
      else if op = js ''NOT_IN'' then
        (if parseListValues value = [] then []
         else col @ js '' NOT IN ('' @ commaJoin (map sqlLiteral (parseListValues value)) @ js '')'')
      else if op = js ''CONTAINS'' then like (js ''LIKE'') (js ''%'') (js ''%'')
      else if op = js ''NOT_CONTAINS'' then like (js ''NOT LIKE'') (js ''%'') (js ''%'')
      else if op = js ''STARTS_WITH'' then like (js ''LIKE'') [] (js ''%'')
      else if op = js ''NOT_STARTS_WITH'' then like (js ''NOT LIKE'') [] (js ''%'')
      else if op = js ''ENDS_WITH'' then like (js ''LIKE'') (js ''%'') []
      else if op = js ''NOT_ENDS_WITH'' then like (js ''NOT LIKE'') (js ''%'') []
      else if op \<in> set comparisonOps then like op [] []
      else if js_upper op = js ''LIKE'' then like (js ''LIKE'') (js ''%'') (js ''%'')
      else like op [] [])"

record wherePart =
  wp_expr :: js_string
  wp_logic :: js_string

text \<open>The body of the \<open>forEach\<close>: the part a condition appends, if any.\<close>

definition conditionPart :: "js_string \<Rightarrow> filterCondition \<Rightarrow> wherePart option" where
  "conditionPart dbType cond =
     (if fc_enabled cond = Some False then None
      else
        (let op = js_trim (fc_op cond); column = js_trim (fc_column cond);
             appendWherePart = (\<lambda>expr. let normalizedExpr = js_trim expr in
               if normalizedExpr = [] then None
               else Some \<lparr>wp_expr = normalizedExpr, wp_logic = normalizeConditionLogic (fc_logic cond)\<rparr>) in
         if op = js ''CUSTOM'' then
           (let expr = js_trim (fc_value cond) in
            if expr = [] then None else appendWherePart (js ''('' @ expr @ js '')''))
         else if column = [] then None
         else
           (let col = quoteIdentPart dbType column in
            case fc_valueSelection cond of
              Some sel \<Rightarrow> appendWherePart (selectionExpr col sel)
            | None \<Rightarrow> appendWherePart (operatorExpr col op (fc_value cond) (fc_value2 cond)))))"

definition whereParts :: "js_string \<Rightarrow> filterCondition list \<Rightarrow> wherePart list" where
  "whereParts dbType conditions =
     concat (map (\<lambda>c. case conditionPart dbType c of None \<Rightarrow> [] | Some p \<Rightarrow> [p]) conditions)"

definition buildWhereSQL :: "js_string \<Rightarrow> filterCondition list \<Rightarrow> js_string" where
  "buildWhereSQL dbType conditions =
     (case whereParts dbType conditions of
        [] \<Rightarrow> []
      | p # ps \<Rightarrow>
          js ''WHERE '' @
          foldl (\<lambda>whereExpr part.
              js ''('' @ whereExpr @ js '' '' @ wp_logic part @ js '' ('' @ wp_expr part @ js ''))'')
            (js ''('' @ wp_expr p @ js '')'') ps)"

end
