(* ===== verification/SqlWhereProps.thy ===== *)
theory SqlWhereProps
  imports SqlBuild
begin

text \<open>
  What the builders of \<open>SqlBuild\<close> write, read by the scan for writes of \<open>SqlEmbeddedWrite\<close>: a text
  is \<open>harmless\<close> when the scan passes over it without meeting a write keyword. Literals, quoted
  identifiers and the fixed words of the templates are harmless, and harmlessness is kept by
  concatenation, so the WHERE clause of any filter is.
\<close>

section \<open>Harmless texts\<close>

text \<open>Characters that open neither a quotation nor a comment and belong to no word.\<close>

definition inert_char :: "nat \<Rightarrow> bool" where
  "inert_char c \<longleftrightarrow> c = 32 \<or> c = 40 \<or> c = 41 \<or> c = 44 \<or> c = 33 \<or> c = 60 \<or> c = 61 \<or> c = 62"

text \<open>What may follow a fragment: nothing, or such a character.\<close>

definition sep_next :: "js_string \<Rightarrow> bool" where
  "sep_next rest \<longleftrightarrow> rest = [] \<or> inert_char (hd rest)"

text \<open>The flag says that anything may follow.\<close>

definition harmless :: "js_string \<Rightarrow> bool \<Rightarrow> js_string \<Rightarrow> bool" where
  "harmless db any f \<longleftrightarrow>
     (\<forall>pre rest. any \<or> sep_next rest \<longrightarrow>
        (\<exists>ws. set ws \<inter> set SQL_EMBEDDED_WRITE_KEYWORDS = {} \<and>
           sqlWordsFrom (pre @ f @ rest) db (length pre)
             = ws @ sqlWordsFrom (pre @ f @ rest) db (length pre + length f)))"

lemma harmlessI:
  "(\<And>pre rest. any \<or> sep_next rest \<Longrightarrow>
      \<exists>ws. set ws \<inter> set SQL_EMBEDDED_WRITE_KEYWORDS = {} \<and>
        sqlWordsFrom (pre @ f @ rest) db (length pre)
          = ws @ sqlWordsFrom (pre @ f @ rest) db (length pre + length f)) \<Longrightarrow> harmless db any f"
  by (simp add: harmless_def)

lemma harmlessD:
  assumes "harmless db any f" "any \<or> sep_next rest"
  obtains ws where "set ws \<inter> set SQL_EMBEDDED_WRITE_KEYWORDS = {}"
    "sqlWordsFrom (pre @ f @ rest) db (length pre)
      = ws @ sqlWordsFrom (pre @ f @ rest) db (length pre + length f)"
  using assms unfolding harmless_def by blast

lemma harmless_weaken: "harmless db True f \<Longrightarrow> harmless db any f"
  by (simp add: harmless_def)

lemma harmless_Nil [simp]: "harmless db any []"
  by (rule harmlessI) (auto intro: exI [of _ "[]"])

lemma sep_next_append: "g \<noteq> [] \<Longrightarrow> sep_next (g @ rest) = sep_next g"
  by (simp add: sep_next_def)

lemma harmless_append:
  assumes f: "harmless db a f" and g: "harmless db b g" and ok: "a \<or> (g \<noteq> [] \<and> sep_next g)"
  shows "harmless db b (f @ g)"
proof (rule harmlessI)
  fix pre rest assume rest: "b \<or> sep_next rest"
  have "a \<or> sep_next (g @ rest)" using ok by (auto simp: sep_next_append)
  from harmlessD [OF f this] obtain ws where
    "set ws \<inter> set SQL_EMBEDDED_WRITE_KEYWORDS = {}"
    "sqlWordsFrom (pre @ f @ g @ rest) db (length pre)
      = ws @ sqlWordsFrom (pre @ f @ g @ rest) db (length pre + length f)" .
  moreover from harmlessD [OF g rest] obtain us where
    "set us \<inter> set SQL_EMBEDDED_WRITE_KEYWORDS = {}"
    "sqlWordsFrom ((pre @ f) @ g @ rest) db (length (pre @ f))
      = us @ sqlWordsFrom ((pre @ f) @ g @ rest) db (length (pre @ f) + length g)" .
  ultimately show "\<exists>ws. set ws \<inter> set SQL_EMBEDDED_WRITE_KEYWORDS = {} \<and>
      sqlWordsFrom (pre @ (f @ g) @ rest) db (length pre)
        = ws @ sqlWordsFrom (pre @ (f @ g) @ rest) db (length pre + length (f @ g))"
    by (intro exI [of _ "ws @ us"]) (auto simp: add.assoc)
qed

lemma keyword_or_inert_skip:
  assumes "i < length t" "inert_char (t ! i) \<or> isSqlKeywordChar (t ! i)"
  shows "skipQuotedOrComment t i db = None"
proof -
  have d: "drop i t = t ! i # drop (Suc i) t" using assms(1) by (metis Cons_nth_drop_Suc)
  show ?thesis using assms(2)
    by (auto simp: skipQuotedOrComment_def js_starts_at_def d inert_char_def char_defs Let_def)
qed

lemma harmless_char: "inert_char c \<Longrightarrow> harmless db True [c]"
proof (rule harmlessI)
  fix pre rest assume c: "inert_char c"
  let ?t = "pre @ [c] @ rest"
  have lt: "length pre < length ?t" by simp
  have "skipQuotedOrComment ?t (length pre) db = None"
    using c by (intro keyword_or_inert_skip) simp_all
  moreover have "\<not> isSqlKeywordChar (?t ! length pre)"
    using c by (auto simp: inert_char_def char_defs)
  ultimately have "sqlWordsFrom ?t db (length pre) = sqlWordsFrom ?t db (length pre + length [c])"
    using sqlWordsFrom_unfold [OF lt, of db] by simp
  then show "\<exists>ws. set ws \<inter> set SQL_EMBEDDED_WRITE_KEYWORDS = {} \<and>
      sqlWordsFrom ?t db (length pre) = ws @ sqlWordsFrom ?t db (length pre + length [c])"
    by (intro exI [of _ "[]"]) simp
qed

lemma sep_not_keyword: "sep_next rest \<Longrightarrow> takeWhile isSqlKeywordChar rest = []"
  by (cases rest) (auto simp: sep_next_def inert_char_def char_defs)

lemma harmless_word:
  assumes "\<forall>c\<in>set w. isSqlKeywordChar c" "js_lower w \<notin> set SQL_EMBEDDED_WRITE_KEYWORDS"
  shows "harmless db False w"
proof (cases "w = []")
  case False
  show ?thesis
  proof (rule harmlessI)
    fix pre rest assume rest: "False \<or> sep_next rest"
    let ?t = "pre @ w @ rest"
    have lt: "length pre < length ?t" using False by simp
    have at: "?t ! length pre \<in> set w" using False by (simp add: nth_append)
    have "skipQuotedOrComment ?t (length pre) db = None"
      using at assms(1) by (intro keyword_or_inert_skip lt) blast
    moreover have "skip_while isSqlKeywordChar ?t (length pre) = length pre + length w"
      using rest assms(1) by (simp add: skip_while_def takeWhile_append2 sep_not_keyword)
    moreover from this have "embeddedWord ?t (length pre) = js_lower w"
      by (simp add: embeddedWord_def js_slice_def)
    ultimately have "sqlWordsFrom ?t db (length pre)
        = js_lower w # sqlWordsFrom ?t db (length pre + length w)"
      using sqlWordsFrom_unfold [OF lt, of db] at assms(1) by simp
    then show "\<exists>ws. set ws \<inter> set SQL_EMBEDDED_WRITE_KEYWORDS = {} \<and>
        sqlWordsFrom ?t db (length pre) = ws @ sqlWordsFrom ?t db (length pre + length w)"
      using assms(2) by (intro exI [of _ "[js_lower w]"]) simp
  qed
qed simp

subsection \<open>Templates\<close>

text \<open>The words of a text of inert and word characters.\<close>

function templateWords :: "js_string \<Rightarrow> js_string list" where
  "templateWords [] = []"
| "templateWords (c # s) =
     (if isSqlKeywordChar c
      then js_lower (c # takeWhile isSqlKeywordChar s) # templateWords (dropWhile isSqlKeywordChar s)
      else templateWords s)"
  by pat_completeness auto
termination
  by (relation "measure length") (auto simp: le_imp_less_Suc length_dropWhile_le)

definition template :: "js_string \<Rightarrow> bool" where
  "template s \<longleftrightarrow> (\<forall>c\<in>set s. inert_char c \<or> isSqlKeywordChar c)
     \<and> (\<forall>w\<in>set (templateWords s). w \<notin> set SQL_EMBEDDED_WRITE_KEYWORDS)"

lemma template_harmless: "template s \<Longrightarrow> harmless db (s = [] \<or> \<not> isSqlKeywordChar (last s)) s"
  unfolding template_def
proof (induction s rule: templateWords.induct)
  case (2 c s)
  show ?case
  proof (cases "isSqlKeywordChar c")
    case True
    let ?w = "c # takeWhile isSqlKeywordChar s" and ?r = "dropWhile isSqlKeywordChar s"
    have eq: "c # s = ?w @ ?r" by simp
    have w: "harmless db False ?w"
      using 2(3) True by (intro harmless_word) (auto dest: set_takeWhileD)
    have r: "harmless db (?r = [] \<or> \<not> isSqlKeywordChar (last ?r)) ?r"
      using 2(1) [OF True] 2(3) True by (auto dest: set_dropWhileD)
    show ?thesis
    proof (cases "?r = []")
      case True
      then have "s = takeWhile isSqlKeywordChar s" by (metis append_Nil2 takeWhile_dropWhile_id)
      then have all: "\<forall>x\<in>set (c # s). isSqlKeywordChar x"
        using \<open>isSqlKeywordChar c\<close> by (metis set_ConsD set_takeWhileD)
      then have "isSqlKeywordChar (last (c # s))" using last_in_set by blast
      with w True show ?thesis by (metis \<open>s = takeWhile isSqlKeywordChar s\<close> list.discI)
    next
      case False
      have "hd ?r \<in> set s" by (rule set_dropWhileD [OF hd_in_set [OF False]])
      moreover have "\<not> isSqlKeywordChar (hd ?r)" by (rule hd_dropWhile [OF False])
      ultimately have sep: "sep_next ?r" using 2(3) by (auto simp: sep_next_def)
      have last: "last (c # s) = last ?r" using False by (metis eq last_appendR)
      have "harmless db (?r = [] \<or> \<not> isSqlKeywordChar (last ?r)) (?w @ ?r)"
        by (rule harmless_append [OF w r]) (use False sep in blast)
      then show ?thesis unfolding eq [symmetric] last
        by (simp only: False simp_thms list.distinct)
    qed
  next
    case False
    have c: "harmless db True [c]" using 2(3) False by (intro harmless_char) auto
    have s: "harmless db (s = [] \<or> \<not> isSqlKeywordChar (last s)) s"
      using 2(2) [OF False] 2(3) False by auto
    from harmless_append [OF c s] False show ?thesis by (cases "s = []") simp_all
  qed
qed simp

lemma template_closed: "template s \<Longrightarrow> s \<noteq> [] \<Longrightarrow> \<not> isSqlKeywordChar (last s) \<Longrightarrow> harmless db True s"
  using template_harmless [of s db] by simp

lemma template_open: "template s \<Longrightarrow> harmless db False s"
  using template_harmless [of s db] by (metis harmless_weaken harmless_def)

subsection \<open>Quoted texts\<close>

lemma opaque_harmless:
  assumes "opaque_text render ok db closing" "ok v" "\<not> inert_char closing"
  shows "harmless db False (render v)"
proof (rule harmlessI)
  fix pre rest assume "False \<or> sep_next rest"
  then have "js_at rest 0 \<noteq> Some closing"
    using assms(3) by (cases rest) (auto simp: js_at_def sep_next_def)
  from opaque_text.words_skip [OF assms(1,2) this]
  show "\<exists>ws. set ws \<inter> set SQL_EMBEDDED_WRITE_KEYWORDS = {} \<and>
      sqlWordsFrom (pre @ render v @ rest) db (length pre)
        = ws @ sqlWordsFrom (pre @ render v @ rest) db (length pre + length (render v))"
    by (intro exI [of _ "[]"]) simp
qed

definition literal_ok :: "js_string \<Rightarrow> js_string \<Rightarrow> bool" where
  "literal_ok db v \<longleftrightarrow> \<not> supportsSqlHashLineComment db \<or> 92 \<notin> set v"

lemma harmless_literal: "literal_ok db v \<Longrightarrow> harmless db False (sqlLiteral v)"
  by (rule opaque_harmless [OF opaque_literal.opaque_text_axioms])
    (simp_all add: literal_ok_def inert_char_def)

lemma bracket_scan:
  assumes "js_at rest 0 \<noteq> Some 93" "supportsSqlEscapedBracketIdentifier db"
  shows "loop_result d (scan_loop at_index (length (pre @ js_double 93 v @ 93 # rest))
      (bracketTextStep (pre @ js_double 93 v @ 93 # rest) db) (length pre))
    = length pre + length (js_double 93 v) + 1"
proof (induction v arbitrary: pre)
  case Nil
  have "bracketTextStep (pre @ 93 # rest) db (length pre) = Return (length pre + 1)"
    using assms(1) by (auto simp: bracketTextStep_def js_at_def nth_append split: if_splits)
  moreover have "at_index (length pre) < length (pre @ 93 # rest)" by simp
  ultimately have "scan_loop at_index (length (pre @ 93 # rest)) (bracketTextStep (pre @ 93 # rest) db) (length pre)
      = Return (length pre + 1)"
    using bracket_text.step_Return by metis
  then show ?case by simp
next
  case (Cons c v)
  let ?t = "pre @ js_double 93 (c # v) @ 93 # rest"
  have lt: "at_index (length pre) < length ?t" by simp
  show ?case
  proof (cases "c = 93")
    case True
    then have "bracketTextStep ?t db (length pre) = Continue (length pre + 2)"
      using assms(2) by (simp add: bracketTextStep_def js_at_def nth_append)
    from bracket_text.step_Continue [OF lt this] Cons.IH [of "pre @ [93, 93]"] True
    show ?thesis by simp
  next
    case False
    then have "bracketTextStep ?t db (length pre) = Continue (length pre + 1)"
      by (simp add: bracketTextStep_def nth_append)
    from bracket_text.step_Continue [OF lt this] Cons.IH [of "pre @ [c]"] False
    show ?thesis by simp
  qed
qed

lemma skip_bracketed:
  assumes "js_at rest 0 \<noteq> Some 93" "supportsSqlEscapedBracketIdentifier db"
  shows "skipQuotedOrComment (pre @ enclosed 91 93 v @ rest) (length pre) db
    = Some (length pre + length (enclosed 91 93 v))"
proof -
  have "supportsSqlBracketIdentifier db"
    using assms(2) by (simp add: supportsSqlBracketIdentifier_def supportsSqlEscapedBracketIdentifier_def)
  moreover have "drop (length pre) (pre @ enclosed 91 93 v @ rest) = 91 # js_double 93 v @ 93 # rest"
    by (simp add: enclosed_def)
  moreover have "(pre @ enclosed 91 93 v @ rest) ! length pre = 91" by (simp add: enclosed_def)
  moreover have "pre @ enclosed 91 93 v @ rest = (pre @ [91]) @ js_double 93 v @ 93 # rest"
    by (simp add: enclosed_def)
  ultimately show ?thesis
    using bracket_scan [OF assms, of _ "pre @ [91]"]
    by (auto simp: skipQuotedOrComment_def js_starts_at_def enclosed_def)
qed

interpretation opaque_brackets: opaque_text "enclosed 91 93" "\<lambda>_. supportsSqlEscapedBracketIdentifier db" db 93 for db
  by unfold_locales (simp add: enclosed_def, simp add: skip_bracketed)

section \<open>The pieces of a filter\<close>

definition column_ok :: "js_string \<Rightarrow> js_string \<Rightarrow> bool" where
  "column_ok db v \<longleftrightarrow> writableIdent v
     \<and> (quoteIdentPart db v \<noteq> v \<or> js_lower v \<notin> set SQL_EMBEDDED_WRITE_KEYWORDS)"

lemma sqlserver_scan:
  assumes "js_lower db \<in> set [js ''sqlserver'', js ''mssql'']"
  shows "supportsSqlEscapedBracketIdentifier db"
proof -
  have "js_trim db = db"
    using assms by (intro trim_lower_no_space) (auto simp: js_space_def)
  then show ?thesis using assms
    by (auto simp: supportsSqlEscapedBracketIdentifier_def normalizeSqlLexicalDbType_def Let_def)
qed

lemma harmless_column: "column_ok db v \<Longrightarrow> harmless db False (quoteIdentPart db v)"
proof -
  assume ok: "column_ok db v"
  then have w: "writableIdent v" by (simp add: column_ok_def)
  show ?thesis using quoteIdentPart_cases [OF w, of db]
  proof (elim disjE conjE)
    assume "quoteIdentPart db v = enclosed 96 96 v"
    then show ?thesis
      using opaque_harmless [OF opaque_backticks.opaque_text_axioms, where v = v and db = db] by (simp add: inert_char_def)
  next
    assume "quoteIdentPart db v = enclosed 34 34 v"
    then show ?thesis
      using opaque_harmless [OF opaque_identifier.opaque_text_axioms, where v = v and db = db] by (simp add: inert_char_def)
  next
    assume "js_lower db \<in> set [js ''sqlserver'', js ''mssql'']" "quoteIdentPart db v = enclosed 91 93 v"
    then show ?thesis
      using opaque_harmless [OF opaque_brackets.opaque_text_axioms, where v = v and db = db] sqlserver_scan [of db]
      by (simp add: inert_char_def)
  next
    assume p: "plain_name v" "quoteIdentPart db v = v"
    then show ?thesis using ok
      by (simp, intro harmless_word) (auto simp: column_ok_def plain_name_def isSqlKeywordChar_def js_word_def)
  qed
qed

text \<open>A harmless text that trimming leaves alone.\<close>

definition piece :: "js_string \<Rightarrow> js_string \<Rightarrow> bool" where
  "piece db e \<longleftrightarrow> harmless db False e \<and> e \<noteq> [] \<and> \<not> js_space (hd e) \<and> \<not> js_space (last e)"

lemma piece_trim: "piece db e \<Longrightarrow> js_trim e = e"
  by (simp add: piece_def js_trim_id)

text \<open>A fixed text between two pieces.\<close>

definition link :: "js_string \<Rightarrow> bool" where
  "link m \<longleftrightarrow> template m \<and> m \<noteq> [] \<and> inert_char (hd m) \<and> \<not> isSqlKeywordChar (last m)"

lemma harmless_link: "harmless db False a \<Longrightarrow> link m \<Longrightarrow> harmless db True (a @ m)"
  by (rule harmless_append) (auto simp: link_def sep_next_def intro: template_closed)

lemma piece_link: "piece db a \<Longrightarrow> link m \<Longrightarrow> piece db b \<Longrightarrow> piece db (a @ m @ b)"
  using harmless_append [OF harmless_link [of db a m], of False b]
  by (simp add: piece_def last_append)

definition ending :: "js_string \<Rightarrow> bool" where
  "ending m \<longleftrightarrow> template m \<and> m \<noteq> [] \<and> inert_char (hd m) \<and> \<not> js_space (last m)"

lemma piece_ending: "piece db a \<Longrightarrow> ending m \<Longrightarrow> piece db (a @ m)"
  using harmless_append [of db False a False m] template_open [of m db]
  by (simp add: piece_def ending_def sep_next_def)

lemma piece_paren: "piece db e \<Longrightarrow> piece db (40 # e @ [41])"
proof -
  assume e: "piece db e"
  have "harmless db True (e @ [41])"
    using e by (intro harmless_append [of db False]) (auto simp: piece_def sep_next_def inert_char_def harmless_char)
  from harmless_append [OF harmless_char [of 40 db] this] have "harmless db True (40 # e @ [41])"
    by (simp add: inert_char_def)
  then show ?thesis by (auto simp: piece_def js_space_def intro: harmless_weaken)
qed

lemma piece_join:
  "ps \<noteq> [] \<Longrightarrow> \<forall>p\<in>set ps. piece db p \<Longrightarrow> link m \<Longrightarrow> piece db (js_join m ps)"
proof (induction ps)
  case (Cons p ps)
  then show ?case by (cases "ps = []") (simp_all add: js_join_Cons piece_link)
qed simp

lemma piece_literal: "literal_ok db v \<Longrightarrow> piece db (sqlLiteral v)"
  by (simp add: piece_def harmless_literal) (simp add: sqlLiteral_def)

lemma piece_column: "column_ok db v \<Longrightarrow> piece db (quoteIdentPart db v)"
  using ident_names.tight [of v db] harmless_column [of db v] by (auto simp: piece_def column_ok_def)

lemma links:
  "link (js '' IN ('')" "link (js '' NOT IN ('')" "link (js '', '')" "link (js '' OR '')" "link (js '' AND '')"
  "link (js '' = '')" "link (js '' <> '')" "link (js '' BETWEEN '')" "link (js '' NOT BETWEEN '')"
  "link (js '' LIKE '')" "link (js '' NOT LIKE '')" "link (js '' IS NULL OR '')"
  "link (js '' IS NOT NULL AND '')"
  by code_simp+

lemma endings: "ending (js '' IS NULL'')" "ending (js '' IS NOT NULL'')" "ending (js '')'')"
  by code_simp+

lemma comparison_links: "\<forall>op\<in>set comparisonOps. link ([32] @ op @ [32])"
  by code_simp

section \<open>The WHERE clause\<close>

definition knownOperator :: "js_string \<Rightarrow> bool" where
  "knownOperator op \<longleftrightarrow>
     op \<in> set [js ''IS_NULL'', js ''IS_NOT_NULL'', js ''IS_EMPTY'', js ''IS_NOT_EMPTY'', js ''BETWEEN'',
       js ''NOT_BETWEEN'', js ''IN'', js ''NOT_IN'', js ''CONTAINS'', js ''NOT_CONTAINS'', js ''STARTS_WITH'',
       js ''NOT_STARTS_WITH'', js ''ENDS_WITH'', js ''NOT_ENDS_WITH'']
     \<or> op \<in> set comparisonOps \<or> js_upper op = js ''LIKE''"

lemma literal_ok_subset: "literal_ok db v \<Longrightarrow> set u \<subseteq> insert 37 (set v) \<Longrightarrow> literal_ok db u"
  by (auto simp: literal_ok_def)

lemma splitListSeparators_nonempty: "splitListSeparators s \<noteq> []"
  by (induction s) (auto split: list.splits)

lemma set_splitListSeparators: "p \<in> set (splitListSeparators s) \<Longrightarrow> set p \<subseteq> set s"
proof (induction s arbitrary: p)
  case (Cons c s)
  obtain q qs where q: "splitListSeparators s = q # qs"
    using splitListSeparators_nonempty [of s] by (cases "splitListSeparators s") auto
  with Cons.prems have "p = [] \<or> p = c # q \<or> p \<in> set (q # qs)" by (auto split: if_splits)
  then show ?case using Cons.IH [of p] Cons.IH [of q] q by auto
qed simp

lemma parseListValues_ok:
  "literal_ok db v \<Longrightarrow> u \<in> set (parseListValues v) \<Longrightarrow> literal_ok db u"
  using set_js_trim set_splitListSeparators
  by (fastforce simp: parseListValues_def Let_def literal_ok_def split: if_splits)

lemma piece_in_list:
  assumes "piece db col" "link m" "vs \<noteq> []" "\<forall>v\<in>set vs. literal_ok db v"
  shows "piece db (col @ m @ commaJoin (map sqlLiteral vs) @ js '')'')"
proof -
  have "piece db (commaJoin (map sqlLiteral vs))"
    unfolding commaJoin_def using assms by (intro piece_join links) (auto intro: piece_literal)
  then have "piece db (commaJoin (map sqlLiteral vs) @ js '')'')" by (rule piece_ending [OF _ endings(3)])
  then show ?thesis by (rule piece_link [OF assms(1,2)])
qed

lemma piece_like:
  assumes "piece db col" "link (js '' '' @ kw @ js '' '')" "literal_ok db v"
  shows "piece db (col @ js '' '' @ kw @ js '' '' @ sqlLiteral v)"
  using piece_link [OF assms(1,2) piece_literal [OF assms(3)]] by simp

lemma literal_ok_Nil [simp]: "literal_ok db []"
  by (simp add: literal_ok_def)

text \<open>Nothing, or a piece.\<close>

definition optional_piece :: "js_string \<Rightarrow> js_string \<Rightarrow> bool" where
  "optional_piece db e \<longleftrightarrow> e = [] \<or> piece db e"

lemma optional_Nil: "optional_piece db []"
  by (simp add: optional_piece_def)

lemma optional_if:
  "(c \<Longrightarrow> optional_piece db a) \<Longrightarrow> (\<not> c \<Longrightarrow> optional_piece db b) \<Longrightarrow> optional_piece db (if c then a else b)"
  by simp

lemma optionalI: "piece db e \<Longrightarrow> optional_piece db e"
  by (simp add: optional_piece_def)

lemma operatorExpr_piece:
  assumes col: "piece db col" and op: "knownOperator op"
    and v: "literal_ok db value" "literal_ok db value2"
  shows "optional_piece db (operatorExpr col op value value2)"
proof -
  let ?v = "js_trim value" and ?v2 = "js_trim value2"
  have lv: "literal_ok db u" if "set u \<subseteq> insert 37 (set ?v)" for u
    by (rule literal_ok_subset [OF v(1)]) (use that set_js_trim in blast)
  have lv2: "literal_ok db ?v2" by (rule literal_ok_subset [OF v(2)]) (use set_js_trim in blast)
  have like: "piece db (col @ js '' '' @ kw @ js '' '' @ sqlLiteral (b @ ?v @ a))"
    if "link (js '' '' @ kw @ js '' '')" "set b \<subseteq> {37}" "set a \<subseteq> {37}" for kw a b
    by (rule piece_like [OF col that(1) lv]) (use that in auto)
  have LIKE: "link (js '' '' @ js ''LIKE'' @ js '' '')" "link (js '' '' @ js ''NOT LIKE'' @ js '' '')"
    by code_simp+
  have cmp: "link (js '' '' @ op @ js '' '')" if "op \<in> set comparisonOps"
    using that comparison_links by simp
  have empty: "piece db (js ''('' @ col @ js '' IS NULL OR '' @ col @ js '' = '' @ sqlLiteral [] @ js '')'')"
    using piece_paren [OF piece_link [OF col links(12) piece_link [OF col links(6) piece_literal]], of "[]"] by simp
  have not_empty: "piece db (js ''('' @ col @ js '' IS NOT NULL AND '' @ col @ js '' <> '' @ sqlLiteral [] @ js '')'')"
    using piece_paren [OF piece_link [OF col links(13) piece_link [OF col links(7) piece_literal]], of "[]"] by simp
  have between: "piece db (col @ m @ sqlLiteral ?v @ js '' AND '' @ sqlLiteral ?v2)" if "link m" for m
    by (rule piece_link [OF col that piece_link [OF piece_literal links(5) piece_literal [OF lv2]]]) (rule lv, auto)
  have inlist: "piece db (col @ m @ commaJoin (map sqlLiteral (parseListValues value)) @ js '')'')"
    if "link m" "parseListValues value \<noteq> []" for m
    by (rule piece_in_list [OF col that]) (use parseListValues_ok [OF v(1)] in blast)
  have percent: "set (js ''%'') \<subseteq> {37}" "set [] \<subseteq> {37}" by simp_all
  note fixed = piece_ending [OF col endings(1)] piece_ending [OF col endings(2)] empty not_empty
    between [OF links(8)] between [OF links(9)]
    like [OF LIKE(1) percent(1) percent(1)] like [OF LIKE(2) percent(1) percent(1)]
    like [OF LIKE(1) percent(1) percent(2)] like [OF LIKE(2) percent(1) percent(2)]
    like [OF LIKE(1) percent(2) percent(1)] like [OF LIKE(2) percent(2) percent(1)]
  show ?thesis
    unfolding operatorExpr_def Let_def
    by (intro optional_if; (rule optional_Nil | (rule optionalI, rule fixed)
          | (rule optionalI, rule inlist [OF links(1)], assumption)
          | (rule optionalI, rule inlist [OF links(2)], assumption)
          | (rule optionalI, rule like [OF cmp percent(2) percent(2)], assumption)
          | (use op in \<open>simp add: knownOperator_def\<close>)))
qed

lemma selectionExpr_piece:
  assumes col: "piece db col" and v: "\<forall>v\<in>set (vs_values sel). literal_ok db v"
  shows "optional_piece db (selectionExpr col sel)"
proof -
  let ?vs = "js_uniq (vs_values sel)"
  let ?parts = "(if ?vs \<noteq> [] then [col @ js '' IN ('' @ commaJoin (map sqlLiteral ?vs) @ js '')''] else [])
    @ (if vs_includeNull sel then [col @ js '' IS NULL''] else [])
    @ (if vs_includeEmpty sel then [col @ js '' = '' @ sqlLiteral []] else [])"
  have "\<forall>p\<in>set ?parts. piece db p"
    using piece_in_list [OF col links(1), of ?vs] v piece_ending [OF col endings(1)]
      piece_link [OF col links(6) piece_literal [OF literal_ok_Nil]]
    by (auto simp del: js_Cons)
  then have "?parts = [] \<or> (\<exists>p. ?parts = [p] \<and> piece db p) \<or> piece db (js_join (js '' OR '') ?parts)"
    using piece_join [OF _ _ links(4), of ?parts db] by blast
  then have "optional_piece db (if length ?parts = 0 then [] else if length ?parts = 1 then ?parts ! 0
      else js ''('' @ js_join (js '' OR '') ?parts @ js '')'')"
    using piece_paren [of db "js_join (js '' OR '') ?parts"] \<open>\<forall>p\<in>set ?parts. piece db p\<close>
    by (auto simp: optional_piece_def simp del: js_join.simps)
  then show ?thesis by (simp only: selectionExpr_def Let_def)
qed

text \<open>
  A filter condition that the grid builds: a known operator (no free SQL), a column that can be
  quoted, and values that the dialect's literals can hold.
\<close>

definition plain_condition :: "js_string \<Rightarrow> filterCondition \<Rightarrow> bool" where
  "plain_condition db c \<longleftrightarrow>
     js_trim (fc_op c) \<noteq> js ''CUSTOM''
     \<and> (js_trim (fc_column c) = [] \<or> column_ok db (js_trim (fc_column c)))
     \<and> (case fc_valueSelection c of
          Some sel \<Rightarrow> \<forall>v\<in>set (vs_values sel). literal_ok db v
        | None \<Rightarrow> knownOperator (js_trim (fc_op c)) \<and> literal_ok db (fc_value c) \<and> literal_ok db (fc_value2 c))"

lemma conditionPart_piece:
  assumes "plain_condition db c" "conditionPart db c = Some p"
  shows "piece db (wp_expr p) \<and> link ([32] @ wp_logic p @ [32, 40])"
proof -
  let ?col = "quoteIdentPart db (js_trim (fc_column c))"
  let ?e = "case fc_valueSelection c of Some sel \<Rightarrow> selectionExpr ?col sel
    | None \<Rightarrow> operatorExpr ?col (js_trim (fc_op c)) (fc_value c) (fc_value2 c)"
  from assms have nc: "js_trim (fc_column c) \<noteq> []" and p: "js_trim ?e \<noteq> []"
    "p = \<lparr>wp_expr = js_trim ?e, wp_logic = normalizeConditionLogic (fc_logic c)\<rparr>"
    by (auto simp: conditionPart_def plain_condition_def Let_def split: if_splits option.splits)
  have "piece db ?col" using assms(1) nc by (intro piece_column) (simp add: plain_condition_def)
  then have "optional_piece db ?e"
    using assms(1) operatorExpr_piece selectionExpr_piece
    by (auto simp: plain_condition_def split: option.splits)
  then have "piece db ?e" using p(1) by (auto simp: optional_piece_def)
  moreover have "link ([32] @ js ''AND'' @ [32, 40])" "link ([32] @ js ''OR'' @ [32, 40])"
    by code_simp+
  ultimately show ?thesis using p(2) by (simp only: piece_trim) (auto simp: normalizeConditionLogic_def)
qed

lemma where_fold:
  assumes "\<forall>p\<in>set ps. piece db (wp_expr p) \<and> link ([32] @ wp_logic p @ [32, 40])" "piece db e"
  shows "piece db (foldl (\<lambda>whereExpr part.
      js ''('' @ whereExpr @ js '' '' @ wp_logic part @ js '' ('' @ wp_expr part @ js ''))'') e ps)"
  using assms
proof (induction ps arbitrary: e)
  case (Cons p ps)
  have "piece db (wp_expr p @ [41])"
    using Cons.prems(1) piece_ending [OF _ endings(3)] by simp
  then have "piece db (e @ ([32] @ wp_logic p @ [32, 40]) @ wp_expr p @ [41])"
    using Cons.prems by (intro piece_link) auto
  from piece_paren [OF this] Cons.IH [of "js ''('' @ e @ js '' '' @ wp_logic p @ js '' ('' @ wp_expr p @ js ''))''"]
  show ?case using Cons.prems by simp
qed simp

lemma where_piece:
  assumes "\<forall>c\<in>set conditions. plain_condition db c"
  shows "optional_piece db (buildWhereSQL db conditions)"
proof (cases "whereParts db conditions")
  case (Cons p ps)
  have "\<forall>q\<in>set (p # ps). piece db (wp_expr q) \<and> link ([32] @ wp_logic q @ [32, 40])"
    unfolding Cons [symmetric] whereParts_def
    using assms conditionPart_piece by (fastforce split: option.splits)
  then have "piece db (foldl (\<lambda>whereExpr part.
      js ''('' @ whereExpr @ js '' '' @ wp_logic part @ js '' ('' @ wp_expr part @ js ''))'')
      (js ''('' @ wp_expr p @ js '')'') ps)"
    using piece_paren by (intro where_fold) auto
  moreover have "piece db (js ''WHERE'')"
    unfolding piece_def by (rule conjI, rule template_open) code_simp+
  moreover have "link (js '' '')" by code_simp
  ultimately have "piece db (js ''WHERE'' @ js '' '' @ foldl (\<lambda>whereExpr part.
      js ''('' @ whereExpr @ js '' '' @ wp_logic part @ js '' ('' @ wp_expr part @ js ''))'')
      (js ''('' @ wp_expr p @ js '')'') ps)"
    by (intro piece_link)
  then show ?thesis by (simp add: buildWhereSQL_def Cons optional_piece_def)
qed (simp add: buildWhereSQL_def optional_piece_def)

lemma firstWriteWord_harmless:
  "set ws \<inter> set SQL_EMBEDDED_WRITE_KEYWORDS = {} \<Longrightarrow> firstWriteWord prev ws = []"
  by (induction ws arbitrary: prev) (auto simp: writeWord_def)

lemma harmless_no_write:
  assumes "harmless db any f" shows "\<not> hasEmbeddedWriteStatement f db"
proof -
  have "any \<or> sep_next []" by (simp add: sep_next_def)
  from harmlessD [OF assms this, of "[]"] obtain ws
    where "set ws \<inter> set SQL_EMBEDDED_WRITE_KEYWORDS = {}" "sqlWords f db = ws" by auto
  then have "firstWriteWord [] (sqlWords f db) = []" by (simp add: firstWriteWord_harmless)
  then show ?thesis by (simp add: embedded_write_words)
qed

text \<open>
  C11. No filter smuggles a write: the WHERE clause built from any list of plain conditions, whatever
  values the user typed, has no write keyword outside its quotes, for every dialect. (In the
  dialects with backslash escapes the values must have no backslash, see literal_escapes_with_backslash; a column whose name
  is a write keyword must be one that the dialect quotes.)
\<close>

theorem where_clause_never_writes:
  assumes "\<forall>c\<in>set conditions. plain_condition dbType c"
  shows "\<not> hasEmbeddedWriteStatement (buildWhereSQL dbType conditions) dbType"
proof (cases "buildWhereSQL dbType conditions = []")
  case True
  then show ?thesis using harmless_no_write [OF harmless_Nil] by simp
next
  case False
  then have "harmless dbType False (buildWhereSQL dbType conditions)"
    using where_piece [OF assms] by (simp add: optional_piece_def piece_def)
  then show ?thesis by (rule harmless_no_write)
qed

theorem where_clause_never_writes_witness:
  "\<not> hasEmbeddedWriteStatement (buildWhereSQL (js ''postgres'')
     [\<lparr>fc_enabled = None, fc_logic = [], fc_column = js ''name'', fc_op = js ''='',
       fc_value = [39] @ js ''; drop table users --'', fc_value2 = [], fc_valueSelection = None\<rparr>])
     (js ''postgres'')"
  by (rule where_clause_never_writes) code_simp

end
