(* ===== verification/SqlOrderProps.thy ===== *)
theory SqlOrderProps
  imports SqlBuild
begin

text \<open>
  Reversing an ORDER BY clause, which the SQL Server pagination does on the text of the clause, is
  the same as building the clause from the reversed sort items.
\<close>

section \<open>Splitting the clause\<close>




lemma orderLoop_end [simp]: "length t \<le> i \<Longrightarrow> orderLoop t i s = s"
  by (simp add: orderLoop.simps)




section \<open>The parts of a built clause\<close>

type_synonym orderColumn = "js_string \<times> bool"

definition orderPart :: "orderColumn \<Rightarrow> js_string" where
  "orderPart c = enclosed 91 93 (fst c) @ (if snd c then js '' ASC'' else js '' DESC'')"




lemma orderPart_ends:
  "orderPart c \<noteq> []" "hd (orderPart c) = 91" "last (orderPart c) = cu CHR ''C''"
  by (simp_all add: orderPart_def enclosed_def)

lemma orderPart_trim [simp]: "js_trim (orderPart c) = orderPart c" "js_trim (32 # orderPart c) = orderPart c"
proof -
  show *: "js_trim (orderPart c) = orderPart c"
    using orderPart_ends [of c] by (intro js_trim_id) (simp_all add: js_space_def)
  show "js_trim (32 # orderPart c) = orderPart c"
    using * by (simp add: js_trim_def js_trim_start_def js_space_def)
qed







section \<open>Sort items\<close>










end
