(* ===== verification/SqlDialect.thy ===== *)
theory SqlDialect
  imports QualifiedName
begin

text \<open>
  \<open>src/frontend/src/utils/sqlDialect.ts\<close> (dialect resolution, table aliases, identifier quoting) and
  \<open>normalizeOceanBaseProtocol\<close> of \<open>oceanBaseProtocol.ts\<close>. The \<open>switch\<close> of \<open>resolveSqlDialect\<close> is the
  table \<open>dialectCases\<close> (the labels of a group and what it returns, \<open>None\<close> for \<open>return source\<close>), its
  chain of \<open>includes\<close> the table \<open>dialectFragments\<close>, both in source order.
\<close>

section \<open>The OceanBase protocol\<close>

text \<open>A missing value is the empty string (\<open>String(value ?? '')\<close>).\<close>

datatype oceanBaseProtocol = ObMysql | ObOracle

definition normalizeOceanBaseProtocol :: "js_string \<Rightarrow> oceanBaseProtocol option" where
  "normalizeOceanBaseProtocol v =
     (let normalized = js_lower (js_trim v) in
      if normalized = [] then None
      else if normalized \<in> set [js ''oracle'', js ''oracle-mode'', js ''oracle_mode'', js ''oboracle'']
        then Some ObOracle
      else if normalized \<in> set [js ''mysql'', js ''mysql-compatible'', js ''mysql_compatible'',
                              js ''mysql-mode'', js ''mysql_mode'', js ''obmysql'']
        then Some ObMysql
      else None)"

definition resolveOceanBaseProtocolForDialect :: "js_string \<Rightarrow> oceanBaseProtocol" where
  "resolveOceanBaseProtocolForDialect v =
     (case normalizeOceanBaseProtocol v of Some p \<Rightarrow> p | None \<Rightarrow> ObMysql)"

definition isUnsupportedOceanBaseProtocolValue :: "js_string \<Rightarrow> bool" where
  "isUnsupportedOceanBaseProtocolValue v \<longleftrightarrow>
     js_lower (js_trim v) \<noteq> [] \<and> normalizeOceanBaseProtocol (js_lower (js_trim v)) = None"

section \<open>Resolving a dialect\<close>

definition dialectCases :: "(js_string list \<times> js_string option) list" where
  "dialectCases =
    [([js ''postgresql'', js ''postgres'', js ''pg'', js ''pq'', js ''pgx''], Some (js ''postgres'')),
     ([js ''opengauss'', js ''open_gauss'', js ''open-gauss''], Some (js ''opengauss'')),
     ([js ''gaussdb'', js ''gauss_db'', js ''gauss-db''], Some (js ''gaussdb'')),
     ([js ''mssql'', js ''sql_server'', js ''sql-server''], Some (js ''sqlserver'')),
     ([js ''intersystems'', js ''intersystemsiris'', js ''inter-systems'',
       js ''inter-systems-iris'', js ''iris''], Some (js ''iris'')),
     ([js ''cache'', js ''cach'' @ [233], js ''intersystems cache'',
       js ''intersystems cach'' @ [233], js ''intersystems-cache'',
       js ''intersystems-cach'' @ [233], js ''intersystemscache'',
       js ''intersystemscach'' @ [233], js ''inter-systems-cache'',
       js ''inter-systems-cach'' @ [233], js ''intersystems-cache-database'',
       js ''cache-db'', js ''cachedb''], Some (js ''iris'')),
     ([js ''doris'', js ''diros''], Some (js ''diros'')),
     ([js ''starrocks''], Some (js ''starrocks'')),
     ([js ''dm'', js ''dm8'', js ''dameng''], Some (js ''dameng'')),
     ([js ''sqlite3'', js ''sqlite''], Some (js ''sqlite'')),
     ([js ''sphinxql''], Some (js ''sphinx'')),
     ([js ''kingbase8'', js ''kingbasees'', js ''kingbasev8''], Some (js ''kingbase'')),
     ([js ''gdb'', js ''goldendb'', js ''greatdb''], Some (js ''mysql'')),
     ([js ''mariadb'', js ''oceanbase'', js ''mysql'', js ''sphinx'', js ''kingbase'',
       js ''highgo'', js ''vastbase'', js ''oracle'', js ''duckdb'', js ''clickhouse'',
       js ''tdengine'', js ''iotdb'', js ''mongodb'', js ''redis'',
       js ''elasticsearch''], None),
     ([js ''elastic''], Some (js ''elasticsearch'')),
     ([js ''chromadb'', js ''chroma-db'', js ''chroma''], Some (js ''chroma'')),
     ([js ''qdrantdb'', js ''qdrant-db'', js ''qdrant''], Some (js ''qdrant'')),
     ([js ''milvusdb'', js ''milvus-db'', js ''milvus''], Some (js ''milvus'')),
     ([js ''apache-iotdb'', js ''apache_iotdb''], Some (js ''iotdb'')),
     ([js ''rocketmq'', js ''rocket-mq'', js ''rocket_mq'', js ''apache-rocketmq'',
       js ''apache_rocketmq'', js ''rmq''], Some (js ''rocketmq'')),
     ([js ''mqtt'', js ''mqtts''], Some (js ''mqtt'')),
     ([js ''kafka'', js ''apache-kafka'', js ''apache_kafka''], Some (js ''kafka'')),
     ([js ''rabbitmq'', js ''rabbit-mq'', js ''rabbit_mq''], Some (js ''rabbitmq'')),
     ([js ''pulsar'', js ''apache-pulsar'', js ''apache_pulsar''], Some (js ''pulsar''))]"

definition dialectFragments :: "(js_string list \<times> js_string) list" where
  "dialectFragments =
    [([js ''opengauss'', js ''open_gauss'', js ''open-gauss''], js ''opengauss''),
     ([js ''gaussdb'', js ''gauss_db'', js ''gauss-db''], js ''gaussdb''),
     ([js ''postgres''], js ''postgres''),
     ([js ''oceanbase''], js ''oceanbase''),
     ([js ''mariadb''], js ''mariadb''),
     ([js ''goldendb'', js ''greatdb''], js ''mysql''),
     ([js ''mysql''], js ''mysql''),
     ([js ''doris'', js ''diros''], js ''diros''),
     ([js ''starrocks''], js ''starrocks''),
     ([js ''sphinx''], js ''sphinx''),
     ([js ''kingbase''], js ''kingbase''),
     ([js ''highgo''], js ''highgo''),
     ([js ''vastbase''], js ''vastbase''),
     ([js ''oracle''], js ''oracle''),
     ([js ''dameng'', js ''dm8''], js ''dameng''),
     ([js ''sqlite''], js ''sqlite''),
     ([js ''duckdb''], js ''duckdb''),
     ([js ''clickhouse''], js ''clickhouse''),
     ([js ''tdengine''], js ''tdengine''),
     ([js ''iotdb''], js ''iotdb''),
     ([js ''rocketmq'', js ''rocket-mq'', js ''rocket_mq''], js ''rocketmq''),
     ([js ''mqtt''], js ''mqtt''),
     ([js ''kafka''], js ''kafka''),
     ([js ''rabbitmq'', js ''rabbit-mq'', js ''rabbit_mq''], js ''rabbitmq''),
     ([js ''pulsar''], js ''pulsar''),
     ([js ''sqlserver'', js ''mssql''], js ''sqlserver''),
     ([js ''iris'', js ''intersystems''], js ''iris''),
     ([js ''elastic''], js ''elasticsearch''),
     ([js ''chroma''], js ''chroma''),
     ([js ''qdrant''], js ''qdrant''),
     ([js ''milvus''], js ''milvus'')]"

text \<open>For evaluation, with the literals as lists of code units.\<close>

lemmas dialectCases_code [code] = dialectCases_def [simplified]
lemmas dialectFragments_code [code] = dialectFragments_def [simplified]

definition normalizeRawDialect :: "js_string \<Rightarrow> js_string" where
  "normalizeRawDialect v = js_lower (js_trim v)"

definition resolveSource :: "js_string \<Rightarrow> js_string" where
  "resolveSource source =
     (case find (\<lambda>(labels, _). source \<in> set labels) dialectCases of
        Some (_, Some dialect) \<Rightarrow> dialect
      | Some (_, None) \<Rightarrow> source
      | None \<Rightarrow>
          (case find (\<lambda>(fragments, _). \<exists>f\<in>set fragments. js_includes source f) dialectFragments of
             Some (_, dialect) \<Rightarrow> dialect
           | None \<Rightarrow> source))"

definition resolveSqlDialect :: "js_string \<Rightarrow> js_string \<Rightarrow> js_string \<Rightarrow> js_string" where
  "resolveSqlDialect rawType rawDriver protocol =
     (let normalized = normalizeRawDialect rawType;
          driver = normalizeRawDialect rawDriver;
          source = (if normalized = js ''custom'' then driver else normalized) in
      if source = [] then js ''unknown''
      else if source = js ''oceanbase'' \<and> resolveOceanBaseProtocolForDialect protocol = ObOracle
        then js ''oracle''
      else resolveSource source)"

text \<open>\<open>resolveSqlDialect(dbType)\<close> with the default arguments.\<close>

abbreviation dialectOf :: "js_string \<Rightarrow> js_string" where
  "dialectOf dbType \<equiv> resolveSqlDialect dbType [] []"

definition isMysqlFamilyDialect :: "js_string \<Rightarrow> bool" where
  "isMysqlFamilyDialect dbType \<longleftrightarrow>
     dialectOf dbType \<in> set [js ''mysql'', js ''mariadb'', js ''oceanbase'', js ''diros'',
       js ''starrocks'', js ''sphinx'', js ''tidb'']"

definition isPgLikeDialect :: "js_string \<Rightarrow> bool" where
  "isPgLikeDialect dbType \<longleftrightarrow>
     dialectOf dbType \<in> set [js ''postgres'', js ''kingbase'', js ''highgo'', js ''vastbase'',
       js ''opengauss'', js ''gaussdb'']"

definition isOracleLikeDialect :: "js_string \<Rightarrow> bool" where
  "isOracleLikeDialect dbType \<longleftrightarrow> dialectOf dbType \<in> set [js ''oracle'', js ''dameng'', js ''dm'']"

definition isSqlServerDialect :: "js_string \<Rightarrow> bool" where
  "isSqlServerDialect dbType \<longleftrightarrow> dialectOf dbType = js ''sqlserver''"

section \<open>Table aliases\<close>

datatype tableAliasSyntax = AliasAs | AliasBare | AliasNone

definition resolveTableAliasSyntax :: "js_string \<Rightarrow> tableAliasSyntax" where
  "resolveTableAliasSyntax dbType =
     (let dialect = dialectOf dbType in
      if dialect \<in> set [js ''mysql'', js ''mariadb'', js ''tidb'', js ''oceanbase'', js ''diros'',
           js ''starrocks'', js ''postgres'', js ''kingbase'', js ''highgo'', js ''vastbase'',
           js ''opengauss'', js ''gaussdb'', js ''sqlserver'', js ''sqlite'', js ''duckdb'',
           js ''clickhouse'', js ''tdengine'', js ''trino''] then AliasAs
      else if dialect \<in> set [js ''oracle'', js ''dameng'', js ''sphinx'', js ''iris''] then AliasBare
      else AliasNone)"

definition appendTableAlias :: "js_string \<Rightarrow> js_string \<Rightarrow> js_string \<Rightarrow> js_string" where
  "appendTableAlias tableName alias dbType =
     (if alias = [] then tableName
      else
        (let pre = (if tableName = [] then [] else tableName @ js '' '') in
         case resolveTableAliasSyntax dbType of
           AliasAs \<Rightarrow> pre @ js ''AS '' @ alias
         | AliasBare \<Rightarrow> pre @ alias
         | AliasNone \<Rightarrow> tableName))"

section \<open>Quoting identifiers\<close>

definition isBacktickIdentifierDialect :: "js_string \<Rightarrow> bool" where
  "isBacktickIdentifierDialect dbType \<longleftrightarrow>
     isMysqlFamilyDialect dbType
     \<or> dialectOf dbType \<in> set [js ''clickhouse'', js ''tdengine'', js ''iotdb'']"

text \<open>The module's own \<open>stripIdentifierQuotes\<close>, exported as \<open>unquoteSqlIdentifierPart\<close>.\<close>

definition unquoteSqlIdentifierPart :: "js_string \<Rightarrow> js_string \<Rightarrow> js_string" where
  "unquoteSqlIdentifierPart part dbType =
     (let text = js_trim part in
      if text = [] then []
      else
        (let dialect = (if dbType = [] then [] else dialectOf dbType);
             segments = splitQualifiedNameSegmentsDetailed text dialect in
         if length segments = 1 \<and> seg_quoted (segments ! 0) then seg_value (segments ! 0)
         else text))"

definition escapeBacktickIdentifier :: "js_string \<Rightarrow> js_string" where
  "escapeBacktickIdentifier v = js_double 96 v"

definition escapeDoubleQuoteIdentifier :: "js_string \<Rightarrow> js_string" where
  "escapeDoubleQuoteIdentifier v = js_double 34 v"

definition escapeBracketIdentifier :: "js_string \<Rightarrow> js_string" where
  "escapeBracketIdentifier v = js_double 93 v"

definition needsPgLikeQuote :: "js_string \<Rightarrow> bool" where
  "needsPgLikeQuote ident \<longleftrightarrow>
     \<not> (case ident of [] \<Rightarrow> False
        | c # cs \<Rightarrow> (ascii_lower c \<or> c = 95) \<and> (\<forall>d\<in>set cs. ascii_lower d \<or> ascii_digit d \<or> d = 95))"

definition unquoteSqlIdentifierPath :: "js_string \<Rightarrow> js_string \<Rightarrow> js_string" where
  "unquoteSqlIdentifierPath path dbType =
     dotted (filter (\<lambda>s. s \<noteq> []) (splitQualifiedNameSegments path dbType))"

definition quoteSqlIdentifierPart :: "js_string \<Rightarrow> js_string \<Rightarrow> js_string" where
  "quoteSqlIdentifierPart dbType part =
     (let dialect = dialectOf dbType; ident = unquoteSqlIdentifierPart part dialect in
      if ident = [] then []
      else if isBacktickIdentifierDialect dialect then
        js ''`'' @ escapeBacktickIdentifier ident @ js ''`''
      else if isSqlServerDialect dialect then js ''['' @ escapeBracketIdentifier ident @ js '']''
      else if isPgLikeDialect dialect then
        (if needsPgLikeQuote ident then [34] @ escapeDoubleQuoteIdentifier ident @ [34] else ident)
      else [34] @ escapeDoubleQuoteIdentifier ident @ [34])"

definition quoteSqlIdentifierPath :: "js_string \<Rightarrow> js_string \<Rightarrow> js_string" where
  "quoteSqlIdentifierPath dbType path =
     (let dialect = dialectOf dbType in
      dotted (map (\<lambda>segment. quoteSqlIdentifierPart dialect (seg_raw segment))
        (filter (\<lambda>segment. seg_value segment \<noteq> [])
          (splitQualifiedNameSegmentsDetailed path dialect))))"

section \<open>Dialects are normal forms\<close>

text \<open>The names the tables return.\<close>

definition dialectNames :: "js_string list" where
  "dialectNames =
    [js ''unknown'', js ''postgres'', js ''opengauss'', js ''gaussdb'', js ''sqlserver'',
     js ''iris'', js ''diros'', js ''starrocks'', js ''dameng'', js ''sqlite'', js ''sphinx'',
     js ''kingbase'', js ''mysql'', js ''mariadb'', js ''oceanbase'', js ''highgo'',
     js ''vastbase'', js ''oracle'', js ''duckdb'', js ''clickhouse'', js ''tdengine'',
     js ''iotdb'', js ''mongodb'', js ''redis'', js ''elasticsearch'', js ''chroma'',
     js ''qdrant'', js ''milvus'', js ''rocketmq'', js ''mqtt'', js ''kafka'', js ''rabbitmq'',
     js ''pulsar'']"

lemma dialect_names_fixed: "\<forall>d\<in>set dialectNames. dialectOf d = d"
  by code_simp

lemma case_results:
  "\<forall>e\<in>set dialectCases. (case snd e of Some d \<Rightarrow> d \<in> set dialectNames | None \<Rightarrow> set (fst e) \<subseteq> set dialectNames)"
  by (simp add: dialectCases_code dialectNames_def)

lemma fragment_results: "\<forall>e\<in>set dialectFragments. snd e \<in> set dialectNames"
  by (simp add: dialectFragments_code dialectNames_def)

lemma resolveSource_cases: "resolveSource s \<in> set dialectNames \<or> resolveSource s = s"
proof (cases "find (\<lambda>(labels, _). s \<in> set labels) dialectCases")
  case None
  show ?thesis
  proof (cases "find (\<lambda>(fragments, _). \<exists>f\<in>set fragments. js_includes s f) dialectFragments")
    case (Some e)
    with fragment_results have "snd e \<in> set dialectNames" by (blast dest: find_SomeD)
    with None Some show ?thesis by (cases e) (simp add: resolveSource_def)
  qed (simp add: resolveSource_def None)
next
  case (Some e)
  then have "case snd e of Some d \<Rightarrow> d \<in> set dialectNames | None \<Rightarrow> True"
    using case_results by (auto dest!: find_SomeD split: option.splits)
  with Some show ?thesis
    by (cases e; cases "snd e") (simp_all add: resolveSource_def)
qed

lemma oceanbase_default: "resolveOceanBaseProtocolForDialect [] = ObMysql"
  by code_simp

lemma dialectOf_source:
  "s \<noteq> [] \<Longrightarrow> s \<noteq> js ''custom'' \<Longrightarrow> js_lower (js_trim s) = s \<Longrightarrow> dialectOf s = resolveSource s"
  by (simp only: resolveSqlDialect_def normalizeRawDialect_def Let_def oceanbase_default) simp

lemma dialect_fixed:
  assumes "resolveSqlDialect rawType rawDriver protocol \<noteq> js ''custom''"
  shows "dialectOf (resolveSqlDialect rawType rawDriver protocol)
    = resolveSqlDialect rawType rawDriver protocol"
proof -
  let ?d = "resolveSqlDialect rawType rawDriver protocol"
  let ?s = "if normalizeRawDialect rawType = js ''custom'' then normalizeRawDialect rawDriver
    else normalizeRawDialect rawType"
  have s: "js_lower (js_trim ?s) = ?s" by (simp add: normalizeRawDialect_def del: js_Cons)
  have fixed: "d \<in> set dialectNames \<Longrightarrow> dialectOf d = d" for d
    using dialect_names_fixed by blast
  have names: "js ''unknown'' \<in> set dialectNames" "js ''oracle'' \<in> set dialectNames"
    by (simp_all add: dialectNames_def)
  have "?d = js ''unknown'' \<or> ?d = js ''oracle'' \<or> (?s \<noteq> [] \<and> ?d = resolveSource ?s)"
    by (simp add: resolveSqlDialect_def Let_def del: js_Cons split del: if_split) meson
  then consider "?d \<in> set dialectNames" | "?s \<noteq> []" "?d = ?s" "resolveSource ?s = ?s"
    using names resolveSource_cases [of ?s] by (elim disjE conjE) (simp_all del: js_Cons split del: if_split)
  then show ?thesis
  proof cases
    case 1
    then show ?thesis by (rule fixed)
  next
    case 2
    with assms have "?s \<noteq> js ''custom''" by simp
    from dialectOf_source [OF 2(1) this s] 2 show ?thesis by simp
  qed
qed

text \<open>
  Resolving a dialect gives a normal form: the result resolves to itself, whatever type, driver
  and protocol it came from. (A connection of type custom whose driver is itself called custom is
  the one exception.)
\<close>

lemma dialect_normal_form:
  assumes "resolveSqlDialect rawType rawDriver protocol \<noteq> js ''custom''"
  shows "resolveSqlDialect (resolveSqlDialect rawType rawDriver protocol) [] []
    = resolveSqlDialect rawType rawDriver protocol"
  using assms by (rule dialect_fixed)

lemma dialect_normal_form_witness:
  "resolveSqlDialect (resolveSqlDialect (js ''Custom'') (js '' MSSQL '') []) [] [] = js ''sqlserver''"
proof -
  have d: "resolveSqlDialect (js ''Custom'') (js '' MSSQL '') [] = js ''sqlserver''" by code_simp
  then have "resolveSqlDialect (js ''Custom'') (js '' MSSQL '') [] \<noteq> js ''custom''" by simp
  from dialect_normal_form [OF this] d show ?thesis by simp
qed

section \<open>Quoted names read back\<close>

lemma dialectOf_nonempty [simp]: "dialectOf db \<noteq> []"
proof
  assume e: "dialectOf db = []"
  have "[] \<notin> set dialectNames" by (simp add: dialectNames_def)
  with e show False
    using resolveSource_cases [of "normalizeRawDialect db"]
    by (auto simp: resolveSqlDialect_def Let_def normalizeRawDialect_def split: if_splits)
qed

lemma dialectOf_not_custom: "dialectOf db \<noteq> js ''custom''"
proof
  assume e: "dialectOf db = js ''custom''"
  have c: "js ''custom'' \<notin> set dialectNames" by (simp add: dialectNames_def)
  show False
  proof (cases "normalizeRawDialect db = js ''custom''")
    case True
    with e show False by (simp add: resolveSqlDialect_def normalizeRawDialect_def js_lower_def)
  next
    case False
    with e c show False
      using resolveSource_cases [of "normalizeRawDialect db"]
      by (auto simp: resolveSqlDialect_def Let_def simp del: js_Cons split: if_splits) (simp_all)
  qed
qed

lemma dialectOf_idem [simp]: "dialectOf (dialectOf db) = dialectOf db"
  by (rule dialect_fixed [OF dialectOf_not_custom])

definition writable :: "js_string \<Rightarrow> js_string \<Rightarrow> bool" where
  "writable db v \<longleftrightarrow> v \<noteq> [] \<and> readable v \<and> unquoteSqlIdentifierPart v (dialectOf db) = v"

lemma enclosed_text: "enclosed l r v = [l] @ js_double r v @ [r]"
  by (simp add: enclosed_def)

lemma plain_name_pg: "\<not> needsPgLikeQuote v \<Longrightarrow> plain_name v"
  by (auto simp: needsPgLikeQuote_def plain_name_def js_word_def ascii_alpha_def split: list.splits)

lemma quoteSqlIdentifierPart_cases:
  assumes "writable db v"
  shows "quoteSqlIdentifierPart db v = enclosed 96 96 v
    \<or> (dialectOf db = js ''sqlserver'' \<and> quoteSqlIdentifierPart db v = enclosed 91 93 v)
    \<or> quoteSqlIdentifierPart db v = enclosed 34 34 v
    \<or> (plain_name v \<and> quoteSqlIdentifierPart db v = v)"
  using assms
  by (auto simp: quoteSqlIdentifierPart_def writable_def Let_def enclosed_text plain_name_pg
      escapeBacktickIdentifier_def escapeBracketIdentifier_def escapeDoubleQuoteIdentifier_def
      isSqlServerDialect_def)

lemma sqlserver_brackets:
  "supportsBracketIdentifier (js ''sqlserver'')" "supportsEscapedBracketIdentifier (js ''sqlserver'')"
  by code_simp+

interpretation dialect_names: name_style "quoteSqlIdentifierPart db" "writable db" "dialectOf db" for db
proof (rule name_style_choice)
  fix v assume w: "writable db v"
  then have "readable v" by (simp add: writable_def)
  then show "\<exists>r P. name_style r P (dialectOf db) \<and> P v \<and> quoteSqlIdentifierPart db v = r v"
    using quoteSqlIdentifierPart_cases [OF w] double_quoted.name_style_axioms
      backticked.name_style_axioms unquoted.name_style_axioms
      bracketed_style [OF sqlserver_brackets] by metis
qed

lemma unquote_quoted:
  assumes "writable db v"
  shows "unquoteSqlIdentifierPart (quoteSqlIdentifierPart db v) (dialectOf db) = v"
proof -
  let ?w = "quoteSqlIdentifierPart db v"
  have t: "js_trim ?w = ?w" "?w \<noteq> []"
    using dialect_names.trim_render [OF assms] dialect_names.tight [OF assms] by auto
  have "splitQualifiedNameSegmentsDetailed ?w (dialectOf db)
      = [\<lparr>seg_raw = ?w, seg_value = v, seg_quoted = isQuotedIdentifier ?w (dialectOf db)\<rparr>]"
    using dialect_names.split_detailed [of "[v]" db] assms by (simp add: dotted_def)
  moreover have "isQuotedIdentifier ?w (dialectOf db) \<or> ?w = v"
  proof -
    have n: "normalizeIdentifierEscapes ?w = ?w"
      using dialect_names.plain [OF assms] t by (simp add: normalize_no_backslash)
    have "(2 \<le> length ?w \<and> ((hd ?w = 34 \<and> last ?w = 34) \<or> (hd ?w = 96 \<and> last ?w = 96)
        \<or> (supportsBracketIdentifier (dialectOf db) \<and> hd ?w = 91 \<and> last ?w = 93))) \<or> ?w = v"
      using quoteSqlIdentifierPart_cases [OF assms] sqlserver_brackets
      by (elim disjE conjE) (simp_all add: enclosed_def)
    then show ?thesis by (simp add: isQuotedIdentifier_def n Let_def)
  qed
  ultimately show ?thesis using t by (auto simp: unquoteSqlIdentifierPart_def Let_def)
qed

text \<open>
  C25. Quoting a path loses nothing: whatever the names are (dots, quotes, brackets and spaces
  inside included), splitting the path of the quoted names with the dialect's own rules gives the
  names back, and quoting a path that is already quoted changes nothing. The names must be free of
  backslashes (the parser drops the backslash before a quote) and not themselves be quoted.
\<close>

theorem quoted_path_roundtrip:
  assumes "\<forall>v\<in>set vs. v \<noteq> [] \<and> 92 \<notin> set v \<and> unquoteSqlIdentifierPart v (dialectOf db) = v"
  shows "splitQualifiedNameSegments (dotted (map (quoteSqlIdentifierPart db) vs)) (dialectOf db) = vs
    \<and> quoteSqlIdentifierPath db (dotted (map (quoteSqlIdentifierPart db) vs))
        = dotted (map (quoteSqlIdentifierPart db) vs)"
proof
  have w: "\<forall>v\<in>set vs. writable db v" using assms by (simp add: writable_def)
  then show "splitQualifiedNameSegments (dotted (map (quoteSqlIdentifierPart db) vs)) (dialectOf db) = vs"
    by (rule dialect_names.split_dotted)
  have again: "quoteSqlIdentifierPart (dialectOf db) (quoteSqlIdentifierPart db v)
      = quoteSqlIdentifierPart db v" if "writable db v" for v
    using unquote_quoted [OF that] that
    by (simp add: quoteSqlIdentifierPart_def [of "dialectOf db"] quoteSqlIdentifierPart_def [of db v]
        writable_def)
  show "quoteSqlIdentifierPath db (dotted (map (quoteSqlIdentifierPart db) vs))
        = dotted (map (quoteSqlIdentifierPart db) vs)"
    using w again
    by (simp add: quoteSqlIdentifierPath_def dialect_names.split_detailed [OF w] filter_map comp_def
        writable_def cong: map_cong)
qed

theorem quoted_path_roundtrip_witness:
  "splitQualifiedNameSegments (dotted (map (quoteSqlIdentifierPart (js ''pg''))
     [js ''my.schema'', js ''users'', [97, 34, 98]])) (dialectOf (js ''pg''))
   = [js ''my.schema'', js ''users'', [97, 34, 98]]"
proof -
  have "\<forall>v\<in>set [js ''my.schema'', js ''users'', [97, 34, 98]].
      v \<noteq> [] \<and> 92 \<notin> set v \<and> unquoteSqlIdentifierPart v (dialectOf (js ''pg'')) = v"
    by code_simp
  from quoted_path_roundtrip [OF this] show ?thesis by blast
qed

end
