(* ===== verification/QueryAutoLimit.thy ===== *)
theory QueryAutoLimit
  imports SqlDialect SqlBuild SqlSplit
begin

text \<open>
  \<open>src/frontend/src/utils/queryAutoLimit.ts\<close>: the automatic row limit of the query editor. Its four
  scanners share the lexical part of their loop bodies line by line; \<open>codeStep\<close> is that part, with
  the one difference (whether \<open>#\<close> opens a comment) as a parameter, and every scanner adds what it
  does at a character of the code itself. \<open>splitSqlTail\<close>, whose order of the checks differs, has a
  body of its own.
\<close>

section \<open>The shared lexical state\<close>

definition isWS :: "nat \<Rightarrow> bool" where
  [char_defs]: "isWS ch \<longleftrightarrow> ch = 32 \<or> ch = 9 \<or> ch = 10 \<or> ch = 13"

abbreviation isWord :: "nat \<Rightarrow> bool" where
  "isWord \<equiv> js_word"

record codeState =
  cs_index :: nat
  cs_inSingle :: bool
  cs_inDouble :: bool
  cs_inBacktick :: bool
  cs_escaped :: bool
  cs_inLineComment :: bool
  cs_inBlockComment :: bool
  cs_dollarTag :: "js_string option"

definition codeInit :: codeState where
  "codeInit = \<lparr>cs_index = 0, cs_inSingle = False, cs_inDouble = False, cs_inBacktick = False,
     cs_escaped = False, cs_inLineComment = False, cs_inBlockComment = False, cs_dollarTag = None\<rparr>"

abbreviation cs_move :: "nat \<Rightarrow> codeState \<Rightarrow> codeState" where
  "cs_move n s \<equiv> s\<lparr>cs_index := cs_index s + n\<rparr>"

text \<open>Comments and dollar quotes; \<open>None\<close> when the body goes on to the quotes. (A tag is never empty;
  \<open>i += tag.length - 1\<close> is followed by the \<open>i++\<close> of the loop.)\<close>

definition codeComment :: "bool \<Rightarrow> js_string \<Rightarrow> js_string \<Rightarrow> codeState \<Rightarrow> codeState option" where
  "codeComment hash text dbType s =
     (let i = cs_index s; ch = text ! i; next = js_at text (i + 1); next2 = js_at text (i + 2) in
      if cs_inLineComment s then Some ((cs_move 1 s)\<lparr>cs_inLineComment := ch \<noteq> 10\<rparr>)
      else if cs_inBlockComment s then
        (if ch = cu CHR ''*'' \<and> next = Some (cu CHR ''/'')
         then Some ((cs_move 2 s)\<lparr>cs_inBlockComment := False\<rparr>) else Some (cs_move 1 s))
      else if ch = cu CHR ''/'' \<and> next = Some (cu CHR ''*'') then
        Some ((cs_move 2 s)\<lparr>cs_inBlockComment := True\<rparr>)
      else if hash \<and> ch = cu CHR ''#'' then Some ((cs_move 1 s)\<lparr>cs_inLineComment := True\<rparr>)
      else if ch = cu CHR ''-'' \<and> next = Some (cu CHR ''-'') \<and> isSqlDashLineCommentStart dbType next2 then
        Some ((cs_move 2 s)\<lparr>cs_inLineComment := True\<rparr>)
      else
        (case cs_dollarTag s of
           Some tag \<Rightarrow>
             (if js_starts_at tag text i then Some ((cs_move (length tag - 1 + 1) s)\<lparr>cs_dollarTag := None\<rparr>)
              else Some (cs_move 1 s))
         | None \<Rightarrow>
             (case dollarTagAt text i of
                Some tag \<Rightarrow> Some ((cs_move (length tag - 1 + 1) s)\<lparr>cs_dollarTag := Some tag\<rparr>)
              | None \<Rightarrow> None)))"

text \<open>Escapes and quotes; \<open>None\<close> at a character of the code.\<close>

definition codeQuotes :: "js_string \<Rightarrow> codeState \<Rightarrow> codeState option" where
  "codeQuotes text s =
     (let ch = text ! cs_index s in
      if cs_escaped s then Some ((cs_move 1 s)\<lparr>cs_escaped := False\<rparr>)
      else if (cs_inSingle s \<or> cs_inDouble s) \<and> ch = 92 then Some ((cs_move 1 s)\<lparr>cs_escaped := True\<rparr>)
      else if \<not> cs_inDouble s \<and> \<not> cs_inBacktick s \<and> ch = 39 then
        Some ((cs_move 1 s)\<lparr>cs_inSingle := \<not> cs_inSingle s\<rparr>)
      else if \<not> cs_inSingle s \<and> \<not> cs_inBacktick s \<and> ch = 34 then
        Some ((cs_move 1 s)\<lparr>cs_inDouble := \<not> cs_inDouble s\<rparr>)
      else if \<not> cs_inSingle s \<and> \<not> cs_inDouble s \<and> ch = 96 then
        Some ((cs_move 1 s)\<lparr>cs_inBacktick := \<not> cs_inBacktick s\<rparr>)
      else if cs_inSingle s \<or> cs_inDouble s \<or> cs_inBacktick s \<or> cs_dollarTag s \<noteq> None then Some (cs_move 1 s)
      else None)"

definition codeStep :: "bool \<Rightarrow> js_string \<Rightarrow> js_string \<Rightarrow> codeState \<Rightarrow> codeState option" where
  "codeStep hash text dbType s =
     (case (if \<not> cs_inSingle s \<and> \<not> cs_inDouble s \<and> \<not> cs_inBacktick s
            then codeComment hash text dbType s else None) of
        Some s' \<Rightarrow> Some s'
      | None \<Rightarrow> codeQuotes text s)"

section \<open>The leading keyword\<close>

definition leadingStep :: "js_string \<Rightarrow> js_string \<Rightarrow> codeState \<Rightarrow> (codeState, js_string) flow" where
  "leadingStep text dbType s =
     (case codeStep True text dbType s of
        Some s' \<Rightarrow> Continue s'
      | None \<Rightarrow>
          (let i = cs_index s; ch = text ! i in
           if isWS ch then Continue (cs_move 1 s)
           else if isWord ch then Return (js_lower (js_slice text i (skip_while isWord text i)))
           else Return []))"

definition getLeadingKeyword :: "js_string \<Rightarrow> js_string \<Rightarrow> js_string" where
  "getLeadingKeyword sql dbType =
     (let text = crlf_to_lf sql in
      loop_result [] (scan_loop cs_index (length text) (leadingStep text dbType) codeInit))"

section \<open>Statement and tail\<close>

record tailState = codeState +
  ts_lastMeaningful :: "nat option"

abbreviation ts_move :: "nat \<Rightarrow> tailState \<Rightarrow> tailState" where
  "ts_move n s \<equiv> s\<lparr>cs_index := cs_index s + n\<rparr>"

definition tailOutside :: "js_string \<Rightarrow> js_string \<Rightarrow> tailState \<Rightarrow> tailState option" where
  "tailOutside text dbType s =
     (let i = cs_index s; ch = text ! i; next = js_at text (i + 1); next2 = js_at text (i + 2) in
      case cs_dollarTag s of
        Some tag \<Rightarrow>
          (if js_starts_at tag text i then
             Some ((ts_move (length tag - 1 + 1) s)\<lparr>ts_lastMeaningful := Some (i + length tag - 1), cs_dollarTag := None\<rparr>)
           else if \<not> isWS ch then Some ((ts_move 1 s)\<lparr>ts_lastMeaningful := Some i\<rparr>)
           else Some (ts_move 1 s))
      | None \<Rightarrow>
          if cs_inLineComment s then Some ((ts_move 1 s)\<lparr>cs_inLineComment := ch \<noteq> 10\<rparr>)
          else if cs_inBlockComment s then
            (if ch = cu CHR ''*'' \<and> next = Some (cu CHR ''/'')
             then Some ((ts_move 2 s)\<lparr>cs_inBlockComment := False\<rparr>) else Some (ts_move 1 s))
          else if ch = cu CHR ''/'' \<and> next = Some (cu CHR ''*'') then
            Some ((ts_move 2 s)\<lparr>cs_inBlockComment := True\<rparr>)
          else if ch = cu CHR ''#'' then Some ((ts_move 1 s)\<lparr>cs_inLineComment := True\<rparr>)
          else if ch = cu CHR ''-'' \<and> next = Some (cu CHR ''-'') \<and> isSqlDashLineCommentStart dbType next2 then
            Some ((ts_move 2 s)\<lparr>cs_inLineComment := True\<rparr>)
          else
            (case dollarTagAt text i of
               Some tag \<Rightarrow> Some ((ts_move (length tag - 1 + 1) s)
                 \<lparr>cs_dollarTag := Some tag, ts_lastMeaningful := Some (i + length tag - 1)\<rparr>)
             | None \<Rightarrow> None))"

definition tailQuotes :: "js_string \<Rightarrow> tailState \<Rightarrow> tailState" where
  "tailQuotes text s =
     (let ch = text ! cs_index s in
      if cs_escaped s then s\<lparr>cs_escaped := False\<rparr>
      else if (cs_inSingle s \<or> cs_inDouble s) \<and> ch = 92 then s\<lparr>cs_escaped := True\<rparr>
      else if \<not> cs_inDouble s \<and> \<not> cs_inBacktick s \<and> ch = 39 then s\<lparr>cs_inSingle := \<not> cs_inSingle s\<rparr>
      else if \<not> cs_inSingle s \<and> \<not> cs_inBacktick s \<and> ch = 34 then s\<lparr>cs_inDouble := \<not> cs_inDouble s\<rparr>
      else if \<not> cs_inSingle s \<and> \<not> cs_inDouble s \<and> ch = 96 then s\<lparr>cs_inBacktick := \<not> cs_inBacktick s\<rparr>
      else s)"

definition tailStep :: "js_string \<Rightarrow> js_string \<Rightarrow> tailState \<Rightarrow> (tailState, unit) flow" where
  "tailStep text dbType s =
     (case (if \<not> cs_inSingle s \<and> \<not> cs_inDouble s \<and> \<not> cs_inBacktick s
            then tailOutside text dbType s else None) of
        Some s' \<Rightarrow> Continue s'
      | None \<Rightarrow>
          (let i = cs_index s; s' = tailQuotes text s in
           Continue (ts_move 1
             (if \<not> cs_inLineComment s' \<and> \<not> cs_inBlockComment s' \<and> \<not> isWS (text ! i)
              then s'\<lparr>ts_lastMeaningful := Some i\<rparr> else s'))))"

definition tailInit :: tailState where
  "tailInit = codeState.extend codeInit (tailState.fields None)"

text \<open>The loop that takes white space and delimiters off the end of the statement.\<close>

fun mainEndLoop :: "js_string \<Rightarrow> nat \<Rightarrow> nat" where
  "mainEndLoop text 0 = 0"
| "mainEndLoop text (Suc e) =
     (if isWS (text ! e) \<or> isDelimiter (text ! e) then mainEndLoop text e else Suc e)"

definition lastMeaningful :: "js_string \<Rightarrow> js_string \<Rightarrow> nat option" where
  "lastMeaningful text dbType =
     (case scan_loop cs_index (length text) (tailStep text dbType) tailInit of
        Continue s \<Rightarrow> ts_lastMeaningful s | Return _ \<Rightarrow> None)"

definition splitSqlTail :: "js_string \<Rightarrow> js_string \<Rightarrow> splitClause" where
  "splitSqlTail sql dbType =
     (let text = crlf_to_lf sql in
      case lastMeaningful text dbType of
        None \<Rightarrow> \<lparr>sc_main = [], sc_tail = text\<rparr>
      | Some l \<Rightarrow>
          (let mainEnd = mainEndLoop text (l + 1) in
           \<lparr>sc_main = take mainEnd text, sc_tail = drop mainEnd text\<rparr>))"

section \<open>Keywords at the top level\<close>

record depthState = codeState +
  ds_parenDepth :: nat
  ds_skippedLeadingWith :: bool

abbreviation ds_move :: "nat \<Rightarrow> depthState \<Rightarrow> depthState" where
  "ds_move n s \<equiv> s\<lparr>cs_index := cs_index s + n\<rparr>"

definition depthInit :: depthState where
  "depthInit = codeState.extend codeInit (depthState.fields 0 False)"

text \<open>A step of the lexical state inside the larger record.\<close>

definition depthLift :: "codeState \<Rightarrow> depthState \<Rightarrow> depthState" where
  "depthLift c s = codeState.extend c (depthState.fields (ds_parenDepth s) (ds_skippedLeadingWith s))"

text \<open>The lexical part and the parentheses; \<open>None\<close> at a code character of depth 0.\<close>

definition depthStep :: "bool \<Rightarrow> js_string \<Rightarrow> js_string \<Rightarrow> depthState \<Rightarrow> depthState option" where
  "depthStep hash text dbType s =
     (case codeStep hash text dbType (codeState.truncate s) of
        Some c \<Rightarrow> Some (depthLift c s)
      | None \<Rightarrow>
          (let ch = text ! cs_index s in
           if ch = cu CHR ''('' then Some ((ds_move 1 s)\<lparr>ds_parenDepth := ds_parenDepth s + 1\<rparr>)
           else if ch = cu CHR '')'' then Some ((ds_move 1 s)\<lparr>ds_parenDepth := ds_parenDepth s - 1\<rparr>)
           else if ds_parenDepth s \<noteq> 0 then Some (ds_move 1 s)
           else None))"

definition keywordMatch :: "js_string \<Rightarrow> js_string \<Rightarrow> nat \<Rightarrow> bool" where
  "keywordMatch text kw i \<longleftrightarrow>
     isWord (text ! i) \<and> js_lower (js_slice text i (i + length kw)) = kw
     \<and> \<not> ((0 < i \<and> js_at_is text (i - 1) isWord) \<or> js_at_is text (i + length kw) isWord)"

definition keywordStep ::
  "js_string \<Rightarrow> js_string \<Rightarrow> js_string \<Rightarrow> depthState \<Rightarrow> (depthState, nat) flow" where
  "keywordStep text kw dbType s =
     (case depthStep True text dbType s of
        Some s' \<Rightarrow> Continue s'
      | None \<Rightarrow> if keywordMatch text kw (cs_index s) then Return (cs_index s) else Continue (ds_move 1 s))"

definition findTopLevelKeyword :: "js_string \<Rightarrow> js_string \<Rightarrow> js_string \<Rightarrow> nat option" where
  "findTopLevelKeyword sql keyword dbType =
     loop_result None
       (case scan_loop cs_index (length sql) (keywordStep sql (js_lower keyword) dbType) depthInit of
          Return i \<Rightarrow> Return (Some i) | Continue s \<Rightarrow> Continue s)"

section \<open>Oracle sequences\<close>

record sequenceState =
  sq_index :: nat
  sq_inSingle :: bool
  sq_inDouble :: bool
  sq_inBacktick :: bool
  sq_inLineComment :: bool
  sq_inBlockComment :: bool

abbreviation sq_move :: "nat \<Rightarrow> sequenceState \<Rightarrow> sequenceState" where
  "sq_move n s \<equiv> s\<lparr>sq_index := sq_index s + n\<rparr>"

definition sequenceStep :: "js_string \<Rightarrow> sequenceState \<Rightarrow> (sequenceState, bool) flow" where
  "sequenceStep text s =
     (let i = sq_index s; ch = text ! i; next = js_at text (i + 1);
          quoted = sq_inSingle s \<or> sq_inDouble s \<or> sq_inBacktick s in
      if sq_inLineComment s then Continue ((sq_move 1 s)\<lparr>sq_inLineComment := ch \<noteq> 10\<rparr>)
      else if sq_inBlockComment s then
        (if ch = cu CHR ''*'' \<and> next = Some (cu CHR ''/'')
         then Continue ((sq_move 2 s)\<lparr>sq_inBlockComment := False\<rparr>) else Continue (sq_move 1 s))
      else if \<not> quoted \<and> ch = cu CHR ''-'' \<and> next = Some (cu CHR ''-'') then
        Continue ((sq_move 2 s)\<lparr>sq_inLineComment := True\<rparr>)
      else if \<not> quoted \<and> ch = cu CHR ''/'' \<and> next = Some (cu CHR ''*'') then
        Continue ((sq_move 2 s)\<lparr>sq_inBlockComment := True\<rparr>)
      else if \<not> sq_inDouble s \<and> \<not> sq_inBacktick s \<and> ch = 39 then
        (if sq_inSingle s \<and> next = Some 39 then Continue (sq_move 2 s)
         else Continue ((sq_move 1 s)\<lparr>sq_inSingle := \<not> sq_inSingle s\<rparr>))
      else if \<not> sq_inSingle s \<and> \<not> sq_inBacktick s \<and> ch = 34 then
        (if sq_inDouble s \<and> next = Some 34 then Continue (sq_move 2 s)
         else Continue ((sq_move 1 s)\<lparr>sq_inDouble := \<not> sq_inDouble s\<rparr>))
      else if \<not> sq_inSingle s \<and> \<not> sq_inDouble s \<and> ch = 96 then
        Continue ((sq_move 1 s)\<lparr>sq_inBacktick := \<not> sq_inBacktick s\<rparr>)
      else if quoted \<or> ch \<noteq> cu CHR ''.'' then Continue (sq_move 1 s)
      else
        (let tokenStart = skip_while isWS text (i + 1);
             tokenEnd = skip_while isWord text tokenStart;
             token = js_lower (js_slice text tokenStart tokenEnd) in
         if token = js ''nextval'' \<or> token = js ''currval'' then Return True else Continue (sq_move 1 s)))"

definition hasOracleSequencePseudoColumn :: "js_string \<Rightarrow> bool" where
  "hasOracleSequencePseudoColumn sql =
     loop_result False (scan_loop sq_index (length sql) (sequenceStep sql)
       \<lparr>sq_index = 0, sq_inSingle = False, sq_inDouble = False, sq_inBacktick = False,
        sq_inLineComment = False, sq_inBlockComment = False\<rparr>)"

section \<open>Common table expressions\<close>

definition CTE_BODY_KEYWORDS :: "js_string list" where
  "CTE_BODY_KEYWORDS =
     [js ''select'', js ''with'', js ''values'', js ''insert'', js ''update'', js ''delete'', js ''merge'',
      js ''table'']"

definition cteStep :: "js_string \<Rightarrow> js_string \<Rightarrow> depthState \<Rightarrow> (depthState, nat) flow" where
  "cteStep text dbType s =
     (case depthStep False text dbType s of
        Some s' \<Rightarrow> Continue s'
      | None \<Rightarrow>
          (let i = cs_index s in
           if \<not> isWord (text ! i) then Continue (ds_move 1 s)
           else
             (let wordEnd = skip_while isWord text i; word = js_lower (js_slice text i wordEnd) in
              if \<not> ds_skippedLeadingWith s \<and> word = js ''with'' then
                Continue (s\<lparr>ds_skippedLeadingWith := True, cs_index := wordEnd\<rparr>)
              else if word \<in> set CTE_BODY_KEYWORDS then Return i
              else Continue (s\<lparr>cs_index := wordEnd\<rparr>))))"

definition findCteBodyStart :: "js_string \<Rightarrow> js_string \<Rightarrow> nat" where
  "findCteBodyStart sql dbType =
     (if getLeadingKeyword sql dbType \<noteq> js ''with'' then 0
      else loop_result 0 (scan_loop cs_index (length sql) (cteStep sql dbType) depthInit))"

definition limitOracleCteMainQuery :: "js_string \<Rightarrow> js_string \<Rightarrow> nat \<Rightarrow> js_string option" where
  "limitOracleCteMainQuery executableMain dbType maxRows =
     (if getLeadingKeyword executableMain dbType \<noteq> js ''with'' then None
      else
        (let bodyStart = findCteBodyStart executableMain dbType in
         if bodyStart = 0 then None
         else
           (let mainQuery = js_trim (drop bodyStart executableMain) in
            if mainQuery = [] \<or> hasOracleSequencePseudoColumn mainQuery then None
            else Some (take bodyStart executableMain @ js ''SELECT * FROM ('' @ mainQuery
              @ js '') WHERE ROWNUM <= '' @ nat_text maxRows))))"

definition isSelectStatement :: "js_string \<Rightarrow> js_string \<Rightarrow> bool" where
  "isSelectStatement sql dbType \<longleftrightarrow>
     (if js_trim sql = [] then False
      else
        (let keyword = getLeadingKeyword sql dbType in
         if keyword = js ''select'' then True
         else if keyword \<noteq> js ''with'' then False
         else
           (let bodyStart = findCteBodyStart sql dbType in
            if bodyStart = 0 then False
            else getLeadingKeyword (drop bodyStart sql) dbType = js ''select'')))"

section \<open>The automatic limit\<close>

record autoLimit =
  al_sql :: js_string
  al_applied :: bool
  al_maxRows :: int

text \<open>A keyword that stands after FROM (or anywhere, without a FROM).\<close>

definition afterFrom :: "nat option \<Rightarrow> nat option \<Rightarrow> bool" where
  "afterFrom pos fromPos \<longleftrightarrow>
     (case pos of None \<Rightarrow> False | Some p \<Rightarrow> (case fromPos of None \<Rightarrow> True | Some f \<Rightarrow> f < p))"

definition limitSqlServer :: "js_string \<Rightarrow> js_string \<Rightarrow> nat \<Rightarrow> nat \<Rightarrow> js_string" where
  "limitSqlServer executableMain tail selectPos maxRows =
     (let afterSelect = selectPos + 6;
          j = skip_space executableMain afterSelect;
          insertOffset = (if afterSelect < j \<and> kw_at (js ''distinct'') executableMain j
                            \<and> word_boundary executableMain (j + 8) then j + 8 else afterSelect) in
      take insertOffset executableMain @ js '' TOP '' @ nat_text maxRows @ drop insertOffset executableMain @ tail)"

definition limitInline :: "js_string \<Rightarrow> nat \<Rightarrow> nat \<Rightarrow> js_string" where
  "limitInline executableMain insertAt maxRows =
     (let before = js_trim_end (take insertAt executableMain);
          after = js_trim_start (drop insertAt executableMain) in
      js_trim (js_join [32] (filter (\<lambda>p. p \<noteq> []) [before, js ''LIMIT '' @ nat_text maxRows, after])))"

text \<open>\<open>maxRows\<close> is an integer; a row limit that is not finite or not positive is \<open>\<le> 0\<close>.\<close>

definition applyQueryAutoLimit :: "js_string \<Rightarrow> js_string \<Rightarrow> int \<Rightarrow> js_string \<Rightarrow> autoLimit" where
  "applyQueryAutoLimit sql dbType maxRows driver =
     (let unchanged = (\<lambda>t. \<lparr>al_sql = t, al_applied = False, al_maxRows = maxRows\<rparr>);
          limited = (\<lambda>t. \<lparr>al_sql = t, al_applied = True, al_maxRows = maxRows\<rparr>);
          rows = nat maxRows;
          normalizedType = js_lower (resolveSqlDialect (if dbType = [] then js ''mysql'' else dbType) driver []);
          cteBodyStart = (if getLeadingKeyword sql normalizedType = js ''with''
                          then findCteBodyStart sql normalizedType else 0);
          statement = splitSqlTail sql normalizedType; main = sc_main statement; tail = sc_tail statement;
          isolation = (if normalizedType = js ''dameng'' then splitTrailingIsolationClause main
                       else \<lparr>sc_main = main, sc_tail = []\<rparr>);
          executableMain = sc_main isolation;
          executableSql = executableMain @ sc_tail isolation @ tail;
          position = (\<lambda>kw. findTopLevelKeyword executableMain kw normalizedType);
          fromPos = position (js ''from'') in
      if maxRows \<le> 0 then unchanged sql
      else if \<not> isSelectStatement sql normalizedType then unchanged sql
      else if js_trim main = [] then unchanged sql
      else if afterFrom (position (js ''limit'')) fromPos then unchanged executableSql
      else if afterFrom (position (js ''fetch'')) fromPos then unchanged executableSql
      else if normalizedType = js ''sqlserver'' \<or> normalizedType = js ''mssql'' then
        (if position (js ''top'') \<noteq> None then unchanged sql
         else (case position (js ''select'') of
                 None \<Rightarrow> unchanged sql
               | Some selectPos \<Rightarrow> limited (limitSqlServer executableMain tail selectPos rows)))
      else if normalizedType = js ''oracle'' \<or> normalizedType = js ''dameng'' then
        (if position (js ''rownum'') \<noteq> None then unchanged executableSql
         else if afterFrom (position (js ''fetch'')) fromPos then unchanged executableSql
         else if afterFrom (position (js ''offset'')) fromPos then unchanged executableSql
         else if afterFrom (position (js ''for'')) fromPos then unchanged executableSql
         else if normalizedType = js ''oracle'' \<and> 0 < cteBodyStart then
           (case limitOracleCteMainQuery executableMain normalizedType rows of
              None \<Rightarrow> unchanged executableSql
            | Some limitedCte \<Rightarrow> limited (limitedCte @ tail))
         else if hasOracleSequencePseudoColumn executableMain then unchanged executableSql
         else limited (buildPaginatedSelectSQL normalizedType main [] maxRows 0 @ tail))
      else
        (let candidates = filter (\<lambda>p. afterFrom (Some p) fromPos)
               (concat (map (\<lambda>kw. case position kw of None \<Rightarrow> [] | Some p \<Rightarrow> [p])
                 [js ''offset'', js ''for'', js ''lock'']));
             insertAt = (case candidates of [] \<Rightarrow> length executableMain | _ \<Rightarrow> Min (set candidates)) in
         limited (limitInline executableMain insertAt rows @ tail)))"

end
