(* ===== verification/QueryAutoLimitProps.thy ===== *)
theory QueryAutoLimitProps
  imports QueryAutoLimit SqlEmbeddedWrite
begin

text \<open>
  What the automatic row limit keeps: the scanners end, a statement and its tail are the text, the
  keyword search finds the first match among the code positions outside parentheses, and a limited
  statement is the statement with one clause inserted.
\<close>

section \<open>The scanners end\<close>

lemma codeComment_moves: "codeComment hash t db s = Some s' \<Longrightarrow> cs_index s < cs_index s'"
  unfolding codeComment_def Let_def
  by (simp split: if_splits option.splits) (auto)

lemma codeQuotes_moves: "codeQuotes t s = Some s' \<Longrightarrow> cs_index s < cs_index s'"
  unfolding codeQuotes_def Let_def by (simp split: if_splits) auto

lemma codeStep_moves: "codeStep hash t db s = Some s' \<Longrightarrow> cs_index s < cs_index s'"
  by (auto simp: codeStep_def split: option.splits if_splits dest: codeComment_moves codeQuotes_moves)

lemma tailOutside_moves: "tailOutside t db s = Some s' \<Longrightarrow> cs_index s < cs_index s'"
  unfolding tailOutside_def Let_def
  by (simp split: if_splits option.splits) (auto)

lemma tailQuotes_index [simp]: "cs_index (tailQuotes t s) = cs_index s"
  by (simp add: tailQuotes_def Let_def)

lemma depth_index [simp]:
  "cs_index (depthLift c s) = cs_index c" "cs_index (codeState.truncate s) = cs_index s"
  "cs_index depthInit = 0" "cs_index codeInit = 0" "cs_index tailInit = 0"
  by (simp_all add: depthLift_def depthInit_def tailInit_def codeInit_def codeState.defs)

lemma depthStep_moves: "depthStep hash t db s = Some s' \<Longrightarrow> cs_index s < cs_index s'"
  by (auto simp: depthStep_def Let_def split: option.splits if_splits dest: codeStep_moves)

interpretation leading: scanner cs_index "length t" "leadingStep t db" for t db
  by unfold_locales (auto simp: leadingStep_def Let_def split: option.splits if_splits dest: codeStep_moves)

interpretation tail: total_scanner cs_index "length t" "tailStep t db" for t db
  by unfold_locales
    (auto simp: tailStep_def Let_def split: option.splits if_splits dest: tailOutside_moves)

interpretation keyword: scanner cs_index "length t" "keywordStep t kw db" for t kw db
  by unfold_locales (auto simp: keywordStep_def split: option.splits if_splits dest: depthStep_moves)

definition sq_moves :: "sequenceState \<Rightarrow> (sequenceState, bool) flow \<Rightarrow> bool" where
  "sq_moves s r \<longleftrightarrow> (case r of Continue s' \<Rightarrow> sq_index s < sq_index s' | Return _ \<Rightarrow> True)"

lemma sq_moves_if:
  "(c \<Longrightarrow> sq_moves s a) \<Longrightarrow> (\<not> c \<Longrightarrow> sq_moves s b) \<Longrightarrow> sq_moves s (if c then a else b)"
  by simp

lemma sequenceStep_moves: "sq_moves s (sequenceStep t s)"
  unfolding sequenceStep_def Let_def by (intro sq_moves_if) (simp_all add: sq_moves_def)

interpretation sequence: scanner sq_index "length t" "sequenceStep t" for t
  by unfold_locales (metis sequenceStep_moves sq_moves_def flow.case(1))

interpretation cte: scanner cs_index "length t" "cteStep t db" for t db
  by unfold_locales
    (auto simp: cteStep_def Let_def skip_word_gt split: option.splits if_splits dest: depthStep_moves)

section \<open>The keyword search\<close>

text \<open>
  The specification: the positions of the code characters outside quotes, comments and parentheses,
  collected by a loop that never returns early.
\<close>

definition collectStep ::
  "js_string \<Rightarrow> js_string \<Rightarrow> depthState \<times> nat list \<Rightarrow> (depthState \<times> nat list, unit) flow" where
  "collectStep text dbType = (\<lambda>(s, ps).
     (case depthStep True text dbType s of
        Some s' \<Rightarrow> Continue (s', ps)
      | None \<Rightarrow> Continue (ds_move 1 s, ps @ [cs_index s])))"

definition collect_pos :: "depthState \<times> nat list \<Rightarrow> nat" where
  "collect_pos x = cs_index (fst x)"

definition codePositionsFrom :: "js_string \<Rightarrow> js_string \<Rightarrow> depthState \<Rightarrow> nat list" where
  "codePositionsFrom text dbType s =
     (case scan_loop collect_pos (length text) (collectStep text dbType) (s, []) of
        Continue x \<Rightarrow> snd x | Return _ \<Rightarrow> [])"

abbreviation topLevelPositions :: "js_string \<Rightarrow> js_string \<Rightarrow> nat list" where
  "topLevelPositions text dbType \<equiv> codePositionsFrom text dbType depthInit"

interpretation collect: total_scanner collect_pos "length t" "collectStep t db" for t db
  by unfold_locales (auto simp: collectStep_def collect_pos_def split: option.splits dest: depthStep_moves)

lemma collect_step:
  "collectStep t db (s, ps) =
     Continue (case depthStep True t db s of Some s' \<Rightarrow> (s', ps) | None \<Rightarrow> (ds_move 1 s, ps @ [cs_index s]))"
  by (simp add: collectStep_def split: option.splits)

text \<open>What was collected before stays in front.\<close>

lemma collect_acc:
  "scan_loop collect_pos (length t) (collectStep t db) (s, ps) = Continue (s', qs)
     \<Longrightarrow> qs = ps @ codePositionsFrom t db s"
proof -
  have "\<exists>s' us. \<forall>ps. scan_loop collect_pos (length t) (collectStep t db) (s, ps) = Continue (s', ps @ us)"
  proof (induction "length t - cs_index s" arbitrary: s rule: less_induct)
    case less
    show ?case
    proof (cases "cs_index s < length t")
      case True
      have lt: "collect_pos (s, ps) < length t" for ps using True by (simp add: collect_pos_def)
      show ?thesis
      proof (cases "depthStep True t db s")
        case (Some r)
        then have st: "collectStep t db (s, ps) = Continue (r, ps)" for ps by (simp add: collect_step)
        have "length t - cs_index r < length t - cs_index s"
          using depthStep_moves [OF Some] True by linarith
        from less [OF this] collect.step_Continue [OF lt st] show ?thesis by metis
      next
        case None
        then have st: "collectStep t db (s, ps) = Continue (ds_move 1 s, ps @ [cs_index s])" for ps
          by (simp add: collect_step)
        have "length t - cs_index (ds_move 1 s) < length t - cs_index s" using True by simp
        from less [OF this] obtain s' us where
          "\<forall>ps. scan_loop collect_pos (length t) (collectStep t db) (ds_move 1 s, ps) = Continue (s', ps @ us)"
          by blast
        with collect.step_Continue [OF lt st]
        have "\<forall>ps. scan_loop collect_pos (length t) (collectStep t db) (s, ps) = Continue (s', ps @ cs_index s # us)"
          by simp
        then show ?thesis by blast
      qed
    next
      case False
      then have "scan_loop collect_pos (length t) (collectStep t db) (s, ps) = Continue (s, ps @ [])" for ps
        by (simp add: collect_pos_def)
      then show ?thesis by blast
    qed
  qed
  then obtain r us where all: "\<And>ps. scan_loop collect_pos (length t) (collectStep t db) (s, ps) = Continue (r, ps @ us)"
    by blast
  assume "scan_loop collect_pos (length t) (collectStep t db) (s, ps) = Continue (s', qs)"
  with all [of ps] all [of "[]"] show ?thesis by (simp add: codePositionsFrom_def)
qed

lemma codePositions_end: "length t \<le> cs_index s \<Longrightarrow> codePositionsFrom t db s = []"
  by (simp add: codePositionsFrom_def collect_pos_def)

lemma codePositions_unfold:
  assumes "cs_index s < length t"
  shows "codePositionsFrom t db s =
    (case depthStep True t db s of
       Some s' \<Rightarrow> codePositionsFrom t db s'
     | None \<Rightarrow> cs_index s # codePositionsFrom t db (ds_move 1 s))"
proof -
  have lt: "collect_pos (s, []) < length t" using assms by (simp add: collect_pos_def)
  obtain r ps where st: "collectStep t db (s, []) = Continue (r, ps)" "(r, ps) =
      (case depthStep True t db s of Some s' \<Rightarrow> (s', []) | None \<Rightarrow> (ds_move 1 s, [] @ [cs_index s]))"
    by (metis collect_step surj_pair)
  obtain x where x: "scan_loop collect_pos (length t) (collectStep t db) (r, ps) = Continue x"
    using collect.total by blast
  then have "snd x = ps @ codePositionsFrom t db r" using collect_acc by (cases x) fastforce
  then have "codePositionsFrom t db s = ps @ codePositionsFrom t db r"
    unfolding codePositionsFrom_def [of t db s] by (simp add: collect.step_Continue [OF lt st(1)] x)
  then show ?thesis using st(2) by (auto split: option.splits)
qed

lemma keyword_loop:
  "loop_result None (case scan_loop cs_index (length t) (keywordStep t kw db) s of
      Return i \<Rightarrow> Return (Some i) | Continue s' \<Rightarrow> Continue s')
   = find (keywordMatch t kw) (codePositionsFrom t db s)"
proof (induction s rule: keyword.induct_loop [where t = t and kw = kw and db = db])
  case (1 s)
  show ?case
  proof (cases "cs_index s < length t")
    case True
    show ?thesis
    proof (cases "keywordStep t kw db s")
      case (Continue s')
      then have "codePositionsFrom t db s = codePositionsFrom t db s'
          \<or> (codePositionsFrom t db s = cs_index s # codePositionsFrom t db s' \<and> \<not> keywordMatch t kw (cs_index s))"
        by (auto simp: keywordStep_def codePositions_unfold [OF True] split: option.splits if_splits)
      with 1 [OF True Continue] show ?thesis
        by (auto simp: keyword.step_Continue [OF True Continue])
    next
      case (Return i)
      then have "codePositionsFrom t db s = i # codePositionsFrom t db (ds_move 1 s) \<and> keywordMatch t kw i"
        by (auto simp: keywordStep_def codePositions_unfold [OF True] split: option.splits if_splits)
      then show ?thesis by (simp add: keyword.step_Return [OF True Return])
    qed
  qed (simp add: codePositions_end)
qed

lemma codePositions_sorted:
  "sorted_wrt (<) (codePositionsFrom t db s) \<and> (\<forall>p\<in>set (codePositionsFrom t db s). cs_index s \<le> p \<and> p < length t)"
proof (induction "length t - cs_index s" arbitrary: s rule: less_induct)
  case less
  show ?case
  proof (cases "cs_index s < length t")
    case True
    show ?thesis
    proof (cases "depthStep True t db s")
      case (Some r)
      have lt: "cs_index s < cs_index r" by (rule depthStep_moves [OF Some])
      have "length t - cs_index r < length t - cs_index s" using lt True by linarith
      from less [OF this] lt show ?thesis by (auto simp: codePositions_unfold [OF True] Some)
    next
      case None
      have "length t - cs_index (ds_move 1 s) < length t - cs_index s" using True by simp
      from less [OF this] True show ?thesis by (auto simp: codePositions_unfold [OF True] None Suc_le_eq)
    qed
  qed (simp add: codePositions_end)
qed

text \<open>
  The keyword search finds the first occurrence of the keyword at the top level: it returns the
  first position, among the strictly increasing positions of the code characters outside quotes,
  comments and parentheses, where the keyword stands as a whole word.
\<close>

lemma find_keyword_is_first_match:
  "findTopLevelKeyword sql keyword dbType
     = find (keywordMatch sql (js_lower keyword)) (topLevelPositions sql dbType)
   \<and> sorted_wrt (<) (topLevelPositions sql dbType)
   \<and> set (topLevelPositions sql dbType) \<subseteq> {..<length sql}"
  using codePositions_sorted [of sql dbType depthInit]
  by (auto simp: findTopLevelKeyword_def keyword_loop)

section \<open>Statement and tail\<close>

lemma mainEndLoop_spec:
  "e \<le> length t \<Longrightarrow> mainEndLoop t e \<le> e
   \<and> (mainEndLoop t e = 0 \<or> (\<not> isWS (t ! (mainEndLoop t e - 1)) \<and> \<not> isDelimiter (t ! (mainEndLoop t e - 1))))
   \<and> (\<forall>c\<in>set (js_slice t (mainEndLoop t e) e). isWS c \<or> isDelimiter c)"
proof (induction e)
  case (Suc e)
  show ?case
  proof (cases "isWS (t ! e) \<or> isDelimiter (t ! e)")
    case True
    have "js_slice t (mainEndLoop t e) (Suc e) = js_slice t (mainEndLoop t e) e @ js_slice t e (Suc e)"
      using Suc by (subst js_slice_append) auto
    moreover have "js_slice t e (Suc e) = [t ! e]"
      using Suc.prems by (simp add: js_slice_def take_Suc_conv_app_nth hd_drop_conv_nth take_Suc)
    ultimately show ?thesis using Suc True by auto
  next
    case False
    then show ?thesis by auto
  qed
qed simp

definition meaningful_below :: "js_string \<Rightarrow> tailState \<Rightarrow> bool" where
  "meaningful_below t s \<longleftrightarrow> (case ts_lastMeaningful s of None \<Rightarrow> True | Some l \<Rightarrow> l < length t)"

lemma dollarTagAt_fits:
  assumes "dollarTagAt t i = Some tag" shows "0 < length tag \<and> i + length tag \<le> length t"
proof -
  let ?e = "skip_while js_word t (i + 1)"
  have "?e < length t" "tag = js_slice t i (?e + 1)"
    using assms by (auto simp: dollarTagAt_def Let_def js_at_def split: if_splits)
  moreover have "i + 1 \<le> ?e" by (rule skip_while_ge)
  ultimately show ?thesis by (simp del: skip_while_ge)
qed

lemma starts_at_fits: "js_starts_at p t i \<Longrightarrow> i < length t \<Longrightarrow> i + length p \<le> length t"
  by (auto simp: js_starts_at_def prefix_def) (metis add_le_cancel_left le_add1 length_append length_drop
      le_add_diff_inverse less_imp_le)

lemma tailOutside_below:
  assumes "tailOutside t db s = Some s'" "cs_index s < length t" "meaningful_below t s"
  shows "meaningful_below t s'"
proof (cases "cs_dollarTag s")
  case None
  with assms show ?thesis
    by (auto simp: tailOutside_def Let_def meaningful_below_def split: if_splits option.splits
        dest: dollarTagAt_fits)
next
  case (Some tag)
  with assms show ?thesis using starts_at_fits [of tag t "cs_index s"]
    by (auto simp: tailOutside_def Let_def meaningful_below_def split: if_splits)
qed

lemma tailQuotes_meaningful [simp]: "ts_lastMeaningful (tailQuotes t s) = ts_lastMeaningful s"
  by (simp add: tailQuotes_def Let_def)

lemma lastMeaningful_less: "lastMeaningful t db = Some l \<Longrightarrow> l < length t"
proof -
  assume l: "lastMeaningful t db = Some l"
  obtain s where s: "scan_loop cs_index (length t) (tailStep t db) tailInit = Continue s"
    using tail.total by blast
  have "meaningful_below t s"
  proof (rule tail.invariant [OF s])
    show "meaningful_below t tailInit" by (simp add: meaningful_below_def tailInit_def codeState.defs tailState.defs)
    fix r r' assume r: "meaningful_below t r" "cs_index r < length t" "tailStep t db r = Continue r'"
    show "meaningful_below t r'"
    proof (cases "if \<not> cs_inSingle r \<and> \<not> cs_inDouble r \<and> \<not> cs_inBacktick r then tailOutside t db r else None")
      case (Some u)
      then have "tailOutside t db r = Some u" by (simp split: if_splits)
      from tailOutside_below [OF this r(2,1)] r(3) Some show ?thesis by (simp add: tailStep_def)
    next
      case None
      with r show ?thesis by (auto simp: tailStep_def Let_def meaningful_below_def)
    qed
  qed
  with l s show ?thesis by (simp add: lastMeaningful_def meaningful_below_def)
qed

text \<open>
  A statement and its tail are the text: main and tail join to the text (with line ends
  normalised), and the statement, when there is one, ends with a character that is neither white
  space nor a delimiter, so that appending a clause to it stays inside the statement.
\<close>

lemma statement_and_tail:
  "sc_main (splitSqlTail sql dbType) @ sc_tail (splitSqlTail sql dbType) = crlf_to_lf sql
   \<and> (sc_main (splitSqlTail sql dbType) = []
      \<or> (\<not> isWS (last (sc_main (splitSqlTail sql dbType)))
          \<and> \<not> isDelimiter (last (sc_main (splitSqlTail sql dbType)))))"
proof (cases "lastMeaningful (crlf_to_lf sql) dbType")
  case (Some l)
  let ?t = "crlf_to_lf sql" and ?e = "mainEndLoop (crlf_to_lf sql) (l + 1)"
  have l: "l + 1 \<le> length ?t" using lastMeaningful_less [OF Some] by simp
  have e: "?e \<le> length ?t" using conjunct1 [OF mainEndLoop_spec [OF l]] l by (rule order_trans)
  have main: "sc_main (splitSqlTail sql dbType) = take ?e ?t" "sc_tail (splitSqlTail sql dbType) = drop ?e ?t"
    by (simp_all only: splitSqlTail_def Some Let_def option.case splitClause.select_convs)
  have "take ?e ?t = [] \<or> last (take ?e ?t) = ?t ! (?e - 1)"
    using e by (cases ?e) (simp_all add: take_Suc_conv_app_nth)
  moreover have "take ?e ?t = [] \<or> ?e \<noteq> 0" by (cases "?e = 0") (simp_all del: mainEndLoop.simps)
  ultimately show ?thesis
    using conjunct1 [OF conjunct2 [OF mainEndLoop_spec [OF l]]] unfolding main append_take_drop_id by metis
qed (simp add: splitSqlTail_def)

section \<open>The limit\<close>

abbreviation limitDialect :: "js_string \<Rightarrow> js_string \<Rightarrow> js_string" where
  "limitDialect dbType driver \<equiv>
     js_lower (resolveSqlDialect (if dbType = [] then js ''mysql'' else dbType) driver [])"

definition limit_ok :: "js_string \<Rightarrow> js_string \<Rightarrow> int \<Rightarrow> autoLimit \<Rightarrow> bool" where
  "limit_ok nt sql maxRows r \<longleftrightarrow>
     (al_applied r \<and> 0 < maxRows \<and> isSelectStatement sql nt
      \<and> \<not> afterFrom (findTopLevelKeyword (sc_main (splitSqlTail sql nt)) (js ''limit'') nt)
          (findTopLevelKeyword (sc_main (splitSqlTail sql nt)) (js ''from'') nt))
     \<or> al_sql r = sql \<or> al_sql r = crlf_to_lf sql"

lemma limit_ok_if:
  "(c \<Longrightarrow> limit_ok nt sql n a) \<Longrightarrow> (\<not> c \<Longrightarrow> limit_ok nt sql n b) \<Longrightarrow> limit_ok nt sql n (if c then a else b)"
  by simp

lemma limit_ok_case:
  "(x = None \<Longrightarrow> limit_ok nt sql n a) \<Longrightarrow> (\<And>y. x = Some y \<Longrightarrow> limit_ok nt sql n (f y)) \<Longrightarrow>
     limit_ok nt sql n (case x of None \<Rightarrow> a | Some y \<Rightarrow> f y)"
  by (cases x) simp_all

text \<open>
  A text that gets no limit is not changed: only a SELECT (or a WITH whose main query is a
  SELECT), with a positive limit and without a LIMIT or FETCH of its own, is limited; every other
  text comes back as it is, up to the normalisation of its line ends.
\<close>

lemma unlimited_text_unchanged:
  assumes "limitDialect dbType driver \<noteq> js ''dameng''"
  shows "(al_applied (applyQueryAutoLimit sql dbType maxRows driver)
      \<and> 0 < maxRows \<and> isSelectStatement sql (limitDialect dbType driver)
      \<and> \<not> afterFrom (findTopLevelKeyword (sc_main (splitSqlTail sql (limitDialect dbType driver)))
            (js ''limit'') (limitDialect dbType driver))
          (findTopLevelKeyword (sc_main (splitSqlTail sql (limitDialect dbType driver)))
            (js ''from'') (limitDialect dbType driver)))
    \<or> al_sql (applyQueryAutoLimit sql dbType maxRows driver) = sql
    \<or> al_sql (applyQueryAutoLimit sql dbType maxRows driver) = crlf_to_lf sql"
proof -
  let ?nt = "limitDialect dbType driver"
  let ?m = "sc_main (splitSqlTail sql ?nt)"
  have parts: "?m @ [] @ sc_tail (splitSqlTail sql ?nt) = crlf_to_lf sql"
    using statement_and_tail by simp
  have iso: "(if ?nt = js ''dameng'' then x else y) = y" for x y :: splitClause using assms by simp
  have "limit_ok ?nt sql maxRows (applyQueryAutoLimit sql dbType maxRows driver)"
    unfolding applyQueryAutoLimit_def Let_def iso splitClause.select_convs parts
    by (intro limit_ok_if limit_ok_case) (simp_all add: limit_ok_def del: js_Cons)
  then show ?thesis by (simp only: limit_ok_def)
qed

lemma unlimited_text_unchanged_witness:
  "al_sql (applyQueryAutoLimit (js ''drop t;'') (js ''pg'') 10 []) = js ''drop t;''"
proof -
  have d: "limitDialect (js ''pg'') [] \<noteq> js ''dameng''" by code_simp
  have "\<not> isSelectStatement (js ''drop t;'') (limitDialect (js ''pg'') [])" by code_simp
  moreover have "crlf_to_lf (js ''drop t;'') = js ''drop t;''" by simp
  ultimately show ?thesis using unlimited_text_unchanged [OF d, of "js ''drop t;''" 10] by metis
qed







section \<open>The hash character\<close>

lemma crlf_to_lf_id: "13 \<notin> set t \<Longrightarrow> crlf_to_lf t = t"
  by (induction t rule: crlf_to_lf.induct) auto

definition before_hash :: "js_string \<Rightarrow> tailState \<Rightarrow> bool" where
  "before_hash pre s \<longleftrightarrow>
     \<not> cs_inSingle s \<and> \<not> cs_inDouble s \<and> \<not> cs_inBacktick s \<and> \<not> cs_escaped s \<and> \<not> cs_inBlockComment s
     \<and> cs_dollarTag s = None
     \<and> (case ts_lastMeaningful s of None \<Rightarrow> True | Some l \<Rightarrow> l < length pre)
     \<and> (if cs_inLineComment s then length pre < cs_index s else cs_index s \<le> length pre)"

lemma before_hash_step:
  assumes "before_hash pre s" "\<forall>c\<in>set pre. js_word c \<or> c = 32" "10 \<notin> set rest"
    and "cs_index s < length (pre @ [35] @ rest)" "tailStep (pre @ [35] @ rest) db s = Continue s'"
  shows "before_hash pre s'"
proof -
  let ?t = "pre @ [35] @ rest"
  consider (comment) "cs_inLineComment s" "length pre < cs_index s"
    | (hash) "\<not> cs_inLineComment s" "cs_index s = length pre"
    | (code) "\<not> cs_inLineComment s" "cs_index s < length pre"
    using assms(1) by (fastforce simp: before_hash_def split: if_splits)
  then show ?thesis
  proof cases
    case comment
    have "?t ! cs_index s \<in> set rest" using comment(2) assms(4) by (auto simp: nth_append nth_Cons')
    then have "?t ! cs_index s \<noteq> 10" using assms(3) by metis
    with comment assms(1,5) show ?thesis
      by (auto simp: tailStep_def tailOutside_def before_hash_def Let_def)
  next
    case hash
    have "?t ! cs_index s = 35" using hash(2) by simp
    with hash assms(1,5) show ?thesis
      by (auto simp: tailStep_def tailOutside_def before_hash_def Let_def)
  next
    case code
    have "?t ! cs_index s \<in> set pre" using code(2) by (simp add: nth_append)
    then have c: "js_word (?t ! cs_index s) \<or> ?t ! cs_index s = 32" using assms(2) by blast
    then have m: "?t ! cs_index s \<notin> {47, 35, 45, 36, 92, 39, 34, 96}" by (auto simp: char_defs)
    then have "dollarTagAt ?t (cs_index s) = None" by (auto simp: dollarTagAt_def Let_def js_at_def)
    with m code assms(1) have "tailOutside ?t db s = None"
      by (simp add: tailOutside_def before_hash_def Let_def)
    moreover have "tailQuotes ?t s = s" using m assms(1) by (simp add: tailQuotes_def before_hash_def Let_def)
    ultimately show ?thesis using code assms(1,5)
      by (cases "isWS (?t ! cs_index s)") (auto simp: tailStep_def before_hash_def Let_def split: option.splits)
  qed
qed

text \<open>
  The scanners of the automatic limit read a hash as the start of a comment in every dialect,
  also where it is an operator (PostgreSQL): behind a hash nothing counts as part of the statement
  until the end of the line, so the LIMIT clause is put before the operator.
\<close>

lemma hash_ends_the_statement:
  assumes "\<forall>c\<in>set pre. js_word c \<or> c = 32" and "10 \<notin> set rest" "13 \<notin> set rest"
  shows "length (sc_main (splitSqlTail (pre @ [35] @ rest) dbType)) \<le> length pre"
proof -
  let ?t = "pre @ [35] @ rest"
  have "13 \<notin> set ?t" using assms by (auto simp: char_defs)
  then have crlf: "crlf_to_lf ?t = ?t" by (rule crlf_to_lf_id)
  obtain s where s: "scan_loop cs_index (length ?t) (tailStep ?t dbType) tailInit = Continue s"
    using tail.total by blast
  have "before_hash pre s"
  proof (rule tail.invariant [OF s])
    show "before_hash pre tailInit"
      by (simp add: before_hash_def tailInit_def codeInit_def codeState.defs tailState.defs)
  qed (rule before_hash_step [OF _ assms(1,2)])
  then have l: "lastMeaningful ?t dbType = Some l \<Longrightarrow> l < length pre" for l
    using s by (auto simp: lastMeaningful_def before_hash_def)
  show ?thesis
  proof (cases "lastMeaningful ?t dbType")
    case (Some k)
    have "k + 1 \<le> length ?t" using l [OF Some] by simp
    from conjunct1 [OF mainEndLoop_spec [OF this]]
    have "mainEndLoop ?t (k + 1) \<le> length pre" using l [OF Some] by linarith
    then show ?thesis by (simp only: splitSqlTail_def crlf Some Let_def option.case splitClause.select_convs) simp
  qed (simp only: splitSqlTail_def crlf Let_def option.case splitClause.select_convs, simp)
qed

lemma hash_ends_the_statement_witness:
  "length (sc_main (splitSqlTail (js ''select a '' @ [35] @ js ''> b'') (js ''postgres''))) \<le> 9
   \<and> al_sql (applyQueryAutoLimit (js ''select a '' @ [35] @ js ''> b'') (js ''postgres'') 9 [])
      = js ''select a LIMIT 9 #> b''"
proof
  have "\<forall>c\<in>set (js ''select a ''). js_word c \<or> c = 32" "10 \<notin> set (js ''> b'')" "13 \<notin> set (js ''> b'')"
    by (simp_all add: char_defs)
  from hash_ends_the_statement [OF this, of "js ''postgres''"]
  show "length (sc_main (splitSqlTail (js ''select a '' @ [35] @ js ''> b'') (js ''postgres''))) \<le> 9"
    by simp
qed code_simp

end
