(* ===== verification/ConnectionReadOnly.thy ===== *)
theory ConnectionReadOnly
  imports SqlDialect SqlEmbeddedWrite SqlSplit
begin

text \<open>
  \<open>src/frontend/src/utils/connectionReadOnly.ts\<close>: the classification of statements as reading or
  writing, and the protection settings of a connection. For MongoDB the conversion of a shell
  command to JSON (\<open>convertMongoShellToJsonCommand\<close>, in \<open>utils/mongodb.ts\<close>) and \<open>JSON.parse\<close> are
  parameters; what is decided from the parsed command is modelled.
\<close>

section \<open>Settings\<close>

datatype protectionKey = RestrictDataEdit | RestrictStructureEdit | RestrictScriptExecution | RestrictDataImport

record connectionProtection =
  restrictDataEdit :: bool
  restrictStructureEdit :: bool
  restrictScriptExecution :: bool
  restrictDataImport :: bool

fun protectionField :: "connectionProtection \<Rightarrow> protectionKey \<Rightarrow> bool" where
  "protectionField p RestrictDataEdit = restrictDataEdit p"
| "protectionField p RestrictStructureEdit = restrictStructureEdit p"
| "protectionField p RestrictScriptExecution = restrictScriptExecution p"
| "protectionField p RestrictDataImport = restrictDataImport p"

text \<open>A connection; \<open>None\<close> for a null configuration. A field of the stored protection counts only when it is \<open>true\<close>.\<close>

record connectionConfig =
  cc_type :: js_string
  cc_driver :: js_string
  cc_oceanBaseProtocol :: js_string
  cc_readOnly :: bool
  cc_protection :: "connectionProtection option"

definition CONNECTION_PROTECTION_KEYS :: "protectionKey list" where
  "CONNECTION_PROTECTION_KEYS =
     [RestrictDataEdit, RestrictStructureEdit, RestrictScriptExecution, RestrictDataImport]"

definition EMPTY_CONNECTION_PROTECTION :: connectionProtection where
  "EMPTY_CONNECTION_PROTECTION = \<lparr>restrictDataEdit = False, restrictStructureEdit = False,
     restrictScriptExecution = False, restrictDataImport = False\<rparr>"

definition FULL_CONNECTION_PROTECTION :: connectionProtection where
  "FULL_CONNECTION_PROTECTION = \<lparr>restrictDataEdit = True, restrictStructureEdit = True,
     restrictScriptExecution = True, restrictDataImport = True\<rparr>"

definition CONNECTION_READ_ONLY_TYPES :: "js_string list" where
  "CONNECTION_READ_ONLY_TYPES =
     [js ''mysql'', js ''goldendb'', js ''mariadb'', js ''oceanbase'', js ''diros'', js ''starrocks'',
      js ''sphinx'', js ''postgres'', js ''kingbase'', js ''highgo'', js ''vastbase'', js ''opengauss'',
      js ''gaussdb'', js ''sqlserver'', js ''iris'', js ''cache'', js ''sqlite'', js ''duckdb'',
      js ''oracle'', js ''dameng'', js ''tdengine'', js ''iotdb'', js ''clickhouse'', js ''trino'',
      js ''mongodb'', js ''elasticsearch'']"

definition CONNECTION_PROTECTION_TYPES :: "js_string list" where
  "CONNECTION_PROTECTION_TYPES = CONNECTION_READ_ONLY_TYPES @ [js ''nacos'']"

section \<open>SQL statements\<close>

definition SQL_READ_ONLY_KEYWORDS :: "js_string list" where
  "SQL_READ_ONLY_KEYWORDS =
     [js ''select'', js ''with'', js ''show'', js ''describe'', js ''desc'', js ''explain'', js ''pragma'',
      js ''values'', js ''consume'']"

definition MYSQL_COMMENT_DIALECTS :: "js_string list" where
  "MYSQL_COMMENT_DIALECTS =
     [js ''mysql'', js ''goldendb'', js ''mariadb'', js ''oceanbase'', js ''diros'', js ''starrocks'',
      js ''sphinx'', js ''tidb'']"

text \<open>The functions on a \<open>remaining\<close> text take the text and the position where it starts.\<close>

definition isDashLineCommentStart :: "js_string \<Rightarrow> nat \<Rightarrow> js_string \<Rightarrow> bool" where
  "isDashLineCommentStart text i dbType \<longleftrightarrow>
     dbType \<notin> set MYSQL_COMMENT_DIALECTS
     \<or> (case js_at text (i + 2) of None \<Rightarrow> True | Some c \<Rightarrow> js_space c)"

definition supportsHashLineComment :: "js_string \<Rightarrow> bool" where
  "supportsHashLineComment dbType \<longleftrightarrow>
     dbType = [] \<or> dbType = js ''clickhouse'' \<or> dbType \<in> set MYSQL_COMMENT_DIALECTS"

definition isExecutableBlockComment :: "js_string \<Rightarrow> nat \<Rightarrow> js_string \<Rightarrow> bool" where
  "isExecutableBlockComment text i dbType \<longleftrightarrow>
     (if js_lower (js_slice text i (i + 4)) = js ''/*m!'' then dbType = js ''mariadb''
      else js_starts_at (js ''/*!'') text i \<and> dbType \<in> set MYSQL_COMMENT_DIALECTS)"

definition skipKeepAliveLineComment :: "js_string \<Rightarrow> nat \<Rightarrow> nat" where
  "skipKeepAliveLineComment text start = skip_while (\<lambda>c. c \<noteq> 10 \<and> c \<noteq> 13) text start"

definition keepAliveQuotedStep :: "js_string \<Rightarrow> nat \<Rightarrow> nat \<Rightarrow> (nat, nat) flow" where
  "keepAliveQuotedStep text q index =
     (if text ! index = 92 \<and> index + 1 < length text then Continue (index + 2)
      else if text ! index \<noteq> q then Continue (index + 1)
      else if js_at text (index + 1) = Some q then Continue (index + 2)
      else Return (index + 1))"

definition skipKeepAliveQuotedText :: "js_string \<Rightarrow> nat \<Rightarrow> nat \<Rightarrow> nat" where
  "skipKeepAliveQuotedText text start q =
     loop_result (length text) (scan_loop at_index (length text) (keepAliveQuotedStep text q) (start + 1))"

definition dashDashAt :: "js_string \<Rightarrow> js_string \<Rightarrow> nat \<Rightarrow> bool" where
  "dashDashAt text dbType i \<longleftrightarrow> js_starts_at (js ''--'') text i \<and> isDashLineCommentStart text i dbType"

definition isQuote :: "nat \<Rightarrow> bool" where
  [char_defs]: "isQuote c \<longleftrightarrow> c = 39 \<or> c = 34 \<or> c = 96"

definition stripStep ::
  "js_string \<Rightarrow> js_string \<Rightarrow> nat \<times> js_string \<Rightarrow> (nat \<times> js_string, unit) flow" where
  "stripStep text dbType = (\<lambda>(index, output).
     (let current = text ! index in
      if dashDashAt text dbType index then
        Continue (skipKeepAliveLineComment text (index + 2), output @ [32])
      else if current = cu CHR ''#'' \<and> supportsHashLineComment dbType then
        Continue (skipKeepAliveLineComment text (index + 1), output @ [32])
      else if js_starts_at (js ''/*'') text index \<and> \<not> isExecutableBlockComment text index dbType then
        Continue (blockCommentEnd text (index + 2), output @ [32])
      else if isQuote current then
        Continue (skipKeepAliveQuotedText text index current, output @ [32])
      else if current = cu CHR ''['' then
        Continue (case js_index_of text (js '']'') (index + 1) of None \<Rightarrow> length text | Some e \<Rightarrow> e + 1,
                  output @ [32])
      else Continue (index + 1, output @ [current])))"

definition stripSqlLiteralsAndComments :: "js_string \<Rightarrow> js_string \<Rightarrow> js_string" where
  "stripSqlLiteralsAndComments statement dbType =
     (case scan_loop fst (length statement) (stripStep statement dbType) (0, []) of
        Continue s \<Rightarrow> snd s | Return _ \<Rightarrow> [])"

text \<open>\<open>/\bselect\b[\s\S]*\binto\b/i\<close>\<close>

definition hasSelectInto :: "js_string \<Rightarrow> js_string \<Rightarrow> bool" where
  "hasSelectInto statement dbType \<longleftrightarrow>
     (let code = stripSqlLiteralsAndComments statement dbType in
      \<exists>i\<in>set [0..<length code]. whole_word_at (js ''select'') code i
        \<and> (\<exists>j\<in>set [i + 6..<length code]. whole_word_at (js ''into'') code j))"

text \<open>\<open>/\b(insert|update|delete|merge|upsert)\b/i\<close> and \<open>/\breplace\s+into\b/i\<close>\<close>

definition mutatingWithKeywords :: "js_string list" where
  "mutatingWithKeywords = [js ''insert'', js ''update'', js ''delete'', js ''merge'', js ''upsert'']"

definition replaceIntoAt :: "js_string \<Rightarrow> nat \<Rightarrow> bool" where
  "replaceIntoAt code i \<longleftrightarrow>
     kw_at (js ''replace'') code i \<and> word_boundary code i
     \<and> (let j = skip_space code (i + 7) in
        i + 7 < j \<and> kw_at (js ''into'') code j \<and> word_boundary code (j + 4))"

definition hasMutatingWithKeyword :: "js_string \<Rightarrow> js_string \<Rightarrow> bool" where
  "hasMutatingWithKeyword statement dbType \<longleftrightarrow>
     (let code = stripSqlLiteralsAndComments statement dbType in
      (\<exists>w\<in>set mutatingWithKeywords. has_whole_word w code)
      \<or> (\<exists>i\<in>set [0..<length code]. replaceIntoAt code i))"

text \<open>
  The loop of \<open>stripLeadingSqlComments\<close>: what is left when the comment at the start is dropped, or
  \<open>None\<close> for \<open>break\<close>. The end of a block comment is searched from the first character.
\<close>

definition dropLeadingComment :: "js_string \<Rightarrow> js_string \<Rightarrow> js_string option" where
  "dropLeadingComment text dbType =
     (if dashDashAt text dbType 0
         \<or> (js_starts_at (js ''#'') text 0 \<and> supportsHashLineComment dbType) then
        Some (case js_index_of text [10] 0 of None \<Rightarrow> [] | Some n \<Rightarrow> js_trim_start (drop (n + 1) text))
      else if js_starts_at (js ''/*'') text 0 \<and> \<not> isExecutableBlockComment text 0 dbType then
        Some (case js_index_of text (js ''*/'') 0 of None \<Rightarrow> [] | Some n \<Rightarrow> js_trim_start (drop (n + 2) text))
      else None)"

lemma js_trim_start_length: "length (js_trim_start s) \<le> length s"
  by (simp add: js_trim_start_def length_dropWhile_le)

function leadingCommentsLoop :: "js_string \<Rightarrow> js_string \<Rightarrow> js_string" where
  "leadingCommentsLoop dbType text =
     (if text = [] then []
      else (case dropLeadingComment text dbType of
              None \<Rightarrow> text | Some rest \<Rightarrow> leadingCommentsLoop dbType rest))"
  by pat_completeness auto
termination
proof (relation "measure (\<lambda>(db, t). length t)", goal_cases)
  case (2 db t rest)
  have "length (js_trim_start (drop (Suc n) t)) < length t" for n
    using js_trim_start_length [of "drop (Suc n) t"] 2(1) by (cases t) auto
  with 2 show ?case
    by (auto simp: dropLeadingComment_def split: if_splits option.splits)
qed simp

declare leadingCommentsLoop.simps [simp del]

definition stripLeadingSqlComments :: "js_string \<Rightarrow> js_string \<Rightarrow> js_string" where
  "stripLeadingSqlComments statement dbType = leadingCommentsLoop dbType (js_trim statement)"

definition extractLeadingSqlKeyword :: "js_string \<Rightarrow> js_string \<Rightarrow> js_string" where
  "extractLeadingSqlKeyword statement dbType =
     (let text = stripLeadingSqlComments statement dbType in
      if js_at_is text 0 isSqlIdentifierStart then js_lower (takeWhile js_word text) else [])"

definition resolveConnectionReadOnlyType :: "connectionConfig option \<Rightarrow> js_string" where
  "resolveConnectionReadOnlyType config =
     (case config of None \<Rightarrow> []
      | Some c \<Rightarrow> js_lower (js_trim (resolveSqlDialect (cc_type c) (cc_driver c) (cc_oceanBaseProtocol c))))"

definition isReadOnlySqlStatement :: "js_string \<Rightarrow> js_string \<Rightarrow> bool" where
  "isReadOnlySqlStatement statement dbType \<longleftrightarrow>
     (let text = stripLeadingSqlComments statement dbType; keyword = extractLeadingSqlKeyword text dbType in
      if text = [] then True
      else if keyword = [] \<or> keyword \<notin> set SQL_READ_ONLY_KEYWORDS then False
      else if keyword = js ''select'' then
        \<not> hasSelectInto text dbType \<and> \<not> hasEmbeddedWriteStatement text dbType
      else if keyword = js ''with'' then
        \<not> hasSelectInto text dbType \<and> \<not> hasMutatingWithKeyword text dbType
        \<and> \<not> hasEmbeddedWriteStatement text dbType
      else \<not> hasEmbeddedWriteStatement text dbType)"

section \<open>MongoDB commands\<close>

text \<open>A parsed JSON value; the members of an object in order.\<close>

datatype json = JNull | JBool bool | JNum int | JStr js_string | JArr "json list" | JObj "(js_string \<times> json) list"

definition MONGO_READ_ONLY_COMMANDS :: "js_string list" where
  "MONGO_READ_ONLY_COMMANDS =
     [js ''aggregate'', js ''buildinfo'', js ''collstats'', js ''connectionstatus'', js ''count'',
      js ''countdocuments'', js ''dbstats'', js ''distinct'', js ''explain'', js ''find'', js ''findone'',
      js ''getparameter'', js ''hello'', js ''hostinfo'', js ''ismaster'', js ''listcollections'',
      js ''listdatabases'', js ''listindexes'', js ''ping'', js ''serverstatus'']"

definition MONGO_WRITE_COMMANDS :: "js_string list" where
  "MONGO_WRITE_COMMANDS =
     [js ''bulkwrite'', js ''collmod'', js ''create'', js ''createindexes'', js ''delete'', js ''drop'',
      js ''dropdatabase'', js ''dropindexes'', js ''findandmodify'', js ''insert'', js ''mapreduce'',
      js ''renamecollection'', js ''update'']"

definition MONGO_META_KEYS :: "js_string list" where
  "MONGO_META_KEYS =
     [js ''$db'', js ''$readpreference'', js ''api'', js ''apideprecationerrors'', js ''apistrict'',
      js ''comment'', js ''let'', js ''lsid'', js ''maxtimems'', js ''ordered'', js ''readconcern'',
      js ''writeconcern'']"

definition resolveMongoCommandKey :: "(js_string \<times> json) list \<Rightarrow> js_string" where
  "resolveMongoCommandKey command =
     (let keys = map (\<lambda>e. js_trim (fst e)) command;
          effectiveKeys = filter (\<lambda>key. js_lower key \<noteq> [] \<and> js_lower key \<notin> set MONGO_META_KEYS) keys in
      case find (\<lambda>key. js_lower key \<in> set MONGO_WRITE_COMMANDS) effectiveKeys of
        Some key \<Rightarrow> key
      | None \<Rightarrow>
          (case find (\<lambda>key. js_lower key \<in> set MONGO_READ_ONLY_COMMANDS) effectiveKeys of
             Some key \<Rightarrow> key
           | None \<Rightarrow> (case effectiveKeys of [] \<Rightarrow> [] | key # _ \<Rightarrow> key)))"

definition normalizedKey :: "js_string \<Rightarrow> js_string" where
  "normalizedKey key = js_lower (js_trim key)"

definition isWriteStage :: "json \<Rightarrow> bool" where
  "isWriteStage stage \<longleftrightarrow>
     (case stage of
        JObj members \<Rightarrow>
          (\<exists>e\<in>set members. normalizedKey (fst e) = js ''$out'' \<or> normalizedKey (fst e) = js ''$merge'')
      | _ \<Rightarrow> False)"

definition mongoAggregateHasWriteStage :: "(js_string \<times> json) list \<Rightarrow> bool" where
  "mongoAggregateHasWriteStage command =
     (case find (\<lambda>e. normalizedKey (fst e) = js ''pipeline'') command of
        Some (_, JArr stages) \<Rightarrow> \<exists>stage\<in>set stages. isWriteStage stage
      | _ \<Rightarrow> False)"

definition isReadOnlyMongoCommand :: "json \<Rightarrow> bool" where
  "isReadOnlyMongoCommand parsed =
     (case parsed of
        JObj command \<Rightarrow>
          (let commandKey = js_lower (resolveMongoCommandKey command) in
           if commandKey = [] then False
           else if commandKey \<in> set MONGO_WRITE_COMMANDS then False
           else if commandKey = js ''aggregate'' \<and> mongoAggregateHasWriteStage command then False
           else commandKey \<in> set MONGO_READ_ONLY_COMMANDS)
      | _ \<Rightarrow> False)"

text \<open>
  The two parameters: \<open>convert\<close> gives the JSON text of a shell command it recognises, \<open>parseJson\<close> the
  value of a JSON text (\<open>None\<close> where \<open>JSON.parse\<close> throws).
\<close>

definition normalizeMongoCommandText :: "(js_string \<Rightarrow> js_string option) \<Rightarrow> js_string \<Rightarrow> js_string" where
  "normalizeMongoCommandText convert statement =
     (let trimmed = js_trim statement in
      if trimmed = [] then []
      else if js_starts_at (js ''{'') trimmed 0 then trimmed
      else (case convert trimmed of Some command \<Rightarrow> command | None \<Rightarrow> []))"

definition isReadOnlyMongoStatement ::
  "(js_string \<Rightarrow> js_string option) \<Rightarrow> (js_string \<Rightarrow> json option) \<Rightarrow> js_string \<Rightarrow> bool" where
  "isReadOnlyMongoStatement convert parseJson statement =
     (let commandText = normalizeMongoCommandText convert statement in
      if commandText = [] then False
      else (case parseJson commandText of None \<Rightarrow> False | Some parsed \<Rightarrow> isReadOnlyMongoCommand parsed))"

definition isConnectionReadOnlyStatement ::
  "(js_string \<Rightarrow> js_string option) \<Rightarrow> (js_string \<Rightarrow> json option) \<Rightarrow> connectionConfig option \<Rightarrow> js_string \<Rightarrow> bool" where
  "isConnectionReadOnlyStatement convert parseJson config statement =
     (let dialect = resolveConnectionReadOnlyType config in
      if dialect = js ''mongodb'' then isReadOnlyMongoStatement convert parseJson statement
      else isReadOnlySqlStatement statement dialect)"

section \<open>Keep-alive queries\<close>

definition KEEPALIVE_EXECUTABLE_COMMENT_DIALECTS :: "js_string list" where
  "KEEPALIVE_EXECUTABLE_COMMENT_DIALECTS =
     [js ''mysql'', js ''mariadb'', js ''oceanbase'', js ''diros'', js ''starrocks'']"

definition executableKeepAliveStep :: "js_string \<Rightarrow> js_string \<Rightarrow> nat \<Rightarrow> (nat, bool) flow" where
  "executableKeepAliveStep text dbType index =
     (if js_starts_at (js ''/*!'') text index \<or> js_lower (js_slice text index (index + 4)) = js ''/*m!''
      then Return True
      else if isQuote (text ! index) then Continue (skipKeepAliveQuotedText text index (text ! index))
      else if text ! index = cu CHR ''#'' then Continue (skipKeepAliveLineComment text (index + 1))
      else if dashDashAt text dbType index then Continue (skipKeepAliveLineComment text (index + 2))
      else if js_starts_at (js ''/*'') text index then Continue (blockCommentEnd text (index + 2))
      else Continue (index + 1))"

definition hasExecutableKeepAliveComment :: "js_string \<Rightarrow> js_string \<Rightarrow> bool" where
  "hasExecutableKeepAliveComment text dbType =
     (if dbType \<notin> set KEEPALIVE_EXECUTABLE_COMMENT_DIALECTS then False
      else loop_result False (scan_loop at_index (length text) (executableKeepAliveStep text dbType) 0))"

definition isKeepAliveWhitespace :: "nat \<Rightarrow> bool" where
  [char_defs]: "isKeepAliveWhitespace c \<longleftrightarrow> c = 32 \<or> c = 9 \<or> c = 10 \<or> c = 13 \<or> c = 12 \<or> c = 11"

definition trailingTriviaStep :: "js_string \<Rightarrow> js_string \<Rightarrow> nat \<Rightarrow> (nat, bool) flow" where
  "trailingTriviaStep text dbType index =
     (if isKeepAliveWhitespace (text ! index) then Continue (index + 1)
      else if dashDashAt text dbType index then Continue (skipKeepAliveLineComment text (index + 2))
      else if text ! index = cu CHR ''#'' \<and> supportsHashLineComment dbType then
        Continue (skipKeepAliveLineComment text (index + 1))
      else if js_starts_at (js ''/*'') text index then
        (case js_index_of text (js ''*/'') (index + 2) of
           None \<Rightarrow> Return False | Some e \<Rightarrow> Continue (e + 2))
      else Return False)"

definition containsOnlyTrailingKeepAliveTrivia :: "js_string \<Rightarrow> js_string \<Rightarrow> bool" where
  "containsOnlyTrailingKeepAliveTrivia text dbType =
     loop_result True (scan_loop at_index (length text) (trailingTriviaStep text dbType) 0)"

definition hasSafeKeepAliveStatementDelimiter :: "js_string \<Rightarrow> js_string \<Rightarrow> bool" where
  "hasSafeKeepAliveStatementDelimiter text dbType =
     (let asciiCount = length (js_split (cu CHR '';'') text) - 1;
          fullWidthCount = length (js_split 65307 text) - 1 in
      if asciiCount + fullWidthCount = 0 then True
      else if asciiCount + fullWidthCount \<noteq> 1 then False
      else
        (let delimiter = (if asciiCount = 1 then cu CHR '';'' else 65307) in
         case js_index_of text [delimiter] 0 of
           None \<Rightarrow> containsOnlyTrailingKeepAliveTrivia text dbType
         | Some index \<Rightarrow> containsOnlyTrailingKeepAliveTrivia (drop (index + 1) text) dbType))"

definition supportsConnectionKeepAliveSQL :: "connectionConfig option \<Rightarrow> bool" where
  "supportsConnectionKeepAliveSQL config \<longleftrightarrow>
     (let type = resolveConnectionReadOnlyType config in
      type \<noteq> js ''mongodb'' \<and> type \<noteq> js ''elasticsearch'' \<and> type \<noteq> js ''sqlite'' \<and> type \<noteq> js ''duckdb''
      \<and> type \<in> set CONNECTION_READ_ONLY_TYPES)"

text \<open>The trimmed, non-empty statements of a text.\<close>

definition trimmedStatements :: "js_string \<Rightarrow> js_string \<Rightarrow> js_string list" where
  "trimmedStatements sql dbType =
     filter (\<lambda>s. s \<noteq> []) (map (\<lambda>range. js_trim (range_text range)) (findSqlStatementRanges sql dbType))"

definition isSingleReadOnlyConnectionQuery ::
  "(js_string \<Rightarrow> js_string option) \<Rightarrow> (js_string \<Rightarrow> json option) \<Rightarrow> connectionConfig option \<Rightarrow> js_string \<Rightarrow> bool" where
  "isSingleReadOnlyConnectionQuery convert parseJson config sql =
     (if \<not> supportsConnectionKeepAliveSQL config then False
      else
        (let dialect = resolveConnectionReadOnlyType config in
         if hasExecutableKeepAliveComment sql dialect \<or> \<not> hasSafeKeepAliveStatementDelimiter sql dialect
         then False
         else
           (let statements = trimmedStatements sql dialect in
            if length statements \<noteq> 1 then False
            else
              (let keyword = extractLeadingSqlKeyword (statements ! 0) dialect in
               (keyword = js ''select'' \<or> keyword = js ''with'')
               \<and> isConnectionReadOnlyStatement convert parseJson config (statements ! 0)))))"

section \<open>Protection\<close>

definition supportsConnectionReadOnlyMode :: "connectionConfig option \<Rightarrow> bool" where
  "supportsConnectionReadOnlyMode config \<longleftrightarrow>
     resolveConnectionReadOnlyType config \<in> set CONNECTION_PROTECTION_TYPES"

definition normalizeConnectionProtectionConfig :: "connectionProtection option \<Rightarrow> connectionProtection" where
  "normalizeConnectionProtectionConfig v =
     (case v of None \<Rightarrow> EMPTY_CONNECTION_PROTECTION | Some p \<Rightarrow> p)"

definition deriveLegacyConnectionReadOnlyFlag :: "connectionProtection option \<Rightarrow> bool" where
  "deriveLegacyConnectionReadOnlyFlag protection \<longleftrightarrow>
     (let normalized = normalizeConnectionProtectionConfig protection in
      \<forall>key\<in>set CONNECTION_PROTECTION_KEYS. protectionField normalized key)"

definition resolveConnectionProtectionConfig :: "connectionConfig option \<Rightarrow> connectionProtection" where
  "resolveConnectionProtectionConfig config =
     (if \<not> supportsConnectionReadOnlyMode config then EMPTY_CONNECTION_PROTECTION
      else
        (let normalized = normalizeConnectionProtectionConfig (Option.bind config cc_protection) in
         if \<exists>key\<in>set CONNECTION_PROTECTION_KEYS. protectionField normalized key then normalized
         else if (case config of None \<Rightarrow> False | Some c \<Rightarrow> cc_readOnly c) then FULL_CONNECTION_PROTECTION
         else EMPTY_CONNECTION_PROTECTION))"

definition isConnectionProtectionEnabled :: "connectionConfig option \<Rightarrow> protectionKey \<Rightarrow> bool" where
  "isConnectionProtectionEnabled config key = protectionField (resolveConnectionProtectionConfig config) key"

definition getConnectionProtectionEnabledCount :: "connectionConfig option \<Rightarrow> nat" where
  "getConnectionProtectionEnabledCount config =
     length (filter (protectionField (resolveConnectionProtectionConfig config)) CONNECTION_PROTECTION_KEYS)"

definition hasAnyConnectionProtection :: "connectionConfig option \<Rightarrow> bool" where
  "hasAnyConnectionProtection config \<longleftrightarrow> 0 < getConnectionProtectionEnabledCount config"

definition isConnectionDataEditRestricted :: "connectionConfig option \<Rightarrow> bool" where
  "isConnectionDataEditRestricted config = isConnectionProtectionEnabled config RestrictDataEdit"

definition isConnectionStructureEditRestricted :: "connectionConfig option \<Rightarrow> bool" where
  "isConnectionStructureEditRestricted config = isConnectionProtectionEnabled config RestrictStructureEdit"

definition isConnectionScriptExecutionRestricted :: "connectionConfig option \<Rightarrow> bool" where
  "isConnectionScriptExecutionRestricted config = isConnectionProtectionEnabled config RestrictScriptExecution"

definition isConnectionDataImportRestricted :: "connectionConfig option \<Rightarrow> bool" where
  "isConnectionDataImportRestricted config = isConnectionProtectionEnabled config RestrictDataImport"

definition isConnectionForcedReadOnly :: "connectionConfig option \<Rightarrow> bool" where
  "isConnectionForcedReadOnly config =
     deriveLegacyConnectionReadOnlyFlag (Some (resolveConnectionProtectionConfig config))"

definition findPotentiallyMutatingConnectionStatements ::
  "(js_string \<Rightarrow> js_string option) \<Rightarrow> (js_string \<Rightarrow> json option) \<Rightarrow> connectionConfig option \<Rightarrow> js_string
     \<Rightarrow> js_string list" where
  "findPotentiallyMutatingConnectionStatements convert parseJson config sql =
     filter (\<lambda>s. \<not> isConnectionReadOnlyStatement convert parseJson config s)
       (trimmedStatements sql (resolveConnectionReadOnlyType config))"

definition findConnectionMutatingStatements ::
  "(js_string \<Rightarrow> js_string option) \<Rightarrow> (js_string \<Rightarrow> json option) \<Rightarrow> connectionConfig option \<Rightarrow> js_string
     \<Rightarrow> js_string list" where
  "findConnectionMutatingStatements convert parseJson config sql =
     (if \<not> isConnectionScriptExecutionRestricted config then []
      else filter (\<lambda>s. \<not> isConnectionReadOnlyStatement convert parseJson config s)
             (trimmedStatements sql (resolveConnectionReadOnlyType config)))"

end
