(* ===== verification/ConnectionReadOnlyProps.thy ===== *)
theory ConnectionReadOnlyProps
  imports ConnectionReadOnly
begin

text \<open>
  What the read-only classification guarantees, where it fails, and the algebra of the protection
  settings.
\<close>

section \<open>The loops end\<close>

lemma keepAliveLine_ge: "start \<le> skipKeepAliveLineComment t start"
  by (simp add: skipKeepAliveLineComment_def)

interpretation keep_quoted: scanner at_index "length t" "keepAliveQuotedStep t q" for t q
  by unfold_locales (auto simp: keepAliveQuotedStep_def split: if_splits)

lemma keepAliveQuoted_gt:
  assumes "i < length t" shows "i < skipKeepAliveQuotedText t i q"
proof (cases "scan_loop at_index (length t) (keepAliveQuotedStep t q) (i + 1)")
  case (Return r)
  have "i < r"
    by (rule keep_quoted.return_from [OF Return, where I = "\<lambda>j. i < j"])
      (auto simp: keepAliveQuotedStep_def split: if_splits)
  with Return show ?thesis by (simp add: skipKeepAliveQuotedText_def)
qed (use assms in \<open>simp add: skipKeepAliveQuotedText_def\<close>)

lemmas keep_alive_gt = keepAliveQuoted_gt blockCommentEnd_gt
  less_le_trans [OF less_add_one keepAliveLine_ge]
  less_le_trans [OF less_add_Suc1 keepAliveLine_ge]

lemma keep_line_gt: "i < skipKeepAliveLineComment t (i + 1)" "i < skipKeepAliveLineComment t (i + 2)"
  "i < skipKeepAliveLineComment t (Suc i)" "i < skipKeepAliveLineComment t (Suc (Suc i))"
  using keepAliveLine_ge [of "i + 1" t] keepAliveLine_ge [of "i + 2" t] by simp_all

interpretation strip: total_scanner fst "length t" "stripStep t db" for t db
  by unfold_locales
    (auto simp: stripStep_def Let_def keepAliveQuoted_gt blockCommentEnd_gt keep_line_gt
      split: if_splits option.splits dest!: js_index_ofD)

interpretation executable_comment: scanner at_index "length t" "executableKeepAliveStep t db" for t db
  by unfold_locales
    (auto simp: executableKeepAliveStep_def keepAliveQuoted_gt blockCommentEnd_gt keep_line_gt split: if_splits)

interpretation trailing: scanner at_index "length t" "trailingTriviaStep t db" for t db
  by unfold_locales
    (auto simp: trailingTriviaStep_def keep_line_gt split: if_splits option.splits dest!: js_index_ofD)

section \<open>What passes as reading\<close>

lemma leadingCommentsLoop_suffix: "\<exists>pre. t = pre @ leadingCommentsLoop db t"
proof (induction db t rule: leadingCommentsLoop.induct)
  case (1 db t)
  show ?case
  proof (cases "t = [] \<or> dropLeadingComment t db = None")
    case True
    then show ?thesis by (auto simp: leadingCommentsLoop.simps [of db t])
  next
    case False
    then obtain r where r: "dropLeadingComment t db = Some r" "t \<noteq> []" by auto
    have drop: "\<exists>pre. t = pre @ js_trim_start (drop n t)" for n
      using js_trim_startE [of "drop n t"] by (metis append.assoc append_take_drop_id)
    then have "\<exists>pre. t = pre @ r"
      using r(1) by (auto simp: dropLeadingComment_def split: if_splits option.splits)
    with 1 [OF r(2,1)] show ?thesis
      by (simp add: leadingCommentsLoop.simps [of db t] r) (metis append.assoc)
  qed
qed

lemma read_only_no_write:
  assumes "isReadOnlySqlStatement statement dbType"
  defines "rest \<equiv> stripLeadingSqlComments statement dbType"
  shows "rest = []
    \<or> (extractLeadingSqlKeyword rest dbType \<in> set SQL_READ_ONLY_KEYWORDS
       \<and> firstWriteWord [] (sqlWords rest dbType) = [] \<and> (\<exists>pre. js_trim statement = pre @ rest))"
proof -
  have "\<exists>pre. js_trim statement = pre @ rest"
    unfolding rest_def stripLeadingSqlComments_def by (rule leadingCommentsLoop_suffix)
  moreover have "rest = [] \<or> (extractLeadingSqlKeyword rest dbType \<in> set SQL_READ_ONLY_KEYWORDS
      \<and> \<not> hasEmbeddedWriteStatement rest dbType)"
    using assms(1) unfolding isReadOnlySqlStatement_def Let_def rest_def [symmetric]
    by (simp del: js_Cons split: if_splits)
  ultimately show ?thesis by (simp add: embedded_write_words)
qed



section \<open>A comment that ends too early\<close>

lemma find_first: "\<forall>x\<in>set xs. \<not> P x \<Longrightarrow> P y \<Longrightarrow> find P (xs @ y # ys) = Some y"
  by (induction xs) auto

lemma js_index_of_first:
  assumes "prefix p (drop k t)" "i \<le> k" "k \<le> length t" "\<forall>j\<in>{i..<k}. \<not> prefix p (drop j t)"
  shows "js_index_of t p i = Some k"
proof -
  have up: "[i..<Suc (length t)] = [i..<k] @ k # [Suc k..<Suc (length t)]"
    using assms(2,3) upt_add_eq_append [of i k "Suc (length t) - k"] upt_conv_Cons [of k "Suc (length t)"]
    by (simp del: upt_Suc)
  show ?thesis unfolding js_index_of_def up
    by (rule find_first) (use assms in \<open>auto simp: js_starts_at_def\<close>)
qed

lemma sql_words_step:
  "i < length t \<Longrightarrow> skipQuotedOrComment t i db = Some k \<Longrightarrow> sqlWordsFrom t db i = sqlWordsFrom t db k"
  by (simp add: sqlWordsFrom_unfold [of i])

lemma js_index_of_none: "c \<notin> set t \<Longrightarrow> js_index_of t [c] k = None"
  by (auto simp: js_index_of_def find_None_iff js_starts_at_def prefix_def simp del: upt_Suc)
    (metis in_set_dropD list.set_intros(1))

lemma show_comment_words:
  assumes "10 \<notin> set u"
  shows "sqlWords (js ''show -- */ '' @ u) db = [js ''show'']"
proof -
  let ?t = "js ''show -- */ '' @ u"
  have nl: "js_index_of ?t [10] 5 = None" using assms by (intro js_index_of_none) simp
  have s0: "skipQuotedOrComment ?t 0 db = None" "skipQuotedOrComment ?t 4 db = None"
    by (simp_all add: skipQuotedOrComment_def js_starts_at_def)
  have s5: "skipQuotedOrComment ?t 5 db = Some (length ?t)"
    using nl by (simp add: skipQuotedOrComment_def js_starts_at_def isSqlDashLineCommentStart_def js_at_def
        isWhitespace_def lineCommentEnd_def)
  have w: "embeddedWord ?t 0 = js ''show''" "skip_while isSqlKeywordChar ?t 0 = 4"
    by (simp_all add: embeddedWord_def skip_while_def js_slice_def char_defs js_lower_def lower_unit_def)
  have lt: "0 < length ?t" "4 < length ?t" "5 < length ?t" by simp_all
  have c: "isSqlKeywordChar (?t ! 0)" "\<not> isSqlKeywordChar (?t ! 4)" by (simp_all add: char_defs)
  have "sqlWords ?t db = js ''show'' # sqlWordsFrom ?t db 4"
    unfolding sqlWordsFrom_unfold [OF lt(1), of db] s0 w using c by simp
  also have "sqlWordsFrom ?t db 4 = sqlWordsFrom ?t db (4 + 1)"
    unfolding sqlWordsFrom_unfold [OF lt(2), of db] s0 using c by simp
  also have "sqlWordsFrom ?t db (4 + 1) = []"
    using sql_words_step [OF lt(3) s5] by simp
  finally show ?thesis .
qed

lemma leading_comments_stop:
  "dropLeadingComment t db = None \<Longrightarrow> leadingCommentsLoop db t = t"
  by (subst leadingCommentsLoop.simps) simp

lemma leading_comments_step:
  "dropLeadingComment t db = Some r \<Longrightarrow> t \<noteq> [] \<Longrightarrow> leadingCommentsLoop db t = leadingCommentsLoop db r"
  by (subst leadingCommentsLoop.simps) simp

text \<open>
  Where the classification fails: the end of a leading block comment is searched from its first
  character, so \<open>/*/\<close> counts as a whole comment, which it is for no database. A statement that
  hides its text in this way passes as read-only in every dialect, whatever follows: the
  classifier sees a SHOW and a line comment, the database the end of a block comment and then the
  statement \<open>u\<close>.
\<close>

lemma short_comment_hides_a_write:
  assumes "10 \<notin> set u" "u \<noteq> []" "\<not> js_space (last u)"
  shows "isReadOnlySqlStatement (js ''/*/show -- */ '' @ u) dbType
    \<and> sqlWords (js ''/*/show -- */ '' @ u) dbType = sqlWordsFrom (js ''/*/show -- */ '' @ u) dbType 13"
proof
  let ?t = "js ''/*/show -- */ '' @ u" and ?r = "js ''show -- */ '' @ u"
  have trim: "js_trim ?t = ?t" "js_trim ?r = ?r" "js_trim_start ?r = ?r"
    using assms(2,3) by (auto intro!: js_trim_id simp: js_space_def js_trim_start_def)
  have "js_index_of ?t (js ''*/'') 0 = Some 1"
    by (rule js_index_of_first) (auto simp: atLeastLessThan_nat_numeral numeral_eq_Suc atLeastLessThanSuc)
  then have d: "dropLeadingComment ?t dbType = Some ?r"
    using trim(3) by (simp add: dropLeadingComment_def dashDashAt_def js_starts_at_def
        isExecutableBlockComment_def js_slice_def js_lower_def lower_unit_def)
  have nd: "dropLeadingComment ?r dbType = None"
    by (simp add: dropLeadingComment_def dashDashAt_def js_starts_at_def)
  have left: "stripLeadingSqlComments ?t dbType = ?r" "stripLeadingSqlComments ?r dbType = ?r"
    unfolding stripLeadingSqlComments_def trim
    using leading_comments_step [OF d] leading_comments_stop [OF nd] by simp_all
  have key: "extractLeadingSqlKeyword ?r dbType = js ''show''"
    unfolding extractLeadingSqlKeyword_def left Let_def
    by (simp add: js_at_is_def char_defs js_lower_def lower_unit_def)
  have "\<not> hasEmbeddedWriteStatement ?r dbType"
    using assms(1) by (simp add: embedded_write_words show_comment_words writeWord_def
        SQL_EMBEDDED_WRITE_KEYWORDS_def del: js_Cons) simp
  moreover have "js ''show'' \<in> set SQL_READ_ONLY_KEYWORDS" by (simp add: SQL_READ_ONLY_KEYWORDS_def)
  ultimately show "isReadOnlySqlStatement ?t dbType"
    unfolding isReadOnlySqlStatement_def Let_def left key by simp
  have "js_index_of ?t (js ''*/'') 2 = Some 11"
    by (rule js_index_of_first) (simp_all add: atLeastLessThan_nat_numeral numeral_eq_Suc atLeastLessThanSuc)
  then show "sqlWords ?t dbType = sqlWordsFrom ?t dbType 13"
    by (intro sql_words_step) (simp_all add: skipQuotedOrComment_def js_starts_at_def blockCommentEnd_def numeral_2_eq_2)
qed

lemma short_comment_hides_a_write_witness:
  "isReadOnlySqlStatement (js ''/*/show -- */ drop t'') (js ''mysql'')"
  using short_comment_hides_a_write [of "js ''drop t''" "js ''mysql''"] by (simp add: js_space_def)

section \<open>Keep-alive queries\<close>

lemma js_split_length: "length (js_split c s) = Suc (length (filter (\<lambda>x. x = c) s))"
  by (induction s) (auto split: list.splits simp: Suc_length_conv)

lemma filter_two_length:
  "a \<noteq> b \<Longrightarrow> length (filter (\<lambda>c. c = a \<or> c = b) s)
     = length (filter (\<lambda>c. c = a) s) + length (filter (\<lambda>c. c = b) s)"
  by (induction s) auto

lemma one_delimiter:
  "hasSafeKeepAliveStatementDelimiter sql db \<Longrightarrow> length (filter (\<lambda>c. c = 59 \<or> c = 65307) sql) \<le> 1"
  by (auto simp: hasSafeKeepAliveStatementDelimiter_def Let_def js_split_length filter_two_length
      split: if_splits)

lemma no_keyword_of_nothing:
  "stripLeadingSqlComments s db = [] \<Longrightarrow> extractLeadingSqlKeyword s db = []"
  by (simp add: extractLeadingSqlKeyword_def js_at_is_def)

lemma connection_read_only_no_write:
  assumes "isConnectionReadOnlyStatement convert parseJson config s"
    and "resolveConnectionReadOnlyType config \<noteq> js ''mongodb''"
  defines "dialect \<equiv> resolveConnectionReadOnlyType config"
  shows "stripLeadingSqlComments s dialect = []
    \<or> firstWriteWord [] (sqlWords (stripLeadingSqlComments s dialect) dialect) = []"
  using assms read_only_no_write [of s dialect] by (simp add: isConnectionReadOnlyStatement_def Let_def) blast

text \<open>
  A query accepted for keeping a connection alive is a single statement of the splitter; it
  starts with SELECT or WITH behind its comments and no word of it outside quotes and comments is a
  write keyword; and its text holds at most one statement delimiter, ASCII or full-width, counted
  everywhere, in quotes and comments too.
\<close>

lemma keep_alive_is_a_single_read:
  assumes "isSingleReadOnlyConnectionQuery convert parseJson config sql"
  shows "let dialect = resolveConnectionReadOnlyType config in
    \<exists>s. trimmedStatements sql dialect = [s]
      \<and> extractLeadingSqlKeyword s dialect \<in> {js ''select'', js ''with''}
      \<and> firstWriteWord [] (sqlWords (stripLeadingSqlComments s dialect) dialect) = []
      \<and> length (filter (\<lambda>c. c = 59 \<or> c = 65307) sql) \<le> 1"
proof -
  let ?d = "resolveConnectionReadOnlyType config" and ?ss = "trimmedStatements sql (resolveConnectionReadOnlyType config)"
  have supported: "supportsConnectionKeepAliveSQL config"
    and safe: "hasSafeKeepAliveStatementDelimiter sql ?d"
    and one: "length ?ss = 1"
    and key: "extractLeadingSqlKeyword (?ss ! 0) ?d \<in> {js ''select'', js ''with''}"
    and read: "isConnectionReadOnlyStatement convert parseJson config (?ss ! 0)"
    using assms unfolding isSingleReadOnlyConnectionQuery_def Let_def
    by (simp_all del: js_Cons split: if_splits)
  have "?d \<noteq> js ''mongodb''"
    using supported unfolding supportsConnectionKeepAliveSQL_def Let_def by blast
  moreover have "stripLeadingSqlComments (?ss ! 0) ?d \<noteq> []"
    using key no_keyword_of_nothing [of "?ss ! 0" ?d] by auto
  ultimately have "firstWriteWord [] (sqlWords (stripLeadingSqlComments (?ss ! 0) ?d) ?d) = []"
    using connection_read_only_no_write [OF read] by blast
  moreover obtain s where "?ss = [s]" using one by (cases ?ss) auto
  ultimately show ?thesis using key one_delimiter [OF safe] by (simp add: Let_def del: js_Cons)
qed

definition keepAliveExample :: "connectionConfig option" where
  "keepAliveExample = Some \<lparr>cc_type = js ''mysql'', cc_driver = [], cc_oceanBaseProtocol = [],
     cc_readOnly = True, cc_protection = None\<rparr>"

lemma keep_alive_is_a_single_read_witness:
  "\<exists>s. trimmedStatements (js ''select 1;'') (js ''mysql'') = [s]"
proof -
  have "isSingleReadOnlyConnectionQuery (\<lambda>_. None) (\<lambda>_. None) keepAliveExample (js ''select 1;'')"
    "resolveConnectionReadOnlyType keepAliveExample = js ''mysql''"
    by code_simp+
  with keep_alive_is_a_single_read show ?thesis by (metis (no_types, lifting))
qed

section \<open>Protection\<close>



lemma protection_keys_all: "set CONNECTION_PROTECTION_KEYS = UNIV"
  by (auto simp: CONNECTION_PROTECTION_KEYS_def intro: protectionKey.exhaust)

lemma protectionField_empty [simp]: "\<not> protectionField EMPTY_CONNECTION_PROTECTION key"
  by (cases key) (simp_all add: EMPTY_CONNECTION_PROTECTION_def)

lemma protectionField_full [simp]: "protectionField FULL_CONNECTION_PROTECTION key"
  by (cases key) (simp_all add: FULL_CONNECTION_PROTECTION_def)

text \<open>
  The protection settings of a connection: the number of enabled restrictions lies between 0
  and 4, the forced read-only state is all four of them, some protection is at least one; a
  connection of an unsupported type has none; and the legacy flag, where it is the only setting,
  enables all of them.
\<close>

lemma protection_settings_are_consistent:
  "getConnectionProtectionEnabledCount config \<le> 4
   \<and> (isConnectionForcedReadOnly config \<longleftrightarrow> getConnectionProtectionEnabledCount config = 4)
   \<and> (hasAnyConnectionProtection config \<longleftrightarrow> (\<exists>key. isConnectionProtectionEnabled config key))
   \<and> (hasAnyConnectionProtection config \<longrightarrow> supportsConnectionReadOnlyMode config)
   \<and> (\<forall>c. config = Some c \<and> supportsConnectionReadOnlyMode config \<and> cc_readOnly c
        \<and> cc_protection c \<in> {None, Some EMPTY_CONNECTION_PROTECTION} \<longrightarrow> isConnectionForcedReadOnly config)"
proof -
  let ?p = "resolveConnectionProtectionConfig config"
  have count: "getConnectionProtectionEnabledCount config
      = length (filter (protectionField ?p) CONNECTION_PROTECTION_KEYS)"
    by (simp add: getConnectionProtectionEnabledCount_def)
  have forced: "isConnectionForcedReadOnly config \<longleftrightarrow> (\<forall>key. protectionField ?p key)"
    by (simp add: isConnectionForcedReadOnly_def deriveLegacyConnectionReadOnlyFlag_def
        normalizeConnectionProtectionConfig_def protection_keys_all)
  have any: "hasAnyConnectionProtection config \<longleftrightarrow> (\<exists>key. protectionField ?p key)"
    by (auto simp: hasAnyConnectionProtection_def count filter_empty_conv protection_keys_all)
  have four: "length CONNECTION_PROTECTION_KEYS = 4" by (simp add: CONNECTION_PROTECTION_KEYS_def)
  have le: "length (filter (protectionField ?p) CONNECTION_PROTECTION_KEYS) \<le> 4"
    unfolding four [symmetric] by (rule length_filter_le)
  have all: "(\<forall>key. protectionField ?p key)
      \<longleftrightarrow> length (filter (protectionField ?p) CONNECTION_PROTECTION_KEYS) = 4"
    using filter_True length_filter_less four by (metis UNIV_I nat_neq_iff protection_keys_all)
  have supported: "supportsConnectionReadOnlyMode config" if "protectionField ?p key" for key
    using that by (auto simp: resolveConnectionProtectionConfig_def split: if_splits)
  have legacy: "protectionField ?p key" if "config = Some c" "supportsConnectionReadOnlyMode config"
    "cc_readOnly c" "cc_protection c \<in> {None, Some EMPTY_CONNECTION_PROTECTION}" for c key
    using that by (auto simp: resolveConnectionProtectionConfig_def normalizeConnectionProtectionConfig_def)
  show ?thesis
    unfolding count forced any isConnectionProtectionEnabled_def
    using le all supported legacy by blast
qed

lemma protection_settings_are_consistent_witness:
  "isConnectionForcedReadOnly keepAliveExample"
proof -
  have "supportsConnectionReadOnlyMode keepAliveExample" by code_simp
  moreover obtain c where "keepAliveExample = Some c" "cc_readOnly c" "cc_protection c = None"
    by (simp add: keepAliveExample_def)
  ultimately show ?thesis using protection_settings_are_consistent [of keepAliveExample] by blast
qed

end
