(* ===== verification/ExecutionLifecycle.thy ===== *)
theory ExecutionLifecycle
  imports JsText
begin

text \<open>
  \<open>components/queryEditor/queryEditorExecutionLifecycle.ts\<close> and the hook
  \<open>useQueryEditorExecutionLifecycle.ts\<close> that drives it: the state of a running query as the editor
  sees it from the progress events of the back end, and the timer that notices when they stop.

  An event is the record of its fields after their conversion to string, number or boolean (the
  absent field is the empty string, 0 or \<open>None\<close>); a payload that is no object is \<open>None\<close>. Times are
  integers of milliseconds. React delivers renders, events and timer ticks one after the other:
  \<open>hookStep\<close> is one of them.
\<close>

section \<open>Data\<close>

datatype lifecycleStatus =
  LcIdle | LcStarting | LcRunning | LcCancelling | LcStalled | LcDone | LcCancelled | LcError

record progressEvent =
  ev_queryId :: js_string
  ev_status :: js_string
  ev_stage :: js_string
  ev_elapsedMs :: int
  ev_cancellable :: bool
  ev_affectedRows :: "int option"
  ev_hasAffectedRows :: bool
  ev_message :: js_string
  ev_outcomeUnknown :: bool
  ev_cancellationState :: js_string

record lifecycle =
  lc_queryId :: js_string
  lc_status :: lifecycleStatus
  lc_stage :: js_string
  lc_elapsedMs :: int
  lc_lastEventAt :: int
  lc_cancellable :: bool
  lc_affectedRows :: "int option"
  lc_hasAffectedRows :: bool
  lc_message :: js_string
  lc_outcomeUnknown :: bool
  lc_backendAlive :: bool

definition QUERY_EXECUTION_STALL_MS :: int where
  "QUERY_EXECUTION_STALL_MS = 5000"

definition createIdleQueryEditorExecutionLifecycle :: lifecycle where
  "createIdleQueryEditorExecutionLifecycle =
     \<lparr>lc_queryId = [], lc_status = LcIdle, lc_stage = [], lc_elapsedMs = 0, lc_lastEventAt = 0,
      lc_cancellable = False, lc_affectedRows = None, lc_hasAffectedRows = False, lc_message = [],
      lc_outcomeUnknown = False, lc_backendAlive = False\<rparr>"

fun isActiveQueryEditorExecutionStatus :: "lifecycleStatus \<Rightarrow> bool" where
  "isActiveQueryEditorExecutionStatus LcStarting = True"
| "isActiveQueryEditorExecutionStatus LcRunning = True"
| "isActiveQueryEditorExecutionStatus LcCancelling = True"
| "isActiveQueryEditorExecutionStatus LcStalled = True"
| "isActiveQueryEditorExecutionStatus _ = False"

fun isTerminalQueryEditorExecutionStatus :: "lifecycleStatus \<Rightarrow> bool" where
  "isTerminalQueryEditorExecutionStatus LcDone = True"
| "isTerminalQueryEditorExecutionStatus LcCancelled = True"
| "isTerminalQueryEditorExecutionStatus LcError = True"
| "isTerminalQueryEditorExecutionStatus _ = False"

section \<open>Progress events\<close>

definition normalizeQueryExecutionProgressEvent :: "progressEvent option \<Rightarrow> progressEvent option" where
  "normalizeQueryExecutionProgressEvent payload =
     (case payload of None \<Rightarrow> None
      | Some event \<Rightarrow>
          (let queryId = js_trim (ev_queryId event) in
           if queryId = [] then None
           else Some (event\<lparr>ev_queryId := queryId, ev_status := js_lower (js_trim (ev_status event)),
                            ev_stage := js_trim (ev_stage event)\<rparr>)))"

definition mapQueryExecutionProgressStatus :: "js_string \<Rightarrow> lifecycleStatus \<Rightarrow> lifecycleStatus" where
  "mapQueryExecutionProgressStatus status fallback =
     (if status = js ''running'' then LcRunning
      else if status = js ''cancelling'' then LcCancelling
      else if status = js ''done'' then LcDone
      else if status = js ''cancelled'' then LcCancelled
      else if status = js ''error'' then LcError
      else if fallback = LcIdle then LcRunning else fallback)"

definition applyProgressEvent :: "lifecycle \<Rightarrow> progressEvent \<Rightarrow> int \<Rightarrow> lifecycle" where
  "applyProgressEvent current event now =
     (let status = mapQueryExecutionProgressStatus (ev_status event) (lc_status current) in
      \<lparr>lc_queryId = ev_queryId event, lc_status = status,
       lc_stage = js_or (ev_stage event) (lc_stage current),
       lc_elapsedMs = (if ev_elapsedMs event = 0 then lc_elapsedMs current else ev_elapsedMs event),
       lc_lastEventAt = now, lc_cancellable = ev_cancellable event,
       lc_affectedRows =
         (if ev_hasAffectedRows event
          then Some (case ev_affectedRows event of None \<Rightarrow> 0 | Some n \<Rightarrow> n) else lc_affectedRows current),
       lc_hasAffectedRows = (ev_hasAffectedRows event \<or> lc_hasAffectedRows current),
       lc_message = js_or (ev_message event) (lc_message current),
       lc_outcomeUnknown = (ev_outcomeUnknown event \<or> lc_outcomeUnknown current),
       lc_backendAlive = (status = LcRunning \<or> status = LcCancelling \<or> status = LcStalled)\<rparr>)"

definition reduceQueryEditorExecutionLifecycle ::
  "lifecycle \<Rightarrow> progressEvent option \<Rightarrow> int \<Rightarrow> lifecycle" where
  "reduceQueryEditorExecutionLifecycle current payload now =
     (case normalizeQueryExecutionProgressEvent payload of
        None \<Rightarrow> current
      | Some event \<Rightarrow>
          (if lc_queryId current \<noteq> [] \<and> lc_queryId current \<noteq> ev_queryId event
              \<and> isActiveQueryEditorExecutionStatus (lc_status current) then current
           else if lc_queryId current = ev_queryId event
              \<and> \<not> isActiveQueryEditorExecutionStatus (lc_status current)
              \<and> lc_status current \<noteq> LcIdle \<and> ev_status event = js ''running'' then current
           else applyProgressEvent current event now))"

definition markQueryEditorExecutionStalled :: "lifecycle \<Rightarrow> int \<Rightarrow> int \<Rightarrow> lifecycle" where
  "markQueryEditorExecutionStalled current now stallMs =
     (if \<not> isActiveQueryEditorExecutionStatus (lc_status current) then current
      else if lc_status current = LcStalled then current
      else if now - lc_lastEventAt current < stallMs then current
      else current\<lparr>lc_status := LcStalled, lc_backendAlive := True\<rparr>)"

definition resolveVisibleQueryEditorExecutionLifecycle :: "bool \<Rightarrow> lifecycle option \<Rightarrow> lifecycle option" where
  "resolveVisibleQueryEditorExecutionLifecycle loading state =
     (let starting = createIdleQueryEditorExecutionLifecycle\<lparr>lc_status := LcStarting, lc_backendAlive := True\<rparr> in
      if \<not> loading then None
      else (case state of
              None \<Rightarrow> Some starting
            | Some l \<Rightarrow>
                if isActiveQueryEditorExecutionStatus (lc_status l) then Some l
                else if isTerminalQueryEditorExecutionStatus (lc_status l) then None
                else Some starting))"

definition shouldApplyQueryExecutionProgressEvent :: "js_string \<Rightarrow> js_string \<Rightarrow> bool" where
  "shouldApplyQueryExecutionProgressEvent ownedQueryId eventQueryId \<longleftrightarrow>
     js_trim ownedQueryId \<noteq> [] \<and> js_trim eventQueryId \<noteq> [] \<and> js_trim ownedQueryId = js_trim eventQueryId"

section \<open>The end of the remote call\<close>

definition shouldRetainQueryEditorRun :: "lifecycle option \<Rightarrow> bool" where
  "shouldRetainQueryEditorRun state \<longleftrightarrow>
     (case state of None \<Rightarrow> False
      | Some s \<Rightarrow> isActiveQueryEditorExecutionStatus (lc_status s) \<and> lc_backendAlive s)"

definition shouldRetainQueryEditorRunAfterRpc :: "bool \<Rightarrow> lifecycle option \<Rightarrow> bool" where
  "shouldRetainQueryEditorRunAfterRpc rpcLostWithoutResult state \<longleftrightarrow>
     rpcLostWithoutResult \<and> shouldRetainQueryEditorRun state"

record cancelResult =
  cr_success :: bool
  cr_cancellationState :: js_string

definition shouldFinishQueryEditorRunAfterCancelMiss :: "cancelResult option \<Rightarrow> bool \<Rightarrow> bool" where
  "shouldFinishQueryEditorRunAfterCancelMiss result editorStillLoading \<longleftrightarrow>
     (case result of None \<Rightarrow> editorStillLoading
      | Some r \<Rightarrow>
          if cr_success r then False
          else if js_lower (js_trim (cr_cancellationState r)) = js ''unsupported'' then False
          else editorStillLoading)"

text \<open>An error value: its fields if it is an object, and the text \<open>String(error)\<close>.\<close>

record rpcError =
  re_code :: js_string
  re_dispatchState :: js_string
  re_message :: js_string
  re_text :: js_string

definition isWebRPCAbortError :: "rpcError option \<Rightarrow> bool" where
  "isWebRPCAbortError error \<longleftrightarrow>
     (case error of None \<Rightarrow> False | Some e \<Rightarrow> re_code e = js ''WEB_RPC_ABORTED'')"

definition shouldRetainQueryEditorRunAfterRpcFailure :: "rpcError option \<Rightarrow> lifecycle option \<Rightarrow> bool" where
  "shouldRetainQueryEditorRunAfterRpcFailure error state \<longleftrightarrow>
     (if \<not> shouldRetainQueryEditorRun state then False
      else if isWebRPCAbortError error
              \<and> (case error of None \<Rightarrow> False | Some e \<Rightarrow> re_dispatchState e = js ''not_started'') then False
      else True)"

definition isQueryEditorCancelledRpcError :: "rpcError option \<Rightarrow> bool" where
  "isQueryEditorCancelledRpcError error \<longleftrightarrow>
     (let message = js_lower (case error of None \<Rightarrow> [] | Some e \<Rightarrow> js_or (re_message e) (re_text e)) in
      js_includes message (js ''context canceled'') \<or> js_includes message (js ''context cancelled''))"

record affectedRowsResult =
  ar_key :: js_string
  ar_sql :: js_string
  ar_rows :: "int list"
  ar_columns :: "js_string list"
  ar_outcomeUnknown :: bool
  ar_pkColumns :: "js_string list"
  ar_readOnly :: bool

definition buildQueryEditorLifecycleAffectedRowsResult ::
  "js_string \<Rightarrow> lifecycle \<Rightarrow> affectedRowsResult option" where
  "buildQueryEditorLifecycleAffectedRowsResult sql state =
     (if lc_status state \<noteq> LcDone \<or> \<not> lc_hasAffectedRows state then None
      else Some \<lparr>ar_key = js ''result-1'', ar_sql = sql,
             ar_rows = [case lc_affectedRows state of None \<Rightarrow> 0 | Some n \<Rightarrow> n],
             ar_columns = [js ''affectedRows''], ar_outcomeUnknown = lc_outcomeUnknown state,
             ar_pkColumns = [], ar_readOnly = True\<rparr>)"

section \<open>Labels\<close>

fun queryEditorExecutionStatusI18nKey :: "lifecycleStatus \<Rightarrow> js_string" where
  "queryEditorExecutionStatusI18nKey LcCancelling = js ''query_editor.execution.status.cancelling''"
| "queryEditorExecutionStatusI18nKey LcStalled = js ''query_editor.execution.status.stalled''"
| "queryEditorExecutionStatusI18nKey LcDone = js ''query_editor.execution.status.done''"
| "queryEditorExecutionStatusI18nKey LcCancelled = js ''query_editor.execution.status.cancelled''"
| "queryEditorExecutionStatusI18nKey LcError = js ''query_editor.execution.status.error''"
| "queryEditorExecutionStatusI18nKey LcStarting = js ''query_editor.execution.status.running''"
| "queryEditorExecutionStatusI18nKey LcRunning = js ''query_editor.execution.status.running''"
| "queryEditorExecutionStatusI18nKey LcIdle = []"

definition queryEditorExecutionTimerStatusI18nKey :: "bool \<Rightarrow> lifecycle option \<Rightarrow> js_string" where
  "queryEditorExecutionTimerStatusI18nKey timingActive state =
     (case state of None \<Rightarrow> []
      | Some l \<Rightarrow>
          if isActiveQueryEditorExecutionStatus (lc_status l) \<and> \<not> timingActive then []
          else queryEditorExecutionStatusI18nKey (lc_status l))"

section \<open>The hook\<close>

text \<open>
  The refs of the hook; \<open>hk_terminal\<close> lists the states \<open>onTerminal\<close> was called with, newest first.
  A render carries the two props and runs the effect on \<open>loading\<close>.
\<close>

record hookState =
  hk_state :: lifecycle
  hk_queryId :: js_string
  hk_loading :: bool
  hk_wasLoading :: bool
  hk_terminal :: "lifecycle list"

datatype hookInput = Render js_string bool | Progress "progressEvent option" int | Tick int

definition hookInit :: "js_string \<Rightarrow> hookState" where
  "hookInit queryId =
     \<lparr>hk_state = createIdleQueryEditorExecutionLifecycle, hk_queryId = queryId, hk_loading = False,
      hk_wasLoading = False, hk_terminal = []\<rparr>"

definition renderStep :: "js_string \<Rightarrow> bool \<Rightarrow> hookState \<Rightarrow> hookState" where
  "renderStep queryId loading h =
     h\<lparr>hk_queryId := queryId, hk_loading := loading, hk_wasLoading := loading,
       hk_state := (if loading \<and> \<not> hk_wasLoading h then createIdleQueryEditorExecutionLifecycle
                    else hk_state h)\<rparr>"

definition progressStep :: "progressEvent option \<Rightarrow> int \<Rightarrow> hookState \<Rightarrow> hookState" where
  "progressStep payload now h =
     (if \<not> shouldApplyQueryExecutionProgressEvent (hk_queryId h)
             (case payload of None \<Rightarrow> [] | Some event \<Rightarrow> ev_queryId event) then h
      else
        (let next' = reduceQueryEditorExecutionLifecycle (hk_state h) payload now in
         h\<lparr>hk_state := next',
           hk_terminal := (if isTerminalQueryEditorExecutionStatus (lc_status next')
                           then next' # hk_terminal h else hk_terminal h)\<rparr>))"

definition tickStep :: "int \<Rightarrow> hookState \<Rightarrow> hookState" where
  "tickStep now h =
     (if \<not> hk_loading h then h
      else h\<lparr>hk_state := markQueryEditorExecutionStalled (hk_state h) now QUERY_EXECUTION_STALL_MS\<rparr>)"

fun hookStep :: "hookState \<Rightarrow> hookInput \<Rightarrow> hookState" where
  "hookStep h (Render queryId loading) = renderStep queryId loading h"
| "hookStep h (Progress payload now) = progressStep payload now h"
| "hookStep h (Tick now) = tickStep now h"

inductive hook_reachable :: "hookState \<Rightarrow> bool" where
  hook_start: "hook_reachable (hookInit queryId)"
| hook_next: "hook_reachable h \<Longrightarrow> hook_reachable (hookStep h i)"

abbreviation hookRun :: "hookState \<Rightarrow> hookInput list \<Rightarrow> hookState" where
  "hookRun \<equiv> foldl hookStep"

end
