(* ===== verification/ExecutionLifecycleProps.thy ===== *)
theory ExecutionLifecycleProps
  imports ExecutionLifecycle
begin

text \<open>
  The state machine of a running query: what holds in every reachable state of the hook, which events
  can change it, and when it notices that the back end has gone silent.
\<close>

section \<open>The invariant\<close>

definition lifecycle_ok :: "lifecycle \<Rightarrow> bool" where
  "lifecycle_ok l \<longleftrightarrow>
     (lc_backendAlive l \<longleftrightarrow> isActiveQueryEditorExecutionStatus (lc_status l))
     \<and> lc_status l \<noteq> LcStarting
     \<and> (lc_queryId l = [] \<longleftrightarrow> lc_status l = LcIdle)
     \<and> js_trim (lc_queryId l) = lc_queryId l
     \<and> (lc_hasAffectedRows l \<longleftrightarrow> lc_affectedRows l \<noteq> None)"

lemma status_classes:
  "isActiveQueryEditorExecutionStatus s \<longleftrightarrow> s \<in> {LcStarting, LcRunning, LcCancelling, LcStalled}"
  "isTerminalQueryEditorExecutionStatus s \<longleftrightarrow> s \<in> {LcDone, LcCancelled, LcError}"
  by (cases s; simp)+

lemma terminal_status:
  "isTerminalQueryEditorExecutionStatus s \<Longrightarrow> \<not> isActiveQueryEditorExecutionStatus s"
  "isTerminalQueryEditorExecutionStatus s \<Longrightarrow> s \<noteq> LcIdle"
  by (cases s; simp)+

lemma active_unless_starting:
  "s \<noteq> LcStarting \<Longrightarrow>
   isActiveQueryEditorExecutionStatus s \<longleftrightarrow> s = LcRunning \<or> s = LcCancelling \<or> s = LcStalled"
  by (cases s) simp_all

lemma mapped_status:
  "mapQueryExecutionProgressStatus s f \<in> {LcRunning, LcCancelling, LcDone, LcCancelled, LcError, f}"
  "mapQueryExecutionProgressStatus s f \<noteq> LcIdle"
  by (simp_all add: mapQueryExecutionProgressStatus_def del: js_Cons)

lemma lifecycle_ok_idle: "lifecycle_ok createIdleQueryEditorExecutionLifecycle"
  by (simp add: lifecycle_ok_def createIdleQueryEditorExecutionLifecycle_def)

lemma lifecycle_ok_apply:
  assumes "lifecycle_ok l" "ev_queryId e \<noteq> []" "js_trim (ev_queryId e) = ev_queryId e"
  shows "lifecycle_ok (applyProgressEvent l e now)"
proof -
  let ?s = "mapQueryExecutionProgressStatus (ev_status e) (lc_status l)"
  have "?s \<noteq> LcStarting" "?s \<noteq> LcIdle"
    using assms(1) mapped_status [of "ev_status e" "lc_status l"] by (auto simp: lifecycle_ok_def)
  then show ?thesis
    using assms by (simp add: lifecycle_ok_def applyProgressEvent_def active_unless_starting Let_def)
qed

lemma normalized_event:
  assumes "normalizeQueryExecutionProgressEvent payload = Some e"
  obtains raw where "payload = Some raw" "ev_queryId e = js_trim (ev_queryId raw)"
    "ev_queryId e \<noteq> []" "js_trim (ev_queryId e) = ev_queryId e"
    "ev_status e = js_lower (js_trim (ev_status raw))"
  using assms by (auto simp: normalizeQueryExecutionProgressEvent_def Let_def split: option.splits if_splits)

lemma reduce_cases:
  obtains (same) "reduceQueryEditorExecutionLifecycle l payload now = l"
  | (applied) e where "normalizeQueryExecutionProgressEvent payload = Some e"
      "reduceQueryEditorExecutionLifecycle l payload now = applyProgressEvent l e now"
proof -
  have "reduceQueryEditorExecutionLifecycle l payload now = l
      \<or> (\<exists>e. normalizeQueryExecutionProgressEvent payload = Some e
           \<and> reduceQueryEditorExecutionLifecycle l payload now = applyProgressEvent l e now)"
    by (auto simp: reduceQueryEditorExecutionLifecycle_def split: option.split)
  then show thesis using that by blast
qed

lemma lifecycle_ok_reduce:
  "lifecycle_ok l \<Longrightarrow> lifecycle_ok (reduceQueryEditorExecutionLifecycle l payload now)"
  by (rule reduce_cases [of l payload now]) (auto intro: lifecycle_ok_apply elim: normalized_event)

lemma lifecycle_ok_stalled:
  "lifecycle_ok l \<Longrightarrow> lifecycle_ok (markQueryEditorExecutionStalled l now ms)"
  by (auto simp: markQueryEditorExecutionStalled_def lifecycle_ok_def status_classes)

definition hook_ok :: "hookState \<Rightarrow> bool" where
  "hook_ok h \<longleftrightarrow> lifecycle_ok (hk_state h)
     \<and> (\<forall>t\<in>set (hk_terminal h). lifecycle_ok t \<and> isTerminalQueryEditorExecutionStatus (lc_status t))"

lemma hook_ok_step: "hook_ok h \<Longrightarrow> hook_ok (hookStep h i)"
  by (cases i)
    (auto simp: hook_ok_def renderStep_def progressStep_def tickStep_def Let_def
      lifecycle_ok_idle lifecycle_ok_reduce lifecycle_ok_stalled)

lemma hook_reachable_ok: "hook_reachable h \<Longrightarrow> hook_ok h"
  by (induction rule: hook_reachable.induct)
    (simp_all add: hook_ok_step, simp add: hook_ok_def hookInit_def lifecycle_ok_idle)

text \<open>
  C29. In every state the hook can reach: the back end counts as alive exactly in the active
  states; the state is idle exactly when it belongs to no query, and its query id is trimmed; a
  number of affected rows is kept exactly when the flag says there is one; and the terminal
  callback was only called with a terminal, not alive state of a query.
\<close>

theorem lifecycle_invariant:
  assumes "hook_reachable h"
  shows "let l = hk_state h in
    (lc_backendAlive l \<longleftrightarrow> isActiveQueryEditorExecutionStatus (lc_status l))
    \<and> (lc_queryId l = [] \<longleftrightarrow> lc_status l = LcIdle) \<and> js_trim (lc_queryId l) = lc_queryId l
    \<and> (lc_hasAffectedRows l \<longleftrightarrow> lc_affectedRows l \<noteq> None)
    \<and> (\<forall>t\<in>set (hk_terminal h). isTerminalQueryEditorExecutionStatus (lc_status t)
         \<and> \<not> lc_backendAlive t \<and> lc_queryId t \<noteq> [])"
  using hook_reachable_ok [OF assms] terminal_status
  unfolding hook_ok_def lifecycle_ok_def Let_def by blast

definition startedEvent :: progressEvent where
  "startedEvent = \<lparr>ev_queryId = js ''q'', ev_status = js ''running'', ev_stage = [], ev_elapsedMs = 1,
     ev_cancellable = True, ev_affectedRows = None, ev_hasAffectedRows = False, ev_message = [],
     ev_outcomeUnknown = False, ev_cancellationState = []\<rparr>"

theorem lifecycle_invariant_witness:
  "lc_backendAlive (hk_state (hookStep (hookStep (hookInit (js ''q'')) (Render (js ''q'') True))
     (Progress (Some startedEvent) 7)))"
proof -
  let ?h = "hookStep (hookStep (hookInit (js ''q'')) (Render (js ''q'') True)) (Progress (Some startedEvent) 7)"
  have "hook_reachable ?h" by (intro hook_next hook_start)
  moreover have "isActiveQueryEditorExecutionStatus (lc_status (hk_state ?h))" by code_simp
  ultimately show ?thesis using lifecycle_invariant [of ?h] by (simp only: Let_def)
qed

section \<open>Foreign events\<close>

text \<open>An input that carries an event of another query than \<open>q\<close>, or no event.\<close>

fun foreign_input :: "js_string \<Rightarrow> hookInput \<Rightarrow> bool" where
  "foreign_input q (Progress payload now) \<longleftrightarrow>
     (case payload of None \<Rightarrow> True | Some event \<Rightarrow> js_trim (ev_queryId event) \<noteq> js_trim q)"
| "foreign_input q _ \<longleftrightarrow> False"

fun keeps_query :: "js_string \<Rightarrow> hookInput \<Rightarrow> bool" where
  "keeps_query q (Render q' loading) \<longleftrightarrow> q' = q"
| "keeps_query q _ \<longleftrightarrow> True"

lemma foreign_step: "hk_queryId h = q \<Longrightarrow> foreign_input q i \<Longrightarrow> hookStep h i = h"
  by (cases i) (auto simp: progressStep_def shouldApplyQueryExecutionProgressEvent_def split: option.splits)

lemma keeps_query_step: "hk_queryId h = q \<Longrightarrow> keeps_query q i \<Longrightarrow> hk_queryId (hookStep h i) = q"
  by (cases i) (auto simp: progressStep_def renderStep_def tickStep_def Let_def)

lemma owned_step:
  assumes "hk_queryId h = q" "keeps_query q i" "lc_queryId (hk_state h) \<in> {[], js_trim q}"
  shows "lc_queryId (hk_state (hookStep h i)) \<in> {[], js_trim q}"
proof (cases i)
  case (Progress payload now)
  show ?thesis
    by (rule reduce_cases [of "hk_state h" payload now])
      (use assms Progress in \<open>auto simp: progressStep_def Let_def shouldApplyQueryExecutionProgressEvent_def
         applyProgressEvent_def elim!: normalized_event\<close>)
qed (use assms in \<open>auto simp: renderStep_def tickStep_def markQueryEditorExecutionStalled_def
       createIdleQueryEditorExecutionLifecycle_def\<close>)

text \<open>
  Queries do not interfere: while an editor owns the query \<open>q\<close>, the events of other queries
  and payloads that are no event can be dropped from the input without any effect on its state or
  on the terminal callbacks, and its state never belongs to another query.
\<close>

lemma foreign_events_do_not_interfere:
  assumes "hk_queryId h = q" "\<forall>i\<in>set inputs. keeps_query q i"
    and "lc_queryId (hk_state h) \<in> {[], js_trim q}"
  shows "hookRun h inputs = hookRun h (filter (\<lambda>i. \<not> foreign_input q i) inputs)
    \<and> lc_queryId (hk_state (hookRun h inputs)) \<in> {[], js_trim q}"
  using assms
proof (induction inputs arbitrary: h)
  case (Cons i inputs)
  then have "hookRun (hookStep h i) inputs = hookRun (hookStep h i) (filter (\<lambda>i. \<not> foreign_input q i) inputs)
      \<and> lc_queryId (hk_state (hookRun (hookStep h i) inputs)) \<in> {[], js_trim q}"
    by (intro Cons.IH) (simp_all add: keeps_query_step owned_step [simplified])
  then show ?case using foreign_step [OF Cons.prems(1), of i] by auto
qed auto

lemma foreign_events_do_not_interfere_witness:
  "hookRun (hookInit (js ''q'')) [Render (js ''q'') True, Progress None 3, Progress (Some startedEvent) 7]
   = hookRun (hookInit (js ''q'')) [Render (js ''q'') True, Progress (Some startedEvent) 7]"
proof -
  have "hookRun (hookInit (js ''q'')) [Render (js ''q'') True, Progress None 3, Progress (Some startedEvent) 7]
    = hookRun (hookInit (js ''q'')) (filter (\<lambda>i. \<not> foreign_input (js ''q'') i)
        [Render (js ''q'') True, Progress None 3, Progress (Some startedEvent) 7])"
    by (rule conjunct1 [OF foreign_events_do_not_interfere])
      (simp_all add: hookInit_def createIdleQueryEditorExecutionLifecycle_def)
  then show ?thesis by (simp add: startedEvent_def)
qed

section \<open>Terminal states\<close>

text \<open>
  The end of a query: in a terminal state an event of the same query gives an active state
  again exactly when its status is \<open>cancelling\<close>; a late heartbeat changes nothing, and an event with
  an unknown status keeps the terminal status. Timer ticks never leave a terminal state.
\<close>

lemma terminal_state_revived_by_cancelling:
  assumes "isTerminalQueryEditorExecutionStatus (lc_status l)"
    and "normalizeQueryExecutionProgressEvent payload = Some event" "ev_queryId event = lc_queryId l"
    and "next' = reduceQueryEditorExecutionLifecycle l payload now"
  shows "(isActiveQueryEditorExecutionStatus (lc_status next') \<longleftrightarrow> ev_status event = js ''cancelling'')
    \<and> (ev_status event = js ''running'' \<longrightarrow> next' = l)
    \<and> (ev_status event \<notin> set [js ''running'', js ''cancelling'', js ''done'', js ''cancelled'', js ''error'']
       \<longrightarrow> lc_status next' = lc_status l)
    \<and> markQueryEditorExecutionStalled l now stallMs = l"
proof -
  have l: "lc_status l \<in> {LcDone, LcCancelled, LcError}" using assms(1) by (simp add: status_classes)
  have next': "next' = (if ev_status event = js ''running'' then l else applyProgressEvent l event now)"
    unfolding assms(4) reduceQueryEditorExecutionLifecycle_def assms(2) using l assms(3)
    by (auto simp: status_classes simp del: js_Cons)
  have "isActiveQueryEditorExecutionStatus (lc_status next') \<longleftrightarrow> ev_status event = js ''cancelling''"
    unfolding next' using l
    by (auto simp: applyProgressEvent_def mapQueryExecutionProgressStatus_def status_classes)
  moreover have "lc_status next' = lc_status l"
    if "ev_status event \<notin> set [js ''running'', js ''cancelling'', js ''done'', js ''cancelled'', js ''error'']"
    unfolding next' using l that
    by (auto simp: applyProgressEvent_def mapQueryExecutionProgressStatus_def simp del: js_Cons)
  moreover have "markQueryEditorExecutionStalled l now stallMs = l"
    using l by (auto simp: markQueryEditorExecutionStalled_def status_classes)
  ultimately show ?thesis using next' by simp
qed

lemma terminal_state_revived_by_cancelling_witness:
  "isActiveQueryEditorExecutionStatus (lc_status (reduceQueryEditorExecutionLifecycle
     (createIdleQueryEditorExecutionLifecycle\<lparr>lc_queryId := js ''q'', lc_status := LcCancelled\<rparr>)
     (Some (startedEvent\<lparr>ev_status := js ''cancelling''\<rparr>)) 9))"
proof -
  let ?l = "createIdleQueryEditorExecutionLifecycle\<lparr>lc_queryId := js ''q'', lc_status := LcCancelled\<rparr>"
  let ?e = "startedEvent\<lparr>ev_status := js ''cancelling''\<rparr>"
  have "isTerminalQueryEditorExecutionStatus (lc_status ?l)" by simp
  moreover have "normalizeQueryExecutionProgressEvent (Some ?e) = Some ?e" by code_simp
  moreover have "ev_queryId ?e = lc_queryId ?l" by (simp add: startedEvent_def)
  moreover have "ev_status ?e = js ''cancelling''" by simp
  ultimately show ?thesis using terminal_state_revived_by_cancelling [of ?l "Some ?e" ?e] by blast
qed

section \<open>Silence\<close>

lemma stalled_stays: "hk_loading h \<Longrightarrow> lc_status (hk_state h) = LcStalled \<Longrightarrow> hookRun h (map Tick ts) = h"
  by (induction ts) (auto simp: tickStep_def markQueryEditorExecutionStalled_def)

text \<open>
  The editor notices a silent back end: while it is loading and no event arrives, ticks leave
  an active query alone as long as they all come less than five seconds after its last event, and
  the first later one marks it stalled, for good; ticks change nothing else.
\<close>

lemma silence_is_noticed:
  assumes "hk_loading h" "isActiveQueryEditorExecutionStatus (lc_status (hk_state h))"
    and "lc_status (hk_state h) \<noteq> LcStalled"
  shows "hookRun h (map Tick ts) =
    (if \<exists>t\<in>set ts. lc_lastEventAt (hk_state h) + QUERY_EXECUTION_STALL_MS \<le> t
     then h\<lparr>hk_state := hk_state h\<lparr>lc_status := LcStalled, lc_backendAlive := True\<rparr>\<rparr> else h)"
  using assms
proof (induction ts)
  case (Cons t ts)
  let ?stalled = "h\<lparr>hk_state := hk_state h\<lparr>lc_status := LcStalled, lc_backendAlive := True\<rparr>\<rparr>"
  have step: "hookStep h (Tick t) =
      (if lc_lastEventAt (hk_state h) + QUERY_EXECUTION_STALL_MS \<le> t then ?stalled else h)"
    using Cons.prems by (auto simp: tickStep_def markQueryEditorExecutionStalled_def)
  have "hookRun ?stalled (map Tick ts) = ?stalled" using Cons.prems by (intro stalled_stays) simp_all
  with step Cons show ?case by (auto simp del: hookStep.simps)
qed simp

lemma silence_is_noticed_witness:
  "lc_status (hk_state (hookRun (hookRun (hookInit (js ''q'')) [Render (js ''q'') True,
     Progress (Some startedEvent) 7]) (map Tick [1000, 5006, 5007, 6000]))) = LcStalled"
proof -
  let ?h = "hookRun (hookInit (js ''q'')) [Render (js ''q'') True, Progress (Some startedEvent) 7]"
  have s: "hk_loading ?h" "lc_status (hk_state ?h) = LcRunning" "lc_lastEventAt (hk_state ?h) = 7"
    by code_simp+
  then have "isActiveQueryEditorExecutionStatus (lc_status (hk_state ?h))"
    "lc_status (hk_state ?h) \<noteq> LcStalled" by (simp_all only: isActiveQueryEditorExecutionStatus.simps lifecycleStatus.distinct not_False_eq_True)
  from silence_is_noticed [OF s(1) this, of "[1000, 5006, 5007, 6000]"] s(3) show ?thesis
    by (simp del: foldl_Cons list.map js_Cons add: QUERY_EXECUTION_STALL_MS_def)
qed

end
