(* ===== verification/QueryPagination.thy ===== *)
theory QueryPagination
  imports SqlBuild SqlDialect QueryAutoLimit
begin

text \<open>
  \<open>src/frontend/src/utils/queryResultPagination.ts\<close>: the pages of a query result. The numbers
  passed in are integers or undefined (\<open>None\<close>), as the pager and the row counts give them; the
  digits of a LIMIT clause have their exact value, which is the code's below \<open>2 ^ 53\<close>.
\<close>

section \<open>Numbers\<close>

definition MAX_SAFE_INTEGER :: int where
  "MAX_SAFE_INTEGER = 2 ^ 53 - 1"

definition normalizePositiveInteger :: "int option \<Rightarrow> nat" where
  "normalizePositiveInteger v = (case v of None \<Rightarrow> 0 | Some n \<Rightarrow> nat n)"

text \<open>A value of a result row: a big integer, an integral or another number, a string, or anything else.\<close>

datatype cellValue = CvBigInt int | CvInteger int | CvOtherNumber | CvString js_string | CvOther

definition unsignedText :: "js_string \<Rightarrow> js_string" where
  "unsignedText s = (case s of [] \<Rightarrow> [] | c # cs \<Rightarrow> if c = 43 then cs else s)"

definition parseNonNegativeSafeInteger :: "cellValue \<Rightarrow> int option" where
  "parseNonNegativeSafeInteger v =
     (case v of
        CvBigInt n \<Rightarrow> if 0 \<le> n \<and> n \<le> MAX_SAFE_INTEGER then Some n else None
      | CvInteger n \<Rightarrow>
          if - MAX_SAFE_INTEGER \<le> n \<and> n \<le> MAX_SAFE_INTEGER \<and> 0 \<le> n then Some n else None
      | CvString s \<Rightarrow>
          (let digits = unsignedText (js_trim s) in
           if digits = [] \<or> (\<exists>c\<in>set digits. \<not> ascii_digit c) then None
           else if int (digits_value digits) \<le> MAX_SAFE_INTEGER then Some (int (digits_value digits))
           else None)
      | _ \<Rightarrow> None)"

text \<open>\<open>for (const x of xs) { const r = f(x); if (r !== null) return r; }\<close>\<close>

fun firstResult :: "('a \<Rightarrow> 'b option) \<Rightarrow> 'a list \<Rightarrow> 'b option" where
  "firstResult f [] = None"
| "firstResult f (x # xs) = (case f x of None \<Rightarrow> firstResult f xs | Some r \<Rightarrow> Some r)"

definition isTotalKey :: "js_string \<Rightarrow> bool" where
  "isTotalKey key \<longleftrightarrow>
     (let normalizedKey = js_lower (js_trim key) in
      normalizedKey = js ''__gonavi_total__'' \<or> normalizedKey = js ''total''
      \<or> js_includes normalizedKey (js ''count''))"

text \<open>The row is the list of its entries, \<open>None\<close> where it is no object.\<close>

definition parseQueryResultTotalCount :: "(js_string \<times> cellValue) list option \<Rightarrow> int option" where
  "parseQueryResultTotalCount row =
     (case row of None \<Rightarrow> None
      | Some entries \<Rightarrow>
          if entries = [] then None
          else (case firstResult (\<lambda>(key, v). if isTotalKey key then parseNonNegativeSafeInteger v else None) entries of
                  Some n \<Rightarrow> Some n
                | None \<Rightarrow> firstResult (\<lambda>(key, v). parseNonNegativeSafeInteger v) entries))"

section \<open>The LIMIT clause of a statement\<close>

text \<open>\<open>replace(/\s+/g, ' ')\<close>, and \<open>replace(/;+\s*$/g, '')\<close>.\<close>

fun collapseSpaces :: "js_string \<Rightarrow> js_string" where
  "collapseSpaces [] = []"
| "collapseSpaces (c # s) =
     (if js_space c then (if s \<noteq> [] \<and> js_space (hd s) then collapseSpaces s else 32 # collapseSpaces s)
      else c # collapseSpaces s)"

definition dropFinalSemicolons :: "js_string \<Rightarrow> js_string" where
  "dropFinalSemicolons s =
     (if js_trim_end s \<noteq> [] \<and> last (js_trim_end s) = 59
      then rev (dropWhile (\<lambda>c. c = 59) (rev (js_trim_end s))) else s)"

definition normalizeSqlForComparison :: "js_string \<Rightarrow> js_string" where
  "normalizeSqlForComparison sql = js_lower (js_trim (dropFinalSemicolons (collapseSpaces sql)))"

definition normalizePaginationStatement :: "js_string \<Rightarrow> js_string \<Rightarrow> js_string" where
  "normalizePaginationStatement sql dialect = js_trim (sc_main (splitSqlTail sql dialect))"

definition digitsAt :: "js_string \<Rightarrow> nat \<Rightarrow> js_string" where
  "digitsAt t i = takeWhile ascii_digit (drop i t)"

text \<open>
  The three patterns \<open>/^limit\s+(\d+)\s*,\s*(\d+)$/i\<close>, \<open>/^limit\s+(\d+)\s+offset\s+(\d+)$/i\<close> and
  \<open>/^limit\s+(\d+)$/i\<close>: the limit and the offset. They share their start and no two of them match the
  same text.
\<close>

definition parseLimitClause :: "js_string \<Rightarrow> (nat \<times> nat) option" where
  "parseLimitClause t =
     (let a = skip_space t 5; first = digitsAt t a; b = a + length first; c = skip_space t b in
      if \<not> kw_at (js ''limit'') t 0 \<or> a = 5 \<or> first = [] then None
      else if b = length t then Some (digits_value first, 0)
      else if js_at t c = Some 44 then
        (let d = skip_space t (c + 1); second = digitsAt t d in
         if second \<noteq> [] \<and> d + length second = length t then Some (digits_value second, digits_value first)
         else None)
      else if b < c \<and> kw_at (js ''offset'') t c then
        (let d = skip_space t (c + 6); second = digitsAt t d in
         if c + 6 < d \<and> second \<noteq> [] \<and> d + length second = length t
         then Some (digits_value first, digits_value second) else None)
      else None)"

record limitInfo =
  li_baseSql :: js_string
  li_limit :: nat
  li_offset :: nat

definition parseTopLevelLimit :: "js_string \<Rightarrow> js_string \<Rightarrow> limitInfo option" where
  "parseTopLevelLimit sql dialect =
     (let main = normalizePaginationStatement sql dialect;
          statement = (if dialect = js ''dameng'' then splitTrailingIsolationClause main
                       else \<lparr>sc_main = main, sc_tail = []\<rparr>) in
      case findTopLevelKeyword (sc_main statement) (js ''limit'') dialect of
        None \<Rightarrow> None
      | Some limitPos \<Rightarrow>
          (let fromPos = findTopLevelKeyword (sc_main statement) (js ''from'') dialect in
           if (case fromPos of None \<Rightarrow> False | Some p \<Rightarrow> limitPos < p) then None
           else
             (let baseSql = js_trim_end (take limitPos (sc_main statement)) @ sc_tail statement in
              case parseLimitClause (js_trim (drop limitPos (sc_main statement))) of
                None \<Rightarrow> None
              | Some (limit, offset) \<Rightarrow>
                  if 0 < limit then Some \<lparr>li_baseSql = baseSql, li_limit = limit, li_offset = offset\<rparr>
                  else None)))"

definition stripExplicitLimitForExport :: "js_string \<Rightarrow> js_string \<Rightarrow> js_string" where
  "stripExplicitLimitForExport sql dialect =
     (case parseTopLevelLimit sql dialect of
        Some parsed \<Rightarrow> if li_baseSql parsed \<noteq> [] then li_baseSql parsed
                       else normalizePaginationStatement sql dialect
      | None \<Rightarrow> normalizePaginationStatement sql dialect)"

definition wasLimitAppliedByQueryEditorCap ::
  "js_string \<Rightarrow> js_string \<Rightarrow> js_string \<Rightarrow> js_string \<Rightarrow> nat \<Rightarrow> bool" where
  "wasLimitAppliedByQueryEditorCap executedSql exportSql dbType driver pageSize \<longleftrightarrow>
     (let executed = js_trim executedSql; exportable = js_trim exportSql in
      if executed = [] \<or> exportable = [] then False
      else if normalizeSqlForComparison executed = normalizeSqlForComparison exportable then False
      else
        (let dialect = resolveSqlDialect (js_or dbType (js ''mysql'')) driver [];
             exportBaseSql = stripExplicitLimitForExport exportable dialect in
         if normalizeSqlForComparison (stripExplicitLimitForExport executed dialect)
            = normalizeSqlForComparison exportBaseSql then True
         else if pageSize = 0 \<or> \<not> isSelectStatement exportBaseSql dialect then False
         else normalizeSqlForComparison executed
           = normalizeSqlForComparison (buildPaginatedSelectSQL dialect exportBaseSql [] (int pageSize) 0)))"

section \<open>The SQL of a page and of the count\<close>

definition resolveWrappedBaseSql :: "js_string \<Rightarrow> js_string \<Rightarrow> js_string" where
  "resolveWrappedBaseSql dbType baseSql =
     (let normalizedType = js_lower (js_trim dbType); base = js_trim baseSql in
      if normalizedType = js ''oracle'' \<or> normalizedType = js ''dameng'' then
        js ''SELECT * FROM ('' @ base @ js '') '' @ [34] @ js ''__gonavi_query_page__'' @ [34]
      else js ''SELECT * FROM ('' @ base @ js '') AS __gonavi_query_page__'')"

definition buildQueryResultCountSql :: "js_string \<Rightarrow> js_string \<Rightarrow> js_string" where
  "buildQueryResultCountSql baseSql dbType =
     (let dialect = dialectOf dbType;
          mainSql = js_trim (sc_main (splitSqlTail baseSql dialect)) in
      if mainSql = [] then []
      else
        (let statement = splitTrailingIsolationClause mainSql;
             countBaseSql = js_trim (case findTopLevelKeyword (sc_main statement) (js ''order by'') dialect of
                                       Some p \<Rightarrow> take p (sc_main statement) | None \<Rightarrow> sc_main statement) in
         if countBaseSql = [] then []
         else js ''SELECT COUNT(*) AS __gonavi_total__ FROM ('' @ countBaseSql
              @ js '') __gonavi_query_count__'' @ sc_tail statement))"

record pageParams =
  pp_baseSql :: js_string
  pp_dbType :: js_string
  pp_driver :: js_string
  pp_oceanBaseProtocol :: js_string
  pp_page :: "int option"
  pp_pageSize :: "int option"
  pp_lookahead :: bool
  pp_sortInfo :: "sortInfoItem list"

text \<open>\<open>Math.max(1, Math.floor(Number(x) || 1))\<close>\<close>

definition pageNumber :: "int option \<Rightarrow> nat" where
  "pageNumber v = (case v of None \<Rightarrow> 1 | Some n \<Rightarrow> nat (max 1 n))"

definition buildQueryResultPageSql :: "pageParams \<Rightarrow> js_string" where
  "buildQueryResultPageSql params =
     (let pageSize = normalizePositiveInteger (pp_pageSize params);
          dialect = resolveSqlDialect (js_or (pp_dbType params) (js ''mysql'')) (pp_driver params)
                      (pp_oceanBaseProtocol params);
          orderBySql = buildOrderBySQL dialect (ManySort (pp_sortInfo params)) [];
          statement = (if dialect = js ''dameng'' then splitTrailingIsolationClause (pp_baseSql params)
                       else \<lparr>sc_main = pp_baseSql params, sc_tail = []\<rparr>) in
      if pageSize = 0 then
        (if orderBySql = [] then js_trim (pp_baseSql params)
         else resolveWrappedBaseSql dialect (sc_main statement) @ orderBySql @ sc_tail statement)
      else
        (let page = pageNumber (pp_page params);
             limit = (if pp_lookahead params then pageSize + 1 else pageSize);
             offset = (page - 1) * pageSize in
         buildPaginatedSelectSQL dialect (resolveWrappedBaseSql dialect (sc_main statement)) orderBySql
           (int limit) (int offset) @ sc_tail statement))"

section \<open>The state of the pager\<close>

record paginationTotal =
  pt_total :: nat
  pt_totalKnown :: bool

definition resolveQueryResultPaginationTotal ::
  "int option \<Rightarrow> int option \<Rightarrow> int option \<Rightarrow> bool option \<Rightarrow> paginationTotal" where
  "resolveQueryResultPaginationTotal current' pageSize' rowCount' hasNext =
     (let current = pageNumber current'; pageSize = normalizePositiveInteger pageSize';
          rowCount = normalizePositiveInteger rowCount' in
      if pageSize = 0 then \<lparr>pt_total = rowCount, pt_totalKnown = True\<rparr>
      else if hasNext = Some True then \<lparr>pt_total = (current + 1) * pageSize, pt_totalKnown = False\<rparr>
      else if hasNext = Some False then
        \<lparr>pt_total = (current - 1) * pageSize + rowCount, pt_totalKnown = True\<rparr>
      else if pageSize \<le> rowCount then \<lparr>pt_total = (current + 1) * pageSize, pt_totalKnown = False\<rparr>
      else \<lparr>pt_total = (current - 1) * pageSize + rowCount, pt_totalKnown = True\<rparr>)"

record pagination =
  pg_current :: nat
  pg_pageSize :: nat
  pg_total :: nat
  pg_totalKnown :: bool
  pg_baseSql :: js_string
  pg_exportAllSql :: js_string

record initialParams =
  ip_executedSql :: js_string
  ip_exportSql :: js_string
  ip_dbType :: js_string
  ip_driver :: js_string
  ip_returnedRowCount :: "int option"
  ip_fallbackPageSize :: "int option"

text \<open>\<open>limit || fallback || rows\<close> on non-negative numbers.\<close>

definition firstPositive :: "nat \<Rightarrow> nat \<Rightarrow> nat" where
  "firstPositive a b = (if a = 0 then b else a)"

definition createInitialQueryResultPagination :: "initialParams \<Rightarrow> pagination option" where
  "createInitialQueryResultPagination params =
     (let executedSql = js_trim (ip_executedSql params);
          dialect = resolveSqlDialect (js_or (ip_dbType params) (js ''mysql'')) (ip_driver params) [] in
      if executedSql = [] \<or> \<not> isSelectStatement executedSql dialect then None
      else
        (let explicitLimit = parseTopLevelLimit executedSql dialect;
             mainSql = normalizePaginationStatement executedSql dialect;
             fallbackPageSize = normalizePositiveInteger (ip_fallbackPageSize params);
             rows = normalizePositiveInteger (ip_returnedRowCount params);
             pageSize = firstPositive (case explicitLimit of None \<Rightarrow> 0 | Some l \<Rightarrow> li_limit l)
                          (firstPositive fallbackPageSize rows);
             current = (case explicitLimit of None \<Rightarrow> 1 | Some l \<Rightarrow> li_offset l div pageSize + 1) in
         if pageSize = 0 then None
         else if current \<le> 1 \<and> rows < pageSize then None
         else
           (let exportSql = js_trim (ip_exportSql params);
                exportAllSql = (if exportSql \<noteq> [] \<and> isSelectStatement exportSql dialect
                                then stripExplicitLimitForExport exportSql dialect
                                else stripExplicitLimitForExport executedSql dialect);
                autoLimitCap = (current = 1 \<and> wasLimitAppliedByQueryEditorCap executedSql exportSql
                                  (ip_dbType params) (ip_driver params) fallbackPageSize);
                baseSql = (if autoLimitCap \<and> exportAllSql \<noteq> [] then exportAllSql
                           else js_or (case explicitLimit of None \<Rightarrow> [] | Some l \<Rightarrow> li_baseSql l) mainSql);
                totalState = resolveQueryResultPaginationTotal (Some (int current)) (Some (int pageSize))
                               (Some (int rows)) None in
            if baseSql = [] then None
            else Some \<lparr>pg_current = current, pg_pageSize = pageSize, pg_total = pt_total totalState,
                        pg_totalKnown = pt_totalKnown totalState, pg_baseSql = baseSql,
                        pg_exportAllSql = exportAllSql\<rparr>)))"

end
