(* ===== verification/QueryPaginationProps.thy ===== *)
theory QueryPaginationProps
  imports QueryPagination
begin

text \<open>
  The pages of a query result: the total the pager shows, the page that a page query asks for, and
  the total read from a count query.
\<close>

section \<open>The total of the pager\<close>

text \<open>
  With at least one row per page and at most a page of rows returned, the pager offers a next
  page exactly when the caller knows of one or, not knowing, a full page came back; the total covers
  the rows seen so far and at most one page more than the current one; and a total that counts as
  known is the number of rows seen.
\<close>

lemma pager_offers_next_page:
  assumes "0 < pageSize" "rows \<le> pageSize" "0 < current"
  shows "let r = resolveQueryResultPaginationTotal (Some (int current)) (Some (int pageSize)) (Some (int rows)) hasNext;
             seen = (current - 1) * pageSize + rows in
    (current * pageSize < pt_total r \<longleftrightarrow> hasNext = Some True \<or> (hasNext = None \<and> rows = pageSize))
    \<and> seen \<le> pt_total r \<and> pt_total r \<le> (current + 1) * pageSize
    \<and> (pt_totalKnown r \<longrightarrow> pt_total r = seen)"
proof -
  have "current * pageSize = (current - 1) * pageSize + pageSize"
    using assms(3) by (cases current) simp_all
  with assms show ?thesis
    by (cases hasNext)
      (auto simp: resolveQueryResultPaginationTotal_def pageNumber_def normalizePositiveInteger_def
        Let_def max_def)
qed

lemma pager_offers_next_page_witness:
  "20 < pt_total (resolveQueryResultPaginationTotal (Some (int 2)) (Some (int 10)) (Some (int 10)) None)"
proof -
  have "0 < (10::nat)" "10 \<le> (10::nat)" "0 < (2::nat)" by simp_all
  from pager_offers_next_page [OF this, of None] show ?thesis unfolding Let_def by simp
qed

lemma guarded_pagination:
  assumes "(if c then None else if pageSize = 0 then None else if current \<le> 1 \<and> rows < pageSize then None
      else if base = [] then None
      else Some \<lparr>pg_current = current, pg_pageSize = pageSize, pg_total = pt_total r, pg_totalKnown = pt_totalKnown r,
                  pg_baseSql = base, pg_exportAllSql = e\<rparr>) = Some p"
    and "0 < current"
    and "r = resolveQueryResultPaginationTotal (Some (int current)) (Some (int pageSize)) (Some (int rows)) None"
  shows "\<exists>current pageSize. pageSize \<noteq> 0 \<and> \<not> (current \<le> 1 \<and> rows < pageSize) \<and> 0 < current
    \<and> pg_current p = current \<and> pg_pageSize p = pageSize \<and> pg_baseSql p \<noteq> []
    \<and> pg_total p = pt_total (resolveQueryResultPaginationTotal (Some (int current)) (Some (int pageSize)) (Some (int rows)) None)
    \<and> pg_totalKnown p = pt_totalKnown (resolveQueryResultPaginationTotal (Some (int current)) (Some (int pageSize)) (Some (int rows)) None)"
  using assms by (auto split: if_splits)

lemma positive_page: "0 < (case x of None \<Rightarrow> (1::nat) | Some l \<Rightarrow> f l + 1)"
  by (cases x) simp_all

lemmas initial_pagination_fields =
  guarded_pagination [OF _ positive_page refl, OF trans [OF createInitialQueryResultPagination_def [unfolded Let_def, symmetric]]]

definition pagedExample :: initialParams where
  "pagedExample = \<lparr>ip_executedSql = js ''select a'', ip_exportSql = [], ip_dbType = js ''mysql'', ip_driver = [],
     ip_returnedRowCount = Some 2, ip_fallbackPageSize = Some 2\<rparr>"

text \<open>
  A query result is paged only from a statement and a positive page size; the first page is
  paged only when it is full, and then a second one is offered; the statement that is paged is never
  empty.
\<close>

lemma initial_pagination_is_sound:
  assumes "createInitialQueryResultPagination params = Some p"
  shows "0 < pg_pageSize p \<and> 0 < pg_current p \<and> pg_baseSql p \<noteq> []
    \<and> (pg_current p = 1 \<longrightarrow> pg_total p = 2 * pg_pageSize p \<and> \<not> pg_totalKnown p
         \<and> pg_pageSize p \<le> normalizePositiveInteger (ip_returnedRowCount params))
    \<and> (pg_totalKnown p \<longrightarrow> pg_total p < pg_current p * pg_pageSize p)"
proof -
  let ?rows = "normalizePositiveInteger (ip_returnedRowCount params)"
  obtain current pageSize where *: "pageSize \<noteq> 0" "\<not> (current \<le> 1 \<and> ?rows < pageSize)" "0 < current"
    "pg_current p = current" "pg_pageSize p = pageSize" "pg_baseSql p \<noteq> []"
    and total: "pg_total p = pt_total (resolveQueryResultPaginationTotal (Some (int current)) (Some (int pageSize)) (Some (int ?rows)) None)"
    "pg_totalKnown p = pt_totalKnown (resolveQueryResultPaginationTotal (Some (int current)) (Some (int pageSize)) (Some (int ?rows)) None)"
    using initial_pagination_fields [OF assms] by blast
  have "current * pageSize = (current - 1) * pageSize + pageSize"
    using *(3) by (cases current) simp_all
  with * total show ?thesis
    by (auto simp: resolveQueryResultPaginationTotal_def pageNumber_def normalizePositiveInteger_def [of "Some _"]
        Let_def max_def split: if_splits)
qed

lemma initial_pagination_is_sound_witness:
  "pg_total (the (createInitialQueryResultPagination pagedExample)) = 4"
proof -
  have "createInitialQueryResultPagination pagedExample \<noteq> None"
    "pg_current (the (createInitialQueryResultPagination pagedExample)) = 1"
    "pg_pageSize (the (createInitialQueryResultPagination pagedExample)) = 2" by code_simp+
  then show ?thesis using initial_pagination_is_sound [of pagedExample] by force
qed

section \<open>The page of a page query\<close>

lemma skip_one_space:
  assumes "t = p @ 32 # q" "length p = i" "q \<noteq> []" "\<not> js_space (hd q)"
  shows "skip_space t i = i + 1"
  using assms by (cases q) (auto simp: js_space_def)

lemma digits_at:
  assumes "t = p @ d @ q" "length p = i" "\<forall>c\<in>set d. ascii_digit c" "q = [] \<or> \<not> ascii_digit (hd q)"
  shows "digitsAt t i = d"
  using assms by (cases q) (auto simp: digitsAt_def takeWhile_append2)

lemma digit_not_space: "ascii_digit c \<Longrightarrow> \<not> js_space c"
  by (auto simp: char_defs)

lemma nat_text_hd: "\<not> js_space (hd (nat_text n))"
  by (rule digit_not_space, rule nat_text_digits [of _ n]) simp

lemma nat_text_last: "\<not> js_space (last (nat_text n))"
  by (rule digit_not_space, rule nat_text_digits [of _ n]) simp

lemma limit_clause_roundtrip: "parseLimitClause (js_trim (limitOffset l k)) = Some (l, k)"
proof -
  let ?t = "js ''LIMIT '' @ nat_text l @ js '' OFFSET '' @ nat_text k"
  have trim: "js_trim (limitOffset l k) = ?t"
    unfolding limitOffset_def js_trim_def js_trim_start_def js_trim_end_def
    using nat_text_last [of k] by (simp add: js_space_def hd_rev [symmetric] dropWhile_eq_self_iff)
  have a: "skip_space ?t 5 = 6"
    by (rule trans [OF skip_one_space [where p = "js ''LIMIT''" and q = "nat_text l @ js '' OFFSET '' @ nat_text k"]])
      (simp_all add: nat_text_hd)
  have first: "digitsAt ?t 6 = nat_text l"
    by (rule digits_at [where p = "js ''LIMIT ''" and q = "js '' OFFSET '' @ nat_text k"])
      (use nat_text_digits [unfolded ascii_digit_def] in \<open>auto simp: ascii_digit_def\<close>)
  have c: "skip_space ?t (6 + length (nat_text l)) = 7 + length (nat_text l)"
    by (rule trans [OF skip_one_space [where p = "js ''LIMIT '' @ nat_text l" and q = "js ''OFFSET '' @ nat_text k"]])
      (simp_all add: js_space_def)
  have upper: "js_fold (js ''LIMIT'') = js ''limit''" "js_fold (js ''OFFSET'') = js ''offset''" by code_simp+
  let ?p = "js ''LIMIT '' @ nat_text l @ [32]"
  have parts: "?t = [] @ js ''LIMIT'' @ 32 # nat_text l @ js '' OFFSET '' @ nat_text k"
    "?t = ?p @ js ''OFFSET'' @ 32 # nat_text k" "7 + length (nat_text l) = length ?p"
    by simp_all
  have kw0: "kw_at (js ''limit'') ?t 0"
    using kw_at_append [OF upper(1), of "[]"] unfolding parts(1) list.size by blast
  have kw: "kw_at (js ''offset'') ?t (7 + length (nat_text l))"
    unfolding parts(2,3) by (rule kw_at_append [OF upper(2)])
  have d: "skip_space ?t (7 + length (nat_text l) + 6) = 14 + length (nat_text l)"
    by (rule trans [OF skip_one_space [where p = "js ''LIMIT '' @ nat_text l @ js '' OFFSET''" and q = "nat_text k"]])
      (simp_all add: nat_text_hd)
  have second: "digitsAt ?t (14 + length (nat_text l)) = nat_text k"
    by (rule digits_at [where p = "js ''LIMIT '' @ nat_text l @ js '' OFFSET ''" and q = "[]"])
      (simp_all add: nat_text_digits)
  have at: "js_at ?t (7 + length (nat_text l)) = Some 79"
    by (simp add: js_at_def nth_append)
  have len: "length ?t = 14 + length (nat_text l) + length (nat_text k)" by simp
  show ?thesis
    unfolding trim parseLimitClause_def Let_def a first c d second at len
    using kw0 kw by (simp del: js_Cons)
qed

lemma wrapped_trim: "js_trim (resolveWrappedBaseSql d sql) = resolveWrappedBaseSql d sql"
  unfolding resolveWrappedBaseSql_def Let_def
  by (cases "js_lower (js_trim d) = js ''oracle'' \<or> js_lower (js_trim d) = js ''dameng''")
    (simp_all add: js_trim_id js_space_def)

text \<open>
  The page query asks for the page it is built for: outside Oracle, Dameng and SQL Server it is
  the wrapped statement, the ORDER BY and a LIMIT clause, and reading the clause back gives the page
  size and an offset that is the start of exactly that page.
\<close>

lemma page_query_asks_for_the_page:
  assumes "pp_page params = Some (int page)" "0 < page"
    and "pp_pageSize params = Some (int pageSize)" "0 < pageSize" "\<not> pp_lookahead params"
    and "dialect = resolveSqlDialect (js_or (pp_dbType params) (js ''mysql'')) (pp_driver params) (pp_oceanBaseProtocol params)"
    and "dialect \<noteq> js ''dameng''"
    and "js_lower (js_trim dialect) \<notin> {js ''oracle'', js ''dameng'', js ''sqlserver'', js ''mssql''}"
  shows "\<exists>clause offset. buildQueryResultPageSql params
      = resolveWrappedBaseSql dialect (pp_baseSql params)
        @ buildOrderBySQL dialect (ManySort (pp_sortInfo params)) [] @ clause
    \<and> parseLimitClause (js_trim clause) = Some (pageSize, offset)
    \<and> offset div pageSize + 1 = page \<and> pageSize dvd offset"
proof (intro exI conjI)
  have p: "pageNumber (pp_page params) = page" "normalizePositiveInteger (pp_pageSize params) = pageSize"
    using assms(1-3) by (simp_all add: pageNumber_def normalizePositiveInteger_def)
  have "resolveWrappedBaseSql dialect (pp_baseSql params) \<noteq> []" by (simp add: resolveWrappedBaseSql_def Let_def)
  then show "buildQueryResultPageSql params = resolveWrappedBaseSql dialect (pp_baseSql params)
        @ buildOrderBySQL dialect (ManySort (pp_sortInfo params)) [] @ limitOffset pageSize ((page - 1) * pageSize)"
    using assms(4,5,7,8)
    unfolding buildQueryResultPageSql_def Let_def assms(6) [symmetric] p buildPaginatedSelectSQL_def wrapped_trim
    by (simp del: js_Cons of_nat_mult of_nat_diff)
  show "parseLimitClause (js_trim (limitOffset pageSize ((page - 1) * pageSize)))
      = Some (pageSize, (page - 1) * pageSize)" by (rule limit_clause_roundtrip)
  show "(page - 1) * pageSize div pageSize + 1 = page" using assms(2,4) by simp
qed simp

definition pageExample :: pageParams where
  "pageExample = \<lparr>pp_baseSql = js ''t'', pp_dbType = js ''mysql'', pp_driver = [], pp_oceanBaseProtocol = [],
     pp_page = Some 3, pp_pageSize = Some 10, pp_lookahead = False, pp_sortInfo = []\<rparr>"

lemma page_query_asks_for_the_page_witness:
  "\<exists>clause offset. buildQueryResultPageSql pageExample = js ''SELECT * FROM (t) AS __gonavi_query_page__'' @ clause
    \<and> parseLimitClause (js_trim clause) = Some (10, offset) \<and> offset div 10 + 1 = 3"
proof -
  have d: "resolveSqlDialect (js_or (js ''mysql'') (js ''mysql'')) [] [] = js ''mysql''" by code_simp
  have w: "resolveWrappedBaseSql (js ''mysql'') (js ''t'') = js ''SELECT * FROM (t) AS __gonavi_query_page__''"
    and o: "buildOrderBySQL (js ''mysql'') (ManySort []) [] = []" by code_simp+
  have l: "js_lower (js_trim (js ''mysql'')) = js ''mysql''" by code_simp
  have p: "pp_page pageExample = Some (int 3)" "pp_pageSize pageExample = Some (int 10)"
    "\<not> pp_lookahead pageExample" "pp_baseSql pageExample = js ''t''" "pp_sortInfo pageExample = []"
    "js ''mysql'' = resolveSqlDialect (js_or (pp_dbType pageExample) (js ''mysql'')) (pp_driver pageExample)
       (pp_oceanBaseProtocol pageExample)"
    by (simp_all only: pageExample_def pageParams.simps d of_nat_numeral not_False_eq_True)
  have m: "js ''mysql'' \<noteq> js ''dameng''" "js_lower (js_trim (js ''mysql''))
      \<notin> {js ''oracle'', js ''dameng'', js ''sqlserver'', js ''mssql''}" unfolding l by simp_all
  have n: "(0::nat) < 3" "(0::nat) < 10" by simp_all
  show ?thesis
    using page_query_asks_for_the_page [OF p(1) n(1) p(2) n(2) p(3,6) m] unfolding p(4,5) w o append_Nil by blast
qed

section \<open>The total of a count query\<close>

lemma firstResult_Some:
  "firstResult f xs = Some r \<Longrightarrow> \<exists>x\<in>set xs. f x = Some r"
  by (induction xs) (auto split: option.splits)

lemma firstResult_None: "firstResult f xs = None \<longleftrightarrow> (\<forall>x\<in>set xs. f x = None)"
  by (induction xs) (auto split: option.splits)

lemma safe_integer_bounds:
  "parseNonNegativeSafeInteger v = Some n \<Longrightarrow> 0 \<le> n \<and> n \<le> MAX_SAFE_INTEGER"
  by (auto simp: parseNonNegativeSafeInteger_def Let_def split: cellValue.splits if_splits)

text \<open>
  A total read from a count query is a non-negative safe integer, the value of one of the
  columns; the column is one named as a total, unless none of those holds a valid number.
\<close>

lemma total_count_is_safe:
  assumes "parseQueryResultTotalCount row = Some n"
  shows "0 \<le> n \<and> n \<le> MAX_SAFE_INTEGER
    \<and> (\<exists>entries key v. row = Some entries \<and> (key, v) \<in> set entries
         \<and> parseNonNegativeSafeInteger v = Some n
         \<and> (isTotalKey key
            \<or> (\<forall>(key, v)\<in>set entries. isTotalKey key \<longrightarrow> parseNonNegativeSafeInteger v = None)))"
proof -
  let ?count = "\<lambda>(key, v). if isTotalKey key then parseNonNegativeSafeInteger v else None"
  let ?any = "\<lambda>(key, v). parseNonNegativeSafeInteger v"
  obtain entries where row: "row = Some entries"
    and r: "firstResult ?count entries = Some n \<or> (firstResult ?count entries = None \<and> firstResult ?any entries = Some n)"
    using assms by (auto simp: parseQueryResultTotalCount_def split: option.splits if_splits)
  then have "\<exists>(key, v)\<in>set entries. parseNonNegativeSafeInteger v = Some n
      \<and> (isTotalKey key \<or> (\<forall>(key, v)\<in>set entries. isTotalKey key \<longrightarrow> parseNonNegativeSafeInteger v = None))"
  proof (elim disjE conjE)
    assume "firstResult ?count entries = Some n"
    from firstResult_Some [OF this] obtain key v where "(key, v) \<in> set entries" "isTotalKey key"
      "parseNonNegativeSafeInteger v = Some n" by (auto split: if_splits)
    then show ?thesis by blast
  next
    assume none: "firstResult ?count entries = None" and some: "firstResult ?any entries = Some n"
    from none have "\<forall>(key, v)\<in>set entries. isTotalKey key \<longrightarrow> parseNonNegativeSafeInteger v = None"
      by (auto simp: firstResult_None split: if_splits)
    moreover obtain key v where "(key, v) \<in> set entries" "parseNonNegativeSafeInteger v = Some n"
      using firstResult_Some [OF some] by auto
    ultimately show ?thesis by blast
  qed
  then show ?thesis using row safe_integer_bounds by blast
qed

end
