(* ===== verification/SavedQueryGroups.thy ===== *)
theory SavedQueryGroups
  imports JsText
begin

text \<open>
  \<open>src/frontend/src/utils/savedQueryGroups.ts\<close>: the groups of saved queries, a forest given by the
  parent of every group, as they are read from the back end or from an edited file.

  The \<open>Map\<close> from ids to group objects is
  \<open>groupWithId\<close>; the passes that change the group objects in place are folds over positions, so that
  a later step sees what an earlier one changed.
\<close>

section \<open>Tokens\<close>

definition QUERY_TOKEN_PREFIX :: js_string where "QUERY_TOKEN_PREFIX = js ''query:''"
definition GROUP_TOKEN_PREFIX :: js_string where "GROUP_TOKEN_PREFIX = js ''group:''"

definition toTrimmedString :: "rawValue \<Rightarrow> js_string" where
  "toTrimmedString v =
     (case v of
        RawString s \<Rightarrow> js_trim s
      | RawNumber s \<Rightarrow> js_trim s
      | RawBool b \<Rightarrow> if b then js ''true'' else js ''false''
      | _ \<Rightarrow> [])"

definition sanitizeStringArray :: "rawValue \<Rightarrow> js_string list" where
  "sanitizeStringArray v =
     (case v of
        RawArray items \<Rightarrow> js_uniq (filter (\<lambda>s. s \<noteq> []) (map toTrimmedString items))
      | _ \<Rightarrow> [])"

definition buildSavedQueryGroupQueryToken :: "js_string \<Rightarrow> js_string" where
  "buildSavedQueryGroupQueryToken queryId = QUERY_TOKEN_PREFIX @ js_trim queryId"

definition buildSavedQueryGroupToken :: "js_string \<Rightarrow> js_string" where
  "buildSavedQueryGroupToken groupId = GROUP_TOKEN_PREFIX @ js_trim groupId"

definition getSavedQueryIdFromGroupToken :: "js_string \<Rightarrow> js_string" where
  "getSavedQueryIdFromGroupToken token =
     (if prefix QUERY_TOKEN_PREFIX token then drop (length QUERY_TOKEN_PREFIX) token else [])"

definition getSavedQueryGroupIdFromToken :: "js_string \<Rightarrow> js_string" where
  "getSavedQueryGroupIdFromToken token =
     (if prefix GROUP_TOKEN_PREFIX token then drop (length GROUP_TOKEN_PREFIX) token else [])"

definition isSavedQueryGroupQueryToken :: "js_string \<Rightarrow> bool" where
  "isSavedQueryGroupQueryToken token \<longleftrightarrow> getSavedQueryIdFromGroupToken token \<noteq> []"

definition isSavedQueryGroupToken :: "js_string \<Rightarrow> bool" where
  "isSavedQueryGroupToken token \<longleftrightarrow> getSavedQueryGroupIdFromToken token \<noteq> []"

definition sanitizeChildOrder :: "rawValue \<Rightarrow> js_string list" where
  "sanitizeChildOrder v =
     filter (\<lambda>t. isSavedQueryGroupQueryToken t \<or> isSavedQueryGroupToken t) (sanitizeStringArray v)"

section \<open>Groups\<close>

record savedQueryGroup =
  sg_id :: js_string
  sg_name :: js_string
  sg_parentGroupId :: "js_string option"
  sg_queryIds :: "js_string list"
  sg_childOrder :: "js_string list"

text \<open>The last group with an id wins in the \<open>Map\<close>.\<close>

definition groupWithId :: "savedQueryGroup list \<Rightarrow> js_string \<Rightarrow> savedQueryGroup option" where
  "groupWithId groups i = find (\<lambda>g. sg_id g = i) (rev groups)"

text \<open>\<open>String(group.parentGroupId || '').trim()\<close>, and the same of the group with an id, if there is one.\<close>

definition parentText :: "savedQueryGroup \<Rightarrow> js_string" where
  "parentText g = (case sg_parentGroupId g of None \<Rightarrow> [] | Some p \<Rightarrow> js_trim p)"

definition parentOf :: "savedQueryGroup list \<Rightarrow> js_string \<Rightarrow> js_string" where
  "parentOf groups i = (case groupWithId groups i of None \<Rightarrow> [] | Some g \<Rightarrow> parentText g)"

abbreviation group_ids :: "savedQueryGroup list \<Rightarrow> js_string set" where
  "group_ids groups \<equiv> sg_id ` set groups"

lemma groupWithId_Some: "groupWithId groups i = Some g \<Longrightarrow> g \<in> set groups \<and> sg_id g = i"
  using find_SomeD [of "\<lambda>g. sg_id g = i" "rev groups" g] by (simp add: groupWithId_def)

lemma groupWithId_None: "groupWithId groups i = None \<longleftrightarrow> i \<notin> group_ids groups"
  by (auto simp: groupWithId_def find_None_iff)

lemma parentOf_outside: "i \<notin> group_ids groups \<Longrightarrow> parentOf groups i = []"
  by (simp add: parentOf_def groupWithId_None [THEN iffD2])

text \<open>The loop of \<open>hasParentCycle\<close>.\<close>

function parentCycleFrom :: "savedQueryGroup list \<Rightarrow> js_string list \<Rightarrow> js_string \<Rightarrow> bool" where
  "parentCycleFrom groups seen parentId \<longleftrightarrow>
     (if parentId = [] then False
      else if parentId \<in> set seen then True
      else parentCycleFrom groups (parentId # seen) (parentOf groups parentId))"
  by pat_completeness auto
termination
proof (relation "measure (\<lambda>(gs, seen, p). 2 * card (group_ids gs - set seen) + (if p = [] then 0 else 1))",
    goal_cases)
  case (2 gs seen p)
  show ?case
  proof (cases "p \<in> group_ids gs")
    case True
    then have "card (group_ids gs - set (p # seen)) < card (group_ids gs - set seen)"
      using 2 by (intro psubset_card_mono) auto
    with 2 show ?thesis by simp
  next
    case False
    then have "group_ids gs - set (p # seen) = group_ids gs - set seen" by auto
    with False 2 show ?thesis by (simp add: parentOf_outside)
  qed
qed simp

declare parentCycleFrom.simps [simp del]

definition hasParentCycle :: "savedQueryGroup list \<Rightarrow> savedQueryGroup \<Rightarrow> bool" where
  "hasParentCycle groups g = parentCycleFrom groups [sg_id g] (parentText g)"

section \<open>Normalization\<close>

record rawGroup =
  rg_id :: rawValue
  rg_name :: rawValue
  rg_parentGroupId :: rawValue
  rg_queryIds :: rawValue
  rg_childOrder :: rawValue

definition nonEmpty :: "js_string \<Rightarrow> js_string option" where
  "nonEmpty s = (if s = [] then None else Some s)"

text \<open>Reading the entries, \<open>None\<close> for an entry that is no object; \<open>index\<close> is the position in the array.\<close>

fun readGroups :: "rawGroup option list \<Rightarrow> nat \<Rightarrow> js_string list \<Rightarrow> savedQueryGroup list" where
  "readGroups [] index seen = []"
| "readGroups (None # entries) index seen = readGroups entries (index + 1) seen"
| "readGroups (Some raw # entries) index seen =
     (let i = toTrimmedString (rg_id raw) in
      if i = [] \<or> i \<in> set seen then readGroups entries (index + 1) seen
      else
        \<lparr>sg_id = i,
         sg_name = js_or (toTrimmedString (rg_name raw)) (js ''Group '' @ nat_text (index + 1)),
         sg_parentGroupId = nonEmpty (toTrimmedString (rg_parentGroupId raw)),
         sg_queryIds = sanitizeStringArray (rg_queryIds raw),
         sg_childOrder = sanitizeChildOrder (rg_childOrder raw)\<rparr>
        # readGroups entries (index + 1) (i # seen))"

definition withoutParent :: "savedQueryGroup \<Rightarrow> savedQueryGroup" where
  "withoutParent g = g\<lparr>sg_parentGroupId := None\<rparr>"

definition dropUnknownParent :: "savedQueryGroup list \<Rightarrow> savedQueryGroup \<Rightarrow> savedQueryGroup" where
  "dropUnknownParent groups g =
     (if parentText g = [] \<or> parentText g = sg_id g \<or> groupWithId groups (parentText g) = None
      then withoutParent g else g)"

definition cutCycleAt :: "nat \<Rightarrow> savedQueryGroup list \<Rightarrow> savedQueryGroup list" where
  "cutCycleAt k groups =
     (if hasParentCycle groups (groups ! k) then groups[k := withoutParent (groups ! k)] else groups)"

definition cutCycles :: "savedQueryGroup list \<Rightarrow> savedQueryGroup list" where
  "cutCycles groups = fold cutCycleAt [0..<length groups] groups"

text \<open>One owner per query: the query ids of the group and those owned so far.\<close>

fun claimQueries ::
  "js_string list option \<Rightarrow> js_string list \<Rightarrow> js_string list \<Rightarrow> js_string list \<times> js_string list" where
  "claimQueries allowed [] owned = ([], owned)"
| "claimQueries allowed (q # qs) owned =
     (if (case allowed of None \<Rightarrow> False | Some a \<Rightarrow> q \<notin> set a) \<or> q \<in> set owned
      then claimQueries allowed qs owned
      else (let (kept, owned') = claimQueries allowed qs (q # owned) in (q # kept, owned')))"

fun claimGroups ::
  "js_string list option \<Rightarrow> savedQueryGroup list \<Rightarrow> js_string list \<Rightarrow> savedQueryGroup list" where
  "claimGroups allowed [] owned = []"
| "claimGroups allowed (g # gs) owned =
     (let (kept, owned') = claimQueries allowed (sg_queryIds g) owned in
      g\<lparr>sg_queryIds := kept\<rparr> # claimGroups allowed gs owned')"

definition childGroupIds :: "savedQueryGroup list \<Rightarrow> js_string \<Rightarrow> js_string list" where
  "childGroupIds groups i = map sg_id (filter (\<lambda>c. sg_parentGroupId c = Some i) groups)"

definition defaultOrder :: "savedQueryGroup list \<Rightarrow> savedQueryGroup \<Rightarrow> js_string list" where
  "defaultOrder groups g =
     map buildSavedQueryGroupQueryToken (sg_queryIds g)
     @ map buildSavedQueryGroupToken (childGroupIds groups (sg_id g))"

definition resolvedOrder :: "savedQueryGroup list \<Rightarrow> savedQueryGroup \<Rightarrow> js_string list" where
  "resolvedOrder groups g =
     js_uniq (filter (\<lambda>t. t \<in> set (defaultOrder groups g)) (sg_childOrder g @ defaultOrder groups g))"

definition orderGroup :: "savedQueryGroup list \<Rightarrow> savedQueryGroup \<Rightarrow> savedQueryGroup" where
  "orderGroup groups g =
     (let childOrder = resolvedOrder groups g in
      g\<lparr>sg_queryIds := map getSavedQueryIdFromGroupToken (filter isSavedQueryGroupQueryToken childOrder),
        sg_childOrder := childOrder\<rparr>)"

text \<open>\<open>None\<close> for a value that is no array, and for no known ids.\<close>

definition normalizeSavedQueryGroups ::
  "rawGroup option list option \<Rightarrow> js_string list option \<Rightarrow> savedQueryGroup list" where
  "normalizeSavedQueryGroups v knownQueryIds =
     (case v of None \<Rightarrow> []
      | Some entries \<Rightarrow>
          (let read = readGroups entries 0 [];
               groups = claimGroups knownQueryIds (cutCycles (map (dropUnknownParent read) read)) [] in
           map (orderGroup groups) groups))"

section \<open>Queries on groups\<close>

definition addOwner :: "js_string \<Rightarrow> js_string \<Rightarrow> (js_string \<rightharpoonup> js_string) \<Rightarrow> (js_string \<rightharpoonup> js_string)" where
  "addOwner owner q m = (if m q = None then m(q \<mapsto> owner) else m)"

definition getSavedQueryGroupOwnerIds :: "savedQueryGroup list \<Rightarrow> (js_string \<rightharpoonup> js_string)" where
  "getSavedQueryGroupOwnerIds groups =
     fold (\<lambda>g. fold (addOwner (sg_id g)) (sg_queryIds g)) groups Map.empty"

text \<open>The depth-first search: the stack with its top first, and the ids found, newest first.\<close>

definition pushChildren ::
  "savedQueryGroup list \<Rightarrow> js_string \<Rightarrow> js_string list \<times> js_string list \<Rightarrow> js_string list \<times> js_string list" where
  "pushChildren groups parentGroupId = fold (\<lambda>g (pending, descendants).
     if sg_parentGroupId g \<noteq> Some parentGroupId \<or> sg_id g \<in> set descendants then (pending, descendants)
     else (sg_id g # pending, sg_id g # descendants)) groups"

partial_function (option) descendantLoop ::
  "savedQueryGroup list \<Rightarrow> js_string list \<Rightarrow> js_string list \<Rightarrow> js_string list option" where
  "descendantLoop groups pending descendants =
     (case pending of
        [] \<Rightarrow> Some descendants
      | parentGroupId # rest \<Rightarrow>
          if parentGroupId = [] then descendantLoop groups rest descendants
          else (case pushChildren groups parentGroupId (rest, descendants) of
                  (pending', descendants') \<Rightarrow> descendantLoop groups pending' descendants'))"

declare descendantLoop.simps [code]

definition getSavedQueryGroupDescendantIds ::
  "savedQueryGroup list \<Rightarrow> js_string \<Rightarrow> js_string list option" where
  "getSavedQueryGroupDescendantIds groups rootGroupId =
     map_option rev (descendantLoop groups [rootGroupId] [])"

text \<open>
  The walk to the root. The current group always comes from the \<open>Map\<close>, so that the test
  \<open>g \<notin> set groups\<close>, which the loop does not have, never succeeds; it makes the end of the loop evident.
\<close>

function groupPathLoop ::
  "savedQueryGroup list \<Rightarrow> savedQueryGroup option \<Rightarrow> js_string list \<Rightarrow> js_string list \<Rightarrow> js_string list" where
  "groupPathLoop groups current visited path =
     (case current of None \<Rightarrow> path
      | Some g \<Rightarrow>
          if sg_id g \<in> set visited \<or> g \<notin> set groups then path
          else groupPathLoop groups
                 (case sg_parentGroupId g of None \<Rightarrow> None | Some p \<Rightarrow> if p = [] then None else groupWithId groups p)
                 (sg_id g # visited) (js_or (sg_name g) (sg_id g) # path))"
  by pat_completeness auto
termination
proof (relation "measure (\<lambda>(gs, c, visited, p). card (group_ids gs - set visited))", goal_cases)
  case (2 gs c visited p g)
  then have "card (group_ids gs - set (sg_id g # visited)) < card (group_ids gs - set visited)"
    by (intro psubset_card_mono) auto
  then show ?case by simp
qed simp

declare groupPathLoop.simps [simp del]

definition buildSavedQueryGroupPath :: "js_string \<Rightarrow> savedQueryGroup list \<Rightarrow> js_string list" where
  "buildSavedQueryGroupPath groupId groups = groupPathLoop groups (groupWithId groups groupId) [] []"

definition buildSavedQueryGroupParentOptions ::
  "savedQueryGroup list \<Rightarrow> js_string \<Rightarrow> (js_string \<times> js_string) list option" where
  "buildSavedQueryGroupParentOptions groups editingGroupId =
     map_option (\<lambda>excludedIds.
         map (\<lambda>g. (sg_id g, js_or (js_join (js '' / '') (buildSavedQueryGroupPath (sg_id g) groups)) (sg_name g)))
           (filter (\<lambda>g. sg_id g \<notin> set excludedIds) groups))
       (if editingGroupId = [] then Some []
        else map_option ((#) editingGroupId) (getSavedQueryGroupDescendantIds groups editingGroupId))"

definition resolveSavedQueryGroupChildOrder :: "js_string \<Rightarrow> savedQueryGroup list \<Rightarrow> js_string list" where
  "resolveSavedQueryGroupChildOrder groupId groups =
     (case find (\<lambda>g. sg_id g = groupId) groups of
        None \<Rightarrow> []
      | Some g \<Rightarrow> resolvedOrder groups g)"

end
