(* ===== verification/ParentForest.thy ===== *)
theory ParentForest
  imports JsPrelude
begin

text \<open>
  Items that name their parent by its id: the contract of changing the parent of one item, on which
  the saved query groups and the connection groups rely. Changing a parent adds at most the pair of the
  new parent and the item to the parent relation; so a new parent that is neither the item nor below
  it makes no cycle.
\<close>

locale reparenting =
  fixes rel :: "'g list \<Rightarrow> (js_string \<times> js_string) set"
    and reparent :: "js_string \<Rightarrow> js_string \<Rightarrow> 'g list \<Rightarrow> 'g list"
    and valid :: "js_string \<Rightarrow> bool"
  assumes rel_reparent: "valid p \<Longrightarrow> rel (reparent i p items) \<subseteq> insert (p, i) (rel items)"
begin

lemma acyclic_reparent:
  assumes "acyclic (rel items)" "(i, p) \<notin> (rel items)\<^sup>*" "valid p"
  shows "acyclic (rel (reparent i p items))"
proof -
  have "acyclic (insert (p, i) (rel items))" using assms(1,2) by simp
  then show ?thesis using rel_reparent [OF assms(3)] by (rule acyclic_subset)
qed

lemma acyclic_reparent_below:
  "acyclic (rel items) \<Longrightarrow> p \<noteq> i \<Longrightarrow> (i, p) \<notin> (rel items)\<^sup>+ \<Longrightarrow> valid p \<Longrightarrow>
   acyclic (rel (reparent i p items))"
  by (rule acyclic_reparent) (auto simp: rtrancl_eq_or_trancl)

end

end
