(* ===== verification/SavedQueryGroupsProps.thy ===== *)
theory SavedQueryGroupsProps
  imports SavedQueryGroups ParentForest "HOL-Library.Multiset"
begin

text \<open>
  What normalization makes of any input: a forest of groups in which every query has at most one
  owner; and what the walks over the groups return, on cyclic data too.
\<close>

section \<open>The parent relation\<close>

text \<open>A parent and its child, as the groups record it and as the walk to the root follows it.\<close>

definition child_rel :: "savedQueryGroup list \<Rightarrow> (js_string \<times> js_string) set" where
  "child_rel groups = {(p, c). p \<noteq> [] \<and> (\<exists>g\<in>set groups. sg_parentGroupId g = Some p \<and> sg_id g = c)}"

definition walk_rel :: "savedQueryGroup list \<Rightarrow> (js_string \<times> js_string) set" where
  "walk_rel groups = {(p, c). p \<noteq> [] \<and> parentOf groups c = p}"

definition well_parented :: "savedQueryGroup list \<Rightarrow> bool" where
  "well_parented groups \<longleftrightarrow> distinct (map sg_id groups) \<and> [] \<notin> group_ids groups
     \<and> (\<forall>g\<in>set groups. \<forall>p. sg_parentGroupId g = Some p \<longrightarrow>
          p \<in> group_ids groups \<and> p \<noteq> sg_id g \<and> js_trim p = p)"

lemma groupWithId_distinct:
  assumes "distinct (map sg_id groups)"
  shows "groupWithId groups i = Some g \<longleftrightarrow> g \<in> set groups \<and> sg_id g = i"
proof
  assume g: "g \<in> set groups \<and> sg_id g = i"
  then obtain g' where g': "groupWithId groups i = Some g'"
    using groupWithId_None [of groups i] by (cases "groupWithId groups i") auto
  with g groupWithId_Some [OF g'] assms have "g' = g"
    by (auto simp: distinct_map inj_on_def)
  with g' show "groupWithId groups i = Some g" by simp
qed (rule groupWithId_Some)

lemma parentText_trimmed:
  "(\<And>p. sg_parentGroupId g = Some p \<Longrightarrow> js_trim p = p) \<Longrightarrow> p \<noteq> [] \<Longrightarrow>
   parentText g = p \<longleftrightarrow> sg_parentGroupId g = Some p"
  by (cases "sg_parentGroupId g") (auto simp: parentText_def)

lemma child_rel_walk:
  assumes "well_parented groups"
  shows "child_rel groups = walk_rel groups"
proof -
  have d: "distinct (map sg_id groups)" using assms by (simp add: well_parented_def)
  have "(\<exists>g\<in>set groups. sg_parentGroupId g = Some p \<and> sg_id g = c) \<longleftrightarrow> parentOf groups c = p" if "p \<noteq> []" for p c
  proof (cases "groupWithId groups c")
    case None
    then have "parentOf groups c = []" "c \<notin> group_ids groups"
      by (simp add: parentOf_def) (use None groupWithId_None in blast)
    with that show ?thesis by auto
  next
    case (Some g)
    have unique: "g' = g" if "g' \<in> set groups" "sg_id g' = c" for g'
      using groupWithId_distinct [OF d, of c g'] that Some by simp
    have "parentText g = p \<longleftrightarrow> sg_parentGroupId g = Some p"
      using assms that groupWithId_Some [OF Some] by (intro parentText_trimmed) (auto simp: well_parented_def)
    with unique groupWithId_Some [OF Some] show ?thesis by (auto simp: parentOf_def Some)
  qed
  then show ?thesis by (auto simp: child_rel_def walk_rel_def)
qed

section \<open>Cutting cycles\<close>

lemma no_cycle_accessible:
  "\<not> parentCycleFrom groups seen p \<Longrightarrow> p = [] \<or> p \<in> Wellfounded.acc (walk_rel groups)"
proof (induction groups seen p rule: parentCycleFrom.induct)
  case (1 groups seen p)
  show ?case
  proof (cases "p = []")
    case False
    with 1(2) have seen: "p \<notin> set seen" "\<not> parentCycleFrom groups (p # seen) (parentOf groups p)"
      by (simp_all add: parentCycleFrom.simps [of groups seen p] split: if_splits)
    have "p \<in> Wellfounded.acc (walk_rel groups)"
      by (rule accI) (use 1(1) [OF False seen] in \<open>auto simp: walk_rel_def\<close>)
    then show ?thesis by simp
  qed simp
qed

lemma no_parent_cycle_accessible:
  assumes "\<not> hasParentCycle groups g" "distinct (map sg_id groups)" "g \<in> set groups"
  shows "sg_id g \<in> Wellfounded.acc (walk_rel groups)"
proof (rule accI)
  fix p assume "(p, sg_id g) \<in> walk_rel groups"
  moreover have "groupWithId groups (sg_id g) = Some g" using assms by (simp add: groupWithId_distinct)
  ultimately have "parentText g = p" "p \<noteq> []" by (simp_all add: walk_rel_def parentOf_def)
  with assms(1) no_cycle_accessible show "p \<in> Wellfounded.acc (walk_rel groups)"
    by (auto simp: hasParentCycle_def)
qed

lemma sg_id_withoutParent [simp]: "sg_id (withoutParent g) = sg_id g"
  by (simp add: withoutParent_def)

lemma map_id_update [simp]:
  "map sg_id (groups[k := withoutParent (groups ! k)]) = map sg_id groups"
  by (cases "k < length groups") (simp_all add: map_update list_update_same_conv list_update_beyond)

lemma walk_rel_cut:
  assumes "distinct (map sg_id groups)" "k < length groups"
  shows "walk_rel (groups[k := withoutParent (groups ! k)])
    = walk_rel groups - {(p, c). c = sg_id (groups ! k)}"
proof -
  let ?cut = "groups[k := withoutParent (groups ! k)]"
  have d: "distinct (map sg_id ?cut)" using assms(1) by simp
  have set_cut: "set ?cut = insert (withoutParent (groups ! k)) (set groups - {groups ! k})"
    using assms by (intro set_update_distinct) (auto simp: distinct_map)
  have "parentOf ?cut c = (if c = sg_id (groups ! k) then [] else parentOf groups c)" for c
  proof (cases "c = sg_id (groups ! k)")
    case True
    then have "groupWithId ?cut c = Some (withoutParent (groups ! k))"
      by (simp add: groupWithId_distinct [OF d] set_cut)
    with True show ?thesis by (simp add: parentOf_def parentText_def withoutParent_def)
  next
    case False
    have "groupWithId ?cut c = groupWithId groups c"
    proof (cases "groupWithId groups c")
      case None
      then have "c \<notin> group_ids ?cut" using False unfolding groupWithId_None set_cut by auto
      with None show ?thesis by (metis groupWithId_None)
    next
      case (Some g)
      with False have "g \<in> set ?cut \<and> sg_id g = c" using groupWithId_Some [OF Some] unfolding set_cut by auto
      with Some show ?thesis by (simp only: groupWithId_distinct [OF d, THEN iffD2])
    qed
    with False show ?thesis by (simp add: parentOf_def)
  qed
  then show ?thesis by (auto simp: walk_rel_def)
qed

definition cut_up_to :: "nat \<Rightarrow> savedQueryGroup list \<Rightarrow> savedQueryGroup list" where
  "cut_up_to k groups = fold cutCycleAt [0..<k] groups"

lemma cut_up_to_Suc: "cut_up_to (Suc k) groups = cutCycleAt k (cut_up_to k groups)"
  by (simp add: cut_up_to_def)

lemma well_parented_cut:
  assumes "well_parented groups"
  shows "well_parented (cutCycleAt k groups)"
proof (cases "hasParentCycle groups (groups ! k)")
  case True
  have ids: "group_ids (cutCycleAt k groups) = group_ids groups"
    by (simp add: cutCycleAt_def True flip: set_map)
  have "set (cutCycleAt k groups) \<subseteq> insert (withoutParent (groups ! k)) (set groups)"
    by (simp add: cutCycleAt_def True set_update_subset_insert)
  moreover have "sg_parentGroupId (withoutParent (groups ! k)) = None" by (simp add: withoutParent_def)
  moreover have "map sg_id (cutCycleAt k groups) = map sg_id groups" by (simp add: cutCycleAt_def True)
  ultimately show ?thesis
    using assms unfolding well_parented_def ids by (metis insert_iff option.distinct(1) subsetD)
qed (use assms in \<open>simp add: cutCycleAt_def\<close>)

lemma cut_up_to_inv:
  assumes "well_parented groups" "k \<le> length groups"
  shows "length (cut_up_to k groups) = length groups \<and> map sg_id (cut_up_to k groups) = map sg_id groups
    \<and> well_parented (cut_up_to k groups)
    \<and> (\<forall>i<k. sg_id (groups ! i) \<in> Wellfounded.acc (walk_rel (cut_up_to k groups)))"
  using assms(2)
proof (induction k)
  case 0
  then show ?case using assms(1) by (simp add: cut_up_to_def)
next
  case (Suc k)
  let ?gs = "cut_up_to k groups" and ?g = "cut_up_to k groups ! k"
  have IH: "length ?gs = length groups" "map sg_id ?gs = map sg_id groups" "well_parented ?gs"
    "\<And>i. i < k \<Longrightarrow> sg_id (groups ! i) \<in> Wellfounded.acc (walk_rel ?gs)" using Suc by auto
  have d: "distinct (map sg_id ?gs)" using IH(3) by (simp add: well_parented_def)
  have k: "k < length ?gs" "sg_id ?g = sg_id (groups ! k)"
    using Suc.prems IH(1,2) by (auto dest: arg_cong [of _ _ "\<lambda>l. l ! k"])
  have smaller: "walk_rel (cutCycleAt k ?gs) \<subseteq> walk_rel ?gs"
    by (auto simp: cutCycleAt_def walk_rel_cut [OF d k(1)])
  have "sg_id ?g \<in> Wellfounded.acc (walk_rel (cutCycleAt k ?gs))"
  proof (cases "hasParentCycle ?gs ?g")
    case True
    show ?thesis by (rule accI) (auto simp: cutCycleAt_def True walk_rel_cut [OF d k(1)])
  next
    case False
    with no_parent_cycle_accessible [OF False d] k(1) show ?thesis by (simp add: cutCycleAt_def)
  qed
  moreover have "sg_id (groups ! i) \<in> Wellfounded.acc (walk_rel (cutCycleAt k ?gs))" if "i < k" for i
    using IH(4) [OF that] acc_subset [OF smaller] by blast
  ultimately show ?case
    using IH well_parented_cut [OF IH(3)] k(2)
    by (auto simp: cut_up_to_Suc less_Suc_eq) (simp_all add: cutCycleAt_def)
qed

lemma cutCycles_acyclic:
  assumes "well_parented groups"
  shows "well_parented (cutCycles groups) \<and> map sg_id (cutCycles groups) = map sg_id groups
    \<and> acyclic (child_rel (cutCycles groups))"
proof -
  let ?c = "cutCycles groups"
  have c: "?c = cut_up_to (length groups) groups" by (simp add: cutCycles_def cut_up_to_def)
  note inv = cut_up_to_inv [OF assms order_refl, folded c]
  have "i \<in> Wellfounded.acc (walk_rel ?c)" for i
  proof (cases "i \<in> group_ids groups")
    case True
    then obtain k where "k < length groups" "i = sg_id (groups ! k)" by (auto simp: in_set_conv_nth)
    with inv show ?thesis by blast
  next
    case False
    then have "i \<notin> set (map sg_id ?c)" using inv by simp
    then have "i \<notin> group_ids ?c" by simp
    from parentOf_outside [OF this] have "(p, i) \<notin> walk_rel ?c" for p by (auto simp: walk_rel_def)
    then show ?thesis by - (rule accI, blast)
  qed
  then have "wf (walk_rel ?c)" by (simp add: wf_iff_acc)
  then have "acyclic (walk_rel ?c)" by (rule wf_acyclic)
  moreover have "child_rel ?c = walk_rel ?c" by (rule child_rel_walk) (use inv in blast)
  ultimately show ?thesis using inv by simp
qed

section \<open>Reading\<close>

lemma toTrimmedString_trimmed [simp]: "js_trim (toTrimmedString v) = toTrimmedString v"
  by (cases v) (simp_all add: toTrimmedString_def js_trim_id js_space_def)

lemma sanitizeStringArray_clean: "q \<in> set (sanitizeStringArray v) \<Longrightarrow> clean q"
  by (auto simp: sanitizeStringArray_def clean_def split: rawValue.splits)

lemma distinct_sanitizeStringArray: "distinct (sanitizeStringArray v)"
  by (simp add: sanitizeStringArray_def split: rawValue.split)

definition read_ok :: "savedQueryGroup \<Rightarrow> bool" where
  "read_ok g \<longleftrightarrow> clean (sg_id g) \<and> (\<forall>p. sg_parentGroupId g = Some p \<longrightarrow> clean p)
     \<and> (\<forall>q\<in>set (sg_queryIds g). clean q) \<and> distinct (sg_queryIds g)"

lemma readGroups_ok:
  "distinct (map sg_id (readGroups entries n seen)) \<and> group_ids (readGroups entries n seen) \<inter> set seen = {}
   \<and> (\<forall>g\<in>set (readGroups entries n seen). read_ok g)"
proof (induction entries n seen rule: readGroups.induct)
  case (3 raw entries n seen)
  let ?i = "toTrimmedString (rg_id raw)"
  show ?case
  proof (cases "?i = [] \<or> ?i \<in> set seen")
    case False
    moreover have "clean p" if "nonEmpty (toTrimmedString (rg_parentGroupId raw)) = Some p" for p
      using that by (auto simp: nonEmpty_def clean_def split: if_splits)
    ultimately show ?thesis using 3(2) [OF refl False]
      by (auto simp: Let_def read_ok_def sanitizeStringArray_clean distinct_sanitizeStringArray) (simp add: clean_def)
  qed (use 3(1) [OF refl] in \<open>auto simp: Let_def\<close>)
qed simp_all

lemma dropUnknownParent_ids [simp]: "sg_id (dropUnknownParent gs g) = sg_id g"
  "sg_queryIds (dropUnknownParent gs g) = sg_queryIds g"
  by (simp_all add: dropUnknownParent_def withoutParent_def)

lemma well_parented_read:
  assumes "distinct (map sg_id gs)" "\<forall>g\<in>set gs. read_ok g"
  shows "well_parented (map (dropUnknownParent gs) gs)"
proof -
  have "p \<in> group_ids gs \<and> p \<noteq> sg_id g \<and> js_trim p = p"
    if "g \<in> set gs" "sg_parentGroupId (dropUnknownParent gs g) = Some p" for g p
  proof -
    have g: "sg_parentGroupId g = Some p" "\<not> (parentText g = [] \<or> parentText g = sg_id g \<or> groupWithId gs (parentText g) = None)"
      using that(2) by (auto simp: dropUnknownParent_def withoutParent_def split: if_splits)
    have "clean p" using assms(2) that(1) g(1) by (simp add: read_ok_def)
    then have "js_trim p = p" by (simp add: clean_def)
    moreover from this have "parentText g = p" using g(1) by (simp add: parentText_def)
    ultimately show ?thesis using g(2) by (simp add: groupWithId_None)
  qed
  moreover have "map sg_id (map (dropUnknownParent gs) gs) = map sg_id gs" by simp
  moreover have "[] \<notin> group_ids gs" using assms(2) by (auto simp: read_ok_def clean_def)
  ultimately show ?thesis using assms(1) unfolding well_parented_def by (auto simp: image_image o_def)
qed

section \<open>Owners\<close>

lemma claimQueries_spec:
  assumes "claimQueries allowed qs owned = (kept, owned')"
  shows "distinct kept \<and> set kept \<inter> set owned = {} \<and> set owned' = set kept \<union> set owned
    \<and> set kept \<subseteq> set qs \<and> (\<forall>a. allowed = Some a \<longrightarrow> set kept \<subseteq> set a)"
  using assms
proof (induction qs arbitrary: owned kept owned')
  case (Cons q qs)
  let ?skip = "(case allowed of None \<Rightarrow> False | Some a \<Rightarrow> q \<notin> set a) \<or> q \<in> set owned"
  show ?case
  proof (cases ?skip)
    case True
    with Cons.prems have "claimQueries allowed qs owned = (kept, owned')" by simp
    from Cons.IH [OF this] show ?thesis by auto
  next
    case False
    obtain k where k: "claimQueries allowed qs (q # owned) = (k, owned')" "kept = q # k"
      using Cons.prems False by (auto split: prod.splits)
    moreover have "q \<in> set a" if "allowed = Some a" for a using False that by simp
    ultimately show ?thesis using Cons.IH [OF k(1)] False by auto
  qed
qed simp

definition owned_queries :: "savedQueryGroup list \<Rightarrow> js_string list" where
  "owned_queries groups = concat (map sg_queryIds groups)"

lemma claimGroups_spec:
  "distinct (owned_queries (claimGroups allowed gs owned)) \<and> set (owned_queries (claimGroups allowed gs owned)) \<inter> set owned = {}
   \<and> (\<forall>a. allowed = Some a \<longrightarrow> set (owned_queries (claimGroups allowed gs owned)) \<subseteq> set a)
   \<and> set (owned_queries (claimGroups allowed gs owned)) \<subseteq> set (owned_queries gs)"
proof (induction gs arbitrary: owned)
  case (Cons g gs)
  obtain kept owned' where c: "claimQueries allowed (sg_queryIds g) owned = (kept, owned')" by fastforce
  have o: "owned_queries (claimGroups allowed (g # gs) owned) = kept @ owned_queries (claimGroups allowed gs owned')"
    "owned_queries (g # gs) = sg_queryIds g @ owned_queries gs"
    by (simp_all add: owned_queries_def c)
  note q = claimQueries_spec [OF c] and IH = Cons [of owned']
  show ?case unfolding o using q IH by (simp add: disjoint_iff) blast
qed (simp add: owned_queries_def)

lemma claimGroups_keeps:
  "map sg_id (claimGroups allowed gs owned) = map sg_id gs
   \<and> map sg_parentGroupId (claimGroups allowed gs owned) = map sg_parentGroupId gs"
  by (induction gs arbitrary: owned) (auto simp: Let_def split: prod.split)

lemma child_rel_cong:
  assumes "map sg_id gs = map sg_id hs" "map sg_parentGroupId gs = map sg_parentGroupId hs"
  shows "child_rel gs = child_rel hs"
proof -
  have "map (\<lambda>g. (sg_id g, sg_parentGroupId g)) gs = map (\<lambda>g. (sg_id g, sg_parentGroupId g)) hs"
    using assms by (induction gs hs rule: list_induct2') auto
  then have "(\<lambda>g. (sg_id g, sg_parentGroupId g)) ` set gs = (\<lambda>g. (sg_id g, sg_parentGroupId g)) ` set hs"
    by (metis set_map)
  then have "(i, q) \<in> (\<lambda>g. (sg_id g, sg_parentGroupId g)) ` set gs \<longleftrightarrow> (i, q) \<in> (\<lambda>g. (sg_id g, sg_parentGroupId g)) ` set hs"
    for i q by simp
  then show ?thesis unfolding child_rel_def by (auto simp: image_iff) metis+
qed

section \<open>The order of the children\<close>

lemma query_token [simp]:
  "getSavedQueryIdFromGroupToken (buildSavedQueryGroupQueryToken q) = js_trim q"
  "\<not> isSavedQueryGroupQueryToken (buildSavedQueryGroupToken i)"
  by (simp_all add: getSavedQueryIdFromGroupToken_def buildSavedQueryGroupQueryToken_def
      isSavedQueryGroupQueryToken_def buildSavedQueryGroupToken_def QUERY_TOKEN_PREFIX_def GROUP_TOKEN_PREFIX_def)

lemma set_resolvedOrder: "set (resolvedOrder groups g) = set (defaultOrder groups g)"
  by (auto simp: resolvedOrder_def)

lemma distinct_resolvedOrder: "distinct (resolvedOrder groups g)"
  by (simp add: resolvedOrder_def)

lemma query_token_inverse:
  "isSavedQueryGroupQueryToken t \<Longrightarrow> t = QUERY_TOKEN_PREFIX @ getSavedQueryIdFromGroupToken t"
  by (auto simp: isSavedQueryGroupQueryToken_def getSavedQueryIdFromGroupToken_def prefix_def split: if_splits)

lemma ordered_queries:
  assumes "\<forall>q\<in>set (sg_queryIds g). clean q" "distinct (sg_queryIds g)"
  shows "mset (sg_queryIds (orderGroup groups g)) = mset (sg_queryIds g)"
proof -
  let ?ts = "filter isSavedQueryGroupQueryToken (resolvedOrder groups g)"
  have inj: "inj_on getSavedQueryIdFromGroupToken (set ?ts)"
    by (rule inj_onI) (metis query_token_inverse mem_Collect_eq set_filter)
  have q: "isSavedQueryGroupQueryToken (buildSavedQueryGroupQueryToken q)" if "q \<in> set (sg_queryIds g)" for q
    using assms(1) that by (simp add: isSavedQueryGroupQueryToken_def clean_def)
  have "set (map getSavedQueryIdFromGroupToken ?ts) = set (sg_queryIds g)"
  proof -
    have "set ?ts = buildSavedQueryGroupQueryToken ` set (sg_queryIds g)"
      using q by (auto simp: set_resolvedOrder defaultOrder_def)
    then show ?thesis using assms(1) by (simp add: image_image clean_def)
  qed
  moreover have "distinct (map getSavedQueryIdFromGroupToken ?ts)"
    using inj by (simp add: distinct_map distinct_resolvedOrder)
  ultimately have "mset (map getSavedQueryIdFromGroupToken ?ts) = mset (sg_queryIds g)"
    using assms(2) by (metis set_eq_iff_mset_eq_distinct)
  then show ?thesis by (simp add: orderGroup_def Let_def)
qed

lemma mset_owned_queries:
  "\<forall>g\<in>set gs. mset (sg_queryIds (f g)) = mset (sg_queryIds g) \<Longrightarrow>
   mset (owned_queries (map f gs)) = mset (owned_queries gs)"
  by (induction gs) (auto simp: owned_queries_def)

lemma sg_orderGroup [simp]: "sg_id (orderGroup gs g) = sg_id g"
  "sg_parentGroupId (orderGroup gs g) = sg_parentGroupId g"
  by (simp_all add: orderGroup_def Let_def)

section \<open>Normalization\<close>

lemma queries_of_read: "owned_queries (map (dropUnknownParent gs') gs) = owned_queries gs"
  by (simp add: owned_queries_def o_def)

lemma cut_queries:
  "map sg_queryIds (cut_up_to k gs) = map sg_queryIds gs \<and> length (cut_up_to k gs) = length gs"
proof (induction k)
  case (Suc k)
  have "map sg_queryIds (hs[k := withoutParent (hs ! k)]) = map sg_queryIds hs" for hs
    by (cases "k < length hs")
      (auto simp: map_update withoutParent_def list_update_same_conv list_update_beyond)
  with Suc show ?case by (simp add: cut_up_to_Suc cutCycleAt_def)
qed (simp add: cut_up_to_def)

text \<open>The groups before the children are ordered.\<close>

definition claimed :: "rawGroup option list \<Rightarrow> js_string list option \<Rightarrow> savedQueryGroup list" where
  "claimed entries known =
     (let read = readGroups entries 0 [] in
      claimGroups known (cutCycles (map (dropUnknownParent read) read)) [])"

lemma normalize_claimed:
  "normalizeSavedQueryGroups v known =
     (case v of None \<Rightarrow> [] | Some entries \<Rightarrow> map (orderGroup (claimed entries known)) (claimed entries known))"
  by (simp add: normalizeSavedQueryGroups_def claimed_def Let_def split: option.split)

lemma claimed_forest:
  "distinct (map sg_id (claimed entries known)) \<and> [] \<notin> group_ids (claimed entries known)
   \<and> (\<forall>g\<in>set (claimed entries known). \<forall>p. sg_parentGroupId g = Some p \<longrightarrow> p \<in> group_ids (claimed entries known))
   \<and> acyclic (child_rel (claimed entries known))"
proof -
  let ?read = "readGroups entries 0 []"
  let ?known = "map (dropUnknownParent ?read) ?read"
  let ?c = "claimed entries known"
  have "well_parented ?known" by (rule well_parented_read) (use readGroups_ok in blast)+
  from cutCycles_acyclic [OF this] have cut: "well_parented (cutCycles ?known)"
    "acyclic (child_rel (cutCycles ?known))" by blast+
  have same: "map sg_id ?c = map sg_id (cutCycles ?known)"
    "map sg_parentGroupId ?c = map sg_parentGroupId (cutCycles ?known)"
    by (simp_all add: claimed_def claimGroups_keeps Let_def)
  have ids: "group_ids ?c = group_ids (cutCycles ?known)" using same(1) by (metis set_map)
  have "p \<in> group_ids ?c" if "g \<in> set ?c" "sg_parentGroupId g = Some p" for g p
  proof -
    have "Some p \<in> set (map sg_parentGroupId (cutCycles ?known))" using that same(2) by (metis image_eqI set_map)
    then obtain h where "h \<in> set (cutCycles ?known)" "sg_parentGroupId h = Some p" by auto
    with cut(1) show ?thesis unfolding ids by (simp add: well_parented_def)
  qed
  with cut same(1) show ?thesis unfolding child_rel_cong [OF same] ids by (simp add: well_parented_def)
qed

text \<open>
  C35. Whatever the stored value, the normalized groups form a forest: their ids are distinct and not
  empty, the parent of a group is one of the groups, and no chain of parents is cyclic.
\<close>

theorem normalized_groups_form_a_forest:
  assumes "normalizeSavedQueryGroups v known = groups"
  shows "distinct (map sg_id groups) \<and> [] \<notin> group_ids groups
    \<and> (\<forall>g\<in>set groups. \<forall>p. sg_parentGroupId g = Some p \<longrightarrow> p \<in> group_ids groups)
    \<and> acyclic (child_rel groups)"
proof (cases v)
  case (Some entries)
  let ?c = "claimed entries known"
  have g: "groups = map (orderGroup ?c) ?c" using assms by (simp add: normalize_claimed Some)
  have same: "map sg_id groups = map sg_id ?c" "map sg_parentGroupId groups = map sg_parentGroupId ?c"
    by (simp_all add: g o_def)
  have "group_ids groups = group_ids ?c" using same(1) by (metis set_map)
  then show ?thesis
    using claimed_forest [of entries known] same(1) child_rel_cong [OF same] by (auto simp: g o_def)
qed (use assms in \<open>simp add: normalize_claimed child_rel_def acyclic_def\<close>)

definition groupsExample :: "rawGroup option list" where
  "groupsExample =
     [Some \<lparr>rg_id = RawString (js ''a''), rg_name = RawOther, rg_parentGroupId = RawString (js ''b''),
       rg_queryIds = RawArray [RawString (js ''q'')], rg_childOrder = RawOther\<rparr>,
      Some \<lparr>rg_id = RawString (js ''b''), rg_name = RawOther, rg_parentGroupId = RawString (js ''a''),
       rg_queryIds = RawArray [RawString (js ''q''), RawString (js ''r'')], rg_childOrder = RawOther\<rparr>]"

theorem normalized_groups_form_a_forest_witness:
  "map sg_parentGroupId (normalizeSavedQueryGroups (Some groupsExample) None) = [None, Some (js ''a'')]
   \<and> acyclic (child_rel (normalizeSavedQueryGroups (Some groupsExample) None))"
proof -
  have "map sg_parentGroupId (normalizeSavedQueryGroups (Some groupsExample) None) = [None, Some (js ''a'')]"
    by code_simp
  with normalized_groups_form_a_forest [OF refl, of "Some groupsExample" None] show ?thesis by blast
qed

lemma claimed_queries_clean:
  "g \<in> set (claimed entries known) \<Longrightarrow> (\<forall>q\<in>set (sg_queryIds g). clean q) \<and> distinct (sg_queryIds g)"
proof -
  assume g: "g \<in> set (claimed entries known)"
  let ?read = "readGroups entries 0 []"
  let ?cut = "cutCycles (map (dropUnknownParent ?read) ?read)"
  note spec = claimGroups_spec [of known ?cut "[]"]
  have "map sg_queryIds ?cut = map sg_queryIds ?read"
    using cut_queries [of "length (map (dropUnknownParent ?read) ?read)" "map (dropUnknownParent ?read) ?read"]
    by (simp add: cutCycles_def cut_up_to_def o_def)
  then have "set (owned_queries ?cut) = set (owned_queries ?read)" by (simp add: owned_queries_def)
  moreover have "set (sg_queryIds g) \<subseteq> set (owned_queries (claimed entries known))"
    using g by (auto simp: owned_queries_def)
  moreover have "clean q" if "q \<in> set (owned_queries ?read)" for q
    using that readGroups_ok [of entries 0 "[]"] by (auto simp: owned_queries_def read_ok_def)
  ultimately have "\<forall>q\<in>set (sg_queryIds g). clean q" using spec by (auto simp: claimed_def Let_def)
  moreover have "distinct (sg_queryIds g)"
    using spec g by (auto simp: owned_queries_def claimed_def Let_def distinct_concat_iff)
  ultimately show ?thesis by blast
qed

lemma orderGroup_default:
  assumes "\<forall>q\<in>set (sg_queryIds g). clean q" "distinct (sg_queryIds g)"
    and "map sg_id gs' = map sg_id gs" "map sg_parentGroupId gs' = map sg_parentGroupId gs"
  shows "set (sg_childOrder (orderGroup gs g)) = set (defaultOrder gs' (orderGroup gs g))"
proof -
  have "set (sg_queryIds (orderGroup gs g)) = set (sg_queryIds g)"
    using ordered_queries [OF assms(1,2)] by (metis set_mset_mset)
  moreover have "childGroupIds gs' i = childGroupIds gs i" for i
    using assms(3,4) by (induction gs' gs rule: list_induct2') (auto simp: childGroupIds_def)
  ultimately have "set (defaultOrder gs' (orderGroup gs g)) = set (defaultOrder gs g)"
    by (simp add: defaultOrder_def)
  then show ?thesis by (simp add: orderGroup_def [of gs g] Let_def set_resolvedOrder)
qed

text \<open>
  Every saved query is shown once: no query id occurs twice in all normalized groups together,
  each is one of the known queries, and the children of every group are listed without repetition
  and are exactly its queries and the groups below it.
\<close>

lemma normalized_queries_have_one_owner:
  assumes "normalizeSavedQueryGroups v known = groups"
  shows "distinct (concat (map sg_queryIds groups))
    \<and> (\<forall>ids. known = Some ids \<longrightarrow> set (concat (map sg_queryIds groups)) \<subseteq> set ids)
    \<and> (\<forall>g\<in>set groups. distinct (sg_childOrder g)
        \<and> set (sg_childOrder g) = buildSavedQueryGroupQueryToken ` set (sg_queryIds g)
            \<union> buildSavedQueryGroupToken ` set (childGroupIds groups (sg_id g)))"
proof (cases v)
  case (Some entries)
  let ?c = "claimed entries known"
  have g: "groups = map (orderGroup ?c) ?c" using assms by (simp add: normalize_claimed Some)
  have "mset (owned_queries groups) = mset (owned_queries ?c)"
    unfolding g by (rule mset_owned_queries) (use claimed_queries_clean ordered_queries in blast)
  then have q: "distinct (owned_queries groups) = distinct (owned_queries ?c)"
    "set (owned_queries groups) = set (owned_queries ?c)"
    by (metis mset_eq_imp_distinct_iff, metis set_mset_mset)
  have c: "distinct (owned_queries ?c)" "\<And>ids. known = Some ids \<Longrightarrow> set (owned_queries ?c) \<subseteq> set ids"
    using claimGroups_spec by (simp_all add: claimed_def Let_def)
  have "distinct (sg_childOrder h) \<and> set (sg_childOrder h) = set (defaultOrder groups h)" if "h \<in> set groups" for h
  proof -
    from that g obtain h' where h': "h' \<in> set ?c" "h = orderGroup ?c h'" by auto
    have "map sg_id groups = map sg_id ?c" "map sg_parentGroupId groups = map sg_parentGroupId ?c"
      by (simp_all add: g o_def)
    then have "set (sg_childOrder h) = set (defaultOrder groups h)"
      unfolding h'(2) using claimed_queries_clean [OF h'(1)] by (intro orderGroup_default) blast+
    moreover have "distinct (sg_childOrder h)"
      unfolding h'(2) by (simp add: orderGroup_def Let_def distinct_resolvedOrder)
    ultimately show ?thesis by blast
  qed
  then have "\<forall>g\<in>set groups. distinct (sg_childOrder g)
      \<and> set (sg_childOrder g) = buildSavedQueryGroupQueryToken ` set (sg_queryIds g)
          \<union> buildSavedQueryGroupToken ` set (childGroupIds groups (sg_id g))"
    by (simp add: defaultOrder_def)
  then show ?thesis using q c unfolding owned_queries_def by blast
qed (use assms in \<open>simp add: normalize_claimed\<close>)

lemma normalized_queries_have_one_owner_witness:
  "map sg_queryIds (normalizeSavedQueryGroups (Some groupsExample) None) = [[js ''q''], [js ''r'']]
   \<and> distinct (concat (map sg_queryIds (normalizeSavedQueryGroups (Some groupsExample) None)))"
proof -
  have "map sg_queryIds (normalizeSavedQueryGroups (Some groupsExample) None) = [[js ''q''], [js ''r'']]"
    by code_simp
  with normalized_queries_have_one_owner [OF refl, of "Some groupsExample" None] show ?thesis by blast
qed

section \<open>The search for descendants\<close>

lemma pushChildren_spec:
  "\<exists>new. pushChildren groups p (pending, descendants) = (new @ pending, new @ descendants)
     \<and> distinct new
     \<and> set new = {sg_id g |g. g \<in> set groups \<and> sg_parentGroupId g = Some p} - set descendants"
proof (induction groups arbitrary: pending descendants)
  case (Cons g groups)
  let ?skip = "sg_parentGroupId g \<noteq> Some p \<or> sg_id g \<in> set descendants"
  show ?case
  proof (cases ?skip)
    case True
    then have "pushChildren (g # groups) p (pending, descendants) = pushChildren groups p (pending, descendants)"
      by (auto simp: pushChildren_def)
    with Cons [of pending descendants] True show ?thesis by auto
  next
    case False
    then have "pushChildren (g # groups) p (pending, descendants)
        = pushChildren groups p (sg_id g # pending, sg_id g # descendants)"
      by (simp add: pushChildren_def)
    moreover obtain new where new: "pushChildren groups p (sg_id g # pending, sg_id g # descendants)
        = (new @ sg_id g # pending, new @ sg_id g # descendants)" "distinct new"
      "set new = {sg_id g |g. g \<in> set groups \<and> sg_parentGroupId g = Some p} - set (sg_id g # descendants)"
      using Cons [of "sg_id g # pending" "sg_id g # descendants"] by blast
    ultimately show ?thesis using False
      by (intro exI [of _ "new @ [sg_id g]"]) auto
  qed
qed (simp add: pushChildren_def)

definition search_ok :: "savedQueryGroup list \<Rightarrow> js_string \<Rightarrow> js_string list \<Rightarrow> js_string list \<Rightarrow> bool" where
  "search_ok groups root pending descendants \<longleftrightarrow>
     distinct descendants \<and> set descendants \<subseteq> group_ids groups
     \<and> set descendants \<subseteq> (child_rel groups)\<^sup>+ `` {root} \<and> set pending \<subseteq> insert root (set descendants)
     \<and> (\<forall>x\<in>insert root (set descendants). x \<in> set pending \<or> child_rel groups `` {x} \<subseteq> set descendants)"

lemma search_closed:
  assumes "search_ok groups root [] ds"
  shows "set ds = (child_rel groups)\<^sup>+ `` {root}"
proof -
  have "d \<in> set ds" if "(root, d) \<in> (child_rel groups)\<^sup>+" for d
    using that by (induction rule: trancl_induct) (use assms in \<open>auto simp: search_ok_def\<close>)
  with assms show ?thesis by (auto simp: search_ok_def)
qed

lemma search_step:
  assumes "search_ok groups root (p # rest) ds" "p \<noteq> []"
    and "pushChildren groups p (rest, ds) = (new @ rest, new @ ds)" "distinct new"
    and "set new = {sg_id g |g. g \<in> set groups \<and> sg_parentGroupId g = Some p} - set ds"
  shows "search_ok groups root (new @ rest) (new @ ds)"
proof -
  let ?R = "child_rel groups"
  have children: "?R `` {p} = {sg_id g |g. g \<in> set groups \<and> sg_parentGroupId g = Some p}"
    using assms(2) by (auto simp: child_rel_def)
  have "p = root \<or> (root, p) \<in> ?R\<^sup>+" using assms(1) by (auto simp: search_ok_def)
  then have "set new \<subseteq> ?R\<^sup>+ `` {root}"
    using assms(5) by (auto simp: children [symmetric] intro: trancl_into_trancl)
  moreover have "?R `` {x} \<subseteq> set (new @ ds)" if "x = p" for x
    using assms(5) children that by auto
  moreover have "?R `` {x} \<subseteq> set (new @ ds) \<or> x \<in> set (new @ rest)"
    if "x \<in> insert root (set (new @ ds))" "x \<noteq> p" for x
    using assms(1) that unfolding search_ok_def by auto
  moreover have "distinct (new @ ds)" "set (new @ ds) \<subseteq> group_ids groups" "set (new @ rest) \<subseteq> insert root (set (new @ ds))"
    using assms(1,4,5) unfolding search_ok_def by auto
  moreover have "set ds \<subseteq> ?R\<^sup>+ `` {root}" using assms(1) by (simp add: search_ok_def)
  ultimately show ?thesis unfolding search_ok_def by (metis Un_least set_append)
qed

lemma descendantLoop_returns:
  "search_ok groups root pending ds \<Longrightarrow>
   \<exists>r. descendantLoop groups pending ds = Some r \<and> distinct r \<and> set r = (child_rel groups)\<^sup>+ `` {root}"
proof (induction "2 * card (group_ids groups - set ds) + length pending" arbitrary: pending ds rule: less_induct)
  case less
  show ?case
  proof (cases pending)
    case Nil
    have ok: "search_ok groups root [] ds" using less.prems Nil by simp
    have "descendantLoop groups [] ds = Some ds" by (subst descendantLoop.simps) simp
    moreover have "distinct ds" using ok unfolding search_ok_def by blast
    ultimately show ?thesis unfolding Nil using search_closed [OF ok] by blast
  next
    case (Cons p rest)
    show ?thesis
    proof (cases "p = []")
      case True
      have "child_rel groups `` {[]} = {}" by (auto simp: child_rel_def)
      then have "search_ok groups root rest ds"
        using less.prems unfolding Cons True search_ok_def by (metis empty_subsetI insert_subset list.simps(15) set_ConsD)
      from less.hyps [OF _ this] show ?thesis
        by (subst descendantLoop.simps) (simp add: Cons True)
    next
      case False
      obtain new where new: "pushChildren groups p (rest, ds) = (new @ rest, new @ ds)" "distinct new"
        "set new = {sg_id g |g. g \<in> set groups \<and> sg_parentGroupId g = Some p} - set ds"
        using pushChildren_spec by blast
      have "search_ok groups root (new @ rest) (new @ ds)"
        using search_step [OF less.prems [unfolded Cons] False new] .
      moreover have "card (group_ids groups - set (new @ ds)) + length new \<le> card (group_ids groups - set ds)"
      proof -
        have "card (group_ids groups - set (new @ ds)) + card (set new) = card ((group_ids groups - set (new @ ds)) \<union> set new)"
          by (rule card_Un_disjoint [symmetric]) auto
        also have "\<dots> \<le> card (group_ids groups - set ds)" by (rule card_mono) (use new(3) in auto)
        finally show ?thesis using distinct_card [OF new(2)] by simp
      qed
      ultimately have "\<exists>r. descendantLoop groups (new @ rest) (new @ ds) = Some r \<and> distinct r
          \<and> set r = (child_rel groups)\<^sup>+ `` {root}"
        by (intro less.hyps) (simp_all add: Cons)
      then show ?thesis by (subst descendantLoop.simps) (simp add: Cons False new(1))
    qed
  qed
qed

lemma descendants_of:
  "\<exists>ds. getSavedQueryGroupDescendantIds groups root = Some ds \<and> distinct ds
     \<and> set ds = (child_rel groups)\<^sup>+ `` {root}"
proof -
  have "search_ok groups root [root] []" by (simp add: search_ok_def)
  from descendantLoop_returns [OF this] show ?thesis by (auto simp: getSavedQueryGroupDescendantIds_def)
qed

text \<open>
  C36. The search for the descendants of a group always returns, on groups whose parents form cycles
  too, and finds, each once, exactly the groups that can be reached from it in at least one step.
\<close>

theorem descendant_search_returns:
  "\<exists>ds. getSavedQueryGroupDescendantIds groups root = Some ds \<and> distinct ds
     \<and> set ds = {d. (root, d) \<in> (child_rel groups)\<^sup>+}"
  using descendants_of [of groups root] by auto

section \<open>Choosing a parent\<close>

text \<open>The groups after the edited group has been given a parent.\<close>

definition reparent :: "js_string \<Rightarrow> js_string \<Rightarrow> savedQueryGroup list \<Rightarrow> savedQueryGroup list" where
  "reparent i p = map (\<lambda>g. if sg_id g = i then g\<lparr>sg_parentGroupId := Some p\<rparr> else g)"

interpretation groups: reparenting child_rel reparent "\<lambda>_. True"
  by unfold_locales (auto simp: child_rel_def reparent_def split: if_splits)

text \<open>
  Every parent offered for a group keeps the forest: the options exist, and giving the edited
  group the parent of any of them makes no cycle.
\<close>

lemma offered_parents_make_no_cycle:
  assumes "acyclic (child_rel groups)" "editing \<noteq> []"
    and "buildSavedQueryGroupParentOptions groups editing = Some options" "option \<in> set options"
  shows "acyclic (child_rel (reparent editing (fst option) groups))"
proof -
  let ?p = "fst option" and ?R = "child_rel groups"
  obtain ds where ds: "getSavedQueryGroupDescendantIds groups editing = Some ds" "set ds = ?R\<^sup>+ `` {editing}"
    using descendants_of by blast
  then have "?p \<noteq> editing" "(editing, ?p) \<notin> ?R\<^sup>+"
    using assms(2-4) by (auto simp: buildSavedQueryGroupParentOptions_def)
  with assms(1) show ?thesis by (rule groups.acyclic_reparent_below) simp
qed

lemma offered_parents_make_no_cycle_witness:
  "acyclic (child_rel (reparent (js ''b'') (js ''a'')
     [\<lparr>sg_id = js ''a'', sg_name = [], sg_parentGroupId = None, sg_queryIds = [], sg_childOrder = []\<rparr>,
      \<lparr>sg_id = js ''b'', sg_name = [], sg_parentGroupId = None, sg_queryIds = [], sg_childOrder = []\<rparr>]))"
proof -
  let ?gs = "[\<lparr>sg_id = js ''a'', sg_name = [], sg_parentGroupId = None, sg_queryIds = [], sg_childOrder = []\<rparr>,
      \<lparr>sg_id = js ''b'', sg_name = [], sg_parentGroupId = None, sg_queryIds = [], sg_childOrder = []\<rparr>]"
  have o: "buildSavedQueryGroupParentOptions ?gs (js ''b'') = Some [(js ''a'', js ''a'')]"
    by code_simp
  have "acyclic (child_rel ?gs)" by (simp add: child_rel_def acyclic_def)
  from offered_parents_make_no_cycle [OF this _ o, of "(js ''a'', js ''a'')"] show ?thesis by simp
qed

end
