(* ===== verification/PersistStorage.thy ===== *)
theory PersistStorage
  imports JsPrelude
begin

text \<open>
  \<open>src/frontend/src/utils/debouncedPersistStorage.ts\<close>: writes of the persisted store are delayed,
  coalesced and issued one at a time.

  The state is the record of the closure's variables. A batch is the promise shared by the writes
  that are coalesced; it is numbered, and \<open>ps_settled\<close> lists the batches that were resolved or
  rejected, newest first. \<open>ps_issued\<close> lists the operations handed to the underlying storage, oldest
  first. The storage is a parameter: what it does with its n-th operation (throw, return, or give a
  promise that is settled by a later event). JavaScript runs the events one after the other:
  \<open>persistStep\<close> is one of them; the target of the
  page events exists. Reads go to the underlying storage unchanged and are not modelled.
\<close>

datatype 'v persistOp = SetOp js_string 'v | RemoveOp js_string

datatype storageReply = StorageThrows | StorageReturns | StoragePromises

record 'v persistState =
  ps_pendingOperation :: "'v persistOp option"
  ps_pendingBatch :: "nat option"
  ps_pendingTimer :: bool
  ps_pendingFlushRequested :: bool
  ps_operationInFlight :: bool
  ps_activeBatch :: "nat option"
  ps_listenersBound :: bool
  ps_nextBatch :: nat
  ps_settled :: "(nat \<times> bool) list"
  ps_issued :: "'v persistOp list"

definition persistInit :: "'v persistState" where
  "persistInit = \<lparr>ps_pendingOperation = None, ps_pendingBatch = None, ps_pendingTimer = False,
     ps_pendingFlushRequested = False, ps_operationInFlight = False, ps_activeBatch = None,
     ps_listenersBound = False, ps_nextBatch = 0, ps_settled = [], ps_issued = []\<rparr>"

definition ensureBatch :: "'v persistState \<Rightarrow> 'v persistState" where
  "ensureBatch s =
     (if ps_pendingBatch s = None
      then s\<lparr>ps_pendingBatch := Some (ps_nextBatch s), ps_nextBatch := ps_nextBatch s + 1\<rparr> else s)"

text \<open>
  \<open>startPendingOperation\<close> takes the pending operation and batch and issues it; a synchronous answer
  finishes the batch at once, and \<open>finishOperation\<close> starts again when a flush was requested. The two
  call each other: in \<open>startPendingOperation\<close> the call of \<open>finishOperation\<close> is written out.
\<close>

definition takePending :: "'v persistOp \<Rightarrow> nat \<Rightarrow> 'v persistState \<Rightarrow> 'v persistState" where
  "takePending operation batch s =
     s\<lparr>ps_pendingTimer := False, ps_pendingOperation := None, ps_pendingBatch := None,
       ps_pendingFlushRequested := False, ps_operationInFlight := True, ps_activeBatch := Some batch,
       ps_issued := ps_issued s @ [operation]\<rparr>"

definition settleBatch :: "nat \<Rightarrow> bool \<Rightarrow> 'v persistState \<Rightarrow> 'v persistState" where
  "settleBatch batch succeeded s =
     s\<lparr>ps_operationInFlight := False, ps_activeBatch := None, ps_settled := (batch, succeeded) # ps_settled s\<rparr>"

function startPendingOperation :: "(nat \<Rightarrow> storageReply) \<Rightarrow> 'v persistState \<Rightarrow> 'v persistState" where
  "startPendingOperation storage s =
     (if ps_operationInFlight s then s
      else (case ps_pendingOperation s of None \<Rightarrow> s
            | Some operation \<Rightarrow>
                (case ps_pendingBatch s of None \<Rightarrow> s
                 | Some batch \<Rightarrow>
                     (let taken = takePending operation batch s; reply = storage (length (ps_issued s)) in
                      if reply = StoragePromises then taken
                      else
                        (let finished = settleBatch batch (reply = StorageReturns) taken in
                         if ps_pendingFlushRequested taken then startPendingOperation storage finished
                         else finished)))))"
  by pat_completeness auto
termination
  by (relation "measure (\<lambda>(storage, s). if ps_pendingOperation s = None then 0 else 1)")
    (auto simp: takePending_def settleBatch_def)

declare startPendingOperation.simps [simp del]

definition finishOperation :: "(nat \<Rightarrow> storageReply) \<Rightarrow> nat \<Rightarrow> bool \<Rightarrow> 'v persistState \<Rightarrow> 'v persistState" where
  "finishOperation storage batch succeeded s =
     (if ps_pendingFlushRequested s then startPendingOperation storage (settleBatch batch succeeded s)
      else settleBatch batch succeeded s)"

definition flushPendingWrite :: "(nat \<Rightarrow> storageReply) \<Rightarrow> 'v persistState \<Rightarrow> 'v persistState" where
  "flushPendingWrite storage s =
     (let s1 = s\<lparr>ps_pendingTimer := False\<rparr> in
      if ps_pendingOperation s1 = None \<or> ps_pendingBatch s1 = None then s1
      else startPendingOperation storage (s1\<lparr>ps_pendingFlushRequested := True\<rparr>))"

definition persistSetItem :: "js_string \<Rightarrow> 'v \<Rightarrow> 'v persistState \<Rightarrow> 'v persistState" where
  "persistSetItem name v s =
     (let s1 = ensureBatch (s\<lparr>ps_listenersBound := True, ps_pendingOperation := Some (SetOp name v)\<rparr>) in
      if ps_pendingFlushRequested s1 then s1 else s1\<lparr>ps_pendingTimer := True\<rparr>)"

definition persistRemoveItem ::
  "(nat \<Rightarrow> storageReply) \<Rightarrow> js_string \<Rightarrow> 'v persistState \<Rightarrow> 'v persistState" where
  "persistRemoveItem storage name s =
     startPendingOperation storage
       ((ensureBatch (s\<lparr>ps_listenersBound := True, ps_pendingOperation := Some (RemoveOp name)\<rparr>))
          \<lparr>ps_pendingFlushRequested := True, ps_pendingTimer := False\<rparr>)"

text \<open>
  The events: calls, the page that is left (which flushes once the listeners are bound), the timer,
  and the settling of the promise of the storage.
\<close>

datatype 'v persistEvent =
  SetItem js_string 'v | RemoveItem js_string | Flush | PageHide | TimerFires | Settled bool

fun persistStep :: "(nat \<Rightarrow> storageReply) \<Rightarrow> 'v persistState \<Rightarrow> 'v persistEvent \<Rightarrow> 'v persistState" where
  "persistStep storage s (SetItem name v) = persistSetItem name v s"
| "persistStep storage s (RemoveItem name) = persistRemoveItem storage name s"
| "persistStep storage s Flush = flushPendingWrite storage s"
| "persistStep storage s PageHide = (if ps_listenersBound s then flushPendingWrite storage s else s)"
| "persistStep storage s TimerFires = (if ps_pendingTimer s then flushPendingWrite storage s else s)"
| "persistStep storage s (Settled ok) =
     (case ps_activeBatch s of None \<Rightarrow> s | Some batch \<Rightarrow> finishOperation storage batch ok s)"

text \<open>The promise that \<open>flush\<close> returns: the batch it waits for, \<open>None\<close> for a resolved promise.\<close>

definition flushPromise :: "'v persistState \<Rightarrow> nat option" where
  "flushPromise s =
     (if ps_pendingOperation s = None \<or> ps_pendingBatch s = None then ps_activeBatch s else ps_pendingBatch s)"

abbreviation persistRun :: "(nat \<Rightarrow> storageReply) \<Rightarrow> 'v persistState \<Rightarrow> 'v persistEvent list \<Rightarrow> 'v persistState" where
  "persistRun storage \<equiv> foldl (persistStep storage)"

fun requestOf :: "'v persistEvent \<Rightarrow> 'v persistOp option" where
  "requestOf (SetItem name v) = Some (SetOp name v)"
| "requestOf (RemoveItem name) = Some (RemoveOp name)"
| "requestOf _ = None"

end
