(* ===== verification/PersistStorageProps.thy ===== *)
theory PersistStorageProps
  imports PersistStorage "HOL-Library.Sublist"
begin

text \<open>
  The debounced storage loses no last write, keeps the order of writes, has at most one operation in
  flight, and settles every batch exactly once.
\<close>

section \<open>Issuing an operation\<close>

definition answered :: "storageReply \<Rightarrow> nat \<Rightarrow> 'v persistState \<Rightarrow> 'v persistState" where
  "answered reply batch s =
     (case reply of StorageThrows \<Rightarrow> settleBatch batch False s | StorageReturns \<Rightarrow> settleBatch batch True s
      | StoragePromises \<Rightarrow> s)"

lemma take_fields [simp]:
  "ps_pendingOperation (takePending p b s) = None" "ps_pendingBatch (takePending p b s) = None"
  "ps_pendingTimer (takePending p b s) = False" "ps_pendingFlushRequested (takePending p b s) = False"
  "ps_operationInFlight (takePending p b s) = True" "ps_activeBatch (takePending p b s) = Some b"
  "ps_nextBatch (takePending p b s) = ps_nextBatch s" "ps_settled (takePending p b s) = ps_settled s"
  "ps_issued (takePending p b s) = ps_issued s @ [p]" "ps_listenersBound (takePending p b s) = ps_listenersBound s"
  by (simp_all add: takePending_def)

lemma settle_fields [simp]:
  "ps_pendingOperation (settleBatch b k s) = ps_pendingOperation s" "ps_pendingBatch (settleBatch b k s) = ps_pendingBatch s"
  "ps_pendingTimer (settleBatch b k s) = ps_pendingTimer s"
  "ps_pendingFlushRequested (settleBatch b k s) = ps_pendingFlushRequested s"
  "ps_operationInFlight (settleBatch b k s) = False" "ps_activeBatch (settleBatch b k s) = None"
  "ps_nextBatch (settleBatch b k s) = ps_nextBatch s" "ps_settled (settleBatch b k s) = (b, k) # ps_settled s"
  "ps_issued (settleBatch b k s) = ps_issued s" "ps_listenersBound (settleBatch b k s) = ps_listenersBound s"
  by (simp_all add: settleBatch_def)

lemma start_idle:
  "ps_operationInFlight s \<or> ps_pendingOperation s = None \<or> ps_pendingBatch s = None \<Longrightarrow>
   startPendingOperation storage s = s"
  by (subst startPendingOperation.simps) (auto split: option.split)

lemma start_issues:
  assumes "\<not> ps_operationInFlight s" "ps_pendingOperation s = Some p" "ps_pendingBatch s = Some b"
  shows "startPendingOperation storage s = answered (storage (length (ps_issued s))) b (takePending p b s)"
  using assms
  by (subst startPendingOperation.simps)
    (auto simp: answered_def Let_def split: storageReply.split)

lemmas finish_cases = finishOperation_def

section \<open>The invariant\<close>

definition waiting :: "'v persistState \<Rightarrow> 'v persistOp list" where
  "waiting s = (case ps_pendingOperation s of None \<Rightarrow> [] | Some p \<Rightarrow> [p])"

definition open_batches :: "'v persistState \<Rightarrow> nat set" where
  "open_batches s = set_option (ps_pendingBatch s) \<union> set_option (ps_activeBatch s)"

text \<open>Batches: none settled twice, and each is pending, active or settled.\<close>

definition batches_ok :: "'v persistState \<Rightarrow> bool" where
  "batches_ok s \<longleftrightarrow>
     distinct (map fst (ps_settled s)) \<and> set (map fst (ps_settled s)) \<inter> open_batches s = {}
     \<and> set (map fst (ps_settled s)) \<union> open_batches s = {..<ps_nextBatch s}
     \<and> (ps_pendingBatch s \<noteq> None \<longrightarrow> ps_pendingBatch s \<noteq> ps_activeBatch s)"

definition flags_ok :: "'v persistState \<Rightarrow> bool" where
  "flags_ok s \<longleftrightarrow>
     (ps_pendingOperation s = None \<longleftrightarrow> ps_pendingBatch s = None)
     \<and> (ps_operationInFlight s \<longleftrightarrow> ps_activeBatch s \<noteq> None)
     \<and> (ps_pendingTimer s \<longrightarrow> ps_pendingOperation s \<noteq> None \<and> \<not> ps_pendingFlushRequested s)
     \<and> (ps_pendingFlushRequested s \<longrightarrow> ps_pendingOperation s \<noteq> None)
     \<and> (ps_pendingOperation s \<noteq> None \<longrightarrow> ps_pendingTimer s \<or> ps_pendingFlushRequested s)"

text \<open>No request is issued twice or out of order, and the last one is issued or waiting.\<close>

definition history_ok :: "'v persistOp list \<Rightarrow> 'v persistState \<Rightarrow> bool" where
  "history_ok requests s \<longleftrightarrow>
     subseq (ps_issued s @ waiting s) requests
     \<and> (requests \<noteq> [] \<longrightarrow> ps_issued s @ waiting s \<noteq> [] \<and> last (ps_issued s @ waiting s) = last requests)"

definition quiet_flush :: "'v persistState \<Rightarrow> bool" where
  "quiet_flush s \<longleftrightarrow> (ps_pendingFlushRequested s \<longrightarrow> ps_operationInFlight s)"

definition persist_ok :: "'v persistOp list \<Rightarrow> 'v persistState \<Rightarrow> bool" where
  "persist_ok requests s \<longleftrightarrow> flags_ok s \<and> batches_ok s \<and> history_ok requests s \<and> quiet_flush s"

lemmas persist_defs = flags_ok_def batches_ok_def history_ok_def quiet_flush_def waiting_def open_batches_def

lemma persist_ok_init: "persist_ok [] persistInit"
  by (simp add: persist_ok_def persist_defs persistInit_def)

lemma answered_ok:
  assumes "flags_ok s" "batches_ok s" "history_ok r s" "\<not> ps_operationInFlight s"
    and "ps_pendingOperation s = Some p" "ps_pendingBatch s = Some b"
  shows "persist_ok r (answered reply b (takePending p b s))"
proof -
  have "ps_activeBatch s = None" using assms(1,4) by (simp add: flags_ok_def)
  then show ?thesis
    using assms by (cases reply) (auto simp: persist_ok_def persist_defs answered_def)
qed

lemma start_ok:
  assumes "flags_ok s" "batches_ok s" "history_ok r s"
  shows "persist_ok r (startPendingOperation storage s)"
proof (cases "ps_operationInFlight s \<or> ps_pendingOperation s = None")
  case True
  then have "quiet_flush s" using assms(1) by (auto simp: quiet_flush_def flags_ok_def)
  moreover have "startPendingOperation storage s = s" by (rule start_idle) (use True in blast)
  ultimately show ?thesis using assms by (simp add: persist_ok_def)
next
  case False
  then obtain p b where "ps_pendingOperation s = Some p" "ps_pendingBatch s = Some b"
    using assms(1) by (auto simp: flags_ok_def)
  with False show ?thesis using answered_ok [OF assms] start_issues by metis
qed

lemma settle_ok:
  assumes "persist_ok r s" "ps_activeBatch s = Some b"
  shows "flags_ok (settleBatch b k s) \<and> batches_ok (settleBatch b k s) \<and> history_ok r (settleBatch b k s)"
  using assms by (auto simp: persist_ok_def persist_defs)

lemma finish_ok:
  assumes "persist_ok r s" "ps_activeBatch s = Some b"
  shows "persist_ok r (finishOperation storage b k s)"
  using settle_ok [OF assms, of k] start_ok [of "settleBatch b k s" r storage]
  by (simp add: finish_cases persist_ok_def quiet_flush_def)

lemma flush_ok: "persist_ok r s \<Longrightarrow> persist_ok r (flushPendingWrite storage s)"
  unfolding flushPendingWrite_def Let_def
  by (auto intro!: start_ok) (auto simp: persist_ok_def persist_defs)

lemma ensureBatch_cases:
  obtains "ps_pendingBatch s \<noteq> None" "ensureBatch s = s"
  | "ps_pendingBatch s = None"
    "ensureBatch s = s\<lparr>ps_pendingBatch := Some (ps_nextBatch s), ps_nextBatch := ps_nextBatch s + 1\<rparr>"
  by (cases "ps_pendingBatch s = None") (auto simp: ensureBatch_def)

lemma history_request:
  assumes "history_ok r s" "ps_issued s' = ps_issued s" "ps_pendingOperation s' = Some p"
  shows "history_ok (r @ [p]) s'"
proof -
  have "subseq (ps_issued s) (ps_issued s @ waiting s)" by (rule prefix_imp_subseq) simp
  then have "subseq (ps_issued s) r" using assms(1) by (auto simp: history_ok_def intro: subseq_order.trans)
  then have "subseq (ps_issued s @ [p]) (r @ [p])" by (intro list_emb_append_mono) simp_all
  then show ?thesis using assms(2,3) by (simp add: history_ok_def waiting_def)
qed

lemma batches_new:
  assumes "batches_ok s" "ps_pendingBatch s = None" "ps_pendingBatch s' = Some (ps_nextBatch s)"
    and "ps_nextBatch s' = ps_nextBatch s + 1" "ps_settled s' = ps_settled s" "ps_activeBatch s' = ps_activeBatch s"
  shows "batches_ok s'"
proof -
  have all: "set (map fst (ps_settled s)) \<union> set_option (ps_activeBatch s) = {..<ps_nextBatch s}"
    using assms(1,2) by (simp add: batches_ok_def open_batches_def)
  then have new: "ps_nextBatch s \<notin> set (map fst (ps_settled s))" "ps_activeBatch s \<noteq> Some (ps_nextBatch s)"
    by (auto simp: set_eq_iff)
  have "{..<ps_nextBatch s + 1} = insert (ps_nextBatch s) {..<ps_nextBatch s}" by auto
  with assms all new show ?thesis by (auto simp: batches_ok_def open_batches_def)
qed

definition requested :: "'v persistOp \<Rightarrow> 'v persistState \<Rightarrow> 'v persistState" where
  "requested p s = ensureBatch (s\<lparr>ps_listenersBound := True, ps_pendingOperation := Some p\<rparr>)"

lemma requested_fields:
  "ps_pendingOperation (requested p s) = Some p" "ps_pendingBatch (requested p s) \<noteq> None"
  "ps_operationInFlight (requested p s) = ps_operationInFlight s" "ps_activeBatch (requested p s) = ps_activeBatch s"
  "ps_pendingFlushRequested (requested p s) = ps_pendingFlushRequested s"
  "ps_pendingTimer (requested p s) = ps_pendingTimer s" "ps_issued (requested p s) = ps_issued s"
  by (simp_all add: requested_def ensureBatch_def)

lemma requested_ok:
  assumes "persist_ok r s"
  shows "batches_ok (requested p s) \<and> history_ok (r @ [p]) (requested p s)"
proof
  have b: "batches_ok s" "history_ok r s" using assms by (simp_all add: persist_ok_def)
  show "history_ok (r @ [p]) (requested p s)"
    by (rule history_request [OF b(2)]) (simp_all add: requested_fields)
  show "batches_ok (requested p s)"
  proof (cases "ps_pendingBatch s = None")
    case True
    show ?thesis by (rule batches_new [OF b(1) True]) (simp_all add: requested_def ensureBatch_def True)
  next
    case False
    then show ?thesis using b(1)
      by (auto simp: requested_def ensureBatch_def batches_ok_def open_batches_def)
  qed
qed

lemma control_fields [simp]:
  "batches_ok (s\<lparr>ps_pendingTimer := t\<rparr>) = batches_ok s"
  "history_ok r (s\<lparr>ps_pendingTimer := t\<rparr>) = history_ok r s"
  "batches_ok (s\<lparr>ps_pendingFlushRequested := f\<rparr>) = batches_ok s"
  "history_ok r (s\<lparr>ps_pendingFlushRequested := f\<rparr>) = history_ok r s"
  by (simp_all add: batches_ok_def open_batches_def history_ok_def waiting_def)

lemma set_item_ok:
  assumes "persist_ok r s"
  shows "persist_ok (r @ [SetOp name v]) (persistSetItem name v s)"
proof -
  have f: "flags_ok s" "quiet_flush s" using assms by (simp_all add: persist_ok_def)
  have "flags_ok (persistSetItem name v s)" "quiet_flush (persistSetItem name v s)"
    using f unfolding persistSetItem_def Let_def requested_def [symmetric]
    by (auto simp: flags_ok_def quiet_flush_def requested_fields)
  with requested_ok [OF assms] show ?thesis
    unfolding persist_ok_def persistSetItem_def Let_def requested_def [symmetric] by simp
qed

lemma remove_item_ok:
  assumes "persist_ok r s"
  shows "persist_ok (r @ [RemoveOp name]) (persistRemoveItem storage name s)"
  unfolding persistRemoveItem_def requested_def [symmetric]
proof (rule start_ok)
  have "flags_ok s" using assms by (simp add: persist_ok_def)
  then show "flags_ok ((requested (RemoveOp name) s)\<lparr>ps_pendingFlushRequested := True, ps_pendingTimer := False\<rparr>)"
    by (simp add: flags_ok_def requested_fields)
qed (use requested_ok [OF assms] in simp_all)

lemma step_ok:
  assumes "persist_ok r s"
  shows "persist_ok (r @ (case requestOf e of None \<Rightarrow> [] | Some p \<Rightarrow> [p])) (persistStep storage s e)"
  using assms by (cases e) (auto intro: set_item_ok remove_item_ok flush_ok finish_ok split: option.split)

definition requests :: "'v persistEvent list \<Rightarrow> 'v persistOp list" where
  "requests events = List.map_filter requestOf events"

lemma run_ok:
  "persist_ok r s \<Longrightarrow> persist_ok (r @ requests events) (persistRun storage s events)"
proof (induction events arbitrary: r s)
  case (Cons e events)
  from Cons.IH [OF step_ok [OF Cons.prems, of e storage]] show ?case
    by (cases "requestOf e") (simp_all add: requests_def map_filter_simps)
qed (simp add: requests_def map_filter_simps)

lemmas run_from_start = run_ok [OF persist_ok_init, simplified]

section \<open>Properties\<close>

text \<open>
  C33. No write is lost or reordered: after any sequence of events, whatever the storage answers, the
  operations issued so far, followed by the waiting one, are a subsequence of the requested ones, and
  the last request is the waiting operation or the last one issued; and a waiting operation has a
  timer, or an operation is in flight at whose end it is started.
\<close>

theorem last_write_is_kept:
  "\<exists>s. s = persistRun storage persistInit events
    \<and> subseq (ps_issued s @ waiting s) (requests events)
    \<and> (requests events = [] \<or> last (ps_issued s @ waiting s) = last (requests events))
    \<and> (waiting s = [] \<or> ps_pendingTimer s \<or> (ps_pendingFlushRequested s \<and> ps_operationInFlight s))"
  using run_from_start [of events storage]
  by (auto simp: persist_ok_def history_ok_def flags_ok_def quiet_flush_def waiting_def split: option.splits)

text \<open>
  Every promise is settled exactly once: no batch is resolved or rejected twice, a settled batch is
  neither pending nor in flight, and every batch handed out so far is settled, pending or in flight.
\<close>

lemma batches_settle_once:
  "\<exists>s. s = persistRun storage persistInit events
    \<and> distinct (map fst (ps_settled s)) \<and> set (map fst (ps_settled s)) \<inter> open_batches s = {}
    \<and> set (map fst (ps_settled s)) \<union> open_batches s = {..<ps_nextBatch s}"
  using run_from_start [of events storage] by (auto simp: persist_ok_def batches_ok_def)

section \<open>Draining\<close>

definition drained :: "'v persistState \<Rightarrow> bool" where
  "drained s \<longleftrightarrow> ps_pendingOperation s = None \<and> \<not> ps_operationInFlight s \<and> \<not> ps_pendingTimer s"

text \<open>Waiting for one answer of the storage at most.\<close>

definition one_left :: "'v persistState \<Rightarrow> bool" where
  "one_left s \<longleftrightarrow> ps_pendingOperation s = None \<and> \<not> ps_pendingTimer s \<and> \<not> ps_pendingFlushRequested s"

lemma start_one_left:
  assumes "flags_ok s" "\<not> ps_operationInFlight s" "\<not> ps_pendingTimer s"
  shows "one_left (startPendingOperation storage s)"
proof (cases "ps_pendingOperation s")
  case None
  have "startPendingOperation storage s = s" by (rule start_idle) (simp add: None)
  then show ?thesis using None assms by (auto simp: one_left_def flags_ok_def)
next
  case (Some p)
  then obtain b where "ps_pendingBatch s = Some b" using assms(1) by (auto simp: flags_ok_def)
  from start_issues [OF assms(2) Some this] show ?thesis
    by (cases "storage (length (ps_issued s))") (simp_all add: one_left_def answered_def)
qed

lemma settle_one_left:
  assumes "persist_ok r s" "one_left s"
  shows "drained (persistStep storage s (Settled k))"
proof (cases "ps_activeBatch s")
  case None
  then show ?thesis using assms by (auto simp: drained_def one_left_def persist_ok_def flags_ok_def)
next
  case (Some b)
  then show ?thesis using assms by (simp add: drained_def one_left_def finish_cases)
qed

definition flushing :: "'v persistState \<Rightarrow> bool" where
  "flushing s \<longleftrightarrow> one_left s \<or> (ps_operationInFlight s \<and> ps_pendingFlushRequested s \<and> \<not> ps_pendingTimer s)"

lemma flush_flushing:
  assumes "persist_ok r s"
  shows "flushing (flushPendingWrite storage s)"
proof (cases "ps_pendingOperation s")
  case None
  then show ?thesis using assms
    by (auto simp: flushPendingWrite_def flushing_def one_left_def persist_ok_def flags_ok_def)
next
  case (Some p)
  let ?s = "s\<lparr>ps_pendingTimer := False, ps_pendingFlushRequested := True\<rparr>"
  have f: "flags_ok ?s" using assms Some by (auto simp: persist_ok_def flags_ok_def)
  obtain b where b: "ps_pendingBatch s = Some b" using assms Some by (auto simp: persist_ok_def flags_ok_def)
  have flush: "flushPendingWrite storage s = startPendingOperation storage ?s"
    using Some b by (simp add: flushPendingWrite_def)
  show ?thesis
  proof (cases "ps_operationInFlight s")
    case True
    then show ?thesis unfolding flush by (simp add: start_idle flushing_def)
  next
    case False
    then show ?thesis unfolding flush flushing_def using start_one_left [OF f] by simp
  qed
qed

lemma settle_flushing:
  assumes "persist_ok r s" "flushing s"
  shows "one_left (persistStep storage s (Settled k))"
proof (cases "ps_activeBatch s")
  case None
  then show ?thesis using assms by (auto simp: flushing_def persist_ok_def flags_ok_def)
next
  case (Some b)
  have "flags_ok (settleBatch b k s)" using settle_ok [OF assms(1) Some] by blast
  from start_one_left [OF this, of storage] assms(2) Some show ?thesis
    by (auto simp: flushing_def finish_cases one_left_def)
qed

text \<open>
  C34. A flush empties the queue: after any events, a flush and the answers of at most two operations
  leave nothing waiting, no timer, nothing in flight and no open promise; and the last request is the
  last operation that was issued.
\<close>

theorem flush_drains_the_queue:
  "\<exists>s. s = persistRun storage persistInit (events @ [Flush, Settled a, Settled b])
    \<and> drained s \<and> open_batches s = {}
    \<and> (requests events = [] \<or> (ps_issued s \<noteq> [] \<and> last (ps_issued s) = last (requests events)))"
proof -
  let ?before = "persistRun storage persistInit events"
  let ?flushed = "persistStep storage ?before Flush" and ?s = "persistRun storage persistInit (events @ [Flush, Settled a, Settled b])"
  have ok0: "persist_ok (requests events) ?before" by (rule run_from_start)
  have ok1: "persist_ok (requests events) ?flushed" using step_ok [OF ok0, of Flush storage] by simp
  have ok2: "persist_ok (requests events) (persistStep storage ?flushed (Settled a))"
    using step_ok [OF ok1, of "Settled a" storage] by simp
  have "flushing ?flushed" using flush_flushing [OF ok0] by simp
  from settle_one_left [OF ok2 settle_flushing [OF ok1 this]] have d: "drained ?s" by simp
  have ok: "persist_ok (requests events) ?s"
    using step_ok [OF ok2, of "Settled b" storage]
    by (simp only: foldl_append foldl.simps requestOf.simps option.case append_Nil2)
  then have "waiting ?s = []" "open_batches ?s = {}"
    using d by (auto simp: drained_def waiting_def open_batches_def persist_ok_def flags_ok_def)
  moreover have "history_ok (requests events) ?s" using ok by (simp add: persist_ok_def)
  ultimately show ?thesis using d unfolding history_ok_def by auto
qed

end
