(* ===== verification/JsMap.thy ===== *)
theory JsMap
  imports JsPrelude
begin

text \<open>
  The \<open>Map\<close> of JavaScript: a finite map that remembers the order in which its keys were inserted.
  It is an association list with distinct keys, oldest first; setting a key that is there keeps its
  place. The locale \<open>ordered_map\<close> is what the clients of a \<open>Map\<close> rely on; they are proved in it
  and used through its interpretation on the association lists.
\<close>

type_synonym ('k, 'v) js_map = "('k \<times> 'v) list"

definition jm_get :: "('k, 'v) js_map \<Rightarrow> 'k \<Rightarrow> 'v option" where
  "jm_get m = map_of m"

fun jm_set :: "('k, 'v) js_map \<Rightarrow> 'k \<Rightarrow> 'v \<Rightarrow> ('k, 'v) js_map" where
  "jm_set [] k v = [(k, v)]"
| "jm_set (e # m) k v = (if fst e = k then (k, v) # m else e # jm_set m k v)"

definition jm_delete :: "('k, 'v) js_map \<Rightarrow> 'k \<Rightarrow> ('k, 'v) js_map" where
  "jm_delete m k = filter (\<lambda>e. fst e \<noteq> k) m"

definition jm_keys :: "('k, 'v) js_map \<Rightarrow> 'k list" where
  "jm_keys m = map fst m"

text \<open>Deleting while iterating over the keys, as \<open>for (const k of m.keys())\<close> and \<open>m.forEach\<close> do.\<close>

definition jm_delete_if :: "('k \<Rightarrow> 'v \<Rightarrow> bool) \<Rightarrow> ('k, 'v) js_map \<Rightarrow> ('k, 'v) js_map" where
  "jm_delete_if P m = filter (\<lambda>e. \<not> P (fst e) (snd e)) m"

lemma jm_set_keys: "jm_keys (jm_set m k v) = (if k \<in> set (jm_keys m) then jm_keys m else jm_keys m @ [k])"
  by (induction m) (auto simp: jm_keys_def)

lemma jm_get_set: "jm_get (jm_set m k v) k' = (if k' = k then Some v else jm_get m k')"
  by (induction m) (auto simp: jm_get_def)

lemma jm_delete_keys: "jm_keys (jm_delete m k) = filter (\<lambda>k'. k' \<noteq> k) (jm_keys m)"
  by (simp add: jm_keys_def jm_delete_def filter_map o_def)

lemma jm_get_delete: "jm_get (jm_delete m k) k' = (if k' = k then None else jm_get m k')"
  by (induction m) (auto simp: jm_get_def jm_delete_def)

lemma jm_get_None: "jm_get m k = None \<longleftrightarrow> k \<notin> set (jm_keys m)"
  by (simp add: jm_get_def jm_keys_def map_of_eq_None_iff)

lemma jm_set_entries: "set (jm_set m k v) \<subseteq> insert (k, v) (set m)"
  by (induction m) auto

lemma jm_get_entry: "distinct (jm_keys m) \<Longrightarrow> jm_get m k = Some v \<longleftrightarrow> (k, v) \<in> set m"
  by (simp add: jm_get_def jm_keys_def)

locale ordered_map =
  fixes get :: "'m \<Rightarrow> 'k \<Rightarrow> 'v option"
    and put :: "'m \<Rightarrow> 'k \<Rightarrow> 'v \<Rightarrow> 'm"
    and del :: "'m \<Rightarrow> 'k \<Rightarrow> 'm"
    and keys :: "'m \<Rightarrow> 'k list"
  assumes keys_put: "keys (put m k v) = (if k \<in> set (keys m) then keys m else keys m @ [k])"
    and get_put: "get (put m k v) k' = (if k' = k then Some v else get m k')"
    and keys_del: "keys (del m k) = filter (\<lambda>k'. k' \<noteq> k) (keys m)"
    and get_del: "get (del m k) k' = (if k' = k then None else get m k')"
    and get_None: "get m k = None \<longleftrightarrow> k \<notin> set (keys m)"
begin

text \<open>Moving a key to the end, and the bound that deleting the oldest key restores.\<close>

lemma keys_touch: "keys (put (del m k) k v) = filter (\<lambda>k'. k' \<noteq> k) (keys m) @ [k]"
  by (simp add: keys_put keys_del)

lemma distinct_put: "distinct (keys m) \<Longrightarrow> distinct (keys (put m k v))"
  by (simp add: keys_put)

lemma distinct_del: "distinct (keys m) \<Longrightarrow> distinct (keys (del m k))"
  by (simp add: keys_del)

lemma del_oldest:
  "distinct (keys m) \<Longrightarrow> keys m = k # ks \<Longrightarrow> keys (del m k) = ks"
  by (auto simp: keys_del intro: filter_True)

lemma length_put: "length (keys (put m k v)) \<le> length (keys m) + 1"
  by (simp add: keys_put)

lemma length_del: "length (keys (del m k)) \<le> length (keys m)"
  by (simp add: keys_del)

end

interpretation jm: ordered_map jm_get jm_set jm_delete jm_keys
  by unfold_locales (simp_all add: jm_set_keys jm_get_set jm_delete_keys jm_get_delete jm_get_None)

end
