(* ===== verification/AsyncCaches.thy ===== *)
theory AsyncCaches
  imports JsMap
begin

text \<open>
  The two caches of promises: \<open>src/frontend/src/utils/boundedAsyncCache.ts\<close> (least recently used,
  no expiry) and \<open>src/frontend/src/utils/tableMetadataRequestCache.ts\<close> (expiry, oldest entry dropped).

  A promise is the number of the load that made it; comparing entries by identity is comparing these
  numbers. A load that fails, at once or later, is the event of its rejection: the handlers run as
  microtasks, after the call.
\<close>

section \<open>The bounded cache\<close>

record boundedCache =
  bc_entries :: "(js_string, nat) js_map"
  bc_next :: nat

definition createBoundedAsyncCache :: "int \<Rightarrow> boundedCache option" where
  "createBoundedAsyncCache maxEntries =
     (if maxEntries < 1 then None else Some \<lparr>bc_entries = [], bc_next = 0\<rparr>)"

definition dropOldest :: "nat \<Rightarrow> (js_string, nat) js_map \<Rightarrow> (js_string, nat) js_map" where
  "dropOldest maxEntries m =
     (if maxEntries < length (jm_keys m)
      then (case jm_keys m of [] \<Rightarrow> m | oldestKey # _ \<Rightarrow> jm_delete m oldestKey) else m)"

text \<open>The promise and the new state.\<close>

definition getOrLoad :: "nat \<Rightarrow> js_string \<Rightarrow> boundedCache \<Rightarrow> nat \<times> boundedCache" where
  "getOrLoad maxEntries key c =
     (case jm_get (bc_entries c) key of
        Some promise \<Rightarrow>
          (promise, c\<lparr>bc_entries := jm_set (jm_delete (bc_entries c) key) key promise\<rparr>)
      | None \<Rightarrow>
          (bc_next c, \<lparr>bc_entries = dropOldest maxEntries (jm_set (bc_entries c) key (bc_next c)),
                       bc_next = bc_next c + 1\<rparr>))"

definition loadRejected :: "js_string \<Rightarrow> nat \<Rightarrow> boundedCache \<Rightarrow> boundedCache" where
  "loadRejected key promise c =
     (if jm_get (bc_entries c) key = Some promise then c\<lparr>bc_entries := jm_delete (bc_entries c) key\<rparr> else c)"

definition invalidatePrefix :: "js_string \<Rightarrow> boundedCache \<Rightarrow> boundedCache" where
  "invalidatePrefix p c = c\<lparr>bc_entries := jm_delete_if (\<lambda>key _. prefix p key) (bc_entries c)\<rparr>"

datatype cacheEvent = Requested js_string | LoadRejected js_string nat | Invalidated js_string

fun cacheStep :: "nat \<Rightarrow> boundedCache \<Rightarrow> cacheEvent \<Rightarrow> boundedCache" where
  "cacheStep maxEntries c (Requested key) = snd (getOrLoad maxEntries key c)"
| "cacheStep maxEntries c (LoadRejected key promise) = loadRejected key promise c"
| "cacheStep maxEntries c (Invalidated p) = invalidatePrefix p c"

section \<open>Table metadata requests\<close>

datatype metadataKind = KindColumns | KindIndexes | KindForeignKeys

record metadataKey =
  mk_connectionId :: js_string
  mk_dbName :: js_string
  mk_tableName :: js_string
  mk_kind :: metadataKind
  mk_connectionParams :: js_string

text \<open>\<open>JSON.stringify\<close> of an array of five strings is injective: the key is the array.\<close>

definition serializeTableMetadataRequestKey ::
  "metadataKey \<Rightarrow> metadataKind \<times> js_string \<times> js_string \<times> js_string \<times> js_string" where
  "serializeTableMetadataRequestKey key =
     (mk_kind key, js_trim (mk_connectionId key), js_trim (mk_dbName key), js_trim (mk_tableName key),
      mk_connectionParams key)"

type_synonym serialized_key = "metadataKind \<times> js_string \<times> js_string \<times> js_string \<times> js_string"

record metadataEntry =
  me_promise :: nat
  me_settledAt :: "int option"

definition TABLE_METADATA_RESULT_TTL_MS :: int where "TABLE_METADATA_RESULT_TTL_MS = 5000"
definition MAX_TABLE_METADATA_REQUESTS :: nat where "MAX_TABLE_METADATA_REQUESTS = 128"

record metadataCache =
  mc_requests :: "(serialized_key, metadataEntry) js_map"
  mc_next :: nat

definition expired :: "int \<Rightarrow> metadataEntry \<Rightarrow> bool" where
  "expired now entry \<longleftrightarrow>
     (case me_settledAt entry of None \<Rightarrow> False | Some t \<Rightarrow> now - t > TABLE_METADATA_RESULT_TTL_MS)"

text \<open>The loop that drops the oldest request until there is room; an empty map ends it.\<close>

fun dropUntilRoom :: "nat \<Rightarrow> (serialized_key, metadataEntry) js_map \<Rightarrow> (serialized_key, metadataEntry) js_map" where
  "dropUntilRoom limit m =
     (if length (jm_keys m) < limit then m
      else (case m of [] \<Rightarrow> m | (oldestKey, _) # rest \<Rightarrow> dropUntilRoom limit rest))"

definition pruneTableMetadataRequests ::
  "int \<Rightarrow> (serialized_key, metadataEntry) js_map \<Rightarrow> (serialized_key, metadataEntry) js_map" where
  "pruneTableMetadataRequests now m =
     dropUntilRoom MAX_TABLE_METADATA_REQUESTS (jm_delete_if (\<lambda>_ entry. expired now entry) m)"

text \<open>The promise, whether the loader was called, and the new state.\<close>

definition requestTableMetadata ::
  "metadataKey \<Rightarrow> bool \<Rightarrow> int \<Rightarrow> metadataCache \<Rightarrow> nat \<times> bool \<times> metadataCache" where
  "requestTableMetadata key force now c =
     (let serializedKey = serializeTableMetadataRequestKey key;
          load = (\<lambda>m. (mc_next c, True,
            \<lparr>mc_requests = jm_set (pruneTableMetadataRequests now m) serializedKey
                             \<lparr>me_promise = mc_next c, me_settledAt = None\<rparr>,
             mc_next = mc_next c + 1\<rparr>)) in
      case jm_get (mc_requests c) serializedKey of
        Some cached \<Rightarrow>
          if force then load (mc_requests c)
          else if \<not> expired now cached then (me_promise cached, False, c)
          else load (jm_delete (mc_requests c) serializedKey)
      | None \<Rightarrow> load (mc_requests c))"

definition metadataResolved :: "serialized_key \<Rightarrow> nat \<Rightarrow> int \<Rightarrow> metadataCache \<Rightarrow> metadataCache" where
  "metadataResolved serializedKey promise now c =
     (case jm_get (mc_requests c) serializedKey of
        None \<Rightarrow> c
      | Some entry \<Rightarrow>
          if me_promise entry = promise
          then c\<lparr>mc_requests := jm_set (mc_requests c) serializedKey (entry\<lparr>me_settledAt := Some now\<rparr>)\<rparr> else c)"

definition metadataRejected :: "serialized_key \<Rightarrow> nat \<Rightarrow> metadataCache \<Rightarrow> metadataCache" where
  "metadataRejected serializedKey promise c =
     (case jm_get (mc_requests c) serializedKey of
        None \<Rightarrow> c
      | Some entry \<Rightarrow>
          if me_promise entry = promise then c\<lparr>mc_requests := jm_delete (mc_requests c) serializedKey\<rparr> else c)"

definition resetTableMetadataRequestCacheForTests :: "metadataCache \<Rightarrow> metadataCache" where
  "resetTableMetadataRequestCacheForTests c = c\<lparr>mc_requests := []\<rparr>"

datatype metadataEvent =
  MetadataRequested metadataKey bool int
| MetadataResolved serialized_key nat int
| MetadataRejected serialized_key nat

fun metadataStep :: "metadataCache \<Rightarrow> metadataEvent \<Rightarrow> metadataCache" where
  "metadataStep c (MetadataRequested key force now) = snd (snd (requestTableMetadata key force now c))"
| "metadataStep c (MetadataResolved key promise now) = metadataResolved key promise now c"
| "metadataStep c (MetadataRejected key promise) = metadataRejected key promise c"

definition metadataInit :: metadataCache where
  "metadataInit = \<lparr>mc_requests = [], mc_next = 0\<rparr>"

end
