(* ===== verification/AsyncCachesProps.thy ===== *)
theory AsyncCachesProps
  imports AsyncCaches
begin

text \<open>
  What the caches hold: the most recently used keys, never more than the bound; and which promises
  the metadata cache gives out.
\<close>

section \<open>Least recently used\<close>

definition cache_ok :: "nat \<Rightarrow> boundedCache \<Rightarrow> bool" where
  "cache_ok n c \<longleftrightarrow> distinct (jm_keys (bc_entries c)) \<and> length (jm_keys (bc_entries c)) \<le> n"

lemma dropOldest_keys:
  assumes "distinct (jm_keys m)" "length (jm_keys m) \<le> n + 1"
  shows "jm_keys (dropOldest n m) = drop (length (jm_keys m) - n) (jm_keys m)"
proof (cases "n < length (jm_keys m)")
  case True
  then obtain k ks where m: "jm_keys m = k # ks" by (cases "jm_keys m") auto
  with True assms(2) have "length (jm_keys m) = n + 1" by simp
  with m True jm.del_oldest [OF assms(1) m] show ?thesis by (simp add: dropOldest_def)
qed (simp add: dropOldest_def)

text \<open>A request moves the key to the end; what exceeds the bound falls out at the front.\<close>

lemma request_keys:
  assumes "cache_ok n c" "0 < n"
  shows "rev (jm_keys (bc_entries (snd (getOrLoad n key c))))
    = take n (key # filter (\<lambda>k. k \<noteq> key) (rev (jm_keys (bc_entries c))))"
proof (cases "jm_get (bc_entries c) key")
  case None
  then have fresh: "key \<notin> set (jm_keys (bc_entries c))" by (simp add: jm.get_None)
  then have f: "filter (\<lambda>k. k \<noteq> key) (rev (jm_keys (bc_entries c))) = rev (jm_keys (bc_entries c))"
    by (auto intro!: filter_True)
  let ?m = "jm_set (bc_entries c) key (bc_next c)"
  have m: "jm_keys ?m = jm_keys (bc_entries c) @ [key]" using fresh by (simp add: jm.keys_put)
  then have "jm_keys (dropOldest n ?m) = drop (length (jm_keys ?m) - n) (jm_keys ?m)"
    using assms(1) fresh by (intro dropOldest_keys) (simp_all add: cache_ok_def)
  then have "rev (jm_keys (dropOldest n ?m)) = take n (rev (jm_keys ?m))"
    by (cases "length (jm_keys ?m) \<le> n") (simp_all add: rev_drop)
  then show ?thesis by (simp add: getOrLoad_def None m f)
next
  case (Some p)
  then have "key \<in> set (jm_keys (bc_entries c))" using jm.get_None [of "bc_entries c" key] by auto
  then have "length (filter (\<lambda>k. k \<noteq> key) (jm_keys (bc_entries c))) < length (jm_keys (bc_entries c))"
    by (intro length_filter_less) auto
  then have "length (filter (\<lambda>k. k \<noteq> key) (jm_keys (bc_entries c))) + 1 \<le> n"
    using assms(1) by (simp add: cache_ok_def)
  then show ?thesis by (simp add: getOrLoad_def Some jm.keys_touch rev_filter [symmetric] take_all)
qed

lemma cache_ok_request:
  assumes "cache_ok n c" "0 < n"
  shows "cache_ok n (snd (getOrLoad n key c))"
proof -
  let ?ks = "jm_keys (bc_entries (snd (getOrLoad n key c)))"
  have "distinct (rev ?ks)" "length (rev ?ks) \<le> n"
    unfolding request_keys [OF assms]
    using assms(1) by (simp_all add: cache_ok_def distinct_take del: take_Suc_Cons)
  then show ?thesis by (simp add: cache_ok_def)
qed

lemma cache_ok_step:
  assumes "cache_ok n c" "0 < n"
  shows "cache_ok n (cacheStep n c e)"
proof (cases e)
  case (LoadRejected key promise)
  then show ?thesis using assms jm.distinct_del jm.length_del [of "bc_entries c" key]
    by (auto simp: loadRejected_def cache_ok_def)
next
  case (Invalidated p)
  have "jm_keys (bc_entries (invalidatePrefix p c)) = filter (\<lambda>k. \<not> prefix p k) (jm_keys (bc_entries c))"
    by (simp add: invalidatePrefix_def jm_keys_def jm_delete_if_def filter_map o_def)
  with assms(1) Invalidated show ?thesis
    unfolding cache_ok_def by (auto intro: order_trans [OF length_filter_le])
qed (use cache_ok_request [OF assms] in simp)

lemma take_filter_take:
  assumes "distinct xs"
  shows "take n (filter (\<lambda>x. x \<noteq> k) (take (Suc n) xs)) = take n (filter (\<lambda>x. x \<noteq> k) xs)"
  using assms
proof (induction xs arbitrary: n)
  case (Cons x xs)
  show ?case
  proof (cases "x = k")
    case True
    then have "filter (\<lambda>x. x \<noteq> k) xs = xs" "filter (\<lambda>x. x \<noteq> k) (take n xs) = take n xs"
      using Cons.prems by (auto intro!: filter_True dest: in_set_takeD)
    with True show ?thesis by simp
  next
    case False
    with Cons show ?thesis by (cases n) auto
  qed
qed simp

lemma requests_keys:
  assumes "0 < n"
  shows "cache_ok n (foldl (cacheStep n) \<lparr>bc_entries = [], bc_next = 0\<rparr> (map Requested ks))
    \<and> rev (jm_keys (bc_entries (foldl (cacheStep n) \<lparr>bc_entries = [], bc_next = 0\<rparr> (map Requested ks))))
      = take n (js_uniq (rev ks))"
proof (induction ks rule: rev_induct)
  case (snoc k ks)
  let ?c = "foldl (cacheStep n) \<lparr>bc_entries = [], bc_next = 0\<rparr> (map Requested ks)"
  obtain n' where n: "n = Suc n'" using assms by (cases n) auto
  have "rev (jm_keys (bc_entries (snd (getOrLoad n k ?c))))
      = take n (k # filter (\<lambda>k'. k' \<noteq> k) (take n (js_uniq (rev ks))))"
    using request_keys [of n ?c k] snoc assms by simp
  also have "\<dots> = take n (js_uniq (rev (ks @ [k])))"
    using take_filter_take [of "js_uniq (rev ks)" n' k] by (simp add: n)
  finally show ?case using cache_ok_request [of n ?c k] snoc assms by simp
qed (simp add: cache_ok_def jm_keys_def)

text \<open>
  The bounded cache is a least recently used cache: after any sequence of requests its keys are
  the last \<open>n\<close> different ones, the least recent first; and whatever the requests, failed loads and
  invalidations, it never holds more than \<open>n\<close> keys.
\<close>

lemma cache_keeps_most_recent:
  assumes "createBoundedAsyncCache maxEntries = Some c"
  shows "jm_keys (bc_entries (foldl (cacheStep (nat maxEntries)) c (map Requested ks)))
      = rev (take (nat maxEntries) (js_uniq (rev ks)))
    \<and> length (jm_keys (bc_entries (foldl (cacheStep (nat maxEntries)) c events))) \<le> nat maxEntries"
proof -
  have n: "0 < nat maxEntries" "c = \<lparr>bc_entries = [], bc_next = 0\<rparr>"
    using assms by (simp_all add: createBoundedAsyncCache_def split: if_splits)
  have "cache_ok (nat maxEntries) (foldl (cacheStep (nat maxEntries)) c events)"
    using n by (induction events rule: rev_induct) (simp_all add: cache_ok_step, simp add: cache_ok_def jm_keys_def)
  with requests_keys [OF n(1), of ks] show ?thesis
    unfolding n(2) by (simp add: cache_ok_def rev_swap)
qed

lemma cache_keeps_most_recent_witness:
  "jm_keys (bc_entries (foldl (cacheStep 2) \<lparr>bc_entries = [], bc_next = 0\<rparr> (map Requested [[1], [2], [1], [3]])))
   = [[1], [3]]"
proof -
  have "createBoundedAsyncCache 2 = Some \<lparr>bc_entries = [], bc_next = 0\<rparr>" by (simp add: createBoundedAsyncCache_def)
  from conjunct1 [OF cache_keeps_most_recent [OF this, of "[[1], [2], [1], [3]]"]] show ?thesis by simp
qed

section \<open>Table metadata\<close>

lemma dropUntilRoom_suffix: "\<exists>n. dropUntilRoom limit m = drop n m"
proof (induction limit m rule: dropUntilRoom.induct)
  case (1 limit m)
  show ?case
  proof (cases "length (jm_keys m) < limit \<or> m = []")
    case True
    then have "dropUntilRoom limit m = drop 0 m" by auto
    then show ?thesis by blast
  next
    case False
    then obtain k e rest where m: "m = (k, e) # rest" by (cases m) auto
    with 1 [OF _ m refl] False obtain n where "dropUntilRoom limit rest = drop n rest" by auto
    with m False have "dropUntilRoom limit m = drop (Suc n) m" by simp
    then show ?thesis by blast
  qed
qed

lemma dropUntilRoom_length: "0 < limit \<Longrightarrow> length (dropUntilRoom limit m) < limit"
  by (induction limit m rule: dropUntilRoom.induct)
    (subst dropUntilRoom.simps, auto simp: jm_keys_def split: list.split)

definition entries_ok :: "nat \<Rightarrow> (serialized_key, metadataEntry) js_map \<Rightarrow> bool" where
  "entries_ok b m \<longleftrightarrow> distinct (jm_keys m) \<and> (\<forall>e\<in>set m. me_promise (snd e) < b)"

lemma entries_ok_subset:
  "entries_ok b m \<Longrightarrow> entries_ok b (filter P m) \<and> entries_ok b (drop n m)"
  by (auto simp: entries_ok_def jm_keys_def distinct_map_filter drop_map [symmetric] dest: in_set_dropD)

lemma entries_ok_set:
  "entries_ok b m \<Longrightarrow> me_promise e < b \<Longrightarrow> entries_ok b (jm_set m k e)"
proof -
  have "set (jm_set m k e) \<subseteq> insert (k, e) (set m)" by (induction m) auto
  then show "entries_ok b m \<Longrightarrow> me_promise e < b \<Longrightarrow> entries_ok b (jm_set m k e)"
    using jm.distinct_put [of m k e] by (auto simp: entries_ok_def)
qed

lemma entries_ok_get: "entries_ok b m \<Longrightarrow> jm_get m k = Some e \<Longrightarrow> me_promise e < b"
  unfolding entries_ok_def jm_get_def by (metis map_of_SomeD snd_conv)

lemma entries_ok_mono: "entries_ok b m \<Longrightarrow> b \<le> b' \<Longrightarrow> entries_ok b' m"
  by (auto simp: entries_ok_def)

lemma pruned_ok:
  assumes "entries_ok b m"
  shows "entries_ok b (pruneTableMetadataRequests now m)
    \<and> length (pruneTableMetadataRequests now m) < MAX_TABLE_METADATA_REQUESTS"
proof -
  obtain n where n: "pruneTableMetadataRequests now m = drop n (jm_delete_if (\<lambda>_ entry. expired now entry) m)"
    using dropUntilRoom_suffix unfolding pruneTableMetadataRequests_def by blast
  have "length (pruneTableMetadataRequests now m) < MAX_TABLE_METADATA_REQUESTS"
    unfolding pruneTableMetadataRequests_def by (rule dropUntilRoom_length) (simp add: MAX_TABLE_METADATA_REQUESTS_def)
  moreover have "entries_ok b (pruneTableMetadataRequests now m)"
    unfolding n jm_delete_if_def using entries_ok_subset assms by blast
  ultimately show ?thesis by blast
qed

definition metadata_inv :: "metadataCache \<Rightarrow> bool" where
  "metadata_inv c \<longleftrightarrow> entries_ok (mc_next c) (mc_requests c)
     \<and> length (jm_keys (mc_requests c)) \<le> MAX_TABLE_METADATA_REQUESTS"

lemma loaded_ok:
  assumes "entries_ok b m"
  shows "metadata_inv \<lparr>mc_requests = jm_set (pruneTableMetadataRequests now m) k \<lparr>me_promise = b, me_settledAt = None\<rparr>,
    mc_next = b + 1\<rparr>"
proof -
  note p = pruned_ok [OF assms, of now]
  have "entries_ok (b + 1) (jm_set (pruneTableMetadataRequests now m) k \<lparr>me_promise = b, me_settledAt = None\<rparr>)"
    by (rule entries_ok_set) (use p in \<open>auto intro: entries_ok_mono\<close>)
  moreover have "length (jm_keys (jm_set (pruneTableMetadataRequests now m) k \<lparr>me_promise = b, me_settledAt = None\<rparr>))
      \<le> MAX_TABLE_METADATA_REQUESTS"
    using jm.length_put [of "pruneTableMetadataRequests now m" k "\<lparr>me_promise = b, me_settledAt = None\<rparr>"] p
    by (simp add: jm_keys_def)
  ultimately show ?thesis by (simp add: metadata_inv_def)
qed

text \<open>The three outcomes of a request: the cached promise, or a new load from the entries or without the expired one.\<close>

lemma request_cases:
  obtains (cached) e where "jm_get (mc_requests c) (serializeTableMetadataRequestKey key) = Some e" "\<not> force"
      "\<not> expired now e" "requestTableMetadata key force now c = (me_promise e, False, c)"
  | (loaded) m where "m = mc_requests c \<or> m = jm_delete (mc_requests c) (serializeTableMetadataRequestKey key)"
      "force \<or> (\<forall>e. jm_get (mc_requests c) (serializeTableMetadataRequestKey key) = Some e \<longrightarrow> expired now e)"
      "requestTableMetadata key force now c = (mc_next c, True,
         \<lparr>mc_requests = jm_set (pruneTableMetadataRequests now m) (serializeTableMetadataRequestKey key)
            \<lparr>me_promise = mc_next c, me_settledAt = None\<rparr>, mc_next = mc_next c + 1\<rparr>)"
proof (cases "jm_get (mc_requests c) (serializeTableMetadataRequestKey key)")
  case None
  then show thesis using loaded [of "mc_requests c"] by (simp add: requestTableMetadata_def Let_def)
next
  case (Some e)
  then show thesis
    using loaded [of "mc_requests c"] loaded [of "jm_delete (mc_requests c) (serializeTableMetadataRequestKey key)"]
      cached [of e]
    by (cases force; cases "expired now e") (simp_all add: requestTableMetadata_def Let_def)
qed

lemma metadata_inv_request:
  assumes "metadata_inv c"
  shows "metadata_inv (snd (snd (requestTableMetadata key force now c)))"
proof (rule request_cases [of c key force now])
  fix m assume "m = mc_requests c \<or> m = jm_delete (mc_requests c) (serializeTableMetadataRequestKey key)"
    and r: "requestTableMetadata key force now c = (mc_next c, True,
         \<lparr>mc_requests = jm_set (pruneTableMetadataRequests now m) (serializeTableMetadataRequestKey key)
            \<lparr>me_promise = mc_next c, me_settledAt = None\<rparr>, mc_next = mc_next c + 1\<rparr>)"
  then have "entries_ok (mc_next c) m"
    using assms entries_ok_subset unfolding metadata_inv_def jm_delete_def by blast
  from loaded_ok [OF this] show ?thesis unfolding r by simp
qed (use assms in simp)

lemma metadata_inv_step: "metadata_inv c \<Longrightarrow> metadata_inv (metadataStep c e)"
proof (cases e)
  case (MetadataRequested key force now)
  then show "metadata_inv c \<Longrightarrow> ?thesis" using metadata_inv_request by simp
next
  case (MetadataResolved k p now)
  assume c: "metadata_inv c"
  show ?thesis
  proof (cases "jm_get (mc_requests c) k")
    case (Some entry)
    have "entries_ok (mc_next c) (jm_set (mc_requests c) k (entry\<lparr>me_settledAt := Some now\<rparr>))"
      using c entries_ok_get [OF _ Some] by (intro entries_ok_set) (auto simp: metadata_inv_def)
    moreover have "k \<in> set (jm_keys (mc_requests c))" using Some jm.get_None [of "mc_requests c" k] by auto
    ultimately show ?thesis using c MetadataResolved Some
      by (simp add: metadataResolved_def metadata_inv_def jm.keys_put)
  qed (use c MetadataResolved in \<open>simp add: metadataResolved_def\<close>)
next
  case (MetadataRejected k p)
  assume c: "metadata_inv c"
  have "entries_ok (mc_next c) (jm_delete (mc_requests c) k)"
    using c entries_ok_subset unfolding metadata_inv_def jm_delete_def by blast
  then show ?thesis using c MetadataRejected jm.length_del [of "mc_requests c" k]
    by (auto simp: metadataRejected_def metadata_inv_def split: option.split)
qed

text \<open>
  Metadata is fresh and bounded: after any events, a request is answered with a promise that is in
  the cache afterwards, under its key; the promise is of a new load, unless the request is not forced and
  the promise is still pending or settled at most five seconds ago, in which case nothing is loaded and
  nothing changes; and the cache holds at most 128 requests.
\<close>

lemma metadata_is_fresh:
  assumes "c = foldl metadataStep metadataInit events"
    and "requestTableMetadata key force now c = (promise, loaded, c')"
  shows "(\<exists>entry. jm_get (mc_requests c') (serializeTableMetadataRequestKey key) = Some entry
        \<and> me_promise entry = promise
        \<and> (if loaded then promise = mc_next c
           else \<not> force \<and> c' = c \<and> me_settledAt entry \<notin> {Some t |t. t < now - TABLE_METADATA_RESULT_TTL_MS}))
    \<and> length (jm_keys (mc_requests c')) \<le> MAX_TABLE_METADATA_REQUESTS"
proof -
  have c: "metadata_inv c" unfolding assms(1)
    by (induction events rule: rev_induct)
      (simp_all add: metadata_inv_step, simp add: metadata_inv_def entries_ok_def metadataInit_def jm_keys_def)
  have "metadata_inv c'" using metadata_inv_request [OF c, of key force now] assms(2) by simp
  then have "length (jm_keys (mc_requests c')) \<le> MAX_TABLE_METADATA_REQUESTS" by (simp add: metadata_inv_def)
  then show ?thesis
    by (cases rule: request_cases [of c key force now])
      (use assms(2) in \<open>auto simp: jm.get_put expired_def\<close>)
qed

lemma metadata_is_fresh_witness:
  "fst (requestTableMetadata \<lparr>mk_connectionId = [1], mk_dbName = [2], mk_tableName = [3], mk_kind = KindColumns,
     mk_connectionParams = []\<rparr> True 0 metadataInit) = 0"
proof -
  let ?k = "\<lparr>mk_connectionId = [1], mk_dbName = [2], mk_tableName = [3], mk_kind = KindColumns, mk_connectionParams = []\<rparr>"
  obtain p l c' where r: "requestTableMetadata ?k True 0 metadataInit = (p, l, c')" by (metis prod_cases3)
  have "metadataInit = foldl metadataStep metadataInit []" by simp
  from metadata_is_fresh [OF this r] have "l \<and> p = mc_next metadataInit" by (auto split: if_splits)
  with r show ?thesis by (simp add: metadataInit_def)
qed

end
