(* ===== verification/RedisTree.thy ===== *)
theory RedisTree
  imports JsText JsMap
begin

text \<open>
  \<open>src/frontend/src/components/redisViewerTree.ts\<close>: the key tree of the Redis viewer, built by
  splitting the keys at colons, and the selection of its nodes.

  \<open>localeCompare\<close> depends on the locale of the browser: it is the parameter \<open>collate\<close>, about which
  nothing is assumed. The groups that the code fills in place through references are rebuilt by
  \<open>insertKey\<close> along the path of the key; the group keys, pushed while the nodes are made, are read
  off the nodes in the order of the pushes.
\<close>

definition KEY_GROUP_DELIMITER :: nat where "KEY_GROUP_DELIMITER = 58"
definition EMPTY_SEGMENT_LABEL :: js_string where "EMPTY_SEGMENT_LABEL = js ''(empty)''"
definition UNKNOWN_REDIS_KEY_TYPE :: js_string where "UNKNOWN_REDIS_KEY_TYPE = js ''unknown''"
definition REDIS_KEY_TYPE_ORDER :: "js_string list" where
  "REDIS_KEY_TYPE_ORDER = [js ''string'', js ''hash'', js ''list'', js ''set'', js ''zset'', js ''stream'']"

record redisKeyInfo =
  rk_key :: js_string
  rk_type :: js_string
  rk_ttl :: int

record redisLeaf =
  lf_keyInfo :: redisKeyInfo
  lf_label :: js_string

datatype redisGroup =
  RedisGroup (gr_name: js_string) (gr_path: js_string)
    (gr_children: "(js_string \<times> redisGroup) list") (gr_leaves: "redisLeaf list")

datatype groupKind = NamespaceGroup | TypeGroup

text \<open>
  A tree node; the title of a leaf is its label and that of a group its name, and a type group has no
  path (the empty string).
\<close>

datatype redisNode =
  LeafNode (nd_key: js_string) (nd_label: js_string) (nd_rawKey: js_string) (nd_keyType: js_string) (nd_ttl: int)
| GroupNode (nd_key: js_string) (nd_kind: groupKind) (nd_name: js_string) (nd_path: js_string)
    (nd_leafCount: nat) (nd_descendants: "js_string list") (nd_children: "redisNode list")

section \<open>Building the tree\<close>

definition normalizeKeySegment :: "js_string \<Rightarrow> js_string" where
  "normalizeKeySegment segment = (if segment = [] then EMPTY_SEGMENT_LABEL else segment)"

definition createTreeGroup :: "js_string \<Rightarrow> js_string \<Rightarrow> redisGroup" where
  "createTreeGroup name path = RedisGroup name path [] []"

fun calculateGroupLeafCount :: "redisGroup \<Rightarrow> nat" where
  "calculateGroupLeafCount (RedisGroup name path children leaves) =
     length leaves + sum_list (map (\<lambda>e. calculateGroupLeafCount (snd e)) children)"

definition buildLeafNodeKey :: "js_string \<Rightarrow> js_string" where
  "buildLeafNodeKey rawKey = js ''key:'' @ rawKey"

definition buildRedisKeyLeafNode :: "redisKeyInfo \<Rightarrow> js_string \<Rightarrow> redisNode" where
  "buildRedisKeyLeafNode keyInfo label =
     LeafNode (buildLeafNodeKey (rk_key keyInfo)) label (rk_key keyInfo) (rk_type keyInfo) (rk_ttl keyInfo)"

definition sortRedisKeyInfos ::
  "(js_string \<Rightarrow> js_string \<Rightarrow> int) \<Rightarrow> redisKeyInfo list \<Rightarrow> bool \<Rightarrow> redisKeyInfo list" where
  "sortRedisKeyInfos collate keys sortLeafNodes =
     (if sortLeafNodes then js_sort (\<lambda>a b. collate (rk_key a) (rk_key b)) keys else keys)"

definition parseRawKeyFromNodeKey :: "js_string \<Rightarrow> js_string option" where
  "parseRawKeyFromNodeKey nodeKey = (if prefix (js ''key:'') nodeKey then Some (drop 4 nodeKey) else None)"

text \<open>Walking down the group segments of a key, with the path parts so far, to push the leaf.\<close>

fun insertLeaf :: "js_string list \<Rightarrow> js_string list \<Rightarrow> redisLeaf \<Rightarrow> redisGroup \<Rightarrow> redisGroup" where
  "insertLeaf [] pathParts leaf (RedisGroup name path children leaves) =
     RedisGroup name path children (leaves @ [leaf])"
| "insertLeaf (segment # segments) pathParts leaf (RedisGroup name path children leaves) =
     (let normalized = normalizeKeySegment segment;
          parts = pathParts @ [normalized];
          child = (case jm_get children normalized of
                     Some child \<Rightarrow> child
                   | None \<Rightarrow> createTreeGroup normalized (js_join [KEY_GROUP_DELIMITER] parts)) in
      RedisGroup name path (jm_set children normalized (insertLeaf segments parts leaf child)) leaves)"

definition insertKey :: "redisGroup \<Rightarrow> redisKeyInfo \<Rightarrow> redisGroup" where
  "insertKey root keyInfo =
     (let segments = js_split KEY_GROUP_DELIMITER (rk_key keyInfo) in
      if length segments \<le> 1 then insertLeaf [] [] \<lparr>lf_keyInfo = keyInfo, lf_label = rk_key keyInfo\<rparr> root
      else insertLeaf (butlast segments) []
             \<lparr>lf_keyInfo = keyInfo, lf_label = normalizeKeySegment (last segments)\<rparr> root)"

fun rawKeysOf :: "redisNode \<Rightarrow> js_string list" where
  "rawKeysOf (LeafNode key label rawKey keyType ttl) = (if rawKey = [] then [] else [rawKey])"
| "rawKeysOf (GroupNode key kind name path count descendants children) = descendants"

definition namespaceNode :: "redisGroup \<Rightarrow> redisNode list \<Rightarrow> redisNode" where
  "namespaceNode child children =
     GroupNode (js ''group:'' @ gr_path child) NamespaceGroup (gr_name child) (gr_path child)
       (calculateGroupLeafCount child) (concat (map rawKeysOf children)) children"

text \<open>The children are turned into nodes before they are sorted by name; the sort is stable.\<close>

fun toTreeNodes :: "(js_string \<Rightarrow> js_string \<Rightarrow> int) \<Rightarrow> bool \<Rightarrow> redisGroup \<Rightarrow> redisNode list" where
  "toTreeNodes collate sortLeafNodes (RedisGroup name path children leaves) =
     (let childGroups = js_sort (\<lambda>a b. collate (gr_name (fst a)) (gr_name (fst b)))
            (map (\<lambda>e. (snd e, toTreeNodes collate sortLeafNodes (snd e))) children);
          childLeaves = (if sortLeafNodes
            then js_sort (\<lambda>a b. collate (rk_key (lf_keyInfo a)) (rk_key (lf_keyInfo b))) leaves else leaves) in
      map (\<lambda>(child, nodes). namespaceNode child nodes) childGroups
      @ map (\<lambda>leaf. buildRedisKeyLeafNode (lf_keyInfo leaf) (lf_label leaf)) childLeaves)"

fun groupKeysOf :: "redisNode \<Rightarrow> js_string list" where
  "groupKeysOf (LeafNode key label rawKey keyType ttl) = []"
| "groupKeysOf (GroupNode key kind name path count descendants children) =
     concat (map groupKeysOf children) @ [key]"

record redisKeyTree =
  rt_treeData :: "redisNode list"
  rt_groupKeys :: "js_string list"

definition buildRedisKeyTree ::
  "(js_string \<Rightarrow> js_string \<Rightarrow> int) \<Rightarrow> redisKeyInfo list \<Rightarrow> bool \<Rightarrow> redisKeyTree" where
  "buildRedisKeyTree collate keys sortLeafNodes =
     (let root = foldl insertKey (createTreeGroup (js ''__root__'') (js ''__root__'')) keys;
          treeData = toTreeNodes collate sortLeafNodes root in
      \<lparr>rt_treeData = treeData, rt_groupKeys = concat (map groupKeysOf treeData)\<rparr>)"

definition buildRedisKeyListView ::
  "(js_string \<Rightarrow> js_string \<Rightarrow> int) \<Rightarrow> redisKeyInfo list \<Rightarrow> bool \<Rightarrow> redisKeyTree" where
  "buildRedisKeyListView collate keys sortLeafNodes =
     \<lparr>rt_treeData = map (\<lambda>k. buildRedisKeyLeafNode k (rk_key k)) (sortRedisKeyInfos collate keys sortLeafNodes),
      rt_groupKeys = []\<rparr>"

section \<open>The view by type\<close>

definition normalizeRedisKeyType :: "js_string \<Rightarrow> js_string" where
  "normalizeRedisKeyType type = js_or (js_lower (js_trim type)) UNKNOWN_REDIS_KEY_TYPE"

definition typeOrderIndex :: "js_string \<Rightarrow> nat option" where
  "typeOrderIndex type =
     (if type \<in> set REDIS_KEY_TYPE_ORDER then Some (length (takeWhile (\<lambda>t. t \<noteq> type) REDIS_KEY_TYPE_ORDER)) else None)"

definition compareRedisKeyTypes ::
  "(js_string \<Rightarrow> js_string \<Rightarrow> int) \<Rightarrow> js_string \<Rightarrow> js_string \<Rightarrow> int" where
  "compareRedisKeyTypes collate left right =
     (if left = right then 0
      else if left = UNKNOWN_REDIS_KEY_TYPE then 1
      else if right = UNKNOWN_REDIS_KEY_TYPE then - 1
      else (case (typeOrderIndex left, typeOrderIndex right) of
              (Some l, Some r) \<Rightarrow> int l - int r
            | (Some l, None) \<Rightarrow> - 1
            | (None, Some r) \<Rightarrow> 1
            | (None, None) \<Rightarrow> collate left right))"

definition addToType :: "(js_string, redisKeyInfo list) js_map \<Rightarrow> redisKeyInfo \<Rightarrow> (js_string, redisKeyInfo list) js_map" where
  "addToType keysByType keyInfo =
     (let keyType = normalizeRedisKeyType (rk_type keyInfo) in
      case jm_get keysByType keyType of
        Some groupedKeys \<Rightarrow> jm_set keysByType keyType (groupedKeys @ [keyInfo])
      | None \<Rightarrow> jm_set keysByType keyType [keyInfo])"

definition typeNode ::
  "(js_string \<Rightarrow> js_string \<Rightarrow> int) \<Rightarrow> bool \<Rightarrow> (js_string, redisKeyInfo list) js_map \<Rightarrow> js_string \<Rightarrow> redisNode" where
  "typeNode collate sortLeafNodes keysByType keyType =
     (let groupedKeys = sortRedisKeyInfos collate
            (case jm_get keysByType keyType of None \<Rightarrow> [] | Some ks \<Rightarrow> ks) sortLeafNodes;
          children = map (\<lambda>k. buildRedisKeyLeafNode k (rk_key k)) groupedKeys in
      GroupNode (js ''type-group:'' @ keyType) TypeGroup keyType [] (length children) (map rk_key groupedKeys) children)"

definition buildRedisKeyTypeView ::
  "(js_string \<Rightarrow> js_string \<Rightarrow> int) \<Rightarrow> redisKeyInfo list \<Rightarrow> bool \<Rightarrow> redisKeyTree" where
  "buildRedisKeyTypeView collate keys sortLeafNodes =
     (let keysByType = foldl addToType [] keys;
          orderedTypes = js_sort (compareRedisKeyTypes collate) (jm_keys keysByType) in
      \<lparr>rt_treeData = map (typeNode collate sortLeafNodes keysByType) orderedTypes,
       rt_groupKeys = map (\<lambda>keyType. js ''type-group:'' @ keyType) orderedTypes\<rparr>)"

section \<open>Selection\<close>

fun applyTreeNodeCheck :: "js_string list \<Rightarrow> redisNode \<Rightarrow> bool \<Rightarrow> js_string list" where
  "applyTreeNodeCheck selectedKeys (LeafNode key label rawKey keyType ttl) checked =
     (if rawKey = [] then selectedKeys
      else if checked then js_uniq (selectedKeys @ [rawKey])
      else filter (\<lambda>item. item \<noteq> rawKey) selectedKeys)"
| "applyTreeNodeCheck selectedKeys (GroupNode key kind name path count descendants children) checked =
     (if descendants = [] then selectedKeys
      else if checked then js_uniq (selectedKeys @ descendants)
      else filter (\<lambda>item. item \<notin> set descendants) selectedKeys)"

text \<open>The keys pushed to \<open>checked\<close> and to \<open>halfChecked\<close> for a node and everything below it.\<close>

fun walkGroupState :: "js_string list \<Rightarrow> redisNode \<Rightarrow> js_string list \<times> js_string list" where
  "walkGroupState selected (LeafNode key label rawKey keyType ttl) =
     (if rawKey \<noteq> [] \<and> rawKey \<in> set selected then ([key], []) else ([], []))"
| "walkGroupState selected (GroupNode key kind name path count descendants children) =
     (let below = map (walkGroupState selected) children;
          checked = concat (map fst below); halfChecked = concat (map snd below);
          selectedCount = length (filter (\<lambda>rawKey. rawKey \<in> set selected) descendants) in
      if descendants = [] then (checked, halfChecked)
      else if selectedCount = length descendants then (checked @ [key], halfChecked)
      else if 0 < selectedCount then (checked, halfChecked @ [key])
      else (checked, halfChecked))"

record checkedState =
  ck_checked :: "js_string list"
  ck_halfChecked :: "js_string list"

definition buildCheckedTreeNodeState :: "js_string list \<Rightarrow> redisKeyTree \<Rightarrow> checkedState" where
  "buildCheckedTreeNodeState selectedKeys keyTree =
     (let states = map (walkGroupState selectedKeys) (rt_treeData keyTree) in
      \<lparr>ck_checked = concat (map fst states), ck_halfChecked = concat (map snd states)\<rparr>)"

fun isGroupFullyChecked :: "redisNode \<Rightarrow> js_string list \<Rightarrow> bool" where
  "isGroupFullyChecked (LeafNode key label rawKey keyType ttl) selectedKeys = False"
| "isGroupFullyChecked (GroupNode key kind name path count descendants children) selectedKeys =
     (if descendants = [] then False else \<forall>rawKey\<in>set descendants. rawKey \<in> set selectedKeys)"

record renamedState =
  rs_keys :: "redisKeyInfo list"
  rs_selectedKey :: "js_string option"
  rs_selectedKeys :: "js_string list"

definition applyRenamedRedisKeyState :: "renamedState \<Rightarrow> js_string \<Rightarrow> js_string \<Rightarrow> renamedState" where
  "applyRenamedRedisKeyState state oldKey newKey =
     \<lparr>rs_keys = map (\<lambda>item. if rk_key item = oldKey then item\<lparr>rk_key := newKey\<rparr> else item) (rs_keys state),
      rs_selectedKey = (if rs_selectedKey state = Some oldKey then Some newKey else rs_selectedKey state),
      rs_selectedKeys = map (\<lambda>item. if item = oldKey then newKey else item) (rs_selectedKeys state)\<rparr>"

end
