(* ===== verification/JsSort.thy ===== *)
theory JsSort
  imports JsPrelude "HOL-Library.Multiset"
begin

text \<open>Sorting rearranges: lemmas on \<open>js_sort\<close> with multisets, shared by the components that sort.\<close>

lemma mset_js_insert_by: "mset (js_insert_by cmp x xs) = add_mset x (mset xs)"
  by (induction xs) auto

lemma mset_js_sort [simp]: "mset (js_sort cmp xs) = mset xs"
proof -
  have "mset (foldr (js_insert_by cmp) xs []) = mset xs" by (induction xs) (simp_all add: mset_js_insert_by)
  then show ?thesis by (simp add: js_sort_def)
qed

lemma mset_partition:
  "mset (filter P xs) = mset (filter P ys) \<Longrightarrow> mset (filter (\<lambda>x. \<not> P x) xs) = mset (filter (\<lambda>x. \<not> P x) ys) \<Longrightarrow>
   mset xs = mset ys"
  by (metis mset_filter multiset_partition)

end
