(* ===== verification/RedisTreeProps.thy ===== *)
theory RedisTreeProps
  imports RedisTree JsSort
begin

text \<open>
  The Redis tree shows every key exactly once, and every group node counts and lists exactly the keys
  below it, whatever the collation.
\<close>

section \<open>The keys of a group\<close>

fun groupKeyInfos :: "redisGroup \<Rightarrow> js_string multiset" where
  "groupKeyInfos (RedisGroup name path children leaves) =
     mset (map (\<lambda>l. rk_key (lf_keyInfo l)) leaves) + (\<Sum>e\<leftarrow>children. groupKeyInfos (snd e))"

lemma count_group: "calculateGroupLeafCount g = size (groupKeyInfos g)"
proof (induction g)
  case (RedisGroup name path children leaves)
  have "sum_list (map (\<lambda>e. calculateGroupLeafCount (snd e)) children)
      = size (\<Sum>e\<leftarrow>children. groupKeyInfos (snd e))"
    using RedisGroup by (induction children) (auto simp: snds.simps)
  then show ?case by simp
qed

lemma children_jm_set:
  "(\<Sum>e\<leftarrow>jm_set children k g. groupKeyInfos (snd e))
     + (case jm_get children k of None \<Rightarrow> {#} | Some c \<Rightarrow> groupKeyInfos c)
   = (\<Sum>e\<leftarrow>children. groupKeyInfos (snd e)) + groupKeyInfos g"
  by (induction children) (auto simp: jm_get_def add_ac)

lemma insertLeaf_keys:
  "groupKeyInfos (insertLeaf segments parts leaf g) = add_mset (rk_key (lf_keyInfo leaf)) (groupKeyInfos g)"
proof (induction segments parts leaf g rule: insertLeaf.induct)
  case (2 segment segments parts leaf name path children leaves)
  let ?n = "normalizeKeySegment segment"
  let ?p = "parts @ [?n]"
  let ?child = "case jm_get children ?n of Some c \<Rightarrow> c
    | None \<Rightarrow> createTreeGroup ?n (js_join [KEY_GROUP_DELIMITER] ?p)"
  have child: "groupKeyInfos ?child = (case jm_get children ?n of None \<Rightarrow> {#} | Some c \<Rightarrow> groupKeyInfos c)"
    by (simp add: createTreeGroup_def split: option.split)
  have "groupKeyInfos (insertLeaf segments ?p leaf ?child)
      = add_mset (rk_key (lf_keyInfo leaf)) (groupKeyInfos ?child)" by (rule 2) simp_all
  with children_jm_set [of children ?n "insertLeaf segments ?p leaf ?child"] child
  have "(\<Sum>e\<leftarrow>jm_set children ?n (insertLeaf segments ?p leaf ?child). groupKeyInfos (snd e))
      = add_mset (rk_key (lf_keyInfo leaf)) (\<Sum>e\<leftarrow>children. groupKeyInfos (snd e))"
    by (simp add: add_ac)
  then show ?case by (simp add: Let_def)
qed simp

lemma insertKey_keys: "groupKeyInfos (insertKey g k) = add_mset (rk_key k) (groupKeyInfos g)"
  by (simp add: insertKey_def Let_def insertLeaf_keys)

lemma tree_keys:
  "groupKeyInfos (foldl insertKey g keys) = groupKeyInfos g + mset (map rk_key keys)"
  by (induction keys arbitrary: g) (simp_all add: insertKey_keys)

section \<open>The nodes\<close>

fun allRawKeys :: "redisNode \<Rightarrow> js_string list" where
  "allRawKeys (LeafNode key label rawKey keyType ttl) = [rawKey]"
| "allRawKeys (GroupNode key kind name path leafCount descendants children) = concat (map allRawKeys children)"

text \<open>A group node counts the leaves below it and lists their keys, the empty key left out.\<close>

fun node_ok :: "redisNode \<Rightarrow> bool" where
  "node_ok (LeafNode key label rawKey keyType ttl) \<longleftrightarrow> True"
| "node_ok (GroupNode key kind name path leafCount descendants children) \<longleftrightarrow>
     leafCount = length (concat (map allRawKeys children))
     \<and> descendants = filter (\<lambda>k. k \<noteq> []) (concat (map allRawKeys children))
     \<and> list_all node_ok children"

lemma rawKeysOf_ok: "node_ok n \<Longrightarrow> rawKeysOf n = filter (\<lambda>k. k \<noteq> []) (allRawKeys n)"
  by (cases n) auto

lemma concat_rawKeys:
  "list_all node_ok ns \<Longrightarrow> concat (map rawKeysOf ns) = filter (\<lambda>k. k \<noteq> []) (concat (map allRawKeys ns))"
  by (induction ns) (auto simp: rawKeysOf_ok)

lemma toTreeNodes_ok:
  "mset (concat (map allRawKeys (toTreeNodes collate s g))) = groupKeyInfos g
   \<and> list_all node_ok (toTreeNodes collate s g)"
proof (induction g)
  case (RedisGroup name path children leaves)
  define pairs where "pairs = map (\<lambda>e. (snd e, toTreeNodes collate s (snd e))) children"
  define sorted where "sorted = js_sort (\<lambda>a b. collate (gr_name (fst a)) (gr_name (fst b))) pairs"
  define shown where "shown = (if s
    then js_sort (\<lambda>a b. collate (rk_key (lf_keyInfo a)) (rk_key (lf_keyInfo b))) leaves else leaves)"
  have nodes: "toTreeNodes collate s (RedisGroup name path children leaves)
    = map (\<lambda>(child, nodes). namespaceNode child nodes) sorted
      @ map (\<lambda>leaf. buildRedisKeyLeafNode (lf_keyInfo leaf) (lf_label leaf)) shown"
    by (simp add: sorted_def pairs_def shown_def Let_def)
  have IH: "mset (concat (map allRawKeys (snd p))) = groupKeyInfos (fst p)" "list_all node_ok (snd p)"
    if "p \<in> set pairs" for p using that RedisGroup by (auto simp: pairs_def snds.simps)
  have m: "mset sorted = mset pairs" "mset shown = mset leaves" by (simp_all add: sorted_def shown_def)
  have in_pairs: "p \<in> set sorted \<longleftrightarrow> p \<in> set pairs" for p by (metis m(1) set_mset_mset)
  have nodes_of: "mset (concat (map allRawKeys (map (\<lambda>(child, nodes). namespaceNode child nodes) ps)))
      = (\<Sum>p\<leftarrow>ps. mset (concat (map allRawKeys (snd p))))" for ps
    by (induction ps) (auto simp: namespaceNode_def)
  have order: "(\<Sum>p\<leftarrow>sorted. mset (concat (map allRawKeys (snd p)))) = (\<Sum>p\<leftarrow>pairs. mset (concat (map allRawKeys (snd p))))"
    unfolding sum_mset_sum_list [symmetric] mset_map m(1) ..
  have sum: "(\<Sum>p\<leftarrow>pairs. mset (concat (map allRawKeys (snd p)))) = (\<Sum>e\<leftarrow>children. groupKeyInfos (snd e))"
  proof -
    have "map (\<lambda>p. mset (concat (map allRawKeys (snd p)))) pairs = map (\<lambda>p. groupKeyInfos (fst p)) pairs"
      using IH(1) by (intro map_cong) simp_all
    then have "(\<Sum>p\<leftarrow>pairs. mset (concat (map allRawKeys (snd p)))) = (\<Sum>p\<leftarrow>pairs. groupKeyInfos (fst p))"
      by (simp only:)
    then show ?thesis by (simp add: pairs_def o_def)
  qed
  have leaf_of: "mset (concat (map allRawKeys (map (\<lambda>leaf. buildRedisKeyLeafNode (lf_keyInfo leaf) (lf_label leaf)) ls)))
      = mset (map (\<lambda>l. rk_key (lf_keyInfo l)) ls)" for ls
    by (induction ls) (auto simp: buildRedisKeyLeafNode_def)
  have shown: "mset (map (\<lambda>l. rk_key (lf_keyInfo l)) shown) = mset (map (\<lambda>l. rk_key (lf_keyInfo l)) leaves)"
    using m(2) by simp
  have "mset (concat (map allRawKeys (toTreeNodes collate s (RedisGroup name path children leaves))))
      = groupKeyInfos (RedisGroup name path children leaves)"
    unfolding nodes map_append concat_append mset_append nodes_of leaf_of order sum shown groupKeyInfos.simps
    by (rule add.commute)
  moreover have "node_ok (namespaceNode (fst p) (snd p))" if "p \<in> set sorted" for p
    using IH [of p] that in_pairs [of p] size_mset [of "concat (map allRawKeys (snd p))"]
    by (simp add: namespaceNode_def concat_rawKeys count_group del: size_mset)
  then have "list_all node_ok (toTreeNodes collate s (RedisGroup name path children leaves))"
    unfolding nodes by (auto simp: list_all_iff buildRedisKeyLeafNode_def)
  ultimately show ?case by blast
qed

text \<open>
  C40. The Redis tree shows every key exactly once: the leaves below its nodes are the given keys with
  their multiplicities, for any order of the collation; and every group node of the tree counts the
  leaves below it and lists their keys, without the empty key.
\<close>

theorem redis_tree_shows_every_key:
  "mset (concat (map allRawKeys (rt_treeData (buildRedisKeyTree collate keys sortLeafNodes)))) = mset (map rk_key keys)
   \<and> list_all node_ok (rt_treeData (buildRedisKeyTree collate keys sortLeafNodes))"
  using toTreeNodes_ok [of collate sortLeafNodes "foldl insertKey (createTreeGroup (js ''__root__'') (js ''__root__'')) keys"]
    tree_keys [of "createTreeGroup (js ''__root__'') (js ''__root__'')" keys]
  by (simp add: buildRedisKeyTree_def Let_def createTreeGroup_def del: js_Cons)

section \<open>Selecting\<close>

lemma check_selects_group:
  "node_ok n \<Longrightarrow> rawKeysOf n \<noteq> [] \<Longrightarrow> set (rawKeysOf n) \<subseteq> set (applyTreeNodeCheck selected n True)
     \<and> set (applyTreeNodeCheck selected n True) = set selected \<union> set (rawKeysOf n)
     \<and> set (applyTreeNodeCheck selected n False) = set selected - set (rawKeysOf n)"
  by (cases n) auto

end
