(* ===== verification/SidebarOrder.thy ===== *)
theory SidebarOrder
  imports JsText JsMap
begin

text \<open>
  The order of the nodes of the sidebar tree: \<open>src/frontend/src/utils/sidebarTreeOrder.ts\<close> (the saved
  orders) and the part of \<open>src/frontend/src/components/sidebar/sidebarTreeDragOrder.ts\<close> that works on
  the tree (moving a node, applying the saved orders). The functions that look at the DOM or at the
  drag event are not modelled.

  An object used as a map is a \<open>js_map\<close>; its keys are node keys, never array indices, so that their
  order is that of insertion. Where the code returns the same array to say that nothing changed, the
  model returns \<open>None\<close>.
\<close>

section \<open>Saved orders\<close>

definition MAX_SIDEBAR_TREE_ORDER_PARENTS :: nat where "MAX_SIDEBAR_TREE_ORDER_PARENTS = 1024"
definition MAX_SIDEBAR_TREE_ORDER_CHILDREN :: nat where "MAX_SIDEBAR_TREE_ORDER_CHILDREN = 10000"
definition MAX_SIDEBAR_TREE_ORDER_KEY_LENGTH :: nat where "MAX_SIDEBAR_TREE_ORDER_KEY_LENGTH = 2048"

type_synonym treeOrders = "(js_string, js_string list) js_map"

definition toOrderKey :: "rawValue \<Rightarrow> js_string" where
  "toOrderKey v =
     (case v of RawString s \<Rightarrow> take MAX_SIDEBAR_TREE_ORDER_KEY_LENGTH (js_trim s) | _ \<Rightarrow> [])"

text \<open>The loop over the items, with the result so far, and its \<open>break\<close>.\<close>

fun orderItems :: "rawValue list \<Rightarrow> js_string list \<Rightarrow> js_string list" where
  "orderItems [] result = result"
| "orderItems (item # items) result =
     (let key = toOrderKey item in
      if key = [] \<or> key \<in> set result then orderItems items result
      else if MAX_SIDEBAR_TREE_ORDER_CHILDREN \<le> length (result @ [key]) then result @ [key]
      else orderItems items (result @ [key]))"

definition sanitizeSidebarTreeOrder :: "rawValue \<Rightarrow> js_string list" where
  "sanitizeSidebarTreeOrder v = (case v of RawArray items \<Rightarrow> orderItems items [] | _ \<Rightarrow> [])"

fun orderEntries :: "(js_string \<times> rawValue) list \<Rightarrow> treeOrders \<Rightarrow> treeOrders" where
  "orderEntries [] result = result"
| "orderEntries ((rawParentKey, rawOrder) # entries) result =
     (let parentKey = toOrderKey (RawString rawParentKey); order = sanitizeSidebarTreeOrder rawOrder in
      if parentKey = [] \<or> order = [] then orderEntries entries result
      else
        (let result' = jm_set result parentKey order in
         if MAX_SIDEBAR_TREE_ORDER_PARENTS \<le> length result' then result' else orderEntries entries result'))"

text \<open>\<open>None\<close> for a value that is no plain object.\<close>

definition sanitizeSidebarTreeOrders :: "(js_string \<times> rawValue) list option \<Rightarrow> treeOrders" where
  "sanitizeSidebarTreeOrders v = (case v of None \<Rightarrow> [] | Some entries \<Rightarrow> orderEntries entries [])"

definition rawOrders :: "treeOrders \<Rightarrow> (js_string \<times> rawValue) list" where
  "rawOrders m = map (\<lambda>(k, order). (k, RawArray (map RawString order))) m"

definition updateOrder :: "treeOrders \<Rightarrow> js_string \<times> rawValue \<Rightarrow> treeOrders" where
  "updateOrder current update =
     (let parentKey = toOrderKey (RawString (fst update)); order = sanitizeSidebarTreeOrder (snd update) in
      if parentKey = [] then current
      else if order = [] then jm_delete current parentKey
      else jm_set current parentKey order)"

definition updateSidebarTreeOrders ::
  "(js_string \<times> rawValue) list option \<Rightarrow> (js_string \<times> rawValue) list \<Rightarrow> treeOrders" where
  "updateSidebarTreeOrders current updates =
     sanitizeSidebarTreeOrders (Some (rawOrders (foldl updateOrder (sanitizeSidebarTreeOrders current) updates)))"

section \<open>Pin keys\<close>

text \<open>\<open>JSON.stringify\<close> of a string: the short escapes, and \<open>\u\<close> for other control characters and lone surrogates.\<close>

definition hexDigit :: "nat \<Rightarrow> nat" where
  "hexDigit n = (if n < 10 then 48 + n else 87 + n)"

definition unicodeEscape :: "nat \<Rightarrow> js_string" where
  "unicodeEscape c = [92, 117, hexDigit (c div 4096 mod 16), hexDigit (c div 256 mod 16),
     hexDigit (c div 16 mod 16), hexDigit (c mod 16)]"

definition highSurrogate :: "nat \<Rightarrow> bool" where "highSurrogate c \<longleftrightarrow> 55296 \<le> c \<and> c \<le> 56319"
definition lowSurrogate :: "nat \<Rightarrow> bool" where "lowSurrogate c \<longleftrightarrow> 56320 \<le> c \<and> c \<le> 57343"

definition jsonUnit :: "nat \<Rightarrow> js_string" where
  "jsonUnit c =
     (if c = 34 then [92, 34] else if c = 92 then [92, 92]
      else if c = 8 then [92, 98] else if c = 12 then [92, 102] else if c = 10 then [92, 110]
      else if c = 13 then [92, 114] else if c = 9 then [92, 116]
      else if c < 32 \<or> highSurrogate c \<or> lowSurrogate c then unicodeEscape c else [c])"

fun jsonText :: "js_string \<Rightarrow> js_string" where
  "jsonText (a # b # s) =
     (if highSurrogate a \<and> lowSurrogate b then a # b # jsonText s else jsonUnit a @ jsonText (b # s))"
| "jsonText [a] = jsonUnit a"
| "jsonText [] = []"

definition jsonStringArray :: "js_string list \<Rightarrow> js_string" where
  "jsonStringArray parts = [91] @ js_join [44] (map (\<lambda>p. [34] @ jsonText p @ [34]) parts) @ [93]"

definition buildSidebarTablePinKey :: "js_string \<Rightarrow> js_string \<Rightarrow> js_string \<Rightarrow> js_string \<Rightarrow> js_string" where
  "buildSidebarTablePinKey connectionId dbName tableName schemaName =
     (let parts = map js_trim [connectionId, dbName, schemaName, tableName] in
      if parts ! 0 \<noteq> [] \<and> parts ! 1 \<noteq> [] \<and> parts ! 3 \<noteq> [] then jsonStringArray parts else [])"

definition buildSidebarDatabasePinKey :: "js_string \<Rightarrow> js_string \<Rightarrow> js_string" where
  "buildSidebarDatabasePinKey connectionId dbName =
     (let parts = map js_trim [connectionId, dbName] in
      if parts ! 0 \<noteq> [] \<and> parts ! 1 \<noteq> [] then jsonStringArray parts else [])"

definition updateSidebarDatabasePinKeys ::
  "rawValue \<Rightarrow> js_string \<Rightarrow> js_string \<Rightarrow> bool \<Rightarrow> js_string list" where
  "updateSidebarDatabasePinKeys pinnedKeys connectionId dbName pinned =
     (let current = js_uniq (filter (\<lambda>k. k \<noteq> [])
            (case pinnedKeys of RawArray vs \<Rightarrow> map toOrderKey vs | _ \<Rightarrow> []));
          key = buildSidebarDatabasePinKey connectionId dbName in
      if key = [] then current
      else if pinned then js_uniq (current @ [key])
      else filter (\<lambda>k. k \<noteq> key) current)"

section \<open>The tree\<close>

record nodeData =
  nd_key :: js_string
  nd_type :: js_string
  nd_refId :: js_string
  nd_dbName :: js_string
  nd_pinnedDatabase :: bool
  nd_pinnedTable :: bool

datatype treeNode = TreeNode (tn_data: nodeData) (tn_children: "treeNode list")

abbreviation tn_key :: "treeNode \<Rightarrow> js_string" where "tn_key n \<equiv> nd_key (tn_data n)"
abbreviation tn_type :: "treeNode \<Rightarrow> js_string" where "tn_type n \<equiv> nd_type (tn_data n)"

definition V2_OBJECT_TYPES :: "js_string list" where
  "V2_OBJECT_TYPES =
     [js ''message-object'', js ''table'', js ''view'', js ''materialized-view'', js ''sequence'',
      js ''db-trigger'', js ''db-event'', js ''routine'', js ''package'', js ''database-link'']"

definition isV2SidebarObjectNode :: "treeNode \<Rightarrow> bool" where
  "isV2SidebarObjectNode n \<longleftrightarrow> tn_type n \<in> set V2_OBJECT_TYPES"

definition isSidebarTreeOrderNode :: "treeNode \<Rightarrow> bool" where
  "isSidebarTreeOrderNode n \<longleftrightarrow>
     tn_type n = js ''database'' \<or> tn_type n = js ''saved-query'' \<or> isV2SidebarObjectNode n"

definition isSidebarHostTreeNode :: "treeNode \<Rightarrow> bool" where
  "isSidebarHostTreeNode n \<longleftrightarrow> tn_type n = js ''connection'' \<or> tn_type n = js ''tag''"

text \<open>\<open>for (const x of xs) { const r = f(x); if (r) return r; }\<close>\<close>

primrec firstSome :: "'b option list \<Rightarrow> 'b option" where
  "firstSome [] = None"
| "firstSome (r # rs) = (case r of Some x \<Rightarrow> Some x | None \<Rightarrow> firstSome rs)"

text \<open>The parent key and the siblings of the node with a key; the root has the empty parent key.\<close>

fun findParentIn :: "js_string \<Rightarrow> treeNode \<Rightarrow> (js_string \<times> treeNode list) option" where
  "findParentIn targetKey (TreeNode d children) =
     (if \<exists>n\<in>set children. tn_key n = targetKey then Some (nd_key d, children)
      else firstSome (map (findParentIn targetKey) children))"

definition findSidebarTreeNodeParent :: "treeNode list \<Rightarrow> js_string \<Rightarrow> (js_string \<times> treeNode list) option" where
  "findSidebarTreeNodeParent nodes targetKey =
     (if \<exists>n\<in>set nodes. tn_key n = targetKey then Some ([], nodes)
      else firstSome (map (findParentIn targetKey) nodes))"

fun findNodeIn :: "js_string \<Rightarrow> treeNode \<Rightarrow> treeNode option" where
  "findNodeIn targetKey (TreeNode d children) =
     (if nd_key d = targetKey then Some (TreeNode d children)
      else firstSome (map (findNodeIn targetKey) children))"

definition findSidebarTreeNode :: "treeNode list \<Rightarrow> js_string \<Rightarrow> treeNode option" where
  "findSidebarTreeNode nodes targetKey = firstSome (map (findNodeIn targetKey) nodes)"

text \<open>\<open>findIndex\<close>, \<open>None\<close> for -1.\<close>

definition indexOfKey :: "treeNode list \<Rightarrow> js_string \<Rightarrow> nat option" where
  "indexOfKey nodes key = find (\<lambda>i. tn_key (nodes ! i) = key) [0..<length nodes]"

definition isSidebarTreeGapNoOp :: "treeNode list \<Rightarrow> treeNode \<Rightarrow> treeNode \<Rightarrow> bool \<Rightarrow> bool" where
  "isSidebarTreeGapNoOp treeData source target before \<longleftrightarrow>
     (case (findSidebarTreeNodeParent treeData (tn_key source), findSidebarTreeNodeParent treeData (tn_key target)) of
        (Some (sourceParent, sourceSiblings), Some (targetParent, targetSiblings)) \<Rightarrow>
          if sourceParent \<noteq> targetParent then False
          else
            (case (indexOfKey sourceSiblings (tn_key source), indexOfKey targetSiblings (tn_key target)) of
               (Some s, Some t) \<Rightarrow> if before then t = s \<or> t = s + 1 else t = s \<or> t + 1 = s
             | _ \<Rightarrow> False)
      | _ \<Rightarrow> False)"

definition isSameSidebarTreePinSection :: "treeNode \<Rightarrow> treeNode \<Rightarrow> bool" where
  "isSameSidebarTreePinSection source target \<longleftrightarrow>
     (if tn_type source = js ''database''
      then nd_pinnedDatabase (tn_data source) = nd_pinnedDatabase (tn_data target)
      else tn_type source \<noteq> js ''table'' \<or> nd_pinnedTable (tn_data source) = nd_pinnedTable (tn_data target))"

definition sameParent :: "treeNode list \<Rightarrow> treeNode \<Rightarrow> treeNode \<Rightarrow> bool" where
  "sameParent treeData source target \<longleftrightarrow>
     (case (findSidebarTreeNodeParent treeData (tn_key source), findSidebarTreeNodeParent treeData (tn_key target)) of
        (Some (s, _), Some (t, _)) \<Rightarrow> s = t | _ \<Rightarrow> False)"

definition canDropSidebarTreeOrderNode ::
  "treeNode list \<Rightarrow> treeNode option \<Rightarrow> treeNode option \<Rightarrow> int \<Rightarrow> bool" where
  "canDropSidebarTreeOrderNode treeData source target relativeDropPosition \<longleftrightarrow>
     (case (source, target) of
        (Some s, Some t) \<Rightarrow>
          isSidebarTreeOrderNode s \<and> isSidebarTreeOrderNode t
          \<and> tn_type s = tn_type t \<and> tn_key s \<noteq> tn_key t
          \<and> relativeDropPosition \<noteq> 0 \<and> isSameSidebarTreePinSection s t
          \<and> sameParent treeData s t
          \<and> \<not> isSidebarTreeGapNoOp treeData s t (relativeDropPosition < 0)
      | _ \<Rightarrow> False)"

text \<open>
  The drop before a node goes after the nearest host node before it in the same list, if there is one:
  the target and whether the node goes before it.
\<close>

definition resolveSidebarHostTreeGapTarget :: "treeNode list \<Rightarrow> treeNode \<Rightarrow> treeNode \<times> bool" where
  "resolveSidebarHostTreeGapTarget treeData dropNode =
     (case findSidebarTreeNodeParent treeData (tn_key dropNode) of
        None \<Rightarrow> (dropNode, True)
      | Some (_, siblings) \<Rightarrow>
          (case indexOfKey siblings (tn_key dropNode) of
             None \<Rightarrow> (dropNode, True)
           | Some dropIndex \<Rightarrow>
               (case find isSidebarHostTreeNode (rev (take dropIndex siblings)) of
                  None \<Rightarrow> (dropNode, True) | Some candidate \<Rightarrow> (candidate, False))))"

section \<open>Dropping a node\<close>

text \<open>\<open>splice(i, 1)\<close> and \<open>splice(i, 0, x)\<close>.\<close>

definition removeAt :: "nat \<Rightarrow> 'a list \<Rightarrow> 'a list" where
  "removeAt i xs = take i xs @ drop (i + 1) xs"

definition insertAt :: "nat \<Rightarrow> 'a \<Rightarrow> 'a list \<Rightarrow> 'a list" where
  "insertAt i x xs = take i xs @ x # drop i xs"

text \<open>
  Replacing the children of the node with a key, in a list of nodes: the node itself if it is in the
  list, else below the first node where it is found.
\<close>

function replaceSidebarTreeChildren :: "treeNode list \<Rightarrow> js_string \<Rightarrow> treeNode list \<Rightarrow> treeNode list option"
  and replaceBelow :: "treeNode list \<Rightarrow> js_string \<Rightarrow> treeNode list \<Rightarrow> treeNode list option" where
  "replaceSidebarTreeChildren nodes parentKey children =
     (case indexOfKey nodes parentKey of
        Some i \<Rightarrow> Some (nodes[i := TreeNode (tn_data (nodes ! i)) children])
      | None \<Rightarrow> replaceBelow nodes parentKey children)"
| "replaceBelow [] parentKey children = None"
| "replaceBelow (n # ns) parentKey children =
     (case replaceSidebarTreeChildren (tn_children n) parentKey children of
        Some children' \<Rightarrow> Some (TreeNode (tn_data n) children' # ns)
      | None \<Rightarrow> map_option ((#) n) (replaceBelow ns parentKey children))"
  by pat_completeness auto
termination
proof (relation "measure (\<lambda>x. case x of Inl (ns, _, _) \<Rightarrow> 2 * size_list size ns + 1 | Inr (ns, _, _) \<Rightarrow> 2 * size_list size ns)",
    goal_cases)
  case (3 n ns parentKey children)
  then show ?case by (cases n) simp
qed simp_all

record orderDrop =
  od_parentKey :: js_string
  od_orderedKeys :: "js_string list"
  od_treeData :: "treeNode list"

text \<open>The siblings after the node with key \<open>source\<close> was moved before or after the one with key \<open>target\<close>.\<close>

definition movedSiblings :: "treeNode list \<Rightarrow> nat \<Rightarrow> js_string \<Rightarrow> bool \<Rightarrow> treeNode list" where
  "movedSiblings siblings sourceIndex target insertBefore =
     (let rest = removeAt sourceIndex siblings;
          position = (case indexOfKey rest target of None \<Rightarrow> if insertBefore then length rest - 1 else 0
                      | Some i \<Rightarrow> if insertBefore then i else i + 1) in
      insertAt position (siblings ! sourceIndex) rest)"

definition resolveSidebarTreeOrderDrop ::
  "treeNode list \<Rightarrow> treeNode \<Rightarrow> treeNode \<Rightarrow> bool \<Rightarrow> orderDrop option" where
  "resolveSidebarTreeOrderDrop treeData source target insertBefore =
     (if \<not> isSidebarTreeOrderNode source \<or> \<not> isSidebarTreeOrderNode target \<or> tn_type source \<noteq> tn_type target
         \<or> \<not> sameParent treeData source target
         \<or> \<not> isSameSidebarTreePinSection source target
         \<or> isSidebarTreeGapNoOp treeData source target insertBefore then None
      else
        (case findSidebarTreeNodeParent treeData (tn_key source) of
           None \<Rightarrow> None
         | Some (parentKey, siblings) \<Rightarrow>
             if parentKey = [] then None
             else
               (case (indexOfKey siblings (tn_key source), indexOfKey siblings (tn_key target)) of
                  (Some sourceIndex, Some targetIndex) \<Rightarrow>
                    if sourceIndex = targetIndex then None
                    else
                      (let nextSiblings = movedSiblings siblings sourceIndex (tn_key target) insertBefore in
                       Some \<lparr>od_parentKey = parentKey,
                              od_orderedKeys = map tn_key (filter (\<lambda>n. tn_type n = tn_type source) nextSiblings),
                              od_treeData = (case replaceSidebarTreeChildren treeData parentKey nextSiblings of
                                               None \<Rightarrow> treeData | Some t \<Rightarrow> t)\<rparr>)
                | _ \<Rightarrow> None)))"

text \<open>
  What \<open>commitSidebarTreeOrderDrop\<close> passes to its callbacks: the tree, the saved orders, and the table
  sort preferences when they change; \<open>None\<close> when the drop is refused.
\<close>

type_synonym sortPreferences = "(js_string, js_string) js_map"

record orderCommit =
  oc_treeData :: "treeNode list"
  oc_parentKey :: js_string
  oc_orderedKeys :: "js_string list"
  oc_orders :: treeOrders
  oc_tableSort :: "sortPreferences option"

definition tableSortKey :: "js_string \<Rightarrow> js_string \<Rightarrow> js_string" where
  "tableSortKey connectionId dbName = connectionId @ js ''-'' @ dbName"

definition commitSidebarTreeOrderDrop ::
  "treeNode list \<Rightarrow> treeNode \<Rightarrow> treeNode \<Rightarrow> bool \<Rightarrow> treeOrders \<Rightarrow> sortPreferences \<Rightarrow> orderCommit option" where
  "commitSidebarTreeOrderDrop treeData dragNode dropNode insertBefore orders preferences =
     (case resolveSidebarTreeOrderDrop treeData dragNode dropNode insertBefore of
        None \<Rightarrow> None
      | Some result \<Rightarrow>
          (let connectionId = js_trim (nd_refId (tn_data dragNode)); dbName = js_trim (nd_dbName (tn_data dragNode)) in
           Some \<lparr>oc_treeData = od_treeData result, oc_parentKey = od_parentKey result,
                  oc_orderedKeys = od_orderedKeys result,
                  oc_orders = jm_set orders (od_parentKey result) (od_orderedKeys result),
                  oc_tableSort =
                    (if tn_type dragNode = js ''table'' \<and> connectionId \<noteq> [] \<and> dbName \<noteq> []
                     then Some (jm_set preferences (tableSortKey connectionId dbName) (js ''manual'')) else None)\<rparr>))"

section \<open>Applying the saved orders\<close>

definition shouldApplyDirectOrder :: "treeNode list \<Rightarrow> sortPreferences \<Rightarrow> bool" where
  "shouldApplyDirectOrder nodes preferences \<longleftrightarrow>
     (case find isSidebarTreeOrderNode nodes of
        None \<Rightarrow> True
      | Some n \<Rightarrow>
          if tn_type n \<noteq> js ''table'' then True
          else
            (let connectionId = js_trim (nd_refId (tn_data n)); dbName = js_trim (nd_dbName (tn_data n)) in
             connectionId \<noteq> [] \<and> dbName \<noteq> []
             \<and> jm_get preferences (tableSortKey connectionId dbName) = Some (js ''manual'')))"

text \<open>\<open>new Map(order.map((key, index) => [key, index]))\<close>: of equal keys the last index counts.\<close>

definition orderIndex :: "js_string list \<Rightarrow> js_string \<Rightarrow> nat option" where
  "orderIndex order key = find (\<lambda>i. order ! i = key) (rev [0..<length order])"

definition compareByOrder :: "js_string list \<Rightarrow> treeNode \<times> nat \<Rightarrow> treeNode \<times> nat \<Rightarrow> int" where
  "compareByOrder order left right =
     (case (orderIndex order (tn_key (fst left)), orderIndex order (tn_key (fst right))) of
        (Some l, Some r) \<Rightarrow> int l - int r
      | (Some l, None) \<Rightarrow> - 1
      | (None, Some r) \<Rightarrow> 1
      | (None, None) \<Rightarrow> int (snd left) - int (snd right))"

text \<open>The loop over the maximal runs of nodes of the ordered type.\<close>

function orderSegments :: "js_string list \<Rightarrow> js_string \<Rightarrow> treeNode list \<Rightarrow> treeNode list" where
  "orderSegments order nodeType [] = []"
| "orderSegments order nodeType (n # ns) =
     (if tn_type n \<noteq> nodeType then n # orderSegments order nodeType ns
      else
        (let segment = takeWhile (\<lambda>m. tn_type m = nodeType) (n # ns);
             rest = dropWhile (\<lambda>m. tn_type m = nodeType) (n # ns) in
         map fst (js_sort (compareByOrder order) (zip segment [0..<length segment]))
         @ orderSegments order nodeType rest))"
  by pat_completeness auto
termination
  by (relation "measure (\<lambda>(order, nodeType, ns). length ns)") (auto simp: length_dropWhile_le le_imp_less_Suc)

definition applyDirectSidebarTreeOrder ::
  "js_string \<Rightarrow> treeNode list \<Rightarrow> treeOrders \<Rightarrow> sortPreferences \<Rightarrow> treeNode list" where
  "applyDirectSidebarTreeOrder parentKey nodes orders preferences =
     (case jm_get orders parentKey of
        None \<Rightarrow> nodes
      | Some order \<Rightarrow>
          if order = [] \<or> \<not> shouldApplyDirectOrder nodes preferences then nodes
          else (case find isSidebarTreeOrderNode nodes of
                  None \<Rightarrow> nodes
                | Some n \<Rightarrow> if tn_type n = [] then nodes else orderSegments order (tn_type n) nodes))"

text \<open>
  The code orders a list of siblings and then the children of each; the two do not interact, so that
  the children may come first.
\<close>

fun applyOrdersBelow :: "treeOrders \<Rightarrow> sortPreferences \<Rightarrow> treeNode \<Rightarrow> treeNode" where
  "applyOrdersBelow orders preferences (TreeNode d children) =
     TreeNode d
       (if children = [] then []
        else applyDirectSidebarTreeOrder (nd_key d) (map (applyOrdersBelow orders preferences) children)
               orders preferences)"

definition applySidebarTreeOrders ::
  "js_string \<Rightarrow> treeNode list \<Rightarrow> treeOrders \<Rightarrow> sortPreferences \<Rightarrow> treeNode list" where
  "applySidebarTreeOrders parentKey nodes orders preferences =
     (if orders = [] then nodes
      else map (applyOrdersBelow orders preferences)
             (applyDirectSidebarTreeOrder parentKey nodes orders preferences))"

definition applySidebarTreeOrdersToNode :: "treeNode \<Rightarrow> treeOrders \<Rightarrow> sortPreferences \<Rightarrow> treeNode" where
  "applySidebarTreeOrdersToNode n orders preferences =
     (if tn_children n = [] then n
      else TreeNode (tn_data n) (applySidebarTreeOrders (tn_key n) (tn_children n) orders preferences))"

end
