(* ===== verification/SidebarOrderProps.thy ===== *)
theory SidebarOrderProps
  imports SidebarOrder
begin

text \<open>
  Dropping a node moves it next to the target and nothing else; the saved orders are bounded.
\<close>

section \<open>Positions\<close>

lemma indexOfKey_Some:
  "indexOfKey nodes key = Some i \<Longrightarrow> i < length nodes \<and> tn_key (nodes ! i) = key"
  using find_SomeD [of "\<lambda>i. tn_key (nodes ! i) = key" "[0..<length nodes]" i] by (simp add: indexOfKey_def)

lemma indexOfKey_None: "indexOfKey nodes key = None \<longleftrightarrow> key \<notin> set (map tn_key nodes)"
  unfolding indexOfKey_def find_None_iff in_set_conv_nth by (simp add: Bex_def) metis

lemma filter_other: "f x \<notin> f ` set ys \<Longrightarrow> filter (\<lambda>y. f y \<noteq> f x) ys = ys"
  by (induction ys) auto

lemma filter_middle:
  "distinct (map f (a @ x # b)) \<Longrightarrow> filter (\<lambda>y. f y \<noteq> f x) (a @ x # b) = a @ b"
  by (simp add: filter_other)

lemma removeAt_filter:
  assumes "distinct (map f xs)" "i < length xs"
  shows "removeAt i xs = filter (\<lambda>x. f x \<noteq> f (xs ! i)) xs"
proof -
  have xs: "take i xs @ xs ! i # drop (Suc i) xs = xs"
    using assms(2) by (rule id_take_nth_drop [symmetric])
  from filter_middle [of f "take i xs" "xs ! i" "drop (Suc i) xs"] assms(1)
  show ?thesis unfolding xs by (simp add: removeAt_def)
qed

lemma removeAt_nth:
  "i < length xs \<Longrightarrow> j < length xs - 1 \<Longrightarrow> removeAt i xs ! j = (if j < i then xs ! j else xs ! (j + 1))"
  by (auto simp: removeAt_def nth_append min_def)

lemma length_removeAt [simp]: "i < length xs \<Longrightarrow> length (removeAt i xs) = length xs - 1"
  by (simp add: removeAt_def)

section \<open>The drop\<close>

text \<open>Where the target is after the removal of the source.\<close>

lemma index_after_removal:
  assumes "distinct (map tn_key sibs)" "s < length sibs" "t < length sibs" "s \<noteq> t"
  shows "indexOfKey (removeAt s sibs) (tn_key (sibs ! t)) = Some (if t < s then t else t - 1)"
proof -
  let ?p = "if t < s then t else t - 1"
  have p: "?p < length sibs - 1" "removeAt s sibs ! ?p = sibs ! t"
    using assms(2-4) by (auto simp: removeAt_nth)
  have d: "distinct (map tn_key (removeAt s sibs))"
    using assms(1,2) by (simp add: removeAt_filter distinct_map_filter)
  have "tn_key (removeAt s sibs ! ?p) \<in> set (map tn_key (removeAt s sibs))"
    using p(1) assms(2) by (metis length_map length_removeAt nth_map nth_mem)
  then obtain i where i: "indexOfKey (removeAt s sibs) (tn_key (sibs ! t)) = Some i"
    using p(2) indexOfKey_None [of "removeAt s sibs" "tn_key (sibs ! t)"]
    by (cases "indexOfKey (removeAt s sibs) (tn_key (sibs ! t))") auto
  from indexOfKey_Some [OF this] have "i = ?p"
  proof -
    let ?ks = "map tn_key (removeAt s sibs)"
    have len: "length ?ks = length sibs - 1" using assms(2) by simp
    have a: "i < length ?ks" "?ks ! i = tn_key (sibs ! t)" using indexOfKey_Some [OF i] by simp_all
    have b: "?p < length ?ks" "?ks ! ?p = tn_key (sibs ! t)" using p len by simp_all
    show ?thesis using nth_eq_iff_index_eq [OF d a(1) b(1)] unfolding a(2) b(2) by blast
  qed
  with i show ?thesis by simp
qed

lemma moved_differs:
  assumes "distinct (map tn_key sibs)" "s < length sibs" "p \<le> length sibs - 1" "p \<noteq> s"
  shows "insertAt p (sibs ! s) (removeAt s sibs) \<noteq> sibs"
proof
  assume eq: "insertAt p (sibs ! s) (removeAt s sibs) = sibs"
  have "insertAt p (sibs ! s) (removeAt s sibs) ! p = sibs ! s"
    using assms(2,3) by (simp add: insertAt_def nth_append)
  with eq have "sibs ! p = sibs ! s" by simp
  moreover have "p < length sibs" using assms(2,3) by linarith
  ultimately show False using assms(1,2,4) by (simp add: distinct_map nth_eq_iff_index_eq)
qed

text \<open>
  A drop moves one node: among siblings with distinct keys, an accepted drop takes the dragged
  node out and puts it directly before, or after, the target, the others keeping their order; the order
  really changes; the saved order lists the new siblings of its type; and in the tree only the list of
  children of that parent is replaced.
\<close>

lemma drop_moves_one_node:
  assumes "resolveSidebarTreeOrderDrop treeData source target insertBefore = Some d"
    and "findSidebarTreeNodeParent treeData (tn_key source) = Some (parentKey, sibs)"
    and "findSidebarTreeNodeParent treeData (tn_key target) = Some (parentKey, sibs)"
    and "distinct (map tn_key sibs)"
  shows "\<exists>l moved r. moved \<in> set sibs \<and> tn_key moved = tn_key source
    \<and> filter (\<lambda>n. tn_key n \<noteq> tn_key source) sibs = l @ r
    \<and> (if insertBefore then r \<noteq> [] \<and> tn_key (hd r) = tn_key target else l \<noteq> [] \<and> tn_key (last l) = tn_key target)
    \<and> l @ moved # r \<noteq> sibs
    \<and> od_parentKey d = parentKey \<and> parentKey \<noteq> []
    \<and> od_orderedKeys d = map tn_key (filter (\<lambda>n. tn_type n = tn_type source) (l @ moved # r))
    \<and> od_treeData d = (case replaceSidebarTreeChildren treeData parentKey (l @ moved # r) of
                         None \<Rightarrow> treeData | Some t \<Rightarrow> t)"
proof -
  obtain s t where i: "indexOfKey sibs (tn_key source) = Some s" "indexOfKey sibs (tn_key target) = Some t"
    and st: "s \<noteq> t" and pk: "parentKey \<noteq> []"
    and gap: "\<not> isSidebarTreeGapNoOp treeData source target insertBefore"
    and d: "d = \<lparr>od_parentKey = parentKey,
      od_orderedKeys = map tn_key (filter (\<lambda>n. tn_type n = tn_type source) (movedSiblings sibs s (tn_key target) insertBefore)),
      od_treeData = (case replaceSidebarTreeChildren treeData parentKey (movedSiblings sibs s (tn_key target) insertBefore) of
                       None \<Rightarrow> treeData | Some t \<Rightarrow> t)\<rparr>"
    using assms(1) unfolding resolveSidebarTreeOrderDrop_def assms(2) Let_def
    by (auto simp del: replaceSidebarTreeChildren.simps split: if_splits option.splits)
  note s = indexOfKey_Some [OF i(1)] and t = indexOfKey_Some [OF i(2)]
  define q where "q = (if t < s then t else t - 1)"
  define p where "p = (if insertBefore then q else q + 1)"
  let ?rest = "removeAt s sibs"
  have target: "indexOfKey ?rest (tn_key target) = Some q"
    using index_after_removal [OF assms(4), of s t] s t st by (simp add: q_def)
  have q: "q < length ?rest" "tn_key (?rest ! q) = tn_key target" using indexOfKey_Some [OF target] by simp_all
  have moved: "movedSiblings sibs s (tn_key target) insertBefore = take p ?rest @ sibs ! s # drop p ?rest"
    by (simp add: movedSiblings_def Let_def target p_def insertAt_def)
  have "p \<noteq> s" using gap st unfolding isSidebarTreeGapNoOp_def assms(2,3)
    by (auto simp: i p_def q_def split: if_splits)
  then have "take p ?rest @ sibs ! s # drop p ?rest \<noteq> sibs"
    using moved_differs [OF assms(4), of s p] s q(1) by (simp add: p_def insertAt_def)
  moreover have "filter (\<lambda>n. tn_key n \<noteq> tn_key source) sibs = take p ?rest @ drop p ?rest"
    using removeAt_filter [OF assms(4), of s] s by simp
  moreover have "if insertBefore then drop p ?rest \<noteq> [] \<and> tn_key (hd (drop p ?rest)) = tn_key target
      else take p ?rest \<noteq> [] \<and> tn_key (last (take p ?rest)) = tn_key target"
    using q by (auto simp: p_def hd_drop_conv_nth take_Suc_conv_app_nth)
  ultimately show ?thesis
    using s pk unfolding d moved by (intro exI [of _ "take p ?rest"] exI [of _ "sibs ! s"] exI [of _ "drop p ?rest"]) simp
qed

definition exampleNode :: "string \<Rightarrow> treeNode list \<Rightarrow> treeNode" where
  "exampleNode key children = TreeNode \<lparr>nd_key = js key, nd_type = js ''view'', nd_refId = [], nd_dbName = [],
     nd_pinnedDatabase = False, nd_pinnedTable = False\<rparr> children"

lemma drop_moves_one_node_witness:
  "\<exists>d. resolveSidebarTreeOrderDrop [exampleNode ''p'' [exampleNode ''a'' [], exampleNode ''b'' []]]
      (exampleNode ''a'' []) (exampleNode ''b'' []) False = Some d \<and> od_parentKey d = js ''p''"
proof -
  let ?a = "exampleNode ''a'' []" and ?b = "exampleNode ''b'' []"
  let ?tree = "[exampleNode ''p'' [?a, ?b]]"
  have "resolveSidebarTreeOrderDrop ?tree ?a ?b False \<noteq> None" by code_simp
  then obtain d where d: "resolveSidebarTreeOrderDrop ?tree ?a ?b False = Some d" by blast
  have "findSidebarTreeNodeParent ?tree (tn_key ?a) = Some (js ''p'', [?a, ?b])"
    "findSidebarTreeNodeParent ?tree (tn_key ?b) = Some (js ''p'', [?a, ?b])"
    by (simp_all add: findSidebarTreeNodeParent_def exampleNode_def)
  moreover have "distinct (map tn_key [?a, ?b])" by (simp add: exampleNode_def)
  ultimately have "od_parentKey d = js ''p''" using drop_moves_one_node [OF d] by blast
  with d show ?thesis by blast
qed

section \<open>The bounds of the saved orders\<close>

lemma orderItems_bounds:
  assumes "distinct result" "length result < MAX_SIDEBAR_TREE_ORDER_CHILDREN" "[] \<notin> set result"
  shows "distinct (orderItems items result) \<and> length (orderItems items result) \<le> MAX_SIDEBAR_TREE_ORDER_CHILDREN
    \<and> [] \<notin> set (orderItems items result)"
  using assms
proof (induction items result rule: orderItems.induct)
  case (2 item items result)
  then show ?case by (cases "toOrderKey item = [] \<or> toOrderKey item \<in> set result") (auto simp: Let_def)
qed simp

lemma sanitized_order_ok:
  "distinct (sanitizeSidebarTreeOrder v) \<and> length (sanitizeSidebarTreeOrder v) \<le> MAX_SIDEBAR_TREE_ORDER_CHILDREN
   \<and> [] \<notin> set (sanitizeSidebarTreeOrder v)"
  using orderItems_bounds [of "[]"]
  by (auto simp: sanitizeSidebarTreeOrder_def MAX_SIDEBAR_TREE_ORDER_CHILDREN_def split: rawValue.split)

definition orders_ok :: "treeOrders \<Rightarrow> bool" where
  "orders_ok m \<longleftrightarrow> distinct (jm_keys m)
     \<and> (\<forall>(k, order)\<in>set m. k \<noteq> [] \<and> order \<noteq> [] \<and> distinct order
          \<and> length order \<le> MAX_SIDEBAR_TREE_ORDER_CHILDREN)"

lemma orders_ok_set:
  assumes "orders_ok m" "k \<noteq> []" "order \<noteq> []" "distinct order" "length order \<le> MAX_SIDEBAR_TREE_ORDER_CHILDREN"
  shows "orders_ok (jm_set m k order)"
proof -
  have "set (jm_set m k order) \<subseteq> insert (k, order) (set m)" by (induction m) auto
  with assms jm.distinct_put [of m k order] show ?thesis unfolding orders_ok_def by blast
qed

lemma orderEntries_ok:
  assumes "orders_ok m" "length m < MAX_SIDEBAR_TREE_ORDER_PARENTS"
  shows "orders_ok (orderEntries entries m) \<and> length (orderEntries entries m) \<le> MAX_SIDEBAR_TREE_ORDER_PARENTS"
  using assms
proof (induction entries m rule: orderEntries.induct)
  case (2 rawParentKey rawOrder entries m)
  let ?k = "toOrderKey (RawString rawParentKey)" and ?o = "sanitizeSidebarTreeOrder rawOrder"
  show ?case
  proof (cases "?k = [] \<or> ?o = []")
    case False
    have "orders_ok (jm_set m ?k ?o)"
      using 2(3) False sanitized_order_ok [of rawOrder] by (intro orders_ok_set) simp_all
    moreover have "length (jm_set m ?k ?o) \<le> length m + 1"
      using jm.length_put [of m ?k ?o] by (simp add: jm_keys_def)
    ultimately show ?thesis using 2(2) [OF refl refl False refl] 2(4) False
      by (cases "MAX_SIDEBAR_TREE_ORDER_PARENTS \<le> length (jm_set m ?k ?o)") (simp_all add: Let_def)
  qed (use 2 in \<open>auto simp: Let_def\<close>)
qed simp

text \<open>What is saved, whatever was stored and updated, is bounded and well formed.\<close>

lemma saved_orders_bounded:
  "orders_ok (updateSidebarTreeOrders current updates)
   \<and> length (updateSidebarTreeOrders current updates) \<le> MAX_SIDEBAR_TREE_ORDER_PARENTS"
  unfolding updateSidebarTreeOrders_def sanitizeSidebarTreeOrders_def option.case
  by (rule orderEntries_ok) (simp_all add: orders_ok_def jm_keys_def MAX_SIDEBAR_TREE_ORDER_PARENTS_def)

end
