(* ===== verification/ConnectionTags.thy ===== *)
theory ConnectionTags
  imports JsText
begin

text \<open>
  The connection groups (tags) of the sidebar as \<open>src/frontend/src/store.ts\<close> keeps them: a forest of
  groups, each with its connections and the order of its children, and the order of the root. Here are
  the data, the tokens, the normalization every operation of the store starts and ends with, and the
  two moves.

  A missing parent is the empty string, which is no group's id. The fallback name of a group, which the
  source takes from the message catalogue of the language in use, is the parameter \<open>fallbackName\<close>.
\<close>

section \<open>Data\<close>

datatype sortMode = SortManual | SortName | SortCreatedAt

record connectionTag =
  ct_id :: js_string
  ct_name :: js_string
  ct_createdAt :: "int option"
  ct_parentTagId :: js_string
  ct_connectionIds :: "js_string list"
  ct_childOrder :: "js_string list"
  ct_sortMode :: "sortMode option"
  ct_connectionSortMode :: "sortMode option"

text \<open>The fields of a saved connection that the tree uses.\<close>

record savedConnection =
  cn_id :: js_string
  cn_name :: js_string
  cn_createdAt :: "int option"

record tagTree =
  tt_connectionTags :: "connectionTag list"
  tt_sidebarRootOrder :: "js_string list"

text \<open>The \<open>Map\<close> from ids to groups: the last group with an id wins.\<close>

definition tagWithId :: "connectionTag list \<Rightarrow> js_string \<Rightarrow> connectionTag option" where
  "tagWithId tags i = find (\<lambda>t. ct_id t = i) (rev tags)"

abbreviation tag_ids :: "connectionTag list \<Rightarrow> js_string set" where
  "tag_ids tags \<equiv> ct_id ` set tags"

lemma tagWithId_Some: "tagWithId tags i = Some t \<Longrightarrow> t \<in> set tags \<and> ct_id t = i"
  using find_SomeD [of "\<lambda>t. ct_id t = i" "rev tags" t] by (simp add: tagWithId_def)

lemma tagWithId_None: "tagWithId tags i = None \<longleftrightarrow> i \<notin> tag_ids tags"
  by (auto simp: tagWithId_def find_None_iff)

section \<open>Tokens\<close>

definition SIDEBAR_ROOT_TAG_TOKEN_PREFIX :: js_string where
  "SIDEBAR_ROOT_TAG_TOKEN_PREFIX = js ''tag:''"

definition SIDEBAR_ROOT_CONNECTION_TOKEN_PREFIX :: js_string where
  "SIDEBAR_ROOT_CONNECTION_TOKEN_PREFIX = js ''connection:''"

definition buildSidebarRootTagToken :: "js_string \<Rightarrow> js_string" where
  "buildSidebarRootTagToken tagId = SIDEBAR_ROOT_TAG_TOKEN_PREFIX @ js_trim tagId"

definition buildSidebarRootConnectionToken :: "js_string \<Rightarrow> js_string" where
  "buildSidebarRootConnectionToken connectionId = SIDEBAR_ROOT_CONNECTION_TOKEN_PREFIX @ js_trim connectionId"

definition isSidebarRootTagToken :: "js_string \<Rightarrow> bool" where
  "isSidebarRootTagToken token \<longleftrightarrow> prefix SIDEBAR_ROOT_TAG_TOKEN_PREFIX token
     \<and> length SIDEBAR_ROOT_TAG_TOKEN_PREFIX < length token"

definition isSidebarRootConnectionToken :: "js_string \<Rightarrow> bool" where
  "isSidebarRootConnectionToken token \<longleftrightarrow> prefix SIDEBAR_ROOT_CONNECTION_TOKEN_PREFIX token
     \<and> length SIDEBAR_ROOT_CONNECTION_TOKEN_PREFIX < length token"

definition getSidebarTagIdFromToken :: "js_string \<Rightarrow> js_string" where
  "getSidebarTagIdFromToken token =
     (if isSidebarRootTagToken token then drop (length SIDEBAR_ROOT_TAG_TOKEN_PREFIX) token else [])"

definition getSidebarConnectionIdFromToken :: "js_string \<Rightarrow> js_string" where
  "getSidebarConnectionIdFromToken token =
     (if isSidebarRootConnectionToken token then drop (length SIDEBAR_ROOT_CONNECTION_TOKEN_PREFIX) token
      else [])"

section \<open>Reading\<close>

definition toTrimmedString_store :: "rawValue \<Rightarrow> js_string \<Rightarrow> js_string" where
  "toTrimmedString_store v fallback =
     (case v of
        RawString s \<Rightarrow> js_trim s
      | RawNumber s \<Rightarrow> js_trim s
      | RawBool b \<Rightarrow> if b then js ''true'' else js ''false''
      | _ \<Rightarrow> fallback)"

text \<open>The entries of an array as \<open>toTrimmedString\<close> reads them; no entries for a value that is no array.\<close>

definition rawEntries :: "rawValue \<Rightarrow> js_string list" where
  "rawEntries v = (case v of RawArray items \<Rightarrow> map (\<lambda>x. toTrimmedString_store x []) items | _ \<Rightarrow> [])"

definition sanitizeIds :: "nat \<Rightarrow> js_string list \<Rightarrow> js_string list" where
  "sanitizeIds maxLength ids = js_uniq (filter (\<lambda>s. s \<noteq> [] \<and> length s \<le> maxLength) (map js_trim ids))"

definition sanitizeSidebarItemOrder :: "js_string list \<Rightarrow> js_string list" where
  "sanitizeSidebarItemOrder tokens =
     js_uniq (filter (\<lambda>t. t \<noteq> [] \<and> (isSidebarRootTagToken t \<or> isSidebarRootConnectionToken t))
       (map js_trim tokens))"

definition positiveTime :: "int option \<Rightarrow> int option" where
  "positiveTime createdAt = (case createdAt of None \<Rightarrow> None | Some n \<Rightarrow> if 0 < n then Some n else None)"

definition displaySortMode :: "sortMode option \<Rightarrow> sortMode option \<Rightarrow> sortMode" where
  "displaySortMode connectionSortMode mode =
     (case connectionSortMode of
        Some m \<Rightarrow> m
      | None \<Rightarrow> (case mode of Some SortName \<Rightarrow> SortName | Some SortCreatedAt \<Rightarrow> SortCreatedAt
                 | _ \<Rightarrow> SortCreatedAt))"

fun readTags :: "(nat \<Rightarrow> js_string) \<Rightarrow> connectionTag list \<Rightarrow> nat \<Rightarrow> js_string list \<Rightarrow> connectionTag list" where
  "readTags fallbackName [] index seen = []"
| "readTags fallbackName (entry # entries) index seen =
     (let i = js_or (js_trim (ct_id entry)) (js ''tag-'' @ nat_text (index + 1)) in
      if i \<in> set seen then readTags fallbackName entries (index + 1) seen
      else
        \<lparr>ct_id = i,
         ct_name = js_or (js_trim (ct_name entry)) (fallbackName index),
         ct_createdAt = positiveTime (ct_createdAt entry),
         ct_parentTagId = js_trim (ct_parentTagId entry),
         ct_connectionIds = sanitizeIds 256 (ct_connectionIds entry),
         ct_childOrder = sanitizeSidebarItemOrder (ct_childOrder entry),
         ct_sortMode = Some SortManual,
         ct_connectionSortMode = Some (displaySortMode (ct_connectionSortMode entry) (ct_sortMode entry))\<rparr>
        # readTags fallbackName entries (index + 1) (i # seen))"

section \<open>Normalization\<close>

definition dropUnknownTagParent :: "connectionTag list \<Rightarrow> connectionTag \<Rightarrow> connectionTag" where
  "dropUnknownTagParent tags tag =
     (if ct_parentTagId tag = [] \<or> ct_parentTagId tag = ct_id tag \<or> tagWithId tags (ct_parentTagId tag) = None
      then tag\<lparr>ct_parentTagId := []\<rparr> else tag)"

text \<open>The walk from a group to the root; the result is the cycle it runs into, if any.\<close>

function tagCycleFrom :: "connectionTag list \<Rightarrow> js_string list \<Rightarrow> js_string \<Rightarrow> js_string list" where
  "tagCycleFrom tags path currentId =
     (if currentId = [] then []
      else (case tagWithId tags currentId of
              None \<Rightarrow> []
            | Some current \<Rightarrow>
                if ct_parentTagId current = [] then []
                else if currentId \<in> set path then dropWhile (\<lambda>p. p \<noteq> currentId) path
                else tagCycleFrom tags (path @ [currentId]) (ct_parentTagId current)))"
  by pat_completeness auto
termination
proof (relation "measure (\<lambda>(tags, path, c). card (tag_ids tags - set path))", goal_cases)
  case (2 tags path c t)
  then have "card (tag_ids tags - set (path @ [c])) < card (tag_ids tags - set path)"
    using tagWithId_Some [of tags c t] by (intro psubset_card_mono) auto
  then show ?case by simp
qed simp

declare tagCycleFrom.simps [simp del]

definition promoteTags :: "js_string list \<Rightarrow> connectionTag list \<Rightarrow> connectionTag list" where
  "promoteTags ids = map (\<lambda>t. if ct_id t \<in> set ids then t\<lparr>ct_parentTagId := []\<rparr> else t)"

definition cutTagCycle :: "js_string \<Rightarrow> connectionTag list \<Rightarrow> connectionTag list" where
  "cutTagCycle i tags = promoteTags (tagCycleFrom tags [] i) tags"

definition cutTagCycles :: "connectionTag list \<Rightarrow> connectionTag list" where
  "cutTagCycles tags = fold cutTagCycle (map ct_id tags) tags"

text \<open>A connection has one owner: the first group that lists it.\<close>

fun claimConnections :: "connectionTag list \<Rightarrow> js_string list \<Rightarrow> connectionTag list" where
  "claimConnections [] assigned = []"
| "claimConnections (tag # tags) assigned =
     (let kept = js_uniq (filter (\<lambda>c. c \<notin> set assigned) (ct_connectionIds tag)) in
      tag\<lparr>ct_connectionIds := kept\<rparr> # claimConnections tags (kept @ assigned))"

definition tagDefaultOrder :: "connectionTag list \<Rightarrow> connectionTag \<Rightarrow> js_string list" where
  "tagDefaultOrder tags tag =
     map buildSidebarRootConnectionToken (sanitizeIds 256 (ct_connectionIds tag))
     @ map (\<lambda>c. buildSidebarRootTagToken (ct_id c))
         (filter (\<lambda>c. ct_id tag \<noteq> [] \<and> ct_parentTagId c = ct_id tag) tags)"

text \<open>The wanted order as far as it is valid, then the rest in the default order.\<close>

definition orderedTokens :: "js_string list \<Rightarrow> js_string list \<Rightarrow> js_string list" where
  "orderedTokens wanted defaultOrder = js_uniq (filter (\<lambda>t. t \<in> set defaultOrder) wanted @ defaultOrder)"

definition resolveConnectionTagChildOrder :: "js_string \<Rightarrow> connectionTag list \<Rightarrow> js_string list" where
  "resolveConnectionTagChildOrder tagId tags =
     (case find (\<lambda>c. ct_id c = tagId) tags of
        None \<Rightarrow> []
      | Some tag \<Rightarrow> orderedTokens (sanitizeSidebarItemOrder (ct_childOrder tag)) (tagDefaultOrder tags tag))"

definition connectionIdsFromMixedTokens :: "js_string list \<Rightarrow> js_string list" where
  "connectionIdsFromMixedTokens tokens =
     map getSidebarConnectionIdFromToken (filter isSidebarRootConnectionToken tokens)"

definition orderTag :: "connectionTag list \<Rightarrow> connectionTag \<Rightarrow> connectionTag" where
  "orderTag tags tag =
     (let childOrder = resolveConnectionTagChildOrder (ct_id tag) tags in
      tag\<lparr>ct_connectionIds := connectionIdsFromMixedTokens childOrder, ct_childOrder := childOrder\<rparr>)"

definition normalizeConnectionTagTree :: "(nat \<Rightarrow> js_string) \<Rightarrow> connectionTag list \<Rightarrow> connectionTag list" where
  "normalizeConnectionTagTree fallbackName v =
     (let read = readTags fallbackName v 0 [];
          tags = claimConnections (cutTagCycles (map (dropUnknownTagParent read) read)) [] in
      map (orderTag tags) tags)"

section \<open>The order of the root\<close>

definition buildDefaultSidebarRootOrderTokens ::
  "connectionTag list \<Rightarrow> savedConnection list \<Rightarrow> js_string list" where
  "buildDefaultSidebarRootOrderTokens tags connections =
     (let grouped = filter (\<lambda>c. c \<noteq> []) (concat (map ct_connectionIds tags)) in
      map (\<lambda>t. buildSidebarRootTagToken (ct_id t)) (filter (\<lambda>t. ct_parentTagId t = []) tags)
      @ map (\<lambda>c. buildSidebarRootConnectionToken (cn_id c)) (filter (\<lambda>c. cn_id c \<notin> set grouped) connections))"

definition resolveSidebarRootOrderTokens ::
  "js_string list \<Rightarrow> connectionTag list \<Rightarrow> savedConnection list \<Rightarrow> js_string list" where
  "resolveSidebarRootOrderTokens sidebarRootOrder tags connections =
     (let defaultOrder = buildDefaultSidebarRootOrderTokens tags connections in
      if defaultOrder = [] then []
      else orderedTokens (sanitizeSidebarItemOrder sidebarRootOrder) defaultOrder)"

definition resolveHydratedSidebarRootOrderTokens ::
  "js_string list \<Rightarrow> connectionTag list option \<Rightarrow> savedConnection list option \<Rightarrow> js_string list" where
  "resolveHydratedSidebarRootOrderTokens sidebarRootOrder tags connections =
     (let sanitized = sanitizeSidebarItemOrder sidebarRootOrder in
      case tags of
        None \<Rightarrow> sanitized
      | Some tags \<Rightarrow>
          (let rootTagIds = map ct_id (filter (\<lambda>t. ct_parentTagId t = []) tags);
               rootOnly = filter (\<lambda>token. \<not> isSidebarRootTagToken token
                 \<or> getSidebarTagIdFromToken token \<in> set rootTagIds) sanitized in
           case connections of
             None \<Rightarrow> rootOnly
           | Some connections \<Rightarrow> resolveSidebarRootOrderTokens rootOnly tags connections))"

definition normalizeConnectionTagTreeState ::
  "(nat \<Rightarrow> js_string) \<Rightarrow> connectionTag list \<Rightarrow> js_string list \<Rightarrow> savedConnection list \<Rightarrow> tagTree" where
  "normalizeConnectionTagTreeState fallbackName tags sidebarRootOrder connections =
     (let nextTags = normalizeConnectionTagTree fallbackName tags in
      \<lparr>tt_connectionTags = nextTags,
       tt_sidebarRootOrder = resolveSidebarRootOrderTokens sidebarRootOrder nextTags connections\<rparr>)"

section \<open>Changing orders\<close>

definition insertAt :: "nat \<Rightarrow> js_string \<Rightarrow> js_string list \<Rightarrow> js_string list" where
  "insertAt k x xs = take k xs @ x # drop k xs"

definition indexOfToken :: "js_string \<Rightarrow> js_string list \<Rightarrow> nat option" where
  "indexOfToken token tokens = find (\<lambda>k. tokens ! k = token) [0..<length tokens]"

definition insertSidebarRootTokenBeforeUngrouped :: "js_string list \<Rightarrow> js_string \<Rightarrow> js_string list" where
  "insertSidebarRootTokenBeforeUngrouped order token =
     (if token = [] \<or> token \<in> set order then order
      else (case find (\<lambda>k. isSidebarRootConnectionToken (order ! k)) [0..<length order] of
              None \<Rightarrow> order @ [token]
            | Some k \<Rightarrow> insertAt k token order))"

definition insertSidebarRootTokenAfter :: "js_string list \<Rightarrow> js_string \<Rightarrow> js_string \<Rightarrow> js_string list" where
  "insertSidebarRootTokenAfter order token anchorToken =
     (if token = [] then order
      else (let nextOrder = filter (\<lambda>t. t \<noteq> token) order in
            case indexOfToken anchorToken nextOrder of
              None \<Rightarrow> nextOrder @ [token]
            | Some k \<Rightarrow> insertAt (k + 1) token nextOrder))"

definition moveSidebarRootToken ::
  "js_string list \<Rightarrow> js_string \<Rightarrow> js_string \<Rightarrow> bool \<Rightarrow> js_string list" where
  "moveSidebarRootToken order sourceToken targetToken insertBefore =
     (if sourceToken = [] \<or> targetToken = [] \<or> sourceToken = targetToken then order
      else (let filtered = filter (\<lambda>t. t \<noteq> sourceToken) order in
            case indexOfToken targetToken filtered of
              None \<Rightarrow> insertAt (length filtered) sourceToken filtered
            | Some k \<Rightarrow> insertAt (min (length filtered) (if insertBefore then k else k + 1)) sourceToken filtered))"

definition setConnectionTagChildOrder ::
  "connectionTag list \<Rightarrow> js_string \<Rightarrow> js_string list \<Rightarrow> connectionTag list" where
  "setConnectionTagChildOrder tags tagId childOrder =
     map (\<lambda>t. if ct_id t = tagId then t\<lparr>ct_childOrder := childOrder\<rparr> else t) tags"

definition removeSidebarItemTokenFromTagOrders :: "connectionTag list \<Rightarrow> js_string \<Rightarrow> connectionTag list" where
  "removeSidebarItemTokenFromTagOrders tags token =
     map (\<lambda>t. t\<lparr>ct_childOrder := filter (\<lambda>x. x \<noteq> token) (sanitizeSidebarItemOrder (ct_childOrder t))\<rparr>) tags"

text \<open>A missing target token is \<open>None\<close>; the empty one counts as missing.\<close>

definition placeSidebarItemToken ::
  "js_string list \<Rightarrow> js_string \<Rightarrow> js_string option \<Rightarrow> bool \<Rightarrow> js_string list" where
  "placeSidebarItemToken order token targetToken insertBefore =
     (if token = [] \<or> targetToken = Some token then order
      else (let nextOrder = filter (\<lambda>t. t \<noteq> token) order in
            case targetToken of
              None \<Rightarrow> nextOrder @ [token]
            | Some target \<Rightarrow>
                if target = [] then nextOrder @ [token]
                else (case indexOfToken target nextOrder of
                        None \<Rightarrow> nextOrder @ [token]
                      | Some k \<Rightarrow> insertAt (if insertBefore then k else k + 1) token nextOrder)))"

text \<open>The loop of \<open>replaceSidebarItemToken\<close>: \<open>inserted\<close> tells whether the replacements are placed.\<close>

fun replaceTokenLoop ::
  "js_string \<Rightarrow> js_string list \<Rightarrow> js_string list \<Rightarrow> bool \<Rightarrow> js_string list" where
  "replaceTokenLoop token replacements [] inserted = (if inserted then [] else replacements)"
| "replaceTokenLoop token replacements (item # items) inserted =
     (if item = token then
        (if inserted then [] else replacements) @ replaceTokenLoop token replacements items True
      else if item \<in> set replacements then replaceTokenLoop token replacements items inserted
      else item # replaceTokenLoop token replacements items inserted)"

definition replaceSidebarItemToken ::
  "js_string list \<Rightarrow> js_string \<Rightarrow> js_string list \<Rightarrow> js_string list" where
  "replaceSidebarItemToken order token replacements =
     replaceTokenLoop token (js_uniq (filter (\<lambda>t. t \<noteq> []) replacements)) order False"

section \<open>Owners and ancestors\<close>

definition getConnectionOwnerTagId :: "js_string \<Rightarrow> connectionTag list \<Rightarrow> js_string option" where
  "getConnectionOwnerTagId connectionId tags =
     map_option ct_id (find (\<lambda>t. connectionId \<in> set (ct_connectionIds t)) tags)"

function rootTagLoop :: "connectionTag list \<Rightarrow> js_string \<Rightarrow> js_string list \<Rightarrow> js_string option" where
  "rootTagLoop tags currentId visited =
     (case tagWithId tags currentId of
        None \<Rightarrow> None
      | Some current \<Rightarrow>
          if currentId \<in> set visited then None
          else if ct_parentTagId current = [] then Some currentId
          else rootTagLoop tags (ct_parentTagId current) (currentId # visited))"
  by pat_completeness auto
termination
proof (relation "measure (\<lambda>(tags, c, visited). card (tag_ids tags - set visited))", goal_cases)
  case (2 tags c visited t)
  then have "card (tag_ids tags - set (c # visited)) < card (tag_ids tags - set visited)"
    using tagWithId_Some [of tags c t] by (intro psubset_card_mono) auto
  then show ?case by simp
qed simp

declare rootTagLoop.simps [simp del]

definition getRootConnectionTagId :: "js_string option \<Rightarrow> connectionTag list \<Rightarrow> js_string option" where
  "getRootConnectionTagId tagId tags =
     (case tagId of None \<Rightarrow> None | Some i \<Rightarrow> if i = [] then None else rootTagLoop tags i [])"

text \<open>
  \<open>tagById.get(currentId)?.parentTagId\<close> ends the loop for an unknown id, as does the empty parent.
\<close>

function selfOrDescendantLoop ::
  "connectionTag list \<Rightarrow> js_string \<Rightarrow> js_string \<Rightarrow> js_string list \<Rightarrow> bool" where
  "selfOrDescendantLoop tags tagId currentId visited \<longleftrightarrow>
     (if currentId = [] \<or> currentId \<in> set visited then False
      else if currentId = tagId then True
      else (case tagWithId tags currentId of
              None \<Rightarrow> False
            | Some current \<Rightarrow>
                selfOrDescendantLoop tags tagId (ct_parentTagId current) (currentId # visited)))"
  by pat_completeness auto
termination
proof (relation "measure (\<lambda>(tags, a, c, visited). card (tag_ids tags - set visited))", goal_cases)
  case (2 tags a c visited t)
  then have "card (tag_ids tags - set (c # visited)) < card (tag_ids tags - set visited)"
    using tagWithId_Some [of tags c t] by (intro psubset_card_mono) auto
  then show ?case by simp
qed simp

declare selfOrDescendantLoop.simps [simp del]

definition isConnectionTagSelfOrDescendant :: "js_string \<Rightarrow> js_string \<Rightarrow> connectionTag list \<Rightarrow> bool" where
  "isConnectionTagSelfOrDescendant tagId candidateParentTagId tags \<longleftrightarrow>
     selfOrDescendantLoop tags tagId candidateParentTagId []"

section \<open>Moving a group and a connection\<close>

definition moveConnectionTagInTree ::
  "(nat \<Rightarrow> js_string) \<Rightarrow> connectionTag list \<Rightarrow> js_string list \<Rightarrow> savedConnection list \<Rightarrow> js_string
     \<Rightarrow> js_string option \<Rightarrow> js_string option \<Rightarrow> bool \<Rightarrow> tagTree option" where
  "moveConnectionTagInTree fallbackName tags sidebarRootOrder connections tagId targetParentTagId targetToken
     insertBefore =
     (let normalized = normalizeConnectionTagTreeState fallbackName tags sidebarRootOrder connections;
          ntags = tt_connectionTags normalized;
          parent = (case targetParentTagId of None \<Rightarrow> [] | Some p \<Rightarrow> js_trim p);
          token = buildSidebarRootTagToken tagId in
      if tagWithId ntags tagId = None then None
      else if parent \<noteq> [] \<and> (tagWithId ntags parent = None \<or> isConnectionTagSelfOrDescendant tagId parent ntags)
      then None
      else
        (let moved = map (\<lambda>t. if ct_id t = tagId then t\<lparr>ct_parentTagId := parent\<rparr> else t)
               (removeSidebarItemTokenFromTagOrders ntags token);
             rootOrder = filter (\<lambda>t. t \<noteq> token) (tt_sidebarRootOrder normalized);
             nextTags = normalizeConnectionTagTree fallbackName moved in
         Some (if parent \<noteq> [] then
             normalizeConnectionTagTreeState fallbackName
               (setConnectionTagChildOrder nextTags parent
                  (placeSidebarItemToken (resolveConnectionTagChildOrder parent nextTags) token targetToken
                     insertBefore))
               rootOrder connections
           else
             normalizeConnectionTagTreeState fallbackName nextTags
               (placeSidebarItemToken (resolveSidebarRootOrderTokens rootOrder nextTags connections) token
                  targetToken insertBefore)
               connections)))"

definition moveConnectionInTree ::
  "(nat \<Rightarrow> js_string) \<Rightarrow> connectionTag list \<Rightarrow> js_string list \<Rightarrow> savedConnection list \<Rightarrow> js_string
     \<Rightarrow> js_string option \<Rightarrow> js_string option \<Rightarrow> bool \<Rightarrow> tagTree option" where
  "moveConnectionInTree fallbackName tags sidebarRootOrder connections connectionId targetTagId targetToken
     insertBefore =
     (let normalized = normalizeConnectionTagTreeState fallbackName tags sidebarRootOrder connections;
          ntags = tt_connectionTags normalized;
          target = (case targetTagId of None \<Rightarrow> [] | Some p \<Rightarrow> js_trim p);
          sourceRootTagId = getRootConnectionTagId (getConnectionOwnerTagId connectionId ntags) ntags;
          token = buildSidebarRootConnectionToken connectionId in
      if connectionId \<notin> cn_id ` set connections then None
      else if target \<noteq> [] \<and> target \<notin> tag_ids ntags then None
      else
        (let removed = map (\<lambda>t. t\<lparr>ct_connectionIds := filter (\<lambda>c. c \<noteq> connectionId) (ct_connectionIds t)\<rparr>)
               (removeSidebarItemTokenFromTagOrders ntags token);
             rootOrder = filter (\<lambda>t. t \<noteq> token) (tt_sidebarRootOrder normalized) in
         Some (if target \<noteq> [] then
             (let nextTags = normalizeConnectionTagTree fallbackName
                    (map (\<lambda>t. if ct_id t = target
                             then t\<lparr>ct_connectionIds := ct_connectionIds t @ [connectionId]\<rparr> else t) removed) in
              normalizeConnectionTagTreeState fallbackName
                (setConnectionTagChildOrder nextTags target
                   (placeSidebarItemToken (resolveConnectionTagChildOrder target nextTags) token targetToken
                      insertBefore))
                rootOrder connections)
           else
             (let nextTags = normalizeConnectionTagTree fallbackName removed;
                  resolved = resolveSidebarRootOrderTokens rootOrder nextTags connections in
              normalizeConnectionTagTreeState fallbackName nextTags
                (if targetToken \<noteq> None \<and> targetToken \<noteq> Some []
                 then placeSidebarItemToken resolved token targetToken insertBefore
                 else (case sourceRootTagId of
                         Some i \<Rightarrow> insertSidebarRootTokenAfter resolved token (buildSidebarRootTagToken i)
                       | None \<Rightarrow> insertSidebarRootTokenBeforeUngrouped resolved token))
                connections))))"

end
