(* ===== verification/ConnectionTreeStore.thy ===== *)
theory ConnectionTreeStore
  imports ConnectionTags
begin

text \<open>
  The operations of the store (\<open>src/frontend/src/store.ts\<close>) on the connections and their groups, one
  definition per action, on the part of the state they share, and the steps they make.

  What comes from outside is an argument: the catalogue text of an unnamed group, the comparisons of the
  collation (\<open>localeCompare\<close>), the fresh identifiers, the clock. A saved connection arrives as
  \<open>sanitizeSavedConnection\<close> made it; \<open>None\<close> when that function rejected it.
\<close>

section \<open>Reading persisted groups\<close>

record rawTag =
  rt_id :: rawValue
  rt_name :: rawValue
  rt_createdAt :: "int option"
  rt_parentTagId :: rawValue
  rt_connectionIds :: rawValue
  rt_childOrder :: rawValue
  rt_sortMode :: rawValue
  rt_connectionSortMode :: rawValue

definition parseSortMode :: "js_string \<Rightarrow> sortMode option" where
  "parseSortMode s =
     (if s = js ''manual'' then Some SortManual
      else if s = js ''name'' then Some SortName
      else if s = js ''createdAt'' then Some SortCreatedAt
      else None)"

text \<open>\<open>None\<close> is an entry that is no object.\<close>

fun readRawTags :: "(nat \<Rightarrow> js_string) \<Rightarrow> rawTag option list \<Rightarrow> nat \<Rightarrow> js_string list \<Rightarrow> connectionTag list" where
  "readRawTags fallbackName [] index seen = []"
| "readRawTags fallbackName (None # entries) index seen = readRawTags fallbackName entries (index + 1) seen"
| "readRawTags fallbackName (Some raw # entries) index seen =
     (let tagN = js ''tag-'' @ nat_text (index + 1);
          i = js_or (toTrimmedString_store (rt_id raw) tagN) tagN in
      if i \<in> set seen then readRawTags fallbackName entries (index + 1) seen
      else
        \<lparr>ct_id = i,
         ct_name = js_or (toTrimmedString_store (rt_name raw) (fallbackName index)) (fallbackName index),
         ct_createdAt = positiveTime (rt_createdAt raw),
         ct_parentTagId = toTrimmedString_store (rt_parentTagId raw) [],
         ct_connectionIds = sanitizeIds 256 (rawEntries (rt_connectionIds raw)),
         ct_childOrder = sanitizeSidebarItemOrder (rawEntries (rt_childOrder raw)),
         ct_sortMode = Some SortManual,
         ct_connectionSortMode = Some (displaySortMode
           (parseSortMode (toTrimmedString_store (rt_connectionSortMode raw) []))
           (parseSortMode (toTrimmedString_store (rt_sortMode raw) [])))\<rparr>
        # readRawTags fallbackName entries (index + 1) (i # seen))"

text \<open>\<open>None\<close> is a value that is no array.\<close>

definition sanitizeConnectionTags ::
  "(nat \<Rightarrow> js_string) \<Rightarrow> rawTag option list option \<Rightarrow> connectionTag list" where
  "sanitizeConnectionTags fallbackName v =
     (case v of None \<Rightarrow> []
      | Some entries \<Rightarrow> normalizeConnectionTagTree fallbackName (readRawTags fallbackName entries 0 []))"

section \<open>The state\<close>

record treeEnv =
  te_fallbackName :: "nat \<Rightarrow> js_string"
  te_sameName :: "js_string \<Rightarrow> js_string \<Rightarrow> bool"
  te_compareNames :: "js_string \<Rightarrow> js_string \<Rightarrow> int"
  te_compareIds :: "js_string \<Rightarrow> js_string \<Rightarrow> int"

record treeState =
  ts_connections :: "savedConnection list"
  ts_connectionTags :: "connectionTag list"
  ts_sidebarRootOrder :: "js_string list"
  ts_rootSortMode :: sortMode
  ts_rootConnectionSortMode :: sortMode

definition withTree :: "tagTree \<Rightarrow> treeState \<Rightarrow> treeState" where
  "withTree t s = s\<lparr>ts_connectionTags := tt_connectionTags t, ts_sidebarRootOrder := tt_sidebarRootOrder t\<rparr>"

definition normalizedTree :: "treeEnv \<Rightarrow> treeState \<Rightarrow> tagTree" where
  "normalizedTree env s =
     normalizeConnectionTagTreeState (te_fallbackName env) (ts_connectionTags s) (ts_sidebarRootOrder s)
       (ts_connections s)"

text \<open>Also the state after \<open>create\<close>; \<open>rootConnectionSortMode\<close> starts as \<open>createdAt\<close>.\<close>

definition initialTreeState :: treeState where
  "initialTreeState = \<lparr>ts_connections = [], ts_connectionTags = [], ts_sidebarRootOrder = [],
     ts_rootSortMode = SortManual, ts_rootConnectionSortMode = SortCreatedAt\<rparr>"

section \<open>Sorting the connections of a group\<close>

definition lastIndexOf :: "js_string list \<Rightarrow> js_string \<Rightarrow> nat option" where
  "lastIndexOf ids i = find (\<lambda>k. ids ! k = i) (rev [0..<length ids])"

definition stableIndex :: "js_string list \<Rightarrow> js_string \<Rightarrow> int" where
  "stableIndex ids i = (case lastIndexOf ids i of None \<Rightarrow> 0 | Some k \<Rightarrow> int k)"

definition connectionWithId :: "savedConnection list \<Rightarrow> js_string \<Rightarrow> savedConnection option" where
  "connectionWithId connections i = find (\<lambda>c. cn_id c = i) (rev connections)"

definition int_or :: "int \<Rightarrow> int \<Rightarrow> int" where
  "int_or a b = (if a = 0 then b else a)"

definition timeOrZero :: "savedConnection \<Rightarrow> int" where
  "timeOrZero c = (case cn_createdAt c of None \<Rightarrow> 0 | Some n \<Rightarrow> n)"

definition compareForDisplay ::
  "treeEnv \<Rightarrow> js_string list \<Rightarrow> savedConnection list \<Rightarrow> sortMode \<Rightarrow> js_string \<Rightarrow> js_string \<Rightarrow> int" where
  "compareForDisplay env ids connections mode left right =
     (let byIndex = stableIndex ids left - stableIndex ids right in
      case (connectionWithId connections left, connectionWithId connections right) of
        (Some a, Some b) \<Rightarrow>
          int_or (if mode = SortCreatedAt then timeOrZero b - timeOrZero a
                  else te_compareNames env (cn_name a) (cn_name b))
            (int_or byIndex (te_compareIds env left right))
      | _ \<Rightarrow> byIndex)"

definition sortConnectionIdsForDisplay ::
  "treeEnv \<Rightarrow> js_string list \<Rightarrow> savedConnection list \<Rightarrow> sortMode \<Rightarrow> js_string list" where
  "sortConnectionIdsForDisplay env ids connections mode =
     (if mode = SortManual then ids else js_sort (compareForDisplay env ids connections mode) ids)"

text \<open>The connection tokens are replaced in order by the wanted ones, the others stay.\<close>

fun applyConnectionOrder :: "js_string list \<Rightarrow> js_string list \<Rightarrow> js_string list" where
  "applyConnectionOrder [] ordered = []"
| "applyConnectionOrder (token # tokens) ordered =
     (if isSidebarRootConnectionToken token then
        (case ordered of
           [] \<Rightarrow> token # applyConnectionOrder tokens []
         | t # ts \<Rightarrow> js_or t token # applyConnectionOrder tokens ts)
      else token # applyConnectionOrder tokens ordered)"

definition applyConnectionOrderToMixedTokens :: "js_string list \<Rightarrow> js_string list \<Rightarrow> js_string list" where
  "applyConnectionOrderToMixedTokens tokens orderedConnectionIds =
     applyConnectionOrder tokens (map buildSidebarRootConnectionToken orderedConnectionIds)"

text \<open>What the user saw becomes the manual order of a group, or of the root.\<close>

definition materializeManualConnectionOrder ::
  "treeEnv \<Rightarrow> connectionTag list \<Rightarrow> js_string list \<Rightarrow> savedConnection list \<Rightarrow> sortMode \<Rightarrow> js_string option
     \<Rightarrow> tagTree \<times> sortMode" where
  "materializeManualConnectionOrder env tags sidebarRootOrder connections rootConnectionSortMode targetTagId =
     (let normalized = normalizeConnectionTagTreeState (te_fallbackName env) tags sidebarRootOrder connections;
          ntags = tt_connectionTags normalized;
          targetId = (case targetTagId of None \<Rightarrow> [] | Some i \<Rightarrow> js_trim i) in
      if targetId \<noteq> [] then
        (case find (\<lambda>t. ct_id t = targetId) ntags of
           None \<Rightarrow> (normalized, rootConnectionSortMode)
         | Some target \<Rightarrow>
             (let current = resolveConnectionTagChildOrder (ct_id target) ntags;
                  mode = (case ct_connectionSortMode target of None \<Rightarrow> SortCreatedAt | Some m \<Rightarrow> m);
                  ordered = (if mode = SortManual then connectionIdsFromMixedTokens current
                             else sortConnectionIdsForDisplay env (ct_connectionIds target) connections mode) in
              (normalized\<lparr>tt_connectionTags := map (\<lambda>t. if ct_id t = ct_id target
                 then t\<lparr>ct_connectionIds := ordered,
                        ct_childOrder := applyConnectionOrderToMixedTokens current ordered,
                        ct_connectionSortMode := Some SortManual\<rparr>
                 else t) ntags\<rparr>, rootConnectionSortMode)))
      else
        (let grouped = concat (map ct_connectionIds ntags);
             rootIds = filter (\<lambda>c. c \<notin> set grouped) (map cn_id connections);
             current = resolveSidebarRootOrderTokens (tt_sidebarRootOrder normalized) ntags connections;
             ordered = (if rootConnectionSortMode = SortManual then connectionIdsFromMixedTokens current
                        else sortConnectionIdsForDisplay env rootIds connections rootConnectionSortMode) in
         (normalized\<lparr>tt_sidebarRootOrder := applyConnectionOrderToMixedTokens current ordered\<rparr>, SortManual)))"

definition compareByRootOrder :: "js_string list \<Rightarrow> savedConnection \<Rightarrow> savedConnection \<Rightarrow> int" where
  "compareByRootOrder rootOrder left right =
     (let place = (\<lambda>c. find (\<lambda>k. isSidebarRootConnectionToken (rootOrder ! k)
                         \<and> getSidebarConnectionIdFromToken (rootOrder ! k) = cn_id c)
                      (rev [0..<length rootOrder])) in
      case (place left, place right) of
        (Some i, Some j) \<Rightarrow> int i - int j
      | (Some i, None) \<Rightarrow> - 1
      | (None, Some j) \<Rightarrow> 1
      | (None, None) \<Rightarrow> 0)"

definition orderUngroupedConnectionsBySidebarRootOrder ::
  "savedConnection list \<Rightarrow> connectionTag list \<Rightarrow> js_string list \<Rightarrow> savedConnection list" where
  "orderUngroupedConnectionsBySidebarRootOrder connections tags sidebarRootOrder =
     js_sort (compareByRootOrder (resolveSidebarRootOrderTokens sidebarRootOrder tags connections)) connections"

section \<open>Connections\<close>

definition addConnection :: "savedConnection option \<Rightarrow> treeState \<Rightarrow> treeState" where
  "addConnection sanitized s =
     (case sanitized of None \<Rightarrow> s | Some c \<Rightarrow> s\<lparr>ts_connections := ts_connections s @ [c]\<rparr>)"

definition updateConnection :: "js_string \<Rightarrow> savedConnection option \<Rightarrow> treeState \<Rightarrow> treeState" where
  "updateConnection i sanitized s =
     (case sanitized of None \<Rightarrow> s
      | Some c \<Rightarrow> s\<lparr>ts_connections := map (\<lambda>x. if cn_id x = i then c else x) (ts_connections s)\<rparr>)"

definition removeConnection :: "treeEnv \<Rightarrow> js_string \<Rightarrow> treeState \<Rightarrow> treeState" where
  "removeConnection env i s =
     (let nextConnections = filter (\<lambda>c. cn_id c \<noteq> i) (ts_connections s);
          token = buildSidebarRootConnectionToken i;
          nextTags = map (\<lambda>t. t\<lparr>ct_connectionIds := filter (\<lambda>c. c \<noteq> i) (ct_connectionIds t),
                                ct_childOrder := filter (\<lambda>x. x \<noteq> token)
                                  (sanitizeSidebarItemOrder (ct_childOrder t))\<rparr>) (ts_connectionTags s) in
      withTree (normalizeConnectionTagTreeState (te_fallbackName env) nextTags
          (filter (\<lambda>t. t \<noteq> token) (ts_sidebarRootOrder s)) nextConnections)
        (s\<lparr>ts_connections := nextConnections\<rparr>))"

definition replaceConnections :: "treeEnv \<Rightarrow> savedConnection list \<Rightarrow> treeState \<Rightarrow> treeState" where
  "replaceConnections env sanitized s =
     withTree (normalizeConnectionTagTreeState (te_fallbackName env) (ts_connectionTags s)
        (ts_sidebarRootOrder s) sanitized) (s\<lparr>ts_connections := sanitized\<rparr>)"

definition replaceConnectionSidebarLayout ::
  "treeEnv \<Rightarrow> rawTag option list option \<Rightarrow> rawValue \<Rightarrow> sortMode option \<Rightarrow> sortMode option
     \<Rightarrow> treeState \<Rightarrow> treeState" where
  "replaceConnectionSidebarLayout env tags rootOrder rootSortMode rootConnectionSortMode s =
     (withTree (normalizeConnectionTagTreeState (te_fallbackName env)
          (sanitizeConnectionTags (te_fallbackName env) tags)
          (sanitizeSidebarItemOrder (rawEntries rootOrder)) (ts_connections s)) s)
     \<lparr>ts_rootSortMode := SortManual,
      ts_rootConnectionSortMode := displaySortMode rootConnectionSortMode rootSortMode\<rparr>"

definition setConnectionDisplaySortMode ::
  "treeEnv \<Rightarrow> js_string option \<Rightarrow> sortMode option \<Rightarrow> treeState \<Rightarrow> treeState" where
  "setConnectionDisplaySortMode env tagId mode s =
     (let safeMode = (case mode of Some SortManual \<Rightarrow> SortManual | Some SortName \<Rightarrow> SortName
                      | _ \<Rightarrow> SortCreatedAt) in
      if safeMode = SortManual then
        (case materializeManualConnectionOrder env (ts_connectionTags s) (ts_sidebarRootOrder s)
                (ts_connections s) (ts_rootConnectionSortMode s) tagId of
           (tree, rootMode) \<Rightarrow> (withTree tree s)\<lparr>ts_rootConnectionSortMode := rootMode\<rparr>)
      else if tagId = None \<or> tagId = Some [] then s\<lparr>ts_rootConnectionSortMode := safeMode\<rparr>
      else s\<lparr>ts_connectionTags := map (\<lambda>t. if Some (ct_id t) = tagId
               then t\<lparr>ct_connectionSortMode := Some safeMode\<rparr> else t) (ts_connectionTags s)\<rparr>)"

section \<open>Groups\<close>

definition uniqueSiblingName ::
  "treeEnv \<Rightarrow> js_string \<Rightarrow> js_string \<Rightarrow> js_string \<Rightarrow> connectionTag list \<Rightarrow> bool" where
  "uniqueSiblingName env except parent name tags \<longleftrightarrow>
     \<not> list_ex (\<lambda>c. ct_id c \<noteq> except \<and> ct_parentTagId c = parent
                  \<and> te_sameName env (js_trim (ct_name c)) (js_trim name)) tags"

text \<open>The requested connections leave their groups.\<close>

definition withoutConnections :: "js_string list \<Rightarrow> connectionTag \<Rightarrow> connectionTag" where
  "withoutConnections ids t =
     t\<lparr>ct_connectionIds := filter (\<lambda>c. c \<notin> set ids) (ct_connectionIds t),
       ct_childOrder := filter (\<lambda>x. x \<notin> set (map buildSidebarRootConnectionToken ids))
         (sanitizeSidebarItemOrder (ct_childOrder t))\<rparr>"

definition addConnectionTag :: "treeEnv \<Rightarrow> int \<Rightarrow> connectionTag \<Rightarrow> treeState \<Rightarrow> treeState" where
  "addConnectionTag env now tag s =
     (let normalized = normalizedTree env s; ntags = tt_connectionTags normalized;
          tagId = js_trim (ct_id tag); parent = js_trim (ct_parentTagId tag);
          name = js_or (js_trim (ct_name tag)) (te_fallbackName env (length ntags));
          direct = sanitizeIds 256 (ct_connectionIds tag) in
      if tagId = [] \<or> tagId \<in> tag_ids ntags \<or> \<not> uniqueSiblingName env [] parent name ntags
      then withTree normalized s
      else
        (let nextTags = normalizeConnectionTagTree (te_fallbackName env)
               (map (withoutConnections direct) ntags @
                [\<lparr>ct_id = tagId, ct_name = name,
                  ct_createdAt = Some (case positiveTime (ct_createdAt tag) of None \<Rightarrow> now | Some n \<Rightarrow> n),
                  ct_parentTagId = parent, ct_connectionIds = direct,
                  ct_childOrder = sanitizeSidebarItemOrder (ct_childOrder tag),
                  ct_sortMode = None, ct_connectionSortMode = None\<rparr>]);
             token = buildSidebarRootTagToken tagId;
             nested = (case find (\<lambda>t. ct_id t = tagId) nextTags of None \<Rightarrow> False
                       | Some added \<Rightarrow> ct_parentTagId added \<noteq> []);
             rootOrder = (if nested then tt_sidebarRootOrder normalized
               else insertSidebarRootTokenBeforeUngrouped
                 (filter (\<lambda>t. t \<noteq> token)
                   (resolveSidebarRootOrderTokens (tt_sidebarRootOrder normalized) nextTags (ts_connections s)))
                 token) in
         withTree (normalizeConnectionTagTreeState (te_fallbackName env) nextTags rootOrder (ts_connections s)) s))"

text \<open>
  \<open>hasParent\<close> and \<open>hasChildOrder\<close> tell whether the update has the property \<open>parentTagId\<close> and \<open>childOrder\<close>.
\<close>

definition updateConnectionTag ::
  "treeEnv \<Rightarrow> bool \<Rightarrow> bool \<Rightarrow> connectionTag \<Rightarrow> treeState \<Rightarrow> treeState" where
  "updateConnectionTag env hasParent hasChildOrder tag s =
     (let normalized = normalizedTree env s; ntags = tt_connectionTags normalized in
      case find (\<lambda>t. ct_id t = ct_id tag) ntags of
        None \<Rightarrow> withTree normalized s
      | Some existing \<Rightarrow>
          (let requested = sanitizeIds 256 (ct_connectionIds tag);
               parent = (if hasParent then js_trim (ct_parentTagId tag) else ct_parentTagId existing);
               name = js_or (js_trim (ct_name tag)) (ct_name existing) in
           if \<not> uniqueSiblingName env (ct_id tag) parent name ntags then withTree normalized s
           else
             (let nextTags = normalizeConnectionTagTree (te_fallbackName env)
                    (map (\<lambda>t. if ct_id t = ct_id tag
                        then t\<lparr>ct_name := name, ct_connectionIds := requested,
                               ct_childOrder := (if hasChildOrder then sanitizeSidebarItemOrder (ct_childOrder tag)
                                                 else ct_childOrder t)\<rparr>
                        else withoutConnections requested t) ntags);
                  moved = (if parent \<noteq> ct_parentTagId existing
                           then moveConnectionTagInTree (te_fallbackName env) nextTags
                                  (tt_sidebarRootOrder normalized) (ts_connections s) (ct_id tag)
                                  (if parent = [] then None else Some parent) None False
                           else None) in
              withTree (case moved of Some tree \<Rightarrow> tree
                        | None \<Rightarrow> normalizeConnectionTagTreeState (te_fallbackName env) nextTags
                                    (tt_sidebarRootOrder normalized) (ts_connections s)) s)))"

text \<open>The children of a removed group take its place.\<close>

definition removeConnectionTag :: "treeEnv \<Rightarrow> js_string \<Rightarrow> treeState \<Rightarrow> treeState" where
  "removeConnectionTag env i s =
     (let normalized = normalizedTree env s; ntags = tt_connectionTags normalized in
      case find (\<lambda>t. ct_id t = i) ntags of
        None \<Rightarrow> withTree normalized s
      | Some removed \<Rightarrow>
          (let token = buildSidebarRootTagToken i;
               promoted = resolveConnectionTagChildOrder i ntags;
               parent = ct_parentTagId removed;
               rest = map (\<lambda>t. t\<lparr>ct_parentTagId := (if ct_parentTagId t = i then parent else ct_parentTagId t),
                                 ct_connectionIds := (if parent \<noteq> [] \<and> ct_id t = parent
                                   then ct_connectionIds t @ ct_connectionIds removed else ct_connectionIds t)\<rparr>)
                        (filter (\<lambda>t. ct_id t \<noteq> i) ntags) in
           withTree (if parent \<noteq> [] then
               normalizeConnectionTagTreeState (te_fallbackName env)
                 (setConnectionTagChildOrder rest parent
                    (replaceSidebarItemToken (resolveConnectionTagChildOrder parent ntags) token promoted))
                 (tt_sidebarRootOrder normalized) (ts_connections s)
             else
               normalizeConnectionTagTreeState (te_fallbackName env) rest
                 (replaceSidebarItemToken (tt_sidebarRootOrder normalized) token promoted) (ts_connections s)) s))"

text \<open>The search for the groups below a group; the top of the stack comes first.\<close>

function removedLoop :: "connectionTag list \<Rightarrow> js_string list \<Rightarrow> js_string list \<Rightarrow> js_string list" where
  "removedLoop tags pending removedIds =
     (case pending of
        [] \<Rightarrow> removedIds
      | current # rest \<Rightarrow>
          if current = [] \<or> current \<in> set removedIds then removedLoop tags rest removedIds
          else removedLoop tags
                 (rev (map ct_id (filter (\<lambda>t. ct_parentTagId t = current) tags)) @ rest) (current # removedIds))"
  by pat_completeness auto
termination
proof (relation "(\<lambda>(tags, pending, removed). card (tag_ids tags \<union> set pending - set removed))
    <*mlex*> measure (\<lambda>(tags, pending, removed). length pending)", goal_cases)
  case 1
  show ?case by (simp add: wf_mlex)
next
  case (2 tags pending removed current rest)
  then have "card (tag_ids tags \<union> set rest - set removed) \<le> card (tag_ids tags \<union> set pending - set removed)"
    by (intro card_mono) auto
  with 2 show ?case by (auto simp: mlex_prod_def)
next
  case (3 tags pending removed current rest)
  let ?pushed = "rev (map ct_id (filter (\<lambda>t. ct_parentTagId t = current) tags)) @ rest"
  have "card (tag_ids tags \<union> set ?pushed - set (current # removed))
      < card (tag_ids tags \<union> set pending - set removed)"
    using 3 by (intro psubset_card_mono) auto
  then show ?case by (auto simp: mlex_prod_def)
qed

declare removedLoop.simps [simp del]

definition removeConnectionTagTree :: "treeEnv \<Rightarrow> js_string \<Rightarrow> treeState \<Rightarrow> treeState" where
  "removeConnectionTagTree env i s =
     (let normalized = normalizedTree env s; ntags = tt_connectionTags normalized;
          removedIds = removedLoop ntags [i] [] in
      if i \<notin> set removedIds then withTree normalized s
      else withTree (normalizeConnectionTagTreeState (te_fallbackName env)
          (filter (\<lambda>t. ct_id t \<notin> set removedIds) ntags)
          (filter (\<lambda>t. t \<notin> set (map buildSidebarRootTagToken removedIds)) (tt_sidebarRootOrder normalized))
          (ts_connections s)) s)"

section \<open>Moving and reordering\<close>

definition moveConnectionsToTag :: "treeEnv \<Rightarrow> js_string list \<Rightarrow> js_string option \<Rightarrow> treeState \<Rightarrow> treeState" where
  "moveConnectionsToTag env ids targetTagId s =
     (let selected = js_uniq (filter (\<lambda>i. i \<in> cn_id ` set (ts_connections s)) ids);
          toRoot = (targetTagId = None \<or> targetTagId = Some []) in
      if selected = [] \<or> (\<not> toRoot \<and> targetTagId \<notin> Some ` tag_ids (ts_connectionTags s)) then s
      else fold (\<lambda>i s. case moveConnectionInTree (te_fallbackName env) (ts_connectionTags s)
                             (ts_sidebarRootOrder s) (ts_connections s) i targetTagId None False of
                         None \<Rightarrow> s | Some moved \<Rightarrow> withTree moved s)
             (if toRoot then rev selected else selected) s)"

definition moveConnectionToTag ::
  "treeEnv \<Rightarrow> js_string \<Rightarrow> js_string option \<Rightarrow> js_string option \<Rightarrow> bool \<Rightarrow> treeState \<Rightarrow> treeState" where
  "moveConnectionToTag env connectionId targetTagId targetToken insertBefore s =
     (let anchored = (targetToken \<noteq> None \<and> targetToken \<noteq> Some []);
          base = (if anchored then
                    materializeManualConnectionOrder env (ts_connectionTags s) (ts_sidebarRootOrder s)
                      (ts_connections s) (ts_rootConnectionSortMode s) targetTagId
                  else (\<lparr>tt_connectionTags = ts_connectionTags s, tt_sidebarRootOrder = ts_sidebarRootOrder s\<rparr>,
                        ts_rootConnectionSortMode s)) in
      case moveConnectionInTree (te_fallbackName env) (tt_connectionTags (fst base))
             (tt_sidebarRootOrder (fst base)) (ts_connections s) connectionId targetTagId targetToken
             insertBefore of
        None \<Rightarrow> s
      | Some moved \<Rightarrow> (withTree moved s)\<lparr>ts_rootConnectionSortMode := snd base\<rparr>)"

definition moveConnectionTag ::
  "treeEnv \<Rightarrow> js_string \<Rightarrow> js_string option \<Rightarrow> js_string option \<Rightarrow> bool \<Rightarrow> treeState \<Rightarrow> treeState" where
  "moveConnectionTag env tagId targetParentTagId targetToken insertBefore s =
     (case moveConnectionTagInTree (te_fallbackName env) (ts_connectionTags s) (ts_sidebarRootOrder s)
             (ts_connections s) tagId targetParentTagId targetToken insertBefore of
        None \<Rightarrow> s | Some moved \<Rightarrow> withTree moved s)"

definition reorderMode :: "js_string option \<Rightarrow> treeState \<Rightarrow> sortMode" where
  "reorderMode targetTagId s =
     (if targetTagId \<noteq> None \<and> targetTagId \<noteq> Some []
      then (case find (\<lambda>t. Some (ct_id t) = targetTagId) (ts_connectionTags s) of
              None \<Rightarrow> SortManual
            | Some t \<Rightarrow> (case ct_sortMode t of None \<Rightarrow> SortManual | Some m \<Rightarrow> m))
      else ts_rootSortMode s)"

definition reorderConnections ::
  "treeEnv \<Rightarrow> js_string \<Rightarrow> js_string \<Rightarrow> js_string option \<Rightarrow> bool \<Rightarrow> treeState \<Rightarrow> treeState" where
  "reorderConnections env connectionId targetConnectionId targetTagId insertBefore s =
     (if reorderMode targetTagId s \<noteq> SortManual then s
      else if connectionId = [] \<or> targetConnectionId = [] \<or> connectionId = targetConnectionId
              \<or> targetConnectionId \<notin> cn_id ` set (ts_connections s) then s
      else
        (case moveConnectionInTree (te_fallbackName env) (ts_connectionTags s) (ts_sidebarRootOrder s)
                (ts_connections s) connectionId targetTagId
                (Some (buildSidebarRootConnectionToken targetConnectionId)) insertBefore of
           None \<Rightarrow> s
         | Some moved \<Rightarrow>
             (let nextConnections = (if targetTagId \<noteq> None \<and> targetTagId \<noteq> Some [] then ts_connections s
                    else orderUngroupedConnectionsBySidebarRootOrder (ts_connections s)
                           (tt_connectionTags moved) (tt_sidebarRootOrder moved)) in
              s\<lparr>ts_connections := nextConnections, ts_connectionTags := tt_connectionTags moved,
                ts_sidebarRootOrder := resolveSidebarRootOrderTokens (tt_sidebarRootOrder moved)
                  (tt_connectionTags moved) nextConnections\<rparr>)))"

definition reorderTags :: "treeEnv \<Rightarrow> js_string list \<Rightarrow> treeState \<Rightarrow> treeState" where
  "reorderTags env tagIds s =
     (let normalized = normalizedTree env s; ntags = tt_connectionTags normalized;
          rootIds = map ct_id (filter (\<lambda>t. ct_parentTagId t = []) ntags);
          requested = js_uniq (map buildSidebarRootTagToken (filter (\<lambda>i. i \<in> set rootIds) tagIds)) in
      withTree (normalizeConnectionTagTreeState (te_fallbackName env) ntags
          (requested
           @ filter (\<lambda>t. isSidebarRootTagToken t \<and> t \<notin> set requested) (tt_sidebarRootOrder normalized)
           @ filter (\<lambda>t. \<not> isSidebarRootTagToken t) (tt_sidebarRootOrder normalized))
          (ts_connections s)) s)"

definition reorderSidebarRoot :: "treeEnv \<Rightarrow> js_string \<Rightarrow> js_string \<Rightarrow> bool \<Rightarrow> treeState \<Rightarrow> treeState" where
  "reorderSidebarRoot env sourceToken targetToken insertBefore s =
     (let normalized = normalizedTree env s in
      withTree (normalizeConnectionTagTreeState (te_fallbackName env) (tt_connectionTags normalized)
          (moveSidebarRootToken (tt_sidebarRootOrder normalized) sourceToken targetToken insertBefore)
          (ts_connections s)) s)"

section \<open>Copying a group with its subgroups\<close>

text \<open>The recursion of \<open>collect\<close>: the groups below a group in depth-first order.\<close>

function collectLoop :: "connectionTag list \<Rightarrow> js_string list \<Rightarrow> js_string list \<Rightarrow> js_string list" where
  "collectLoop tags pending descendants =
     (case pending of
        [] \<Rightarrow> descendants
      | current # rest \<Rightarrow>
          if current \<in> set descendants then collectLoop tags rest descendants
          else collectLoop tags (map ct_id (filter (\<lambda>t. ct_parentTagId t = current) tags) @ rest)
                 (descendants @ [current]))"
  by pat_completeness auto
termination
proof (relation "(\<lambda>(tags, pending, found). card (tag_ids tags \<union> set pending - set found))
    <*mlex*> measure (\<lambda>(tags, pending, found). length pending)", goal_cases)
  case 1
  show ?case by (simp add: wf_mlex)
next
  case (2 tags pending found current rest)
  then have "card (tag_ids tags \<union> set rest - set found) \<le> card (tag_ids tags \<union> set pending - set found)"
    by (intro card_mono) auto
  with 2 show ?case by (auto simp: mlex_prod_def)
next
  case (3 tags pending found current rest)
  let ?pushed = "map ct_id (filter (\<lambda>t. ct_parentTagId t = current) tags) @ rest"
  have "card (tag_ids tags \<union> set ?pushed - set (found @ [current]))
      < card (tag_ids tags \<union> set pending - set found)"
    using 3 by (intro psubset_card_mono) auto
  then show ?case by (auto simp: mlex_prod_def)
qed

declare collectLoop.simps [simp del]

definition copiedIds :: "connectionTag list \<Rightarrow> js_string \<Rightarrow> js_string list" where
  "copiedIds tags i = i # collectLoop tags (map ct_id (filter (\<lambda>t. ct_parentTagId t = i) tags)) []"

text \<open>\<open>idMap\<close>; \<open>uuid k\<close> is the \<open>k\<close>-th fresh identifier.\<close>

definition copyId :: "(nat \<Rightarrow> js_string) \<Rightarrow> js_string list \<Rightarrow> js_string \<Rightarrow> js_string option" where
  "copyId uuid oldIds i = map_option (\<lambda>k. js ''tag-'' @ uuid k) (lastIndexOf oldIds i)"

definition copyTagToken :: "(js_string \<Rightarrow> js_string option) \<Rightarrow> js_string \<Rightarrow> js_string" where
  "copyTagToken idMap token =
     (if prefix (js ''tag:'') token
      then js ''tag:'' @ (case idMap (drop 4 token) of None \<Rightarrow> drop 4 token | Some j \<Rightarrow> j)
      else token)"

definition copyTag :: "(js_string \<Rightarrow> js_string option) \<Rightarrow> int \<Rightarrow> connectionTag \<Rightarrow> connectionTag" where
  "copyTag idMap now t =
     t\<lparr>ct_id := (case idMap (ct_id t) of None \<Rightarrow> [] | Some j \<Rightarrow> j),
       ct_name := ct_name t @ js '' - Copy'',
       ct_parentTagId := (if ct_parentTagId t = [] then []
                          else (case idMap (ct_parentTagId t) of None \<Rightarrow> [] | Some j \<Rightarrow> j)),
       ct_childOrder := map (copyTagToken idMap) (ct_childOrder t),
       ct_sortMode := (case ct_sortMode t of None \<Rightarrow> Some SortManual | Some m \<Rightarrow> Some m),
       ct_createdAt := Some now\<rparr>"

definition insertCopyToken :: "js_string list \<Rightarrow> js_string \<Rightarrow> js_string \<Rightarrow> js_string list" where
  "insertCopyToken order sourceToken newToken =
     (case indexOfToken sourceToken order of
        None \<Rightarrow> insertAt (length order) newToken order
      | Some k \<Rightarrow> insertAt (k + 1) newToken order)"

definition duplicateConnectionTag :: "(nat \<Rightarrow> js_string) \<Rightarrow> int \<Rightarrow> js_string \<Rightarrow> treeState \<Rightarrow> treeState" where
  "duplicateConnectionTag uuid now i s =
     (case find (\<lambda>t. ct_id t = i) (ts_connectionTags s) of
        None \<Rightarrow> s
      | Some source \<Rightarrow>
          (let tags = ts_connectionTags s; oldIds = copiedIds tags i; idMap = copyId uuid oldIds;
               nextTags = tags @ map (copyTag idMap now) (filter (\<lambda>t. ct_id t \<in> set oldIds) tags);
               sourceToken = buildSidebarRootTagToken i;
               newToken = buildSidebarRootTagToken (case idMap i of None \<Rightarrow> [] | Some j \<Rightarrow> j);
               sourceParent = ct_parentTagId source in
           if sourceParent = [] then
             s\<lparr>ts_connectionTags := nextTags,
               ts_sidebarRootOrder := insertCopyToken (ts_sidebarRootOrder s) sourceToken newToken\<rparr>
           else if find (\<lambda>t. ct_id t = sourceParent) nextTags = None then s\<lparr>ts_connectionTags := nextTags\<rparr>
           else
             (let order = resolveConnectionTagChildOrder sourceParent nextTags in
              s\<lparr>ts_connectionTags := setConnectionTagChildOrder nextTags sourceParent
                  (insertCopyToken order sourceToken newToken)\<rparr>)))"

section \<open>Hydration\<close>

text \<open>
  \<open>merge\<close>, which takes the persisted state over at the start: a missing slice is \<open>None\<close>; the tags are
  themselves no array when the inner option is \<open>None\<close>.
\<close>

definition mergeTree ::
  "treeEnv \<Rightarrow> savedConnection list option \<Rightarrow> rawTag option list option option \<Rightarrow> rawValue option
     \<Rightarrow> sortMode option \<Rightarrow> sortMode option \<Rightarrow> treeState \<Rightarrow> treeState" where
  "mergeTree env connections tags rootOrder rootSortMode rootConnectionSortMode s =
     (let persistedTags = map_option (sanitizeConnectionTags (te_fallbackName env)) tags in
      \<lparr>ts_connections = (case connections of None \<Rightarrow> ts_connections s | Some c \<Rightarrow> c),
       ts_connectionTags = (case persistedTags of None \<Rightarrow> ts_connectionTags s | Some t \<Rightarrow> t),
       ts_sidebarRootOrder =
         (case rootOrder of None \<Rightarrow> ts_sidebarRootOrder s
          | Some order \<Rightarrow> resolveHydratedSidebarRootOrderTokens (rawEntries order) persistedTags connections),
       ts_rootSortMode = SortManual,
       ts_rootConnectionSortMode =
         (case rootConnectionSortMode of
            Some m \<Rightarrow> m
          | None \<Rightarrow> (case rootSortMode of Some SortName \<Rightarrow> SortName | Some SortCreatedAt \<Rightarrow> SortCreatedAt
                     | _ \<Rightarrow> ts_rootConnectionSortMode s))\<rparr>)"

section \<open>Steps\<close>

inductive treeStep :: "treeEnv \<Rightarrow> treeState \<Rightarrow> treeState \<Rightarrow> bool" for env where
  step_add: "treeStep env s (addConnection sanitized s)"
| step_update: "treeStep env s (updateConnection i sanitized s)"
| step_remove: "treeStep env s (removeConnection env i s)"
| step_replace: "treeStep env s (replaceConnections env sanitizedList s)"
| step_layout: "treeStep env s (replaceConnectionSidebarLayout env raw rawOrder m1 m2 s)"
| step_mode: "treeStep env s (setConnectionDisplaySortMode env tagId mode s)"
| step_add_tag: "treeStep env s (addConnectionTag env now tag s)"
| step_update_tag: "treeStep env s (updateConnectionTag env hasParent hasChildOrder tag s)"
| step_remove_tag: "treeStep env s (removeConnectionTag env i s)"
| step_remove_tree: "treeStep env s (removeConnectionTagTree env i s)"
| step_move_many: "treeStep env s (moveConnectionsToTag env ids targetTagId s)"
| step_move: "treeStep env s (moveConnectionToTag env connectionId targetTagId token before s)"
| step_move_tag: "treeStep env s (moveConnectionTag env tagId' targetTagId token before s)"
| step_reorder: "treeStep env s (reorderConnections env connectionId target targetTagId before s)"
| step_reorder_tags: "treeStep env s (reorderTags env ids s)"
| step_reorder_root: "treeStep env s (reorderSidebarRoot env source target before s)"
| step_merge: "treeStep env s (mergeTree env connections tags rootOrder m1 m2 s)"

text \<open>What the store can become without the copy of a group.\<close>

inductive treeReachable :: "treeEnv \<Rightarrow> treeState \<Rightarrow> bool" for env where
  tree_initial: "treeReachable env initialTreeState"
| tree_step: "treeReachable env s \<Longrightarrow> treeStep env s s' \<Longrightarrow> treeReachable env s'"

end
