(* ===== verification/ConnectionTagsProps.thy ===== *)
theory ConnectionTagsProps
  imports ConnectionTags ParentForest JsSort
begin

text \<open>
  What normalization makes of any list of groups: a forest in which every connection has one owner and
  every group orders exactly its children; and that it changes nothing else: the well-formed trees are
  its fixed points.
\<close>

section \<open>The parent relation\<close>

definition parent_rel :: "connectionTag list \<Rightarrow> (js_string \<times> js_string) set" where
  "parent_rel tags = {(p, c). p \<noteq> [] \<and> (\<exists>t\<in>set tags. ct_id t = c \<and> ct_parentTagId t = p)}"

definition tag_forest :: "connectionTag list \<Rightarrow> bool" where
  "tag_forest tags \<longleftrightarrow> distinct (map ct_id tags)
     \<and> (\<forall>t\<in>set tags. clean (ct_id t) \<and> (ct_parentTagId t = [] \<or> ct_parentTagId t \<in> tag_ids tags))
     \<and> acyclic (parent_rel tags)"

text \<open>The same before cycles are cut.\<close>

definition known_parents :: "connectionTag list \<Rightarrow> bool" where
  "known_parents tags \<longleftrightarrow> distinct (map ct_id tags)
     \<and> (\<forall>t\<in>set tags. clean (ct_id t) \<and> (ct_parentTagId t = [] \<or> ct_parentTagId t \<in> tag_ids tags))"

lemma tagWithId_distinct:
  assumes "distinct (map ct_id tags)"
  shows "tagWithId tags i = Some t \<longleftrightarrow> t \<in> set tags \<and> ct_id t = i"
proof
  assume t: "t \<in> set tags \<and> ct_id t = i"
  then obtain t' where t': "tagWithId tags i = Some t'"
    using tagWithId_None [of tags i] by (cases "tagWithId tags i") auto
  with t tagWithId_Some [OF t'] assms have "t' = t" by (auto simp: distinct_map inj_on_def)
  with t' show "tagWithId tags i = Some t" by simp
qed (rule tagWithId_Some)

lemma find_tag_distinct:
  assumes "distinct (map ct_id tags)"
  shows "find (\<lambda>c. ct_id c = i) tags = Some t \<longleftrightarrow> t \<in> set tags \<and> ct_id t = i"
  using assms by (induction tags) (auto simp: image_iff)

lemma parent_rel_lookup:
  "distinct (map ct_id tags) \<Longrightarrow>
   (p, c) \<in> parent_rel tags \<longleftrightarrow> p \<noteq> [] \<and> (\<exists>t. tagWithId tags c = Some t \<and> ct_parentTagId t = p)"
  by (auto simp: parent_rel_def tagWithId_distinct)

lemma parent_unique:
  assumes "distinct (map ct_id tags)"
  shows "(p, c) \<in> parent_rel tags \<Longrightarrow> (q, c) \<in> parent_rel tags \<Longrightarrow> p = q"
  using assms by (auto simp: parent_rel_lookup)

lemma map_tags_keep:
  assumes "map ct_id ts = map ct_id us" "map ct_parentTagId ts = map ct_parentTagId us"
  shows "parent_rel ts = parent_rel us" "tag_ids ts = tag_ids us" "known_parents ts = known_parents us"
    "tag_forest ts = tag_forest us"
proof -
  have "map (\<lambda>t. (ct_id t, ct_parentTagId t)) ts = map (\<lambda>t. (ct_id t, ct_parentTagId t)) us"
    using assms by (induction ts us rule: list_induct2') auto
  then have s: "(\<lambda>t. (ct_id t, ct_parentTagId t)) ` set ts = (\<lambda>t. (ct_id t, ct_parentTagId t)) ` set us"
    by (metis set_map)
  have both: "(\<forall>t\<in>set ts. P (ct_id t) (ct_parentTagId t)) = (\<forall>t\<in>set us. P (ct_id t) (ct_parentTagId t))" for P
  proof -
    have "(\<forall>x\<in>(\<lambda>t. (ct_id t, ct_parentTagId t)) ` set ts. P (fst x) (snd x))
        = (\<forall>x\<in>(\<lambda>t. (ct_id t, ct_parentTagId t)) ` set us. P (fst x) (snd x))"
      unfolding s by blast
    then show ?thesis by simp
  qed
  have rel: "parent_rel xs = {(p, c). p \<noteq> [] \<and> (c, p) \<in> (\<lambda>t. (ct_id t, ct_parentTagId t)) ` set xs}" for xs
    by (auto simp: parent_rel_def image_iff)
  show r: "parent_rel ts = parent_rel us" unfolding rel s ..
  show i: "tag_ids ts = tag_ids us" using assms(1) by (metis set_map)
  show "known_parents ts = known_parents us"
    using both [of "\<lambda>i p. clean i \<and> (p = [] \<or> p \<in> tag_ids us)"] by (simp add: known_parents_def assms(1) i)
  show "tag_forest ts = tag_forest us"
    using both [of "\<lambda>i p. clean i \<and> (p = [] \<or> p \<in> tag_ids us)"] by (simp add: tag_forest_def assms(1) i r)
qed

section \<open>Cutting cycles\<close>

lemma ids_promote [simp]: "map ct_id (promoteTags ids tags) = map ct_id tags"
  by (simp add: promoteTags_def)

lemma promote_rel: "parent_rel (promoteTags ids tags) = parent_rel tags - {(p, c). c \<in> set ids}"
  by (auto simp: parent_rel_def promoteTags_def)

lemma promote_known: "known_parents tags \<Longrightarrow> known_parents (promoteTags ids tags)"
proof -
  assume k: "known_parents tags"
  have ids: "tag_ids (promoteTags ids tags) = tag_ids tags"
    by (metis ids_promote set_map)
  show ?thesis using k unfolding known_parents_def ids ids_promote by (auto simp: promoteTags_def)
qed

lemma promote_Nil [simp]: "promoteTags [] tags = tags"
  by (simp add: promoteTags_def)

text \<open>The walk from a group that lies on a cycle finds the cycle, with the group on it.\<close>

lemma cycle_returns:
  assumes d: "distinct (map ct_id tags)" and cycle: "(i, i) \<in> (parent_rel tags)\<^sup>+" and "(x, i) \<in> (parent_rel tags)\<^sup>*"
  shows "(i, x) \<in> (parent_rel tags)\<^sup>+"
  using assms(3)
proof (induction rule: converse_rtrancl_induct)
  case base
  show ?case by (rule cycle)
next
  case (step y z)
  from step.IH obtain w where w: "(i, w) \<in> (parent_rel tags)\<^sup>*" "(w, z) \<in> parent_rel tags"
    by (auto elim: tranclE simp: rtrancl_eq_or_trancl)
  with parent_unique [OF d w(2) step.hyps(1)] have y: "(i, y) \<in> (parent_rel tags)\<^sup>*" by simp
  show ?case
  proof (cases "y = i")
    case True
    then show ?thesis using cycle by simp
  qed (use y in \<open>simp add: rtrancl_eq_or_trancl\<close>)
qed

text \<open>A path: every element is followed by its parent.\<close>

definition upward :: "(js_string \<times> js_string) set \<Rightarrow> js_string list \<Rightarrow> bool" where
  "upward r path \<longleftrightarrow> (\<forall>k. Suc k < length path \<longrightarrow> (path ! Suc k, path ! k) \<in> r)"

lemma upward_snoc:
  "upward r path \<Longrightarrow> (path \<noteq> [] \<Longrightarrow> (c, last path) \<in> r) \<Longrightarrow> upward r (path @ [c])"
  unfolding upward_def
proof (intro allI impI)
  fix k assume u: "\<forall>k. Suc k < length path \<longrightarrow> (path ! Suc k, path ! k) \<in> r"
    and l: "path \<noteq> [] \<Longrightarrow> (c, last path) \<in> r" and k: "Suc k < length (path @ [c])"
  show "((path @ [c]) ! Suc k, (path @ [c]) ! k) \<in> r"
  proof (cases "Suc k < length path")
    case True
    with u show ?thesis by (simp add: nth_append)
  next
    case False
    with k have "k = length path - 1" "path \<noteq> []" "Suc k = length path" by auto
    with l show ?thesis by (simp add: nth_append last_conv_nth)
  qed
qed

lemma upward_closed:
  assumes "upward r path" "\<And>p q c. (p, c) \<in> r \<Longrightarrow> (q, c) \<in> r \<Longrightarrow> p = q"
    and "c \<in> set path" "(c, last path) \<in> r"
    and "(y, z) \<in> r" "z \<in> set (dropWhile (\<lambda>p. p \<noteq> c) path)"
  shows "y \<in> set (dropWhile (\<lambda>p. p \<noteq> c) path)"
proof -
  let ?d = "dropWhile (\<lambda>p. p \<noteq> c) path"
  let ?j = "length (takeWhile (\<lambda>p. p \<noteq> c) path)"
  have d: "?d = drop ?j path" by (rule dropWhile_eq_drop)
  have ne: "?d \<noteq> []" using assms(3) by (auto simp: dropWhile_eq_Nil_conv)
  then have hd: "hd ?d = c" using hd_dropWhile [of "\<lambda>p. p \<noteq> c" path] by auto
  obtain k where k: "k < length ?d" "?d ! k = z" using assms(6) by (auto simp: in_set_conv_nth)
  show ?thesis
  proof (cases "Suc k < length ?d")
    case True
    have "(?d ! Suc k, ?d ! k) \<in> r" using assms(1) True unfolding d upward_def by simp
    then have "y = ?d ! Suc k" using assms(2,5) k(2) by blast
    with True show ?thesis by auto
  next
    case False
    have "?d = drop ?j path" "?d \<noteq> []" using d ne by blast+
    then have "z = last path" using False k by (metis Suc_lessI last_conv_nth diff_Suc_1 last_drop length_drop zero_less_diff drop_eq_Nil linorder_not_le)
    then have "y = c" using assms(2,4,5) by blast
    then show ?thesis using hd ne by (metis list.set_sel(1))
  qed
qed

lemma cycle_found:
  assumes "distinct (map ct_id tags)" "(i, i) \<in> (parent_rel tags)\<^sup>+"
    and "(c, i) \<in> (parent_rel tags)\<^sup>*" "upward (parent_rel tags) path"
    and "path \<noteq> [] \<longrightarrow> (c, last path) \<in> parent_rel tags" "path = [] \<longrightarrow> c = i"
  shows "i \<in> set (tagCycleFrom tags path c)"
  using assms
proof (induction tags path c rule: tagCycleFrom.induct)
  case (1 tags path c)
  note unique = parent_unique [OF 1(2)]
  have below: "(i, c) \<in> (parent_rel tags)\<^sup>+" by (rule cycle_returns [OF 1(2-4)])
  then obtain q where q: "(q, c) \<in> parent_rel tags" by (auto elim: tranclE)
  then obtain t where t: "tagWithId tags c = Some t" "ct_parentTagId t = q" "q \<noteq> []"
    by (auto simp: parent_rel_lookup [OF 1(2)])
  have c: "c \<noteq> []"
  proof
    assume "c = []"
    then have "(c, i) \<notin> (parent_rel tags)\<^sup>+" by (auto dest: tranclD simp: parent_rel_def)
    with 1(4) have "c = i" by (simp add: rtrancl_eq_or_trancl)
    with \<open>(c, i) \<notin> (parent_rel tags)\<^sup>+\<close> 1(3) show False by simp
  qed
  show ?case
  proof (cases "c \<in> set path")
    case True
    then have last: "(c, last path) \<in> parent_rel tags" using 1(6) by auto
    have "(i, c) \<in> (parent_rel tags)\<^sup>*" using below by (rule trancl_into_rtrancl)
    then have "i \<in> set (dropWhile (\<lambda>p. p \<noteq> c) path)"
    proof (induction rule: converse_rtrancl_induct)
      case base
      have ne: "dropWhile (\<lambda>p. p \<noteq> c) path \<noteq> []" using True by (auto simp: dropWhile_eq_Nil_conv)
      then have "hd (dropWhile (\<lambda>p. p \<noteq> c) path) = c" using hd_dropWhile by blast
      with ne show ?case by (metis list.set_sel(1))
    next
      case (step y z)
      show ?case by (rule upward_closed [OF 1(5) unique True last step.hyps(1) step.IH])
    qed
    with True c t show ?thesis by (simp add: tagCycleFrom.simps [of tags path c])
  next
    case False
    have "i \<in> set (tagCycleFrom tags (path @ [c]) q)"
    proof (rule 1(1) [OF c t(1) _ False 1(2,3), unfolded t(2)])
      show "q \<noteq> []" by (rule t(3))
      show "(q, i) \<in> (parent_rel tags)\<^sup>*" using q 1(4) by (rule converse_rtrancl_into_rtrancl)
      show "upward (parent_rel tags) (path @ [c])" using 1(5,6) by (intro upward_snoc) auto
      show "path @ [c] \<noteq> [] \<longrightarrow> (q, last (path @ [c])) \<in> parent_rel tags" using q by simp
    qed simp
    with False c t show ?thesis by (simp add: tagCycleFrom.simps [of tags path c])
  qed
qed

text \<open>Without cycles the walk finds none.\<close>

lemma no_cycle_found:
  assumes "distinct (map ct_id tags)" "acyclic (parent_rel tags)"
    and "\<forall>s\<in>set path. (c, s) \<in> (parent_rel tags)\<^sup>+"
  shows "tagCycleFrom tags path c = []"
  using assms
proof (induction tags path c rule: tagCycleFrom.induct)
  case (1 tags path c)
  have fresh: "c \<notin> set path" using 1(3,4) by (auto simp: acyclic_def)
  show ?case
  proof (cases "c = [] \<or> tagWithId tags c = None")
    case False
    then obtain t where c: "c \<noteq> []" and t: "tagWithId tags c = Some t" by auto
    show ?thesis
    proof (cases "ct_parentTagId t = []")
      case False
      then have r: "(ct_parentTagId t, c) \<in> parent_rel tags" using t by (auto simp: parent_rel_lookup [OF 1(2)])
      have "\<forall>s\<in>set (path @ [c]). (ct_parentTagId t, s) \<in> (parent_rel tags)\<^sup>+"
        using r 1(4) by (auto intro: trancl_into_trancl2)
      from 1(1) [OF c t False fresh 1(2,3) this] show ?thesis
        using c t fresh by (simp add: tagCycleFrom.simps [of tags path c])
    qed (use t in \<open>simp add: tagCycleFrom.simps [of tags path c]\<close>)
  qed (auto simp: tagCycleFrom.simps [of tags path c])
qed

lemma cut_fixed: "distinct (map ct_id tags) \<Longrightarrow> acyclic (parent_rel tags) \<Longrightarrow> cutTagCycle i tags = tags"
  by (simp add: cutTagCycle_def no_cycle_found)

lemma cutTagCycles_fixed:
  assumes "distinct (map ct_id tags)" "acyclic (parent_rel tags)"
  shows "cutTagCycles tags = tags"
proof -
  have "fold cutTagCycle is tags = tags" for "is"
    by (induction "is") (simp_all add: cut_fixed [OF assms])
  then show ?thesis by (simp add: cutTagCycles_def)
qed

definition off_cycle :: "connectionTag list \<Rightarrow> js_string \<Rightarrow> bool" where
  "off_cycle tags i \<longleftrightarrow> (i, i) \<notin> (parent_rel tags)\<^sup>+"

lemma cut_step:
  assumes "known_parents tags"
  shows "known_parents (cutTagCycle i tags)" "map ct_id (cutTagCycle i tags) = map ct_id tags"
    "parent_rel (cutTagCycle i tags) \<subseteq> parent_rel tags" "off_cycle (cutTagCycle i tags) i"
proof -
  have d: "distinct (map ct_id tags)" using assms by (simp add: known_parents_def)
  show "known_parents (cutTagCycle i tags)" "map ct_id (cutTagCycle i tags) = map ct_id tags"
    by (simp_all add: cutTagCycle_def promote_known [OF assms])
  show sub: "parent_rel (cutTagCycle i tags) \<subseteq> parent_rel tags" by (auto simp: cutTagCycle_def promote_rel)
  show "off_cycle (cutTagCycle i tags) i"
    unfolding off_cycle_def
  proof
    assume c: "(i, i) \<in> (parent_rel (cutTagCycle i tags))\<^sup>+"
    then have "(i, i) \<in> (parent_rel tags)\<^sup>+" using sub by (metis trancl_mono)
    then have "i \<in> set (tagCycleFrom tags [] i)"
      by (intro cycle_found [OF d]) (simp_all add: upward_def)
    moreover obtain q where "(q, i) \<in> parent_rel (cutTagCycle i tags)" using c by (auto elim: tranclE)
    ultimately show False by (simp add: cutTagCycle_def promote_rel)
  qed
qed

lemma cut_all:
  assumes "known_parents tags"
  shows "known_parents (fold cutTagCycle is tags) \<and> map ct_id (fold cutTagCycle is tags) = map ct_id tags
    \<and> parent_rel (fold cutTagCycle is tags) \<subseteq> parent_rel tags
    \<and> (\<forall>i\<in>set is. off_cycle (fold cutTagCycle is tags) i)"
proof (induction "is" rule: rev_induct)
  case Nil
  then show ?case using assms by simp
next
  case (snoc i "is")
  let ?ts = "fold cutTagCycle is tags"
  note step = cut_step [OF snoc [THEN conjunct1], of i]
  have "off_cycle (cutTagCycle i ?ts) j" if "off_cycle ?ts j" for j
    using that step(3) unfolding off_cycle_def by (metis trancl_mono)
  with snoc step show ?case by auto
qed

lemma cutTagCycles_forest:
  assumes "known_parents tags"
  shows "tag_forest (cutTagCycles tags) \<and> map ct_id (cutTagCycles tags) = map ct_id tags"
proof -
  let ?c = "cutTagCycles tags"
  have all: "known_parents ?c" "map ct_id ?c = map ct_id tags" "\<forall>i\<in>set (map ct_id tags). off_cycle ?c i"
    using cut_all [OF assms, of "map ct_id tags"] by (simp_all add: cutTagCycles_def)
  have "(i, i) \<notin> (parent_rel ?c)\<^sup>+" for i
  proof
    assume c: "(i, i) \<in> (parent_rel ?c)\<^sup>+"
    then obtain q where "(q, i) \<in> parent_rel ?c" by (auto elim: tranclE)
    then have "i \<in> set (map ct_id ?c)" by (auto simp: parent_rel_def)
    then have "off_cycle ?c i" using all(2,3) by metis
    with c show False by (simp add: off_cycle_def)
  qed
  then show ?thesis using all by (simp add: tag_forest_def known_parents_def acyclic_def)
qed

section \<open>Tokens\<close>

lemma tag_prefixes: "SIDEBAR_ROOT_TAG_TOKEN_PREFIX = js ''tag:''"
  "SIDEBAR_ROOT_CONNECTION_TOKEN_PREFIX = js ''connection:''"
  by (simp_all add: SIDEBAR_ROOT_TAG_TOKEN_PREFIX_def SIDEBAR_ROOT_CONNECTION_TOKEN_PREFIX_def)

lemma connection_token [simp]:
  "isSidebarRootConnectionToken (buildSidebarRootConnectionToken c) \<longleftrightarrow> js_trim c \<noteq> []"
  "\<not> isSidebarRootTagToken (buildSidebarRootConnectionToken c)"
  by (simp_all add: isSidebarRootConnectionToken_def isSidebarRootTagToken_def
      buildSidebarRootConnectionToken_def tag_prefixes)

lemma tag_token [simp]:
  "isSidebarRootTagToken (buildSidebarRootTagToken c) \<longleftrightarrow> js_trim c \<noteq> []"
  "\<not> isSidebarRootConnectionToken (buildSidebarRootTagToken c)"
  by (simp_all add: isSidebarRootConnectionToken_def isSidebarRootTagToken_def
      buildSidebarRootTagToken_def tag_prefixes)

lemma get_connection [simp]: "getSidebarConnectionIdFromToken (buildSidebarRootConnectionToken c) = js_trim c"
  by (cases "js_trim c = []") (simp_all add: getSidebarConnectionIdFromToken_def,
      simp add: buildSidebarRootConnectionToken_def)

lemma connection_token_inverse:
  "isSidebarRootConnectionToken t \<Longrightarrow>
   t = SIDEBAR_ROOT_CONNECTION_TOKEN_PREFIX @ getSidebarConnectionIdFromToken t"
  by (auto simp: getSidebarConnectionIdFromToken_def isSidebarRootConnectionToken_def prefix_def)

lemma tokens_inject [simp]:
  "buildSidebarRootConnectionToken c = buildSidebarRootConnectionToken c' \<longleftrightarrow> js_trim c = js_trim c'"
  "buildSidebarRootTagToken c = buildSidebarRootTagToken c' \<longleftrightarrow> js_trim c = js_trim c'"
  "buildSidebarRootConnectionToken c \<noteq> buildSidebarRootTagToken c'"
  "buildSidebarRootTagToken c' \<noteq> buildSidebarRootConnectionToken c"
  by (simp_all add: buildSidebarRootConnectionToken_def buildSidebarRootTagToken_def tag_prefixes)

lemma tokens_nonempty [simp]: "buildSidebarRootConnectionToken c \<noteq> []" "buildSidebarRootTagToken c \<noteq> []"
  by (simp_all add: buildSidebarRootConnectionToken_def buildSidebarRootTagToken_def tag_prefixes)

lemma prefixed_trimmed:
  assumes "p \<noteq> []" "\<not> js_space (hd p)" "clean c"
  shows "js_trim (p @ c) = p @ c"
proof -
  have c: "c \<noteq> []" "js_trim c = c" using assms(3) by (simp_all add: clean_def)
  show ?thesis
  proof (rule js_trim_id)
    show "\<not> js_space (hd (p @ c))" using assms(1,2) by simp
    show "\<not> js_space (last (p @ c))" using c js_trim_ends [of c] by simp
  qed
qed

lemma tokens_trimmed:
  "clean c \<Longrightarrow> js_trim (buildSidebarRootConnectionToken c) = buildSidebarRootConnectionToken c"
  "clean c \<Longrightarrow> js_trim (buildSidebarRootTagToken c) = buildSidebarRootTagToken c"
proof -
  assume c: "clean c"
  then have "js_trim c = c" by (simp add: clean_def)
  with c prefixed_trimmed [of "js ''connection:''" c] prefixed_trimmed [of "js ''tag:''" c]
  show "js_trim (buildSidebarRootConnectionToken c) = buildSidebarRootConnectionToken c"
    "js_trim (buildSidebarRootTagToken c) = buildSidebarRootTagToken c"
    by (simp_all add: buildSidebarRootConnectionToken_def buildSidebarRootTagToken_def tag_prefixes js_space_def)
qed

section \<open>Reading\<close>

text \<open>The ids of connections as they are after reading: clean, not too long, each once.\<close>

definition ids_ok :: "js_string list \<Rightarrow> bool" where
  "ids_ok ids \<longleftrightarrow> distinct ids \<and> (\<forall>c\<in>set ids. clean c \<and> length c \<le> 256)"

lemma sanitizeIds_ok: "ids_ok (sanitizeIds 256 ids)"
  by (auto simp: ids_ok_def sanitizeIds_def clean_trim)

lemma sanitizeIds_fixed: "ids_ok ids \<Longrightarrow> sanitizeIds 256 ids = ids"
proof -
  assume ok: "ids_ok ids"
  then have "map js_trim ids = ids" by (auto simp: ids_ok_def clean_def intro: map_idI)
  moreover have "filter (\<lambda>s. s \<noteq> [] \<and> length s \<le> 256) ids = ids"
    using ok by (auto simp: ids_ok_def clean_def intro: filter_True)
  ultimately show ?thesis using ok by (simp add: sanitizeIds_def ids_ok_def js_uniq_id)
qed

definition tokens_ok :: "js_string list \<Rightarrow> bool" where
  "tokens_ok ts \<longleftrightarrow> distinct ts
     \<and> (\<forall>t\<in>set ts. clean t \<and> (isSidebarRootTagToken t \<or> isSidebarRootConnectionToken t))"

lemma sanitizeSidebarItemOrder_ok: "tokens_ok (sanitizeSidebarItemOrder ts)"
  by (auto simp: tokens_ok_def sanitizeSidebarItemOrder_def clean_trim)

lemma sanitizeSidebarItemOrder_fixed: "tokens_ok ts \<Longrightarrow> sanitizeSidebarItemOrder ts = ts"
proof -
  assume ok: "tokens_ok ts"
  then have "map js_trim ts = ts" by (auto simp: tokens_ok_def clean_def intro: map_idI)
  moreover have "filter (\<lambda>t. t \<noteq> [] \<and> (isSidebarRootTagToken t \<or> isSidebarRootConnectionToken t)) ts = ts"
    using ok by (auto simp: tokens_ok_def clean_def intro: filter_True)
  ultimately show ?thesis using ok by (simp add: sanitizeSidebarItemOrder_def tokens_ok_def js_uniq_id)
qed

definition fields_ok :: "connectionTag \<Rightarrow> bool" where
  "fields_ok t \<longleftrightarrow> clean (ct_name t) \<and> (\<forall>n. ct_createdAt t = Some n \<longrightarrow> 0 < n)
     \<and> ct_sortMode t = Some SortManual \<and> ct_connectionSortMode t \<noteq> None"

definition tag_read :: "connectionTag \<Rightarrow> bool" where
  "tag_read t \<longleftrightarrow> clean (ct_id t) \<and> js_trim (ct_parentTagId t) = ct_parentTagId t
     \<and> ids_ok (ct_connectionIds t) \<and> tokens_ok (ct_childOrder t)"

lemma tag_number_clean: "clean (js_or (js_trim s) (js ''tag-'' @ nat_text n))"
  using clean_numbered [of "js ''tag-''" n] by (simp add: js_or_def clean_trim js_space_def)

lemma readTags_ok:
  "distinct (map ct_id (readTags fb es n seen)) \<and> tag_ids (readTags fb es n seen) \<inter> set seen = {}
   \<and> (\<forall>t\<in>set (readTags fb es n seen). tag_read t)"
proof (induction fb es n seen rule: readTags.induct)
  case (2 fb e es n seen)
  let ?i = "js_or (js_trim (ct_id e)) (js ''tag-'' @ nat_text (n + 1))"
  show ?case
  proof (cases "?i \<in> set seen")
    case False
    from 2(2) [OF refl this] False show ?thesis
      using tag_number_clean [of "ct_id e" "n + 1"]
      by (auto simp: Let_def tag_read_def sanitizeIds_ok sanitizeSidebarItemOrder_ok)
  qed (use 2(1) [OF refl] in \<open>simp add: Let_def\<close>)
qed simp

lemma positiveTime_pos: "positiveTime x = Some n \<Longrightarrow> 0 < n"
  by (auto simp: positiveTime_def split: option.splits if_splits)

lemma readTags_fields:
  "\<forall>k. clean (fb k) \<Longrightarrow> t \<in> set (readTags fb es n seen) \<Longrightarrow> fields_ok t"
proof (induction fb es n seen rule: readTags.induct)
  case (2 fb e es n seen)
  have "clean (js_or (js_trim (ct_name e)) (fb n))" using 2(3) by (auto simp: js_or_def clean_trim)
  with 2 show ?case by (auto simp: Let_def fields_ok_def dest: positiveTime_pos split: if_splits)
qed simp

definition cleanOrder :: "connectionTag \<Rightarrow> connectionTag" where
  "cleanOrder t = t\<lparr>ct_childOrder := sanitizeSidebarItemOrder (ct_childOrder t)\<rparr>"

lemma cleanOrder_same [simp]: "ct_id (cleanOrder t) = ct_id t" "ct_parentTagId (cleanOrder t) = ct_parentTagId t"
  "ct_connectionIds (cleanOrder t) = ct_connectionIds t" "fields_ok (cleanOrder t) = fields_ok t"
  "ct_name (cleanOrder t) = ct_name t"
  by (simp_all add: cleanOrder_def fields_ok_def)

lemma readTags_clean:
  assumes "distinct (map ct_id ts)" "\<forall>t\<in>set ts. tag_read (cleanOrder t) \<and> fields_ok t" "tag_ids ts \<inter> set seen = {}"
  shows "readTags fb ts n seen = map cleanOrder ts"
  using assms
proof (induction ts arbitrary: n seen)
  case (Cons t ts)
  have t: "tag_read (cleanOrder t)" "fields_ok t" "ct_id t \<notin> set seen" using Cons.prems by auto
  have i: "js_or (js_trim (ct_id t)) x = ct_id t" "js_or (js_trim (ct_name t)) x = ct_name t" for x
    using t by (simp_all add: tag_read_def fields_ok_def clean_def js_or_def)
  have c: "positiveTime (ct_createdAt t) = ct_createdAt t"
    using t(2) by (auto simp: fields_ok_def positiveTime_def split: option.split)
  have m: "Some (displaySortMode (ct_connectionSortMode t) x) = ct_connectionSortMode t" for x
    using t(2) by (auto simp: fields_ok_def displaySortMode_def)
  have "readTags fb ts (n + 1) (ct_id t # seen) = map cleanOrder ts"
    using Cons.prems by (intro Cons.IH) auto
  then show ?case
    using t by (simp add: Let_def i c m tag_read_def fields_ok_def sanitizeIds_fixed cleanOrder_def)
qed simp

lemma drop_unknown_same [simp]:
  "ct_id (dropUnknownTagParent ts t) = ct_id t" "ct_connectionIds (dropUnknownTagParent ts t) = ct_connectionIds t"
  "ct_childOrder (dropUnknownTagParent ts t) = ct_childOrder t" "fields_ok (dropUnknownTagParent ts t) = fields_ok t"
  by (simp_all add: dropUnknownTagParent_def fields_ok_def)

lemma drop_unknown_known:
  assumes "distinct (map ct_id ts)" "\<forall>t\<in>set ts. clean (ct_id t)"
  shows "known_parents (map (dropUnknownTagParent ts) ts)"
proof -
  have "ct_parentTagId (dropUnknownTagParent ts t) = [] \<or> ct_parentTagId (dropUnknownTagParent ts t) \<in> tag_ids ts" for t
    by (simp add: dropUnknownTagParent_def tagWithId_None)
  with assms show ?thesis by (simp add: known_parents_def o_def image_image)
qed

lemma drop_unknown_fixed:
  assumes "tag_forest ts" "t \<in> set ts"
  shows "dropUnknownTagParent ts t = t"
proof (cases "ct_parentTagId t = []")
  case False
  have "(ct_parentTagId t, ct_id t) \<in> parent_rel ts" using assms(2) False by (auto simp: parent_rel_def)
  then have "ct_parentTagId t \<noteq> ct_id t" using assms(1) by (auto simp: tag_forest_def acyclic_def dest: r_into_trancl)
  moreover have "tagWithId ts (ct_parentTagId t) \<noteq> None"
    using assms False by (auto simp: tag_forest_def tagWithId_None)
  ultimately show ?thesis using False by (simp add: dropUnknownTagParent_def)
qed (simp add: dropUnknownTagParent_def)

section \<open>Owners\<close>

definition owned_connections :: "connectionTag list \<Rightarrow> js_string list" where
  "owned_connections tags = concat (map ct_connectionIds tags)"

definition well_owned :: "connectionTag list \<Rightarrow> bool" where
  "well_owned tags \<longleftrightarrow> ids_ok (owned_connections tags)"

lemma claim_same [simp]: "map ct_id (claimConnections ts a) = map ct_id ts"
  "map ct_parentTagId (claimConnections ts a) = map ct_parentTagId ts"
  by (induction ts arbitrary: a) (simp_all add: Let_def)

lemma claim_other:
  "t \<in> set (claimConnections ts a) \<Longrightarrow>
   \<exists>u\<in>set ts. ct_id t = ct_id u \<and> ct_childOrder t = ct_childOrder u \<and> fields_ok t = fields_ok u
     \<and> set (ct_connectionIds t) \<subseteq> set (ct_connectionIds u)"
  by (induction ts arbitrary: a) (fastforce simp: Let_def fields_ok_def)+

lemma claim_spec:
  "distinct (owned_connections (claimConnections ts a)) \<and> set (owned_connections (claimConnections ts a)) \<inter> set a = {}
   \<and> set (owned_connections (claimConnections ts a)) = set (owned_connections ts) - set a"
  by (induction ts arbitrary: a) (auto simp: owned_connections_def Let_def)

lemma claim_owned:
  assumes "\<forall>t\<in>set ts. ids_ok (ct_connectionIds t)"
  shows "well_owned (claimConnections ts [])"
  using claim_spec [of ts "[]"] assms unfolding well_owned_def ids_ok_def
  by (auto simp: owned_connections_def)

lemma claim_fixed:
  "distinct (owned_connections ts) \<Longrightarrow> set (owned_connections ts) \<inter> set a = {} \<Longrightarrow> claimConnections ts a = ts"
proof (induction ts arbitrary: a)
  case (Cons t ts)
  have "filter (\<lambda>c. c \<notin> set a) (ct_connectionIds t) = ct_connectionIds t"
    using Cons.prems(2) by (auto simp: owned_connections_def intro: filter_True)
  then have k: "js_uniq (filter (\<lambda>c. c \<notin> set a) (ct_connectionIds t)) = ct_connectionIds t"
    using Cons.prems(1) by (simp add: owned_connections_def js_uniq_id)
  have "claimConnections ts (ct_connectionIds t @ a) = ts"
    using Cons.prems by (intro Cons.IH) (auto simp: owned_connections_def)
  with k show ?case by (simp add: Let_def)
qed simp

lemma owned_tag: "well_owned ts \<Longrightarrow> t \<in> set ts \<Longrightarrow> ids_ok (ct_connectionIds t)"
  by (induction ts) (auto simp: well_owned_def ids_ok_def owned_connections_def)

text \<open>With one owner per connection, a connection tells its group.\<close>

lemma owner_unique:
  "distinct (owned_connections ts) \<Longrightarrow> t \<in> set ts \<Longrightarrow> u \<in> set ts \<Longrightarrow> c \<in> set (ct_connectionIds t) \<Longrightarrow>
   c \<in> set (ct_connectionIds u) \<Longrightarrow> t = u"
  by (induction ts) (fastforce simp: owned_connections_def)+

section \<open>The order of the children\<close>

definition child_tokens :: "connectionTag list \<Rightarrow> connectionTag \<Rightarrow> js_string set" where
  "child_tokens tags t = buildSidebarRootConnectionToken ` set (ct_connectionIds t)
     \<union> buildSidebarRootTagToken ` {i. (ct_id t, i) \<in> parent_rel tags}"

definition well_ordered :: "connectionTag list \<Rightarrow> bool" where
  "well_ordered tags \<longleftrightarrow> (\<forall>t\<in>set tags. tokens_ok (ct_childOrder t)
     \<and> set (ct_childOrder t) = child_tokens tags t
     \<and> connectionIdsFromMixedTokens (ct_childOrder t) = ct_connectionIds t)"

text \<open>
  A tree of groups: a forest, every connection in at most one group, and every group with the order of
  exactly its children, which the list of its connections follows.
\<close>

definition tree_ok :: "connectionTag list \<Rightarrow> bool" where
  "tree_ok tags \<longleftrightarrow> tag_forest tags \<and> well_owned tags \<and> well_ordered tags"

lemma set_tagDefaultOrder:
  "clean (ct_id t) \<Longrightarrow> ids_ok (ct_connectionIds t) \<Longrightarrow> set (tagDefaultOrder tags t) = child_tokens tags t"
  by (auto simp: tagDefaultOrder_def child_tokens_def sanitizeIds_fixed parent_rel_def)

lemma set_orderedTokens [simp]: "set (orderedTokens w d) = set d"
  by (auto simp: orderedTokens_def)

lemma distinct_orderedTokens [simp]: "distinct (orderedTokens w d)"
  by (simp add: orderedTokens_def)

lemma js_uniq_filter: "js_uniq (filter P xs) = filter P (js_uniq xs)"
  by (induction xs) (auto simp: conj_commute intro: filter_cong)

lemma js_uniq_append_subset:
  "distinct xs \<Longrightarrow> set ys \<subseteq> set xs \<Longrightarrow> js_uniq (xs @ ys) = xs"
proof (induction xs arbitrary: ys)
  case (Cons x xs)
  have "filter (\<lambda>y. y \<noteq> x) xs = xs" using Cons.prems(1) by (auto intro: filter_True)
  then have "filter (\<lambda>y. y \<noteq> x) (js_uniq (xs @ ys)) = js_uniq (xs @ filter (\<lambda>y. y \<noteq> x) ys)"
    by (simp flip: js_uniq_filter)
  also have "\<dots> = xs" using Cons.prems by (intro Cons.IH) auto
  finally show ?case by simp
qed simp

lemma orderedTokens_fixed:
  assumes "distinct w" "set w = set d"
  shows "orderedTokens w d = w"
proof -
  have "filter (\<lambda>t. t \<in> set d) w = w" using assms(2) by (auto intro: filter_True)
  then show ?thesis using assms by (simp add: orderedTokens_def js_uniq_append_subset)
qed

lemma child_tokens_ok:
  assumes "\<forall>c\<in>set tags. clean (ct_id c)" "ids_ok (ct_connectionIds t)" "x \<in> child_tokens tags t"
  shows "clean x \<and> (isSidebarRootTagToken x \<or> isSidebarRootConnectionToken x)"
proof -
  have c: "clean y \<Longrightarrow> clean (buildSidebarRootConnectionToken y)" "clean y \<Longrightarrow> clean (buildSidebarRootTagToken y)"
    "clean y \<Longrightarrow> js_trim y \<noteq> []" for y
    using tokens_trimmed [of y] by (simp_all add: clean_def)
  have "clean i" if "(ct_id t, i) \<in> parent_rel tags" for i
    using assms(1) that by (auto simp: parent_rel_def)
  with c assms show ?thesis by (auto simp: child_tokens_def ids_ok_def)
qed

lemma mixed_connections:
  assumes "distinct ts" "set ts = child_tokens tags t" "ids_ok (ct_connectionIds t)"
  shows "mset (connectionIdsFromMixedTokens ts) = mset (ct_connectionIds t)"
proof -
  let ?ts = "filter isSidebarRootConnectionToken ts"
  have inj: "inj_on getSidebarConnectionIdFromToken (set ?ts)"
    by (rule inj_onI) (metis connection_token_inverse mem_Collect_eq set_filter)
  have q: "js_trim c = c" "c \<noteq> []" if "c \<in> set (ct_connectionIds t)" for c
    using assms(3) that by (auto simp: ids_ok_def clean_def)
  have "set ?ts = buildSidebarRootConnectionToken ` set (ct_connectionIds t)"
    using q assms(2) by (auto simp: child_tokens_def)
  then have "set (map getSidebarConnectionIdFromToken ?ts) = set (ct_connectionIds t)"
    using q by (simp add: image_image)
  moreover have "distinct (map getSidebarConnectionIdFromToken ?ts)"
    using inj assms(1) by (simp add: distinct_map)
  ultimately show ?thesis
    using assms(3) unfolding connectionIdsFromMixedTokens_def ids_ok_def by (metis set_eq_iff_mset_eq_distinct)
qed

lemma resolved_order:
  assumes "tag_forest tags" "t \<in> set tags"
  shows "resolveConnectionTagChildOrder (ct_id t) tags
    = orderedTokens (sanitizeSidebarItemOrder (ct_childOrder t)) (tagDefaultOrder tags t)"
proof -
  have "find (\<lambda>c. ct_id c = ct_id t) tags = Some t"
    using assms by (simp add: find_tag_distinct tag_forest_def)
  then show ?thesis by (simp add: resolveConnectionTagChildOrder_def)
qed

lemma order_same [simp]: "ct_id (orderTag tags t) = ct_id t" "ct_parentTagId (orderTag tags t) = ct_parentTagId t"
  "fields_ok (orderTag tags t) = fields_ok t" "ct_name (orderTag tags t) = ct_name t"
  by (simp_all add: orderTag_def Let_def fields_ok_def)

lemma order_spec:
  assumes "tag_forest tags" "well_owned tags" "t \<in> set tags"
  shows "distinct (ct_childOrder (orderTag tags t)) \<and> set (ct_childOrder (orderTag tags t)) = child_tokens tags t
    \<and> connectionIdsFromMixedTokens (ct_childOrder (orderTag tags t)) = ct_connectionIds (orderTag tags t)
    \<and> mset (ct_connectionIds (orderTag tags t)) = mset (ct_connectionIds t)"
proof -
  have t: "clean (ct_id t)" "ids_ok (ct_connectionIds t)"
    using assms owned_tag [of tags t] by (auto simp: tag_forest_def)
  let ?o = "resolveConnectionTagChildOrder (ct_id t) tags"
  have o: "distinct ?o" "set ?o = child_tokens tags t"
    using t by (simp_all add: resolved_order [OF assms(1,3)] set_tagDefaultOrder)
  with mixed_connections [OF o t(2)] show ?thesis by (simp add: orderTag_def Let_def)
qed

lemma mset_owned:
  "\<forall>t\<in>set ts. mset (ct_connectionIds (f t)) = mset (ct_connectionIds t) \<Longrightarrow>
   mset (owned_connections (map f ts)) = mset (owned_connections ts)"
  by (induction ts) (auto simp: owned_connections_def)

lemma ids_ok_mset: "mset xs = mset ys \<Longrightarrow> ids_ok xs = ids_ok ys"
  by (auto simp: ids_ok_def dest: mset_eq_imp_distinct_iff mset_eq_setD)

lemma order_tree_ok:
  assumes "tag_forest tags" "well_owned tags"
  shows "tree_ok (map (orderTag tags) tags)"
proof -
  let ?ts = "map (orderTag tags) tags"
  have same: "map ct_id ?ts = map ct_id tags" "map ct_parentTagId ?ts = map ct_parentTagId tags" by simp_all
  have f: "tag_forest ?ts" using map_tags_keep(4) [OF same] assms(1) by simp
  have "mset (owned_connections ?ts) = mset (owned_connections tags)"
    by (rule mset_owned) (use order_spec [OF assms] in blast)
  then have o: "well_owned ?ts" using assms(2) ids_ok_mset unfolding well_owned_def by blast
  have "tokens_ok (ct_childOrder u) \<and> set (ct_childOrder u) = child_tokens ?ts u
      \<and> connectionIdsFromMixedTokens (ct_childOrder u) = ct_connectionIds u" if u: "u \<in> set ?ts" for u
  proof -
    obtain t where t: "t \<in> set tags" "u = orderTag tags t" using u by auto
    note s = order_spec [OF assms t(1), folded t(2)]
    have c: "child_tokens ?ts u = child_tokens tags t"
      using s t(2) map_tags_keep(1) [OF same] mset_eq_setD [of "ct_connectionIds u" "ct_connectionIds t"]
      by (simp add: child_tokens_def)
    moreover have "tokens_ok (ct_childOrder u)"
      using s child_tokens_ok [of tags t] owned_tag [OF assms(2) t(1)] assms(1)
      unfolding tokens_ok_def tag_forest_def by blast
    ultimately show ?thesis using s by simp
  qed
  with f o show ?thesis unfolding tree_ok_def well_ordered_def by blast
qed

section \<open>Normalization\<close>

lemma all_image: "f ` A = f ` B \<Longrightarrow> \<forall>x\<in>B. P (f x) \<Longrightarrow> x \<in> A \<Longrightarrow> P (f x)"
  by (metis imageE imageI)

text \<open>The groups before their children are ordered.\<close>

definition claimedTags :: "(nat \<Rightarrow> js_string) \<Rightarrow> connectionTag list \<Rightarrow> connectionTag list" where
  "claimedTags fb v =
     (let read = readTags fb v 0 [] in claimConnections (cutTagCycles (map (dropUnknownTagParent read) read)) [])"

lemma normalize_claimedTags:
  "normalizeConnectionTagTree fb v = map (orderTag (claimedTags fb v)) (claimedTags fb v)"
  by (simp add: normalizeConnectionTagTree_def claimedTags_def Let_def)

lemma cut_tags_same:
  "map ct_connectionIds (fold cutTagCycle is ts) = map ct_connectionIds ts
   \<and> map fields_ok (fold cutTagCycle is ts) = map fields_ok ts"
proof (induction "is" arbitrary: ts)
  case (Cons i "is")
  have "map ct_connectionIds (cutTagCycle i ts) = map ct_connectionIds ts"
    "map fields_ok (cutTagCycle i ts) = map fields_ok ts"
    by (simp_all add: cutTagCycle_def promoteTags_def fields_ok_def)
  with Cons [of "cutTagCycle i ts"] show ?case by simp
qed simp

lemma claimedTags_ok: "tag_forest (claimedTags fb v) \<and> well_owned (claimedTags fb v)"
proof -
  let ?read = "readTags fb v 0 []"
  let ?known = "map (dropUnknownTagParent ?read) ?read"
  note read = readTags_ok [of fb v 0 "[]"]
  have "known_parents ?known" by (rule drop_unknown_known) (use read in \<open>auto simp: tag_read_def\<close>)
  then have cut: "tag_forest (cutTagCycles ?known)" by (simp add: cutTagCycles_forest)
  have "map ct_connectionIds (cutTagCycles ?known) = map ct_connectionIds ?read"
    using cut_tags_same [of "map ct_id ?known" ?known] by (simp add: cutTagCycles_def o_def)
  then have "ct_connectionIds ` set (cutTagCycles ?known) = ct_connectionIds ` set ?read" by (metis set_map)
  from all_image [OF this, of ids_ok] read
  have "\<forall>t\<in>set (cutTagCycles ?known). ids_ok (ct_connectionIds t)" by (simp add: tag_read_def)
  with cut claim_owned map_tags_keep(4) [of "claimConnections (cutTagCycles ?known) []" "cutTagCycles ?known"]
  show ?thesis by (simp add: claimedTags_def Let_def)
qed

lemma normalize_tree_ok: "tree_ok (normalizeConnectionTagTree fb v)"
  unfolding normalize_claimedTags by (rule order_tree_ok) (use claimedTags_ok in blast)+

lemma normalize_fields:
  assumes "\<forall>k. clean (fb k)" "t \<in> set (normalizeConnectionTagTree fb v)"
  shows "fields_ok t"
proof -
  let ?read = "readTags fb v 0 []"
  let ?known = "map (dropUnknownTagParent ?read) ?read"
  have "map fields_ok (cutTagCycles ?known) = map fields_ok ?read"
    using cut_tags_same [of "map ct_id ?known" ?known] by (simp add: cutTagCycles_def o_def)
  then have "fields_ok ` set (cutTagCycles ?known) = fields_ok ` set ?read" by (metis set_map)
  from all_image [OF this, of "\<lambda>b. b"] readTags_fields [OF assms(1)]
  have cut: "\<forall>t\<in>set (cutTagCycles ?known). fields_ok t" by blast
  obtain u where u: "u \<in> set (claimedTags fb v)" "t = orderTag (claimedTags fb v) u"
    using assms(2) by (auto simp: normalize_claimedTags)
  then show ?thesis using claim_other [of u "cutTagCycles ?known" "[]"] cut by (auto simp: claimedTags_def Let_def)
qed

text \<open>A forest with owners passes through all passes but the last one.\<close>

lemma tree_tag_read:
  assumes "tag_forest ts" "well_owned ts" "t \<in> set ts"
  shows "tag_read (cleanOrder t)"
proof -
  have "ct_parentTagId t = [] \<or> ct_parentTagId t \<in> tag_ids ts" "\<forall>u\<in>set ts. clean (ct_id u)"
    using assms(1,3) by (auto simp: tag_forest_def)
  then have "ct_parentTagId t = [] \<or> clean (ct_parentTagId t)" by auto
  then have "js_trim (ct_parentTagId t) = ct_parentTagId t" by (auto simp: clean_def)
  with assms owned_tag [OF assms(2,3)] show ?thesis
    by (simp add: tag_read_def tag_forest_def) (simp add: cleanOrder_def sanitizeSidebarItemOrder_ok)
qed

lemma clean_order_forest:
  "tag_forest (map cleanOrder ts) = tag_forest ts" "well_owned (map cleanOrder ts) = well_owned ts"
  by (rule map_tags_keep) (simp_all add: well_owned_def owned_connections_def o_def)

lemma claimedTags_forest:
  assumes "tag_forest ts" "well_owned ts" "\<forall>t\<in>set ts. fields_ok t"
  shows "claimedTags fb ts = map cleanOrder ts"
proof -
  let ?cs = "map cleanOrder ts"
  have f: "tag_forest ?cs" "well_owned ?cs" using assms by (simp_all add: clean_order_forest)
  then have d: "distinct (map ct_id ?cs)" "acyclic (parent_rel ?cs)" by (simp_all add: tag_forest_def)
  have read: "readTags fb ts 0 [] = ?cs"
    by (rule readTags_clean) (use assms tree_tag_read in \<open>auto simp: tag_forest_def\<close>)
  have drop: "map (dropUnknownTagParent ?cs) ?cs = ?cs" using drop_unknown_fixed [OF f(1)] by (intro map_idI) auto
  have "claimConnections ?cs [] = ?cs"
    by (rule claim_fixed) (use f(2) in \<open>simp_all add: well_owned_def ids_ok_def\<close>)
  with read drop show ?thesis by (simp add: claimedTags_def cutTagCycles_fixed [OF d] Let_def del: map_map)
qed

lemma order_fixed:
  assumes "tree_ok ts" "t \<in> set ts"
  shows "orderTag ts t = t"
proof -
  have f: "tag_forest ts" "well_owned ts" and o: "tokens_ok (ct_childOrder t)" "set (ct_childOrder t) = child_tokens ts t"
    "connectionIdsFromMixedTokens (ct_childOrder t) = ct_connectionIds t"
    using assms by (auto simp: tree_ok_def well_ordered_def)
  have "set (tagDefaultOrder ts t) = child_tokens ts t"
    using f assms(2) owned_tag [OF f(2) assms(2)] by (auto simp: set_tagDefaultOrder tag_forest_def)
  then have "resolveConnectionTagChildOrder (ct_id t) ts = ct_childOrder t"
    using o by (simp add: resolved_order [OF f(1) assms(2)] sanitizeSidebarItemOrder_fixed tokens_ok_def
        orderedTokens_fixed)
  with o(3) show ?thesis by (simp add: orderTag_def Let_def)
qed

lemma normalize_fixed:
  assumes "tree_ok ts" "\<forall>t\<in>set ts. fields_ok t"
  shows "normalizeConnectionTagTree fb ts = ts"
proof -
  have "cleanOrder t = t" if "t \<in> set ts" for t
    using assms(1) that by (simp add: cleanOrder_def tree_ok_def well_ordered_def sanitizeSidebarItemOrder_fixed)
  then have "map cleanOrder ts = ts" by (rule map_idI)
  with assms have "claimedTags fb ts = ts"
    using claimedTags_forest [of ts fb] by (simp add: tree_ok_def)
  then show ?thesis using order_fixed [OF assms(1)] by (simp add: normalize_claimedTags map_idI)
qed

text \<open>
  On a forest with owners normalization only puts the children in order: the groups, their parents and
  names stay, and so does what every group owns.
\<close>

lemma normalize_keeps:
  assumes "tag_forest ts" "well_owned ts" "\<forall>t\<in>set ts. fields_ok t"
  obtains f where "normalizeConnectionTagTree fb ts = map f ts"
    "\<And>t. ct_id (f t) = ct_id t" "\<And>t. ct_parentTagId (f t) = ct_parentTagId t" "\<And>t. ct_name (f t) = ct_name t"
    "\<And>t. t \<in> set ts \<Longrightarrow> mset (ct_connectionIds (f t)) = mset (ct_connectionIds t)"
    "\<And>t. t \<in> set ts \<Longrightarrow> fields_ok (f t)"
proof
  let ?cs = "map cleanOrder ts"
  let ?f = "\<lambda>t. orderTag ?cs (cleanOrder t)"
  show "normalizeConnectionTagTree fb ts = map ?f ts"
    by (simp add: normalize_claimedTags claimedTags_forest [OF assms])
  have f: "tag_forest ?cs" "well_owned ?cs" using assms by (simp_all add: clean_order_forest)
  show "mset (ct_connectionIds (?f t)) = mset (ct_connectionIds t)" if "t \<in> set ts" for t
    using order_spec [OF f, of "cleanOrder t"] that by simp
qed (use assms(3) in simp_all)

section \<open>Properties\<close>

text \<open>
  Whatever list of groups is read back, normalization makes it a tree: ids are unique and not
  empty, every parent exists, no group is below itself, every connection is in at most one group,
  and the order of the children of a group lists exactly its connections and its subgroups, each once.
\<close>

lemma normalized_tags_form_a_tree: "tree_ok (normalizeConnectionTagTree fallbackName v)"
  by (rule normalize_tree_ok)

text \<open>
  C37. Normalization repairs and does nothing else: the lists of groups it leaves unchanged are exactly
  the trees whose groups have a name, a positive time of creation if any, the manual order and a display
  order. In particular a second normalization changes nothing.
\<close>

theorem normalization_fixes_exactly_the_trees:
  assumes "\<forall>k. clean (fallbackName k)"
  shows "(normalizeConnectionTagTree fallbackName tags = tags \<longleftrightarrow> tree_ok tags \<and> (\<forall>t\<in>set tags. fields_ok t))
    \<and> normalizeConnectionTagTree fallbackName (normalizeConnectionTagTree fallbackName tags)
        = normalizeConnectionTagTree fallbackName tags"
proof -
  have fixed: "normalizeConnectionTagTree fallbackName ts = ts \<longleftrightarrow> tree_ok ts \<and> (\<forall>t\<in>set ts. fields_ok t)" for ts
    using normalize_fixed normalize_tree_ok [of fallbackName ts] normalize_fields [OF assms, of _ ts] by metis
  show ?thesis using fixed normalize_tree_ok normalize_fields [OF assms] by metis
qed

definition namedTag :: "string \<Rightarrow> string \<Rightarrow> connectionTag" where
  "namedTag i parent = \<lparr>ct_id = js i, ct_name = js i, ct_createdAt = None, ct_parentTagId = js parent,
     ct_connectionIds = [], ct_childOrder = [], ct_sortMode = None, ct_connectionSortMode = None\<rparr>"

theorem normalization_fixes_exactly_the_trees_witness:
  "normalizeConnectionTagTree (\<lambda>_. js ''g'')
     (normalizeConnectionTagTree (\<lambda>_. js ''g'') [namedTag ''a'' ''b'', namedTag ''b'' ''a''])
   = normalizeConnectionTagTree (\<lambda>_. js ''g'') [namedTag ''a'' ''b'', namedTag ''b'' ''a'']"
proof -
  have "clean (js ''g'')" by code_simp
  then show ?thesis
    using normalization_fixes_exactly_the_trees [of "\<lambda>_. js ''g''" "[namedTag ''a'' ''b'', namedTag ''b'' ''a'']"]
    by simp
qed

end
