(* ===== verification/SidebarHosts.thy ===== *)
theory SidebarHosts
  imports Complex_Main SidebarOrder ConnectionTags ParentForest
begin

text \<open>
  Moving connections and connection groups (tags) in the sidebar: the host part of
  \<open>src/frontend/src/components/sidebar/sidebarTreeDragOrder.ts\<close> with the functions of
  \<open>src/frontend/src/components/sidebarV2Utils.ts\<close> it rests on. Coordinates are rational numbers;
  a missing or not finite one is \<open>None\<close>.
\<close>

section \<open>Connection groups\<close>

definition resolveConnectionTagParentId :: "connectionTag \<Rightarrow> js_string" where
  "resolveConnectionTagParentId tag = js_trim (ct_parentTagId tag)"

text \<open>The walk from a group to the root in search of the ancestor.\<close>

function ancestorLoop :: "connectionTag list \<Rightarrow> js_string \<Rightarrow> js_string \<Rightarrow> js_string list \<Rightarrow> bool" where
  "ancestorLoop tags ancestorId currentId seen \<longleftrightarrow>
     (if currentId = [] \<or> currentId \<in> set seen then False
      else if currentId = ancestorId then True
      else (case tagWithId tags currentId of
              None \<Rightarrow> False
            | Some currentTag \<Rightarrow>
                ancestorLoop tags ancestorId (resolveConnectionTagParentId currentTag) (currentId # seen)))"
  by pat_completeness auto
termination
proof (relation "measure (\<lambda>(tags, a, c, seen). card (tag_ids tags - set seen))", goal_cases)
  case (2 tags a c seen t)
  then have "card (tag_ids tags - set (c # seen)) < card (tag_ids tags - set seen)"
    using tagWithId_Some [of tags c t] by (intro psubset_card_mono) auto
  then show ?case by simp
qed simp

declare ancestorLoop.simps [simp del]

definition isConnectionTagDescendant :: "js_string \<Rightarrow> js_string option \<Rightarrow> connectionTag list \<Rightarrow> bool" where
  "isConnectionTagDescendant ancestorTagId candidateChildTagId tags \<longleftrightarrow>
     (let ancestorId = js_trim ancestorTagId;
          currentId = (case candidateChildTagId of None \<Rightarrow> [] | Some c \<Rightarrow> js_trim c) in
      if ancestorId = [] \<or> currentId = [] then False else ancestorLoop tags ancestorId currentId [])"

definition nonEmptyText :: "js_string \<Rightarrow> js_string option" where
  "nonEmptyText s = (if s = [] then None else Some s)"

definition getSidebarTreeTagParentId :: "connectionTag list \<Rightarrow> js_string \<Rightarrow> js_string option" where
  "getSidebarTreeTagParentId tags tagId =
     (case find (\<lambda>c. ct_id c = js_trim tagId) tags of
        None \<Rightarrow> None | Some tag \<Rightarrow> nonEmptyText (js_trim (ct_parentTagId tag)))"

definition getSidebarTreeNodeParentTagId :: "treeNode \<Rightarrow> connectionTag list \<Rightarrow> js_string option" where
  "getSidebarTreeNodeParentTagId n tags =
     (if tn_type n = js ''tag'' then getSidebarTreeTagParentId tags (nd_refId (tn_data n))
      else if tn_type n \<noteq> js ''connection'' then None
      else (case find (\<lambda>tag. js_trim (tn_key n) \<in> set (ct_connectionIds tag)) tags of
              None \<Rightarrow> None | Some tag \<Rightarrow> nonEmptyText (ct_id tag)))"

definition getSidebarTreeNodeOrderToken :: "treeNode \<Rightarrow> js_string option" where
  "getSidebarTreeNodeOrderToken n =
     (if tn_type n = js ''tag'' then
        (let tagId = js_trim (nd_refId (tn_data n)) in
         if tagId = [] then None else Some (buildSidebarRootTagToken tagId))
      else if tn_type n = js ''connection'' then
        (let connectionId = js_trim (tn_key n) in
         if connectionId = [] then None else Some (buildSidebarRootConnectionToken connectionId))
      else None)"

section \<open>Where a drop goes\<close>

datatype dropPlacement = DropBefore | DropInside | DropAfter

record rowMetrics =
  rm_clientY :: "rat option"
  rm_top :: "rat option"
  rm_height :: "rat option"

definition validMetrics :: "rowMetrics option \<Rightarrow> (rat \<times> rat \<times> rat) option" where
  "validMetrics metrics =
     (case metrics of None \<Rightarrow> None
      | Some m \<Rightarrow>
          (case (rm_clientY m, rm_top m, rm_height m) of
             (Some clientY, Some top', Some height) \<Rightarrow> if 0 < height then Some (clientY, top', height) else None
           | _ \<Rightarrow> None))"

definition resolveSidebarDropInsertBefore :: "int \<Rightarrow> rowMetrics option \<Rightarrow> bool" where
  "resolveSidebarDropInsertBefore relativeDropPosition metrics \<longleftrightarrow>
     (if relativeDropPosition < 0 then True
      else if 0 < relativeDropPosition then False
      else (case validMetrics metrics of
              None \<Rightarrow> False | Some (clientY, top', height) \<Rightarrow> clientY < top' + height / 2))"

definition SIDEBAR_HOST_GROUP_DROP_EDGE_PX :: rat where "SIDEBAR_HOST_GROUP_DROP_EDGE_PX = 4"

definition fallbackPlacement :: "js_string \<Rightarrow> int \<Rightarrow> bool option \<Rightarrow> bool \<Rightarrow> dropPlacement" where
  "fallbackPlacement dropNodeType relativeDropPosition dropToGap fallbackInsertBefore =
     (if dropNodeType = js ''tag''
         \<and> (dropToGap = Some False \<or> (dropToGap = None \<and> relativeDropPosition = 0)) then DropInside
      else if relativeDropPosition < 0 then DropBefore
      else if 0 < relativeDropPosition then DropAfter
      else if fallbackInsertBefore then DropBefore else DropAfter)"

definition resolveSidebarTreeDropPlacement ::
  "js_string \<Rightarrow> js_string \<Rightarrow> int \<Rightarrow> bool option \<Rightarrow> bool \<Rightarrow> rowMetrics option \<Rightarrow> dropPlacement" where
  "resolveSidebarTreeDropPlacement dragNodeType dropNodeType relativeDropPosition dropToGap
     fallbackInsertBefore metrics =
     (let otherwise = fallbackPlacement dropNodeType relativeDropPosition dropToGap fallbackInsertBefore in
      if (dragNodeType = js ''connection'' \<or> dragNodeType = js ''tag'') \<and> dropNodeType = js ''tag'' then
        (case validMetrics metrics of
           Some (clientY, top', height) \<Rightarrow>
             (let edgeSize = min SIDEBAR_HOST_GROUP_DROP_EDGE_PX (height / 4); offset = clientY - top' in
              if offset < edgeSize then DropBefore
              else if height - edgeSize < offset then DropAfter else DropInside)
         | None \<Rightarrow> if dragNodeType = js ''connection'' then DropInside else otherwise)
      else otherwise)"

record dropDestination =
  dd_targetParentTagId :: "js_string option"
  dd_targetToken :: "js_string option"
  dd_insertBefore :: bool

definition resolveSidebarHostGroupDropDestination ::
  "js_string \<Rightarrow> js_string option \<Rightarrow> js_string option \<Rightarrow> dropPlacement \<Rightarrow> dropDestination" where
  "resolveSidebarHostGroupDropDestination targetTagId targetTagParentId targetTagToken placement =
     (if placement = DropInside
      then \<lparr>dd_targetParentTagId = Some targetTagId, dd_targetToken = None, dd_insertBefore = False\<rparr>
      else \<lparr>dd_targetParentTagId = targetTagParentId, dd_targetToken = targetTagToken,
             dd_insertBefore = (placement = DropBefore)\<rparr>)"

datatype hostMove = MoveTag js_string dropDestination | MoveConnection js_string dropDestination

definition resolveSidebarHostTreeMove ::
  "treeNode \<Rightarrow> treeNode \<Rightarrow> dropPlacement \<Rightarrow> connectionTag list \<Rightarrow> hostMove option" where
  "resolveSidebarHostTreeMove dragNode dropNode placement tags =
     (if \<not> isSidebarHostTreeNode dragNode \<or> \<not> isSidebarHostTreeNode dropNode then None
      else if placement = DropInside \<and> tn_type dropNode \<noteq> js ''tag'' then None
      else
        (let targetTagId = (if tn_type dropNode = js ''tag'' then js_trim (nd_refId (tn_data dropNode)) else []);
             destination = resolveSidebarHostGroupDropDestination targetTagId
               (getSidebarTreeNodeParentTagId dropNode tags) (getSidebarTreeNodeOrderToken dropNode) placement in
         if tn_type dragNode = js ''tag'' then
           (let i = js_trim (nd_refId (tn_data dragNode)) in
            if i = [] \<or> isConnectionTagDescendant i (dd_targetParentTagId destination) tags then None
            else Some (MoveTag i destination))
         else
           (let i = js_trim (tn_key dragNode) in
            if i = [] then None else Some (MoveConnection i destination))))"

section \<open>A group is never moved below itself\<close>

text \<open>A parent and its group, as the walk follows them.\<close>

definition tag_rel :: "connectionTag list \<Rightarrow> (js_string \<times> js_string) set" where
  "tag_rel tags = {(p, c). p \<noteq> [] \<and> (\<exists>t. tagWithId tags c = Some t \<and> resolveConnectionTagParentId t = p)}"

definition moveTagTo :: "js_string \<Rightarrow> js_string \<Rightarrow> connectionTag list \<Rightarrow> connectionTag list" where
  "moveTagTo i p = map (\<lambda>t. if ct_id t = i then t\<lparr>ct_parentTagId := p\<rparr> else t)"

lemma find_map_ids:
  "(\<And>x. P (f x) = P x) \<Longrightarrow> find P (map f xs) = map_option f (find P xs)"
  by (induction xs) auto

lemma tagWithId_move:
  "tagWithId (moveTagTo i p tags) c
    = map_option (\<lambda>t. if ct_id t = i then t\<lparr>ct_parentTagId := p\<rparr> else t) (tagWithId tags c)"
  unfolding tagWithId_def moveTagTo_def rev_map by (rule find_map_ids) simp

lemma tag_rel_move: "js_trim p = p \<Longrightarrow> tag_rel (moveTagTo i p tags) \<subseteq> insert (p, i) (tag_rel tags)"
  by (auto simp: tag_rel_def tagWithId_move resolveConnectionTagParentId_def dest: tagWithId_Some split: if_splits)

interpretation tags: reparenting tag_rel moveTagTo "\<lambda>p. js_trim p = p"
  by unfold_locales (rule tag_rel_move)

lemma tag_rel_root: "tag_rel (moveTagTo i [] tags) \<subseteq> tag_rel tags"
  by (auto simp: tag_rel_def tagWithId_move resolveConnectionTagParentId_def split: if_splits)

lemma ancestor_found:
  "acyclic (tag_rel tags) \<Longrightarrow> (a, c) \<in> (tag_rel tags)\<^sup>* \<Longrightarrow> c \<noteq> [] \<Longrightarrow>
   \<forall>s\<in>set seen. (c, s) \<in> (tag_rel tags)\<^sup>+ \<Longrightarrow> ancestorLoop tags a c seen"
proof (induction tags a c seen rule: ancestorLoop.induct)
  case (1 tags a c seen)
  have fresh: "c \<notin> set seen" using 1(2,5) by (auto simp: acyclic_def)
  show ?case
  proof (cases "c = a")
    case True
    with fresh 1(4) show ?thesis by (subst ancestorLoop.simps) simp
  next
    case False
    then obtain q where q: "(a, q) \<in> (tag_rel tags)\<^sup>*" "(q, c) \<in> tag_rel tags"
      using 1(3) by (auto elim: rtranclE)
    then obtain t where t: "tagWithId tags c = Some t" "resolveConnectionTagParentId t = q" "q \<noteq> []"
      by (auto simp: tag_rel_def)
    have "\<forall>s\<in>set (c # seen). (q, s) \<in> (tag_rel tags)\<^sup>+"
      using q(2) 1(5) by (auto intro: trancl_into_trancl2)
    then have "ancestorLoop tags a q (c # seen)"
      using 1(1) [OF _ False t(1)] 1(2,4) fresh q(1) t by simp
    with fresh False t 1(4) show ?thesis by (simp add: ancestorLoop.simps [of tags a c])
  qed
qed

text \<open>
  Moving a connection group keeps the hierarchy: whenever a drop is accepted as the move of a
  group, giving the group the parent of the destination (or none) makes no cycle of groups.
\<close>

lemma host_move_keeps_hierarchy:
  assumes "acyclic (tag_rel tags)"
    and "resolveSidebarHostTreeMove dragNode dropNode placement tags = Some (MoveTag i destination)"
    and "p = (case dd_targetParentTagId destination of None \<Rightarrow> [] | Some p \<Rightarrow> p)" "js_trim p = p"
  shows "acyclic (tag_rel (moveTagTo i p tags))"
proof (cases "p = []")
  case True
  with acyclic_subset [OF assms(1) tag_rel_root] show ?thesis by simp
next
  case False
  have i: "i \<noteq> []" "js_trim i = i" "\<not> isConnectionTagDescendant i (dd_targetParentTagId destination) tags"
    using assms(2) by (auto simp: resolveSidebarHostTreeMove_def Let_def split: if_splits)
  have "dd_targetParentTagId destination = Some p" using assms(3) False by (cases "dd_targetParentTagId destination") auto
  with i False assms(4) have "\<not> ancestorLoop tags i p []" by (simp add: isConnectionTagDescendant_def Let_def)
  then have "(i, p) \<notin> (tag_rel tags)\<^sup>*" using ancestor_found [OF assms(1) _ False, of i "[]"] by auto
  then show ?thesis by (rule tags.acyclic_reparent [OF assms(1) _ assms(4)])
qed

definition hostTag :: "string \<Rightarrow> treeNode" where
  "hostTag i = TreeNode \<lparr>nd_key = js i, nd_type = js ''tag'', nd_refId = js i, nd_dbName = [],
     nd_pinnedDatabase = False, nd_pinnedTable = False\<rparr> []"

definition plainTag :: "string \<Rightarrow> connectionTag" where
  "plainTag i = \<lparr>ct_id = js i, ct_name = js i, ct_createdAt = None, ct_parentTagId = [], ct_connectionIds = [],
     ct_childOrder = [], ct_sortMode = None, ct_connectionSortMode = None\<rparr>"

lemma host_move_keeps_hierarchy_witness:
  "\<exists>destination. resolveSidebarHostTreeMove (hostTag ''a'') (hostTag ''b'') DropInside
       [plainTag ''a'',
        plainTag ''b''] = Some (MoveTag (js ''a'') destination)
     \<and> acyclic (tag_rel (moveTagTo (js ''a'') (js ''b'')
       [plainTag ''a'',
        plainTag ''b'']))"
proof -
  let ?tags = "[plainTag ''a'',
    plainTag ''b'']"
  let ?d = "\<lparr>dd_targetParentTagId = Some (js ''b''), dd_targetToken = None, dd_insertBefore = False\<rparr>"
  have m: "resolveSidebarHostTreeMove (hostTag ''a'') (hostTag ''b'') DropInside ?tags = Some (MoveTag (js ''a'') ?d)"
    by code_simp
  have "tag_rel ?tags = {}"
    by (auto simp: tag_rel_def tagWithId_def resolveConnectionTagParentId_def plainTag_def split: if_splits)
  then have a: "acyclic (tag_rel ?tags)" by (simp add: acyclic_def)
  have "js_trim (js ''b'') = js ''b''" by code_simp
  with host_move_keeps_hierarchy [OF a m] m show ?thesis by auto
qed

end
