(* ===== verification/ConnectionTreeStoreProps.thy ===== *)
theory ConnectionTreeStoreProps
  imports ConnectionTreeStore ConnectionTagsProps SidebarHosts
begin

text \<open>
  The tree of connection groups under the operations of the store: it stays a tree, no connection gets
  lost from the sidebar, and what each operation does to the owners of the connections and to the
  parents of the groups.
\<close>

section \<open>The invariant\<close>

definition tags_ok :: "connectionTag list \<Rightarrow> bool" where
  "tags_ok ts \<longleftrightarrow> tree_ok ts \<and> (\<forall>t\<in>set ts. fields_ok t)"

definition env_ok :: "treeEnv \<Rightarrow> bool" where
  "env_ok env \<longleftrightarrow> (\<forall>k. clean (te_fallbackName env k))"

lemma tags_ok_normalize: "env_ok env \<Longrightarrow> tags_ok (normalizeConnectionTagTree (te_fallbackName env) ts)"
  by (simp add: tags_ok_def env_ok_def normalize_tree_ok normalize_fields)

lemma normalize_tags_ok: "tags_ok ts \<Longrightarrow> normalizeConnectionTagTree fb ts = ts"
  by (simp add: tags_ok_def normalize_fixed)

lemma tags_ok_state:
  "env_ok env \<Longrightarrow> tags_ok (tt_connectionTags (normalizeConnectionTagTreeState (te_fallbackName env) ts order cs))"
  by (simp add: normalizeConnectionTagTreeState_def Let_def tags_ok_normalize)

lemma tags_of_state [simp]:
  "tt_connectionTags (normalizeConnectionTagTreeState fb ts order cs) = normalizeConnectionTagTree fb ts"
  by (simp add: normalizeConnectionTagTreeState_def Let_def)

lemma withTree_tags [simp]: "ts_connectionTags (withTree t s) = tt_connectionTags t"
  "ts_connections (withTree t s) = ts_connections s" "ts_sidebarRootOrder (withTree t s) = tt_sidebarRootOrder t"
  by (simp_all add: withTree_def)

lemma moved_connection_ok:
  "env_ok env \<Longrightarrow> moveConnectionInTree (te_fallbackName env) ts order cs c target token before = Some m \<Longrightarrow>
   tags_ok (tt_connectionTags m)"
  by (auto simp: moveConnectionInTree_def Let_def tags_ok_normalize split: if_splits)

lemma moved_tag_ok:
  "env_ok env \<Longrightarrow> moveConnectionTagInTree (te_fallbackName env) ts order cs i target token before = Some m \<Longrightarrow>
   tags_ok (tt_connectionTags m)"
  by (auto simp: moveConnectionTagInTree_def Let_def tags_ok_normalize split: if_splits)

text \<open>Putting the connections of a group in another order.\<close>

lemma apply_order_filters:
  "length (filter isSidebarRootConnectionToken ts) = length os \<Longrightarrow>
   \<forall>x\<in>set os. isSidebarRootConnectionToken x \<and> x \<noteq> [] \<Longrightarrow>
   filter isSidebarRootConnectionToken (applyConnectionOrder ts os) = os
   \<and> filter (\<lambda>t. \<not> isSidebarRootConnectionToken t) (applyConnectionOrder ts os)
       = filter (\<lambda>t. \<not> isSidebarRootConnectionToken t) ts"
  by (induction ts os rule: applyConnectionOrder.induct) (auto simp: js_or_def split: list.splits)

lemma apply_order_spec:
  assumes "mset (connectionIdsFromMixedTokens ts) = mset os" "\<forall>c\<in>set os. clean c"
  shows "mset (applyConnectionOrderToMixedTokens ts os) = mset ts
    \<and> connectionIdsFromMixedTokens (applyConnectionOrderToMixedTokens ts os) = os"
proof -
  let ?os = "map buildSidebarRootConnectionToken os" and ?conn = "isSidebarRootConnectionToken"
  have clean: "js_trim c = c \<and> c \<noteq> []" if "c \<in> set os" for c using assms(2) that by (auto simp: clean_def)
  have l: "length (filter ?conn ts) = length ?os"
    using mset_eq_length [OF assms(1)] by (simp add: connectionIdsFromMixedTokens_def)
  from apply_order_filters [OF this] clean
  have f: "filter ?conn (applyConnectionOrder ts ?os) = ?os"
    "filter (\<lambda>t. \<not> ?conn t) (applyConnectionOrder ts ?os) = filter (\<lambda>t. \<not> ?conn t) ts" by auto
  have "map buildSidebarRootConnectionToken (map getSidebarConnectionIdFromToken (filter ?conn ts)) = filter ?conn ts"
  proof (unfold map_map, rule map_idI)
    fix t assume "t \<in> set (filter ?conn ts)"
    then have t: "?conn t" "getSidebarConnectionIdFromToken t \<in> set (connectionIdsFromMixedTokens ts)"
      by (auto simp: connectionIdsFromMixedTokens_def)
    then have "getSidebarConnectionIdFromToken t \<in> set os" using mset_eq_setD [OF assms(1)] by simp
    with clean have "buildSidebarRootConnectionToken (getSidebarConnectionIdFromToken t)
        = SIDEBAR_ROOT_CONNECTION_TOKEN_PREFIX @ getSidebarConnectionIdFromToken t"
      by (simp add: buildSidebarRootConnectionToken_def)
    also have "\<dots> = t" by (rule connection_token_inverse [OF t(1), symmetric])
    finally show "(buildSidebarRootConnectionToken \<circ> getSidebarConnectionIdFromToken) t = t" by simp
  qed
  then have "mset (filter ?conn ts) = mset ?os"
    using assms(1) unfolding connectionIdsFromMixedTokens_def by (metis mset_map)
  then have "mset (filter ?conn (applyConnectionOrder ts ?os)) = mset (filter ?conn ts)" by (simp only: f)
  then have "mset (applyConnectionOrder ts ?os) = mset ts" by (rule mset_partition) (simp only: f)
  moreover have "map getSidebarConnectionIdFromToken ?os = os" using clean by (simp add: map_idI)
  ultimately show ?thesis
    using f(1) by (simp add: applyConnectionOrderToMixedTokens_def connectionIdsFromMixedTokens_def)
qed

lemma reordered_tags_ok:
  assumes "tags_ok ts" "t \<in> set ts" "mset os = mset (ct_connectionIds t)"
  shows "tags_ok (map (\<lambda>u. if ct_id u = ct_id t
      then u\<lparr>ct_connectionIds := os,
             ct_childOrder := applyConnectionOrderToMixedTokens (ct_childOrder t) os,
             ct_connectionSortMode := Some SortManual\<rparr> else u) ts)"
    (is "tags_ok (map ?f ts)")
proof -
  have ok: "tag_forest ts" "well_owned ts" "well_ordered ts" "\<forall>u\<in>set ts. fields_ok u"
    using assms(1) by (simp_all add: tags_ok_def tree_ok_def)
  have unique: "u = t" if "u \<in> set ts" "ct_id u = ct_id t" for u
    using ok(1) assms(2) that by (auto simp: tag_forest_def distinct_map inj_on_def)
  have t: "ids_ok (ct_connectionIds t)" "tokens_ok (ct_childOrder t)" "set (ct_childOrder t) = child_tokens ts t"
    "connectionIdsFromMixedTokens (ct_childOrder t) = ct_connectionIds t"
    using owned_tag [OF ok(2) assms(2)] ok(3) assms(2) by (auto simp: well_ordered_def)
  have os: "\<forall>c\<in>set os. clean c" using t(1) mset_eq_setD [OF assms(3)] by (auto simp: ids_ok_def)
  note app = apply_order_spec [of "ct_childOrder t" os, unfolded t(4), OF assms(3) [symmetric] os]
  have same: "map ct_id (map ?f ts) = map ct_id ts" "map ct_parentTagId (map ?f ts) = map ct_parentTagId ts" by simp_all
  have "mset (owned_connections (map ?f ts)) = mset (owned_connections ts)"
    by (rule mset_owned) (use unique assms(3) in auto)
  then have owned: "well_owned (map ?f ts)" using ok(2) ids_ok_mset unfolding well_owned_def by blast
  have "tokens_ok (ct_childOrder v) \<and> set (ct_childOrder v) = child_tokens (map ?f ts) v
      \<and> connectionIdsFromMixedTokens (ct_childOrder v) = ct_connectionIds v" if v: "v \<in> set (map ?f ts)" for v
  proof -
    obtain u where u: "u \<in> set ts" "v = ?f u" using v by auto
    have rel: "parent_rel (map ?f ts) = parent_rel ts" by (rule map_tags_keep(1) [OF same])
    show ?thesis
    proof (cases "ct_id u = ct_id t")
      case True
      from unique [OF u(1) this] u(2) have v: "v = ?f t" by simp
      have "set (ct_childOrder v) = set (ct_childOrder t)" "distinct (ct_childOrder v)"
        using app t(2) v by (auto dest: mset_eq_setD mset_eq_imp_distinct_iff simp: tokens_ok_def)
      moreover have "child_tokens (map ?f ts) v = child_tokens ts t"
        using v mset_eq_setD [OF assms(3)] by (simp add: child_tokens_def rel)
      ultimately show ?thesis using app t v by (simp add: tokens_ok_def)
    next
      case False
      with u have "v = u" by simp
      with u(1) ok(3) show ?thesis by (simp add: well_ordered_def child_tokens_def rel)
    qed
  qed
  then have "well_ordered (map ?f ts)" unfolding well_ordered_def by blast
  moreover have "\<forall>v\<in>set (map ?f ts). fields_ok v" using ok(4) by (auto simp: fields_ok_def)
  ultimately show ?thesis
    using owned map_tags_keep(4) [OF same] ok(1) by (simp add: tags_ok_def tree_ok_def)
qed

text \<open>What \<open>materializeManualConnectionOrder\<close> makes of the groups of a tree.\<close>

lemma materialized_map:
  assumes "tags_ok ts" "materializeManualConnectionOrder env ts order cs mode target = (tree, mode')"
  shows "tt_connectionTags tree = ts
    \<or> (\<exists>t\<in>set ts. \<exists>os. mset os = mset (ct_connectionIds t)
        \<and> tt_connectionTags tree = map (\<lambda>u. if ct_id u = ct_id t
            then u\<lparr>ct_connectionIds := os,
                   ct_childOrder := applyConnectionOrderToMixedTokens (ct_childOrder t) os,
                   ct_connectionSortMode := Some SortManual\<rparr> else u) ts)"
proof -
  let ?i = "case target of None \<Rightarrow> [] | Some i \<Rightarrow> js_trim i"
  have fixed: "normalizeConnectionTagTree fb ts = ts" for fb by (rule normalize_tags_ok [OF assms(1)])
  have f: "tag_forest ts" "tree_ok ts" using assms(1) by (simp_all add: tags_ok_def tree_ok_def)
  show ?thesis
  proof (cases "?i = [] \<or> find (\<lambda>t. ct_id t = ?i) ts = None")
    case True
    with assms(2) show ?thesis
      by (auto simp: materializeManualConnectionOrder_def Let_def fixed split: if_splits option.splits)
  next
    case False
    then obtain t where t: "find (\<lambda>t. ct_id t = ?i) ts = Some t" and i: "?i \<noteq> []" by auto
    then have t': "t \<in> set ts" "ct_id t = ?i" using f by (simp_all add: find_tag_distinct tag_forest_def)
    have "ct_childOrder (orderTag ts t) = ct_childOrder t" by (simp only: order_fixed [OF f(2) t'(1)])
    then have current: "resolveConnectionTagChildOrder (ct_id t) ts = ct_childOrder t"
      "connectionIdsFromMixedTokens (ct_childOrder t) = ct_connectionIds t"
      using f(2) t'(1) by (simp_all add: orderTag_def Let_def tree_ok_def well_ordered_def)
    let ?m = "case ct_connectionSortMode t of None \<Rightarrow> SortCreatedAt | Some m \<Rightarrow> m"
    let ?os = "if ?m = SortManual then connectionIdsFromMixedTokens (ct_childOrder t)
               else sortConnectionIdsForDisplay env (ct_connectionIds t) cs ?m"
    have os: "mset ?os = mset (ct_connectionIds t)"
      using current(2) by (simp add: sortConnectionIdsForDisplay_def)
    have "tt_connectionTags tree = map (\<lambda>u. if ct_id u = ct_id t
            then u\<lparr>ct_connectionIds := ?os,
                   ct_childOrder := applyConnectionOrderToMixedTokens (ct_childOrder t) ?os,
                   ct_connectionSortMode := Some SortManual\<rparr> else u) ts"
      using assms(2) t i current(1) by (auto simp: materializeManualConnectionOrder_def Let_def fixed)
    with t'(1) os show ?thesis by blast
  qed
qed

lemma materialized_ok:
  "tags_ok ts \<Longrightarrow> materializeManualConnectionOrder env ts order cs mode target = (tree, mode') \<Longrightarrow>
   tags_ok (tt_connectionTags tree)"
  using materialized_map [of ts env order cs mode target tree mode'] reordered_tags_ok [of ts] by fastforce

lemma tags_ok_map:
  assumes "tags_ok ts"
    and f: "\<And>t. ct_id (f t) = ct_id t" "\<And>t. ct_parentTagId (f t) = ct_parentTagId t"
      "\<And>t. ct_connectionIds (f t) = ct_connectionIds t" "\<And>t. ct_childOrder (f t) = ct_childOrder t"
      "\<And>t. fields_ok t \<Longrightarrow> fields_ok (f t)"
  shows "tags_ok (map f ts)"
proof -
  have same: "map ct_id (map f ts) = map ct_id ts" "map ct_parentTagId (map f ts) = map ct_parentTagId ts"
    by (simp_all add: f o_def)
  have "well_owned (map f ts) = well_owned ts" by (simp add: well_owned_def owned_connections_def o_def f)
  moreover have "well_ordered (map f ts) = well_ordered ts"
    using map_tags_keep(1) [OF same] by (simp add: well_ordered_def child_tokens_def f)
  ultimately show ?thesis
    using assms(1) map_tags_keep(4) [OF same] f(5) by (simp add: tags_ok_def tree_ok_def)
qed

lemma sort_mode_ok:
  "tags_ok ts \<Longrightarrow> tags_ok (map (\<lambda>t. if P t then t\<lparr>ct_connectionSortMode := Some m\<rparr> else t) ts)"
  by (rule tags_ok_map) (simp_all add: fields_ok_def)

lemma moved_many_ok:
  assumes "env_ok env" "tags_ok (ts_connectionTags s)"
  shows "tags_ok (ts_connectionTags (fold (\<lambda>i s. case moveConnectionInTree (te_fallbackName env)
    (ts_connectionTags s) (ts_sidebarRootOrder s) (ts_connections s) i target None False of
      None \<Rightarrow> s | Some moved \<Rightarrow> withTree moved s) ids s))"
  using assms(2) by (induction ids arbitrary: s) (auto split: option.split dest: moved_connection_ok [OF assms(1)])

lemma treeStep_ok:
  assumes "env_ok env" "treeStep env s s'" "tags_ok (ts_connectionTags s)"
  shows "tags_ok (ts_connectionTags s')"
  using assms(2)
proof cases
  case (step_add sanitized)
  with assms(3) show ?thesis by (simp add: addConnection_def split: option.split)
next
  case (step_update i sanitized)
  with assms(3) show ?thesis by (simp add: updateConnection_def split: option.split)
next
  case (step_layout raw rawOrder m1 m2)
  then show ?thesis by (simp add: replaceConnectionSidebarLayout_def withTree_def tags_ok_normalize [OF assms(1)])
next
  case (step_mode tagId mode)
  then show ?thesis
    using assms(3) sort_mode_ok [OF assms(3)]
    by (auto simp: setConnectionDisplaySortMode_def Let_def withTree_def split: prod.split if_splits
        dest: materialized_ok)
next
  case (step_add_tag now tag)
  then show ?thesis by (simp add: addConnectionTag_def Let_def normalizedTree_def tags_ok_normalize [OF assms(1)])
next
  case (step_update_tag hasParent hasChildOrder tag)
  then show ?thesis
    by (auto simp: updateConnectionTag_def Let_def normalizedTree_def tags_ok_normalize [OF assms(1)]
        split: option.split dest: moved_tag_ok [OF assms(1)])
next
  case (step_move_many ids targetTagId)
  then show ?thesis using assms(3) moved_many_ok [OF assms(1,3)] by (simp add: moveConnectionsToTag_def Let_def)
next
  case (step_move connectionId targetTagId token before)
  then show ?thesis
    using assms(3)
    by (auto simp: moveConnectionToTag_def Let_def withTree_def split: option.split
        dest: moved_connection_ok [OF assms(1)])
next
  case (step_move_tag tagId' targetTagId token before)
  then show ?thesis
    using assms(3) by (auto simp: moveConnectionTag_def split: option.split dest: moved_tag_ok [OF assms(1)])
next
  case (step_reorder connectionId target targetTagId before)
  then show ?thesis
    using assms(3) moved_connection_ok [OF assms(1)]
    by (simp add: reorderConnections_def Let_def split: option.split)
next
  case (step_merge connections tags rootOrder m1 m2)
  have "tags_ok (sanitizeConnectionTags (te_fallbackName env) v)" for v
  proof (cases v)
    case None
    have "acyclic (parent_rel [])" by (simp add: parent_rel_def acyclic_def)
    with None show ?thesis
      by (simp add: sanitizeConnectionTags_def tags_ok_def tree_ok_def tag_forest_def well_owned_def
          well_ordered_def owned_connections_def ids_ok_def)
  qed (simp add: sanitizeConnectionTags_def tags_ok_normalize [OF assms(1)])
  with step_merge assms(3) show ?thesis by (simp add: mergeTree_def Let_def split: option.split)
qed (simp_all add: removeConnection_def replaceConnections_def removeConnectionTag_def removeConnectionTagTree_def
    reorderTags_def reorderSidebarRoot_def normalizedTree_def Let_def tags_ok_normalize [OF assms(1)]
    split: option.split)

lemma treeReachable_ok: "treeReachable env s \<Longrightarrow> env_ok env \<Longrightarrow> tags_ok (ts_connectionTags s)"
proof (induction rule: treeReachable.induct)
  case tree_initial
  have "acyclic (parent_rel [])" by (simp add: parent_rel_def acyclic_def)
  then show ?case
    by (simp add: initialTreeState_def tags_ok_def tree_ok_def tag_forest_def well_owned_def well_ordered_def
        owned_connections_def ids_ok_def)
qed (rule treeStep_ok)

end
