(* ===== verification/ConnectionMovesProps.thy ===== *)
theory ConnectionMovesProps
  imports ConnectionTreeStoreProps
begin

text \<open>
  What the operations of the store do to the owners of the connections and to the parents of the
  groups, and that the sidebar and the store agree on which moves of a group are possible.
\<close>

section \<open>Owners and parents under normalization\<close>

definition owner_rel :: "connectionTag list \<Rightarrow> (js_string \<times> js_string) set" where
  "owner_rel tags = {(c, i). \<exists>t\<in>set tags. ct_id t = i \<and> c \<in> set (ct_connectionIds t)}"

text \<open>A tree whose groups may have the order of their children wrong.\<close>

definition nearly_ok :: "connectionTag list \<Rightarrow> bool" where
  "nearly_ok ts \<longleftrightarrow> tag_forest ts \<and> well_owned ts \<and> (\<forall>t\<in>set ts. fields_ok t)"

lemma tags_ok_nearly: "tags_ok ts \<Longrightarrow> nearly_ok ts"
  by (simp add: tags_ok_def nearly_ok_def tree_ok_def)

lemma same_structure:
  assumes "\<And>t. t \<in> set ts \<Longrightarrow> ct_id (f t) = ct_id t" "\<And>t. t \<in> set ts \<Longrightarrow> ct_parentTagId (f t) = ct_parentTagId t"
  shows "map ct_id (map f ts) = map ct_id ts" "map ct_parentTagId (map f ts) = map ct_parentTagId ts"
    "parent_rel (map f ts) = parent_rel ts" "tag_ids (map f ts) = tag_ids ts" "tag_forest (map f ts) = tag_forest ts"
proof -
  show i: "map ct_id (map f ts) = map ct_id ts" "map ct_parentTagId (map f ts) = map ct_parentTagId ts"
    using assms by simp_all
  show "parent_rel (map f ts) = parent_rel ts" "tag_ids (map f ts) = tag_ids ts" "tag_forest (map f ts) = tag_forest ts"
    using map_tags_keep [OF i] by blast+
qed

lemma owner_rel_map:
  assumes "\<And>t. t \<in> set ts \<Longrightarrow> ct_id (f t) = ct_id t"
    "\<And>t. t \<in> set ts \<Longrightarrow> set (ct_connectionIds (f t)) = set (ct_connectionIds t)"
  shows "owner_rel (map f ts) = owner_rel ts"
  using assms by (auto simp: owner_rel_def)

lemma owner_rel_map_iff:
  "(c, i) \<in> owner_rel (map f ts) \<longleftrightarrow> (\<exists>t\<in>set ts. ct_id (f t) = i \<and> c \<in> set (ct_connectionIds (f t)))"
  by (auto simp: owner_rel_def)

lemma nearly_ok_map:
  assumes "nearly_ok ts" "\<And>t. t \<in> set ts \<Longrightarrow> ct_id (f t) = ct_id t"
    "\<And>t. t \<in> set ts \<Longrightarrow> ct_parentTagId (f t) = ct_parentTagId t"
    "\<And>t. t \<in> set ts \<Longrightarrow> mset (ct_connectionIds (f t)) = mset (ct_connectionIds t)"
    "\<And>t. t \<in> set ts \<Longrightarrow> fields_ok (f t) = fields_ok t"
  shows "nearly_ok (map f ts)"
proof -
  have "mset (owned_connections (map f ts)) = mset (owned_connections ts)"
    by (rule mset_owned) (use assms(4) in blast)
  then have "well_owned (map f ts) = well_owned ts" unfolding well_owned_def by (rule ids_ok_mset)
  with assms(1,5) same_structure(5) [OF assms(2,3)] show ?thesis by (simp add: nearly_ok_def)
qed

lemma normalize_structure:
  assumes "nearly_ok ts"
  shows "map ct_id (normalizeConnectionTagTree fb ts) = map ct_id ts"
    "parent_rel (normalizeConnectionTagTree fb ts) = parent_rel ts"
    "owner_rel (normalizeConnectionTagTree fb ts) = owner_rel ts"
    "nearly_ok (normalizeConnectionTagTree fb ts)"
proof -
  have n: "tag_forest ts" "well_owned ts" "\<forall>t\<in>set ts. fields_ok t" using assms by (simp_all add: nearly_ok_def)
  obtain f where f: "normalizeConnectionTagTree fb ts = map f ts" "\<And>t. ct_id (f t) = ct_id t"
    "\<And>t. ct_parentTagId (f t) = ct_parentTagId t"
    "\<And>t. t \<in> set ts \<Longrightarrow> mset (ct_connectionIds (f t)) = mset (ct_connectionIds t)"
    "\<And>t. t \<in> set ts \<Longrightarrow> fields_ok (f t)"
    using normalize_keeps [OF n, of fb] by metis
  show "map ct_id (normalizeConnectionTagTree fb ts) = map ct_id ts"
    "parent_rel (normalizeConnectionTagTree fb ts) = parent_rel ts"
    unfolding f(1) using same_structure [of ts f] f(2,3) by blast+
  show "owner_rel (normalizeConnectionTagTree fb ts) = owner_rel ts"
    unfolding f(1) by (rule owner_rel_map) (use f(2,4) mset_eq_setD in blast)+
  show "nearly_ok (normalizeConnectionTagTree fb ts)"
    unfolding f(1) by (rule nearly_ok_map [OF assms]) (use f n(3) in auto)
qed

lemma set_child_order_structure:
  assumes "nearly_ok ts"
  shows "map ct_id (setConnectionTagChildOrder ts i order) = map ct_id ts"
    "parent_rel (setConnectionTagChildOrder ts i order) = parent_rel ts"
    "owner_rel (setConnectionTagChildOrder ts i order) = owner_rel ts"
    "nearly_ok (setConnectionTagChildOrder ts i order)"
  unfolding setConnectionTagChildOrder_def
  by (simp, rule same_structure(3), simp_all, rule owner_rel_map, simp_all)
    (rule nearly_ok_map [OF assms], simp_all add: fields_ok_def)

lemma remove_token_structure:
  assumes "nearly_ok ts"
  shows "map ct_id (removeSidebarItemTokenFromTagOrders ts token) = map ct_id ts"
    "parent_rel (removeSidebarItemTokenFromTagOrders ts token) = parent_rel ts"
    "owner_rel (removeSidebarItemTokenFromTagOrders ts token) = owner_rel ts"
    "nearly_ok (removeSidebarItemTokenFromTagOrders ts token)"
  unfolding removeSidebarItemTokenFromTagOrders_def
  by (simp, rule same_structure(3), simp_all, rule owner_rel_map, simp_all)
    (rule nearly_ok_map [OF assms], simp_all add: fields_ok_def)

section \<open>Moving a connection\<close>

lemma owned_filter:
  "owned_connections (map (\<lambda>t. t\<lparr>ct_connectionIds := filter P (ct_connectionIds t)\<rparr>) ts) = filter P (owned_connections ts)"
  by (induction ts) (simp_all add: owned_connections_def)

lemma remove_connection_structure:
  fixes c :: js_string
  assumes "nearly_ok ts"
  defines "us \<equiv> map (\<lambda>t. t\<lparr>ct_connectionIds := filter (\<lambda>x. x \<noteq> c) (ct_connectionIds t)\<rparr>) ts"
  shows "map ct_id us = map ct_id ts" "parent_rel us = parent_rel ts"
    "owner_rel us = {(x, i) \<in> owner_rel ts. x \<noteq> c}" "nearly_ok us"
proof -
  show "map ct_id us = map ct_id ts" by (simp add: us_def)
  show "parent_rel us = parent_rel ts" unfolding us_def by (rule same_structure(3)) simp_all
  show "owner_rel us = {(x, i) \<in> owner_rel ts. x \<noteq> c}" by (auto simp: us_def owner_rel_def)
  have "well_owned us"
    using assms(1) unfolding us_def well_owned_def owned_filter by (auto simp: nearly_ok_def well_owned_def ids_ok_def)
  moreover have "tag_forest us"
    using assms(1) unfolding us_def nearly_ok_def by (subst same_structure(5)) simp_all
  ultimately show "nearly_ok us" using assms(1) by (auto simp: us_def nearly_ok_def fields_ok_def)
qed

lemma owned_add:
  assumes "distinct (map ct_id ts)" "i \<in> tag_ids ts"
    and "\<And>t. t \<in> set ts \<Longrightarrow> mset (ct_connectionIds (f t)) = mset (ct_connectionIds t) + (if ct_id t = i then mset cs else {#})"
  shows "mset (owned_connections (map f ts)) = mset cs + mset (owned_connections ts)"
  using assms
proof (induction ts)
  case (Cons t ts)
  show ?case
  proof (cases "ct_id t = i")
    case True
    then have "ct_id u \<noteq> i" if "u \<in> set ts" for u using Cons.prems(1) that by (force simp: image_iff)
    then have "\<forall>u\<in>set ts. mset (ct_connectionIds (f u)) = mset (ct_connectionIds u)" using Cons.prems(3) by simp
    from mset_owned [OF this] True Cons.prems(3) [of t] show ?thesis by (simp add: owned_connections_def)
  next
    case False
    then have "mset (owned_connections (map f ts)) = mset cs + mset (owned_connections ts)"
      using Cons.prems by (intro Cons.IH) auto
    with False Cons.prems(3) [of t] show ?thesis by (simp add: owned_connections_def)
  qed
qed simp

lemma add_connection_structure:
  assumes "nearly_ok ts" "i \<in> tag_ids ts" "clean c" "length c \<le> 256" "c \<notin> Domain (owner_rel ts)"
  defines "us \<equiv> map (\<lambda>t. if ct_id t = i then t\<lparr>ct_connectionIds := ct_connectionIds t @ [c]\<rparr> else t) ts"
  shows "map ct_id us = map ct_id ts" "parent_rel us = parent_rel ts"
    "owner_rel us = insert (c, i) (owner_rel ts)" "nearly_ok us"
proof -
  have d: "distinct (map ct_id ts)" using assms(1) by (simp add: nearly_ok_def tag_forest_def)
  show "map ct_id us = map ct_id ts" unfolding us_def by (rule same_structure) simp_all
  show "parent_rel us = parent_rel ts" unfolding us_def by (rule same_structure) simp_all
  have "(x, j) \<in> owner_rel us \<longleftrightarrow> (x, j) \<in> insert (c, i) (owner_rel ts)" for x j
  proof -
    have "ct_id (if ct_id t = i then t\<lparr>ct_connectionIds := ct_connectionIds t @ [c]\<rparr> else t) = j
        \<and> x \<in> set (ct_connectionIds (if ct_id t = i then t\<lparr>ct_connectionIds := ct_connectionIds t @ [c]\<rparr> else t))
      \<longleftrightarrow> ct_id t = j \<and> (x \<in> set (ct_connectionIds t) \<or> ct_id t = i \<and> x = c)" for t :: connectionTag by auto
    then have "(x, j) \<in> owner_rel us
        \<longleftrightarrow> (\<exists>t\<in>set ts. ct_id t = j \<and> (x \<in> set (ct_connectionIds t) \<or> ct_id t = i \<and> x = c))"
      unfolding us_def owner_rel_map_iff by (simp only:)
    with assms(2) show ?thesis by (auto simp: owner_rel_def)
  qed
  then show "owner_rel us = insert (c, i) (owner_rel ts)" by auto
  have m: "mset (owned_connections us) = mset (c # owned_connections ts)"
    unfolding us_def using owned_add [OF d assms(2), of _ "[c]"] by simp
  have "c \<notin> set (owned_connections ts)" using assms(5) by (auto simp: owner_rel_def owned_connections_def)
  then have "ids_ok (c # owned_connections ts)"
    using assms(1,3,4) by (simp add: nearly_ok_def well_owned_def ids_ok_def)
  then have "well_owned us" unfolding well_owned_def using ids_ok_mset [OF m] by blast
  moreover have "tag_forest us"
    using assms(1) unfolding us_def nearly_ok_def by (subst same_structure(5)) simp_all
  ultimately show "nearly_ok us" using assms(1) by (auto simp: us_def nearly_ok_def fields_ok_def)
qed

definition givenId :: "js_string option \<Rightarrow> js_string" where
  "givenId i = (case i of None \<Rightarrow> [] | Some s \<Rightarrow> js_trim s)"

text \<open>The relation of owners after a connection has left its group for another one, or for the root.\<close>

definition owners_moved :: "js_string \<Rightarrow> js_string \<Rightarrow> (js_string \<times> js_string) set \<Rightarrow> (js_string \<times> js_string) set" where
  "owners_moved c target r = {(x, i) \<in> r. x \<noteq> c} \<union> (if target = [] then {} else {(c, target)})"

lemma moved_connection:
  assumes "tags_ok ts" "c \<in> cn_id ` set cs" "clean c" "length c \<le> 256"
    and "givenId target = [] \<or> givenId target \<in> tag_ids ts"
  shows "\<exists>m. moveConnectionInTree fb ts order cs c target token before = Some m
    \<and> map ct_id (tt_connectionTags m) = map ct_id ts
    \<and> parent_rel (tt_connectionTags m) = parent_rel ts
    \<and> owner_rel (tt_connectionTags m) = owners_moved c (givenId target) (owner_rel ts)"
proof -
  let ?token = "buildSidebarRootConnectionToken c"
  let ?r = "removeSidebarItemTokenFromTagOrders ts ?token"
  let ?us = "map (\<lambda>t. t\<lparr>ct_connectionIds := filter (\<lambda>x. x \<noteq> c) (ct_connectionIds t)\<rparr>) ?r"
  let ?vs = "map (\<lambda>t. if ct_id t = givenId target then t\<lparr>ct_connectionIds := ct_connectionIds t @ [c]\<rparr> else t) ?us"
  note n = tags_ok_nearly [OF assms(1)]
  note r = remove_token_structure [OF n, of ?token]
  note u = remove_connection_structure [OF r(4), of c]
  have fixed: "normalizeConnectionTagTree fb ts = ts" by (rule normalize_tags_ok [OF assms(1)])
  have ids: "tag_ids ?us = tag_ids ts" using u(1) r(1) by (metis set_map)
  show ?thesis
  proof (cases "givenId target = []")
    case True
    note v = normalize_structure [OF u(4), of fb]
    from normalize_structure [OF v(4), of fb] v u r True assms(2) show ?thesis
      by (simp add: moveConnectionInTree_def Let_def fixed givenId_def [symmetric] owners_moved_def del: map_map)
  next
    case False
    with assms(5) have known: "givenId target \<in> tag_ids ?us" by (simp only: ids) simp
    have "c \<notin> Domain (owner_rel ?us)" unfolding u(3) by auto
    note a = add_connection_structure [OF u(4) known assms(3,4) this]
    note v = normalize_structure [OF a(4), of fb]
    let ?ns = "normalizeConnectionTagTree fb ?vs"
    note o = set_child_order_structure [OF v(4), of "givenId target"
        "placeSidebarItemToken (resolveConnectionTagChildOrder (givenId target) ?ns) ?token token before"]
    from normalize_structure [OF o(4), of fb] o v a u r False assms(2,5) show ?thesis
      by (simp add: moveConnectionInTree_def Let_def fixed givenId_def [symmetric] owners_moved_def del: map_map)
  qed
qed

lemma materialized_structure:
  assumes "tags_ok ts" "materializeManualConnectionOrder env ts order cs mode target = (tree, mode')"
  shows "map ct_id (tt_connectionTags tree) = map ct_id ts"
    "parent_rel (tt_connectionTags tree) = parent_rel ts" "owner_rel (tt_connectionTags tree) = owner_rel ts"
proof -
  have "map ct_id (tt_connectionTags tree) = map ct_id ts \<and> parent_rel (tt_connectionTags tree) = parent_rel ts
    \<and> owner_rel (tt_connectionTags tree) = owner_rel ts"
    using materialized_map [OF assms]
  proof
    assume "\<exists>t\<in>set ts. \<exists>os. mset os = mset (ct_connectionIds t)
        \<and> tt_connectionTags tree = map (\<lambda>u. if ct_id u = ct_id t
            then u\<lparr>ct_connectionIds := os,
                   ct_childOrder := applyConnectionOrderToMixedTokens (ct_childOrder t) os,
                   ct_connectionSortMode := Some SortManual\<rparr> else u) ts"
    then obtain t os where t: "t \<in> set ts" "mset os = mset (ct_connectionIds t)" and
      m: "tt_connectionTags tree = map (\<lambda>u. if ct_id u = ct_id t
            then u\<lparr>ct_connectionIds := os,
                   ct_childOrder := applyConnectionOrderToMixedTokens (ct_childOrder t) os,
                   ct_connectionSortMode := Some SortManual\<rparr> else u) ts" (is "_ = map ?f ts") by blast
    have unique: "u = t" if "u \<in> set ts" "ct_id u = ct_id t" for u
      using assms(1) t(1) that by (auto simp: tags_ok_def tree_ok_def tag_forest_def distinct_map inj_on_def)
    have "owner_rel (map ?f ts) = owner_rel ts"
      by (rule owner_rel_map) (use unique mset_eq_setD [OF t(2)] in auto)
    then show ?thesis unfolding m using same_structure [of ts ?f] by simp
  qed simp
  then show "map ct_id (tt_connectionTags tree) = map ct_id ts"
    "parent_rel (tt_connectionTags tree) = parent_rel ts" "owner_rel (tt_connectionTags tree) = owner_rel ts" by blast+
qed

section \<open>Moving a group\<close>

lemma moved_parent_rel:
  "i \<in> tag_ids ts \<Longrightarrow>
   parent_rel (moveTagTo i p ts) = {(q, x) \<in> parent_rel ts. x \<noteq> i} \<union> (if p = [] then {} else {(p, i)})"
  by (auto simp: parent_rel_def moveTagTo_def simp del: if_image_distrib split: if_splits)

lemma parent_rel_moveTagTo: "parent_rel (moveTagTo i p ts) \<subseteq> insert (p, i) (parent_rel ts)"
  by (auto simp: parent_rel_def moveTagTo_def)

interpretation store: reparenting parent_rel moveTagTo "\<lambda>p. True"
  by unfold_locales (rule parent_rel_moveTagTo)

lemma moved_tag_structure:
  assumes "nearly_ok ts" "i \<in> tag_ids ts" "p = [] \<or> p \<in> tag_ids ts \<and> (i, p) \<notin> (parent_rel ts)\<^sup>*"
  shows "map ct_id (moveTagTo i p ts) = map ct_id ts" "owner_rel (moveTagTo i p ts) = owner_rel ts"
    "nearly_ok (moveTagTo i p ts)"
proof -
  show ids: "map ct_id (moveTagTo i p ts) = map ct_id ts" by (simp add: moveTagTo_def)
  show "owner_rel (moveTagTo i p ts) = owner_rel ts" unfolding moveTagTo_def by (rule owner_rel_map) simp_all
  have f: "tag_forest ts" using assms(1) by (simp add: nearly_ok_def)
  have "acyclic (parent_rel (moveTagTo i p ts))"
  proof (cases "p = []")
    case True
    then have "parent_rel (moveTagTo i p ts) \<subseteq> parent_rel ts" by (auto simp: moved_parent_rel [OF assms(2)])
    with f show ?thesis by (auto simp: tag_forest_def intro: acyclic_subset)
  next
    case False
    with assms(3) f show ?thesis by (intro store.acyclic_reparent) (simp_all add: tag_forest_def)
  qed
  moreover have "tag_ids (moveTagTo i p ts) = tag_ids ts" using ids by (metis set_map)
  moreover have "\<forall>t\<in>set (moveTagTo i p ts). clean (ct_id t) \<and> (ct_parentTagId t = [] \<or> ct_parentTagId t \<in> tag_ids ts)"
    using f assms(3) by (auto simp: moveTagTo_def tag_forest_def)
  ultimately have forest: "tag_forest (moveTagTo i p ts)" using f ids by (simp add: tag_forest_def)
  have "owned_connections (moveTagTo i p ts) = owned_connections ts"
    unfolding owned_connections_def moveTagTo_def map_map by (rule arg_cong [where f = concat], rule map_cong) auto
  with assms(1) forest show "nearly_ok (moveTagTo i p ts)"
    by (auto simp: nearly_ok_def well_owned_def moveTagTo_def fields_ok_def)
qed

text \<open>The two searches for an ancestor, of the sidebar and of the store, agree on normalized groups.\<close>

lemma searches_agree:
  "\<forall>t\<in>set ts. js_trim (ct_parentTagId t) = ct_parentTagId t \<Longrightarrow>
   selfOrDescendantLoop ts a c seen = ancestorLoop ts a c seen"
proof (induction ts a c seen rule: selfOrDescendantLoop.induct)
  case (1 ts a c seen)
  show ?case
  proof (cases "c = [] \<or> c \<in> set seen \<or> c = a \<or> tagWithId ts c = None")
    case True
    then show ?thesis by (auto simp: selfOrDescendantLoop.simps [of ts a c] ancestorLoop.simps [of ts a c])
  next
    case False
    then obtain t where t: "tagWithId ts c = Some t" by auto
    then have "js_trim (ct_parentTagId t) = ct_parentTagId t" using 1(2) tagWithId_Some [OF t] by simp
    with False t 1(1) [OF _ _ t 1(2)] show ?thesis
      by (simp add: selfOrDescendantLoop.simps [of ts a c] ancestorLoop.simps [of ts a c]
          resolveConnectionTagParentId_def)
  qed
qed

lemma trimmed_parents:
  assumes "tag_forest ts" "t \<in> set ts"
  shows "js_trim (ct_parentTagId t) = ct_parentTagId t"
proof -
  have "ct_parentTagId t = [] \<or> ct_parentTagId t \<in> tag_ids ts" "\<forall>u\<in>set ts. clean (ct_id u)"
    using assms by (auto simp: tag_forest_def)
  then show ?thesis by (auto simp: clean_def)
qed

lemma tag_rel_forest: "tag_forest ts \<Longrightarrow> tag_rel ts = parent_rel ts"
proof -
  assume f: "tag_forest ts"
  then have d: "distinct (map ct_id ts)" by (simp add: tag_forest_def)
  have "tagWithId ts c = Some t \<and> resolveConnectionTagParentId t = p
      \<longleftrightarrow> tagWithId ts c = Some t \<and> ct_parentTagId t = p" for c t p
    using trimmed_parents [OF f] by (auto simp: resolveConnectionTagParentId_def dest: tagWithId_Some)
  then show ?thesis by (auto simp: tag_rel_def parent_rel_lookup [OF d])
qed

lemma ancestor_sound:
  "ancestorLoop ts a c seen \<Longrightarrow> (a, c) \<in> (tag_rel ts)\<^sup>*"
proof (induction ts a c seen rule: ancestorLoop.induct)
  case (1 ts a c seen)
  show ?case
  proof (cases "c = a")
    case False
    with 1(2) have c: "\<not> (c = [] \<or> c \<in> set seen)" by (simp add: ancestorLoop.simps [of ts a c] split: if_splits)
    with False 1(2) obtain t where t: "tagWithId ts c = Some t" "ancestorLoop ts a (resolveConnectionTagParentId t) (c # seen)"
      by (auto simp: ancestorLoop.simps [of ts a c] split: option.splits)
    from 1(1) [OF c False t] have "(a, resolveConnectionTagParentId t) \<in> (tag_rel ts)\<^sup>*" .
    moreover have "resolveConnectionTagParentId t \<noteq> []"
      using t(2) by (auto simp: ancestorLoop.simps [of ts a "[]"])
    then have "(resolveConnectionTagParentId t, c) \<in> tag_rel ts" using t(1) by (auto simp: tag_rel_def)
    ultimately show ?thesis by (rule rtrancl_into_rtrancl)
  qed simp
qed

lemma self_or_descendant:
  assumes "tag_forest ts" "p \<noteq> []"
  shows "isConnectionTagSelfOrDescendant i p ts \<longleftrightarrow> (i, p) \<in> (parent_rel ts)\<^sup>*"
proof -
  have "isConnectionTagSelfOrDescendant i p ts = ancestorLoop ts i p []"
    using trimmed_parents [OF assms(1)] by (simp add: isConnectionTagSelfOrDescendant_def searches_agree)
  moreover have "acyclic (tag_rel ts)" using assms(1) by (simp add: tag_rel_forest) (simp add: tag_forest_def)
  ultimately show ?thesis
    using ancestor_found [of ts i p "[]"] ancestor_sound [of ts i p "[]"] assms by (auto simp: tag_rel_forest)
qed

text \<open>The relation of parents after a group has moved below another one, or to the root.\<close>

definition parents_moved :: "js_string \<Rightarrow> js_string \<Rightarrow> (js_string \<times> js_string) set \<Rightarrow> (js_string \<times> js_string) set" where
  "parents_moved i p r = {(q, x) \<in> r. x \<noteq> i} \<union> (if p = [] then {} else {(p, i)})"

lemma moved_group:
  assumes "tags_ok ts" "i \<in> tag_ids ts"
    and "givenId target = [] \<or> givenId target \<in> tag_ids ts \<and> (i, givenId target) \<notin> (parent_rel ts)\<^sup>*"
  shows "\<exists>m. moveConnectionTagInTree fb ts order cs i target token before = Some m
    \<and> map ct_id (tt_connectionTags m) = map ct_id ts
    \<and> owner_rel (tt_connectionTags m) = owner_rel ts
    \<and> parent_rel (tt_connectionTags m) = parents_moved i (givenId target) (parent_rel ts)"
proof -
  let ?p = "givenId target" and ?token = "buildSidebarRootTagToken i"
  let ?r = "removeSidebarItemTokenFromTagOrders ts ?token"
  note n = tags_ok_nearly [OF assms(1)]
  have f: "tag_forest ts" using n by (simp add: nearly_ok_def)
  note r = remove_token_structure [OF n, of ?token]
  have ids: "tag_ids ?r = tag_ids ts" using r(1) by (metis set_map)
  have i: "i \<in> tag_ids ?r" "?p = [] \<or> ?p \<in> tag_ids ?r \<and> (i, ?p) \<notin> (parent_rel ?r)\<^sup>*"
    unfolding ids r(2) by (fact assms(2), fact assms(3))
  note u = moved_tag_structure [OF r(4) i] moved_parent_rel [OF i(1), of ?p]
  note v = normalize_structure [OF u(3), of fb]
  let ?ns = "normalizeConnectionTagTree fb (moveTagTo i ?p ?r)"
  have fixed: "normalizeConnectionTagTree fb ts = ts" by (rule normalize_tags_ok [OF assms(1)])
  have known: "tagWithId ts i \<noteq> None" using assms(2) by (simp add: tagWithId_None)
  have accept: "\<not> (?p \<noteq> [] \<and> (tagWithId ts ?p = None \<or> isConnectionTagSelfOrDescendant i ?p ts))"
    using assms(3) self_or_descendant [OF f] by (auto simp: tagWithId_None)
  note o = set_child_order_structure [OF v(4), of ?p
      "placeSidebarItemToken (resolveConnectionTagChildOrder ?p ?ns) ?token token before"]
  note w = normalize_structure [OF v(4), of fb] normalize_structure [OF o(4), of fb]
  define result where "result = (if ?p \<noteq> [] then
      normalizeConnectionTagTreeState fb (setConnectionTagChildOrder ?ns ?p
        (placeSidebarItemToken (resolveConnectionTagChildOrder ?p ?ns) ?token token before))
        (filter (\<lambda>t. t \<noteq> ?token) (resolveSidebarRootOrderTokens order ts cs)) cs
    else normalizeConnectionTagTreeState fb ?ns
        (placeSidebarItemToken (resolveSidebarRootOrderTokens
          (filter (\<lambda>t. t \<noteq> ?token) (resolveSidebarRootOrderTokens order ts cs)) ?ns cs) ?token token before) cs)"
  have "moveConnectionTagInTree fb ts order cs i target token before = Some result"
    using known accept
    by (simp add: moveConnectionTagInTree_def Let_def normalizeConnectionTagTreeState_def fixed result_def
        givenId_def [symmetric] moveTagTo_def [symmetric] del: map_map)
  moreover have "map ct_id (tt_connectionTags result) = map ct_id ts
      \<and> owner_rel (tt_connectionTags result) = owner_rel ts
      \<and> parent_rel (tt_connectionTags result) = parents_moved i ?p (parent_rel ts)"
    unfolding result_def parents_moved_def using w v u r o by (cases "?p = []") simp_all
  ultimately show ?thesis by blast
qed

lemma rejected_group:
  assumes "tags_ok ts" "i \<in> tag_ids ts" "givenId target \<noteq> []"
    and "givenId target \<notin> tag_ids ts \<or> (i, givenId target) \<in> (parent_rel ts)\<^sup>*"
  shows "moveConnectionTagInTree fb ts order cs i target token before = None"
proof -
  have f: "tag_forest ts" using tags_ok_nearly [OF assms(1)] by (simp add: nearly_ok_def)
  have fixed: "normalizeConnectionTagTree fb ts = ts" by (rule normalize_tags_ok [OF assms(1)])
  have "tagWithId ts (givenId target) = None \<or> isConnectionTagSelfOrDescendant i (givenId target) ts"
    using assms(4) self_or_descendant [OF f assms(3)] by (auto simp: tagWithId_None)
  with assms(3) show ?thesis
    by (auto simp: moveConnectionTagInTree_def Let_def fixed givenId_def [symmetric])
qed

section \<open>Removing groups\<close>

lemma owned_filter_tags:
  "distinct (owned_connections ts) \<Longrightarrow>
   distinct (owned_connections (filter P ts)) \<and> set (owned_connections (filter P ts)) \<subseteq> set (owned_connections ts)"
  by (induction ts) (auto simp: owned_connections_def)

lemma filter_structure:
  assumes "nearly_ok ts" "\<forall>q x. (q, x) \<in> parent_rel ts \<longrightarrow> P x \<longrightarrow> P q"
  defines "us \<equiv> filter (\<lambda>t. P (ct_id t)) ts"
  shows "tag_ids us = {i \<in> tag_ids ts. P i}" "parent_rel us = {(q, x) \<in> parent_rel ts. P x}"
    "owner_rel us = {(c, i) \<in> owner_rel ts. P i}" "nearly_ok us"
proof -
  show ids: "tag_ids us = {i \<in> tag_ids ts. P i}" by (auto simp: us_def)
  show rel: "parent_rel us = {(q, x) \<in> parent_rel ts. P x}" by (auto simp: us_def parent_rel_def)
  show "owner_rel us = {(c, i) \<in> owner_rel ts. P i}" by (auto simp: us_def owner_rel_def)
  have f: "tag_forest ts" "well_owned ts" using assms(1) by (simp_all add: nearly_ok_def)
  have "ct_parentTagId t = [] \<or> ct_parentTagId t \<in> tag_ids us" if t: "t \<in> set us" for t
  proof (cases "ct_parentTagId t = []")
    case False
    with t have "(ct_parentTagId t, ct_id t) \<in> parent_rel ts" by (auto simp: us_def parent_rel_def)
    with assms(2) t have "P (ct_parentTagId t)" by (simp add: us_def)
    with t f(1) False show ?thesis unfolding ids by (auto simp: us_def tag_forest_def)
  qed simp
  moreover have "acyclic (parent_rel us)" using f(1) rel by (auto simp: tag_forest_def intro: acyclic_subset)
  ultimately have "tag_forest us" using f(1) by (auto simp: tag_forest_def us_def distinct_map_filter)
  moreover have "well_owned us"
    using f(2) owned_filter_tags [of ts "\<lambda>t. P (ct_id t)"] by (auto simp: us_def well_owned_def ids_ok_def)
  ultimately show "nearly_ok us" using assms(1) by (auto simp: nearly_ok_def us_def)
qed

text \<open>The search for the groups below a group.\<close>

lemma removedLoop_steps:
  "removedLoop ts [] removed = removed"
  "c = [] \<or> c \<in> set removed \<Longrightarrow> removedLoop ts (c # rest) removed = removedLoop ts rest removed"
  "\<not> (c = [] \<or> c \<in> set removed) \<Longrightarrow> removedLoop ts (c # rest) removed
    = removedLoop ts (rev (map ct_id (filter (\<lambda>t. ct_parentTagId t = c) ts)) @ rest) (c # removed)"
  by (subst removedLoop.simps; auto)+

lemma removedLoop_sound:
  "x \<in> set (removedLoop ts pending removed) \<Longrightarrow>
   x \<in> set removed \<or> (\<exists>p\<in>set pending. p \<noteq> [] \<and> (p, x) \<in> (parent_rel ts)\<^sup>*)"
proof (induction ts pending removed rule: removedLoop.induct)
  case (1 ts pending removed)
  show ?case
  proof (cases pending)
    case Nil
    with 1(3) show ?thesis by (simp add: removedLoop_steps)
  next
    case (Cons c rest)
    show ?thesis
    proof (cases "c = [] \<or> c \<in> set removed")
      case True
      with 1(1) [OF Cons True] 1(3) show ?thesis unfolding Cons removedLoop_steps(2) [OF True] by auto
    next
      case False
      have child: "(c, ct_id t) \<in> parent_rel ts" if "t \<in> set ts" "ct_parentTagId t = c" for t
        using that False by (auto simp: parent_rel_def)
      from 1(2) [OF Cons False] 1(3) False child show ?thesis
        unfolding Cons removedLoop_steps(3) [OF False] by (auto intro: converse_rtrancl_into_rtrancl)
    qed
  qed
qed

lemma removedLoop_complete:
  assumes "\<forall>q x. (q, x) \<in> parent_rel ts \<longrightarrow> q \<in> set removed \<longrightarrow> x \<in> set removed \<union> set pending"
    "\<forall>q x. (q, x) \<in> parent_rel ts \<longrightarrow> x \<noteq> []"
  shows "set removed \<union> (set pending - {[]}) \<subseteq> set (removedLoop ts pending removed)
    \<and> (\<forall>q x. (q, x) \<in> parent_rel ts \<longrightarrow> q \<in> set (removedLoop ts pending removed) \<longrightarrow>
          x \<in> set (removedLoop ts pending removed))"
  using assms
proof (induction ts pending removed rule: removedLoop.induct)
  case (1 ts pending removed)
  show ?case
  proof (cases pending)
    case Nil
    with 1(3) show ?thesis by (simp add: removedLoop_steps)
  next
    case (Cons c rest)
    show ?thesis
    proof (cases "c = [] \<or> c \<in> set removed")
      case True
      have "\<forall>q x. (q, x) \<in> parent_rel ts \<longrightarrow> q \<in> set removed \<longrightarrow> x \<in> set removed \<union> set rest"
        using 1(3,4) Cons True by auto
      from 1(1) [OF Cons True this 1(4)] True show ?thesis unfolding Cons removedLoop_steps(2) [OF True] by auto
    next
      case False
      let ?pushed = "rev (map ct_id (filter (\<lambda>t. ct_parentTagId t = c) ts)) @ rest"
      have "x \<in> set (c # removed) \<union> set ?pushed" if "(q, x) \<in> parent_rel ts" "q \<in> set (c # removed)" for q x
        using that 1(3) Cons by (auto simp: parent_rel_def)
      then have "\<forall>q x. (q, x) \<in> parent_rel ts \<longrightarrow> q \<in> set (c # removed) \<longrightarrow> x \<in> set (c # removed) \<union> set ?pushed"
        by blast
      from 1(2) [OF Cons False this 1(4)] False show ?thesis unfolding Cons removedLoop_steps(3) [OF False] by auto
    qed
  qed
qed

lemma removed_ids:
  assumes "nearly_ok ts" "i \<noteq> []"
  shows "set (removedLoop ts [i] []) = {x. (i, x) \<in> (parent_rel ts)\<^sup>*}"
proof -
  have "\<forall>q x. (q, x) \<in> parent_rel ts \<longrightarrow> x \<noteq> []"
    using assms(1) by (auto simp: parent_rel_def nearly_ok_def tag_forest_def)
  from removedLoop_complete [OF _ this, of "[]" "[i]"] assms(2)
  have c: "i \<in> set (removedLoop ts [i] [])"
    "\<And>q x. (q, x) \<in> parent_rel ts \<Longrightarrow> q \<in> set (removedLoop ts [i] []) \<Longrightarrow> x \<in> set (removedLoop ts [i] [])" by auto
  have "x \<in> set (removedLoop ts [i] [])" if "(i, x) \<in> (parent_rel ts)\<^sup>*" for x
    using that by (induction rule: rtrancl_induct) (use c in auto)
  with removedLoop_sound [of _ ts "[i]" "[]"] show ?thesis by auto
qed

lemma removed_tree:
  assumes "tags_ok (ts_connectionTags s)" "i \<in> tag_ids (ts_connectionTags s)"
  defines "gone \<equiv> {x. (i, x) \<in> (parent_rel (ts_connectionTags s))\<^sup>*}"
  assumes s': "s' = removeConnectionTagTree env i s"
  shows "tag_ids (ts_connectionTags s') = tag_ids (ts_connectionTags s) - gone
    \<and> parent_rel (ts_connectionTags s') = {(q, x) \<in> parent_rel (ts_connectionTags s). x \<notin> gone}
    \<and> owner_rel (ts_connectionTags s') = {(c, x) \<in> owner_rel (ts_connectionTags s). x \<notin> gone}"
proof -
  let ?ts = "ts_connectionTags s"
  note n = tags_ok_nearly [OF assms(1)]
  have fixed: "normalizeConnectionTagTree fb ?ts = ?ts" for fb by (rule normalize_tags_ok [OF assms(1)])
  have "i \<noteq> []" using assms(2) n by (auto simp: nearly_ok_def tag_forest_def)
  note removed = removed_ids [OF n this, folded gone_def]
  have "\<forall>q x. (q, x) \<in> parent_rel ?ts \<longrightarrow> x \<notin> gone \<longrightarrow> q \<notin> gone"
    by (auto simp: gone_def intro: rtrancl_into_rtrancl)
  note f = filter_structure [OF n, of "\<lambda>x. x \<notin> gone", OF this]
  note v = normalize_structure [OF f(4), where fb = "te_fallbackName env"]
  have "i \<in> gone" by (simp add: gone_def)
  then have tags': "ts_connectionTags s' = normalizeConnectionTagTree (te_fallbackName env) (filter (\<lambda>t. ct_id t \<notin> gone) ?ts)"
    by (simp add: s' removeConnectionTagTree_def normalizedTree_def Let_def fixed removed)
  have "tag_ids (ts_connectionTags s') = {x \<in> tag_ids ?ts. x \<notin> gone}"
    using arg_cong [OF v(1), where f = set] f(1) unfolding tags' by (simp only: set_map)
  moreover have "parent_rel (ts_connectionTags s') = {(q, x) \<in> parent_rel ?ts. x \<notin> gone}"
    "owner_rel (ts_connectionTags s') = {(c, x) \<in> owner_rel ?ts. x \<notin> gone}"
    unfolding tags' by (simp_all only: v f)
  ultimately show ?thesis by auto
qed

text \<open>The groups without one group, whose children take its place.\<close>

definition promotedTag :: "connectionTag \<Rightarrow> connectionTag \<Rightarrow> connectionTag" where
  "promotedTag r t = t\<lparr>ct_parentTagId := (if ct_parentTagId t = ct_id r then ct_parentTagId r else ct_parentTagId t),
     ct_connectionIds := (if ct_parentTagId r \<noteq> [] \<and> ct_id t = ct_parentTagId r
       then ct_connectionIds t @ ct_connectionIds r else ct_connectionIds t)\<rparr>"

definition promoted :: "connectionTag \<Rightarrow> connectionTag list \<Rightarrow> connectionTag list" where
  "promoted r ts = map (promotedTag r) (filter (\<lambda>t. ct_id t \<noteq> ct_id r) ts)"

lemma promotedTag_fields [simp]: "ct_id (promotedTag r t) = ct_id t" "fields_ok (promotedTag r t) = fields_ok t"
  by (simp_all add: promotedTag_def fields_ok_def)

lemma owned_without:
  assumes "distinct (map ct_id ts)" "r \<in> set ts"
  shows "mset (owned_connections ts) = mset (ct_connectionIds r) + mset (owned_connections (filter (\<lambda>t. ct_id t \<noteq> ct_id r) ts))"
  using assms
proof (induction ts)
  case (Cons t ts)
  show ?case
  proof (cases "t = r")
    case True
    then have "filter (\<lambda>t. ct_id t \<noteq> ct_id r) ts = ts" using Cons.prems(1) by (force intro: filter_True simp: image_iff)
    with True show ?thesis by (simp add: owned_connections_def)
  next
    case False
    then have "ct_id t \<noteq> ct_id r" using Cons.prems by auto
    with False Cons show ?thesis by (simp add: owned_connections_def)
  qed
qed simp

lemma distinct_sub_mset:
  assumes "mset xs \<subseteq># mset ys" "distinct ys"
  shows "distinct xs"
proof -
  obtain zs where "mset ys = mset (xs @ zs)"
    using assms(1) ex_mset by (metis mset_append mset_subset_eq_exists_conv)
  from mset_eq_imp_distinct_iff [OF this] assms(2) show ?thesis by simp
qed

lemma promoted_structure:
  assumes "nearly_ok ts" "r \<in> set ts"
  defines "i \<equiv> ct_id r" and "p \<equiv> ct_parentTagId r"
  shows "tag_ids (promoted r ts) = tag_ids ts - {i}"
    "parent_rel (promoted r ts) = {(q, x) \<in> parent_rel ts. q \<noteq> i \<and> x \<noteq> i} \<union> {(q, x). q = p \<and> p \<noteq> [] \<and> (i, x) \<in> parent_rel ts}"
    "owner_rel (promoted r ts) = {(c, j) \<in> owner_rel ts. j \<noteq> i} \<union> {(c, j). j = p \<and> p \<noteq> [] \<and> (c, i) \<in> owner_rel ts}"
    "nearly_ok (promoted r ts)"
proof -
  have f: "tag_forest ts" "well_owned ts" "distinct (map ct_id ts)" "acyclic (parent_rel ts)"
    using assms(1) by (simp_all add: nearly_ok_def tag_forest_def)
  have i: "i \<noteq> []" "i \<in> tag_ids ts" using f(1) assms(2) by (auto simp: i_def tag_forest_def)
  have pi: "p \<noteq> [] \<Longrightarrow> (p, i) \<in> parent_rel ts" using assms(2) by (auto simp: parent_rel_def p_def i_def)
  then have p: "p \<noteq> [] \<Longrightarrow> p \<in> tag_ids ts \<and> p \<noteq> i"
    using f(1,4) assms(2) by (auto simp: tag_forest_def p_def acyclic_def dest: r_into_trancl)
  have r: "t = r" if "t \<in> set ts" "ct_id t = i" for t
    using f(3) assms(2) that by (auto simp: distinct_map inj_on_def i_def)
  show ids: "tag_ids (promoted r ts) = tag_ids ts - {i}" by (auto simp: promoted_def i_def image_image)
  show rel: "parent_rel (promoted r ts)
      = {(q, x) \<in> parent_rel ts. q \<noteq> i \<and> x \<noteq> i} \<union> {(q, x). q = p \<and> p \<noteq> [] \<and> (i, x) \<in> parent_rel ts}"
  proof -
    have "x \<noteq> i" if "(i, x) \<in> parent_rel ts" for x using that f(4) by (auto simp: acyclic_def)
    then show ?thesis
      using i(1) by (auto simp: parent_rel_def promoted_def promotedTag_def i_def p_def split: if_splits)
  qed
  show "owner_rel (promoted r ts)
      = {(c, j) \<in> owner_rel ts. j \<noteq> i} \<union> {(c, j). j = p \<and> p \<noteq> [] \<and> (c, i) \<in> owner_rel ts}"
  proof -
    have "(c, j) \<in> owner_rel (promoted r ts) \<longleftrightarrow> j \<noteq> i \<and> ((c, j) \<in> owner_rel ts
        \<or> j = p \<and> p \<noteq> [] \<and> (c, i) \<in> owner_rel ts)" for c j
    proof -
      have "(c, j) \<in> owner_rel (promoted r ts) \<longleftrightarrow> (\<exists>t\<in>set ts. ct_id t \<noteq> i \<and> ct_id t = j
          \<and> (c \<in> set (ct_connectionIds t) \<or> p \<noteq> [] \<and> ct_id t = p \<and> c \<in> set (ct_connectionIds r)))"
      proof -
        have "c \<in> set (if A then xs @ ys else xs) \<longleftrightarrow> c \<in> set xs \<or> A \<and> c \<in> set ys" for A and xs ys :: "js_string list"
          by simp
        then show ?thesis
          unfolding promoted_def owner_rel_map_iff by (simp add: promotedTag_def i_def p_def del: set_append split del: if_split) blast
      qed
      moreover have "(c, i) \<in> owner_rel ts \<longleftrightarrow> c \<in> set (ct_connectionIds r)"
        using r assms(2) by (auto simp: owner_rel_def i_def)
      moreover have "p \<noteq> [] \<Longrightarrow> \<exists>t\<in>set ts. ct_id t = p \<and> ct_id t \<noteq> i" using p by auto
      moreover have "(c, j) \<in> owner_rel ts \<longleftrightarrow> (\<exists>t\<in>set ts. ct_id t = j \<and> c \<in> set (ct_connectionIds t))"
        by (auto simp: owner_rel_def)
      ultimately show ?thesis by blast
    qed
    then show ?thesis using p by auto
  qed
  have "ct_parentTagId t = [] \<or> ct_parentTagId t \<in> tag_ids ts - {i}" if t: "t \<in> set (promoted r ts)" for t
  proof -
    obtain u where "u \<in> set ts" "t = promotedTag r u" using t by (auto simp: promoted_def)
    then have u: "u \<in> set ts" "ct_parentTagId t = (if ct_parentTagId u = i then p else ct_parentTagId u)"
      by (simp_all add: promotedTag_def i_def p_def)
    have "ct_parentTagId u = [] \<or> ct_parentTagId u \<in> tag_ids ts" using f(1) u(1) by (simp add: tag_forest_def)
    with p u(2) show ?thesis by (cases "ct_parentTagId u = i") auto
  qed
  moreover have "acyclic (parent_rel (promoted r ts))"
  proof (rule acyclic_subset)
    show "acyclic ((parent_rel ts)\<^sup>+)" using f(4) by (simp add: acyclic_def)
    show "parent_rel (promoted r ts) \<subseteq> (parent_rel ts)\<^sup>+" using pi unfolding rel by auto
  qed
  moreover have "distinct (map ct_id (promoted r ts))" using f(3) by (simp add: promoted_def o_def distinct_map_filter)
  moreover have "\<forall>t\<in>set (promoted r ts). clean (ct_id t)" using f(1) by (auto simp: promoted_def tag_forest_def)
  ultimately have forest: "tag_forest (promoted r ts)" by (simp add: tag_forest_def ids)
  have sub: "mset (owned_connections (promoted r ts)) \<subseteq># mset (owned_connections ts)"
  proof (cases "p = []")
    case True
    then have "owned_connections (promoted r ts) = owned_connections (filter (\<lambda>t. ct_id t \<noteq> ct_id r) ts)"
      by (simp add: promoted_def promotedTag_def owned_connections_def o_def p_def)
    then show ?thesis unfolding owned_without [OF f(3) assms(2)] by simp
  next
    case False
    let ?us = "filter (\<lambda>t. ct_id t \<noteq> ct_id r) ts"
    have "mset (owned_connections (promoted r ts)) = mset (ct_connectionIds r) + mset (owned_connections ?us)"
      unfolding promoted_def
    proof (rule owned_add)
      show "distinct (map ct_id ?us)" using f(3) by (simp add: distinct_map_filter)
      show "p \<in> tag_ids ?us" using p [OF False] by (auto simp: i_def)
    qed (use False in \<open>simp add: promotedTag_def p_def\<close>)
    then show ?thesis unfolding owned_without [OF f(3) assms(2)] by simp
  qed
  have "well_owned (promoted r ts)"
  proof -
    have "set (owned_connections (promoted r ts)) \<subseteq> set (owned_connections ts)" using set_mset_mono [OF sub] by simp
    moreover have "distinct (owned_connections (promoted r ts))"
      using f(2) distinct_sub_mset [OF sub] by (simp add: well_owned_def ids_ok_def)
    ultimately show ?thesis using f(2) by (auto simp: well_owned_def ids_ok_def)
  qed
  with forest show "nearly_ok (promoted r ts)"
    using assms(1) by (auto simp: nearly_ok_def promoted_def)
qed

lemma removed_group:
  assumes "tags_ok (ts_connectionTags s)" "r \<in> set (ts_connectionTags s)" "ct_id r = i" "ct_parentTagId r = p"
    and s': "s' = removeConnectionTag env i s"
  shows "tag_ids (ts_connectionTags s') = tag_ids (ts_connectionTags s) - {i}"
    "parent_rel (ts_connectionTags s') = {(q, x) \<in> parent_rel (ts_connectionTags s). q \<noteq> i \<and> x \<noteq> i}
       \<union> {(q, x). q = p \<and> p \<noteq> [] \<and> (i, x) \<in> parent_rel (ts_connectionTags s)}"
    "owner_rel (ts_connectionTags s') = {(c, j) \<in> owner_rel (ts_connectionTags s). j \<noteq> i}
       \<union> {(c, j). j = p \<and> p \<noteq> [] \<and> (c, i) \<in> owner_rel (ts_connectionTags s)}"
proof -
  let ?ts = "ts_connectionTags s" and ?fb = "te_fallbackName env"
  note n = tags_ok_nearly [OF assms(1)]
  have fixed: "normalizeConnectionTagTree fb ?ts = ?ts" for fb by (rule normalize_tags_ok [OF assms(1)])
  have found: "find (\<lambda>t. ct_id t = i) ?ts = Some r"
    using n assms(2,3) by (simp add: find_tag_distinct nearly_ok_def tag_forest_def)
  note u = promoted_structure [OF n assms(2), unfolded assms(3,4)]
  have step: "promotedTag r = (\<lambda>t. t\<lparr>ct_parentTagId := (if ct_parentTagId t = i then p else ct_parentTagId t),
      ct_connectionIds := (if p \<noteq> [] \<and> ct_id t = p then ct_connectionIds t @ ct_connectionIds r
        else ct_connectionIds t)\<rparr>)"
    by (rule ext) (simp only: promotedTag_def assms(3,4))
  let ?order = "replaceSidebarItemToken (resolveConnectionTagChildOrder p ?ts) (buildSidebarRootTagToken i)
      (resolveConnectionTagChildOrder i ?ts)"
  have "ts_connectionTags s' = normalizeConnectionTagTree ?fb
      (if p \<noteq> [] then setConnectionTagChildOrder (promoted r ?ts) p ?order else promoted r ?ts)"
    by (simp add: s' removeConnectionTag_def normalizedTree_def Let_def fixed found promoted_def step assms(3,4) cong: if_cong)
  then obtain vs where tags': "ts_connectionTags s' = normalizeConnectionTagTree ?fb vs" and
    vs: "map ct_id vs = map ct_id (promoted r ?ts)" "parent_rel vs = parent_rel (promoted r ?ts)"
      "owner_rel vs = owner_rel (promoted r ?ts)" "nearly_ok vs"
    using set_child_order_structure [OF u(4), of p ?order] u(4) by (cases "p = []") simp_all
  note w = normalize_structure [OF vs(4), where fb = ?fb]
  show "tag_ids (ts_connectionTags s') = tag_ids ?ts - {i}"
    using arg_cong [OF trans [OF w(1) vs(1)], where f = set] u(1) unfolding tags' by (simp only: set_map)
  show "parent_rel (ts_connectionTags s') = {(q, x) \<in> parent_rel ?ts. q \<noteq> i \<and> x \<noteq> i}
       \<union> {(q, x). q = p \<and> p \<noteq> [] \<and> (i, x) \<in> parent_rel ?ts}"
    "owner_rel (ts_connectionTags s') = {(c, j) \<in> owner_rel ?ts. j \<noteq> i}
       \<union> {(c, j). j = p \<and> p \<noteq> [] \<and> (c, i) \<in> owner_rel ?ts}"
    unfolding tags' by (simp_all only: w vs u)
qed

section \<open>Copying a group\<close>

lemma readTags_append:
  "readTags fb (xs @ ys) n seen
    = readTags fb xs n seen @ readTags fb ys (n + length xs) (rev (map ct_id (readTags fb xs n seen)) @ seen)"
proof (induction xs arbitrary: n seen)
  case (Cons x xs)
  show ?case by (simp add: Let_def Cons)
qed simp

lemma readTags_connections:
  "t \<in> set (readTags fb xs n seen) \<Longrightarrow> c \<in> set (ct_connectionIds t) \<Longrightarrow>
   \<exists>x\<in>set xs. c \<in> js_trim ` set (ct_connectionIds x)"
  by (induction fb xs n seen rule: readTags.induct)
    (auto simp: Let_def sanitizeIds_def split: if_splits)

lemma claim_append:
  "\<exists>b. claimConnections (xs @ ys) a = claimConnections xs a @ claimConnections ys b
     \<and> set b = set a \<union> set (owned_connections xs)"
proof (induction xs arbitrary: a)
  case (Cons x xs)
  let ?kept = "js_uniq (filter (\<lambda>c. c \<notin> set a) (ct_connectionIds x))"
  from Cons [of "?kept @ a"] obtain b where
    "claimConnections (xs @ ys) (?kept @ a) = claimConnections xs (?kept @ a) @ claimConnections ys b"
    "set b = set (?kept @ a) \<union> set (owned_connections xs)" by blast
  then show ?case by (intro exI [of _ b]) (auto simp: Let_def owned_connections_def)
qed (auto simp: owned_connections_def)

lemma claim_nothing_left:
  assumes "set (owned_connections ys) \<subseteq> set b" "t \<in> set (claimConnections ys b)"
  shows "ct_connectionIds t = []"
proof -
  have "set (owned_connections (claimConnections ys b)) = {}" using claim_spec [of ys b] assms(1) by auto
  with assms(2) show ?thesis by (auto simp: owned_connections_def)
qed

text \<open>Groups behind a tree keep none of the connections that the tree owns.\<close>

lemma later_groups_empty:
  assumes "nearly_ok xs" "\<forall>y\<in>set ys. set (ct_connectionIds y) \<subseteq> set (owned_connections xs)"
    and "u \<in> set (normalizeConnectionTagTree fb (xs @ ys))" "ct_id u \<notin> tag_ids xs"
  shows "ct_connectionIds u = []"
proof -
  let ?all = "xs @ ys"
  let ?read = "readTags fb ?all 0 []"
  let ?late = "readTags fb ys (length xs) (rev (map ct_id (readTags fb xs 0 [])))"
  have f: "tag_forest xs" "well_owned xs" "\<forall>t\<in>set xs. fields_ok t" using assms(1) by (simp_all add: nearly_ok_def)
  have first: "readTags fb xs 0 [] = map cleanOrder xs"
    by (rule readTags_clean) (use f tree_tag_read in \<open>auto simp: tag_forest_def\<close>)
  have read: "?read = map cleanOrder xs @ ?late" using readTags_append [of fb xs ys 0 "[]"] first by simp
  let ?cut = "cutTagCycles (map (dropUnknownTagParent ?read) ?read)"
  have cut_ids: "map ct_id ?cut = map ct_id ?read" and cut_conns: "map ct_connectionIds ?cut = map ct_connectionIds ?read"
  proof -
    have k: "known_parents (map (dropUnknownTagParent ?read) ?read)"
      by (rule drop_unknown_known) (use readTags_ok [of fb ?all 0 "[]"] in \<open>auto simp: tag_read_def\<close>)
    show "map ct_id ?cut = map ct_id ?read" using cutTagCycles_forest [OF k] by (simp add: o_def)
    show "map ct_connectionIds ?cut = map ct_connectionIds ?read"
      using cut_tags_same [of "map ct_id (map (dropUnknownTagParent ?read) ?read)" "map (dropUnknownTagParent ?read) ?read"]
      by (simp add: cutTagCycles_def o_def)
  qed
  define as bs where "as = take (length xs) ?cut" and "bs = drop (length xs) ?cut"
  have ab: "?cut = as @ bs" by (simp add: as_def bs_def)
  have as: "map ct_id as = map ct_id xs" "map ct_connectionIds as = map ct_connectionIds xs"
    using cut_ids cut_conns by (simp_all add: as_def read take_map [symmetric] o_def)
  have bs: "map ct_connectionIds bs = map ct_connectionIds ?late"
    using cut_conns by (simp add: bs_def read drop_map [symmetric])
  have owned_as: "owned_connections as = owned_connections xs" by (simp add: owned_connections_def as(2))
  have "set (owned_connections bs) \<subseteq> set (owned_connections xs)"
  proof
    fix c assume "c \<in> set (owned_connections bs)"
    then have "c \<in> set (owned_connections ?late)" by (simp add: owned_connections_def bs)
    then obtain t where "t \<in> set ?late" "c \<in> set (ct_connectionIds t)" by (auto simp: owned_connections_def)
    from readTags_connections [OF this] obtain y d where d: "y \<in> set ys" "d \<in> set (ct_connectionIds y)" "c = js_trim d" by auto
    then have "d \<in> set (owned_connections xs)" using assms(2) by auto
    moreover from this have "js_trim d = d" using f(2) by (auto simp: well_owned_def ids_ok_def clean_def)
    ultimately show "c \<in> set (owned_connections xs)" using d(3) by simp
  qed
  moreover obtain b where b: "claimConnections ?cut [] = claimConnections as [] @ claimConnections bs b"
    "set b = set (owned_connections xs)"
    using claim_append [of as bs "[]"] by (auto simp: ab owned_as)
  ultimately have late: "ct_connectionIds t = []" if "t \<in> set (claimConnections bs b)" for t
    using claim_nothing_left that by blast
  have claimed: "claimedTags fb ?all = claimConnections as [] @ claimConnections bs b"
    by (simp add: claimedTags_def Let_def b(1))
  obtain t where t: "t \<in> set (claimedTags fb ?all)" "u = orderTag (claimedTags fb ?all) t"
    using assms(3) by (auto simp: normalize_claimedTags)
  have "t \<in> set (claimConnections bs b)"
  proof (rule ccontr)
    assume "t \<notin> set (claimConnections bs b)"
    then have "t \<in> set (claimConnections as [])" using t(1) claimed by auto
    then have "ct_id t \<in> set (map ct_id (claimConnections as []))" unfolding set_map by (rule imageI)
    then have "ct_id t \<in> tag_ids xs" unfolding claim_same as(1) set_map .
    with assms(4) t(2) show False by simp
  qed
  from late [OF this] order_spec [of "claimedTags fb ?all" t] claimedTags_ok [of fb ?all] t show ?thesis by simp
qed

lemma collectLoop_sound:
  "x \<in> set (collectLoop ts pending found) \<Longrightarrow>
   \<forall>p\<in>set pending \<union> set found. p \<noteq> [] \<and> (i, p) \<in> (parent_rel ts)\<^sup>* \<Longrightarrow>
   \<forall>t\<in>set ts. ct_id t \<noteq> [] \<Longrightarrow> (i, x) \<in> (parent_rel ts)\<^sup>*"
proof (induction ts pending found rule: collectLoop.induct)
  case (1 ts pending found)
  show ?case
  proof (cases pending)
    case Nil
    with 1(3,4) show ?thesis by (simp add: collectLoop.simps [of ts "[]" found])
  next
    case (Cons c rest)
    show ?thesis
    proof (cases "c \<in> set found")
      case True
      with 1(1) [OF Cons True] 1(3-5) Cons show ?thesis by (simp add: collectLoop.simps [of ts "c # rest" found])
    next
      case False
      have c: "c \<noteq> []" "(i, c) \<in> (parent_rel ts)\<^sup>*" using 1(4) Cons by auto
      have "(c, ct_id t) \<in> parent_rel ts" if "t \<in> set ts" "ct_parentTagId t = c" for t
        using that c by (auto simp: parent_rel_def)
      with c have children: "(i, ct_id t) \<in> (parent_rel ts)\<^sup>*" if "t \<in> set ts" "ct_parentTagId t = c" for t
        using that by (auto intro: rtrancl_into_rtrancl)
      let ?pushed = "map ct_id (filter (\<lambda>t. ct_parentTagId t = c) ts) @ rest"
      have "\<forall>p\<in>set ?pushed \<union> set (found @ [c]). p \<noteq> [] \<and> (i, p) \<in> (parent_rel ts)\<^sup>*"
        using 1(4,5) Cons children c by auto
      moreover have "x \<in> set (collectLoop ts ?pushed (found @ [c]))"
        using 1(3) Cons False by (simp add: collectLoop.simps [of ts "c # rest" found])
      ultimately show ?thesis using 1(2) [OF Cons False] 1(5) by blast
    qed
  qed
qed

end
