(* ===== verification/ConnectionGroupProps.thy ===== *)
theory ConnectionGroupProps
  imports ConnectionMovesProps
begin

text \<open>
  What the operations of the store do to the groups of connections, for every state the store can
  reach: the tree stays a tree, and each operation changes exactly the parents and the owners it is
  asked to change. The states of the witnesses are built by the operations themselves.
\<close>

section \<open>A small store\<close>

definition smallEnv :: treeEnv where
  "smallEnv = \<lparr>te_fallbackName = \<lambda>_. js ''group'', te_sameName = (=), te_compareNames = \<lambda>_ _. 0,
     te_compareIds = \<lambda>_ _. 0\<rparr>"

definition namedGroup :: "string \<Rightarrow> string \<Rightarrow> js_string list \<Rightarrow> connectionTag" where
  "namedGroup i parent connections = \<lparr>ct_id = js i, ct_name = js i, ct_createdAt = None, ct_parentTagId = js parent,
     ct_connectionIds = connections, ct_childOrder = [], ct_sortMode = None, ct_connectionSortMode = None\<rparr>"

text \<open>A group with the connection \<open>x\<close> inside a group with the connection \<open>y\<close>.\<close>

definition smallStore :: treeState where
  "smallStore = addConnectionTag smallEnv 1 (namedGroup ''b'' ''a'' [js ''x''])
     (addConnectionTag smallEnv 1 (namedGroup ''a'' [] [js ''y''])
       (replaceConnections smallEnv
         [\<lparr>cn_id = js ''x'', cn_name = js ''x'', cn_createdAt = None\<rparr>,
          \<lparr>cn_id = js ''y'', cn_name = js ''y'', cn_createdAt = None\<rparr>] initialTreeState))"

lemma smallEnv_ok: "env_ok smallEnv"
proof -
  have "clean (js ''group'')" by code_simp
  then show ?thesis by (simp add: env_ok_def smallEnv_def)
qed

lemma smallStore_reachable: "treeReachable smallEnv smallStore"
  unfolding smallStore_def
  by (intro tree_step [OF _ step_add_tag] tree_step [OF _ step_replace] tree_initial)

lemma smallStore_tags:
  "map (\<lambda>t. (ct_id t, ct_parentTagId t, ct_connectionIds t)) (ts_connectionTags smallStore)
    = [(js ''a'', [], [js ''y'']), (js ''b'', js ''a'', [js ''x''])]"
  by code_simp

lemma smallStore_connections: "map cn_id (ts_connections smallStore) = [js ''x'', js ''y'']"
  by code_simp

lemma smallStore_ids: "tag_ids (ts_connectionTags smallStore) = {js ''a'', js ''b''}"
proof -
  have "map ct_id (ts_connectionTags smallStore) = [js ''a'', js ''b'']"
    using arg_cong [OF smallStore_tags, of "map fst"] by (simp add: o_def)
  then show ?thesis by (metis set_map list.set(1) list.set(2))
qed

lemma smallStore_names: "clean (js ''x'')" "length (js ''x'') \<le> 256"
  "givenId (Some (js ''a'')) = js ''a''" "givenId (Some (js ''b'')) = js ''b''" "givenId None = []"
  by code_simp+

lemma smallStore_saved: "js ''x'' \<in> cn_id ` set (ts_connections smallStore)"
proof -
  have "js ''x'' \<in> set (map cn_id (ts_connections smallStore))" unfolding smallStore_connections by simp
  then show ?thesis by simp
qed

lemma smallStore_parent: "parent_rel (ts_connectionTags smallStore) = {(js ''a'', js ''b'')}"
proof -
  have "parent_rel (ts_connectionTags smallStore)
      = {(q, i) |q i. q \<noteq> [] \<and> (\<exists>cs. (i, q, cs) \<in> set (map (\<lambda>t. (ct_id t, ct_parentTagId t, ct_connectionIds t))
          (ts_connectionTags smallStore)))}"
    by (auto simp: parent_rel_def image_iff)
  then show ?thesis unfolding smallStore_tags by (auto simp: js_def)
qed

section \<open>The groups that are copied\<close>

lemma last_index_found: "i \<in> set xs \<Longrightarrow> \<exists>k. lastIndexOf xs i = Some k"
  by (auto simp: lastIndexOf_def find_None_iff in_set_conv_nth simp flip: not_None_eq)

lemma last_index_none: "i \<notin> set xs \<Longrightarrow> lastIndexOf xs i = None"
  by (auto simp: lastIndexOf_def find_None_iff)

lemma below_not_above: "tag_forest ts \<Longrightarrow> (p, i) \<in> parent_rel ts \<Longrightarrow> (i, p) \<notin> (parent_rel ts)\<^sup>*"
  by (auto simp: tag_forest_def acyclic_def dest: rtrancl_into_trancl2 rtrancl_into_trancl1)

lemma copied_ids_below:
  assumes "tag_forest ts" "x \<in> set (copiedIds ts i)" "i \<in> tag_ids ts"
  shows "(i, x) \<in> (parent_rel ts)\<^sup>*"
proof (cases "x = i")
  case False
  have ids: "\<forall>t\<in>set ts. ct_id t \<noteq> []" and i: "i \<noteq> []" using assms(1,3) by (auto simp: tag_forest_def clean_def)
  have "(i, ct_id t) \<in> parent_rel ts" if "t \<in> set ts" "ct_parentTagId t = i" for t
    using that i by (auto simp: parent_rel_def)
  with False assms(2) ids show ?thesis
    by (intro collectLoop_sound [of x ts "map ct_id (filter (\<lambda>t. ct_parentTagId t = i) ts)" "[]"])
      (auto simp: copiedIds_def)
qed simp

lemma duplicated_tags:
  assumes "find (\<lambda>t. ct_id t = i) (ts_connectionTags s) = Some r"
  defines "olds \<equiv> copiedIds (ts_connectionTags s) i"
  shows "\<exists>g. (\<forall>t. ct_id (g t) = ct_id t \<and> ct_parentTagId (g t) = ct_parentTagId t
      \<and> ct_connectionIds (g t) = ct_connectionIds t \<and> ct_name (g t) = ct_name t \<and> fields_ok (g t) = fields_ok t)
    \<and> ts_connectionTags (duplicateConnectionTag uuid now i s) = map g (ts_connectionTags s
        @ map (copyTag (copyId uuid olds) now) (filter (\<lambda>t. ct_id t \<in> set olds) (ts_connectionTags s)))"
proof -
  define f :: "js_string list \<Rightarrow> connectionTag \<Rightarrow> connectionTag"
    where "f order t = (if ct_id t = ct_parentTagId r then t\<lparr>ct_childOrder := order\<rparr> else t)" for order t
  define all where "all = ts_connectionTags s
    @ map (copyTag (copyId uuid olds) now) (filter (\<lambda>t. ct_id t \<in> set olds) (ts_connectionTags s))"
  have f: "\<forall>t. ct_id (f order t) = ct_id t \<and> ct_parentTagId (f order t) = ct_parentTagId t
      \<and> ct_connectionIds (f order t) = ct_connectionIds t \<and> ct_name (f order t) = ct_name t
      \<and> fields_ok (f order t) = fields_ok t" for order
    by (simp add: f_def fields_ok_def)
  have "ts_connectionTags (duplicateConnectionTag uuid now i s) = map (\<lambda>t. t) all
      \<or> (\<exists>order. ts_connectionTags (duplicateConnectionTag uuid now i s) = map (f order) all)"
    by (auto simp: duplicateConnectionTag_def assms(1) Let_def setConnectionTagChildOrder_def olds_def all_def f_def
        simp del: map_append)
  then show ?thesis unfolding all_def [symmetric] using f by (metis (no_types, lifting))
qed

section \<open>Properties\<close>

text \<open>
  C38. Whatever the user does to connections and groups (adding, editing, removing, moving, sorting,
  loading a saved layout or the persisted state; all actions but the copy of a group), the groups of the
  store form a tree: identifiers are distinct, every parent is a group, no group lies below itself, no
  connection is in two groups, and the saved order of a group lists exactly its subgroups and
  connections.
\<close>

theorem store_keeps_a_tree:
  assumes "env_ok env" "treeReachable env s"
  shows "tree_ok (ts_connectionTags s) \<and> (\<forall>t\<in>set (ts_connectionTags s). fields_ok t)"
  using treeReachable_ok [OF assms(2,1)] by (simp add: tags_ok_def)

theorem store_keeps_a_tree_witness: "tree_ok (ts_connectionTags smallStore)"
  using store_keeps_a_tree [OF smallEnv_ok smallStore_reachable] by simp

text \<open>
  Moving a connection: for a connection of the store (with an identifier that is trimmed and has at
  most 256 units) and a known target group, or the root, the connection has the target as its only
  owner afterwards, every other connection keeps its owner, and the groups keep their parents,
  whatever token the move is anchored at and whatever order was shown.
\<close>

lemma moved_connection_changes_owner:
  assumes "env_ok env" "treeReachable env s" "c \<in> cn_id ` set (ts_connections s)" "clean c" "length c \<le> 256"
    and "givenId target = [] \<or> givenId target \<in> tag_ids (ts_connectionTags s)"
  shows "let s' = moveConnectionToTag env c target token before s in
    owner_rel (ts_connectionTags s') = owners_moved c (givenId target) (owner_rel (ts_connectionTags s))
    \<and> parent_rel (ts_connectionTags s') = parent_rel (ts_connectionTags s)
    \<and> map ct_id (ts_connectionTags s') = map ct_id (ts_connectionTags s)
    \<and> ts_connections s' = ts_connections s"
proof -
  have ok: "tags_ok (ts_connectionTags s)" by (rule treeReachable_ok [OF assms(2,1)])
  define base where "base = (if token \<noteq> None \<and> token \<noteq> Some []
    then materializeManualConnectionOrder env (ts_connectionTags s) (ts_sidebarRootOrder s) (ts_connections s)
           (ts_rootConnectionSortMode s) target
    else (\<lparr>tt_connectionTags = ts_connectionTags s, tt_sidebarRootOrder = ts_sidebarRootOrder s\<rparr>,
          ts_rootConnectionSortMode s))"
  obtain tree mode where b: "base = (tree, mode)" by fastforce
  have tree: "tags_ok (tt_connectionTags tree)" "map ct_id (tt_connectionTags tree) = map ct_id (ts_connectionTags s)"
    "parent_rel (tt_connectionTags tree) = parent_rel (ts_connectionTags s)"
    "owner_rel (tt_connectionTags tree) = owner_rel (ts_connectionTags s)"
    using b ok materialized_ok [OF ok] materialized_structure [OF ok] by (auto simp: base_def split: if_splits)
  have "tag_ids (tt_connectionTags tree) = tag_ids (ts_connectionTags s)" using tree(2) by (metis set_map)
  then have "givenId target = [] \<or> givenId target \<in> tag_ids (tt_connectionTags tree)" using assms(6) by simp
  from moved_connection [OF tree(1) assms(3-5) this] obtain m where m:
    "moveConnectionInTree (te_fallbackName env) (tt_connectionTags tree) (tt_sidebarRootOrder tree)
       (ts_connections s) c target token before = Some m"
    "map ct_id (tt_connectionTags m) = map ct_id (tt_connectionTags tree)"
    "parent_rel (tt_connectionTags m) = parent_rel (tt_connectionTags tree)"
    "owner_rel (tt_connectionTags m) = owners_moved c (givenId target) (owner_rel (tt_connectionTags tree))" by blast
  have "moveConnectionToTag env c target token before s = (withTree m s)\<lparr>ts_rootConnectionSortMode := mode\<rparr>"
    by (simp only: moveConnectionToTag_def Let_def base_def [symmetric] b fst_conv snd_conv m(1) option.case)
  then show ?thesis using m tree by (simp add: withTree_def)
qed

lemma moved_connection_changes_owner_witness:
  "owner_rel (ts_connectionTags (moveConnectionToTag smallEnv (js ''x'') (Some (js ''a'')) None False smallStore))
    = owners_moved (js ''x'') (js ''a'') (owner_rel (ts_connectionTags smallStore))"
  using moved_connection_changes_owner [OF smallEnv_ok smallStore_reachable smallStore_saved smallStore_names(1,2),
      of "Some (js ''a'')" None False]
  by (simp only: smallStore_names smallStore_ids Let_def insert_iff simp_thms)

text \<open>
  Moving a group: for a group of the store the move is carried out exactly when the target is the
  root or a known group that is neither the group itself nor below it; then the group has the target
  as its parent, all other parents and all owners stay; otherwise nothing changes.
\<close>

lemma moved_group_changes_parent:
  assumes "env_ok env" "treeReachable env s" "i \<in> tag_ids (ts_connectionTags s)"
  shows "let s' = moveConnectionTag env i target token before s; p = givenId target; ts = ts_connectionTags s in
    (p = [] \<or> p \<in> tag_ids ts \<and> (i, p) \<notin> (parent_rel ts)\<^sup>*
      \<longrightarrow> parent_rel (ts_connectionTags s') = parents_moved i p (parent_rel ts)
          \<and> owner_rel (ts_connectionTags s') = owner_rel ts \<and> map ct_id (ts_connectionTags s') = map ct_id ts)
    \<and> (\<not> (p = [] \<or> p \<in> tag_ids ts \<and> (i, p) \<notin> (parent_rel ts)\<^sup>*) \<longrightarrow> s' = s)"
proof -
  have ok: "tags_ok (ts_connectionTags s)" by (rule treeReachable_ok [OF assms(2,1)])
  show ?thesis
    using moved_group [OF ok assms(3), of target "te_fallbackName env" "ts_sidebarRootOrder s" "ts_connections s" token before]
      rejected_group [OF ok assms(3), of target "te_fallbackName env" "ts_sidebarRootOrder s" "ts_connections s" token before]
    by (auto simp: moveConnectionTag_def Let_def)
qed

lemma moved_group_changes_parent_witness:
  "parent_rel (ts_connectionTags (moveConnectionTag smallEnv (js ''b'') None None False smallStore)) = {}
   \<and> moveConnectionTag smallEnv (js ''a'') (Some (js ''b'')) None False smallStore = smallStore"
proof -
  have "parents_moved (js ''b'') [] {(js ''a'', js ''b'')} = {}" by (simp add: parents_moved_def)
  moreover have "(js ''a'', js ''b'') \<in> {(js ''a'', js ''b'')}\<^sup>*" by blast
  moreover have "js ''b'' \<noteq> []" by simp
  ultimately show ?thesis
    using moved_group_changes_parent [OF smallEnv_ok smallStore_reachable, of "js ''b''" None None False]
      moved_group_changes_parent [OF smallEnv_ok smallStore_reachable, of "js ''a''" "Some (js ''b'')" None False]
    by (simp only: smallStore_names smallStore_ids smallStore_parent Let_def insert_iff simp_thms)
qed

text \<open>
  The sidebar and the store agree: when the sidebar accepts the drop of a group of the store, and the
  parent the drop asks for is a group of the store (or none), the store carries the move out: the
  group gets that parent and nothing else changes its parent or its owner.
\<close>

lemma accepted_drop_is_carried_out:
  assumes "env_ok env" "treeReachable env s"
    and "resolveSidebarHostTreeMove dragNode dropNode placement (ts_connectionTags s) = Some (MoveTag i destination)"
    and "i \<in> tag_ids (ts_connectionTags s)"
    and "p = givenId (dd_targetParentTagId destination)" "p = [] \<or> p \<in> tag_ids (ts_connectionTags s)"
  shows "let s' = moveConnectionTag env i (dd_targetParentTagId destination) (dd_targetToken destination)
      (dd_insertBefore destination) s in
    parent_rel (ts_connectionTags s') = parents_moved i p (parent_rel (ts_connectionTags s))
    \<and> owner_rel (ts_connectionTags s') = owner_rel (ts_connectionTags s)"
proof -
  let ?ts = "ts_connectionTags s"
  have ok: "tags_ok ?ts" by (rule treeReachable_ok [OF assms(2,1)])
  have f: "tag_forest ?ts" using tags_ok_nearly [OF ok] by (simp add: nearly_ok_def)
  have i: "js_trim i = i" "i \<noteq> []" "\<not> isConnectionTagDescendant i (dd_targetParentTagId destination) ?ts"
    using assms(3) by (auto simp: resolveSidebarHostTreeMove_def Let_def split: if_splits)
  have "(i, p) \<notin> (parent_rel ?ts)\<^sup>*" if "p \<noteq> []"
  proof -
    have "\<not> ancestorLoop ?ts i p []"
      using i that assms(5) by (auto simp: isConnectionTagDescendant_def Let_def givenId_def split: option.splits)
    then show ?thesis
      using ancestor_found [of ?ts i p "[]"] that f by (auto simp: tag_rel_forest) (simp add: tag_forest_def)
  qed
  then have "givenId (dd_targetParentTagId destination) = [] \<or> givenId (dd_targetParentTagId destination) \<in> tag_ids ?ts
      \<and> (i, givenId (dd_targetParentTagId destination)) \<notin> (parent_rel ?ts)\<^sup>*"
    unfolding assms(5) [symmetric] using assms(6) by blast
  from moved_group [OF ok assms(4) this, of "te_fallbackName env" "ts_sidebarRootOrder s" "ts_connections s"
      "dd_targetToken destination" "dd_insertBefore destination"]
  show ?thesis using assms(5) by (auto simp: moveConnectionTag_def Let_def)
qed

lemma accepted_drop_is_carried_out_witness:
  "\<exists>destination. resolveSidebarHostTreeMove (hostTag ''b'') (hostTag ''a'') DropAfter (ts_connectionTags smallStore)
       = Some (MoveTag (js ''b'') destination)
     \<and> parent_rel (ts_connectionTags (moveConnectionTag smallEnv (js ''b'') (dd_targetParentTagId destination)
         (dd_targetToken destination) (dd_insertBefore destination) smallStore)) = {}"
proof -
  let ?d = "\<lparr>dd_targetParentTagId = None, dd_targetToken = Some (js ''tag:a''), dd_insertBefore = False\<rparr>"
  have m: "resolveSidebarHostTreeMove (hostTag ''b'') (hostTag ''a'') DropAfter (ts_connectionTags smallStore)
      = Some (MoveTag (js ''b'') ?d)"
    by code_simp
  have "parents_moved (js ''b'') [] {(js ''a'', js ''b'')} = {}" by (simp add: parents_moved_def)
  with accepted_drop_is_carried_out [OF smallEnv_ok smallStore_reachable m, of "[]"] m show ?thesis
    by (simp only: smallStore_ids smallStore_parent smallStore_names Let_def insert_iff simp_thms dropDestination.simps
        option.inject hostMove.inject ex_simps)
qed

text \<open>
  Removing a group hands everything it held to its parent: its subgroups get that parent (or become
  top-level groups), its connections join the parent (or the root), and no other group and no other
  connection changes its place.
\<close>

lemma removed_group_hands_over:
  assumes "env_ok env" "treeReachable env s" "r \<in> set (ts_connectionTags s)"
  shows "let i = ct_id r; p = ct_parentTagId r; ts = ts_connectionTags s;
      ts' = ts_connectionTags (removeConnectionTag env i s) in
    tag_ids ts' = tag_ids ts - {i}
    \<and> parent_rel ts' = {(q, x) \<in> parent_rel ts. q \<noteq> i \<and> x \<noteq> i}
        \<union> {(q, x). q = p \<and> p \<noteq> [] \<and> (i, x) \<in> parent_rel ts}
    \<and> owner_rel ts' = {(c, j) \<in> owner_rel ts. j \<noteq> i} \<union> {(c, j). j = p \<and> p \<noteq> [] \<and> (c, i) \<in> owner_rel ts}"
  using removed_group [OF treeReachable_ok [OF assms(2,1)] assms(3) refl refl refl, of env] by (simp add: Let_def)

lemma removed_group_hands_over_witness:
  "parent_rel (ts_connectionTags (removeConnectionTag smallEnv (ct_id (hd (ts_connectionTags smallStore))) smallStore)) = {}"
proof -
  have ne: "ts_connectionTags smallStore \<noteq> []" using smallStore_tags by auto
  then have h: "hd (ts_connectionTags smallStore) \<in> set (ts_connectionTags smallStore)" by simp
  have "ct_id (hd (ts_connectionTags smallStore)) = js ''a''" "ct_parentTagId (hd (ts_connectionTags smallStore)) = []"
    using ne smallStore_tags by (cases "ts_connectionTags smallStore"; simp)+
  with removed_group_hands_over [OF smallEnv_ok smallStore_reachable h] show ?thesis
    by (auto simp: smallStore_parent Let_def)
qed

text \<open>
  Removing a group with everything below it removes exactly the groups reachable from it, frees their
  connections, and leaves the parents and owners of all others as they were.
\<close>

lemma removed_tree_frees_connections:
  assumes "env_ok env" "treeReachable env s" "i \<in> tag_ids (ts_connectionTags s)"
  shows "let ts = ts_connectionTags s; ts' = ts_connectionTags (removeConnectionTagTree env i s);
      gone = {x. (i, x) \<in> (parent_rel ts)\<^sup>*} in
    tag_ids ts' = tag_ids ts - gone
    \<and> parent_rel ts' = {(q, x) \<in> parent_rel ts. x \<notin> gone}
    \<and> owner_rel ts' = {(c, x) \<in> owner_rel ts. x \<notin> gone}"
  using removed_tree [OF treeReachable_ok [OF assms(2,1)] assms(3) refl, of env] by (simp add: Let_def)

lemma removed_tree_frees_connections_witness:
  "tag_ids (ts_connectionTags (removeConnectionTagTree smallEnv (js ''a'') smallStore)) = {}"
proof -
  have "{js ''a'', js ''b''} \<subseteq> {x. (js ''a'', x) \<in> {(js ''a'', js ''b'')}\<^sup>*}" by blast
  then show ?thesis
    using removed_tree_frees_connections [OF smallEnv_ok smallStore_reachable, of "js ''a''"]
    by (simp only: smallStore_ids smallStore_parent Let_def insert_iff simp_thms Diff_eq_empty_iff)
qed

text \<open>
  Copying a group: the copy is made with the same connections as the group itself, so that for a moment
  they have two owners; whatever normalizes the groups next (every action on groups and connections, and
  the next start) leaves the copies without connections. The copy also loses its place: whatever the
  parent of the group was, the copy has none.
\<close>

lemma copied_group_loses_its_connections:
  assumes "env_ok env" "treeReachable env s" "r \<in> set (ts_connectionTags s)"
    and "\<forall>k. js ''tag-'' @ uuid k \<notin> tag_ids (ts_connectionTags s)"
  shows "let ts = ts_connectionTags s; ts' = ts_connectionTags (duplicateConnectionTag uuid now (ct_id r) s) in
    (\<exists>copy\<in>set ts'. ct_id copy \<notin> tag_ids ts \<and> ct_name copy = ct_name r @ js '' - Copy''
       \<and> ct_connectionIds copy = ct_connectionIds r \<and> ct_parentTagId copy = [])
    \<and> (\<forall>u\<in>set (normalizeConnectionTagTree (te_fallbackName env) ts').
         ct_id u \<notin> tag_ids ts \<longrightarrow> ct_connectionIds u = [])"
proof -
  let ?ts = "ts_connectionTags s" and ?i = "ct_id r"
  let ?olds = "copiedIds ?ts ?i"
  let ?idMap = "copyId uuid ?olds"
  let ?copy = "copyTag ?idMap now"
  let ?copies = "map ?copy (filter (\<lambda>t. ct_id t \<in> set ?olds) ?ts)"
  note n = tags_ok_nearly [OF treeReachable_ok [OF assms(2,1)]]
  then have f: "tag_forest ?ts" by (simp add: nearly_ok_def)
  then have d: "distinct (map ct_id ?ts)" by (simp add: tag_forest_def)
  have found: "find (\<lambda>t. ct_id t = ?i) ?ts = Some r" using find_tag_distinct [OF d] assms(3) by simp
  have new: "ct_id (?copy t) \<notin> tag_ids ?ts" if t: "ct_id t \<in> set ?olds" for t
  proof -
    obtain k where "lastIndexOf ?olds (ct_id t) = Some k" using last_index_found [OF t] by blast
    then show ?thesis using assms(4) by (simp add: copyTag_def copyId_def)
  qed
  have lost: "ct_parentTagId (?copy r) = []"
  proof (cases "ct_parentTagId r = []")
    case False
    then have up: "(ct_parentTagId r, ?i) \<in> parent_rel ?ts" using assms(3) by (auto simp: parent_rel_def)
    then have "ct_parentTagId r \<notin> set ?olds"
      using below_not_above [OF f up] copied_ids_below [OF f, of _ ?i] assms(3) by auto
    then show ?thesis using last_index_none by (simp add: copyTag_def copyId_def)
  qed (simp add: copyTag_def)
  have self: "?i \<in> set ?olds" by (simp add: copiedIds_def)
  obtain g where g: "\<And>t. ct_id (g t) = ct_id t" "\<And>t. ct_parentTagId (g t) = ct_parentTagId t"
      "\<And>t. ct_connectionIds (g t) = ct_connectionIds t" "\<And>t. ct_name (g t) = ct_name t" "\<And>t. fields_ok (g t) = fields_ok t"
    and ts': "ts_connectionTags (duplicateConnectionTag uuid now ?i s) = map g (?ts @ ?copies)"
    using duplicated_tags [OF found] by metis
  have "g (?copy r) \<in> set (map g (?ts @ ?copies))" using assms(3) self by simp
  moreover have "ct_id u \<notin> tag_ids ?ts \<longrightarrow> ct_connectionIds u = []"
    if "u \<in> set (normalizeConnectionTagTree (te_fallbackName env) (map g (?ts @ ?copies)))" for u
  proof -
    have "nearly_ok (map g ?ts)" by (rule nearly_ok_map [OF n]) (simp_all add: g)
    moreover have "\<forall>y\<in>set (map g ?copies). set (ct_connectionIds y) \<subseteq> set (owned_connections (map g ?ts))"
      by (auto simp: g copyTag_def owned_connections_def)
    moreover have "tag_ids (map g ?ts) = tag_ids ?ts" by (simp add: image_image g)
    ultimately show ?thesis using later_groups_empty [of "map g ?ts" "map g ?copies" u] that by simp
  qed
  ultimately show ?thesis
    unfolding Let_def ts' using g new [OF self] lost
    by (intro conjI bexI [of _ "g (?copy r)"]) (simp_all add: copyTag_def)
qed

lemma copied_group_loses_its_connections_witness:
  "\<exists>copy\<in>set (ts_connectionTags (duplicateConnectionTag (\<lambda>k. replicate (k + 3) 48) 7
       (ct_id (hd (ts_connectionTags smallStore))) smallStore)).
     ct_connectionIds copy = ct_connectionIds (hd (ts_connectionTags smallStore))
     \<and> ct_id copy \<notin> tag_ids (ts_connectionTags smallStore)"
proof -
  have ne: "ts_connectionTags smallStore \<noteq> []" using smallStore_tags by auto
  then have h: "hd (ts_connectionTags smallStore) \<in> set (ts_connectionTags smallStore)" by simp
  have "\<forall>k. js ''tag-'' @ replicate (k + 3) 48 \<notin> tag_ids (ts_connectionTags smallStore)"
    unfolding smallStore_ids by simp
  from copied_group_loses_its_connections [OF smallEnv_ok smallStore_reachable h this, of 7]
  show ?thesis unfolding Let_def by blast
qed

end
