(* ===== verification/SidebarTagTree.thy ===== *)
theory SidebarTagTree
  imports ConnectionTreeStore SidebarHosts
begin

text \<open>
  \<open>buildSidebarConnectionTagTree\<close> of \<open>src/frontend/src/components/sidebarV2Utils.ts\<close>: the tree the
  sidebar shows, built from the records of the connections and groups, whatever parents, owners and
  orders these name. The closures of the source take the records as arguments here.
\<close>

section \<open>Parents\<close>

definition rawParent :: "connectionTag list \<Rightarrow> js_string \<Rightarrow> js_string" where
  "rawParent tags i = (case tagWithId tags i of None \<Rightarrow> [] | Some t \<Rightarrow> resolveConnectionTagParentId t)"

lemma rawParent_known: "rawParent tags i \<noteq> [] \<Longrightarrow> i \<in> tag_ids tags"
  by (auto simp: rawParent_def dest: tagWithId_Some split: option.splits)

text \<open>The loop of \<open>resolveSafeParentId\<close>: whether the walk to the root ends.\<close>

function walkEnds :: "connectionTag list \<Rightarrow> js_string list \<Rightarrow> js_string \<Rightarrow> bool" where
  "walkEnds tags seen currentId \<longleftrightarrow>
     (if currentId = [] then True
      else if currentId \<in> set seen then False
      else if rawParent tags currentId = [] \<or> tagWithId tags (rawParent tags currentId) = None then True
      else walkEnds tags (currentId # seen) (rawParent tags currentId))"
  by pat_completeness auto
termination
proof (relation "measure (\<lambda>(tags, seen, c). card (tag_ids tags - set seen))", goal_cases)
  case (2 tags seen c)
  then have "card (tag_ids tags - set (c # seen)) < card (tag_ids tags - set seen)"
    using rawParent_known [of tags c] by (intro psubset_card_mono) auto
  then show ?case by simp
qed simp

declare walkEnds.simps [simp del]

definition resolveSafeParentId :: "connectionTag list \<Rightarrow> js_string \<Rightarrow> js_string" where
  "resolveSafeParentId tags tagId =
     (let parentId = rawParent tags tagId in
      if parentId = [] \<or> tagWithId tags parentId = None \<or> parentId = tagId then []
      else if walkEnds tags [tagId] parentId then parentId else [])"

definition childTagIds :: "connectionTag list \<Rightarrow> js_string \<Rightarrow> js_string list" where
  "childTagIds tags parentId = map ct_id (filter (\<lambda>t. resolveSafeParentId tags (ct_id t) = parentId) tags)"

section \<open>Owners and orders\<close>

definition connectionOwner :: "savedConnection list \<Rightarrow> connectionTag list \<Rightarrow> js_string \<Rightarrow> js_string option" where
  "connectionOwner connections tags c =
     (if c \<in> cn_id ` set connections
      then map_option ct_id (find (\<lambda>t. c \<in> set (ct_connectionIds t)) tags) else None)"

definition directConnectionIdsForTag ::
  "savedConnection list \<Rightarrow> connectionTag list \<Rightarrow> js_string \<Rightarrow> js_string list" where
  "directConnectionIdsForTag connections tags tagId =
     (case tagWithId tags tagId of None \<Rightarrow> []
      | Some t \<Rightarrow> filter (\<lambda>c. connectionOwner connections tags c = Some tagId \<and> c \<in> cn_id ` set connections)
                    (ct_connectionIds t))"

fun replaceConnectionTokens :: "js_string list \<Rightarrow> js_string list \<Rightarrow> js_string list" where
  "replaceConnectionTokens [] ordered = []"
| "replaceConnectionTokens (token # tokens) ordered =
     (if prefix SIDEBAR_ROOT_CONNECTION_TOKEN_PREFIX token then
        (case ordered of
           [] \<Rightarrow> token # replaceConnectionTokens tokens []
         | t # ts \<Rightarrow> js_or t token # replaceConnectionTokens tokens ts)
      else token # replaceConnectionTokens tokens ordered)"

definition applyConnectionSort ::
  "treeEnv \<Rightarrow> savedConnection list \<Rightarrow> js_string list \<Rightarrow> js_string list \<Rightarrow> sortMode \<Rightarrow> js_string list" where
  "applyConnectionSort env connections tokens ids mode =
     (if mode = SortManual then tokens
      else replaceConnectionTokens tokens
             (map buildSidebarRootConnectionToken (js_sort (compareForDisplay env ids connections mode) ids)))"

text \<open>\<open>append\<close> for every token: the allowed ones, each once.\<close>

definition appendAllowed :: "js_string list \<Rightarrow> js_string list \<Rightarrow> js_string list" where
  "appendAllowed allowed tokens = js_uniq (filter (\<lambda>t. t \<in> set allowed) tokens)"

definition resolveOrderedChildTokens ::
  "treeEnv \<Rightarrow> savedConnection list \<Rightarrow> connectionTag list \<Rightarrow> js_string \<Rightarrow> js_string list" where
  "resolveOrderedChildTokens env connections tags tagId =
     (let direct = directConnectionIdsForTag connections tags tagId;
          allowed = map buildSidebarRootConnectionToken direct
            @ map buildSidebarRootTagToken (childTagIds tags tagId);
          mode = (case tagWithId tags tagId of None \<Rightarrow> SortCreatedAt
                  | Some t \<Rightarrow> (case ct_connectionSortMode t of None \<Rightarrow> SortCreatedAt | Some m \<Rightarrow> m)) in
      appendAllowed allowed
        (applyConnectionSort env connections (resolveConnectionTagChildOrder tagId tags) direct mode @ allowed))"

definition orderedRootTokens ::
  "treeEnv \<Rightarrow> savedConnection list \<Rightarrow> connectionTag list \<Rightarrow> js_string list \<Rightarrow> sortMode \<Rightarrow> js_string list" where
  "orderedRootTokens env connections tags sidebarRootOrder mode =
     (let rootIds = filter (\<lambda>c. connectionOwner connections tags c = None) (map cn_id connections);
          allowed = map buildSidebarRootTagToken (childTagIds tags [])
            @ map buildSidebarRootConnectionToken rootIds in
      appendAllowed allowed
        (applyConnectionSort env connections (resolveSidebarRootOrderTokens sidebarRootOrder tags connections)
           rootIds mode @ allowed))"

section \<open>The tree\<close>

datatype tagTreeItem =
  TagItem connectionTag js_string "tagTreeItem list"
| ConnectionItem js_string js_string savedConnection

definition connectionItem ::
  "savedConnection list \<Rightarrow> connectionTag list \<Rightarrow> js_string option \<Rightarrow> js_string \<Rightarrow> tagTreeItem list" where
  "connectionItem connections tags owner token =
     (let c = drop (length SIDEBAR_ROOT_CONNECTION_TOKEN_PREFIX) token in
      if \<not> prefix SIDEBAR_ROOT_CONNECTION_TOKEN_PREFIX token \<or> connectionOwner connections tags c \<noteq> owner then []
      else (case connectionWithId connections c of None \<Rightarrow> [] | Some connection \<Rightarrow> [ConnectionItem c token connection]))"

function buildTagItem ::
  "treeEnv \<Rightarrow> savedConnection list \<Rightarrow> connectionTag list \<Rightarrow> js_string list \<Rightarrow> js_string \<Rightarrow> tagTreeItem list" where
  "buildTagItem env connections tags activeTagIds tagId =
     (case tagWithId tags tagId of
        None \<Rightarrow> []
      | Some tag \<Rightarrow>
          if tagId \<in> set activeTagIds then []
          else [TagItem tag (buildSidebarRootTagToken (ct_id tag))
            (concat (map (\<lambda>token.
               if prefix SIDEBAR_ROOT_TAG_TOKEN_PREFIX token then
                 (if resolveSafeParentId tags (drop (length SIDEBAR_ROOT_TAG_TOKEN_PREFIX) token) \<noteq> tagId then []
                  else buildTagItem env connections tags (tagId # activeTagIds)
                         (drop (length SIDEBAR_ROOT_TAG_TOKEN_PREFIX) token))
               else connectionItem connections tags (Some tagId) token)
             (resolveOrderedChildTokens env connections tags tagId)))])"
  by pat_completeness auto
termination
proof (relation "measure (\<lambda>(env, cs, tags, active, i). card (tag_ids tags - set active))", goal_cases)
  case (2 env cs tags active i t token)
  have "i \<in> tag_ids tags" "i \<notin> set active" using tagWithId_Some [OF 2(1)] 2(2) by auto
  then have "card (tag_ids tags - set (i # active)) < card (tag_ids tags - set active)"
    by (intro psubset_card_mono) auto
  then show ?case by simp
qed simp

declare buildTagItem.simps [simp del]

definition buildSidebarConnectionTagTree ::
  "treeEnv \<Rightarrow> savedConnection list \<Rightarrow> connectionTag list \<Rightarrow> js_string list \<Rightarrow> sortMode \<Rightarrow> tagTreeItem list" where
  "buildSidebarConnectionTagTree env connections tags sidebarRootOrder rootConnectionSortMode =
     concat (map (\<lambda>token.
         if prefix SIDEBAR_ROOT_TAG_TOKEN_PREFIX token then
           (if resolveSafeParentId tags (drop (length SIDEBAR_ROOT_TAG_TOKEN_PREFIX) token) \<noteq> [] then []
            else buildTagItem env connections tags [] (drop (length SIDEBAR_ROOT_TAG_TOKEN_PREFIX) token))
         else connectionItem connections tags None token)
       (orderedRootTokens env connections tags sidebarRootOrder rootConnectionSortMode))"

end
