(* ===== verification/SidebarTagTreeProps.thy ===== *)
theory SidebarTagTreeProps
  imports SidebarTagTree ConnectionTreeStoreProps
begin

text \<open>
  The sidebar shows every connection and every group exactly once, whatever parents, owners and orders
  the records of the groups name.
\<close>

section \<open>The hierarchy that is shown\<close>

definition safe_rel :: "connectionTag list \<Rightarrow> (js_string \<times> js_string) set" where
  "safe_rel tags = {(p, c). p \<noteq> [] \<and> c \<in> tag_ids tags \<and> resolveSafeParentId tags c = p}"

definition raw_rel :: "connectionTag list \<Rightarrow> (js_string \<times> js_string) set" where
  "raw_rel tags = {(p, c). p \<noteq> [] \<and> p \<in> tag_ids tags \<and> rawParent tags c = p}"

lemma walk_accessible:
  "walkEnds tags seen c \<Longrightarrow> c = [] \<or> c \<in> Wellfounded.acc (raw_rel tags)"
proof (induction tags seen c rule: walkEnds.induct)
  case (1 tags seen c)
  show ?case
  proof (cases "c = []")
    case False
    with 1(2) have fresh: "c \<notin> set seen" by (simp add: walkEnds.simps [of tags seen c] split: if_splits)
    have "p \<in> Wellfounded.acc (raw_rel tags)" if "(p, c) \<in> raw_rel tags" for p
    proof -
      have p: "p \<noteq> []" "rawParent tags c = p" "tagWithId tags p \<noteq> None"
        using that by (auto simp: raw_rel_def tagWithId_None)
      then have "walkEnds tags (c # seen) p"
        using 1(2) False fresh by (auto simp: walkEnds.simps [of tags seen c])
      with 1(1) [OF False fresh] p show ?thesis by simp
    qed
    then have "c \<in> Wellfounded.acc (raw_rel tags)" by (rule accI)
    then show ?thesis ..
  qed simp
qed

lemma safe_parent:
  "(p, c) \<in> safe_rel tags \<Longrightarrow>
   p \<in> tag_ids tags \<and> c \<in> tag_ids tags \<and> rawParent tags c = p \<and> p \<noteq> [] \<and> walkEnds tags [c] p"
  by (auto simp: safe_rel_def resolveSafeParentId_def Let_def tagWithId_None split: if_splits)

lemma wf_safe: "wf (safe_rel tags)"
proof -
  have sub: "safe_rel tags \<subseteq> raw_rel tags" by (auto simp: raw_rel_def dest: safe_parent)
  have "c \<in> Wellfounded.acc (safe_rel tags)" for c
  proof (rule accI)
    fix p assume "(p, c) \<in> safe_rel tags"
    from safe_parent [OF this] walk_accessible [of tags "[c]" p]
    have "p \<in> Wellfounded.acc (raw_rel tags)" by simp
    then show "p \<in> Wellfounded.acc (safe_rel tags)" using acc_subset [OF sub] by blast
  qed
  then show ?thesis by (simp add: wf_iff_acc)
qed

lemma safe_unique: "(p, c) \<in> safe_rel tags \<Longrightarrow> (q, c) \<in> safe_rel tags \<Longrightarrow> p = q"
  by (auto simp: safe_rel_def)

lemma acyclic_safe: "acyclic (safe_rel tags)"
  by (rule wf_acyclic [OF wf_safe])

lemma wf_safe_children: "wf ((safe_rel tags)\<inverse>)"
proof (rule finite_acyclic_wf_converse [OF _ acyclic_safe])
  have "safe_rel tags \<subseteq> tag_ids tags \<times> tag_ids tags" by (auto dest: safe_parent)
  then show "finite (safe_rel tags)" by (rule finite_subset) simp
qed

lemma safe_linear:
  "(a, j) \<in> (safe_rel tags)\<^sup>* \<Longrightarrow> (b, j) \<in> (safe_rel tags)\<^sup>* \<Longrightarrow>
   (a, b) \<in> (safe_rel tags)\<^sup>* \<or> (b, a) \<in> (safe_rel tags)\<^sup>*"
proof (induction rule: rtrancl_induct)
  case (step y z)
  show ?case
  proof (cases "b = z")
    case True
    with step.hyps show ?thesis by (auto intro: rtrancl_into_rtrancl)
  next
    case False
    then obtain x where "(b, x) \<in> (safe_rel tags)\<^sup>*" "(x, z) \<in> safe_rel tags"
      using step.prems by (auto elim: rtranclE)
    with safe_unique [of x z tags y] step show ?thesis by auto
  qed
qed simp

text \<open>The groups below a group, itself included.\<close>

definition below :: "connectionTag list \<Rightarrow> js_string \<Rightarrow> js_string set" where
  "below tags i = {j. (i, j) \<in> (safe_rel tags)\<^sup>*}"

lemma below_disjoint:
  "(a, b) \<notin> (safe_rel tags)\<^sup>+ \<Longrightarrow> (b, a) \<notin> (safe_rel tags)\<^sup>+ \<Longrightarrow> a \<noteq> b \<Longrightarrow> below tags a \<inter> below tags b = {}"
  using safe_linear [of a _ tags b] by (auto simp: below_def rtrancl_eq_or_trancl)

lemma siblings_apart:
  assumes "(i, a) \<in> safe_rel tags" "(i, b) \<in> safe_rel tags"
  shows "(a, b) \<notin> (safe_rel tags)\<^sup>+"
proof
  assume "(a, b) \<in> (safe_rel tags)\<^sup>+"
  from tranclD2 [OF this] obtain x where "(a, x) \<in> (safe_rel tags)\<^sup>*" "(x, b) \<in> safe_rel tags" by blast
  with safe_unique [OF assms(2)] have "(a, i) \<in> (safe_rel tags)\<^sup>*" by auto
  with assms(1) have "(i, i) \<in> (safe_rel tags)\<^sup>+" by (rule rtrancl_into_trancl2)
  with acyclic_safe show False by (simp add: acyclic_def)
qed

lemma below_step: "below tags i = insert i (\<Union>c\<in>{c. (i, c) \<in> safe_rel tags}. below tags c)"
  by (auto simp: below_def elim: converse_rtranclE intro: converse_rtrancl_into_rtrancl)

section \<open>What an item shows\<close>

fun itemTags :: "tagTreeItem \<Rightarrow> js_string list" where
  "itemTags (TagItem tag token children) = ct_id tag # concat (map itemTags children)"
| "itemTags (ConnectionItem c token connection) = []"

fun itemConnections :: "tagTreeItem \<Rightarrow> js_string list" where
  "itemConnections (TagItem tag token children) = concat (map itemConnections children)"
| "itemConnections (ConnectionItem c token connection) = [c]"

definition shownTags :: "tagTreeItem list \<Rightarrow> js_string list" where
  "shownTags items = concat (map itemTags items)"

definition shownConnections :: "tagTreeItem list \<Rightarrow> js_string list" where
  "shownConnections items = concat (map itemConnections items)"

lemma shown_concat:
  "shownTags (concat (map g xs)) = concat (map (\<lambda>x. shownTags (g x)) xs)"
  "shownConnections (concat (map g xs)) = concat (map (\<lambda>x. shownConnections (g x)) xs)"
  by (induction xs) (simp_all add: shownTags_def shownConnections_def)

lemma distinct_concat_map:
  assumes "distinct xs" "\<And>x. x \<in> set xs \<Longrightarrow> distinct (f x)"
    and "\<And>x y. x \<in> set xs \<Longrightarrow> y \<in> set xs \<Longrightarrow> x \<noteq> y \<Longrightarrow> set (f x) \<inter> set (f y) = {}"
  shows "distinct (concat (map f xs))"
  using assms
proof (induction xs)
  case (Cons x xs)
  have "distinct (concat (map f xs))" using Cons.prems by (intro Cons.IH) auto
  moreover have "set (f x) \<inter> set (f y) = {}" if "y \<in> set xs" for y
    using that Cons.prems(1) by (intro Cons.prems(3)) auto
  ultimately show ?case using Cons.prems(2) [of x] by auto
qed simp

text \<open>Items list the groups of a set and the connections these own, each once.\<close>

definition shows_exactly ::
  "savedConnection list \<Rightarrow> connectionTag list \<Rightarrow> tagTreeItem list \<Rightarrow> js_string set \<Rightarrow> js_string set \<Rightarrow> bool" where
  "shows_exactly connections tags items groups direct \<longleftrightarrow>
     distinct (shownTags items) \<and> set (shownTags items) = groups
     \<and> distinct (shownConnections items)
     \<and> set (shownConnections items) = direct \<union> {c. connectionOwner connections tags c \<in> Some ` groups}"

lemma token_prefixes [simp]:
  "prefix SIDEBAR_ROOT_TAG_TOKEN_PREFIX (buildSidebarRootTagToken i)"
  "\<not> prefix SIDEBAR_ROOT_TAG_TOKEN_PREFIX (buildSidebarRootConnectionToken i)"
  "prefix SIDEBAR_ROOT_CONNECTION_TOKEN_PREFIX (buildSidebarRootConnectionToken i)"
  "drop (length SIDEBAR_ROOT_TAG_TOKEN_PREFIX) (buildSidebarRootTagToken i) = js_trim i"
  "drop (length SIDEBAR_ROOT_CONNECTION_TOKEN_PREFIX) (buildSidebarRootConnectionToken i) = js_trim i"
proof -
  show "\<not> prefix SIDEBAR_ROOT_TAG_TOKEN_PREFIX (buildSidebarRootConnectionToken i)"
    by (simp add: buildSidebarRootConnectionToken_def tag_prefixes)
qed (simp_all add: buildSidebarRootTagToken_def buildSidebarRootConnectionToken_def)

lemma shows_tokens:
  assumes tokens: "distinct tokens"
    "set tokens = buildSidebarRootConnectionToken ` direct \<union> buildSidebarRootTagToken ` X"
    and clean: "\<forall>c\<in>direct. clean c" "\<forall>x\<in>X. clean x"
    and conn: "\<And>c. c \<in> direct \<Longrightarrow> shownTags (g (buildSidebarRootConnectionToken c)) = []
        \<and> shownConnections (g (buildSidebarRootConnectionToken c)) = [c]"
    and sub: "\<And>x. x \<in> X \<Longrightarrow> shows_exactly connections tags (g (buildSidebarRootTagToken x)) (below tags x) {}"
    and apart: "\<And>x y. x \<in> X \<Longrightarrow> y \<in> X \<Longrightarrow> (x, y) \<notin> (safe_rel tags)\<^sup>+"
    and direct: "\<And>c x. c \<in> direct \<Longrightarrow> x \<in> X \<Longrightarrow> connectionOwner connections tags c \<notin> Some ` below tags x"
  shows "shows_exactly connections tags (concat (map g tokens)) (\<Union>x\<in>X. below tags x) direct"
proof -
  let ?conn = buildSidebarRootConnectionToken and ?tag = buildSidebarRootTagToken
  have disj: "below tags x \<inter> below tags y = {}" if "x \<in> X" "y \<in> X" "x \<noteq> y" for x y
    using apart that by (intro below_disjoint) auto
  have inj: "js_trim c = c" if "c \<in> direct \<union> X" for c using clean that by (auto simp: clean_def)
  note shown = sub [unfolded shows_exactly_def]
  have "distinct (shownTags (concat (map g tokens)))"
    unfolding shown_concat
  proof (rule distinct_concat_map [OF tokens(1)])
    fix s t assume st: "s \<in> set tokens" "t \<in> set tokens" "s \<noteq> t"
    show "set (shownTags (g s)) \<inter> set (shownTags (g t)) = {}"
    proof (cases "s \<in> ?tag ` X \<and> t \<in> ?tag ` X")
      case True
      then obtain x y where "s = ?tag x" "t = ?tag y" "x \<in> X" "y \<in> X" by auto
      with st disj [of x y] shown [of x] shown [of y] show ?thesis by auto
    qed (use st tokens(2) conn in auto)
  qed (use tokens(2) conn shown in auto)
  moreover have "distinct (shownConnections (concat (map g tokens)))"
    unfolding shown_concat
  proof (rule distinct_concat_map [OF tokens(1)])
    fix s t assume st: "s \<in> set tokens" "t \<in> set tokens" "s \<noteq> t"
    then consider x y where "s = ?tag x" "t = ?tag y" "x \<in> X" "y \<in> X"
      | c x where "s = ?conn c" "t = ?tag x" "c \<in> direct" "x \<in> X"
      | c x where "t = ?conn c" "s = ?tag x" "c \<in> direct" "x \<in> X"
      | c d where "s = ?conn c" "t = ?conn d" "c \<in> direct" "d \<in> direct"
      unfolding tokens(2) by blast
    then show "set (shownConnections (g s)) \<inter> set (shownConnections (g t)) = {}"
    proof cases
      case (1 x y)
      then have "x \<noteq> y" using st(3) by auto
      with 1 disj [of x y] shown [of x] shown [of y] show ?thesis by auto
    qed (use st(3) conn shown direct in auto)
  qed (use tokens(2) conn shown in auto)
  moreover have "set (shownTags (concat (map g tokens))) = (\<Union>x\<in>X. below tags x)"
    unfolding shown_concat using tokens(2) conn shown by auto
  moreover have "set (shownConnections (concat (map g tokens)))
      = direct \<union> {c. connectionOwner connections tags c \<in> Some ` (\<Union>x\<in>X. below tags x)}"
    unfolding shown_concat using tokens(2) conn shown by auto
  ultimately show ?thesis by (simp add: shows_exactly_def)
qed

section \<open>The children of a group\<close>

definition records_ok :: "savedConnection list \<Rightarrow> connectionTag list \<Rightarrow> bool" where
  "records_ok connections tags \<longleftrightarrow> distinct (map ct_id tags) \<and> (\<forall>t\<in>set tags. clean (ct_id t))
     \<and> distinct (map cn_id connections) \<and> (\<forall>c\<in>set connections. clean (cn_id c))"

lemma set_appendAllowed [simp]: "set (appendAllowed allowed (xs @ allowed)) = set allowed"
  by (auto simp: appendAllowed_def)

lemma distinct_appendAllowed [simp]: "distinct (appendAllowed allowed xs)"
  by (simp add: appendAllowed_def)

lemma owner_known: "connectionOwner connections tags c = Some i \<Longrightarrow> c \<in> cn_id ` set connections \<and> i \<in> tag_ids tags"
  by (auto simp: connectionOwner_def dest: find_SomeD split: if_splits)

lemma set_direct:
  assumes "records_ok connections tags" "i \<in> tag_ids tags"
  shows "set (directConnectionIdsForTag connections tags i) = {c. connectionOwner connections tags c = Some i}"
proof -
  have d: "distinct (map ct_id tags)" using assms(1) by (simp add: records_ok_def)
  from assms(2) obtain t where t: "t \<in> set tags" "ct_id t = i" by auto
  then have i: "tagWithId tags i = Some t" by (simp add: tagWithId_distinct [OF d])
  have "c \<in> set (ct_connectionIds t) \<and> c \<in> cn_id ` set connections"
    if "connectionOwner connections tags c = Some i" for c
  proof -
    obtain u where u: "find (\<lambda>t. c \<in> set (ct_connectionIds t)) tags = Some u" "ct_id u = i"
      using \<open>connectionOwner connections tags c = Some i\<close> by (auto simp: connectionOwner_def split: if_splits)
    from find_SomeD [OF u(1)] have "u \<in> set tags" "c \<in> set (ct_connectionIds u)" by simp_all
    moreover have "u = t" using d t u(2) \<open>u \<in> set tags\<close> by (auto simp: distinct_map inj_on_def)
    ultimately show ?thesis using owner_known [OF that] by simp
  qed
  then show ?thesis by (auto simp: directConnectionIdsForTag_def i)
qed

lemma set_childTagIds:
  "i \<noteq> [] \<Longrightarrow> set (childTagIds tags i) = {c. (i, c) \<in> safe_rel tags}"
  by (auto simp: childTagIds_def safe_rel_def)

lemma set_child_tokens:
  assumes "records_ok connections tags" "i \<in> tag_ids tags"
  shows "set (resolveOrderedChildTokens env connections tags i)
    = buildSidebarRootConnectionToken ` {c. connectionOwner connections tags c = Some i}
      \<union> buildSidebarRootTagToken ` {c. (i, c) \<in> safe_rel tags}"
proof -
  have "i \<noteq> []" using assms by (auto simp: records_ok_def)
  then show ?thesis
    by (simp add: resolveOrderedChildTokens_def Let_def set_direct [OF assms] set_childTagIds)
qed

lemma connection_item:
  assumes "records_ok connections tags" "c \<in> cn_id ` set connections"
    "connectionOwner connections tags c = owner"
  shows "shownTags (connectionItem connections tags owner (buildSidebarRootConnectionToken c)) = []
    \<and> shownConnections (connectionItem connections tags owner (buildSidebarRootConnectionToken c)) = [c]"
proof -
  have c: "js_trim c = c" using assms(1,2) by (auto simp: records_ok_def clean_def)
  have "connectionWithId connections c \<noteq> None"
    using assms(2) by (auto simp: connectionWithId_def find_None_iff)
  then show ?thesis using assms(3) c by (auto simp: connectionItem_def shownTags_def shownConnections_def)
qed

text \<open>A group is shown with everything below it.\<close>

lemma shows_group:
  assumes "records_ok connections tags" "i \<in> tag_ids tags" "\<forall>a\<in>set active. (i, a) \<notin> (safe_rel tags)\<^sup>*"
  shows "shows_exactly connections tags (buildTagItem env connections tags active i) (below tags i) {}"
  using assms(2,3)
proof (induction i arbitrary: active rule: wf_induct_rule [OF wf_safe_children [of tags]])
  case (1 i)
  let ?tokens = "resolveOrderedChildTokens env connections tags i"
  let ?direct = "{c. connectionOwner connections tags c = Some i}" and ?X = "{c. (i, c) \<in> safe_rel tags}"
  let ?g = "\<lambda>token. if prefix SIDEBAR_ROOT_TAG_TOKEN_PREFIX token then
      (if resolveSafeParentId tags (drop (length SIDEBAR_ROOT_TAG_TOKEN_PREFIX) token) \<noteq> i then []
       else buildTagItem env connections tags (i # active) (drop (length SIDEBAR_ROOT_TAG_TOKEN_PREFIX) token))
    else connectionItem connections tags (Some i) token"
  have d: "distinct (map ct_id tags)" using assms(1) by (simp add: records_ok_def)
  obtain t where t: "tagWithId tags i = Some t" "ct_id t = i"
    using 1(2) by (auto simp: tagWithId_distinct [OF d])
  have clean: "clean x" if "x \<in> tag_ids tags" for x using assms(1) that by (auto simp: records_ok_def)
  have "i \<notin> set active" using 1(3) by auto
  then have item: "buildTagItem env connections tags active i
      = [TagItem t (buildSidebarRootTagToken i) (concat (map ?g ?tokens))]"
    using t by (subst buildTagItem.simps) simp
  have sub: "shows_exactly connections tags (?g (buildSidebarRootTagToken x)) (below tags x) {}" if "x \<in> ?X" for x
  proof -
    have x: "(i, x) \<in> safe_rel tags" "x \<in> tag_ids tags" using that safe_parent by auto
    have "\<forall>a\<in>set (i # active). (x, a) \<notin> (safe_rel tags)\<^sup>*"
    proof
      fix a assume a: "a \<in> set (i # active)"
      show "(x, a) \<notin> (safe_rel tags)\<^sup>*"
      proof
        assume "(x, a) \<in> (safe_rel tags)\<^sup>*"
        with x(1) have "(i, a) \<in> (safe_rel tags)\<^sup>+" by (rule rtrancl_into_trancl2)
        with a 1(3) acyclic_safe show False by (auto simp: acyclic_def dest: trancl_into_rtrancl)
      qed
    qed
    from 1(1) [OF _ x(2) this] x clean [OF x(2)] show ?thesis by (auto simp: safe_rel_def clean_def)
  qed
  have "shows_exactly connections tags (concat (map ?g ?tokens)) (\<Union>x\<in>?X. below tags x) ?direct"
  proof (rule shows_tokens [OF _ set_child_tokens [OF assms(1) 1(2)]])
    show "distinct ?tokens" by (simp add: resolveOrderedChildTokens_def Let_def)
    show "\<forall>c\<in>?direct. clean c" using assms(1) by (auto simp: records_ok_def dest!: owner_known)
    show "\<forall>x\<in>?X. clean x" using clean safe_parent by auto
    show "shownTags (?g (buildSidebarRootConnectionToken c)) = []
        \<and> shownConnections (?g (buildSidebarRootConnectionToken c)) = [c]" if "c \<in> ?direct" for c
      using connection_item [OF assms(1)] owner_known that by simp
    show "connectionOwner connections tags c \<notin> Some ` below tags x" if "c \<in> ?direct" "x \<in> ?X" for c x
    proof
      assume "connectionOwner connections tags c \<in> Some ` below tags x"
      with that have "(i, i) \<in> (safe_rel tags)\<^sup>+" by (auto simp: below_def intro: rtrancl_into_trancl2)
      with acyclic_safe show False by (simp add: acyclic_def)
    qed
    show "(x, y) \<notin> (safe_rel tags)\<^sup>+" if "x \<in> ?X" "y \<in> ?X" for x y
      using that by (intro siblings_apart [of i]) auto
  qed (rule sub)
  moreover have "i \<notin> (\<Union>x\<in>?X. below tags x)"
    using acyclic_safe by (auto simp: below_def acyclic_def dest: rtrancl_into_trancl2)
  ultimately show ?case
    unfolding item below_step [of tags i] by (auto simp: shows_exactly_def shownTags_def shownConnections_def t(2))
qed

section \<open>The whole tree\<close>

lemma root_above: "i \<in> tag_ids tags \<Longrightarrow> \<exists>r\<in>set (childTagIds tags []). i \<in> below tags r"
proof (induction i rule: wf_induct_rule [OF wf_safe [of tags]])
  case (1 i)
  show ?case
  proof (cases "resolveSafeParentId tags i = []")
    case True
    with 1(2) show ?thesis by (auto simp: childTagIds_def below_def)
  next
    case False
    then have r: "(resolveSafeParentId tags i, i) \<in> safe_rel tags" using 1(2) by (simp add: safe_rel_def)
    with 1(1) [OF r] safe_parent [OF r] obtain r where
      "r \<in> set (childTagIds tags [])" "resolveSafeParentId tags i \<in> below tags r" by auto
    with r show ?thesis by (auto simp: below_def intro: rtrancl_into_rtrancl)
  qed
qed

lemma below_known: "i \<in> tag_ids tags \<Longrightarrow> below tags i \<subseteq> tag_ids tags"
proof
  fix j assume i: "i \<in> tag_ids tags" and "j \<in> below tags i"
  then have "(i, j) \<in> (safe_rel tags)\<^sup>*" by (simp add: below_def)
  then show "j \<in> tag_ids tags" by (cases rule: rtranclE) (use i safe_parent in auto)
qed

text \<open>
  C39. The sidebar loses nothing and shows nothing twice: whatever parents the groups name (missing
  ones, themselves, cycles), however many groups claim a connection, whatever orders are recorded and
  however the collation compares, the tree built from connections and groups with unique identifiers
  contains every group exactly once and every connection exactly once.
\<close>

theorem sidebar_shows_everything_once:
  assumes "records_ok connections tags"
  shows "let items = buildSidebarConnectionTagTree env connections tags sidebarRootOrder mode in
    distinct (shownTags items) \<and> set (shownTags items) = tag_ids tags
    \<and> distinct (shownConnections items) \<and> set (shownConnections items) = cn_id ` set connections"
proof -
  let ?X = "set (childTagIds tags [])"
  let ?direct = "{c \<in> cn_id ` set connections. connectionOwner connections tags c = None}"
  let ?tokens = "orderedRootTokens env connections tags sidebarRootOrder mode"
  let ?g = "\<lambda>token. if prefix SIDEBAR_ROOT_TAG_TOKEN_PREFIX token then
      (if resolveSafeParentId tags (drop (length SIDEBAR_ROOT_TAG_TOKEN_PREFIX) token) \<noteq> [] then []
       else buildTagItem env connections tags [] (drop (length SIDEBAR_ROOT_TAG_TOKEN_PREFIX) token))
    else connectionItem connections tags None token"
  have X: "x \<in> tag_ids tags \<and> resolveSafeParentId tags x = [] \<and> clean x" if "x \<in> ?X" for x
    using assms that by (auto simp: childTagIds_def records_ok_def)
  have "shows_exactly connections tags (concat (map ?g ?tokens)) (\<Union>x\<in>?X. below tags x) ?direct"
  proof (rule shows_tokens)
    show "distinct ?tokens" by (simp add: orderedRootTokens_def Let_def)
    show "set ?tokens = buildSidebarRootConnectionToken ` ?direct \<union> buildSidebarRootTagToken ` ?X"
      by (auto simp: orderedRootTokens_def Let_def)
    show "\<forall>c\<in>?direct. clean c" using assms by (auto simp: records_ok_def)
    show "shownTags (?g (buildSidebarRootConnectionToken c)) = []
        \<and> shownConnections (?g (buildSidebarRootConnectionToken c)) = [c]" if "c \<in> ?direct" for c
      using connection_item [OF assms] that by simp
    show "shows_exactly connections tags (?g (buildSidebarRootTagToken x)) (below tags x) {}" if "x \<in> ?X" for x
      using shows_group [OF assms, of x "[]"] X [OF that] by (simp add: clean_def)
    show "(x, y) \<notin> (safe_rel tags)\<^sup>+" if "x \<in> ?X" "y \<in> ?X" for x y
      using X [OF that(2)] by (auto simp: safe_rel_def dest!: tranclD2)
  qed (use X in auto)
  moreover have "(\<Union>x\<in>?X. below tags x) = tag_ids tags"
  proof
    show "(\<Union>x\<in>?X. below tags x) \<subseteq> tag_ids tags" using below_known X by (intro UN_least) blast
    show "tag_ids tags \<subseteq> (\<Union>x\<in>?X. below tags x)" using root_above [of _ tags] by (intro subsetI) simp
  qed
  moreover have "?direct \<union> {c. connectionOwner connections tags c \<in> Some ` tag_ids tags} = cn_id ` set connections"
  proof (intro equalityI subsetI)
    fix c assume "c \<in> cn_id ` set connections"
    then show "c \<in> ?direct \<union> {c. connectionOwner connections tags c \<in> Some ` tag_ids tags}"
      using owner_known [of connections tags c] by (cases "connectionOwner connections tags c") auto
  next
    fix c assume "c \<in> ?direct \<union> {c. connectionOwner connections tags c \<in> Some ` tag_ids tags}"
    then show "c \<in> cn_id ` set connections" using owner_known [of connections tags c] by blast
  qed
  ultimately show ?thesis
    by (simp add: buildSidebarConnectionTagTree_def shows_exactly_def Let_def)
qed

definition namedConnection :: "string \<Rightarrow> savedConnection" where
  "namedConnection i = \<lparr>cn_id = js i, cn_name = js i, cn_createdAt = None\<rparr>"

definition cyclicTags :: "connectionTag list" where
  "cyclicTags = [(namedTag ''a'' ''b'')\<lparr>ct_connectionIds := [js ''x'']\<rparr>,
     (namedTag ''b'' ''a'')\<lparr>ct_connectionIds := [js ''x'']\<rparr>]"

theorem sidebar_shows_everything_once_witness:
  "set (shownConnections (buildSidebarConnectionTagTree
      \<lparr>te_fallbackName = \<lambda>_. js ''g'', te_sameName = (=), te_compareNames = \<lambda>_ _. 0, te_compareIds = \<lambda>_ _. 0\<rparr>
      [namedConnection ''x'', namedConnection ''y''] cyclicTags [] SortCreatedAt)) = {js ''x'', js ''y''}"
proof -
  have ok: "records_ok [namedConnection ''x'', namedConnection ''y''] cyclicTags" by code_simp
  from sidebar_shows_everything_once [OF ok] show ?thesis by (simp add: Let_def namedConnection_def)
qed

end
