(* ===== verification/RecentEntries.thy ===== *)
theory RecentEntries
  imports ConnectionTags JsSort Complex_Main
begin

text \<open>
  The recently used databases and SQL files of the workbench (\<open>src/frontend/src/store.ts\<close>, lines 2460 to
  2623 and the actions on recent files): reading them from the persisted state, adding an entry when a
  tab opens, and following renamed and removed files. A missing database is the empty string. The time
  is a parameter; a time that is no number is \<open>None\<close>.
\<close>

section \<open>Data\<close>

record recentTarget =
  rc_connectionId :: js_string
  rc_dbName :: js_string
  rc_openedAt :: int

record recentFile =
  rf_filePath :: js_string
  rf_fileName :: js_string
  rf_connectionId :: js_string
  rf_dbName :: js_string
  rf_openedAt :: int

record rawTarget =
  rt'_connectionId :: rawValue
  rt'_dbName :: rawValue
  rt'_openedAt :: "rat option"

record rawFile =
  wf_filePath :: rawValue
  wf_fileName :: rawValue
  wf_connectionId :: rawValue
  wf_dbName :: rawValue
  wf_openedAt :: "rat option"

definition MAX_RECENT_WORKBENCH_TARGETS :: nat where
  "MAX_RECENT_WORKBENCH_TARGETS = 8"

definition MAX_RECENT_SQL_FILES :: nat where
  "MAX_RECENT_SQL_FILES = 8"

text \<open>\<open>Math.trunc\<close> of a positive number is its floor.\<close>

definition normalizeRecentTargetTimestamp :: "rat option \<Rightarrow> int" where
  "normalizeRecentTargetTimestamp v = (case v of None \<Rightarrow> 0 | Some r \<Rightarrow> if r > 0 then \<lfloor>r\<rfloor> else 0)"

section \<open>Keys and paths\<close>

definition toSlashes :: "js_string \<Rightarrow> js_string" where
  "toSlashes = map (\<lambda>u. if u = 92 then 47 else u)"

definition dropTrailing :: "nat set \<Rightarrow> js_string \<Rightarrow> js_string" where
  "dropTrailing us s = rev (dropWhile (\<lambda>u. u \<in> us) (rev s))"

definition buildRecentConnectionTargetKey :: "js_string \<Rightarrow> js_string \<Rightarrow> js_string" where
  "buildRecentConnectionTargetKey connectionId dbName = connectionId @ js ''::'' @ dbName"

definition buildRecentSQLFileKey :: "js_string \<Rightarrow> js_string \<Rightarrow> js_string \<Rightarrow> js_string" where
  "buildRecentSQLFileKey connectionId dbName filePath =
     js_join (js ''::'') [connectionId, dbName, toSlashes filePath]"

definition targetKey :: "recentTarget \<Rightarrow> js_string" where
  "targetKey t = buildRecentConnectionTargetKey (rc_connectionId t) (rc_dbName t)"

definition fileKey :: "recentFile \<Rightarrow> js_string" where
  "fileKey f = buildRecentSQLFileKey (rf_connectionId f) (rf_dbName f) (rf_filePath f)"

definition resolveRecentSQLFileName :: "js_string \<Rightarrow> js_string \<Rightarrow> js_string" where
  "resolveRecentSQLFileName filePath title =
     (let parts = filter (\<lambda>p. p \<noteq> []) (js_split 47 (toSlashes filePath));
          fallbackName = (if parts = [] then filePath else last parts) in
      take 256 (js_or (js_trim title) fallbackName))"

definition normalizeRecentSQLPath :: "js_string \<Rightarrow> js_string" where
  "normalizeRecentSQLPath path =
     (let normalized = toSlashes (js_trim path) in
      if normalized = js ''/'' then normalized else dropTrailing {47} normalized)"

definition isRecentSQLPathInDirectory :: "js_string \<Rightarrow> js_string \<Rightarrow> bool" where
  "isRecentSQLPathInDirectory filePath directoryPath =
     (let file = normalizeRecentSQLPath filePath; directory = normalizeRecentSQLPath directoryPath in
      if directory = [] then False
      else if directory = js ''/'' then prefix (js ''/'') file
      else file = directory \<or> prefix (directory @ js ''/'') file)"

definition relocateRecentSQLFilePath :: "js_string \<Rightarrow> js_string \<Rightarrow> js_string \<Rightarrow> js_string" where
  "relocateRecentSQLFilePath filePath previousDirectoryPath nextDirectoryPath =
     (let previous = normalizeRecentSQLPath previousDirectoryPath; file = normalizeRecentSQLPath filePath in
      if previous = [] \<or> normalizeRecentSQLPath nextDirectoryPath = [] then filePath
      else
        (let suffix = drop (length previous) file;
             rawNext = dropTrailing {47, 92} (js_trim nextDirectoryPath);
             separator = (if 92 \<in> set rawNext then 92 else 47) in
         rawNext @ map (\<lambda>u. if u = 47 then separator else u) suffix))"

section \<open>Reading the persisted entries\<close>

text \<open>The first entry of every key.\<close>

fun firstOfKey :: "('a \<Rightarrow> js_string) \<Rightarrow> js_string list \<Rightarrow> 'a list \<Rightarrow> 'a list" where
  "firstOfKey key seen [] = []"
| "firstOfKey key seen (x # xs) =
     (if key x \<in> set seen then firstOfKey key seen xs else x # firstOfKey key (key x # seen) xs)"

definition readTarget :: "rawTarget option \<Rightarrow> recentTarget list" where
  "readTarget entry =
     (case entry of None \<Rightarrow> []
      | Some raw \<Rightarrow>
          (let connectionId = toTrimmedString_store (rt'_connectionId raw) [] in
           if connectionId = [] \<or> 256 < length connectionId then []
           else [\<lparr>rc_connectionId = connectionId,
                  rc_dbName = take 256 (toTrimmedString_store (rt'_dbName raw) []),
                  rc_openedAt = normalizeRecentTargetTimestamp (rt'_openedAt raw)\<rparr>]))"

text \<open>\<open>None\<close> is a value that is no array, and among the entries one that is no object.\<close>

definition sanitizeRecentConnectionTargets :: "rawTarget option list option \<Rightarrow> recentTarget list" where
  "sanitizeRecentConnectionTargets v =
     (case v of None \<Rightarrow> []
      | Some entries \<Rightarrow>
          take MAX_RECENT_WORKBENCH_TARGETS (firstOfKey targetKey []
            (js_sort (\<lambda>left right. rc_openedAt right - rc_openedAt left) (concat (map readTarget entries)))))"

definition readFile :: "rawFile option \<Rightarrow> recentFile list" where
  "readFile entry =
     (case entry of None \<Rightarrow> []
      | Some raw \<Rightarrow>
          (let connectionId = toTrimmedString_store (wf_connectionId raw) [];
               filePath = take 4096 (toTrimmedString_store (wf_filePath raw) []);
               fileName = resolveRecentSQLFileName filePath (toTrimmedString_store (wf_fileName raw) []) in
           if connectionId = [] \<or> 256 < length connectionId \<or> filePath = [] \<or> fileName = [] then []
           else [\<lparr>rf_filePath = filePath, rf_fileName = fileName, rf_connectionId = connectionId,
                  rf_dbName = take 256 (toTrimmedString_store (wf_dbName raw) []),
                  rf_openedAt = normalizeRecentTargetTimestamp (wf_openedAt raw)\<rparr>]))"

definition sanitizeRecentSQLFiles :: "rawFile option list option \<Rightarrow> recentFile list" where
  "sanitizeRecentSQLFiles v =
     (case v of None \<Rightarrow> []
      | Some entries \<Rightarrow>
          take MAX_RECENT_SQL_FILES (firstOfKey fileKey []
            (js_sort (\<lambda>left right. rf_openedAt right - rf_openedAt left) (concat (map readFile entries)))))"

text \<open>A file of the list as the same function reads it again.\<close>

definition rawOfFile :: "recentFile \<Rightarrow> rawFile option" where
  "rawOfFile f = Some \<lparr>wf_filePath = RawString (rf_filePath f), wf_fileName = RawString (rf_fileName f),
     wf_connectionId = RawString (rf_connectionId f), wf_dbName = RawString (rf_dbName f),
     wf_openedAt = Some (of_int (rf_openedAt f))\<rparr>"

section \<open>Opening a tab\<close>

definition prependRecentConnectionTarget ::
  "int \<Rightarrow> recentTarget list \<Rightarrow> js_string \<Rightarrow> js_string \<Rightarrow> recentTarget list" where
  "prependRecentConnectionTarget now existing tabConnectionId tabDbName =
     (let connectionId = js_trim tabConnectionId in
      if connectionId = [] then existing
      else
        (let target = \<lparr>rc_connectionId = connectionId, rc_dbName = take 256 (js_trim tabDbName),
                       rc_openedAt = now\<rparr> in
         take MAX_RECENT_WORKBENCH_TARGETS
           (target # filter (\<lambda>t. targetKey t \<noteq> targetKey target) existing)))"

definition prependRecentSQLFile ::
  "int \<Rightarrow> recentFile list \<Rightarrow> js_string \<Rightarrow> js_string \<Rightarrow> js_string \<Rightarrow> js_string \<Rightarrow> recentFile list" where
  "prependRecentSQLFile now existing tabConnectionId tabDbName tabFilePath tabTitle =
     (let connectionId = js_trim tabConnectionId; filePath = take 4096 (js_trim tabFilePath) in
      if connectionId = [] \<or> filePath = [] then existing
      else
        (let file = \<lparr>rf_filePath = filePath, rf_fileName = resolveRecentSQLFileName filePath tabTitle,
                     rf_connectionId = connectionId, rf_dbName = take 256 (js_trim tabDbName),
                     rf_openedAt = now\<rparr> in
         take MAX_RECENT_SQL_FILES (file # filter (\<lambda>f. fileKey f \<noteq> fileKey file) existing)))"

section \<open>Files that are renamed, moved or removed\<close>

definition updateRecentSQLFilePath :: "js_string \<Rightarrow> js_string \<Rightarrow> recentFile list \<Rightarrow> recentFile list" where
  "updateRecentSQLFilePath previousPath nextPath files =
     (let previousKey = normalizeRecentSQLPath previousPath; next = js_trim nextPath in
      if previousKey = [] \<or> next = [] then files
      else sanitizeRecentSQLFiles (Some (map (\<lambda>f. rawOfFile
             (if normalizeRecentSQLPath (rf_filePath f) = previousKey
              then f\<lparr>rf_filePath := next, rf_fileName := resolveRecentSQLFileName next []\<rparr> else f)) files)))"

definition removeRecentSQLFilesByPath :: "js_string \<Rightarrow> recentFile list \<Rightarrow> recentFile list" where
  "removeRecentSQLFilesByPath filePath files =
     (let pathKey = normalizeRecentSQLPath filePath in
      if pathKey = [] then files
      else filter (\<lambda>f. normalizeRecentSQLPath (rf_filePath f) \<noteq> pathKey) files)"

definition moveRecentSQLFilesByDirectory :: "js_string \<Rightarrow> js_string \<Rightarrow> recentFile list \<Rightarrow> recentFile list" where
  "moveRecentSQLFilesByDirectory previousDirectoryPath nextDirectoryPath files =
     (let previousPath = normalizeRecentSQLPath previousDirectoryPath in
      if previousPath = [] \<or> normalizeRecentSQLPath nextDirectoryPath = [] then files
      else sanitizeRecentSQLFiles (Some (map (\<lambda>f. rawOfFile
             (if isRecentSQLPathInDirectory (rf_filePath f) previousPath
              then (let filePath = relocateRecentSQLFilePath (rf_filePath f) previousDirectoryPath nextDirectoryPath in
                    f\<lparr>rf_filePath := filePath, rf_fileName := resolveRecentSQLFileName filePath []\<rparr>)
              else f)) files)))"

definition removeRecentSQLFilesByDirectory :: "js_string \<Rightarrow> recentFile list \<Rightarrow> recentFile list" where
  "removeRecentSQLFilesByDirectory directoryPath files =
     filter (\<lambda>f. \<not> isRecentSQLPathInDirectory (rf_filePath f) directoryPath) files"

section \<open>The lists stay short and without repetition\<close>

definition recent_ok :: "('a \<Rightarrow> js_string) \<Rightarrow> nat \<Rightarrow> 'a list \<Rightarrow> bool" where
  "recent_ok key bound xs \<longleftrightarrow> length xs \<le> bound \<and> distinct (map key xs)"

lemma firstOfKey_spec:
  "distinct (map key (firstOfKey key seen xs)) \<and> set (map key (firstOfKey key seen xs)) \<inter> set seen = {}"
  by (induction key seen xs rule: firstOfKey.induct) auto

lemma recent_ok_take: "distinct (map key xs) \<Longrightarrow> recent_ok key n (take n xs)"
  by (simp add: recent_ok_def take_map [symmetric] distinct_take)

lemma recent_ok_filter: "recent_ok key n xs \<Longrightarrow> recent_ok key n (filter P xs)"
  by (simp add: recent_ok_def distinct_map_filter le_trans [OF length_filter_le])

lemma recent_ok_prepend:
  "recent_ok key n xs \<Longrightarrow> recent_ok key n (take n (x # filter (\<lambda>y. key y \<noteq> key x) xs))"
  by (rule recent_ok_take) (auto simp: recent_ok_def distinct_map_filter)

lemma recent_ok_first: "recent_ok key n (take n (firstOfKey key seen xs))"
  by (rule recent_ok_take) (use firstOfKey_spec [of key seen xs] in simp)

lemma recent_ok_Nil [simp]: "recent_ok key n []"
  by (simp add: recent_ok_def)

lemma recent_files_ok: "recent_ok fileKey MAX_RECENT_SQL_FILES (sanitizeRecentSQLFiles v)"
  by (simp add: sanitizeRecentSQLFiles_def recent_ok_first split: option.split)

lemma recent_targets_ok: "recent_ok targetKey MAX_RECENT_WORKBENCH_TARGETS (sanitizeRecentConnectionTargets v)"
  by (simp add: sanitizeRecentConnectionTargets_def recent_ok_first split: option.split)

lemma prepend_ok:
  "recent_ok targetKey MAX_RECENT_WORKBENCH_TARGETS ts \<Longrightarrow>
   recent_ok targetKey MAX_RECENT_WORKBENCH_TARGETS (prependRecentConnectionTarget now ts c d)"
  "recent_ok fileKey MAX_RECENT_SQL_FILES fs \<Longrightarrow>
   recent_ok fileKey MAX_RECENT_SQL_FILES (prependRecentSQLFile now fs c d path title)"
  by (simp_all add: prependRecentConnectionTarget_def prependRecentSQLFile_def Let_def recent_ok_prepend)

end
