(* ===== verification/DetachedWindows.thy ===== *)
theory DetachedWindows
  imports JsPrelude Complex_Main
begin

text \<open>
  Floating windows (\<open>src/frontend/src/utils/detachedWindow.ts\<close>): which window lies on top, and where a
  new window opens. Coordinates are rationals; a coordinate that is missing or not finite is \<open>None\<close>.
  The viewport is an argument, \<open>None\<close> when there is no browser window.
\<close>

section \<open>Stacking\<close>

definition APP_DETACHED_WINDOW_Z_INDEX_BASE :: int where
  "APP_DETACHED_WINDOW_Z_INDEX_BASE = 10000 + 1000"

definition nextDetachedZIndex :: "int option list \<Rightarrow> int" where
  "nextDetachedZIndex zs =
     fold (\<lambda>z m. case z of None \<Rightarrow> m | Some n \<Rightarrow> if n > m then n else m) zs APP_DETACHED_WINDOW_Z_INDEX_BASE + 1"

lemma top_of_windows:
  "APP_DETACHED_WINDOW_Z_INDEX_BASE < nextDetachedZIndex zs \<and> (\<forall>n. Some n \<in> set zs \<longrightarrow> n < nextDetachedZIndex zs)"
proof -
  let ?step = "\<lambda>z m. case z of None \<Rightarrow> m | Some n \<Rightarrow> if n > m then n else (m::int)"
  have "m \<le> fold ?step zs m \<and> (\<forall>n. Some n \<in> set zs \<longrightarrow> n \<le> fold ?step zs m)" for m
  proof (induction zs arbitrary: m)
    case (Cons z zs)
    from Cons [of "?step z m"] show ?case by (auto split: option.splits if_splits)
  qed simp
  from this [of APP_DETACHED_WINDOW_Z_INDEX_BASE] show ?thesis
    by (simp add: nextDetachedZIndex_def)
qed

section \<open>Where a window opens\<close>

record windowBounds =
  wb_x :: rat
  wb_y :: rat
  wb_width :: rat
  wb_height :: rat
  wb_zIndex :: int

record preferredBounds =
  pb_x :: "rat option"
  pb_y :: "rat option"
  pb_width :: "rat option"
  pb_height :: "rat option"

datatype sizePreset = PresetWorkbench | PresetAIChat

definition DETACHED_WINDOW_VIEWPORT_PADDING :: rat where
  "DETACHED_WINDOW_VIEWPORT_PADDING = 16"

definition defaultSize :: "sizePreset \<Rightarrow> rat \<times> rat" where
  "defaultSize preset = (case preset of PresetWorkbench \<Rightarrow> (960, 640) | PresetAIChat \<Rightarrow> (440, 720))"

definition minimumSize :: "sizePreset \<Rightarrow> rat \<times> rat" where
  "minimumSize preset = (case preset of PresetWorkbench \<Rightarrow> (480, 320) | PresetAIChat \<Rightarrow> (360, 420))"

text \<open>\<open>Math.round\<close>: halves are rounded up.\<close>

definition js_round :: "rat \<Rightarrow> rat" where
  "js_round r = of_int \<lfloor>r + 1 / 2\<rfloor>"

definition clampTo :: "rat \<Rightarrow> rat \<Rightarrow> rat \<Rightarrow> rat" where
  "clampTo v lo hi = min (max v lo) hi"

definition getViewportSize :: "(rat \<times> rat) option \<Rightarrow> rat \<times> rat" where
  "getViewportSize viewport =
     (case viewport of None \<Rightarrow> (960 + 16 * 2, 640 + 16 * 2) | Some view \<Rightarrow> view)"

text \<open>\<open>Number(v) || fallback\<close>\<close>

definition numberOr :: "rat option \<Rightarrow> rat \<Rightarrow> rat" where
  "numberOr v fallback = (case v of None \<Rightarrow> fallback | Some n \<Rightarrow> if n = 0 then fallback else n)"

text \<open>One axis: the extent of the window and its position.\<close>

definition windowExtent :: "rat \<Rightarrow> rat option \<Rightarrow> rat \<Rightarrow> rat \<Rightarrow> rat" where
  "windowExtent viewport preferred usual smallest =
     clampTo (numberOr preferred usual) smallest (max smallest (viewport - DETACHED_WINDOW_VIEWPORT_PADDING * 2))"

definition windowPosition :: "rat \<Rightarrow> rat \<Rightarrow> rat option \<Rightarrow> rat \<Rightarrow> rat" where
  "windowPosition viewport extent preferred cascade =
     (let usual = max DETACHED_WINDOW_VIEWPORT_PADDING (js_round ((viewport - extent) / 2) + cascade);
          last = max DETACHED_WINDOW_VIEWPORT_PADDING (viewport - extent - DETACHED_WINDOW_VIEWPORT_PADDING) in
      clampTo (case preferred of None \<Rightarrow> usual | Some n \<Rightarrow> n) DETACHED_WINDOW_VIEWPORT_PADDING last)"

definition createDefaultDetachedBounds ::
  "(rat \<times> rat) option \<Rightarrow> int option list \<Rightarrow> preferredBounds \<Rightarrow> sizePreset \<Rightarrow> windowBounds" where
  "createDefaultDetachedBounds viewport zs preferred preset =
     (let (viewWidth, viewHeight) = getViewportSize viewport;
          width = windowExtent viewWidth (pb_width preferred) (fst (defaultSize preset)) (fst (minimumSize preset));
          height = windowExtent viewHeight (pb_height preferred) (snd (defaultSize preset)) (snd (minimumSize preset));
          cascade = of_nat (length zs mod 8) * 28 in
      \<lparr>wb_x = windowPosition viewWidth width (pb_x preferred) cascade,
       wb_y = windowPosition viewHeight height (pb_y preferred) cascade,
       wb_width = width, wb_height = height, wb_zIndex = nextDetachedZIndex zs\<rparr>)"

section \<open>A new window can be seen and used\<close>

lemma extent_bounds:
  "smallest \<le> windowExtent viewport preferred usual smallest
   \<and> (smallest \<le> viewport - 32 \<longrightarrow> windowExtent viewport preferred usual smallest \<le> viewport - 32)"
  by (auto simp: windowExtent_def clampTo_def DETACHED_WINDOW_VIEWPORT_PADDING_def)

lemma position_bounds:
  "16 \<le> windowPosition viewport extent preferred cascade
   \<and> (extent \<le> viewport - 32 \<longrightarrow> windowPosition viewport extent preferred cascade + extent \<le> viewport - 16)"
  by (auto simp: windowPosition_def Let_def clampTo_def DETACHED_WINDOW_VIEWPORT_PADDING_def)

text \<open>
  A floating window opens where it can be used: never smaller than its minimum, never above or left of
  the padded corner, inside the padded viewport whenever the minimum fits there (whatever place and
  size were asked for), and above every window that is open.
\<close>

lemma new_window_is_in_view:
  assumes "w = createDefaultDetachedBounds (Some (viewWidth, viewHeight)) zs preferred preset"
  shows "fst (minimumSize preset) \<le> wb_width w \<and> snd (minimumSize preset) \<le> wb_height w
    \<and> 16 \<le> wb_x w \<and> 16 \<le> wb_y w
    \<and> (fst (minimumSize preset) + 32 \<le> viewWidth \<longrightarrow> wb_x w + wb_width w \<le> viewWidth - 16)
    \<and> (snd (minimumSize preset) + 32 \<le> viewHeight \<longrightarrow> wb_y w + wb_height w \<le> viewHeight - 16)
    \<and> (\<forall>z. Some z \<in> set zs \<longrightarrow> z < wb_zIndex w)"
  unfolding assms using extent_bounds position_bounds top_of_windows
  by (auto simp: createDefaultDetachedBounds_def getViewportSize_def Let_def le_diff_eq)

lemma new_window_is_in_view_witness:
  "wb_x (createDefaultDetachedBounds (Some (1280, 800)) [Some 12001]
      \<lparr>pb_x = Some 5000, pb_y = None, pb_width = None, pb_height = None\<rparr> PresetWorkbench) \<le> 1280 - 16 - 480"
  using new_window_is_in_view [OF refl, where viewWidth = 1280 and viewHeight = 800 and zs = "[Some 12001]"
      and preferred = "\<lparr>pb_x = Some 5000, pb_y = None, pb_width = None, pb_height = None\<rparr>"
      and preset = PresetWorkbench]
  by (simp add: minimumSize_def)

end
