(* ===== verification/WorkbenchTabs.thy ===== *)
theory WorkbenchTabs
  imports RecentEntries DetachedWindows
begin

text \<open>
  The tabs of the workbench (\<open>src/frontend/src/store.ts\<close>, lines 2853 to 2928 and the actions on tabs and
  floating windows, lines 4490 to 5289): which tabs are open, which one is active, which float in a
  window of their own, and the context (connection, database, object) the rest of the program reads.

  A tab is an object with an id, a type and optional fields; it is merged with another one by the spread
  of JavaScript, so its fields are a map, in which a field can also be there with the value \<open>undefined\<close>.
  The texts of unsaved queries and the sessions with their results are kept by two other modules; here
  are the ids they have something for.
\<close>

section \<open>Tabs\<close>

datatype tabField =
  FTitle | FConnectionId | FDbName | FTableName | FQuery | FResultPanelVisible | FReturnToTabId | FFilePath
| FTriggerName | FViewName | FEventName | FRoutineName | FSequenceName | FPackageName | FSchemaName
| FSavedQueryId | FDataImportRunning | FFormatRestoreSnapshot | FReadOnly | FQueryMode | FOther js_string

datatype fieldValue = Undefined | Text js_string | Flag bool | Snapshot js_string int

record tabData =
  tb_id :: js_string
  tb_type :: js_string
  tb_fields :: "tabField \<Rightarrow> fieldValue option"

text \<open>A field that holds a text, the empty text when it is missing.\<close>

definition fieldText :: "tabData \<Rightarrow> tabField \<Rightarrow> js_string" where
  "fieldText t f = (case tb_fields t f of Some (Text s) \<Rightarrow> s | _ \<Rightarrow> [])"

definition trimmedField :: "tabData \<Rightarrow> tabField \<Rightarrow> js_string" where
  "trimmedField t f = js_trim (fieldText t f)"

text \<open>\<open>{ ...old, ...new }\<close>\<close>

definition spreadTab :: "tabData \<Rightarrow> tabData \<Rightarrow> tabData" where
  "spreadTab old new = \<lparr>tb_id = tb_id new, tb_type = tb_type new, tb_fields = tb_fields old ++ tb_fields new\<rparr>"

definition isRunningDataImportTab :: "tabData \<Rightarrow> bool" where
  "isRunningDataImportTab t \<longleftrightarrow> tb_type t = js ''data-import'' \<and> tb_fields t FDataImportRunning = Some (Flag True)"

abbreviation isQueryTab :: "tabData \<Rightarrow> bool" where
  "isQueryTab t \<equiv> tb_type t = js ''query''"

abbreviation tab_ids :: "tabData list \<Rightarrow> js_string set" where
  "tab_ids tabs \<equiv> tb_id ` set tabs"

section \<open>The context of a tab\<close>

text \<open>A schema or an object that is missing is the empty text.\<close>

record activeContext =
  ac_connectionId :: js_string
  ac_dbName :: js_string
  ac_schemaName :: js_string
  ac_tableName :: js_string

definition resolveActiveContextFromTab :: "tabData option \<Rightarrow> activeContext option" where
  "resolveActiveContextFromTab tab =
     (case tab of None \<Rightarrow> None
      | Some t \<Rightarrow>
          if trimmedField t FConnectionId = [] then None
          else Some \<lparr>ac_connectionId = trimmedField t FConnectionId, ac_dbName = trimmedField t FDbName,
                 ac_schemaName = trimmedField t FSchemaName,
                 ac_tableName = js_trim (foldr js_or (map (fieldText t)
                   [FTableName, FViewName, FTriggerName, FEventName, FRoutineName, FSequenceName]) 
                   (fieldText t FPackageName))\<rparr>)"

definition activeContextMatchesTab :: "activeContext option \<Rightarrow> tabData option \<Rightarrow> bool" where
  "activeContextMatchesTab context tab \<longleftrightarrow>
     (case (context, resolveActiveContextFromTab tab) of
        (Some c, Some d) \<Rightarrow> ac_connectionId c = ac_connectionId d \<and> ac_dbName c = ac_dbName d
          \<and> js_trim (ac_schemaName c) = js_trim (ac_schemaName d)
          \<and> js_trim (ac_tableName c) = js_trim (ac_tableName d)
      | _ \<Rightarrow> False)"

definition findTab :: "tabData list \<Rightarrow> js_string \<Rightarrow> tabData option" where
  "findTab tabs i = find (\<lambda>t. tb_id t = i) tabs"

definition resolveActiveContextForTabId ::
  "tabData list \<Rightarrow> js_string option \<Rightarrow> activeContext option \<Rightarrow> activeContext option" where
  "resolveActiveContextForTabId tabs activeTabId fallback =
     (let i = (case activeTabId of None \<Rightarrow> [] | Some i \<Rightarrow> js_trim i) in
      case (if i = [] then None else resolveActiveContextFromTab (findTab tabs i)) of
        None \<Rightarrow> fallback | Some c \<Rightarrow> Some c)"

section \<open>The state\<close>

record workbenchWindow =
  ww_tabId :: js_string
  ww_bounds :: windowBounds

text \<open>\<open>rw_result\<close> refers to the rows that are shown; the store never looks at them.\<close>

record resultWindow =
  rw_id :: js_string
  rw_sourceQueryTabId :: js_string
  rw_connectionId :: js_string
  rw_dbName :: "js_string option"
  rw_title :: js_string
  rw_result :: nat
  rw_bounds :: windowBounds

record workbench =
  ws_tabs :: "tabData list"
  ws_detached :: "workbenchWindow list"
  ws_results :: "resultWindow list"
  ws_activeTabId :: "js_string option"
  ws_activeContext :: "activeContext option"
  ws_recentTargets :: "recentTarget list"
  ws_recentFiles :: "recentFile list"
  ws_showQueryResultsPanel :: bool
  ws_drafts :: "js_string list"
  ws_sessions :: "js_string list"

definition initialWorkbench :: "bool \<Rightarrow> workbench" where
  "initialWorkbench showQueryResultsPanel =
     \<lparr>ws_tabs = [], ws_detached = [], ws_results = [], ws_activeTabId = None, ws_activeContext = None,
      ws_recentTargets = [], ws_recentFiles = [], ws_showQueryResultsPanel = showQueryResultsPanel,
      ws_drafts = [], ws_sessions = []\<rparr>"

text \<open>\<open>clearQueryTabDraft\<close> and \<open>clearQueryEditorResultSession\<close>.\<close>

definition clearId :: "js_string \<Rightarrow> js_string list \<Rightarrow> js_string list" where
  "clearId tabId ids = (let i = js_trim tabId in if i = [] then ids else filter (\<lambda>x. x \<noteq> i) ids)"

text \<open>\<open>setQueryTabDraft\<close> and \<open>saveQueryEditorResultSessionForOpenTab\<close>: something is kept for the id.\<close>

definition keepId :: "js_string \<Rightarrow> js_string list \<Rightarrow> js_string list" where
  "keepId tabId ids = (let i = js_trim tabId in if i = [] \<or> i \<in> set ids then ids else ids @ [i])"

definition noteQueryTabDraft :: "js_string \<Rightarrow> workbench \<Rightarrow> workbench" where
  "noteQueryTabDraft tabId s = s\<lparr>ws_drafts := keepId tabId (ws_drafts s)\<rparr>"

definition saveQueryEditorResultSessionForOpenTab :: "js_string \<Rightarrow> workbench \<Rightarrow> workbench" where
  "saveQueryEditorResultSessionForOpenTab tabId s =
     (if js_trim tabId = [] \<or> js_trim tabId \<notin> tab_ids (ws_tabs s) then s
      else s\<lparr>ws_sessions := keepId (js_trim tabId) (ws_sessions s)\<rparr>)"

definition clearTabs :: "js_string list \<Rightarrow> workbench \<Rightarrow> workbench" where
  "clearTabs gone s = s\<lparr>ws_drafts := fold clearId gone (ws_drafts s), ws_sessions := fold clearId gone (ws_sessions s)\<rparr>"

definition resolveRecentWorkbenchEntries :: "int \<Rightarrow> tabData \<Rightarrow> workbench \<Rightarrow> workbench" where
  "resolveRecentWorkbenchEntries now t s =
     s\<lparr>ws_recentTargets := prependRecentConnectionTarget now (ws_recentTargets s) (fieldText t FConnectionId)
         (fieldText t FDbName),
       ws_recentFiles := prependRecentSQLFile now (ws_recentFiles s) (fieldText t FConnectionId)
         (fieldText t FDbName) (fieldText t FFilePath) (fieldText t FTitle)\<rparr>"

text \<open>The part every action ends with: the active tab and its context.\<close>

definition activateTab :: "js_string option \<Rightarrow> activeContext option \<Rightarrow> workbench \<Rightarrow> workbench" where
  "activateTab i fallback s =
     s\<lparr>ws_activeTabId := i, ws_activeContext := resolveActiveContextForTabId (ws_tabs s) i fallback\<rparr>"

section \<open>Opening a tab\<close>

definition indexWhere :: "('a \<Rightarrow> bool) \<Rightarrow> 'a list \<Rightarrow> nat option" where
  "indexWhere P xs = find (\<lambda>k. P (xs ! k)) [0..<length xs]"

definition sameObject :: "tabData \<Rightarrow> tabData \<Rightarrow> bool" where
  "sameObject incoming t \<longleftrightarrow> tb_type t = tb_type incoming
     \<and> fieldText t FConnectionId = fieldText incoming FConnectionId
     \<and> fieldText t FDbName = fieldText incoming FDbName
     \<and> trimmedField t FSchemaName = trimmedField incoming FSchemaName
     \<and> fieldText t FTableName = fieldText incoming FTableName"

definition sameSavedQuery :: "tabData \<Rightarrow> tabData \<Rightarrow> bool" where
  "sameSavedQuery incoming t \<longleftrightarrow> isQueryTab t
     \<and> (fieldText t FSavedQueryId = fieldText incoming FSavedQueryId \<or> tb_id t = fieldText incoming FSavedQueryId)"

definition withResultPanel :: "bool \<Rightarrow> tabData \<Rightarrow> tabData" where
  "withResultPanel visible t =
     (if isQueryTab t \<and> tb_fields t FResultPanelVisible \<in> {None, Some Undefined}
      then t\<lparr>tb_fields := (tb_fields t)(FResultPanelVisible \<mapsto> Flag visible)\<rparr> else t)"

text \<open>The tab an incoming tab is shown in: one with its id, one for the same object, one for the same query.\<close>

definition reusedTab :: "tabData \<Rightarrow> tabData list \<Rightarrow> nat option" where
  "reusedTab incoming tabs =
     (case indexWhere (\<lambda>t. tb_id t = tb_id incoming) tabs of
        Some k \<Rightarrow> Some k
      | None \<Rightarrow>
          (case (if tb_type incoming \<in> {js ''table'', js ''design'', js ''table-export''}
                    \<and> fieldText incoming FTableName \<noteq> [] \<and> fieldText incoming FConnectionId \<noteq> []
                    \<and> fieldText incoming FDbName \<noteq> []
                 then indexWhere (sameObject incoming) tabs else None) of
             Some k \<Rightarrow> Some k
           | None \<Rightarrow>
               if isQueryTab incoming \<and> fieldText incoming FSavedQueryId \<noteq> []
               then indexWhere (sameSavedQuery incoming) tabs else None))"

definition addTab :: "int \<Rightarrow> tabData \<Rightarrow> workbench \<Rightarrow> workbench" where
  "addTab now tab s =
     (let incoming = withResultPanel (ws_showQueryResultsPanel s) tab; tabs = ws_tabs s;
          shown = (case reusedTab incoming tabs of
             None \<Rightarrow> (tabs @ [incoming], tb_id incoming)
           | Some k \<Rightarrow> (tabs[k := (spreadTab (tabs ! k) incoming)\<lparr>tb_id := tb_id (tabs ! k)\<rparr>], tb_id (tabs ! k))) in
      activateTab (Some (snd shown)) (ws_activeContext s)
        ((resolveRecentWorkbenchEntries now incoming s)\<lparr>ws_tabs := fst shown\<rparr>))"

section \<open>Editing a query\<close>

text \<open>
  The fields an edit gives; \<open>None\<close> is a field it does not give. The outer option of the snapshot is
  whether the edit has the property at all. A time that is no number is \<open>None\<close>.
\<close>

record queryDraft =
  dr_query :: "js_string option"
  dr_connectionId :: "js_string option"
  dr_dbName :: "js_string option"
  dr_schemaName :: "js_string option"
  dr_title :: "js_string option"
  dr_resultPanelVisible :: "bool option"
  dr_formatRestoreSnapshot :: "(js_string \<times> int option) option option"

definition MAX_PERSISTED_QUERY_LENGTH :: nat where
  "MAX_PERSISTED_QUERY_LENGTH = 1024 * 1024"

definition setField :: "tabField \<Rightarrow> fieldValue \<Rightarrow> tabData \<Rightarrow> tabData" where
  "setField f v t = t\<lparr>tb_fields := (tb_fields t)(f \<mapsto> v)\<rparr>"

text \<open>Setting one field when the edit gives it and it differs; whether the tab has changed.\<close>

definition patchField ::
  "'a option \<Rightarrow> tabField \<Rightarrow> (tabData \<Rightarrow> 'a \<Rightarrow> bool) \<Rightarrow> (tabData \<Rightarrow> 'a \<Rightarrow> fieldValue) \<Rightarrow> tabData \<times> bool \<Rightarrow> tabData \<times> bool" where
  "patchField given f differs write tc =
     (case given of None \<Rightarrow> tc
      | Some v \<Rightarrow> if differs (fst tc) v then (setField f (write (fst tc) v) (fst tc), True) else tc)"

definition patchContext :: "queryDraft \<Rightarrow> tabData \<times> bool \<Rightarrow> tabData \<times> bool" where
  "patchContext draft tc =
     patchField (map_option js_trim (dr_dbName draft)) FDbName (\<lambda>t d. fieldText t FDbName \<noteq> d) (\<lambda>_. Text)
      (patchField (map_option js_trim (dr_connectionId draft)) FConnectionId
         (\<lambda>t c. tb_fields t FConnectionId \<noteq> Some (Text c)) (\<lambda>_. Text) tc)"

definition patchSnapshot :: "int \<Rightarrow> (js_string \<times> int option) option option \<Rightarrow> tabData \<times> bool \<Rightarrow> tabData \<times> bool" where
  "patchSnapshot now given tc =
     (case given of None \<Rightarrow> tc
      | Some raw \<Rightarrow>
          (let next = (case raw of None \<Rightarrow> None
                 | Some (q, c) \<Rightarrow> Some (take MAX_PERSISTED_QUERY_LENGTH q, (case c of None \<Rightarrow> now | Some n \<Rightarrow> n)));
               current = (case tb_fields (fst tc) FFormatRestoreSnapshot of Some (Snapshot q c) \<Rightarrow> Some (q, c) | _ \<Rightarrow> None) in
           if current = next then tc
           else (case next of
               Some (q, c) \<Rightarrow>
                 (if q \<noteq> [] then (setField FFormatRestoreSnapshot (Snapshot q c) (fst tc), True)
                  else ((fst tc)\<lparr>tb_fields := (tb_fields (fst tc))(FFormatRestoreSnapshot := None)\<rparr>, True))
             | None \<Rightarrow> ((fst tc)\<lparr>tb_fields := (tb_fields (fst tc))(FFormatRestoreSnapshot := None)\<rparr>, True))))"

definition patchTab :: "int \<Rightarrow> queryDraft \<Rightarrow> tabData \<Rightarrow> tabData \<times> bool" where
  "patchTab now draft t =
     patchSnapshot now (dr_formatRestoreSnapshot draft)
      (patchField (dr_resultPanelVisible draft) FResultPanelVisible
         (\<lambda>t b. tb_fields t FResultPanelVisible \<noteq> Some (Flag b)) (\<lambda>_. Flag)
       (patchField (dr_title draft) FTitle
          (\<lambda>t s. fieldText t FTitle \<noteq> js_or (js_trim s) (fieldText t FTitle))
          (\<lambda>t s. Text (js_or (js_trim s) (fieldText t FTitle)))
        (patchField (map_option (\<lambda>s. take 256 (js_trim s)) (dr_schemaName draft)) FSchemaName
           (\<lambda>t s. fieldText t FSchemaName \<noteq> s) (\<lambda>_ s. if s = [] then Undefined else Text s)
         (patchContext draft
          (patchField (map_option (take MAX_PERSISTED_QUERY_LENGTH) (dr_query draft)) FQuery
             (\<lambda>t q. tb_fields t FQuery \<noteq> Some (Text q)) (\<lambda>_. Text) (t, False))))))"

text \<open>Whether the edit changes the connection or the database of the tab.\<close>

definition contextChanged :: "queryDraft \<Rightarrow> tabData \<Rightarrow> bool" where
  "contextChanged draft t = snd (patchContext draft (t, False))"

definition updateQueryTabDraft :: "int \<Rightarrow> js_string \<Rightarrow> queryDraft \<Rightarrow> workbench \<Rightarrow> workbench" where
  "updateQueryTabDraft now i draft s =
     (let tabId = js_trim i; edited = filter (\<lambda>t. tb_id t = tabId \<and> isQueryTab t) (ws_tabs s);
          nextTabs = map (\<lambda>t. if tb_id t = tabId \<and> isQueryTab t then fst (patchTab now draft t) else t) (ws_tabs s);
          rebound = filter (contextChanged draft) edited in
      if tabId = [] \<or> \<not> list_ex (\<lambda>t. snd (patchTab now draft t)) edited then s
      else
        (let recent = (if rebound = [] then s
               else resolveRecentWorkbenchEntries now (fst (patchTab now draft (last rebound))) s);
             sync = (ws_activeTabId s = Some tabId \<and> findTab nextTabs tabId \<noteq> None
               \<and> (ws_activeContext s = None \<or> activeContextMatchesTab (ws_activeContext s) (findTab (ws_tabs s) tabId))) in
         recent\<lparr>ws_tabs := nextTabs,
                ws_activeContext := (if sync then resolveActiveContextFromTab (findTab nextTabs tabId)
                                     else ws_activeContext s)\<rparr>))"

section \<open>Closing tabs\<close>

text \<open>What closing removes besides the tabs: the floating windows of the tabs that are gone.\<close>

definition keepWindowsOf :: "js_string set \<Rightarrow> workbench \<Rightarrow> workbench" where
  "keepWindowsOf ids s =
     s\<lparr>ws_detached := filter (\<lambda>w. ww_tabId w \<in> ids) (ws_detached s),
       ws_results := filter (\<lambda>w. rw_sourceQueryTabId w \<in> ids) (ws_results s)\<rparr>"

definition lastTabId :: "tabData list \<Rightarrow> js_string option" where
  "lastTabId tabs = (if tabs = [] then None else Some (tb_id (last tabs)))"

definition resolveCloseTabActiveTabId :: "tabData option \<Rightarrow> tabData list \<Rightarrow> js_string option" where
  "resolveCloseTabActiveTabId closedTab newTabs =
     (let back = (case closedTab of None \<Rightarrow> [] | Some t \<Rightarrow> trimmedField t FReturnToTabId) in
      if back \<noteq> [] \<and> back \<in> tab_ids newTabs then Some back else lastTabId newTabs)"

definition id_or :: "js_string option \<Rightarrow> js_string option \<Rightarrow> js_string option" where
  "id_or a b = (if a = None \<or> a = Some [] then b else a)"

definition closeTab :: "js_string \<Rightarrow> workbench \<Rightarrow> workbench" where
  "closeTab i s =
     (let closedTab = findTab (ws_tabs s) i in
      if (case closedTab of None \<Rightarrow> False | Some t \<Rightarrow> isRunningDataImportTab t) then s
      else
        (let cleared = (if (case closedTab of None \<Rightarrow> False | Some t \<Rightarrow> isQueryTab t) then clearTabs [i] s else s);
             newTabs = filter (\<lambda>t. tb_id t \<noteq> i) (ws_tabs s);
             docked = filter (\<lambda>t. tb_id t \<notin> ww_tabId ` set (ws_detached s)) newTabs;
             nextActive = (if ws_activeTabId s = Some i
               then id_or (resolveCloseTabActiveTabId closedTab docked) (resolveCloseTabActiveTabId closedTab newTabs)
               else ws_activeTabId s) in
         (activateTab nextActive (ws_activeContext s) (cleared\<lparr>ws_tabs := newTabs\<rparr>))
           \<lparr>ws_detached := filter (\<lambda>w. ww_tabId w \<noteq> i) (ws_detached s),
            ws_results := filter (\<lambda>w. rw_sourceQueryTabId w \<noteq> i) (ws_results s)\<rparr>))"

definition closeOtherTabs :: "js_string \<Rightarrow> workbench \<Rightarrow> workbench" where
  "closeOtherTabs i s =
     (case findTab (ws_tabs s) i of
        None \<Rightarrow> s
      | Some keep \<Rightarrow>
          (let newTabs = filter (\<lambda>t. tb_id t = i \<or> isRunningDataImportTab t) (ws_tabs s) in
           keepWindowsOf (tab_ids newTabs)
             ((clearTabs (map tb_id (filter (\<lambda>t. tb_id t \<noteq> i \<and> isQueryTab t) (ws_tabs s))) s)
                \<lparr>ws_tabs := newTabs, ws_activeTabId := Some i,
                 ws_activeContext := resolveActiveContextFromTab (Some keep)\<rparr>)))"

text \<open>Closing the tabs on one side: \<open>kept k\<close> tells whether position \<open>k\<close> lies on the other side.\<close>

definition filterIndexed :: "(nat \<Rightarrow> 'a \<Rightarrow> bool) \<Rightarrow> 'a list \<Rightarrow> 'a list" where
  "filterIndexed P xs = map snd (filter (\<lambda>(k, x). P k x) (enumerate 0 xs))"

definition closeSide :: "(nat \<Rightarrow> nat \<Rightarrow> bool) \<Rightarrow> js_string \<Rightarrow> workbench \<Rightarrow> workbench" where
  "closeSide kept i s =
     (case indexWhere (\<lambda>t. tb_id t = i) (ws_tabs s) of
        None \<Rightarrow> s
      | Some index \<Rightarrow>
          (let closing = filter isQueryTab (filterIndexed (\<lambda>k t. \<not> kept index k) (ws_tabs s));
               newTabs = filterIndexed (\<lambda>k t. kept index k \<or> isRunningDataImportTab t) (ws_tabs s);
               nextActive = (if ws_activeTabId s \<in> Some ` tab_ids newTabs \<and> ws_activeTabId s \<noteq> Some []
                             then ws_activeTabId s else Some i) in
           keepWindowsOf (tab_ids newTabs) (activateTab nextActive (ws_activeContext s)
             ((clearTabs (map tb_id closing) s)\<lparr>ws_tabs := newTabs\<rparr>))))"

definition closeTabsToLeft :: "js_string \<Rightarrow> workbench \<Rightarrow> workbench" where
  "closeTabsToLeft = closeSide (\<lambda>index k. index \<le> k)"

definition closeTabsToRight :: "js_string \<Rightarrow> workbench \<Rightarrow> workbench" where
  "closeTabsToRight = closeSide (\<lambda>index k. k \<le> index)"

text \<open>Closing the tabs of a connection or a database: \<open>hit\<close> tells which, and which context goes with them.\<close>

definition closeMatching :: "(tabData \<Rightarrow> bool) \<Rightarrow> (activeContext \<Rightarrow> bool) \<Rightarrow> workbench \<Rightarrow> workbench" where
  "closeMatching hit stale s =
     (let newTabs = filter (\<lambda>t. isRunningDataImportTab t \<or> \<not> hit t) (ws_tabs s);
          nextActive = (if ws_activeTabId s \<in> Some ` tab_ids newTabs \<and> ws_activeTabId s \<noteq> Some []
                        then ws_activeTabId s else lastTabId newTabs);
          fallback = (case ws_activeContext s of None \<Rightarrow> None | Some c \<Rightarrow> if stale c then None else Some c) in
      keepWindowsOf (tab_ids newTabs) (activateTab nextActive fallback
        ((clearTabs (map tb_id (filter (\<lambda>t. isQueryTab t \<and> hit t) (ws_tabs s))) s)\<lparr>ws_tabs := newTabs\<rparr>)))"

definition closeTabsByConnection :: "js_string \<Rightarrow> workbench \<Rightarrow> workbench" where
  "closeTabsByConnection connectionId s =
     (let target = js_trim connectionId in
      if target = [] then s
      else closeMatching (\<lambda>t. trimmedField t FConnectionId = target) (\<lambda>c. ac_connectionId c = target) s)"

definition closeTabsByDatabase :: "js_string \<Rightarrow> js_string \<Rightarrow> workbench \<Rightarrow> workbench" where
  "closeTabsByDatabase connectionId dbName s =
     (let target = js_trim connectionId; db = js_trim dbName in
      if target = [] \<or> db = [] then s
      else closeMatching (\<lambda>t. trimmedField t FConnectionId = target \<and> trimmedField t FDbName = db)
             (\<lambda>c. ac_connectionId c = target \<and> ac_dbName c = db) s)"

definition closeAllTabs :: "workbench \<Rightarrow> workbench" where
  "closeAllTabs s =
     (let newTabs = filter isRunningDataImportTab (ws_tabs s);
          nextActive = (if ws_activeTabId s \<in> Some ` tab_ids newTabs \<and> ws_activeTabId s \<noteq> Some []
            then ws_activeTabId s
            else if newTabs = [] \<or> tb_id (hd newTabs) = [] then None else Some (tb_id (hd newTabs))) in
      keepWindowsOf (tab_ids newTabs) (activateTab nextActive None
        ((clearTabs (map tb_id (filter isQueryTab (ws_tabs s))) s)\<lparr>ws_tabs := newTabs\<rparr>)))"

section \<open>Moving and activating\<close>

definition moveTab :: "js_string \<Rightarrow> js_string \<Rightarrow> workbench \<Rightarrow> workbench" where
  "moveTab sourceId targetId s =
     (let fromId = js_trim sourceId; toId = js_trim targetId; tabs = ws_tabs s in
      if fromId = [] \<or> toId = [] \<or> fromId = toId then s
      else (case (indexWhere (\<lambda>t. tb_id t = fromId) tabs, indexWhere (\<lambda>t. tb_id t = toId) tabs) of
         (Some from, Some to) \<Rightarrow>
           (if from = to then s
            else (let rest = take from tabs @ drop (from + 1) tabs in
                  s\<lparr>ws_tabs := take to rest @ tabs ! from # drop to rest\<rparr>))
       | _ \<Rightarrow> s))"

definition raiseWindow :: "js_string \<Rightarrow> workbench \<Rightarrow> workbench" where
  "raiseWindow i s =
     (let z = nextDetachedZIndex (map (\<lambda>w. Some (wb_zIndex (ww_bounds w))) (ws_detached s)) in
      s\<lparr>ws_detached := map (\<lambda>w. if ww_tabId w = i then w\<lparr>ww_bounds := (ww_bounds w)\<lparr>wb_zIndex := z\<rparr>\<rparr> else w)
          (ws_detached s)\<rparr>)"

definition setActiveTab :: "js_string \<Rightarrow> workbench \<Rightarrow> workbench" where
  "setActiveTab tabId s =
     (let i = js_trim tabId; active = activateTab (Some i) (ws_activeContext s) s in
      if i \<in> ww_tabId ` set (ws_detached s) then raiseWindow i active else active)"

definition setActiveContext :: "activeContext option \<Rightarrow> workbench \<Rightarrow> workbench" where
  "setActiveContext context s = s\<lparr>ws_activeContext := context\<rparr>"

section \<open>Floating windows of tabs\<close>

definition detachWorkbenchTab ::
  "(rat \<times> rat) option \<Rightarrow> js_string \<Rightarrow> preferredBounds \<Rightarrow> workbench \<Rightarrow> workbench" where
  "detachWorkbenchTab viewport tabId preferred s =
     (let i = js_trim tabId in
      if i = [] \<or> i \<notin> tab_ids (ws_tabs s) then s
      else if i \<in> ww_tabId ` set (ws_detached s)
      then raiseWindow i (activateTab (Some i) (ws_activeContext s) s)
      else
        (let bounds = createDefaultDetachedBounds viewport (map (\<lambda>w. Some (wb_zIndex (ww_bounds w))) (ws_detached s))
               preferred PresetWorkbench in
         (activateTab (Some i) (ws_activeContext s) s)
           \<lparr>ws_detached := ws_detached s @ [\<lparr>ww_tabId = i, ww_bounds = bounds\<rparr>]\<rparr>))"

definition attachWorkbenchTab :: "js_string \<Rightarrow> workbench \<Rightarrow> workbench" where
  "attachWorkbenchTab tabId s =
     (let i = js_trim tabId in
      if i = [] then s
      else (activateTab (Some i) (ws_activeContext s) s)
             \<lparr>ws_detached := filter (\<lambda>w. ww_tabId w \<noteq> i) (ws_detached s)\<rparr>)"

definition newBounds :: "preferredBounds \<Rightarrow> windowBounds \<Rightarrow> windowBounds" where
  "newBounds given b =
     b\<lparr>wb_x := (case pb_x given of None \<Rightarrow> wb_x b | Some x \<Rightarrow> x),
       wb_y := (case pb_y given of None \<Rightarrow> wb_y b | Some y \<Rightarrow> y),
       wb_width := (case pb_width given of None \<Rightarrow> wb_width b | Some w \<Rightarrow> w),
       wb_height := (case pb_height given of None \<Rightarrow> wb_height b | Some h \<Rightarrow> h)\<rparr>"

definition updateDetachedWorkbenchBounds :: "js_string \<Rightarrow> preferredBounds \<Rightarrow> workbench \<Rightarrow> workbench" where
  "updateDetachedWorkbenchBounds tabId given s =
     (let i = js_trim tabId in
      if i = [] then s
      else s\<lparr>ws_detached := map (\<lambda>w. if ww_tabId w = i then w\<lparr>ww_bounds := newBounds given (ww_bounds w)\<rparr> else w)
             (ws_detached s)\<rparr>)"

definition focusDetachedWorkbenchTab :: "js_string \<Rightarrow> workbench \<Rightarrow> workbench" where
  "focusDetachedWorkbenchTab tabId s =
     (let i = js_trim tabId in
      if i = [] \<or> i \<notin> ww_tabId ` set (ws_detached s) then s
      else raiseWindow i (activateTab (Some i) (ws_activeContext s) s))"

definition isWorkbenchTabDetached :: "js_string \<Rightarrow> workbench \<Rightarrow> bool" where
  "isWorkbenchTabDetached tabId s = (js_trim tabId \<in> ww_tabId ` set (ws_detached s))"

section \<open>Floating windows of results\<close>

text \<open>The window that is asked for: its bounds are wishes.\<close>

record resultRequest =
  rq_id :: js_string
  rq_sourceQueryTabId :: js_string
  rq_connectionId :: js_string
  rq_dbName :: "js_string option"
  rq_title :: js_string
  rq_result :: nat
  rq_bounds :: preferredBounds

definition resultZIndexes :: "workbench \<Rightarrow> int option list" where
  "resultZIndexes s = map (\<lambda>w. Some (wb_zIndex (rw_bounds w))) (ws_results s)"

definition detachQueryResultWindow ::
  "(rat \<times> rat) option \<Rightarrow> resultRequest \<Rightarrow> workbench \<Rightarrow> workbench" where
  "detachQueryResultWindow viewport r s =
     (let i = js_trim (rq_id r) in
      if i = [] then s
      else (case indexWhere (\<lambda>w. rw_id w = i) (ws_results s) of
         Some k \<Rightarrow>
           (let old = ws_results s ! k in
            s\<lparr>ws_results := (ws_results s)[k :=
                \<lparr>rw_id = rq_id r, rw_sourceQueryTabId = rq_sourceQueryTabId r, rw_connectionId = rq_connectionId r,
                 rw_dbName = (case rq_dbName r of None \<Rightarrow> rw_dbName old | Some d \<Rightarrow> Some d), rw_title = rq_title r,
                 rw_result = rq_result r,
                 rw_bounds = (newBounds (rq_bounds r) (rw_bounds old))\<lparr>wb_zIndex := nextDetachedZIndex (resultZIndexes s)\<rparr>\<rparr>]\<rparr>)
       | None \<Rightarrow>
           s\<lparr>ws_results := ws_results s @
               [\<lparr>rw_id = i, rw_sourceQueryTabId = rq_sourceQueryTabId r, rw_connectionId = rq_connectionId r,
                 rw_dbName = rq_dbName r, rw_title = js_or (rq_title r) i, rw_result = rq_result r,
                 rw_bounds = createDefaultDetachedBounds viewport (resultZIndexes s) (rq_bounds r) PresetWorkbench\<rparr>]\<rparr>))"

definition attachQueryResultWindow :: "js_string \<Rightarrow> workbench \<Rightarrow> resultWindow option \<times> workbench" where
  "attachQueryResultWindow i s =
     (let windowId = js_trim i in
      if windowId = [] then (None, s)
      else (case find (\<lambda>w. rw_id w = windowId) (ws_results s) of
         None \<Rightarrow> (None, s)
       | Some found \<Rightarrow> (Some found, s\<lparr>ws_results := filter (\<lambda>w. rw_id w \<noteq> windowId) (ws_results s)\<rparr>)))"

definition closeDetachedQueryResultWindow :: "js_string \<Rightarrow> workbench \<Rightarrow> workbench" where
  "closeDetachedQueryResultWindow i s = s\<lparr>ws_results := filter (\<lambda>w. rw_id w \<noteq> js_trim i) (ws_results s)\<rparr>"

definition updateDetachedQueryResultBounds :: "js_string \<Rightarrow> preferredBounds \<Rightarrow> workbench \<Rightarrow> workbench" where
  "updateDetachedQueryResultBounds i given s =
     (let windowId = js_trim i in
      if windowId = [] then s
      else s\<lparr>ws_results := map (\<lambda>w. if rw_id w = windowId then w\<lparr>rw_bounds := newBounds given (rw_bounds w)\<rparr> else w)
             (ws_results s)\<rparr>)"

definition focusDetachedQueryResultWindow :: "js_string \<Rightarrow> workbench \<Rightarrow> workbench" where
  "focusDetachedQueryResultWindow i s =
     (let windowId = js_trim i in
      if windowId = [] \<or> windowId \<notin> rw_id ` set (ws_results s) then s
      else s\<lparr>ws_results := map (\<lambda>w. if rw_id w = windowId
               then w\<lparr>rw_bounds := (rw_bounds w)\<lparr>wb_zIndex := nextDetachedZIndex (resultZIndexes s)\<rparr>\<rparr> else w)
             (ws_results s)\<rparr>)"

definition closeDetachedQueryResultWindowsBySourceTab :: "js_string \<Rightarrow> workbench \<Rightarrow> workbench" where
  "closeDetachedQueryResultWindowsBySourceTab sourceQueryTabId s =
     (let sourceId = js_trim sourceQueryTabId in
      if sourceId = [] then s
      else s\<lparr>ws_results := filter (\<lambda>w. rw_sourceQueryTabId w \<noteq> sourceId) (ws_results s)\<rparr>)"

end
