(* ===== verification/WorkbenchTabsProps.thy ===== *)
theory WorkbenchTabsProps
  imports WorkbenchTabs "HOL-Library.Sublist"
begin

text \<open>
  The workbench under its actions: ids stay distinct, the active tab is open, floating windows belong to
  open tabs, a running import is never closed, closing a tab leaves nothing of it behind, and the
  context is that of the active tab.
\<close>

section \<open>Steps\<close>

inductive closeStep :: "workbench \<Rightarrow> workbench \<Rightarrow> bool" where
  close_one: "closeStep s (closeTab i s)"
| close_others: "closeStep s (closeOtherTabs i s)"
| close_left: "closeStep s (closeTabsToLeft i s)"
| close_right: "closeStep s (closeTabsToRight i s)"
| close_connection: "closeStep s (closeTabsByConnection c s)"
| close_database: "closeStep s (closeTabsByDatabase c d s)"
| close_all: "closeStep s (closeAllTabs s)"

text \<open>
  The actions that do not touch the context on their own. A tab that is opened has a trimmed id, and
  \<open>setActiveTab\<close> and \<open>attachWorkbenchTab\<close> get the id of an open tab. An edit of the active tab does
  not give it its first connection.
\<close>

definition givesConnection :: "js_string \<Rightarrow> queryDraft \<Rightarrow> workbench \<Rightarrow> bool" where
  "givesConnection i draft s \<longleftrightarrow> ws_activeTabId s = Some (js_trim i)
     \<and> (\<exists>t. findTab (ws_tabs s) (js_trim i) = Some t \<and> trimmedField t FConnectionId = [])
     \<and> dr_connectionId draft \<noteq> None"

inductive tabStep :: "workbench \<Rightarrow> workbench \<Rightarrow> bool" where
  step_add: "clean (tb_id t) \<Longrightarrow> tabStep s (addTab now t s)"
| step_edit: "\<not> givesConnection i draft s \<Longrightarrow> tabStep s (updateQueryTabDraft now i draft s)"
| step_close: "closeStep s s' \<Longrightarrow> tabStep s s'"
| step_move: "tabStep s (moveTab i j s)"
| step_activate: "js_trim i \<in> tab_ids (ws_tabs s) \<Longrightarrow> tabStep s (setActiveTab i s)"
| step_detach: "tabStep s (detachWorkbenchTab viewport i preferred s)"
| step_attach: "js_trim i \<in> tab_ids (ws_tabs s) \<Longrightarrow> tabStep s (attachWorkbenchTab i s)"
| step_bounds: "tabStep s (updateDetachedWorkbenchBounds i given s)"
| step_focus: "tabStep s (focusDetachedWorkbenchTab i s)"
| step_result: "tabStep s (detachQueryResultWindow viewport r s)"
| step_attach_result: "tabStep s (snd (attachQueryResultWindow i s))"
| step_close_result: "tabStep s (closeDetachedQueryResultWindow i s)"
| step_result_bounds: "tabStep s (updateDetachedQueryResultBounds i given s)"
| step_focus_result: "tabStep s (focusDetachedQueryResultWindow i s)"
| step_close_results: "tabStep s (closeDetachedQueryResultWindowsBySourceTab i s)"
| step_draft: "tabStep s (noteQueryTabDraft i s)"
| step_session: "tabStep s (saveQueryEditorResultSessionForOpenTab i s)"

text \<open>All actions.\<close>

inductive workbenchStep :: "workbench \<Rightarrow> workbench \<Rightarrow> bool" where
  step_tab: "tabStep s s' \<Longrightarrow> workbenchStep s s'"
| step_any_edit: "workbenchStep s (updateQueryTabDraft now i draft s)"
| step_context: "workbenchStep s (setActiveContext c s)"

section \<open>The invariant\<close>

definition workbench_ok :: "workbench \<Rightarrow> bool" where
  "workbench_ok s \<longleftrightarrow> distinct (map tb_id (ws_tabs s)) \<and> (\<forall>t\<in>set (ws_tabs s). clean (tb_id t))
     \<and> distinct (map ww_tabId (ws_detached s)) \<and> ww_tabId ` set (ws_detached s) \<subseteq> tab_ids (ws_tabs s)
     \<and> (ws_activeTabId s = None \<longleftrightarrow> ws_tabs s = []) \<and> (\<forall>i. ws_activeTabId s = Some i \<longrightarrow> i \<in> tab_ids (ws_tabs s))
     \<and> recent_ok targetKey MAX_RECENT_WORKBENCH_TARGETS (ws_recentTargets s)
     \<and> recent_ok fileKey MAX_RECENT_SQL_FILES (ws_recentFiles s)"

lemma workbench_ok_initial: "workbench_ok (initialWorkbench b)"
  by (simp add: workbench_ok_def initialWorkbench_def)

lemma activate_fields [simp]:
  "ws_tabs (activateTab i c s) = ws_tabs s" "ws_detached (activateTab i c s) = ws_detached s"
  "ws_results (activateTab i c s) = ws_results s" "ws_activeTabId (activateTab i c s) = i"
  "ws_recentTargets (activateTab i c s) = ws_recentTargets s" "ws_recentFiles (activateTab i c s) = ws_recentFiles s"
  "ws_drafts (activateTab i c s) = ws_drafts s" "ws_sessions (activateTab i c s) = ws_sessions s"
  "ws_activeContext (activateTab i c s) = resolveActiveContextForTabId (ws_tabs s) i c"
  by (simp_all add: activateTab_def)

lemma keep_fields [simp]:
  "ws_tabs (keepWindowsOf ids s) = ws_tabs s" "ws_activeTabId (keepWindowsOf ids s) = ws_activeTabId s"
  "ws_detached (keepWindowsOf ids s) = filter (\<lambda>w. ww_tabId w \<in> ids) (ws_detached s)"
  "ws_results (keepWindowsOf ids s) = filter (\<lambda>w. rw_sourceQueryTabId w \<in> ids) (ws_results s)"
  "ws_recentTargets (keepWindowsOf ids s) = ws_recentTargets s" "ws_recentFiles (keepWindowsOf ids s) = ws_recentFiles s"
  "ws_drafts (keepWindowsOf ids s) = ws_drafts s" "ws_sessions (keepWindowsOf ids s) = ws_sessions s"
  "ws_activeContext (keepWindowsOf ids s) = ws_activeContext s"
  by (simp_all add: keepWindowsOf_def)

lemma clear_fields [simp]:
  "ws_tabs (clearTabs gone s) = ws_tabs s" "ws_activeTabId (clearTabs gone s) = ws_activeTabId s"
  "ws_detached (clearTabs gone s) = ws_detached s" "ws_results (clearTabs gone s) = ws_results s"
  "ws_recentTargets (clearTabs gone s) = ws_recentTargets s" "ws_recentFiles (clearTabs gone s) = ws_recentFiles s"
  "ws_activeContext (clearTabs gone s) = ws_activeContext s"
  by (simp_all add: clearTabs_def)

lemma recent_fields [simp]:
  "ws_tabs (resolveRecentWorkbenchEntries now t s) = ws_tabs s"
  "ws_activeTabId (resolveRecentWorkbenchEntries now t s) = ws_activeTabId s"
  "ws_detached (resolveRecentWorkbenchEntries now t s) = ws_detached s"
  "ws_results (resolveRecentWorkbenchEntries now t s) = ws_results s"
  "ws_activeContext (resolveRecentWorkbenchEntries now t s) = ws_activeContext s"
  by (simp_all add: resolveRecentWorkbenchEntries_def)

lemma raise_fields [simp]:
  "ws_tabs (raiseWindow i s) = ws_tabs s" "ws_activeTabId (raiseWindow i s) = ws_activeTabId s"
  "ws_results (raiseWindow i s) = ws_results s" "map ww_tabId (ws_detached (raiseWindow i s)) = map ww_tabId (ws_detached s)"
  "ws_recentTargets (raiseWindow i s) = ws_recentTargets s" "ws_recentFiles (raiseWindow i s) = ws_recentFiles s"
  "ws_activeContext (raiseWindow i s) = ws_activeContext s"
  by (auto simp: raiseWindow_def Let_def)

lemma raise_tabs [simp]: "ww_tabId ` set (ws_detached (raiseWindow i s)) = ww_tabId ` set (ws_detached s)"
  by (metis raise_fields(4) set_map)

lemma indexWhere_Some: "indexWhere P xs = Some k \<Longrightarrow> k < length xs \<and> P (xs ! k)"
  by (auto simp: indexWhere_def find_Some_iff)

lemma indexWhere_None: "indexWhere P xs = None \<longleftrightarrow> (\<forall>x\<in>set xs. \<not> P x)"
  by (auto simp: indexWhere_def find_None_iff all_set_conv_all_nth)

lemma findTab_iff:
  "distinct (map tb_id tabs) \<Longrightarrow> findTab tabs i = Some t \<longleftrightarrow> t \<in> set tabs \<and> tb_id t = i"
  by (induction tabs) (auto simp: findTab_def image_iff)

lemma findTab_None: "findTab tabs i = None \<longleftrightarrow> i \<notin> tab_ids tabs"
  by (auto simp: findTab_def find_None_iff)

lemma subseq_filterIndexed: "subseq (filterIndexed P xs) xs"
proof -
  have "subseq (map snd (filter (\<lambda>(k, x). P k x) (enumerate 0 xs))) (map snd (enumerate 0 xs))"
    by (intro subseq_map subseq_filter_left)
  then show ?thesis by (simp add: filterIndexed_def)
qed

lemma set_filterIndexed: "x \<in> set (filterIndexed P xs) \<longleftrightarrow> (\<exists>k<length xs. xs ! k = x \<and> P k x)"
  by (force simp: filterIndexed_def in_set_enumerate_eq)

lemma in_filterIndexed: "x \<in> set xs \<Longrightarrow> (\<And>k. P k x) \<Longrightarrow> x \<in> set (filterIndexed P xs)"
  unfolding set_filterIndexed by (auto simp: in_set_conv_nth)

section \<open>Closing\<close>

text \<open>Closing only removes tabs, and never a running import.\<close>

lemma closing_removes_tabs:
  assumes "closeStep s s'"
  shows "subseq (ws_tabs s') (ws_tabs s) \<and> (\<forall>t\<in>set (ws_tabs s). isRunningDataImportTab t \<longrightarrow> distinct (map tb_id (ws_tabs s)) \<longrightarrow> t \<in> set (ws_tabs s'))"
  using assms
proof cases
  case (close_one i)
  have "tb_id t \<noteq> i" if "t \<in> set (ws_tabs s)" "isRunningDataImportTab t" "distinct (map tb_id (ws_tabs s))"
    "\<not> (case findTab (ws_tabs s) i of None \<Rightarrow> False | Some t \<Rightarrow> isRunningDataImportTab t)" for t
    using that findTab_iff [OF that(3), of i t] by auto
  with close_one show ?thesis by (auto simp: closeTab_def Let_def)
next
  case (close_others i)
  then show ?thesis by (auto simp: closeOtherTabs_def Let_def split: option.split)
next
  case (close_left i)
  then show ?thesis
    by (auto simp: closeTabsToLeft_def closeSide_def Let_def subseq_filterIndexed intro: in_filterIndexed split: option.split)
next
  case (close_right i)
  then show ?thesis
    by (auto simp: closeTabsToRight_def closeSide_def Let_def subseq_filterIndexed intro: in_filterIndexed split: option.split)
qed (auto simp: closeTabsByConnection_def closeTabsByDatabase_def closeMatching_def closeAllTabs_def Let_def)

lemma distinct_subseq: "subseq xs ys \<Longrightarrow> distinct ys \<Longrightarrow> distinct xs"
  by (auto simp: subseq_conv_nths distinct_nthsI)

lemma ok_closed:
  assumes "workbench_ok s" "subseq (ws_tabs s') (ws_tabs s)" "subseq (ws_detached s') (ws_detached s)"
    and "ww_tabId ` set (ws_detached s') \<subseteq> tab_ids (ws_tabs s')" "ws_activeTabId s' = None \<longleftrightarrow> ws_tabs s' = []"
    and "\<forall>i. ws_activeTabId s' = Some i \<longrightarrow> i \<in> tab_ids (ws_tabs s')"
    and "ws_recentTargets s' = ws_recentTargets s" "ws_recentFiles s' = ws_recentFiles s"
  shows "workbench_ok s'"
proof -
  have "distinct (map tb_id (ws_tabs s'))" "distinct (map ww_tabId (ws_detached s'))"
    using distinct_subseq [OF subseq_map [OF assms(2), of tb_id]] distinct_subseq [OF subseq_map [OF assms(3), of ww_tabId]]
      assms(1)
    by (simp_all add: workbench_ok_def)
  moreover have "set (ws_tabs s') \<subseteq> set (ws_tabs s)" using assms(2) by (auto simp: subseq_conv_nths dest: in_set_nthsD)
  ultimately show ?thesis using assms by (auto simp: workbench_ok_def)
qed

lemma lastTabId_spec: "lastTabId tabs = None \<longleftrightarrow> tabs = []" "lastTabId tabs = Some i \<Longrightarrow> i \<in> tab_ids tabs"
  by (auto simp: lastTabId_def split: if_splits)

lemma resolve_close_spec:
  "resolveCloseTabActiveTabId closed' tabs = None \<longleftrightarrow> tabs = []"
  "resolveCloseTabActiveTabId closed' tabs = Some i \<Longrightarrow> i \<in> tab_ids tabs"
  using lastTabId_spec [of tabs] by (auto simp: resolveCloseTabActiveTabId_def Let_def split: if_splits)

lemma closed_active:
  fixes c :: "tabData option"
  assumes "set docked \<subseteq> set tabs" "\<forall>t\<in>set tabs. tb_id t \<noteq> []"
  defines "a \<equiv> id_or (resolveCloseTabActiveTabId c docked) (resolveCloseTabActiveTabId c tabs)"
  shows "a = None \<longleftrightarrow> tabs = []" "a = Some i \<Longrightarrow> i \<in> tab_ids tabs"
proof -
  have "resolveCloseTabActiveTabId c tabs \<noteq> Some []"
    using resolve_close_spec(2) [of c tabs "[]"] assms(2) by (metis imageE)
  then show "a = None \<longleftrightarrow> tabs = []"
    using resolve_close_spec(1) [of c docked] resolve_close_spec(1) [of c tabs] assms(1) by (auto simp: a_def id_or_def)
  show "a = Some i \<Longrightarrow> i \<in> tab_ids tabs"
    using resolve_close_spec(2) [of c docked i] resolve_close_spec(2) [of c tabs i] assms(1)
    by (auto simp: a_def id_or_def split: if_splits)
qed

lemma close_tab_ok: "workbench_ok s \<Longrightarrow> workbench_ok (closeTab i s)"
proof (cases "\<exists>t. findTab (ws_tabs s) i = Some t \<and> isRunningDataImportTab t")
  case True
  then show "workbench_ok s \<Longrightarrow> ?thesis" by (auto simp: closeTab_def)
next
  case False
  assume ok: "workbench_ok s"
  let ?new = "filter (\<lambda>t. tb_id t \<noteq> i) (ws_tabs s)"
  let ?docked = "filter (\<lambda>t. tb_id t \<notin> ww_tabId ` set (ws_detached s)) ?new"
  let ?s = "closeTab i s"
  have open_run: "\<not> (case findTab (ws_tabs s) i of None \<Rightarrow> False | Some t \<Rightarrow> isRunningDataImportTab t)"
    using False by (auto split: option.split)
  have fields: "ws_tabs ?s = ?new" "ws_detached ?s = filter (\<lambda>w. ww_tabId w \<noteq> i) (ws_detached s)"
    "ws_activeTabId ?s = (if ws_activeTabId s = Some i
      then id_or (resolveCloseTabActiveTabId (findTab (ws_tabs s) i) ?docked)
             (resolveCloseTabActiveTabId (findTab (ws_tabs s) i) ?new) else ws_activeTabId s)"
    "ws_recentTargets ?s = ws_recentTargets s" "ws_recentFiles ?s = ws_recentFiles s"
    by (simp_all add: closeTab_def Let_def open_run)
  show ?thesis
  proof (rule ok_closed [OF ok])
    show "subseq (ws_tabs ?s) (ws_tabs s)" "subseq (ws_detached ?s) (ws_detached s)" by (simp_all add: fields)
    show "ww_tabId ` set (ws_detached ?s) \<subseteq> tab_ids (ws_tabs ?s)" using ok by (auto simp: fields workbench_ok_def)
    have "set ?docked \<subseteq> set ?new" "\<forall>t\<in>set ?new. tb_id t \<noteq> []"
      using ok by (auto simp: workbench_ok_def clean_def)
    note active = closed_active [OF this, of "findTab (ws_tabs s) i"]
    have kept: "?new \<noteq> [] \<and> j \<in> tab_ids ?new" if "ws_activeTabId s = Some j" "j \<noteq> i" for j
      using ok that by (auto simp: workbench_ok_def filter_empty_conv)
    show "ws_activeTabId ?s = None \<longleftrightarrow> ws_tabs ?s = []"
      unfolding fields(1,3) using ok active(1) kept
      by (cases "ws_activeTabId s"; cases "ws_activeTabId s = Some i") (simp_all add: workbench_ok_def)
    show "\<forall>j. ws_activeTabId ?s = Some j \<longrightarrow> j \<in> tab_ids (ws_tabs ?s)"
      unfolding fields(1,3) using active(2) kept by (cases "ws_activeTabId s = Some i") auto
  qed (simp_all add: fields)
qed

lemma closing_ok:
  assumes "workbench_ok s" "subseq tabs (ws_tabs s)" "otherwise = None \<longleftrightarrow> tabs = []"
    "\<forall>i. otherwise = Some i \<longrightarrow> i \<in> tab_ids tabs"
  shows "workbench_ok (keepWindowsOf (tab_ids tabs) (activateTab
    (if ws_activeTabId s \<in> Some ` tab_ids tabs \<and> ws_activeTabId s \<noteq> Some [] then ws_activeTabId s else otherwise) c
    ((clearTabs gone s)\<lparr>ws_tabs := tabs\<rparr>)))"
  by (rule ok_closed [OF assms(1)]) (use assms in auto)

lemma side_ok:
  assumes "\<And>index. kept index index" "workbench_ok s"
  shows "workbench_ok (closeSide kept i s)"
proof (cases "indexWhere (\<lambda>t. tb_id t = i) (ws_tabs s)")
  case (Some k)
  let ?new = "filterIndexed (\<lambda>j t. kept k j \<or> isRunningDataImportTab t) (ws_tabs s)"
  have "i \<in> tab_ids ?new" using indexWhere_Some [OF Some] assms(1) by (force simp: set_filterIndexed)
  then show ?thesis
    unfolding closeSide_def Some option.case Let_def by (intro closing_ok [OF assms(2) subseq_filterIndexed]) auto
qed (use assms(2) in \<open>simp add: closeSide_def\<close>)

lemma matching_ok: "workbench_ok s \<Longrightarrow> workbench_ok (closeMatching hit stale s)"
  unfolding closeMatching_def Let_def by (intro closing_ok) (auto simp: lastTabId_spec(1) dest: lastTabId_spec(2))

lemma close_ok:
  assumes "closeStep s s'" "workbench_ok s"
  shows "workbench_ok s'"
  using assms(1)
proof cases
  case (close_one i)
  with assms(2) show ?thesis by (simp add: close_tab_ok)
next
  case (close_others i)
  show ?thesis
  proof (cases "findTab (ws_tabs s) i")
    case (Some t)
    then have "t \<in> set (ws_tabs s) \<and> tb_id t = i" using assms(2) findTab_iff [of "ws_tabs s"] by (simp add: workbench_ok_def)
    then show ?thesis unfolding close_others using Some
      by (intro ok_closed [OF assms(2)]) (auto simp: closeOtherTabs_def Let_def filter_empty_conv)
  qed (use close_others assms(2) in \<open>simp add: closeOtherTabs_def\<close>)
next
  case (close_left i)
  then show ?thesis using assms(2) side_ok [of "\<lambda>index k. index \<le> k"] by (simp add: closeTabsToLeft_def)
next
  case (close_right i)
  then show ?thesis using assms(2) side_ok [of "\<lambda>index k. k \<le> index"] by (simp add: closeTabsToRight_def)
next
  case (close_connection c)
  then show ?thesis using assms(2) by (simp add: closeTabsByConnection_def Let_def matching_ok)
next
  case (close_database c d)
  then show ?thesis using assms(2) by (simp add: closeTabsByDatabase_def Let_def matching_ok)
next
  case close_all
  let ?new = "filter isRunningDataImportTab (ws_tabs s)"
  have "tb_id (hd ?new) \<noteq> [] \<and> tb_id (hd ?new) \<in> tab_ids ?new" if "?new \<noteq> []"
    using hd_in_set [OF that] assms(2) by (auto simp: workbench_ok_def clean_def)
  then show ?thesis unfolding close_all closeAllTabs_def Let_def
    by (intro closing_ok [OF assms(2)]) (auto simp del: set_filter)
qed

section \<open>The other steps\<close>

lemma ok_tabs:
  assumes "workbench_ok s" "distinct (map tb_id (ws_tabs s'))" "\<forall>t\<in>set (ws_tabs s'). clean (tb_id t)"
    and "tab_ids (ws_tabs s) \<subseteq> tab_ids (ws_tabs s')" "map ww_tabId (ws_detached s') = map ww_tabId (ws_detached s)"
    and "ws_activeTabId s' = ws_activeTabId s \<and> (ws_tabs s = [] \<longrightarrow> ws_tabs s' = [])
      \<or> (\<exists>i\<in>tab_ids (ws_tabs s'). ws_activeTabId s' = Some i)"
    and "recent_ok targetKey MAX_RECENT_WORKBENCH_TARGETS (ws_recentTargets s')"
    and "recent_ok fileKey MAX_RECENT_SQL_FILES (ws_recentFiles s')"
  shows "workbench_ok s'"
proof -
  have "ww_tabId ` set (ws_detached s') = ww_tabId ` set (ws_detached s)" using assms(5) by (metis set_map)
  then have "ww_tabId ` set (ws_detached s') \<subseteq> tab_ids (ws_tabs s')" "distinct (map ww_tabId (ws_detached s'))"
    using assms(1,4,5) by (simp_all add: workbench_ok_def subset_trans [OF _ assms(4)])
  moreover have "ws_activeTabId s' = None \<longleftrightarrow> ws_tabs s' = []" using assms(1,4,6) by (auto simp: workbench_ok_def)
  moreover have "\<forall>i. ws_activeTabId s' = Some i \<longrightarrow> i \<in> tab_ids (ws_tabs s')"
    using assms(1,4,6) by (auto simp: workbench_ok_def)
  ultimately show ?thesis using assms(2,3,7,8) by (simp add: workbench_ok_def)
qed

lemma recent_entries_ok:
  "workbench_ok s \<Longrightarrow> recent_ok targetKey MAX_RECENT_WORKBENCH_TARGETS (ws_recentTargets (resolveRecentWorkbenchEntries now t s))"
  "workbench_ok s \<Longrightarrow> recent_ok fileKey MAX_RECENT_SQL_FILES (ws_recentFiles (resolveRecentWorkbenchEntries now t s))"
  by (simp_all add: resolveRecentWorkbenchEntries_def workbench_ok_def prepend_ok)

lemma result_panel_id [simp]: "tb_id (withResultPanel b t) = tb_id t"
  by (simp add: withResultPanel_def)

lemma reused_Some: "reusedTab t tabs = Some k \<Longrightarrow> k < length tabs"
  by (auto simp: reusedTab_def dest!: indexWhere_Some split: option.splits if_splits)

lemma reused_None: "reusedTab t tabs = None \<Longrightarrow> tb_id t \<notin> tab_ids tabs"
  by (auto simp: reusedTab_def indexWhere_None split: option.splits)

lemma add_tab_ok:
  assumes "workbench_ok s" "clean (tb_id t)"
  shows "workbench_ok (addTab now t s)"
proof -
  let ?t = "withResultPanel (ws_showQueryResultsPanel s) t"
  note recent = recent_entries_ok [OF assms(1), of now ?t]
  show ?thesis
  proof (cases "reusedTab ?t (ws_tabs s)")
    case None
    from reused_None [OF this] assms show ?thesis
      by (intro ok_tabs [OF assms(1)])
        (simp_all add: addTab_def Let_def None recent activateTab_def workbench_ok_def resolveRecentWorkbenchEntries_def
          prepend_ok subset_insertI)
  next
    case (Some k)
    let ?new = "(spreadTab (ws_tabs s ! k) ?t)\<lparr>tb_id := tb_id (ws_tabs s ! k)\<rparr>"
    have k: "k < length (ws_tabs s)" using reused_Some [OF Some] .
    then have ids: "map tb_id ((ws_tabs s)[k := ?new]) = map tb_id (ws_tabs s)"
      by (simp add: map_update) (metis list_update_id nth_map)
    then have "tab_ids ((ws_tabs s)[k := ?new]) = tab_ids (ws_tabs s)" by (metis set_map)
    moreover have "\<forall>x\<in>set ((ws_tabs s)[k := ?new]). clean (tb_id x)"
    proof
      fix x assume "x \<in> set ((ws_tabs s)[k := ?new])"
      then have "tb_id x \<in> tab_ids (ws_tabs s)" using \<open>tab_ids _ = _\<close> by blast
      then show "clean (tb_id x)" using assms(1) by (auto simp: workbench_ok_def)
    qed
    moreover have "tb_id (ws_tabs s ! k) \<in> tab_ids (ws_tabs s)" using k by simp
    ultimately show ?thesis
      using assms(1) ids
      by (intro ok_tabs [OF assms(1)])
        (simp_all add: addTab_def Let_def Some workbench_ok_def activateTab_def resolveRecentWorkbenchEntries_def prepend_ok)
  qed
qed

lemma patch_id [simp]: "tb_id (fst (patchTab now draft t)) = tb_id t" "tb_type (fst (patchTab now draft t)) = tb_type t"
proof -
  have field: "tb_id (fst (patchField given f differs w tc)) = tb_id (fst tc)"
    "tb_type (fst (patchField given f differs w tc)) = tb_type (fst tc)"
    for given :: "'a option" and f differs w tc
    by (auto simp: patchField_def setField_def split: option.split)
  have snap: "tb_id (fst (patchSnapshot now given tc)) = tb_id (fst tc)"
    "tb_type (fst (patchSnapshot now given tc)) = tb_type (fst tc)" for given tc
    by (auto simp: patchSnapshot_def Let_def setField_def split: option.split prod.split)
  show "tb_id (fst (patchTab now draft t)) = tb_id t" "tb_type (fst (patchTab now draft t)) = tb_type t"
    by (simp_all add: patchTab_def patchContext_def snap field)
qed

text \<open>The tabs after an edit.\<close>

definition editedTabs :: "int \<Rightarrow> js_string \<Rightarrow> queryDraft \<Rightarrow> tabData list \<Rightarrow> tabData list" where
  "editedTabs now i draft = map (\<lambda>t. if tb_id t = i \<and> isQueryTab t then fst (patchTab now draft t) else t)"

lemma edited_ids [simp]: "map tb_id (editedTabs now i draft tabs) = map tb_id tabs"
  "tab_ids (editedTabs now i draft tabs) = tab_ids tabs" "editedTabs now i draft tabs = [] \<longleftrightarrow> tabs = []"
proof -
  show *: "map tb_id (editedTabs now i draft tabs) = map tb_id tabs" for tabs by (simp add: editedTabs_def)
  then show "tab_ids (editedTabs now i draft tabs) = tab_ids tabs" by (metis set_map)
  show "editedTabs now i draft tabs = [] \<longleftrightarrow> tabs = []" by (simp add: editedTabs_def)
qed

lemma edit_cases:
  "updateQueryTabDraft now i draft s = s \<or>
   (\<exists>t c. updateQueryTabDraft now i draft s = (resolveRecentWorkbenchEntries now t s)
        \<lparr>ws_tabs := editedTabs now (js_trim i) draft (ws_tabs s), ws_activeContext := c\<rparr>)
   \<or> (\<exists>c. updateQueryTabDraft now i draft s
        = s\<lparr>ws_tabs := editedTabs now (js_trim i) draft (ws_tabs s), ws_activeContext := c\<rparr>)"
proof -
  let ?edited = "filter (\<lambda>t. tb_id t = js_trim i \<and> isQueryTab t) (ws_tabs s)"
  let ?rebound = "filter (contextChanged draft) ?edited"
  show ?thesis
  proof (cases "js_trim i = [] \<or> \<not> list_ex (\<lambda>t. snd (patchTab now draft t)) ?edited")
    case True
    then show ?thesis unfolding updateQueryTabDraft_def Let_def by (simp only: if_True simp_thms)
  next
    case False
    obtain c where "updateQueryTabDraft now i draft s = (if ?rebound = [] then s
        else resolveRecentWorkbenchEntries now (fst (patchTab now draft (last ?rebound))) s)
          \<lparr>ws_tabs := editedTabs now (js_trim i) draft (ws_tabs s), ws_activeContext := c\<rparr>"
      unfolding updateQueryTabDraft_def Let_def editedTabs_def [symmetric] by (simp only: False if_False)
    then show ?thesis by (cases "?rebound = []") (simp_all only: if_True if_False simp_thms, blast+)
  qed
qed

lemma edit_ok:
  assumes "workbench_ok s"
  shows "workbench_ok (updateQueryTabDraft now i draft s)"
proof -
  have ids: "\<forall>t\<in>set (editedTabs now j draft (ws_tabs s)). clean (tb_id t)" for j
  proof
    fix t assume "t \<in> set (editedTabs now j draft (ws_tabs s))"
    then have "tb_id t \<in> tab_ids (ws_tabs s)" using edited_ids(2) [of now j draft "ws_tabs s"] by blast
    then show "clean (tb_id t)" using assms by (auto simp: workbench_ok_def)
  qed
  from edit_cases [of now i draft s] show ?thesis
  proof (elim disjE exE)
    fix t c assume "updateQueryTabDraft now i draft s = (resolveRecentWorkbenchEntries now t s)
      \<lparr>ws_tabs := editedTabs now (js_trim i) draft (ws_tabs s), ws_activeContext := c\<rparr>"
    then show ?thesis using assms ids
      by (intro ok_tabs [OF assms]) (simp_all add: workbench_ok_def resolveRecentWorkbenchEntries_def prepend_ok)
  next
    fix c assume "updateQueryTabDraft now i draft s
      = s\<lparr>ws_tabs := editedTabs now (js_trim i) draft (ws_tabs s), ws_activeContext := c\<rparr>"
    then show ?thesis using assms ids by (intro ok_tabs [OF assms]) (simp_all add: workbench_ok_def)
  qed (simp add: assms)
qed

lemma moved_tabs:
  "mset (ws_tabs (moveTab i j s)) = mset (ws_tabs s)"
proof -
  have "mset (take m (take k xs @ drop (k + 1) xs) @ xs ! k # drop m (take k xs @ drop (k + 1) xs)) = mset xs"
    if "k < length xs" for m k and xs :: "tabData list"
  proof -
    have "mset (take m ys) + mset (drop m ys) = mset ys" for ys :: "tabData list" by (metis append_take_drop_id mset_append)
    moreover have "mset xs = mset (take k xs) + (add_mset (xs ! k) (mset (drop (k + 1) xs)))"
      using id_take_nth_drop [OF that] by (metis Suc_eq_plus1 mset.simps(2) mset_append)
    ultimately show ?thesis by (metis add_mset_add_single mset.simps(2) mset_append union_mset_add_mset_right)
  qed
  then show ?thesis by (auto simp: moveTab_def Let_def dest: indexWhere_Some split: option.split)
qed

lemma move_fields [simp]:
  "ws_detached (moveTab i j s) = ws_detached s" "ws_activeTabId (moveTab i j s) = ws_activeTabId s"
  "ws_recentTargets (moveTab i j s) = ws_recentTargets s" "ws_recentFiles (moveTab i j s) = ws_recentFiles s"
  "ws_activeContext (moveTab i j s) = ws_activeContext s"
  by (auto simp: moveTab_def Let_def split: option.split)

lemma move_ok:
  assumes "workbench_ok s"
  shows "workbench_ok (moveTab i j s)"
proof -
  have "distinct (map tb_id (ws_tabs (moveTab i j s)))"
    using mset_eq_imp_distinct_iff [of "map tb_id (ws_tabs (moveTab i j s))" "map tb_id (ws_tabs s)"] assms
    by (simp add: moved_tabs workbench_ok_def)
  moreover have "set (ws_tabs (moveTab i j s)) = set (ws_tabs s)" using moved_tabs by (metis set_mset_mset)
  ultimately show ?thesis using assms by (intro ok_tabs [OF assms]) (auto simp: workbench_ok_def)
qed

text \<open>Steps that change neither tabs nor the windows they have.\<close>

lemma ok_same:
  "workbench_ok s \<Longrightarrow> ws_tabs s' = ws_tabs s \<Longrightarrow> map ww_tabId (ws_detached s') = map ww_tabId (ws_detached s) \<Longrightarrow>
   ws_activeTabId s' = ws_activeTabId s \<or> (\<exists>i\<in>tab_ids (ws_tabs s). ws_activeTabId s' = Some i) \<Longrightarrow>
   ws_recentTargets s' = ws_recentTargets s \<Longrightarrow> ws_recentFiles s' = ws_recentFiles s \<Longrightarrow> workbench_ok s'"
  by (rule ok_tabs) (auto simp: workbench_ok_def)

lemma detach_ok:
  assumes "workbench_ok s"
  shows "workbench_ok (detachWorkbenchTab viewport i preferred s)"
proof -
  let ?i = "js_trim i"
  consider "?i = [] \<or> ?i \<notin> tab_ids (ws_tabs s)" | "?i \<noteq> []" "?i \<in> tab_ids (ws_tabs s)" "?i \<in> ww_tabId ` set (ws_detached s)"
    | "?i \<noteq> []" "?i \<in> tab_ids (ws_tabs s)" "?i \<notin> ww_tabId ` set (ws_detached s)" by blast
  then show ?thesis
  proof cases
    case 1
    then show ?thesis using assms by (simp add: detachWorkbenchTab_def)
  next
    case 2
    then have "detachWorkbenchTab viewport i preferred s = raiseWindow ?i (activateTab (Some ?i) (ws_activeContext s) s)"
      by (simp add: detachWorkbenchTab_def Let_def)
    with 2 show ?thesis by (intro ok_same [OF assms]) simp_all
  next
    case 3
    then have "ws_tabs (detachWorkbenchTab viewport i preferred s) = ws_tabs s"
      "map ww_tabId (ws_detached (detachWorkbenchTab viewport i preferred s)) = map ww_tabId (ws_detached s) @ [?i]"
      "ww_tabId ` set (ws_detached (detachWorkbenchTab viewport i preferred s)) = insert ?i (ww_tabId ` set (ws_detached s))"
      "ws_activeTabId (detachWorkbenchTab viewport i preferred s) = Some ?i"
      "ws_recentTargets (detachWorkbenchTab viewport i preferred s) = ws_recentTargets s"
      "ws_recentFiles (detachWorkbenchTab viewport i preferred s) = ws_recentFiles s"
      by (simp_all add: detachWorkbenchTab_def Let_def)
    then show ?thesis using assms 3 by (auto simp: workbench_ok_def)
  qed
qed

lemma attach_ok:
  assumes "workbench_ok s" "js_trim i \<in> tab_ids (ws_tabs s)"
  shows "workbench_ok (attachWorkbenchTab i s)"
proof (cases "js_trim i = []")
  case True
  with assms show ?thesis by (simp add: attachWorkbenchTab_def)
next
  case False
  have "distinct (map ww_tabId (filter (\<lambda>w. ww_tabId w \<noteq> js_trim i) (ws_detached s)))"
    using assms(1) by (simp add: workbench_ok_def distinct_map_filter)
  with False assms show ?thesis by (auto simp: attachWorkbenchTab_def Let_def workbench_ok_def)
qed

lemma tabStep_ok:
  assumes "tabStep s s'" "workbench_ok s"
  shows "workbench_ok s'"
  using assms(1)
proof cases
  case (step_add t now)
  with assms(2) show ?thesis by (simp add: add_tab_ok)
next
  case (step_edit i draft now)
  with assms(2) show ?thesis by (simp add: edit_ok)
next
  case step_close
  with assms(2) show ?thesis by (simp add: close_ok)
next
  case (step_move i j)
  with assms(2) show ?thesis by (simp add: move_ok)
next
  case (step_activate i)
  then show ?thesis by (intro ok_same [OF assms(2)]) (auto simp: setActiveTab_def Let_def)
next
  case (step_detach viewport i preferred)
  with assms(2) show ?thesis by (simp add: detach_ok)
next
  case (step_attach i)
  with assms(2) show ?thesis by (simp add: attach_ok)
next
  case (step_bounds i given)
  then show ?thesis by (intro ok_same [OF assms(2)]) (simp_all add: updateDetachedWorkbenchBounds_def Let_def)
next
  case (step_focus i)
  have "js_trim i \<in> tab_ids (ws_tabs s)" if "js_trim i \<in> ww_tabId ` set (ws_detached s)"
    using that assms(2) by (auto simp: workbench_ok_def)
  with step_focus show ?thesis by (intro ok_same [OF assms(2)]) (auto simp: focusDetachedWorkbenchTab_def Let_def)
next
  case (step_result viewport r)
  then show ?thesis
    by (intro ok_same [OF assms(2)]) (simp_all add: detachQueryResultWindow_def Let_def split: option.split)
next
  case (step_attach_result i)
  then show ?thesis
    by (intro ok_same [OF assms(2)]) (simp_all add: attachQueryResultWindow_def Let_def split: option.split)
qed (rule ok_same [OF assms(2)]; simp add: closeDetachedQueryResultWindow_def updateDetachedQueryResultBounds_def
    focusDetachedQueryResultWindow_def closeDetachedQueryResultWindowsBySourceTab_def noteQueryTabDraft_def
    saveQueryEditorResultSessionForOpenTab_def Let_def)+

lemma workbenchStep_ok: "workbenchStep s s' \<Longrightarrow> workbench_ok s \<Longrightarrow> workbench_ok s'"
  by (cases rule: workbenchStep.cases) (auto simp: tabStep_ok edit_ok setActiveContext_def intro: ok_same)

lemma workbench_reachable: "workbenchStep\<^sup>*\<^sup>* (initialWorkbench b) s \<Longrightarrow> workbench_ok s"
  by (induction rule: rtranclp_induct) (simp_all add: workbench_ok_initial workbenchStep_ok)

lemma tab_reachable: "tabStep\<^sup>*\<^sup>* (initialWorkbench b) s \<Longrightarrow> workbench_ok s"
  by (induction rule: rtranclp_induct) (simp_all add: workbench_ok_initial tabStep_ok)

section \<open>The context\<close>

text \<open>The context is that of the active tab, when that tab has a connection.\<close>

definition context_ok :: "workbench \<Rightarrow> bool" where
  "context_ok s \<longleftrightarrow> (\<forall>i t. ws_activeTabId s = Some i \<longrightarrow> findTab (ws_tabs s) i = Some t \<longrightarrow>
     trimmedField t FConnectionId \<noteq> [] \<longrightarrow> ws_activeContext s = resolveActiveContextFromTab (Some t))"

lemma context_resolved:
  assumes "workbench_ok s" "\<exists>c. ws_activeContext s = resolveActiveContextForTabId (ws_tabs s) (ws_activeTabId s) c"
  shows "context_ok s"
  unfolding context_ok_def
proof (intro allI impI)
  fix i t assume t: "ws_activeTabId s = Some i" "findTab (ws_tabs s) i = Some t" "trimmedField t FConnectionId \<noteq> []"
  have "clean i" using assms(1) t(1) by (auto simp: workbench_ok_def)
  then have "js_trim i = i" "i \<noteq> []" by (auto simp: clean_def)
  with t assms(2) show "ws_activeContext s = resolveActiveContextFromTab (Some t)"
    by (auto simp: resolveActiveContextForTabId_def Let_def resolveActiveContextFromTab_def)
qed

lemma context_same:
  "context_ok s \<Longrightarrow> ws_tabs s' = ws_tabs s \<Longrightarrow> ws_activeTabId s' = ws_activeTabId s \<Longrightarrow>
   ws_activeContext s' = ws_activeContext s \<Longrightarrow> context_ok s'"
  by (simp add: context_ok_def)

lemma patchField_other: "g \<noteq> f \<Longrightarrow> tb_fields (fst (patchField given f differs w tc)) g = tb_fields (fst tc) g"
  by (auto simp: patchField_def setField_def split: option.split)

lemma patchSnapshot_other:
  "g \<noteq> FFormatRestoreSnapshot \<Longrightarrow> tb_fields (fst (patchSnapshot now given tc)) g = tb_fields (fst tc) g"
  by (auto simp: patchSnapshot_def Let_def setField_def split: option.split prod.split)

lemma patch_connection:
  "dr_connectionId draft = None \<Longrightarrow> tb_fields (fst (patchTab now draft t)) FConnectionId = tb_fields t FConnectionId"
  by (simp add: patchTab_def patchContext_def patchField_other patchSnapshot_other)
    (simp add: patchField_def [of None] patchField_other)

lemma findTab_edited:
  "findTab (editedTabs now i draft tabs) j
    = map_option (\<lambda>t. if tb_id t = i \<and> isQueryTab t then fst (patchTab now draft t) else t) (findTab tabs j)"
  by (induction tabs) (auto simp: findTab_def editedTabs_def)

lemma edit_context:
  "updateQueryTabDraft now i draft s = s \<or>
   ws_tabs (updateQueryTabDraft now i draft s) = editedTabs now (js_trim i) draft (ws_tabs s)
   \<and> ws_activeTabId (updateQueryTabDraft now i draft s) = ws_activeTabId s
   \<and> ws_activeContext (updateQueryTabDraft now i draft s)
      = (if ws_activeTabId s = Some (js_trim i) \<and> findTab (editedTabs now (js_trim i) draft (ws_tabs s)) (js_trim i) \<noteq> None
            \<and> (ws_activeContext s = None \<or> activeContextMatchesTab (ws_activeContext s) (findTab (ws_tabs s) (js_trim i)))
         then resolveActiveContextFromTab (findTab (editedTabs now (js_trim i) draft (ws_tabs s)) (js_trim i))
         else ws_activeContext s)"
  unfolding updateQueryTabDraft_def Let_def editedTabs_def [symmetric] by simp

lemma context_edit:
  assumes "context_ok s" "\<not> givesConnection i draft s"
  shows "context_ok (updateQueryTabDraft now i draft s)"
proof -
  let ?s = "updateQueryTabDraft now i draft s" and ?i = "js_trim i"
  show ?thesis
  proof (cases "?s = s")
    case False
    note e = edit_context [of now i draft s, simplified False simp_thms]
    show ?thesis unfolding context_ok_def
    proof (intro allI impI)
      fix j t' assume t': "ws_activeTabId ?s = Some j" "findTab (ws_tabs ?s) j = Some t'" "trimmedField t' FConnectionId \<noteq> []"
      then obtain t where t: "findTab (ws_tabs s) j = Some t"
        "t' = (if tb_id t = ?i \<and> isQueryTab t then fst (patchTab now draft t) else t)"
        using e by (auto simp: findTab_edited)
      have j: "ws_activeTabId s = Some j" "tb_id t = j" using e t' t(1) by (auto simp: findTab_def dest: find_SomeD)
      show "ws_activeContext ?s = resolveActiveContextFromTab (Some t')"
      proof (cases "j = ?i")
        case True
        have conn: "trimmedField t FConnectionId \<noteq> []"
          using assms(2) t(1) j(1) True t'(3) t(2) patch_connection [of draft now t]
          by (auto simp: givesConnection_def trimmedField_def fieldText_def split: if_splits)
        with assms(1) j(1) t(1) have "ws_activeContext s = resolveActiveContextFromTab (Some t)"
          by (simp add: context_ok_def)
        with conn have "activeContextMatchesTab (ws_activeContext s) (findTab (ws_tabs s) ?i)"
          using t(1) True by (simp add: activeContextMatchesTab_def resolveActiveContextFromTab_def)
        with e t'(2) j(1) True show ?thesis by simp
      next
        case False
        with t j have "t' = t" by auto
        with False e j t(1) t'(3) assms(1) show ?thesis by (simp add: context_ok_def)
      qed
    qed
  qed (use assms(1) in simp)
qed

lemma context_move:
  assumes "workbench_ok s" "context_ok s"
  shows "context_ok (moveTab i j s)"
proof -
  have "distinct (map tb_id (ws_tabs s))" "distinct (map tb_id (ws_tabs (moveTab i j s)))"
    using assms(1) move_ok [OF assms(1)] by (simp_all add: workbench_ok_def)
  moreover have "set (ws_tabs (moveTab i j s)) = set (ws_tabs s)" using moved_tabs by (metis set_mset_mset)
  ultimately have "findTab (ws_tabs (moveTab i j s)) k = Some t \<longleftrightarrow> findTab (ws_tabs s) k = Some t" for k t
    by (simp add: findTab_iff)
  with assms(2) show ?thesis by (simp add: context_ok_def)
qed

lemma context_close:
  assumes "closeStep s s'" "workbench_ok s" "context_ok s"
  shows "context_ok s'"
proof -
  note ok = close_ok [OF assms(1,2)]
  show ?thesis using assms(1)
  proof cases
    case (close_one i)
    have "s' = s \<or> ws_activeContext s' = resolveActiveContextForTabId (ws_tabs s') (ws_activeTabId s') (ws_activeContext s)"
      by (simp add: close_one closeTab_def Let_def)
    with assms(3) context_resolved [OF ok] show ?thesis by blast
  next
    case (close_others i)
    show ?thesis
    proof (cases "findTab (ws_tabs s) i")
      case (Some keep)
      have d: "distinct (map tb_id (ws_tabs s))" "distinct (map tb_id (ws_tabs s'))"
        using assms(2) ok by (simp_all add: workbench_ok_def)
      have "keep \<in> set (ws_tabs s) \<and> tb_id keep = i" using findTab_iff [OF d(1)] Some by blast
      then have "keep \<in> set (ws_tabs s') \<and> tb_id keep = i"
        using Some by (simp add: close_others closeOtherTabs_def Let_def)
      then have "findTab (ws_tabs s') i = Some keep" using findTab_iff [OF d(2)] by blast
      then show ?thesis using Some by (simp add: context_ok_def close_others closeOtherTabs_def Let_def)
    qed (use assms(3) in \<open>simp add: close_others closeOtherTabs_def\<close>)
  next
    case (close_left i)
    have "s' = s \<or> ws_activeContext s' = resolveActiveContextForTabId (ws_tabs s') (ws_activeTabId s') (ws_activeContext s)"
      by (simp add: close_left closeTabsToLeft_def closeSide_def Let_def split: option.split)
    with assms(3) context_resolved [OF ok] show ?thesis by blast
  next
    case (close_right i)
    have "s' = s \<or> ws_activeContext s' = resolveActiveContextForTabId (ws_tabs s') (ws_activeTabId s') (ws_activeContext s)"
      by (simp add: close_right closeTabsToRight_def closeSide_def Let_def split: option.split)
    with assms(3) context_resolved [OF ok] show ?thesis by blast
  next
    case (close_connection c)
    have "s' = s \<or> (\<exists>f. ws_activeContext s' = resolveActiveContextForTabId (ws_tabs s') (ws_activeTabId s') f)"
      by (auto simp: close_connection closeTabsByConnection_def closeMatching_def Let_def)
    with assms(3) context_resolved [OF ok] show ?thesis by blast
  next
    case (close_database c d)
    have "s' = s \<or> (\<exists>f. ws_activeContext s' = resolveActiveContextForTabId (ws_tabs s') (ws_activeTabId s') f)"
      by (auto simp: close_database closeTabsByDatabase_def closeMatching_def Let_def)
    with assms(3) context_resolved [OF ok] show ?thesis by blast
  next
    case close_all
    show ?thesis
      by (rule context_resolved [OF ok]) (auto simp: close_all closeAllTabs_def Let_def)
  qed
qed

lemma tabStep_context:
  assumes "tabStep s s'" "workbench_ok s" "context_ok s"
  shows "context_ok s'"
proof -
  note ok = tabStep_ok [OF assms(1,2)]
  show ?thesis using assms(1)
  proof cases
    case (step_add t now)
    show ?thesis by (rule context_resolved [OF ok]) (auto simp: step_add addTab_def Let_def)
  next
    case (step_edit i draft now)
    with assms(3) show ?thesis by (simp add: context_edit)
  next
    case step_close
    with assms(2,3) show ?thesis by (simp add: context_close)
  next
    case (step_move i j)
    with assms(2,3) show ?thesis by (simp add: context_move)
  next
    case (step_activate i)
    show ?thesis by (rule context_resolved [OF ok]) (auto simp: step_activate setActiveTab_def Let_def)
  next
    case (step_detach viewport i preferred)
    have "s' = s \<or> (\<exists>f. ws_activeContext s' = resolveActiveContextForTabId (ws_tabs s') (ws_activeTabId s') f)"
      by (auto simp: step_detach detachWorkbenchTab_def Let_def)
    with assms(3) context_resolved [OF ok] show ?thesis by blast
  next
    case (step_attach i)
    have "s' = s \<or> (\<exists>f. ws_activeContext s' = resolveActiveContextForTabId (ws_tabs s') (ws_activeTabId s') f)"
      by (auto simp: step_attach attachWorkbenchTab_def Let_def)
    with assms(3) context_resolved [OF ok] show ?thesis by blast
  next
    case (step_focus i)
    have "s' = s \<or> (\<exists>f. ws_activeContext s' = resolveActiveContextForTabId (ws_tabs s') (ws_activeTabId s') f)"
      by (auto simp: step_focus focusDetachedWorkbenchTab_def Let_def)
    with assms(3) context_resolved [OF ok] show ?thesis by blast
  qed (rule context_same [OF assms(3)]; simp add: updateDetachedWorkbenchBounds_def detachQueryResultWindow_def
      attachQueryResultWindow_def closeDetachedQueryResultWindow_def updateDetachedQueryResultBounds_def
      focusDetachedQueryResultWindow_def closeDetachedQueryResultWindowsBySourceTab_def noteQueryTabDraft_def
      saveQueryEditorResultSessionForOpenTab_def Let_def split: option.split)+
qed

lemma context_reachable: "tabStep\<^sup>*\<^sup>* (initialWorkbench b) s \<Longrightarrow> context_ok s"
proof (induction rule: rtranclp_induct)
  case base
  show ?case by (simp add: context_ok_def initialWorkbench_def)
next
  case (step s s')
  then show ?case using tabStep_context tab_reachable by blast
qed

end
