(* ===== verification/WorkbenchClosingProps.thy ===== *)
theory WorkbenchClosingProps
  imports WorkbenchTabsProps
begin

text \<open>
  What is proved of the workbench for all states it can reach: it stays consistent, a running import is
  never closed, closing leaves nothing of a tab behind and touches nothing of the others, and the context
  is that of the active tab.
\<close>

section \<open>What closing leaves\<close>

text \<open>
  Of a closed tab there is no window, and of a closed query no draft and no session; of a tab that stays
  everything stays.
\<close>

definition cleaned :: "workbench \<Rightarrow> workbench \<Rightarrow> bool" where
  "cleaned s s' \<longleftrightarrow> (\<forall>t\<in>set (ws_tabs s).
     if t \<in> set (ws_tabs s') then
       filter (\<lambda>w. ww_tabId w = tb_id t) (ws_detached s') = filter (\<lambda>w. ww_tabId w = tb_id t) (ws_detached s)
       \<and> filter (\<lambda>w. rw_sourceQueryTabId w = tb_id t) (ws_results s') = filter (\<lambda>w. rw_sourceQueryTabId w = tb_id t) (ws_results s)
       \<and> (tb_id t \<in> set (ws_drafts s') \<longleftrightarrow> tb_id t \<in> set (ws_drafts s))
       \<and> (tb_id t \<in> set (ws_sessions s') \<longleftrightarrow> tb_id t \<in> set (ws_sessions s))
     else
       tb_id t \<notin> ww_tabId ` set (ws_detached s') \<and> tb_id t \<notin> rw_sourceQueryTabId ` set (ws_results s')
       \<and> (isQueryTab t \<longrightarrow> tb_id t \<notin> set (ws_drafts s') \<and> tb_id t \<notin> set (ws_sessions s')))"

lemma cleaned_refl: "cleaned s s"
  by (simp add: cleaned_def)

lemma set_clear: "\<forall>g\<in>set gone. clean g \<Longrightarrow> set (fold clearId gone ids) = set ids - set gone"
  by (induction gone arbitrary: ids) (auto simp: clearId_def Let_def clean_def)

lemma query_not_import: "isQueryTab t \<Longrightarrow> \<not> isRunningDataImportTab t"
  by (simp add: isRunningDataImportTab_def)

lemma same_id:
  "distinct (map tb_id tabs) \<Longrightarrow> t \<in> set tabs \<Longrightarrow> u \<in> set tabs \<Longrightarrow> tb_id t = tb_id u \<Longrightarrow> t = u"
  by (auto simp: distinct_map dest: inj_onD)

lemma cleanedI:
  assumes "workbench_ok s" "set tabs \<subseteq> set (ws_tabs s)" "ws_tabs s' = tabs"
    and "set gone = tb_id ` {t \<in> set (ws_tabs s). isQueryTab t \<and> t \<notin> set tabs}"
    and "ws_drafts s' = fold clearId gone (ws_drafts s)" "ws_sessions s' = fold clearId gone (ws_sessions s)"
    and "ws_detached s' = filter (\<lambda>w. keep (ww_tabId w)) (ws_detached s)"
    and "ws_results s' = filter (\<lambda>w. keep (rw_sourceQueryTabId w)) (ws_results s)"
    and "\<forall>t\<in>set (ws_tabs s). keep (tb_id t) \<longleftrightarrow> t \<in> set tabs"
  shows "cleaned s s'"
  unfolding cleaned_def
proof
  fix t assume t: "t \<in> set (ws_tabs s)"
  have d: "distinct (map tb_id (ws_tabs s))" and c: "\<forall>t\<in>set (ws_tabs s). clean (tb_id t)"
    using assms(1) by (simp_all add: workbench_ok_def)
  have gone: "tb_id t \<in> set gone \<longleftrightarrow> isQueryTab t \<and> t \<notin> set tabs"
    using same_id [OF d] t by (auto simp: assms(4))
  have "\<forall>g\<in>set gone. clean g" using c by (auto simp: assms(4))
  note ids = set_clear [OF this]
  have keep: "keep (tb_id t) \<longleftrightarrow> t \<in> set tabs" using assms(9) t by blast
  have "filter (\<lambda>w. ww_tabId w = tb_id t) (ws_detached s')
      = (if t \<in> set tabs then filter (\<lambda>w. ww_tabId w = tb_id t) (ws_detached s) else [])"
    "filter (\<lambda>w. rw_sourceQueryTabId w = tb_id t) (ws_results s')
      = (if t \<in> set tabs then filter (\<lambda>w. rw_sourceQueryTabId w = tb_id t) (ws_results s) else [])"
    using keep by (auto simp: assms(7,8) filter_empty_conv intro: filter_cong)
  then show "if t \<in> set (ws_tabs s') then
       filter (\<lambda>w. ww_tabId w = tb_id t) (ws_detached s') = filter (\<lambda>w. ww_tabId w = tb_id t) (ws_detached s)
       \<and> filter (\<lambda>w. rw_sourceQueryTabId w = tb_id t) (ws_results s') = filter (\<lambda>w. rw_sourceQueryTabId w = tb_id t) (ws_results s)
       \<and> (tb_id t \<in> set (ws_drafts s') \<longleftrightarrow> tb_id t \<in> set (ws_drafts s))
       \<and> (tb_id t \<in> set (ws_sessions s') \<longleftrightarrow> tb_id t \<in> set (ws_sessions s))
     else
       tb_id t \<notin> ww_tabId ` set (ws_detached s') \<and> tb_id t \<notin> rw_sourceQueryTabId ` set (ws_results s')
       \<and> (isQueryTab t \<longrightarrow> tb_id t \<notin> set (ws_drafts s') \<and> tb_id t \<notin> set (ws_sessions s'))"
    using gone ids by (auto simp: assms(3,5,6) filter_empty_conv)
qed

lemma cleaned_closing:
  assumes "workbench_ok s" "set tabs \<subseteq> set (ws_tabs s)"
    and "set gone = tb_id ` {t \<in> set (ws_tabs s). isQueryTab t \<and> t \<notin> set tabs}"
    and "s' = keepWindowsOf (tab_ids tabs) base" "ws_tabs base = tabs" "ws_detached base = ws_detached s"
      "ws_results base = ws_results s" "ws_drafts base = fold clearId gone (ws_drafts s)"
      "ws_sessions base = fold clearId gone (ws_sessions s)"
  shows "cleaned s s'"
proof (rule cleanedI [OF assms(1,2) _ assms(3), where keep = "\<lambda>i. i \<in> tab_ids tabs"])
  have "distinct (map tb_id (ws_tabs s))" using assms(1) by (simp add: workbench_ok_def)
  then show "\<forall>t\<in>set (ws_tabs s). tb_id t \<in> tab_ids tabs \<longleftrightarrow> t \<in> set tabs"
    using same_id assms(2) by (metis image_iff subsetD)
qed (simp_all add: assms)

lemma cleaned_tab:
  assumes "workbench_ok s"
  shows "cleaned s (closeTab i s)"
proof (cases "\<exists>t. findTab (ws_tabs s) i = Some t \<and> isRunningDataImportTab t")
  case True
  then have "closeTab i s = s" by (auto simp: closeTab_def)
  then show ?thesis by (simp add: cleaned_refl)
next
  case False
  then have run: "\<not> (case findTab (ws_tabs s) i of None \<Rightarrow> False | Some t \<Rightarrow> isRunningDataImportTab t)"
    by (auto split: option.split)
  have d: "distinct (map tb_id (ws_tabs s))" using assms by (simp add: workbench_ok_def)
  let ?query = "case findTab (ws_tabs s) i of None \<Rightarrow> False | Some t \<Rightarrow> isQueryTab t"
  have "?query \<longleftrightarrow> (\<exists>t\<in>set (ws_tabs s). tb_id t = i \<and> isQueryTab t)"
  proof (cases "findTab (ws_tabs s) i")
    case None
    then show ?thesis using findTab_None [of "ws_tabs s" i] by auto
  next
    case (Some u)
    then have "u \<in> set (ws_tabs s) \<and> tb_id u = i" using findTab_iff [OF d] by blast
    with Some show ?thesis using same_id [OF d, of _ u] by (simp del: js_Cons) metis
  qed
  then have "set (if ?query then [i] else [])
      = tb_id ` {t \<in> set (ws_tabs s). isQueryTab t \<and> t \<notin> set (filter (\<lambda>t. tb_id t \<noteq> i) (ws_tabs s))}"
    by auto
  then show ?thesis
    by (rule cleanedI [OF assms _ _ , where keep = "\<lambda>j. j \<noteq> i", rotated 2])
      (auto simp: closeTab_def Let_def run clearTabs_def)
qed

lemma filterIndexed_at:
  "distinct xs \<Longrightarrow> k < length xs \<Longrightarrow> xs ! k \<in> set (filterIndexed P xs) \<longleftrightarrow> P k (xs ! k)"
  by (auto simp: set_filterIndexed nth_eq_iff_index_eq)

lemma filterIndexed_sub: "x \<in> set (filterIndexed P xs) \<Longrightarrow> x \<in> set xs"
  by (auto simp: set_filterIndexed)

lemma filterIndexed_split:
  assumes "distinct xs" "x \<in> set xs" "\<not> R x"
  shows "x \<in> set (filterIndexed (\<lambda>k t. \<not> kept k) xs) \<longleftrightarrow> x \<notin> set (filterIndexed (\<lambda>k t. kept k \<or> R t) xs)"
  using assms filterIndexed_at [OF assms(1)] by (auto simp: in_set_conv_nth [of x xs])

lemma cleaned_side:
  assumes "workbench_ok s"
  shows "cleaned s (closeSide kept i s)"
proof (cases "indexWhere (\<lambda>t. tb_id t = i) (ws_tabs s)")
  case (Some k)
  let ?new = "filterIndexed (\<lambda>j t. kept k j \<or> isRunningDataImportTab t) (ws_tabs s)"
  let ?gone = "filter isQueryTab (filterIndexed (\<lambda>j t. \<not> kept k j) (ws_tabs s))"
  have "distinct (ws_tabs s)" using assms by (simp add: workbench_ok_def distinct_map)
  then have "set ?gone = {t \<in> set (ws_tabs s). isQueryTab t \<and> t \<notin> set ?new}"
    using query_not_import filterIndexed_split [of "ws_tabs s" _ isRunningDataImportTab "kept k"]
      filterIndexed_sub [of _ _ "ws_tabs s"]
    by (auto simp del: js_Cons)
  then have "set (map tb_id ?gone) = tb_id ` {t \<in> set (ws_tabs s). isQueryTab t \<and> t \<notin> set ?new}" by simp
  then show ?thesis
    unfolding closeSide_def Some option.case Let_def
    by (rule cleaned_closing [OF assms _ _ refl, rotated]) (auto simp: clearTabs_def set_filterIndexed)
qed (simp add: closeSide_def cleaned_refl)

lemma cleaned_matching:
  assumes "workbench_ok s"
  shows "cleaned s (closeMatching hit stale s)"
  unfolding closeMatching_def Let_def
  by (rule cleaned_closing [OF assms _ _ refl]) (auto simp: clearTabs_def query_not_import)

lemma close_cleans:
  assumes "closeStep s s'" "workbench_ok s"
  shows "cleaned s s'"
  using assms(1)
proof cases
  case (close_others i)
  show ?thesis
  proof (cases "findTab (ws_tabs s) i")
    case (Some keep)
    show ?thesis unfolding close_others closeOtherTabs_def Some option.case Let_def
      by (rule cleaned_closing [OF assms(2) _ _ refl]) (auto simp: clearTabs_def query_not_import)
  qed (simp add: close_others closeOtherTabs_def cleaned_refl)
next
  case close_all
  show ?thesis unfolding close_all closeAllTabs_def Let_def
    by (rule cleaned_closing [OF assms(2) _ _ refl]) (auto simp: clearTabs_def query_not_import)
qed (simp_all add: cleaned_tab cleaned_side cleaned_matching cleaned_refl assms(2) closeTabsToLeft_def
    closeTabsToRight_def closeTabsByConnection_def closeTabsByDatabase_def Let_def)

section \<open>A small workbench\<close>

definition openTab :: "string \<Rightarrow> string \<Rightarrow> string \<Rightarrow> bool \<Rightarrow> tabData" where
  "openTab i kind connection running = \<lparr>tb_id = js i, tb_type = js kind,
     tb_fields = (\<lambda>_. None)(FConnectionId := Some (Text (js connection)), FDataImportRunning := Some (Flag running))\<rparr>"

text \<open>A query with a draft, in a window of its own, and a running import, which is active.\<close>

definition smallBench :: workbench where
  "smallBench = addTab 2 (openTab ''imp'' ''data-import'' ''c'' True)
     (noteQueryTabDraft (js ''q'')
       (detachWorkbenchTab None (js ''q'') \<lparr>pb_x = None, pb_y = None, pb_width = None, pb_height = None\<rparr>
         (addTab 1 (openTab ''q'' ''query'' ''d'' False) (initialWorkbench True))))"

lemma then_step: "tabStep\<^sup>*\<^sup>* s0 s \<Longrightarrow> tabStep s s' \<Longrightarrow> tabStep\<^sup>*\<^sup>* s0 s'"
  by (rule rtranclp.rtrancl_into_rtrancl)

lemma smallBench_steps: "tabStep\<^sup>*\<^sup>* (initialWorkbench True) smallBench"
proof -
  have "clean (js ''q'')" "clean (js ''imp'')" by code_simp+
  then have c: "clean (tb_id (openTab ''q'' ''query'' ''d'' False))" "clean (tb_id (openTab ''imp'' ''data-import'' ''c'' True))"
    by (simp_all add: openTab_def del: js_Cons)
  show ?thesis unfolding smallBench_def
    by (intro then_step [OF _ step_add] then_step [OF _ step_draft] then_step [OF _ step_detach] c rtranclp.rtrancl_refl)
qed

lemma steps_of_tabs: "tabStep\<^sup>*\<^sup>* s s' \<Longrightarrow> workbenchStep\<^sup>*\<^sup>* s s'"
  by (erule rtranclp_mono [THEN predicate2D, rotated]) (auto intro: step_tab)

lemmas smallBench_reachable = smallBench_steps [THEN steps_of_tabs]

lemma smallBench_facts:
  "map tb_id (ws_tabs smallBench) = [js ''q'', js ''imp'']" "map isRunningDataImportTab (ws_tabs smallBench) = [False, True]"
  "map tb_type (ws_tabs smallBench) = [js ''query'', js ''data-import'']"
  "ws_drafts smallBench = [js ''q'']" "map ww_tabId (ws_detached smallBench) = [js ''q'']"
  "ws_activeTabId smallBench = Some (js ''imp'')"
  "map (\<lambda>t. trimmedField t FConnectionId) (ws_tabs smallBench) = [js ''d'', js ''c'']"
  by code_simp+

lemma smallBench_tabs: "\<exists>q i. ws_tabs smallBench = [q, i] \<and> tb_id q = js ''q'' \<and> isQueryTab q
    \<and> tb_id i = js ''imp'' \<and> isRunningDataImportTab i \<and> trimmedField i FConnectionId = js ''c''"
proof -
  obtain q i where "ws_tabs smallBench = [q, i]" using smallBench_facts(1) by (cases "ws_tabs smallBench"; cases "tl (ws_tabs smallBench)") auto
  with smallBench_facts(1-3,7) show ?thesis by simp
qed

section \<open>Properties\<close>





text \<open>
  Closing is thorough and touches nothing else: of a closed tab no floating window and no floating
  result is left, of a closed query neither its draft nor its result session; a tab that stays keeps its
  windows, its draft and its session.
\<close>

lemma closing_leaves_nothing_behind:
  assumes "workbenchStep\<^sup>*\<^sup>* (initialWorkbench b) s" "closeStep s s'"
  shows "cleaned s s'"
  using close_cleans [OF assms(2)] workbench_reachable [OF assms(1)] by simp

lemma closing_leaves_nothing_behind_witness:
  "js ''q'' \<in> set (ws_drafts smallBench) \<and> js ''q'' \<notin> set (ws_drafts (closeTab (js ''q'') smallBench))"
proof -
  obtain q i where "ws_tabs smallBench = [q, i]" "tb_id q = js ''q''" "isQueryTab q" using smallBench_tabs by blast
  then have q: "q \<in> set (ws_tabs smallBench)" "tb_id q = js ''q''" "isQueryTab q" by simp_all
  have "map tb_id (ws_tabs (closeTab (js ''q'') smallBench)) = [js ''imp'']" by code_simp
  then have "tab_ids (ws_tabs (closeTab (js ''q'') smallBench)) = {js ''imp''}" by (metis list.set set_map)
  then have "js ''q'' \<notin> tab_ids (ws_tabs (closeTab (js ''q'') smallBench))" by simp
  then have "q \<notin> set (ws_tabs (closeTab (js ''q'') smallBench))"
    using imageI [of q _ tb_id] unfolding q(2) by blast
  then have "js ''q'' \<notin> set (ws_drafts (closeTab (js ''q'') smallBench))"
    using closing_leaves_nothing_behind [OF smallBench_reachable close_one, of "js ''q''"] q
    unfolding cleaned_def by metis
  then show ?thesis using smallBench_facts(4) by simp
qed

text \<open>
  The context follows the active tab: as long as nothing sets the context by hand and no edit gives
  the active tab its first connection, the context is the connection, database, schema and object of
  the active tab whenever that tab has a connection.
\<close>

lemma context_follows_the_active_tab:
  assumes "tabStep\<^sup>*\<^sup>* (initialWorkbench b) s" "ws_activeTabId s = Some i" "findTab (ws_tabs s) i = Some t"
    and "trimmedField t FConnectionId \<noteq> []"
  shows "ws_activeContext s = resolveActiveContextFromTab (Some t)"
  using context_reachable [OF assms(1)] assms(2-4) by (simp add: context_ok_def)

lemma context_follows_the_active_tab_witness:
  "\<exists>c. ws_activeContext smallBench = Some c \<and> ac_connectionId c = js ''c''"
proof -
  obtain i where i: "findTab (ws_tabs smallBench) (js ''imp'') = Some i" "trimmedField i FConnectionId = js ''c''"
    using smallBench_tabs by (auto simp: findTab_def)
  from context_follows_the_active_tab [OF smallBench_steps smallBench_facts(6) i(1)] i(2) show ?thesis
    by (simp add: resolveActiveContextFromTab_def)
qed

text \<open>
  The exception is real: an edit of the active tab that has no connection leaves a context that is
  already there as it is, so the tab that gets its first connection this way works on one connection
  while the context names another.
\<close>

lemma first_connection_keeps_the_old_context:
  assumes "ws_activeTabId s = Some (js_trim i)" "findTab (ws_tabs s) (js_trim i) = Some t"
    and "trimmedField t FConnectionId = []" "ws_activeContext s = Some c"
  shows "ws_activeContext (updateQueryTabDraft now i draft s) = Some c"
  using edit_context [of now i draft s] assms
  by (auto simp: activeContextMatchesTab_def resolveActiveContextFromTab_def)

definition boundDraft :: "string \<Rightarrow> queryDraft" where
  "boundDraft connection = \<lparr>dr_query = None, dr_connectionId = Some (js connection), dr_dbName = None, dr_schemaName = None,
     dr_title = None, dr_resultPanelVisible = None, dr_formatRestoreSnapshot = None\<rparr>"

lemma first_connection_keeps_the_old_context_witness:
  "let s = addTab 3 (openTab ''n'' ''query'' [] False) smallBench;
       s' = updateQueryTabDraft 4 (js ''n'') (boundDraft ''e'') s in
   map_option (\<lambda>t. trimmedField t FConnectionId) (findTab (ws_tabs s') (js ''n'')) = Some (js ''e'')
   \<and> map_option ac_connectionId (ws_activeContext s') = Some (js ''c'')"
proof -
  let ?s = "addTab 3 (openTab ''n'' ''query'' [] False) smallBench"
  have n: "ws_activeTabId ?s = Some (js_trim (js ''n''))"
    "map_option (\<lambda>t. trimmedField t FConnectionId) (findTab (ws_tabs ?s) (js_trim (js ''n''))) = Some []"
    "map_option ac_connectionId (ws_activeContext ?s) = Some (js ''c'')"
    "map_option (\<lambda>t. trimmedField t FConnectionId) (findTab (ws_tabs (updateQueryTabDraft 4 (js ''n'') (boundDraft ''e'') ?s)) (js ''n''))
      = Some (js ''e'')"
    by code_simp+
  then obtain t c where "findTab (ws_tabs ?s) (js_trim (js ''n'')) = Some t" "trimmedField t FConnectionId = []"
    "ws_activeContext ?s = Some c" by auto
  from first_connection_keeps_the_old_context [OF n(1) this, of 4 "boundDraft ''e''"] this(3) n(3,4) show ?thesis
    by (simp add: Let_def)
qed

end
