(* ===== verification/QueryDrafts.thy ===== *)
theory QueryDrafts
  imports JsMap JsSort JsText Complex_Main
begin

text \<open>
  The texts of unsaved queries (\<open>src/frontend/src/utils/sqlFileTabDrafts.ts\<close>): a map from tab ids to the
  text in the editor, and a second map with what is needed to bring a tab back after a crash. Changes of
  the second map are written to the storage of the browser after a pause, in an idle moment where the
  browser offers one, and at once when the page is left.

  The state holds the variables of the module and the text in the storage. JSON is a parameter, as are the
  clock, the functions the browser offers, and whether the storage accepts a write (it may be full). A field
  of an entry that is not there is the empty text.
\<close>

section \<open>Entries\<close>

record persistedDraft =
  pd_tabId :: js_string
  pd_title :: js_string
  pd_query :: js_string
  pd_connectionId :: js_string
  pd_dbName :: js_string
  pd_filePath :: js_string
  pd_savedQueryId :: js_string
  pd_readOnly :: bool
  pd_updatedAt :: int

text \<open>
  An entry of the storage. Its texts are read as \<open>String(v ?? '')\<close> only: these are the texts that come
  out. The time is \<open>None\<close> when it is no finite number.
\<close>

record rawDraft =
  rd_tabId :: js_string
  rd_title :: js_string
  rd_query :: js_string
  rd_connectionId :: js_string
  rd_dbName :: js_string
  rd_filePath :: js_string
  rd_savedQueryId :: js_string
  rd_readOnly :: bool
  rd_updatedAt :: "rat option"

definition QUERY_TAB_DRAFT_SNAPSHOT_MAX_COUNT :: nat where
  "QUERY_TAB_DRAFT_SNAPSHOT_MAX_COUNT = 30"

definition QUERY_TAB_DRAFT_SNAPSHOT_MAX_TEXT_LENGTH :: nat where
  "QUERY_TAB_DRAFT_SNAPSHOT_MAX_TEXT_LENGTH = 1024 * 1024"

text \<open>The title of an entry without one.\<close>

definition untitledDraft :: js_string where
  "untitledDraft = js ''SQL Query''"

text \<open>Whether there is anything to keep: a text, a file or a saved query.\<close>

definition keepsContent :: "js_string \<Rightarrow> js_string \<Rightarrow> js_string \<Rightarrow> bool" where
  "keepsContent query filePath savedQueryId \<longleftrightarrow> js_trim query \<noteq> [] \<or> filePath \<noteq> [] \<or> savedQueryId \<noteq> []"

text \<open>\<open>None\<close> is an entry that is no object.\<close>

definition normalizePersistedDraftEntry :: "int \<Rightarrow> rawDraft option \<Rightarrow> persistedDraft option" where
  "normalizePersistedDraftEntry now v =
     (case v of None \<Rightarrow> None
      | Some raw \<Rightarrow>
          (let tabId = js_trim (rd_tabId raw);
               query = take QUERY_TAB_DRAFT_SNAPSHOT_MAX_TEXT_LENGTH (rd_query raw);
               filePath = js_trim (rd_filePath raw); savedQueryId = js_trim (rd_savedQueryId raw) in
           if tabId = [] \<or> \<not> keepsContent query filePath savedQueryId then None
           else Some \<lparr>pd_tabId = tabId, pd_title = js_or (js_trim (rd_title raw)) untitledDraft,
                  pd_query = query, pd_connectionId = js_trim (rd_connectionId raw),
                  pd_dbName = js_trim (rd_dbName raw), pd_filePath = filePath, pd_savedQueryId = savedQueryId,
                  pd_readOnly = rd_readOnly raw,
                  pd_updatedAt = (case rd_updatedAt raw of None \<Rightarrow> now | Some t \<Rightarrow> if 0 < t then \<lfloor>t\<rfloor> else now)\<rparr>))"

definition newestFirst :: "persistedDraft list \<Rightarrow> persistedDraft list" where
  "newestFirst = js_sort (\<lambda>a b. pd_updatedAt b - pd_updatedAt a)"

section \<open>State and environment\<close>

record 's draftEnv =
  de_storage :: bool
  de_window :: bool
  de_requestIdle :: bool
  de_cancelIdle :: bool
  de_parse :: "'s \<Rightarrow> rawDraft option list option"
  de_stringify :: "persistedDraft list \<Rightarrow> 's"

text \<open>
  \<open>qd_timer\<close>, \<open>qd_idle\<close> and \<open>qd_fallback\<close> tell whether \<open>persistTimer\<close>, \<open>persistIdleCallback\<close> and
  \<open>persistFallbackTimer\<close> are set; \<open>qd_notified\<close> lists the calls of the listeners, newest first.
\<close>

record 's draftStore =
  qd_drafts :: "(js_string, js_string) js_map"
  qd_persisted :: "(js_string, persistedDraft) js_map"
  qd_hydrated :: bool
  qd_timer :: bool
  qd_idle :: bool
  qd_fallback :: bool
  qd_revision :: nat
  qd_flushed :: nat
  qd_bound :: bool
  qd_stored :: "'s option"
  qd_notified :: "js_string list"

text \<open>A page that has just been loaded, with what the storage holds.\<close>

definition loadedPage :: "'s option \<Rightarrow> 's draftStore" where
  "loadedPage stored = \<lparr>qd_drafts = [], qd_persisted = [], qd_hydrated = False, qd_timer = False, qd_idle = False,
     qd_fallback = False, qd_revision = 0, qd_flushed = 0, qd_bound = False, qd_stored = stored, qd_notified = []\<rparr>"

section \<open>Reading the storage\<close>

definition readEntries :: "int \<Rightarrow> rawDraft option list \<Rightarrow> persistedDraft list" where
  "readEntries now entries =
     take QUERY_TAB_DRAFT_SNAPSHOT_MAX_COUNT
       (newestFirst (List.map_filter (normalizePersistedDraftEntry now) entries))"

definition addEntry :: "persistedDraft \<Rightarrow> 's draftStore \<Rightarrow> 's draftStore" where
  "addEntry e s = s\<lparr>qd_persisted := jm_set (qd_persisted s) (pd_tabId e) e,
                    qd_drafts := jm_set (qd_drafts s) (pd_tabId e) (pd_query e)\<rparr>"

definition ensurePersistedDraftsHydrated :: "'s draftEnv \<Rightarrow> int \<Rightarrow> 's draftStore \<Rightarrow> 's draftStore" where
  "ensurePersistedDraftsHydrated env now s =
     (if qd_hydrated s then s
      else
        (let s1 = s\<lparr>qd_hydrated := True\<rparr> in
         if \<not> de_storage env then s1
         else (case (case qd_stored s of None \<Rightarrow> None | Some raw \<Rightarrow> de_parse env raw) of
                 None \<Rightarrow> s1 | Some entries \<Rightarrow> fold addEntry (readEntries now entries) s1)))"

section \<open>Writing to the storage\<close>

definition cancelScheduledPersistedDraftFlush :: "'s draftEnv \<Rightarrow> 's draftStore \<Rightarrow> 's draftStore" where
  "cancelScheduledPersistedDraftFlush env s =
     (if de_window env
      then s\<lparr>qd_timer := False, qd_fallback := False, qd_idle := qd_idle s \<and> \<not> de_cancelIdle env\<rparr>
      else s)"

definition draftPayload :: "'s draftStore \<Rightarrow> persistedDraft list" where
  "draftPayload s = take QUERY_TAB_DRAFT_SNAPSHOT_MAX_COUNT (newestFirst (map snd (qd_persisted s)))"

text \<open>\<open>accepted\<close>: the storage accepts the write; otherwise it throws.\<close>

definition flushPersistedDrafts :: "'s draftEnv \<Rightarrow> bool \<Rightarrow> 's draftStore \<Rightarrow> 's draftStore" where
  "flushPersistedDrafts env accepted s =
     (let s1 = cancelScheduledPersistedDraftFlush env s in
      if qd_flushed s1 = qd_revision s1 then s1
      else if \<not> de_storage env then s1\<lparr>qd_flushed := qd_revision s1\<rparr>
      else if \<not> accepted then s1
      else if qd_persisted s1 = [] then s1\<lparr>qd_stored := None, qd_flushed := qd_revision s1\<rparr>
      else s1\<lparr>qd_stored := Some (de_stringify env (draftPayload s1)), qd_flushed := qd_revision s1\<rparr>)"

definition schedulePersistedDraftFlush :: "'s draftEnv \<Rightarrow> bool \<Rightarrow> 's draftStore \<Rightarrow> 's draftStore" where
  "schedulePersistedDraftFlush env accepted s =
     (let s1 = s\<lparr>qd_bound := de_window env, qd_revision := qd_revision s + 1\<rparr> in
      if \<not> de_window env then flushPersistedDrafts env accepted s1
      else s1\<lparr>qd_timer := True, qd_fallback := False, qd_idle := qd_idle s1 \<and> \<not> de_cancelIdle env\<rparr>)"

text \<open>The callbacks: of the timer, of the idle moment, of the timer that stands for it.\<close>

definition persistTimerFires :: "'s draftEnv \<Rightarrow> 's draftStore \<Rightarrow> 's draftStore" where
  "persistTimerFires env s =
     (if \<not> qd_timer s then s
      else if de_requestIdle env then s\<lparr>qd_timer := False, qd_idle := True\<rparr>
      else s\<lparr>qd_timer := False, qd_fallback := True\<rparr>)"

definition persistIdleFires :: "'s draftEnv \<Rightarrow> bool \<Rightarrow> 's draftStore \<Rightarrow> 's draftStore" where
  "persistIdleFires env accepted s =
     (if \<not> qd_idle s then s
      else if qd_timer s then s\<lparr>qd_idle := False\<rparr>
      else flushPersistedDrafts env accepted (s\<lparr>qd_idle := False\<rparr>))"

definition persistFallbackFires :: "'s draftEnv \<Rightarrow> bool \<Rightarrow> 's draftStore \<Rightarrow> 's draftStore" where
  "persistFallbackFires env accepted s =
     (if \<not> qd_fallback s then s else flushPersistedDrafts env accepted (s\<lparr>qd_fallback := False\<rparr>))"

text \<open>\<open>pagehide\<close>, \<open>beforeunload\<close>, or the page is hidden.\<close>

definition pageIsLeft :: "'s draftEnv \<Rightarrow> bool \<Rightarrow> 's draftStore \<Rightarrow> 's draftStore" where
  "pageIsLeft env accepted s = (if qd_bound s then flushPersistedDrafts env accepted s else s)"

section \<open>Operations\<close>

record snapshotTab =
  sn_id :: js_string
  sn_title :: js_string
  sn_connectionId :: js_string
  sn_dbName :: js_string
  sn_filePath :: js_string
  sn_savedQueryId :: js_string
  sn_readOnly :: bool

text \<open>A context value the caller gives; \<open>None\<close> when it is not given.\<close>

record draftOverrides =
  ov_connectionId :: "js_string option"
  ov_dbName :: "js_string option"

definition notifyQueryTabDraftChanged :: "js_string \<Rightarrow> 's draftStore \<Rightarrow> 's draftStore" where
  "notifyQueryTabDraftChanged tabId s = s\<lparr>qd_notified := tabId # qd_notified s\<rparr>"

definition entryOfTab :: "int \<Rightarrow> snapshotTab \<Rightarrow> js_string \<Rightarrow> draftOverrides \<Rightarrow> persistedDraft" where
  "entryOfTab now tab content overrides =
     \<lparr>pd_tabId = js_trim (sn_id tab), pd_title = js_or (js_trim (sn_title tab)) untitledDraft,
      pd_query = take QUERY_TAB_DRAFT_SNAPSHOT_MAX_TEXT_LENGTH content,
      pd_connectionId = js_trim (case ov_connectionId overrides of None \<Rightarrow> sn_connectionId tab | Some c \<Rightarrow> c),
      pd_dbName = js_trim (case ov_dbName overrides of None \<Rightarrow> sn_dbName tab | Some d \<Rightarrow> d),
      pd_filePath = js_trim (sn_filePath tab), pd_savedQueryId = js_trim (sn_savedQueryId tab),
      pd_readOnly = sn_readOnly tab, pd_updatedAt = now\<rparr>"

definition upsertPersistedDraftEntry ::
  "'s draftEnv \<Rightarrow> int \<Rightarrow> bool \<Rightarrow> snapshotTab \<Rightarrow> js_string \<Rightarrow> draftOverrides \<Rightarrow> 's draftStore \<Rightarrow> 's draftStore" where
  "upsertPersistedDraftEntry env now accepted tab content overrides s =
     (let s1 = ensurePersistedDraftsHydrated env now s; e = entryOfTab now tab content overrides in
      if pd_tabId e = [] then s1
      else if \<not> keepsContent (pd_query e) (pd_filePath e) (pd_savedQueryId e)
      then schedulePersistedDraftFlush env accepted (s1\<lparr>qd_persisted := jm_delete (qd_persisted s1) (pd_tabId e)\<rparr>)
      else schedulePersistedDraftFlush env accepted (s1\<lparr>qd_persisted := jm_set (qd_persisted s1) (pd_tabId e) e\<rparr>))"

definition setQueryTabDraft :: "'s draftEnv \<Rightarrow> int \<Rightarrow> js_string \<Rightarrow> js_string \<Rightarrow> 's draftStore \<Rightarrow> 's draftStore" where
  "setQueryTabDraft env now tabId content s =
     (let s1 = ensurePersistedDraftsHydrated env now s; i = js_trim tabId in
      if i = [] \<or> jm_get (qd_drafts s1) i = Some content then s1
      else notifyQueryTabDraftChanged i (s1\<lparr>qd_drafts := jm_set (qd_drafts s1) i content\<rparr>))"

definition getQueryTabDraft ::
  "'s draftEnv \<Rightarrow> int \<Rightarrow> js_string \<Rightarrow> js_string \<Rightarrow> 's draftStore \<Rightarrow> js_string \<times> 's draftStore" where
  "getQueryTabDraft env now tabId fallback s =
     (let s1 = ensurePersistedDraftsHydrated env now s; i = js_trim tabId in
      (case (if i = [] then None else jm_get (qd_drafts s1) i) of None \<Rightarrow> (fallback, s1) | Some t \<Rightarrow> (t, s1)))"

definition clearQueryTabDraft :: "'s draftEnv \<Rightarrow> int \<Rightarrow> bool \<Rightarrow> js_string \<Rightarrow> 's draftStore \<Rightarrow> 's draftStore" where
  "clearQueryTabDraft env now accepted tabId s =
     (let s1 = ensurePersistedDraftsHydrated env now s; i = js_trim tabId in
      if i = [] then s1
      else
        (let s2 = s1\<lparr>qd_drafts := jm_delete (qd_drafts s1) i\<rparr>;
             s3 = (if jm_get (qd_persisted s2) i \<noteq> None
                   then schedulePersistedDraftFlush env accepted (s2\<lparr>qd_persisted := jm_delete (qd_persisted s2) i\<rparr>)
                   else s2) in
         if jm_get (qd_drafts s1) i \<noteq> None then notifyQueryTabDraftChanged i s3 else s3))"

definition hasQueryTabDraft :: "'s draftEnv \<Rightarrow> int \<Rightarrow> js_string \<Rightarrow> 's draftStore \<Rightarrow> bool \<times> 's draftStore" where
  "hasQueryTabDraft env now tabId s =
     (let s1 = ensurePersistedDraftsHydrated env now s; i = js_trim tabId in
      (i \<noteq> [] \<and> jm_get (qd_drafts s1) i \<noteq> None, s1))"

definition persistQueryTabDraftSnapshot ::
  "'s draftEnv \<Rightarrow> int \<Rightarrow> bool \<Rightarrow> snapshotTab \<Rightarrow> js_string \<Rightarrow> draftOverrides \<Rightarrow> 's draftStore \<Rightarrow> 's draftStore" where
  "persistQueryTabDraftSnapshot env now accepted tab content overrides s =
     (if js_trim (sn_id tab) = [] then s
      else upsertPersistedDraftEntry env now accepted tab content overrides
             (setQueryTabDraft env now (js_trim (sn_id tab)) content s))"

definition getPersistedQueryTabDraftEntry ::
  "'s draftEnv \<Rightarrow> int \<Rightarrow> js_string \<Rightarrow> 's draftStore \<Rightarrow> persistedDraft option \<times> 's draftStore" where
  "getPersistedQueryTabDraftEntry env now tabId s =
     (let s1 = ensurePersistedDraftsHydrated env now s; i = js_trim tabId in
      (if i = [] then None else jm_get (qd_persisted s1) i, s1))"

definition listPersistedQueryTabDraftEntries ::
  "'s draftEnv \<Rightarrow> int \<Rightarrow> 's draftStore \<Rightarrow> persistedDraft list \<times> 's draftStore" where
  "listPersistedQueryTabDraftEntries env now s =
     (let s1 = ensurePersistedDraftsHydrated env now s in (newestFirst (map snd (qd_persisted s1)), s1))"

section \<open>Steps\<close>

text \<open>
  What can happen to the module, failing writes and a restart of the program included. The clock shows a
  positive time.
\<close>

inductive draftStep :: "'s draftEnv \<Rightarrow> 's draftStore \<Rightarrow> 's draftStore \<Rightarrow> bool" for env where
  ds_read: "0 < now \<Longrightarrow> draftStep env s (ensurePersistedDraftsHydrated env now s)"
| ds_set: "0 < now \<Longrightarrow> draftStep env s (setQueryTabDraft env now i content s)"
| ds_persist: "0 < now \<Longrightarrow> draftStep env s (persistQueryTabDraftSnapshot env now accepted tab content overrides s)"
| ds_clear: "0 < now \<Longrightarrow> draftStep env s (clearQueryTabDraft env now accepted i s)"
| ds_timer: "draftStep env s (persistTimerFires env s)"
| ds_idle: "draftStep env s (persistIdleFires env accepted s)"
| ds_fallback: "draftStep env s (persistFallbackFires env accepted s)"
| ds_flush: "draftStep env s (flushPersistedDrafts env accepted s)"
| ds_leave: "draftStep env s (pageIsLeft env accepted s)"
| ds_restart: "draftStep env s (loadedPage (qd_stored s))"

end
