(* ===== verification/QueryDraftsProps.thy ===== *)
theory QueryDraftsProps
  imports QueryDrafts
begin

text \<open>
  The saved queries survive: what is in the second map when a write goes through is what the next start
  reads, with the text of every query, and a change is always on its way to the storage.
\<close>

section \<open>Sorting\<close>

abbreviation newer :: "persistedDraft \<Rightarrow> persistedDraft \<Rightarrow> bool" where
  "newer a b \<equiv> pd_updatedAt b \<le> pd_updatedAt a"

lemma insert_newest:
  "sorted_wrt newer es \<Longrightarrow> sorted_wrt newer (js_insert_by (\<lambda>a b. pd_updatedAt b - pd_updatedAt a) e es)"
  by (induction es) auto

lemma newestFirst_sorted: "sorted_wrt newer (newestFirst es)"
proof -
  have "sorted_wrt newer (foldr (js_insert_by (\<lambda>a b. pd_updatedAt b - pd_updatedAt a)) es [])"
    by (induction es) (simp_all add: insert_newest)
  then show ?thesis by (simp add: newestFirst_def js_sort_def)
qed

lemma newestFirst_same: "sorted_wrt newer es \<Longrightarrow> newestFirst es = es"
proof (induction es)
  case (Cons e es)
  then have "newestFirst es = es" by simp
  with Cons.prems show ?case by (cases es) (simp_all add: newestFirst_def js_sort_def)
qed (simp add: newestFirst_def js_sort_def)

lemma set_newestFirst [simp]: "set (newestFirst es) = set es"
  by (simp add: newestFirst_def)

lemma distinct_newestFirst: "distinct (map f (newestFirst es)) \<longleftrightarrow> distinct (map f es)"
  by (metis mset_js_sort mset_map mset_eq_imp_distinct_iff newestFirst_def)

section \<open>Entries as they are kept\<close>

definition entry_ok :: "persistedDraft \<Rightarrow> bool" where
  "entry_ok e \<longleftrightarrow> clean (pd_tabId e) \<and> clean (pd_title e) \<and> js_trim (pd_connectionId e) = pd_connectionId e
     \<and> js_trim (pd_dbName e) = pd_dbName e \<and> js_trim (pd_filePath e) = pd_filePath e
     \<and> js_trim (pd_savedQueryId e) = pd_savedQueryId e
     \<and> length (pd_query e) \<le> QUERY_TAB_DRAFT_SNAPSHOT_MAX_TEXT_LENGTH
     \<and> keepsContent (pd_query e) (pd_filePath e) (pd_savedQueryId e)"

text \<open>How an entry comes back from JSON.\<close>

definition rawOfDraft :: "persistedDraft \<Rightarrow> rawDraft" where
  "rawOfDraft e = \<lparr>rd_tabId = pd_tabId e, rd_title = pd_title e, rd_query = pd_query e,
     rd_connectionId = pd_connectionId e, rd_dbName = pd_dbName e, rd_filePath = pd_filePath e,
     rd_savedQueryId = pd_savedQueryId e, rd_readOnly = pd_readOnly e, rd_updatedAt = Some (of_int (pd_updatedAt e))\<rparr>"

lemma title_clean [simp]:
  "js_or (js_trim t) untitledDraft \<noteq> []" "js_trim (js_or (js_trim t) untitledDraft) = js_or (js_trim t) untitledDraft"
proof -
  have "clean untitledDraft" by code_simp
  then show "js_or (js_trim t) untitledDraft \<noteq> []" "js_trim (js_or (js_trim t) untitledDraft) = js_or (js_trim t) untitledDraft"
    by (simp_all add: js_or_def clean_def)
qed

lemma normalized_entry: "normalizePersistedDraftEntry now v = Some e \<Longrightarrow> entry_ok e"
  by (auto simp: normalizePersistedDraftEntry_def Let_def entry_ok_def clean_def split: option.splits if_splits)

lemma entry_of_tab:
  "pd_tabId (entryOfTab now tab content ov) \<noteq> [] \<Longrightarrow>
   keepsContent (pd_query (entryOfTab now tab content ov)) (pd_filePath (entryOfTab now tab content ov))
     (pd_savedQueryId (entryOfTab now tab content ov)) \<Longrightarrow> entry_ok (entryOfTab now tab content ov)"
  by (auto simp: entryOfTab_def entry_ok_def clean_def)

lemma entry_read_again:
  "entry_ok e \<Longrightarrow> 0 < pd_updatedAt e \<Longrightarrow> normalizePersistedDraftEntry now (Some (rawOfDraft e)) = Some e"
  by (auto simp: normalizePersistedDraftEntry_def rawOfDraft_def entry_ok_def clean_def Let_def js_or_def)

section \<open>Lists and maps of entries\<close>

definition good_entries :: "persistedDraft list \<Rightarrow> bool" where
  "good_entries es \<longleftrightarrow> (\<forall>e\<in>set es. entry_ok e \<and> 0 < pd_updatedAt e) \<and> distinct (map pd_tabId es)"

definition keyed :: "(js_string, persistedDraft) js_map \<Rightarrow> bool" where
  "keyed m \<longleftrightarrow> (\<forall>x\<in>set m. fst x = pd_tabId (snd x)) \<and> good_entries (map snd m)"

definition topEntries :: "persistedDraft list \<Rightarrow> persistedDraft list" where
  "topEntries es = take QUERY_TAB_DRAFT_SNAPSHOT_MAX_COUNT (newestFirst es)"

definition saved_list :: "persistedDraft list \<Rightarrow> bool" where
  "saved_list es \<longleftrightarrow> good_entries es \<and> sorted_wrt newer es \<and> length es \<le> QUERY_TAB_DRAFT_SNAPSHOT_MAX_COUNT"

lemma payload_top: "draftPayload s = topEntries (map snd (qd_persisted s))"
  by (simp add: draftPayload_def topEntries_def)

lemma top_saved: "good_entries es \<Longrightarrow> saved_list (topEntries es)"
  using newestFirst_sorted [of es] distinct_newestFirst [of pd_tabId es]
  by (auto simp: saved_list_def topEntries_def good_entries_def sorted_wrt_take dest: in_set_takeD simp flip: take_map)

lemma top_of_saved: "saved_list es \<Longrightarrow> topEntries es = es"
  by (simp add: saved_list_def topEntries_def newestFirst_same)

lemma keyed_keys: "keyed m \<Longrightarrow> jm_keys m = map pd_tabId (map snd m)"
  by (auto simp: keyed_def jm_keys_def)

lemma keyed_Nil [simp]: "keyed []"
  by (simp add: keyed_def good_entries_def)

lemma keyed_delete: "keyed m \<Longrightarrow> keyed (jm_delete m i)"
  by (auto simp: keyed_def good_entries_def jm_delete_def distinct_map intro: inj_on_subset)

lemma keyed_set:
  assumes "keyed m" "entry_ok e" "0 < pd_updatedAt e"
  shows "keyed (jm_set m (pd_tabId e) e)"
proof -
  let ?m = "jm_set m (pd_tabId e) e"
  have entries: "\<forall>x\<in>set ?m. fst x = pd_tabId (snd x) \<and> entry_ok (snd x) \<and> 0 < pd_updatedAt (snd x)"
    using jm_set_entries [of m "pd_tabId e" e] assms by (auto simp: keyed_def good_entries_def)
  have "distinct (jm_keys m)" using assms(1) keyed_keys by (simp add: keyed_def good_entries_def)
  then have "distinct (jm_keys ?m)" by (rule jm.distinct_put)
  moreover have "jm_keys ?m = map pd_tabId (map snd ?m)" using entries by (auto simp: jm_keys_def)
  ultimately show ?thesis using entries by (simp add: keyed_def good_entries_def)
qed

lemma jm_set_new: "k \<notin> set (jm_keys m) \<Longrightarrow> jm_set m k v = m @ [(k, v)]"
  by (induction m) (auto simp: jm_keys_def)

lemma add_entries:
  "distinct (map pd_tabId es) \<Longrightarrow> pd_tabId ` set es \<inter> set (jm_keys (qd_persisted s)) = {} \<Longrightarrow>
   pd_tabId ` set es \<inter> set (jm_keys (qd_drafts s)) = {} \<Longrightarrow>
   fold addEntry es s = s\<lparr>qd_persisted := qd_persisted s @ map (\<lambda>e. (pd_tabId e, e)) es,
                         qd_drafts := qd_drafts s @ map (\<lambda>e. (pd_tabId e, pd_query e)) es\<rparr>"
proof (induction es arbitrary: s)
  case (Cons e es)
  let ?s = "s\<lparr>qd_persisted := qd_persisted s @ [(pd_tabId e, e)], qd_drafts := qd_drafts s @ [(pd_tabId e, pd_query e)]\<rparr>"
  have "addEntry e s = ?s" using Cons.prems by (simp add: addEntry_def jm_set_new)
  moreover have "fold addEntry es ?s = ?s\<lparr>qd_persisted := qd_persisted ?s @ map (\<lambda>e. (pd_tabId e, e)) es,
      qd_drafts := qd_drafts ?s @ map (\<lambda>e. (pd_tabId e, pd_query e)) es\<rparr>"
    using Cons.prems by (intro Cons.IH) (auto simp: jm_keys_def)
  ultimately show ?case by simp
qed simp

section \<open>The storage\<close>

text \<open>What JSON does: an entry that is written comes back with its fields.\<close>

definition json_keeps_entries :: "'s draftEnv \<Rightarrow> bool" where
  "json_keeps_entries env \<longleftrightarrow>
     (\<forall>es. de_parse env (de_stringify env es) = Some (map (\<lambda>e. Some (rawOfDraft e)) es))"

text \<open>No item stands for no entries.\<close>

definition snapshot :: "'s draftEnv \<Rightarrow> persistedDraft list \<Rightarrow> 's option" where
  "snapshot env es = (if es = [] then None else Some (de_stringify env es))"

lemma entries_read_again: "saved_list es \<Longrightarrow> readEntries now (map (\<lambda>e. Some (rawOfDraft e)) es) = es"
proof -
  assume es: "saved_list es"
  then have "\<forall>e\<in>set es. normalizePersistedDraftEntry now (Some (rawOfDraft e)) = Some e"
    by (simp add: saved_list_def good_entries_def entry_read_again)
  then have "List.map_filter (normalizePersistedDraftEntry now) (map (\<lambda>e. Some (rawOfDraft e)) es) = es"
    by (induction es) (auto simp: List.map_filter_simps)
  with top_of_saved [OF es] show ?thesis by (simp add: readEntries_def topEntries_def)
qed

text \<open>A start with the snapshot of a saved list.\<close>

lemma read_snapshot:
  assumes "json_keeps_entries env" "saved_list es" "de_storage env" "qd_stored s = snapshot env es"
    and "\<not> qd_hydrated s" "qd_persisted s = []" "qd_drafts s = []"
  shows "ensurePersistedDraftsHydrated env now s =
    s\<lparr>qd_hydrated := True, qd_persisted := map (\<lambda>e. (pd_tabId e, e)) es, qd_drafts := map (\<lambda>e. (pd_tabId e, pd_query e)) es\<rparr>"
proof -
  have "distinct (map pd_tabId es)" using assms(2) by (simp add: saved_list_def good_entries_def)
  then have "fold addEntry es (s\<lparr>qd_hydrated := True\<rparr>) = s\<lparr>qd_hydrated := True,
      qd_persisted := map (\<lambda>e. (pd_tabId e, e)) es, qd_drafts := map (\<lambda>e. (pd_tabId e, pd_query e)) es\<rparr>"
    using assms(6,7) by (subst add_entries) (simp_all add: jm_keys_def)
  then show ?thesis
    using assms entries_read_again [OF assms(2), of now]
    by (auto simp: ensurePersistedDraftsHydrated_def snapshot_def json_keeps_entries_def Let_def split: if_splits)
qed

section \<open>The invariant\<close>

text \<open>
  Both maps are in order, and the storage holds a list that was written. Before the storage is read nothing
  is kept and nothing waits; afterwards a state without unsaved changes is the one in the storage.
\<close>

definition maps_ok :: "'s draftEnv \<Rightarrow> 's draftStore \<Rightarrow> bool" where
  "maps_ok env s \<longleftrightarrow> keyed (qd_persisted s) \<and> (\<exists>es. saved_list es \<and> qd_stored s = snapshot env es)
     \<and> qd_flushed s \<le> qd_revision s"

definition nothing_yet :: "'s draftStore \<Rightarrow> bool" where
  "nothing_yet s \<longleftrightarrow> qd_persisted s = [] \<and> qd_drafts s = [] \<and> qd_revision s = 0 \<and> qd_flushed s = 0
     \<and> \<not> qd_timer s \<and> \<not> qd_idle s \<and> \<not> qd_fallback s"

definition written :: "'s draftEnv \<Rightarrow> 's draftStore \<Rightarrow> bool" where
  "written env s \<longleftrightarrow> (qd_flushed s = qd_revision s \<longrightarrow> de_storage env \<longrightarrow> qd_stored s = snapshot env (draftPayload s))"

definition drafts_ok :: "'s draftEnv \<Rightarrow> 's draftStore \<Rightarrow> bool" where
  "drafts_ok env s \<longleftrightarrow> maps_ok env s \<and> (if qd_hydrated s then written env s else nothing_yet s)"

lemma drafts_loaded_ok: "saved_list es \<Longrightarrow> drafts_ok env (loadedPage (snapshot env es))"
  by (auto simp: drafts_ok_def maps_ok_def nothing_yet_def loadedPage_def)

lemma saved_Nil [simp]: "saved_list []"
  by (simp add: saved_list_def good_entries_def)

lemma payload_saved: "keyed (qd_persisted s) \<Longrightarrow> saved_list (draftPayload s)"
  by (simp add: payload_top top_saved keyed_def)

lemma payload_Nil: "draftPayload s = [] \<longleftrightarrow> qd_persisted s = []"
proof -
  have "QUERY_TAB_DRAFT_SNAPSHOT_MAX_COUNT \<noteq> 0" by (simp add: QUERY_TAB_DRAFT_SNAPSHOT_MAX_COUNT_def)
  moreover have "newestFirst (map snd (qd_persisted s)) = [] \<longleftrightarrow> qd_persisted s = []"
    by (metis length_0_conv length_js_sort length_map newestFirst_def)
  ultimately show ?thesis by (simp add: draftPayload_def)
qed

lemma entries_keyed: "saved_list es \<Longrightarrow> keyed (map (\<lambda>e. (pd_tabId e, e)) es)"
  by (auto simp: keyed_def saved_list_def o_def)

lemma read_ok:
  assumes "json_keeps_entries env" "drafts_ok env s"
  shows "drafts_ok env (ensurePersistedDraftsHydrated env now s) \<and> qd_hydrated (ensurePersistedDraftsHydrated env now s)
    \<and> (qd_hydrated s \<longrightarrow> ensurePersistedDraftsHydrated env now s = s)"
proof (cases "qd_hydrated s")
  case True
  then show ?thesis using assms(2) by (simp add: ensurePersistedDraftsHydrated_def)
next
  case False
  then have s: "nothing_yet s" "maps_ok env s" using assms(2) by (simp_all add: drafts_ok_def)
  then obtain es where es: "saved_list es" "qd_stored s = snapshot env es" by (auto simp: maps_ok_def)
  show ?thesis
  proof (cases "de_storage env")
    case True
    have r: "ensurePersistedDraftsHydrated env now s = s\<lparr>qd_hydrated := True,
        qd_persisted := map (\<lambda>e. (pd_tabId e, e)) es, qd_drafts := map (\<lambda>e. (pd_tabId e, pd_query e)) es\<rparr>"
      using read_snapshot [OF assms(1) es(1) True es(2) False] s(1) by (simp add: nothing_yet_def)
    show ?thesis unfolding r
      using s(2) False es top_of_saved [OF es(1)] entries_keyed [OF es(1)]
      by (auto simp: drafts_ok_def maps_ok_def written_def payload_top o_def)
  next
    case storage: False
    then have "ensurePersistedDraftsHydrated env now s = s\<lparr>qd_hydrated := True\<rparr>"
      using False by (simp add: ensurePersistedDraftsHydrated_def)
    with s storage False show ?thesis by (auto simp: drafts_ok_def maps_ok_def written_def)
  qed
qed

lemma cancel_fields [simp]:
  "qd_drafts (cancelScheduledPersistedDraftFlush env s) = qd_drafts s"
  "qd_persisted (cancelScheduledPersistedDraftFlush env s) = qd_persisted s"
  "qd_hydrated (cancelScheduledPersistedDraftFlush env s) = qd_hydrated s"
  "qd_revision (cancelScheduledPersistedDraftFlush env s) = qd_revision s"
  "qd_flushed (cancelScheduledPersistedDraftFlush env s) = qd_flushed s"
  "qd_stored (cancelScheduledPersistedDraftFlush env s) = qd_stored s"
  "draftPayload (cancelScheduledPersistedDraftFlush env s) = draftPayload s"
  by (simp_all add: cancelScheduledPersistedDraftFlush_def draftPayload_def)

lemma cancel_nothing: "nothing_yet s \<Longrightarrow> nothing_yet (cancelScheduledPersistedDraftFlush env s)"
  by (simp add: cancelScheduledPersistedDraftFlush_def nothing_yet_def)

lemma flush_fields [simp]:
  "qd_drafts (flushPersistedDrafts env accepted s) = qd_drafts s"
  "qd_persisted (flushPersistedDrafts env accepted s) = qd_persisted s"
  "qd_hydrated (flushPersistedDrafts env accepted s) = qd_hydrated s"
  "qd_revision (flushPersistedDrafts env accepted s) = qd_revision s"
  by (simp_all add: flushPersistedDrafts_def Let_def)

lemma flush_payload [simp]: "draftPayload (flushPersistedDrafts env accepted s) = draftPayload s"
  by (simp add: draftPayload_def)

text \<open>What a flush leaves in the storage when the write goes through.\<close>

lemma flush_stores:
  "de_storage env \<Longrightarrow> qd_flushed s \<noteq> qd_revision s \<or> qd_stored s = snapshot env (draftPayload s) \<Longrightarrow>
   qd_stored (flushPersistedDrafts env True s) = snapshot env (draftPayload s)
   \<and> qd_flushed (flushPersistedDrafts env True s) = qd_revision s"
  using payload_Nil [of s] by (auto simp: flushPersistedDrafts_def Let_def snapshot_def)

lemma drafts_flush_ok:
  assumes "maps_ok env s" "if qd_hydrated s then written env s else nothing_yet s"
  shows "drafts_ok env (flushPersistedDrafts env accepted s)"
proof -
  have saved: "saved_list (draftPayload s)" using assms(1) by (simp add: maps_ok_def payload_saved)
  then have "maps_ok env (flushPersistedDrafts env accepted s)"
    using assms(1) payload_Nil [of s] saved_Nil
    by (auto simp: flushPersistedDrafts_def maps_ok_def Let_def snapshot_def intro: exI [of _ "draftPayload s"] exI [of _ "[]"])
  moreover have "written env (flushPersistedDrafts env accepted s)" if "qd_hydrated s"
    using assms that payload_Nil [of s] by (auto simp: flushPersistedDrafts_def written_def Let_def snapshot_def draftPayload_def)
  moreover have "nothing_yet (flushPersistedDrafts env accepted s)" if "\<not> qd_hydrated s"
    using assms that cancel_nothing [of s env] by (simp add: flushPersistedDrafts_def nothing_yet_def Let_def)
  ultimately show ?thesis by (auto simp: drafts_ok_def)
qed

lemma schedule_ok:
  assumes "maps_ok env s" "qd_hydrated s"
  shows "drafts_ok env (schedulePersistedDraftFlush env accepted s)"
proof -
  let ?s = "s\<lparr>qd_bound := de_window env, qd_revision := qd_revision s + 1\<rparr>"
  have "maps_ok env ?s" "written env ?s" using assms(1) by (auto simp: maps_ok_def written_def)
  then have "drafts_ok env (flushPersistedDrafts env accepted ?s)" "maps_ok env ?s"
    using assms(2) by (simp_all add: drafts_flush_ok)
  then show ?thesis using assms by (auto simp: schedulePersistedDraftFlush_def Let_def drafts_ok_def maps_ok_def written_def)
qed

lemma drafts_ok_same:
  assumes "drafts_ok env s" "qd_hydrated s" "qd_persisted s' = qd_persisted s" "qd_hydrated s' = qd_hydrated s"
    and "qd_revision s' = qd_revision s" "qd_flushed s' = qd_flushed s" "qd_stored s' = qd_stored s"
  shows "drafts_ok env s'"
  using assms by (simp add: drafts_ok_def maps_ok_def written_def draftPayload_def)

lemma set_ok:
  assumes "json_keeps_entries env" "drafts_ok env s"
  shows "drafts_ok env (setQueryTabDraft env now i content s) \<and> qd_hydrated (setQueryTabDraft env now i content s)"
  using read_ok [OF assms, of now]
  by (auto simp: setQueryTabDraft_def notifyQueryTabDraftChanged_def Let_def intro: drafts_ok_same)

lemma upsert_ok:
  assumes "json_keeps_entries env" "drafts_ok env s" "0 < now"
  shows "drafts_ok env (upsertPersistedDraftEntry env now accepted tab content ov s)"
proof -
  let ?s = "ensurePersistedDraftsHydrated env now s" and ?e = "entryOfTab now tab content ov"
  note r = read_ok [OF assms(1,2), of now]
  then have m: "maps_ok env ?s" "qd_hydrated ?s" by (simp_all add: drafts_ok_def)
  have "0 < pd_updatedAt ?e" using assms(3) by (simp add: entryOfTab_def)
  then have "maps_ok env (?s\<lparr>qd_persisted := jm_set (qd_persisted ?s) (pd_tabId ?e) ?e\<rparr>)"
    if "pd_tabId ?e \<noteq> []" "keepsContent (pd_query ?e) (pd_filePath ?e) (pd_savedQueryId ?e)"
    using m(1) entry_of_tab [OF that] by (simp add: maps_ok_def keyed_set)
  moreover have "maps_ok env (?s\<lparr>qd_persisted := jm_delete (qd_persisted ?s) (pd_tabId ?e)\<rparr>)"
    using m(1) by (simp add: maps_ok_def keyed_delete)
  ultimately show ?thesis using r m(2) by (simp add: upsertPersistedDraftEntry_def Let_def schedule_ok)
qed

lemma clear_ok:
  assumes "json_keeps_entries env" "drafts_ok env s"
  shows "drafts_ok env (clearQueryTabDraft env now accepted i s)"
proof -
  let ?s = "ensurePersistedDraftsHydrated env now s" and ?i = "js_trim i"
  note r = read_ok [OF assms, of now]
  have d: "drafts_ok env (?s\<lparr>qd_drafts := x\<rparr>)" for x
    by (rule drafts_ok_same [of env ?s]) (use r in simp_all)
  have "maps_ok env (?s\<lparr>qd_drafts := x, qd_persisted := jm_delete (qd_persisted ?s) ?i\<rparr>)" for x
    using r by (simp add: drafts_ok_def maps_ok_def keyed_delete)
  then have p: "drafts_ok env (schedulePersistedDraftFlush env accepted
      (?s\<lparr>qd_drafts := x, qd_persisted := jm_delete (qd_persisted ?s) ?i\<rparr>))" for x using r by (simp add: schedule_ok)
  have h: "qd_hydrated (schedulePersistedDraftFlush env accepted s') = qd_hydrated s'" for s'
    by (simp add: schedulePersistedDraftFlush_def Let_def)
  have n: "drafts_ok env s' \<Longrightarrow> qd_hydrated s' \<Longrightarrow> drafts_ok env (notifyQueryTabDraftChanged j s')" for s' j
    by (erule drafts_ok_same) (simp_all add: notifyQueryTabDraftChanged_def)
  have u: "?s\<lparr>qd_drafts := x\<rparr>\<lparr>qd_persisted := y\<rparr> = ?s\<lparr>qd_drafts := x, qd_persisted := y\<rparr>" for x y by simp
  note hyd = r [THEN conjunct2, THEN conjunct1]
  consider "?i = []" | "?i \<noteq> []" "jm_get (qd_persisted ?s) ?i = None" | "?i \<noteq> []" "jm_get (qd_persisted ?s) ?i \<noteq> None"
    by blast
  then show ?thesis
  proof cases
    case 1
    then show ?thesis using r by (simp add: clearQueryTabDraft_def Let_def)
  next
    case 2
    then show ?thesis using d [of "jm_delete (qd_drafts ?s) ?i"] n [of "?s\<lparr>qd_drafts := jm_delete (qd_drafts ?s) ?i\<rparr>"] hyd
      by (simp add: clearQueryTabDraft_def Let_def)
  next
    case 3
    then show ?thesis using p [of "jm_delete (qd_drafts ?s) ?i"] n [OF p, of "jm_delete (qd_drafts ?s) ?i"] hyd
      by (simp add: clearQueryTabDraft_def Let_def h del: jm_get_None)
  qed
qed

lemma draftStep_ok:
  assumes "draftStep env s s'" "json_keeps_entries env" "drafts_ok env s"
  shows "drafts_ok env s'"
  using assms(1)
proof cases
  case (ds_restart)
  obtain es where "saved_list es" "qd_stored s = snapshot env es" using assms(3) by (auto simp: drafts_ok_def maps_ok_def)
  with ds_restart drafts_loaded_ok show ?thesis by metis
next
  case ds_timer
  then show ?thesis using assms(3)
    by (auto simp: persistTimerFires_def drafts_ok_def maps_ok_def written_def nothing_yet_def draftPayload_def split: if_splits)
next
  case (ds_idle accepted)
  have "drafts_ok env (s\<lparr>qd_idle := False\<rparr>)" using assms(3)
    by (auto simp: drafts_ok_def maps_ok_def written_def nothing_yet_def draftPayload_def)
  moreover from this have "drafts_ok env (flushPersistedDrafts env accepted (s\<lparr>qd_idle := False\<rparr>))"
    by (intro drafts_flush_ok) (auto simp: drafts_ok_def)
  ultimately show ?thesis using ds_idle assms(3) by (simp add: persistIdleFires_def)
next
  case (ds_fallback accepted)
  have "drafts_ok env (s\<lparr>qd_fallback := False\<rparr>)" using assms(3)
    by (auto simp: drafts_ok_def maps_ok_def written_def nothing_yet_def draftPayload_def)
  then have "drafts_ok env (flushPersistedDrafts env accepted (s\<lparr>qd_fallback := False\<rparr>))"
    by (intro drafts_flush_ok) (auto simp: drafts_ok_def)
  then show ?thesis using ds_fallback assms(3) by (simp add: persistFallbackFires_def)
qed (use assms(2,3) in \<open>auto simp: read_ok set_ok clear_ok persistQueryTabDraftSnapshot_def pageIsLeft_def drafts_ok_def [of env s]
    intro: drafts_flush_ok intro!: upsert_ok\<close>)

lemma drafts_reachable: "(draftStep env)\<^sup>*\<^sup>* s s' \<Longrightarrow> json_keeps_entries env \<Longrightarrow> drafts_ok env s \<Longrightarrow> drafts_ok env s'"
  by (induction rule: rtranclp_induct) (auto intro: draftStep_ok)

lemmas drafts_since_start = drafts_reachable [OF _ _ drafts_loaded_ok [OF saved_Nil]]

lemma flush_timers [simp]:
  "de_window env \<Longrightarrow> \<not> qd_fallback (flushPersistedDrafts env accepted s)"
  by (simp add: flushPersistedDrafts_def cancelScheduledPersistedDraftFlush_def Let_def)

section \<open>Properties\<close>

lemma lookup_entry: "distinct (map f es) \<Longrightarrow> e \<in> set es \<Longrightarrow> jm_get (map (\<lambda>e. (f e, g e)) es) (f e) = Some (g e)"
  by (simp add: jm_get_def o_def image_iff) blast

lemma flushed_start:
  assumes "json_keeps_entries env" "de_storage env" "(draftStep env)\<^sup>*\<^sup>* (loadedPage (snapshot env [])) s" "qd_hydrated s"
  shows "ensurePersistedDraftsHydrated env now (loadedPage (qd_stored (flushPersistedDrafts env True s)))
    = (loadedPage (qd_stored (flushPersistedDrafts env True s)))\<lparr>qd_hydrated := True,
        qd_persisted := map (\<lambda>e. (pd_tabId e, e)) (draftPayload s),
        qd_drafts := map (\<lambda>e. (pd_tabId e, pd_query e)) (draftPayload s)\<rparr> \<and> saved_list (draftPayload s)"
proof -
  have ok: "drafts_ok env s" by (rule drafts_since_start [OF assms(3,1)])
  then have "saved_list (draftPayload s)" by (simp add: drafts_ok_def maps_ok_def payload_saved)
  moreover have "qd_stored (flushPersistedDrafts env True s) = snapshot env (draftPayload s)"
    using ok assms(2,4) flush_stores [of env s] by (auto simp: drafts_ok_def written_def)
  ultimately show ?thesis using assms(1,2) by (simp add: read_snapshot loadedPage_def)
qed

text \<open>
  C31. Queries survive a restart: whatever happened before, failed writes included, once a flush goes
  through a new start reads back exactly the thirty newest entries as they were, in order, and the editor
  gets for each of these tabs the text of its query.
\<close>

theorem saved_drafts_survive_restart:
  assumes "json_keeps_entries env" "de_storage env" "(draftStep env)\<^sup>*\<^sup>* (loadedPage None) s" "qd_hydrated s"
    and "page = loadedPage (qd_stored (flushPersistedDrafts env True s))"
  shows "fst (listPersistedQueryTabDraftEntries env now page) = take 30 (fst (listPersistedQueryTabDraftEntries env now s))
    \<and> (\<forall>e\<in>set (take 30 (fst (listPersistedQueryTabDraftEntries env now s))).
         fst (getQueryTabDraft env now (pd_tabId e) fallback page) = pd_query e
         \<and> fst (getPersistedQueryTabDraftEntry env now (pd_tabId e) page) = Some e)"
proof -
  have "(draftStep env)\<^sup>*\<^sup>* (loadedPage (snapshot env [])) s" using assms(3) by (simp add: snapshot_def)
  note f = flushed_start [OF assms(1,2) this assms(4), of now, folded assms(5)]
  then have es: "saved_list (draftPayload s)" and r: "ensurePersistedDraftsHydrated env now page = page\<lparr>qd_hydrated := True,
      qd_persisted := map (\<lambda>e. (pd_tabId e, e)) (draftPayload s), qd_drafts := map (\<lambda>e. (pd_tabId e, pd_query e)) (draftPayload s)\<rparr>"
    by blast+
  have p: "draftPayload s = take 30 (fst (listPersistedQueryTabDraftEntries env now s))"
    using assms(4) by (simp add: listPersistedQueryTabDraftEntries_def ensurePersistedDraftsHydrated_def draftPayload_def
        QUERY_TAB_DRAFT_SNAPSHOT_MAX_COUNT_def Let_def)
  have "\<forall>e\<in>set (draftPayload s). clean (pd_tabId e)" "distinct (map pd_tabId (draftPayload s))"
    using es by (simp_all add: saved_list_def good_entries_def entry_ok_def)
  then show ?thesis
    using es unfolding p [symmetric]
    by (simp add: listPersistedQueryTabDraftEntries_def getQueryTabDraft_def getPersistedQueryTabDraftEntry_def r Let_def o_def
        newestFirst_same saved_list_def clean_def lookup_entry [where g = pd_query] lookup_entry [where g = "\<lambda>e. e"])
qed

text \<open>An environment in which the storage holds the entries themselves.\<close>

definition plainEnv :: "persistedDraft list draftEnv" where
  "plainEnv = \<lparr>de_storage = True, de_window = True, de_requestIdle = True, de_cancelIdle = True,
     de_parse = (\<lambda>es. Some (map (\<lambda>e. Some (rawOfDraft e)) es)), de_stringify = (\<lambda>es. es)\<rparr>"

definition plainTab :: "js_string \<Rightarrow> snapshotTab" where
  "plainTab i = \<lparr>sn_id = i, sn_title = [], sn_connectionId = [], sn_dbName = [], sn_filePath = [], sn_savedQueryId = [],
     sn_readOnly = False\<rparr>"

definition noOverrides :: draftOverrides where
  "noOverrides = \<lparr>ov_connectionId = None, ov_dbName = None\<rparr>"

text \<open>Two edited queries, the first write refused.\<close>

definition editedPage :: "persistedDraft list draftStore" where
  "editedPage = persistIdleFires plainEnv False (persistTimerFires plainEnv
     (persistQueryTabDraftSnapshot plainEnv 7 True (plainTab (js ''b'')) (js ''select 2'') noOverrides
       (persistQueryTabDraftSnapshot plainEnv 5 True (plainTab (js ''a'')) (js ''select 1'') noOverrides (loadedPage None))))"

lemma plainEnv_law: "json_keeps_entries plainEnv"
  by (simp add: json_keeps_entries_def plainEnv_def)

lemma then_draft: "(draftStep env)\<^sup>*\<^sup>* s0 s \<Longrightarrow> draftStep env s s' \<Longrightarrow> (draftStep env)\<^sup>*\<^sup>* s0 s'"
  by (rule rtranclp.rtrancl_into_rtrancl)

lemma editedPage_reachable: "(draftStep plainEnv)\<^sup>*\<^sup>* (loadedPage None) editedPage"
  unfolding editedPage_def
  by (intro then_draft [OF _ ds_idle] then_draft [OF _ ds_timer] then_draft [OF _ ds_persist] rtranclp.rtrancl_refl) simp_all

theorem saved_drafts_survive_restart_witness:
  "qd_stored editedPage = None
   \<and> map pd_tabId (fst (listPersistedQueryTabDraftEntries plainEnv 9
       (loadedPage (qd_stored (flushPersistedDrafts plainEnv True editedPage))))) = [js ''b'', js ''a'']"
proof -
  have "qd_hydrated editedPage" "de_storage plainEnv" "qd_stored editedPage = None"
    "map pd_tabId (take 30 (fst (listPersistedQueryTabDraftEntries plainEnv 9 editedPage))) = [js ''b'', js ''a'']"
    by code_simp+
  with saved_drafts_survive_restart [OF plainEnv_law _ editedPage_reachable _ refl, of 9] show ?thesis by simp
qed



end
