(* ===== verification/QueryTabRestore.thy ===== *)
theory QueryTabRestore
  imports WorkbenchTabs QueryDraftsProps
begin

text \<open>
  The query tabs after a start (\<open>sanitizeQueryTabs\<close> and \<open>sanitizeActiveTabId\<close> of
  \<open>src/frontend/src/store.ts\<close>): the persisted tabs that still have something to show, completed by the
  drafts that were saved on the side, then the drafts of tabs that are not there. The drafts are those of
  the theory \<open>QueryDrafts\<close>. The title of an untitled tab is a parameter.
\<close>

section \<open>What is read\<close>

text \<open>
  A persisted entry as a map from property names; a property that is missing is \<open>RawOther\<close>. The snapshot
  of a formatted text is an object of its own; its time is \<open>None\<close> when it is no number.
\<close>

record rawTab =
  rw_field :: "string \<Rightarrow> rawValue"
  rw_snapshot :: "(rawValue \<times> int option) option"

definition MAX_PERSISTED_QUERY_TABS :: nat where
  "MAX_PERSISTED_QUERY_TABS = 20"

text \<open>A field of the draft, the empty text without one.\<close>

definition ofDraft :: "(persistedDraft \<Rightarrow> js_string) \<Rightarrow> persistedDraft option \<Rightarrow> js_string" where
  "ofDraft f d = (case d of None \<Rightarrow> [] | Some e \<Rightarrow> f e)"

definition rawText :: "rawTab \<Rightarrow> string \<Rightarrow> js_string \<Rightarrow> js_string" where
  "rawText raw name fallback = toTrimmedString_store (rw_field raw name) fallback"

definition textOrUndefined :: "js_string \<Rightarrow> fieldValue" where
  "textOrUndefined s = (if s = [] then Undefined else Text s)"

definition restoredQuery :: "rawTab \<Rightarrow> persistedDraft option \<Rightarrow> js_string" where
  "restoredQuery raw draft =
     take MAX_PERSISTED_QUERY_LENGTH
       (case rw_field raw ''query'' of
          RawString q \<Rightarrow> if js_trim q \<noteq> [] then q else ofDraft pd_query draft
        | _ \<Rightarrow> ofDraft pd_query draft)"

definition restoredSnapshot :: "int \<Rightarrow> rawTab \<Rightarrow> fieldValue" where
  "restoredSnapshot now raw =
     (case rw_snapshot raw of
        Some (RawString q, time) \<Rightarrow>
          (let text = take MAX_PERSISTED_QUERY_LENGTH q in
           if text = [] then Undefined else Snapshot text (case time of None \<Rightarrow> now | Some n \<Rightarrow> n))
      | _ \<Rightarrow> Undefined)"

text \<open>The names an object-edit tab keeps, and their lengths.\<close>

definition objectEditNames :: "(string \<times> tabField \<times> nat) list" where
  "objectEditNames =
     [(''routineName'', FRoutineName, 256), (''routineType'', FOther (js ''routineType''), 64), (''viewName'', FViewName, 256),
      (''sequenceName'', FSequenceName, 256), (''packageName'', FPackageName, 256), (''triggerName'', FTriggerName, 256),
      (''triggerTableName'', FOther (js ''triggerTableName''), 256), (''eventName'', FEventName, 256),
      (''sidebarLocateKey'', FOther (js ''sidebarLocateKey''), 512), (''returnToTabId'', FReturnToTabId, 256)]"

definition oneOf :: "js_string list \<Rightarrow> rawValue \<Rightarrow> fieldValue" where
  "oneOf allowed v = (case v of RawString s \<Rightarrow> if s \<in> set allowed then Text s else Undefined | _ \<Rightarrow> Undefined)"

definition isObjectEdit :: "rawTab \<Rightarrow> bool" where
  "isObjectEdit raw \<longleftrightarrow> rw_field raw ''queryMode'' = RawString (js ''object-edit'')"

definition objectEditIdentity :: "rawTab \<Rightarrow> (tabField \<times> fieldValue) list" where
  "objectEditIdentity raw =
     (if isObjectEdit raw then
        map (\<lambda>(name, field, bound). (field, textOrUndefined (take bound (rawText raw name [])))) objectEditNames
        @ [(FOther (js ''viewKind''), oneOf [js ''view'', js ''materialized''] (rw_field raw ''viewKind'')),
           (FOther (js ''objectType''), oneOf [js ''view'', js ''materialized-view'', js ''table''] (rw_field raw ''objectType''))]
      else [])"

definition restoredFields :: "js_string \<Rightarrow> int \<Rightarrow> rawTab \<Rightarrow> persistedDraft option \<Rightarrow> (tabField \<times> fieldValue) list" where
  "restoredFields newQuery now raw draft =
     [(FTitle, Text (js_or (rawText raw ''title''
         (case draft of None \<Rightarrow> newQuery | Some d \<Rightarrow> js_trim (pd_title d))) newQuery)),
      (FConnectionId, Text (rawText raw ''connectionId'' (ofDraft pd_connectionId draft))),
      (FDbName, Text (rawText raw ''dbName'' (ofDraft pd_dbName draft))),
      (FSchemaName, textOrUndefined (take 256 (rawText raw ''schemaName'' []))),
      (FQuery, Text (restoredQuery raw draft)),
      (FResultPanelVisible, (case rw_field raw ''resultPanelVisible'' of RawBool b \<Rightarrow> Flag b | _ \<Rightarrow> Undefined)),
      (FQueryMode, (if isObjectEdit raw then Text (js ''object-edit'') else Undefined))]
     @ objectEditIdentity raw
     @ [(FFilePath, textOrUndefined (rawText raw ''filePath'' (ofDraft pd_filePath draft))),
        (FSavedQueryId, textOrUndefined (rawText raw ''savedQueryId'' (ofDraft pd_savedQueryId draft))),
        (FReadOnly, Flag (rw_field raw ''readOnly'' = RawBool True
            \<or> (case draft of None \<Rightarrow> False | Some d \<Rightarrow> pd_readOnly d))),
        (FFormatRestoreSnapshot, restoredSnapshot now raw)]"

definition queryN :: "nat \<Rightarrow> js_string" where
  "queryN index = js ''query-'' @ nat_text (index + 1)"

text \<open>The id an entry names, whether the entry is kept, and the tab it becomes: an id that was seen gets a number.\<close>

definition namedId :: "rawTab \<Rightarrow> nat \<Rightarrow> js_string" where
  "namedId raw index = js_or (rawText raw ''id'' (queryN index)) (queryN index)"

definition keepsTab :: "(js_string \<Rightarrow> persistedDraft option) \<Rightarrow> rawTab \<Rightarrow> nat \<Rightarrow> bool" where
  "keepsTab draftFor raw index \<longleftrightarrow> rw_field raw ''type'' = RawString (js ''query'') \<and>
     (let draft = draftFor (namedId raw index) in
      keepsContent (restoredQuery raw draft) (rawText raw ''filePath'' (ofDraft pd_filePath draft))
        (rawText raw ''savedQueryId'' (ofDraft pd_savedQueryId draft)))"

definition freeId :: "js_string \<Rightarrow> nat \<Rightarrow> js_string list \<Rightarrow> js_string" where
  "freeId i index seen = (if i \<in> set seen then i @ js ''-'' @ nat_text (index + 1) else i)"

definition restoredTab ::
  "js_string \<Rightarrow> int \<Rightarrow> (js_string \<Rightarrow> persistedDraft option) \<Rightarrow> rawTab \<Rightarrow> nat \<Rightarrow> js_string list \<Rightarrow> tabData" where
  "restoredTab newQuery now draftFor raw index seen =
     \<lparr>tb_id = freeId (namedId raw index) index seen, tb_type = js ''query'',
      tb_fields = map_of (restoredFields newQuery now raw (draftFor (namedId raw index)))\<rparr>"

text \<open>The entries in turn, with the ids that were seen; \<open>None\<close> is an entry that is no object.\<close>

fun restoreTabs ::
  "js_string \<Rightarrow> int \<Rightarrow> (js_string \<Rightarrow> persistedDraft option) \<Rightarrow> rawTab option list \<Rightarrow> nat \<Rightarrow> js_string list
     \<Rightarrow> tabData list \<times> js_string list" where
  "restoreTabs newQuery now draftFor [] index seen = ([], seen)"
| "restoreTabs newQuery now draftFor (None # entries) index seen
     = restoreTabs newQuery now draftFor entries (index + 1) seen"
| "restoreTabs newQuery now draftFor (Some raw # entries) index seen =
     (if \<not> keepsTab draftFor raw index then restoreTabs newQuery now draftFor entries (index + 1) seen
      else
        (let tab = restoredTab newQuery now draftFor raw index seen;
             (rest, seen') = restoreTabs newQuery now draftFor entries (index + 1) (tb_id tab # seen) in
         (tab # rest, seen')))"

text \<open>The tab of a draft without one.\<close>

definition draftTab :: "js_string \<Rightarrow> persistedDraft \<Rightarrow> tabData" where
  "draftTab newQuery d =
     \<lparr>tb_id = pd_tabId d, tb_type = js ''query'', tb_fields = map_of
       [(FTitle, Text (js_or (js_trim (pd_title d)) newQuery)), (FConnectionId, Text (js_trim (pd_connectionId d))),
        (FDbName, textOrUndefined (js_trim (pd_dbName d))), (FQuery, Text (take MAX_PERSISTED_QUERY_LENGTH (pd_query d))),
        (FFilePath, textOrUndefined (js_trim (pd_filePath d))),
        (FSavedQueryId, textOrUndefined (js_trim (pd_savedQueryId d))), (FReadOnly, Flag (pd_readOnly d))]\<rparr>"

fun addDraftTabs :: "js_string \<Rightarrow> persistedDraft list \<Rightarrow> js_string list \<Rightarrow> tabData list" where
  "addDraftTabs newQuery [] seen = []"
| "addDraftTabs newQuery (d # drafts) seen =
     (if pd_tabId d \<in> set seen
         \<or> \<not> keepsContent (pd_query d) (js_trim (pd_filePath d)) (js_trim (pd_savedQueryId d))
      then addDraftTabs newQuery drafts seen
      else draftTab newQuery d # addDraftTabs newQuery drafts (pd_tabId d # seen))"

text \<open>
  \<open>None\<close> is a value that is no array. The drafts are read with the module that keeps them, which reads the
  storage first when it has not yet.
\<close>

definition sanitizeQueryTabs ::
  "js_string \<Rightarrow> 's draftEnv \<Rightarrow> int \<Rightarrow> rawTab option list option \<Rightarrow> 's draftStore \<Rightarrow> tabData list \<times> 's draftStore" where
  "sanitizeQueryTabs newQuery env now v page =
     (let draftFor = (\<lambda>i. fst (getPersistedQueryTabDraftEntry env now i page));
          (tabs, seen) = restoreTabs newQuery now draftFor (case v of None \<Rightarrow> [] | Some entries \<Rightarrow> entries) 0 [];
          (drafts, page') = listPersistedQueryTabDraftEntries env now page in
      (take MAX_PERSISTED_QUERY_TABS (tabs @ addDraftTabs newQuery drafts seen), page'))"

definition sanitizeActiveTabId :: "rawValue \<Rightarrow> tabData list \<Rightarrow> js_string option" where
  "sanitizeActiveTabId activeTabId tabs =
     (let i = toTrimmedString_store activeTabId [] in
      if i \<noteq> [] \<and> i \<in> tab_ids tabs then Some i
      else if tabs = [] \<or> tb_id (hd tabs) = [] then None else Some (tb_id (hd tabs)))"

section \<open>The restored tabs\<close>

definition usableTab :: "tabData \<Rightarrow> bool" where
  "usableTab t \<longleftrightarrow> isQueryTab t \<and> clean (tb_id t)
     \<and> keepsContent (fieldText t FQuery) (fieldText t FFilePath) (fieldText t FSavedQueryId)"

text \<open>The ids the persisted query tabs name, before any is changed.\<close>

fun namedIds :: "rawTab option list \<Rightarrow> nat \<Rightarrow> js_string list" where
  "namedIds [] index = []"
| "namedIds (None # entries) index = namedIds entries (index + 1)"
| "namedIds (Some raw # entries) index =
     (if rw_field raw ''type'' = RawString (js ''query'') then namedId raw index # namedIds entries (index + 1)
      else namedIds entries (index + 1))"

lemma queryN_clean: "clean (queryN n)"
  using clean_numbered [of "js ''query-''" "n + 1"] by (simp add: queryN_def js_space_def)

lemma identity_fields [simp]:
  "map_of (objectEditIdentity raw) FQuery = None" "map_of (objectEditIdentity raw) FFilePath = None"
  "map_of (objectEditIdentity raw) FSavedQueryId = None"
  by (simp_all add: objectEditIdentity_def objectEditNames_def)

lemma restored_content:
  "fieldText \<lparr>tb_id = i, tb_type = k, tb_fields = map_of (restoredFields newQuery now raw draft)\<rparr> FQuery
     = restoredQuery raw draft"
  "fieldText \<lparr>tb_id = i, tb_type = k, tb_fields = map_of (restoredFields newQuery now raw draft)\<rparr> FFilePath
     = rawText raw ''filePath'' (ofDraft pd_filePath draft)"
  "fieldText \<lparr>tb_id = i, tb_type = k, tb_fields = map_of (restoredFields newQuery now raw draft)\<rparr> FSavedQueryId
     = rawText raw ''savedQueryId'' (ofDraft pd_savedQueryId draft)"
  by (simp_all add: fieldText_def restoredFields_def map_add_def textOrUndefined_def)

lemma named_id_clean: "clean (namedId raw n)"
proof -
  have "js_trim (queryN n) = queryN n" "queryN n \<noteq> []" using queryN_clean [of n] by (simp_all add: clean_def)
  moreover have "js_trim (js ''true'') = js ''true''" "js_trim (js ''false'') = js ''false''" by code_simp+
  ultimately show ?thesis
    by (auto simp: namedId_def js_or_def clean_def rawText_def toTrimmedString_store_def split: rawValue.split)
qed

lemma free_id_clean:
  assumes i: "clean i"
  shows "clean (freeId i n seen)"
proof -
  from i have "\<not> js_space (hd i)" using js_trim_ends(1) [of i] by (auto simp: clean_def)
  with i show ?thesis using clean_numbered [of "i @ js ''-''" "n + 1"] by (auto simp: clean_def freeId_def)
qed

lemma restored_tab_usable: "keepsTab draftFor raw index \<Longrightarrow> usableTab (restoredTab newQuery now draftFor raw index seen)"
  by (simp add: keepsTab_def usableTab_def restoredTab_def restored_content free_id_clean named_id_clean Let_def)

lemma restored_tabs:
  "restoreTabs newQuery now draftFor entries index seen = (tabs, seen') \<Longrightarrow>
   (\<forall>t\<in>set tabs. usableTab t) \<and> set seen' = set seen \<union> tab_ids tabs"
proof (induction newQuery now draftFor entries index seen arbitrary: tabs seen' rule: restoreTabs.induct)
  case (3 newQuery now draftFor raw entries index seen)
  then show ?case
    by (simp only: restoreTabs.simps Let_def split: if_splits prod.splits) (auto simp: restored_tab_usable)
qed auto

text \<open>With different names for the entries no id is changed, and the tabs have different ids.\<close>

lemma restored_ids:
  "restoreTabs newQuery now draftFor entries index seen = (tabs, seen') \<Longrightarrow>
   distinct (namedIds entries index) \<Longrightarrow> set (namedIds entries index) \<inter> set seen = {} \<Longrightarrow>
   distinct (map tb_id tabs) \<and> tab_ids tabs \<subseteq> set (namedIds entries index)"
proof (induction newQuery now draftFor entries index seen arbitrary: tabs seen' rule: restoreTabs.induct)
  case (3 newQuery now draftFor raw entries index seen)
  show ?case
  proof (cases "keepsTab draftFor raw index")
    case True
    let ?t = "restoredTab newQuery now draftFor raw index seen"
    have names: "namedIds (Some raw # entries) index = namedId raw index # namedIds entries (index + 1)"
      using True by (simp add: keepsTab_def)
    obtain rest where r: "restoreTabs newQuery now draftFor entries (index + 1) (tb_id ?t # seen) = (rest, seen')"
      and tabs: "tabs = ?t # rest" using 3(3) True by (auto simp only: restoreTabs.simps Let_def split: if_splits prod.splits)
    have i: "tb_id ?t = namedId raw index" using 3(5) by (simp only: names) (simp add: restoredTab_def freeId_def)
    have "distinct (map tb_id rest) \<and> tab_ids rest \<subseteq> set (namedIds entries (index + 1))"
      using 3(2) [OF _ refl r] True 3(4,5) by (simp only: names i) auto
    with 3(4) show ?thesis by (simp only: names tabs list.simps distinct.simps i) (auto simp: i)
  next
    case False
    then have "restoreTabs newQuery now draftFor entries (index + 1) seen = (tabs, seen')"
      using 3(3) by (simp only: restoreTabs.simps simp_thms if_True)
    then show ?thesis using 3(1) False 3(4,5) by (fastforce simp only: namedIds.simps distinct.simps list.set split: if_splits)
  qed
qed auto

lemma draft_tab_content:
  "fieldText (draftTab newQuery d) FQuery = take MAX_PERSISTED_QUERY_LENGTH (pd_query d)"
  "fieldText (draftTab newQuery d) FFilePath = js_trim (pd_filePath d)"
  "fieldText (draftTab newQuery d) FSavedQueryId = js_trim (pd_savedQueryId d)"
  by (simp_all add: fieldText_def draftTab_def textOrUndefined_def)

lemma draft_tabs:
  "list_all entry_ok drafts \<Longrightarrow>
   (\<forall>t\<in>set (addDraftTabs newQuery drafts seen). usableTab t)
     \<and> distinct (map tb_id (addDraftTabs newQuery drafts seen))
     \<and> tab_ids (addDraftTabs newQuery drafts seen) \<inter> set seen = {}"
proof (induction newQuery drafts seen rule: addDraftTabs.induct)
  case (2 newQuery d drafts seen)
  have "MAX_PERSISTED_QUERY_LENGTH = QUERY_TAB_DRAFT_SNAPSHOT_MAX_TEXT_LENGTH"
    by (simp only: MAX_PERSISTED_QUERY_LENGTH_def QUERY_TAB_DRAFT_SNAPSHOT_MAX_TEXT_LENGTH_def)
  then have "usableTab (draftTab newQuery d)"
    using 2(3) by (simp add: usableTab_def draft_tab_content) (simp add: entry_ok_def draftTab_def)
  moreover have "tb_id (draftTab newQuery d) = pd_tabId d" by (simp add: draftTab_def)
  ultimately show ?case using 2 by auto
qed simp

lemma listed_ok:
  assumes "json_keeps_entries env" "drafts_ok env page"
  shows "list_all entry_ok (fst (listPersistedQueryTabDraftEntries env now page))"
  using read_ok [OF assms, of now]
  by (auto simp: listPersistedQueryTabDraftEntries_def Let_def drafts_ok_def maps_ok_def keyed_def good_entries_def list_all_iff)

lemma restored_active:
  "list_all usableTab tabs \<Longrightarrow> (case sanitizeActiveTabId v tabs of None \<Rightarrow> tabs = [] | Some i \<Rightarrow> i \<in> tab_ids tabs)"
  by (cases tabs) (auto simp: sanitizeActiveTabId_def Let_def usableTab_def clean_def)

text \<open>
  C30. Restored tabs are usable. Whatever the persisted tabs look like, a start makes of them and of the
  drafts at most twenty query tabs, each with an id without outer white space and with a text, a file or a
  saved query to show; the active tab is one of them, and there is none exactly when no tab is left. When the
  persisted tabs name different ids, so do the restored ones.
\<close>

theorem restored_tabs_are_usable:
  assumes "json_keeps_entries env" "(draftStep env)\<^sup>*\<^sup>* (loadedPage None) page"
    and "tabs = fst (sanitizeQueryTabs newQuery env now v page)"
  shows "length tabs \<le> 20 \<and> list_all usableTab tabs
    \<and> (case sanitizeActiveTabId i tabs of None \<Rightarrow> tabs = [] | Some a \<Rightarrow> a \<in> tab_ids tabs)
    \<and> (distinct (namedIds (case v of None \<Rightarrow> [] | Some entries \<Rightarrow> entries) 0) \<longrightarrow> distinct (map tb_id tabs))"
proof -
  let ?entries = "case v of None \<Rightarrow> [] | Some entries \<Rightarrow> entries"
  let ?find = "\<lambda>i. fst (getPersistedQueryTabDraftEntry env now i page)"
  let ?drafts = "fst (listPersistedQueryTabDraftEntries env now page)"
  have "drafts_ok env page" using drafts_since_start [of env page] assms(1,2) by (simp add: snapshot_def)
  note drafts = listed_ok [OF assms(1) this, of now]
  obtain restored seen where r: "restoreTabs newQuery now ?find ?entries 0 [] = (restored, seen)" by fastforce
  let ?all = "restored @ addDraftTabs newQuery ?drafts seen"
  have tabs: "tabs = take MAX_PERSISTED_QUERY_TABS ?all"
    using r by (simp add: assms(3) sanitizeQueryTabs_def Let_def split: prod.split)
  have "\<forall>t\<in>set ?all. usableTab t" using restored_tabs [OF r] draft_tabs [OF drafts] by auto
  then have usable: "list_all usableTab tabs" unfolding tabs list_all_iff by (meson in_set_takeD)
  have "distinct (map tb_id ?all)" if "distinct (namedIds ?entries 0)"
    using restored_ids [OF r that] restored_tabs [OF r] draft_tabs [OF drafts, of newQuery seen] by auto
  then have "distinct (namedIds ?entries 0) \<longrightarrow> distinct (map tb_id tabs)"
    unfolding tabs take_map [symmetric] by (blast intro: distinct_take)
  then show ?thesis using usable restored_active [OF usable] by (simp add: tabs MAX_PERSISTED_QUERY_TABS_def)
qed

text \<open>A persisted tab without a text finds it in its draft; a draft without a tab gets one.\<close>

definition exampleRaw :: "js_string \<Rightarrow> js_string \<Rightarrow> rawTab" where
  "exampleRaw i query = \<lparr>rw_field = (\<lambda>n. if n = ''type'' then RawString (js ''query'')
     else if n = ''id'' then RawString i else if n = ''query'' then RawString query else RawOther), rw_snapshot = None\<rparr>"

abbreviation exampleTabs :: "tabData list" where
  "exampleTabs \<equiv> fst (sanitizeQueryTabs (js ''New'') plainEnv 9 (Some [Some (exampleRaw (js ''a'') [])]) editedPage)"

theorem restored_tabs_are_usable_witness:
  "list_all usableTab exampleTabs \<and> map tb_id exampleTabs = [js ''a'', js ''b''] \<and> distinct (map tb_id exampleTabs)"
proof -
  have names: "distinct (namedIds (case Some [Some (exampleRaw (js ''a'') [])] of None \<Rightarrow> [] | Some entries \<Rightarrow> entries) 0)"
    and ids: "map tb_id exampleTabs = [js ''a'', js ''b'']" by code_simp+
  from restored_tabs_are_usable [OF plainEnv_law editedPage_reachable refl] names ids show ?thesis by blast
qed

text \<open>
  Names that repeat are not enough: the number an id gets is not looked up, so that two of the tabs of the
  entries \<open>a-3\<close>, \<open>a\<close>, \<open>a\<close> end up with one id.
\<close>

lemma numbered_id_may_be_taken:
  "map tb_id (fst (sanitizeQueryTabs (js ''New'') plainEnv 9
     (Some (map (\<lambda>i. Some (exampleRaw i (js ''select 1''))) [js ''a-3'', js ''a'', js ''a''])) (loadedPage None)))
     = [js ''a-3'', js ''a'', js ''a-3'']"
  by code_simp

section \<open>The ids the workbench knows\<close>

text \<open>
  The workbench keeps of the drafts their ids only: this is what setting and clearing a draft does to the ids.
\<close>

lemma draft_ids:
  assumes "qd_hydrated s" "distinct (jm_keys (qd_drafts s))"
  shows "jm_keys (qd_drafts (setQueryTabDraft env now i content s)) = keepId i (jm_keys (qd_drafts s))"
    and "jm_keys (qd_drafts (clearQueryTabDraft env now accepted i s)) = clearId i (jm_keys (qd_drafts s))"
proof -
  have r: "ensurePersistedDraftsHydrated env now s = s" using assms(1) by (simp add: ensurePersistedDraftsHydrated_def)
  have f: "qd_drafts (schedulePersistedDraftFlush env accepted s') = qd_drafts s'"
    "qd_drafts (notifyQueryTabDraftChanged j s') = qd_drafts s'" for s' j
    by (simp_all add: schedulePersistedDraftFlush_def notifyQueryTabDraftChanged_def Let_def)
  have "jm_get (qd_drafts s) j = Some content \<Longrightarrow> j \<in> set (jm_keys (qd_drafts s))" for j by (metis jm_get_None option.distinct(1))
  then show "jm_keys (qd_drafts (setQueryTabDraft env now i content s)) = keepId i (jm_keys (qd_drafts s))"
    by (auto simp: setQueryTabDraft_def keepId_def r f Let_def jm_set_keys)
  show "jm_keys (qd_drafts (clearQueryTabDraft env now accepted i s)) = clearId i (jm_keys (qd_drafts s))"
    by (simp add: clearQueryTabDraft_def clearId_def r f Let_def jm_delete_keys)
qed

end
