(* ===== verification/ExportTasks.thy ===== *)
theory ExportTasks
  imports JsMap JsText Complex_Main
begin

text \<open>
  Exports in progress (\<open>src/frontend/src/components/exportProgressTaskStore.ts\<close> and the transitions of
  \<open>useExportProgressRunner.ts\<close>): a store of tasks, each with the state of its last export and a log, and a
  map from the job the backend reports on to the task it belongs to. Tasks of a tab are retained when no
  view shows them, up to a limit; the others live as long as they are shown or run.

  A record of the store is reached by its key. Where the code keeps a reference to a record that was dropped
  right after it was made, updates through it change nothing in the store (\<open>updateRecord\<close>). Listeners
  are numbered, each subscription with a number of its own. The clock is a parameter.
\<close>

section \<open>Data\<close>

datatype exportStatus =
  ExIdle | ExStart | ExRunning | ExFinalizing | ExCancelling | ExDone | ExError | ExCancelled

datatype logSource = FromClient | FromBackend | FromResult

text \<open>An event of the backend; a number is \<open>None\<close> when it is not finite.\<close>

record exportEvent =
  ee_jobId :: js_string
  ee_status :: "exportStatus option"
  ee_stage :: "js_string option"
  ee_current :: "rat option option"
  ee_total :: "rat option option"
  ee_totalRowsKnown :: "bool option"
  ee_format :: "js_string option"
  ee_targetName :: "js_string option"
  ee_filePath :: "js_string option"
  ee_message :: "js_string option"

record exportState =
  es_open :: bool
  es_jobId :: js_string
  es_title :: js_string
  es_targetName :: js_string
  es_format :: js_string
  es_startedAt :: int
  es_finishedAt :: int
  es_status :: exportStatus
  es_stage :: js_string
  es_current :: int
  es_total :: int
  es_totalRowsKnown :: bool
  es_filePath :: js_string
  es_message :: js_string
  es_requestKey :: js_string

record exportLog =
  el_sequence :: nat
  el_timestamp :: int
  el_jobId :: js_string
  el_source :: logSource
  el_status :: exportStatus
  el_stage :: js_string
  el_current :: int
  el_total :: int
  el_totalRowsKnown :: bool
  el_filePath :: js_string
  el_message :: js_string

record taskRecord =
  tr_state :: exportState
  tr_logs :: "exportLog list"
  tr_listeners :: "nat list"
  tr_retainAfterUnmount :: bool
  tr_nextLogSequence :: nat
  tr_lastAccessSequence :: nat

definition EXPORT_PROGRESS_TASK_LOG_LIMIT :: nat where
  "EXPORT_PROGRESS_TASK_LOG_LIMIT = 200"

definition EXPORT_PROGRESS_RETAINED_TASK_LIMIT :: nat where
  "EXPORT_PROGRESS_RETAINED_TASK_LIMIT = 100"

record taskStore =
  ts_records :: "(js_string, taskRecord) js_map"
  ts_taskKeyByJobId :: "(js_string, js_string) js_map"
  ts_listening :: bool
  ts_ephemeral :: nat
  ts_access :: nat

definition emptyTaskStore :: taskStore where
  "emptyTaskStore = \<lparr>ts_records = [], ts_taskKeyByJobId = [], ts_listening = False, ts_ephemeral = 0, ts_access = 0\<rparr>"

definition createInitialExportProgressState :: exportState where
  "createInitialExportProgressState =
     \<lparr>es_open = False, es_jobId = [], es_title = [], es_targetName = [], es_format = [], es_startedAt = 0,
      es_finishedAt = 0, es_status = ExIdle, es_stage = [], es_current = 0, es_total = 0, es_totalRowsKnown = False,
      es_filePath = [], es_message = [], es_requestKey = []\<rparr>"

definition createEphemeralExportProgressTaskKey :: "taskStore \<Rightarrow> js_string \<times> taskStore" where
  "createEphemeralExportProgressTaskKey s =
     (js ''__export-progress-ephemeral-'' @ nat_text (ts_ephemeral s + 1), s\<lparr>ts_ephemeral := ts_ephemeral s + 1\<rparr>)"

definition normalizeCount :: "rat option \<Rightarrow> int" where
  "normalizeCount v = (case v of None \<Rightarrow> 0 | Some r \<Rightarrow> if r < 0 then 0 else \<lfloor>r\<rfloor>)"

definition hasUsableTotalRows :: "bool \<Rightarrow> int \<Rightarrow> bool" where
  "hasUsableTotalRows known rows \<longleftrightarrow> known \<and> normalizeCount (Some (of_int rows)) > 0"

definition isActiveExportStatus :: "exportStatus \<Rightarrow> bool" where
  "isActiveExportStatus status \<longleftrightarrow> status \<in> {ExStart, ExRunning, ExFinalizing, ExCancelling}"

definition isTerminalExportStatus :: "exportStatus \<Rightarrow> bool" where
  "isTerminalExportStatus status \<longleftrightarrow> status \<in> {ExDone, ExError, ExCancelled}"

section \<open>Records\<close>

definition updateRecord :: "js_string \<Rightarrow> (taskRecord \<Rightarrow> taskRecord) \<Rightarrow> taskStore \<Rightarrow> taskStore" where
  "updateRecord k f s =
     (case jm_get (ts_records s) k of None \<Rightarrow> s | Some r \<Rightarrow> s\<lparr>ts_records := jm_set (ts_records s) k (f r)\<rparr>)"

definition touchTaskRecord :: "js_string \<Rightarrow> taskStore \<Rightarrow> taskStore" where
  "touchTaskRecord k s =
     updateRecord k (\<lambda>r. r\<lparr>tr_lastAccessSequence := ts_access s + 1\<rparr>) (s\<lparr>ts_access := ts_access s + 1\<rparr>)"

definition prunable :: "taskStore \<Rightarrow> taskRecord \<Rightarrow> bool" where
  "prunable s r \<longleftrightarrow> tr_listeners r = [] \<and> \<not> isActiveExportStatus (es_status (tr_state r))
     \<and> (es_jobId (tr_state r) = [] \<or> jm_get (ts_taskKeyByJobId s) (es_jobId (tr_state r)) = None)"

definition pruneRetainedTaskRecords :: "taskStore \<Rightarrow> taskStore" where
  "pruneRetainedTaskRecords s =
     (let retained = filter (\<lambda>(k, r). tr_retainAfterUnmount r) (ts_records s);
          overflow = length retained - EXPORT_PROGRESS_RETAINED_TASK_LIMIT;
          candidates = js_sort (\<lambda>a b. int (tr_lastAccessSequence (snd a)) - int (tr_lastAccessSequence (snd b)))
            (filter (\<lambda>(k, r). prunable s r) retained) in
      s\<lparr>ts_records := fold (\<lambda>(k, r) m. jm_delete m k) (take overflow candidates) (ts_records s)\<rparr>)"

definition freshRecord :: "bool \<Rightarrow> taskRecord" where
  "freshRecord retain = \<lparr>tr_state = createInitialExportProgressState, tr_logs = [], tr_listeners = [],
     tr_retainAfterUnmount = retain, tr_nextLogSequence = 1, tr_lastAccessSequence = 0\<rparr>"

text \<open>The record of a key, made when there is none; it comes back with the store.\<close>

definition getOrCreateTaskRecord :: "js_string \<Rightarrow> bool \<Rightarrow> taskStore \<Rightarrow> taskRecord \<times> taskStore" where
  "getOrCreateTaskRecord taskKey retain s =
     (let k = js_trim taskKey in
      case jm_get (ts_records s) k of
        Some r \<Rightarrow>
          (let s1 = touchTaskRecord k (updateRecord k (\<lambda>r. if retain then r\<lparr>tr_retainAfterUnmount := True\<rparr> else r) s) in
           (r, s1))
      | None \<Rightarrow>
          (let s1 = touchTaskRecord k (s\<lparr>ts_records := jm_set (ts_records s) k (freshRecord retain)\<rparr>) in
           (freshRecord retain, pruneRetainedTaskRecords s1)))"

definition buildLogEntry :: "int \<Rightarrow> nat \<Rightarrow> exportState \<Rightarrow> logSource \<Rightarrow> exportLog" where
  "buildLogEntry now sequence st src =
     \<lparr>el_sequence = sequence, el_timestamp = now, el_jobId = es_jobId st, el_source = src, el_status = es_status st,
      el_stage = es_stage st, el_current = es_current st, el_total = es_total st,
      el_totalRowsKnown = es_totalRowsKnown st, el_filePath = es_filePath st, el_message = es_message st\<rparr>"

text \<open>\<open>xs.slice(-n)\<close>\<close>

definition lastEntries :: "nat \<Rightarrow> 'a list \<Rightarrow> 'a list" where
  "lastEntries n xs = drop (length xs - n) xs"

definition publishTaskState :: "int \<Rightarrow> js_string \<Rightarrow> exportState \<Rightarrow> logSource option \<Rightarrow> taskStore \<Rightarrow> taskStore" where
  "publishTaskState now k st src s =
     updateRecord k (\<lambda>r. case src of
         None \<Rightarrow> r\<lparr>tr_state := st\<rparr>
       | Some from \<Rightarrow>
           r\<lparr>tr_state := st,
             tr_logs := lastEntries EXPORT_PROGRESS_TASK_LOG_LIMIT
               (tr_logs r @ [buildLogEntry now (tr_nextLogSequence r) st from]),
             tr_nextLogSequence := tr_nextLogSequence r + 1\<rparr>) (touchTaskRecord k s)"

definition clearLogs :: "js_string \<Rightarrow> taskStore \<Rightarrow> taskStore" where
  "clearLogs k = updateRecord k (\<lambda>r. r\<lparr>tr_logs := [], tr_nextLogSequence := 1\<rparr>)"

definition hasTaskSubscribers :: "taskStore \<Rightarrow> bool" where
  "hasTaskSubscribers s \<longleftrightarrow> list_ex (\<lambda>(k, r). tr_listeners r \<noteq> []) (ts_records s)"

definition deleteUnusedEphemeralTask :: "js_string \<Rightarrow> taskStore \<Rightarrow> taskStore" where
  "deleteUnusedEphemeralTask taskKey s =
     (let k = js_trim taskKey in
      case jm_get (ts_records s) k of None \<Rightarrow> s
      | Some r \<Rightarrow>
          if tr_retainAfterUnmount r \<or> tr_listeners r \<noteq> [] then s
          else if es_jobId (tr_state r) \<noteq> [] \<and> jm_get (ts_taskKeyByJobId s) (es_jobId (tr_state r)) \<noteq> None then s
          else s\<lparr>ts_records := jm_delete (ts_records s) k\<rparr>)"

definition maybeStopRuntimeListener :: "taskStore \<Rightarrow> taskStore" where
  "maybeStopRuntimeListener s =
     (if ts_taskKeyByJobId s \<noteq> [] \<or> hasTaskSubscribers s then s else s\<lparr>ts_listening := False\<rparr>)"

text \<open>The job no longer leads to the task.\<close>

definition forgetJob :: "js_string \<Rightarrow> js_string \<Rightarrow> taskStore \<Rightarrow> taskStore" where
  "forgetJob taskKey jobId s =
     (if jm_get (ts_taskKeyByJobId s) jobId = Some taskKey
      then s\<lparr>ts_taskKeyByJobId := jm_delete (ts_taskKeyByJobId s) jobId\<rparr> else s)"

definition releaseJob :: "js_string \<Rightarrow> js_string \<Rightarrow> taskStore \<Rightarrow> taskStore" where
  "releaseJob taskKey jobId s =
     maybeStopRuntimeListener (pruneRetainedTaskRecords (deleteUnusedEphemeralTask taskKey (forgetJob taskKey jobId s)))"

section \<open>Progress from the backend\<close>

definition textOr :: "js_string option \<Rightarrow> (js_string \<Rightarrow> js_string) \<Rightarrow> js_string \<Rightarrow> js_string" where
  "textOr given f old = (case given of None \<Rightarrow> old | Some t \<Rightarrow> if js_trim t \<noteq> [] then f t else old)"

definition countOr :: "rat option option \<Rightarrow> int \<Rightarrow> int" where
  "countOr given old = normalizeCount (case given of None \<Rightarrow> Some (of_int old) | Some n \<Rightarrow> n)"

definition progressState :: "int \<Rightarrow> exportEvent \<Rightarrow> exportState \<Rightarrow> exportState" where
  "progressState now event prev =
     (let incomingStatus = (case ee_status event of None \<Rightarrow> es_status prev | Some st \<Rightarrow> st);
          nextStatus = (if es_status prev = ExCancelling \<and> incomingStatus \<noteq> ExDone then ExCancelling else incomingStatus);
          nextStartedAt = (if es_startedAt prev > 0 \<or> nextStatus = ExIdle then es_startedAt prev else now);
          rawNextTotal = countOr (ee_total event) (es_total prev);
          requestedTotalRowsKnown = (case ee_totalRowsKnown event of None \<Rightarrow> es_totalRowsKnown prev | Some b \<Rightarrow> b);
          nextTotalRowsKnown = hasUsableTotalRows requestedTotalRowsKnown rawNextTotal in
      prev\<lparr>es_open := True, es_startedAt := nextStartedAt, es_status := nextStatus,
           es_finishedAt := (if isTerminalExportStatus nextStatus
             then (if es_finishedAt prev \<noteq> 0 then es_finishedAt prev else now) else es_finishedAt prev),
           es_stage := textOr (ee_stage event) js_trim (es_stage prev),
           es_current := countOr (ee_current event) (es_current prev),
           es_total := (if nextTotalRowsKnown then rawNextTotal else 0), es_totalRowsKnown := nextTotalRowsKnown,
           es_format := textOr (ee_format event) js_upper (es_format prev),
           es_targetName := textOr (ee_targetName event) js_trim (es_targetName prev),
           es_filePath := textOr (ee_filePath event) js_trim (es_filePath prev),
           es_message := (case ee_message event of None \<Rightarrow> es_message prev | Some m \<Rightarrow> m)\<rparr>)"

definition applyBackendProgress :: "int \<Rightarrow> exportEvent \<Rightarrow> taskStore \<Rightarrow> taskStore" where
  "applyBackendProgress now event s =
     (let jobId = js_trim (ee_jobId event) in
      case jm_get (ts_taskKeyByJobId s) jobId of None \<Rightarrow> s
      | Some taskKey \<Rightarrow>
          if taskKey = [] then s
          else (case jm_get (ts_records s) taskKey of None \<Rightarrow> s
          | Some r \<Rightarrow>
              if es_jobId (tr_state r) \<noteq> jobId then s
              else
                (let next = progressState now event (tr_state r);
                     s1 = publishTaskState now taskKey next (Some FromBackend) s in
                 if isTerminalExportStatus (es_status next) then releaseJob taskKey jobId s1 else s1)))"

section \<open>Operations\<close>

definition getExportProgressTaskSnapshot ::
  "js_string \<Rightarrow> bool \<Rightarrow> taskStore \<Rightarrow> (exportState \<times> exportLog list) \<times> taskStore" where
  "getExportProgressTaskSnapshot taskKey retain s =
     (let (r, s1) = getOrCreateTaskRecord taskKey retain s in ((tr_state r, tr_logs r), s1))"

definition subscribeExportProgressTask :: "js_string \<Rightarrow> nat \<Rightarrow> bool \<Rightarrow> taskStore \<Rightarrow> taskStore" where
  "subscribeExportProgressTask taskKey listener retain s =
     (let k = js_trim taskKey; s1 = snd (getOrCreateTaskRecord k retain s) in
      (updateRecord k (\<lambda>r. r\<lparr>tr_listeners := List.insert listener (tr_listeners r)\<rparr>) s1)\<lparr>ts_listening := True\<rparr>)"

definition unsubscribeExportProgressTask :: "js_string \<Rightarrow> nat \<Rightarrow> taskStore \<Rightarrow> taskStore" where
  "unsubscribeExportProgressTask taskKey listener s =
     (let k = js_trim taskKey in
      maybeStopRuntimeListener (deleteUnusedEphemeralTask k
        (updateRecord k (\<lambda>r. r\<lparr>tr_listeners := filter (\<lambda>l. l \<noteq> listener) (tr_listeners r)\<rparr>) s)))"

definition isExportProgressTaskRunning :: "js_string \<Rightarrow> taskStore \<Rightarrow> bool \<times> taskStore" where
  "isExportProgressTaskRunning taskKey s =
     (let (r, s1) = getOrCreateTaskRecord taskKey False s in (isActiveExportStatus (es_status (tr_state r)), s1))"

definition cancelExportProgressTask :: "int \<Rightarrow> js_string \<Rightarrow> taskStore \<Rightarrow> bool \<times> taskStore" where
  "cancelExportProgressTask now taskKey s =
     (let k = js_trim taskKey in
      case jm_get (ts_records s) k of None \<Rightarrow> (False, s)
      | Some r \<Rightarrow>
          if \<not> isActiveExportStatus (es_status (tr_state r)) then (False, s)
          else if es_status (tr_state r) = ExCancelling then (True, s)
          else (True, publishTaskState now k ((tr_state r)\<lparr>es_status := ExCancelling\<rparr>) (Some FromClient) s))"

definition revertCancelExportProgressTask :: "int \<Rightarrow> js_string \<Rightarrow> taskStore \<Rightarrow> bool \<times> taskStore" where
  "revertCancelExportProgressTask now taskKey s =
     (let k = js_trim taskKey in
      case jm_get (ts_records s) k of None \<Rightarrow> (False, s)
      | Some r \<Rightarrow>
          if es_status (tr_state r) \<noteq> ExCancelling then (False, s)
          else (True, publishTaskState now k ((tr_state r)\<lparr>es_status := ExRunning\<rparr>) (Some FromClient) s))"

definition startExportProgressTask ::
  "int \<Rightarrow> js_string \<Rightarrow> exportState \<Rightarrow> bool \<Rightarrow> taskStore \<Rightarrow> bool \<times> taskStore" where
  "startExportProgressTask now taskKey st retain s =
     (let k = js_trim taskKey; (r, s1) = getOrCreateTaskRecord k retain s; jobId = js_trim (es_jobId st) in
      if isActiveExportStatus (es_status (tr_state r)) \<or> jobId = [] then (False, s1)
      else
        (let previousJobId = es_jobId (tr_state r);
             s2 = (if previousJobId \<noteq> [] then forgetJob k previousJobId s1 else s1);
             s3 = (clearLogs k s2)\<lparr>ts_taskKeyByJobId := jm_set (ts_taskKeyByJobId s2) jobId k, ts_listening := True\<rparr> in
         (True, publishTaskState now k st (Some FromClient) s3)))"

definition consumeExportProgressTaskRequest :: "int \<Rightarrow> js_string \<Rightarrow> js_string \<Rightarrow> taskStore \<Rightarrow> bool \<times> taskStore" where
  "consumeExportProgressTaskRequest now taskKey requestKey s =
     (let k = js_trim taskKey; key = js_trim requestKey in
      case jm_get (ts_records s) k of None \<Rightarrow> (False, s)
      | Some r \<Rightarrow>
          if key = [] \<or> \<not> isActiveExportStatus (es_status (tr_state r)) then (False, s)
          else if es_requestKey (tr_state r) = key then (True, s)
          else (True, publishTaskState now k ((tr_state r)\<lparr>es_requestKey := key\<rparr>) None s))"

definition finishExportProgressTask ::
  "int \<Rightarrow> js_string \<Rightarrow> js_string \<Rightarrow> (exportState \<Rightarrow> exportState) \<Rightarrow> taskStore \<Rightarrow> taskStore" where
  "finishExportProgressTask now taskKey jobId f s =
     (let k = js_trim taskKey in
      case jm_get (ts_records s) k of None \<Rightarrow> s
      | Some r \<Rightarrow>
          if es_jobId (tr_state r) \<noteq> jobId then s
          else releaseJob k jobId (publishTaskState now k (f (tr_state r)) (Some FromResult) s))"

definition resetExportProgressTask :: "int \<Rightarrow> js_string \<Rightarrow> taskStore \<Rightarrow> taskStore" where
  "resetExportProgressTask now taskKey s =
     (let k = js_trim taskKey; (r, s1) = getOrCreateTaskRecord k False s; jobId = es_jobId (tr_state r);
          s2 = (if jobId \<noteq> [] then forgetJob k jobId s1 else s1);
          s3 = publishTaskState now k createInitialExportProgressState None (clearLogs k s2) in
      maybeStopRuntimeListener (pruneRetainedTaskRecords (deleteUnusedEphemeralTask k s3)))"

section \<open>The runner\<close>

text \<open>What \<open>runExportWithProgress\<close> starts with, and the updates it ends with.\<close>

definition runnerStart ::
  "js_string \<Rightarrow> js_string \<Rightarrow> js_string \<Rightarrow> js_string \<Rightarrow> rat option \<Rightarrow> js_string \<Rightarrow> js_string \<Rightarrow> exportState" where
  "runnerStart jobId title targetName format totalRows waitingStage requestKey =
     (let requestedTotal = normalizeCount totalRows;
          known = hasUsableTotalRows (case totalRows of None \<Rightarrow> False | Some r \<Rightarrow> 0 \<le> r) requestedTotal in
      \<lparr>es_open = True, es_jobId = jobId, es_title = title, es_targetName = js_trim targetName,
       es_format = js_upper (js_trim format), es_startedAt = 0, es_finishedAt = 0, es_status = ExStart,
       es_stage = waitingStage, es_current = 0, es_total = (if known then requestedTotal else 0),
       es_totalRowsKnown = known, es_filePath = [], es_message = [], es_requestKey = requestKey\<rparr>)"

text \<open>
  How a run ends: with success, cancelled while it ran, with an error (also one that was thrown), or
  cancelled in the dialog before it ran. The titles are translated.
\<close>

datatype runOutcome = RunSucceeded | RunCancelled js_string | RunFailed js_string | RunDismissed

definition finishedState :: "int \<Rightarrow> exportStatus \<Rightarrow> js_string \<Rightarrow> js_string \<Rightarrow> exportState \<Rightarrow> exportState" where
  "finishedState now status title msg prev =
     prev\<lparr>es_open := True, es_status := status,
          es_finishedAt := (if es_finishedAt prev \<noteq> 0 then es_finishedAt prev else now),
          es_stage := js_or (es_stage prev) title, es_message := msg\<rparr>"

definition finishRun :: "(exportStatus \<Rightarrow> js_string) \<Rightarrow> int \<Rightarrow> js_string \<Rightarrow> js_string \<Rightarrow> runOutcome \<Rightarrow> taskStore \<Rightarrow> taskStore" where
  "finishRun title now taskKey jobId outcome s =
     (case outcome of
        RunSucceeded \<Rightarrow> finishExportProgressTask now taskKey jobId
          (\<lambda>prev. (finishedState now ExDone (title ExDone) [] prev)
            \<lparr>es_current := (if es_totalRowsKnown prev then max (es_current prev) (es_total prev) else es_current prev)\<rparr>) s
      | RunCancelled msg \<Rightarrow> finishExportProgressTask now taskKey jobId (finishedState now ExCancelled (title ExCancelled) msg) s
      | RunFailed msg \<Rightarrow> finishExportProgressTask now taskKey jobId (finishedState now ExError (title ExError) msg) s
      | RunDismissed \<Rightarrow> resetExportProgressTask now taskKey s)"

section \<open>Steps\<close>

text \<open>What can happen, each with the task it happens to (for progress, the task of the job).\<close>

datatype exportAction =
  Look js_string bool | Subscribe js_string nat bool | Unsubscribe js_string nat | Cancel js_string | RevertCancel js_string
| StartExport js_string exportState bool | Consume js_string js_string | FinishExport js_string js_string "exportState \<Rightarrow> exportState"
| ResetExport js_string | Progress exportEvent | NewEphemeral

fun exportStep :: "int \<Rightarrow> exportAction \<Rightarrow> taskStore \<Rightarrow> taskStore" where
  "exportStep now (Look k retain) s = snd (getExportProgressTaskSnapshot k retain s)"
| "exportStep now (Subscribe k l retain) s = subscribeExportProgressTask k l retain s"
| "exportStep now (Unsubscribe k l) s = unsubscribeExportProgressTask k l s"
| "exportStep now (Cancel k) s = snd (cancelExportProgressTask now k s)"
| "exportStep now (RevertCancel k) s = snd (revertCancelExportProgressTask now k s)"
| "exportStep now (StartExport k st retain) s = snd (startExportProgressTask now k st retain s)"
| "exportStep now (Consume k key) s = snd (consumeExportProgressTaskRequest now k key s)"
| "exportStep now (FinishExport k jobId f) s = finishExportProgressTask now k jobId f s"
| "exportStep now (ResetExport k) s = resetExportProgressTask now k s"
| "exportStep now (Progress event) s = applyBackendProgress now event s"
| "exportStep now NewEphemeral s = snd (createEphemeralExportProgressTaskKey s)"

inductive exportRun :: "taskStore \<Rightarrow> taskStore \<Rightarrow> bool" where
  er_none: "exportRun s s"
| er_step: "exportRun s s' \<Longrightarrow> exportRun s (exportStep now a s')"

end
