(* ===== verification/ExportTasksProps.thy ===== *)
theory ExportTasksProps
  imports ExportTasks
begin

text \<open>
  The store of exports: its maps and logs stay in order, it listens to the backend as long as anybody
  needs it, a task that is shown or runs is not touched by what happens to others, and an export that has
  ended stays ended.
\<close>

section \<open>Reading after writing\<close>

lemma update_frame [simp]:
  "ts_taskKeyByJobId (updateRecord k f s) = ts_taskKeyByJobId s" "ts_listening (updateRecord k f s) = ts_listening s"
  "ts_access (updateRecord k f s) = ts_access s" "ts_ephemeral (updateRecord k f s) = ts_ephemeral s"
  by (simp_all add: updateRecord_def split: option.split)

lemma update_get [simp]:
  "jm_get (ts_records (updateRecord k f s)) k'
     = (if k' = k then map_option f (jm_get (ts_records s) k) else jm_get (ts_records s) k')"
  by (simp add: updateRecord_def jm_get_set split: option.split)

lemma update_keys [simp]: "jm_keys (ts_records (updateRecord k f s)) = jm_keys (ts_records s)"
  using jm_get_None [of "ts_records s" k] by (auto simp: updateRecord_def jm_set_keys split: option.split)

lemma touch_frame [simp]:
  "ts_taskKeyByJobId (touchTaskRecord k s) = ts_taskKeyByJobId s" "ts_listening (touchTaskRecord k s) = ts_listening s"
  "jm_keys (ts_records (touchTaskRecord k s)) = jm_keys (ts_records s)"
  by (simp_all add: touchTaskRecord_def)

lemma touch_get [simp]:
  "jm_get (ts_records (touchTaskRecord k s)) k' = (if k' = k
     then map_option (\<lambda>r. r\<lparr>tr_lastAccessSequence := ts_access s + 1\<rparr>) (jm_get (ts_records s) k) else jm_get (ts_records s) k')"
  by (simp add: touchTaskRecord_def)

lemma publish_frame [simp]:
  "ts_taskKeyByJobId (publishTaskState now k st src s) = ts_taskKeyByJobId s"
  "ts_listening (publishTaskState now k st src s) = ts_listening s"
  by (simp_all add: publishTaskState_def)

lemma publish_other [simp]:
  "k' \<noteq> k \<Longrightarrow> jm_get (ts_records (publishTaskState now k st src s)) k' = jm_get (ts_records s) k'"
  by (simp add: publishTaskState_def)

lemma publish_state:
  "map_option tr_state (jm_get (ts_records (publishTaskState now k st src s)) k)
     = map_option (\<lambda>_. st) (jm_get (ts_records s) k)"
  by (cases "jm_get (ts_records s) k") (simp_all add: publishTaskState_def split: option.split)

lemma clear_frame [simp]:
  "ts_taskKeyByJobId (clearLogs k s) = ts_taskKeyByJobId s" "ts_listening (clearLogs k s) = ts_listening s"
  by (simp_all add: clearLogs_def)

lemma clear_other [simp]: "k' \<noteq> k \<Longrightarrow> jm_get (ts_records (clearLogs k s)) k' = jm_get (ts_records s) k'"
  by (simp add: clearLogs_def)

lemma clear_state [simp]:
  "map_option tr_state (jm_get (ts_records (clearLogs k s)) k) = map_option tr_state (jm_get (ts_records s) k)"
  by (cases "jm_get (ts_records s) k") (simp_all add: clearLogs_def)

lemma forget_frame [simp]:
  "ts_records (forgetJob k j s) = ts_records s" "ts_listening (forgetJob k j s) = ts_listening s"
  by (simp_all add: forgetJob_def)

lemma forget_get:
  "jm_get (ts_taskKeyByJobId (forgetJob k j s)) j'
     = (if j' = j \<and> jm_get (ts_taskKeyByJobId s) j = Some k then None else jm_get (ts_taskKeyByJobId s) j')"
  by (simp add: forgetJob_def jm_get_delete)

lemma stop_frame [simp]:
  "ts_records (maybeStopRuntimeListener s) = ts_records s"
  "ts_taskKeyByJobId (maybeStopRuntimeListener s) = ts_taskKeyByJobId s"
  by (simp_all add: maybeStopRuntimeListener_def)

lemma delete_frame [simp]:
  "ts_taskKeyByJobId (deleteUnusedEphemeralTask k s) = ts_taskKeyByJobId s"
  "ts_listening (deleteUnusedEphemeralTask k s) = ts_listening s"
  by (simp_all add: deleteUnusedEphemeralTask_def Let_def split: option.split)

lemma delete_other [simp]:
  "k' \<noteq> js_trim k \<Longrightarrow> jm_get (ts_records (deleteUnusedEphemeralTask k s)) k' = jm_get (ts_records s) k'"
  by (simp add: deleteUnusedEphemeralTask_def Let_def jm_get_delete split: option.split)

lemma delete_get:
  "jm_get (ts_records (deleteUnusedEphemeralTask k s)) k' \<in> {None, jm_get (ts_records s) k'}"
  by (simp add: deleteUnusedEphemeralTask_def Let_def jm_get_delete split: option.split)

lemma prune_frame [simp]:
  "ts_taskKeyByJobId (pruneRetainedTaskRecords s) = ts_taskKeyByJobId s"
  "ts_listening (pruneRetainedTaskRecords s) = ts_listening s"
  by (simp_all add: pruneRetainedTaskRecords_def Let_def)

lemma fold_delete: "jm_get (fold (\<lambda>(k, r) m. jm_delete m k) es m) k' = (if k' \<in> fst ` set es then None else jm_get m k')"
  by (induction es arbitrary: m) (auto simp: jm_get_delete)

lemma prune_get:
  "jm_get (ts_records (pruneRetainedTaskRecords s)) k' \<in> {None, jm_get (ts_records s) k'}"
  by (simp add: pruneRetainedTaskRecords_def Let_def fold_delete)

text \<open>Pruning drops none of the tasks that are shown or run.\<close>

lemma prune_keeps:
  assumes "distinct (jm_keys (ts_records s))" "jm_get (ts_records s) k = Some r" "\<not> prunable s r"
  shows "jm_get (ts_records (pruneRetainedTaskRecords s)) k = Some r"
proof -
  have "k \<notin> fst ` set (take n (js_sort cmp (filter (\<lambda>(k, r). prunable s r) (filter P (ts_records s)))))" for n cmp P
  proof
    assume "k \<in> fst ` set (take n (js_sort cmp (filter (\<lambda>(k, r). prunable s r) (filter P (ts_records s)))))"
    then obtain r' where "(k, r') \<in> set (ts_records s)" "prunable s r'" by (auto dest!: in_set_takeD)
    then show False using assms(2,3) by (simp flip: jm_get_entry [OF assms(1)])
  qed
  with assms(2) show ?thesis by (simp add: pruneRetainedTaskRecords_def Let_def fold_delete)
qed

section \<open>The invariant\<close>

text \<open>The log ends with the number before the next one and has no gaps.\<close>

definition log_ok :: "taskRecord \<Rightarrow> bool" where
  "log_ok r \<longleftrightarrow> length (tr_logs r) \<le> EXPORT_PROGRESS_TASK_LOG_LIMIT \<and> length (tr_logs r) < tr_nextLogSequence r
     \<and> map el_sequence (tr_logs r) = [tr_nextLogSequence r - length (tr_logs r) ..< tr_nextLogSequence r]"

definition needed :: "taskStore \<Rightarrow> bool" where
  "needed s \<longleftrightarrow> ts_taskKeyByJobId s \<noteq> [] \<or> (\<exists>x\<in>set (ts_records s). tr_listeners (snd x) \<noteq> [])"

definition tasks_ok :: "taskStore \<Rightarrow> bool" where
  "tasks_ok s \<longleftrightarrow> distinct (jm_keys (ts_records s)) \<and> (\<forall>x\<in>set (ts_records s). log_ok (snd x))
     \<and> jm_get (ts_taskKeyByJobId s) [] = None \<and> (\<forall>x\<in>set (ts_taskKeyByJobId s). js_trim (snd x) = snd x)
     \<and> (needed s \<longrightarrow> ts_listening s)"

lemma subscribers: "hasTaskSubscribers s \<longleftrightarrow> (\<exists>x\<in>set (ts_records s). tr_listeners (snd x) \<noteq> [])"
  by (force simp: hasTaskSubscribers_def list_ex_iff)

lemma log_next:
  assumes "log_ok r"
  shows "log_ok (r\<lparr>tr_state := st, tr_logs := lastEntries EXPORT_PROGRESS_TASK_LOG_LIMIT
      (tr_logs r @ [buildLogEntry now (tr_nextLogSequence r) st src]), tr_nextLogSequence := tr_nextLogSequence r + 1\<rparr>)"
proof -
  define n len where "n = tr_nextLogSequence r" and "len = length (tr_logs r)"
  define e d where "e = buildLogEntry now n st src" and "d = len + 1 - EXPORT_PROGRESS_TASK_LOG_LIMIT"
  have r: "len < n" "map el_sequence (tr_logs r) = [n - len ..< n]" using assms by (simp_all add: log_ok_def n_def len_def)
  then have "map el_sequence (tr_logs r @ [e]) = [n - len ..< n + 1]" by (simp add: e_def buildLogEntry_def)
  then have "map el_sequence (drop d (tr_logs r @ [e])) = [n - len + d ..< n + 1]" by (metis drop_map drop_upt)
  moreover have "n - len + d = n + 1 - (len + 1 - d)" "len + 1 - d \<le> EXPORT_PROGRESS_TASK_LOG_LIMIT" "len + 1 - d < n + 1"
    using r(1) by (auto simp: d_def EXPORT_PROGRESS_TASK_LOG_LIMIT_def)
  moreover have "length (drop d (tr_logs r @ [e])) = len + 1 - d" by (simp add: len_def)
  moreover have "lastEntries EXPORT_PROGRESS_TASK_LOG_LIMIT (tr_logs r @ [e]) = drop d (tr_logs r @ [e])"
    by (simp add: lastEntries_def d_def len_def)
  ultimately show ?thesis unfolding log_ok_def n_def [symmetric] e_def [symmetric] by (simp only: taskRecord.simps) simp
qed

lemma records_update:
  "x \<in> set (ts_records (updateRecord k f s)) \<Longrightarrow> x \<in> set (ts_records s) \<or> (\<exists>r. (k, r) \<in> set (ts_records s) \<and> x = (k, f r))"
  using jm_set_entries by (fastforce simp: updateRecord_def jm_get_def split: option.splits dest: map_of_SomeD)

lemma update_ok:
  assumes "tasks_ok s" "\<And>r. log_ok r \<Longrightarrow> log_ok (f r)" "\<And>r. tr_listeners (f r) \<noteq> [] \<Longrightarrow> tr_listeners r \<noteq> []"
  shows "tasks_ok (updateRecord k f s)"
proof -
  have "\<exists>y\<in>set (ts_records s). tr_listeners (snd y) \<noteq> []"
    if "x \<in> set (ts_records (updateRecord k f s))" "tr_listeners (snd x) \<noteq> []" for x
    using records_update [OF that(1)] that(2) assms(3) by (metis snd_conv)
  then have "needed (updateRecord k f s) \<Longrightarrow> needed s" by (auto simp: needed_def)
  moreover have "\<forall>x\<in>set (ts_records (updateRecord k f s)). log_ok (snd x)"
    using assms(1,2) by (fastforce simp: tasks_ok_def dest: records_update)
  ultimately show ?thesis using assms(1) by (simp add: tasks_ok_def)
qed

lemma listen_ok:
  assumes "tasks_ok s" "\<And>r. log_ok r \<Longrightarrow> log_ok (f r)"
  shows "tasks_ok ((updateRecord k f s)\<lparr>ts_listening := True\<rparr>)"
  using assms by (fastforce simp: tasks_ok_def dest: records_update)

lemma fewer_ok:
  assumes "tasks_ok s" "set (ts_records s') \<subseteq> set (ts_records s)" "distinct (jm_keys (ts_records s'))"
    and "ts_taskKeyByJobId s' = ts_taskKeyByJobId s" "ts_listening s' = ts_listening s"
  shows "tasks_ok s'"
  using assms by (auto simp: tasks_ok_def needed_def)

lemma jm_deleteD: "x \<in> set (jm_delete m k) \<Longrightarrow> x \<in> set m"
  by (simp add: jm_delete_def)

lemma jm_delete_Nil [simp]: "jm_delete [] k = []"
  by (simp add: jm_delete_def)

lemma delete_ok: "tasks_ok s \<Longrightarrow> tasks_ok (deleteUnusedEphemeralTask k s)"
proof -
  assume ok: "tasks_ok s"
  have "tasks_ok (s\<lparr>ts_records := jm_delete (ts_records s) (js_trim k)\<rparr>)"
    by (rule fewer_ok [OF ok]) (use ok in \<open>auto simp: tasks_ok_def jm_delete_keys dest: jm_deleteD\<close>)
  with ok show ?thesis by (simp add: deleteUnusedEphemeralTask_def Let_def split: option.split)
qed

lemma fold_delete_sub:
  "set (fold (\<lambda>(k, r) m. jm_delete m k) es m) \<subseteq> set m
   \<and> (distinct (jm_keys m) \<longrightarrow> distinct (jm_keys (fold (\<lambda>(k, r) m. jm_delete m k) es m)))"
proof (induction es arbitrary: m)
  case (Cons e es)
  from Cons [of "jm_delete m (fst e)"] show ?case by (auto simp: case_prod_beta jm_delete_keys dest: jm_deleteD)
qed simp

lemma prune_ok: "tasks_ok s \<Longrightarrow> tasks_ok (pruneRetainedTaskRecords s)"
  by (rule fewer_ok [of s]) (use fold_delete_sub in \<open>auto simp: pruneRetainedTaskRecords_def Let_def tasks_ok_def\<close>)

lemma stop_ok: "tasks_ok s \<Longrightarrow> tasks_ok (maybeStopRuntimeListener s)"
  by (auto simp: maybeStopRuntimeListener_def tasks_ok_def needed_def subscribers)

lemma forget_ok: "tasks_ok s \<Longrightarrow> tasks_ok (forgetJob k j s)"
  by (auto simp: forgetJob_def tasks_ok_def needed_def jm_get_delete dest: jm_deleteD)

lemma touch_ok: "tasks_ok s \<Longrightarrow> tasks_ok (touchTaskRecord k s)"
  unfolding touchTaskRecord_def by (rule update_ok) (auto simp: tasks_ok_def needed_def log_ok_def)

lemma clear_keeps_order: "tasks_ok s \<Longrightarrow> tasks_ok (clearLogs k s)"
  unfolding clearLogs_def by (rule update_ok) (auto simp: log_ok_def)

lemma publish_ok: "tasks_ok s \<Longrightarrow> tasks_ok (publishTaskState now k st src s)"
  unfolding publishTaskState_def
proof (rule update_ok [OF touch_ok], assumption)
  fix r assume "log_ok r"
  then show "log_ok (case src of None \<Rightarrow> r\<lparr>tr_state := st\<rparr>
    | Some from \<Rightarrow> r\<lparr>tr_state := st, tr_logs := lastEntries EXPORT_PROGRESS_TASK_LOG_LIMIT
          (tr_logs r @ [buildLogEntry now (tr_nextLogSequence r) st from]), tr_nextLogSequence := tr_nextLogSequence r + 1\<rparr>)"
    using log_next by (cases src) (simp_all add: log_ok_def)
qed (auto split: option.splits)

lemma fresh_ok: "log_ok (freshRecord retain)"
  by (simp add: log_ok_def freshRecord_def)

lemma create_ok: "tasks_ok s \<Longrightarrow> tasks_ok (snd (getOrCreateTaskRecord k retain s))"
proof -
  assume ok: "tasks_ok s"
  have "tasks_ok (s\<lparr>ts_records := jm_set (ts_records s) i (freshRecord retain)\<rparr>)"
    if "jm_get (ts_records s) i = None" for i
  proof -
    have new: "x = (i, freshRecord retain) \<or> x \<in> set (ts_records s)"
      if "x \<in> set (jm_set (ts_records s) i (freshRecord retain))" for x
      using jm_set_entries [of "ts_records s" i "freshRecord retain"] that by blast
    have "tr_listeners (freshRecord retain) = []" by (simp add: freshRecord_def)
    then have "needed (s\<lparr>ts_records := jm_set (ts_records s) i (freshRecord retain)\<rparr>) \<Longrightarrow> needed s"
      using new by (fastforce simp: needed_def)
    moreover have "\<forall>x\<in>set (jm_set (ts_records s) i (freshRecord retain)). log_ok (snd x)"
      using ok fresh_ok [of retain] new by (fastforce simp: tasks_ok_def)
    ultimately show ?thesis using ok that by (simp add: tasks_ok_def jm_set_keys jm_get_None)
  qed
  moreover have "tasks_ok (updateRecord i (\<lambda>r. if retain then r\<lparr>tr_retainAfterUnmount := True\<rparr> else r) s)" for i
    by (rule update_ok [OF ok]) (auto simp: log_ok_def split: if_splits)
  ultimately show ?thesis
    by (auto simp: getOrCreateTaskRecord_def Let_def touch_ok prune_ok split: option.split)
qed

lemma release_ok: "tasks_ok s \<Longrightarrow> tasks_ok (releaseJob k j s)"
  by (simp add: releaseJob_def stop_ok prune_ok delete_ok forget_ok)

lemma registered_ok:
  assumes "tasks_ok s" "j \<noteq> []" "js_trim k = k"
  shows "tasks_ok ((clearLogs k' s)\<lparr>ts_taskKeyByJobId := jm_set (ts_taskKeyByJobId s) j k, ts_listening := True\<rparr>)"
  using clear_keeps_order [OF assms(1), of k'] assms(2,3) jm_set_entries [of "ts_taskKeyByJobId s" j k]
  by (auto simp: tasks_ok_def jm_get_set)

lemma progress_ok: "tasks_ok s \<Longrightarrow> tasks_ok (applyBackendProgress now event s)"
  by (auto simp: applyBackendProgress_def Let_def publish_ok release_ok split: option.split)

lemma exportStep_ok: "tasks_ok s \<Longrightarrow> tasks_ok (exportStep now a s)"
proof (induction now a s rule: exportStep.induct)
  case (1 now k retain s)
  then show ?case using create_ok [of s k retain] by (simp add: getExportProgressTaskSnapshot_def case_prod_beta Let_def)
next
  case (2 now k l retain s)
  then show ?case unfolding exportStep.simps subscribeExportProgressTask_def Let_def
    by (intro listen_ok create_ok) (auto simp: log_ok_def)
next
  case (3 now k l s)
  then show ?case unfolding exportStep.simps unsubscribeExportProgressTask_def Let_def
    by (intro stop_ok delete_ok update_ok) (auto simp: log_ok_def filter_empty_conv)
next
  case (6 now k st retain s)
  then show ?case using create_ok [of s "js_trim k" retain]
    by (auto simp: startExportProgressTask_def Let_def intro!: publish_ok registered_ok forget_ok split: prod.split)
next
  case (9 now k s)
  then show ?case using create_ok [of s "js_trim k" False]
    by (auto simp: resetExportProgressTask_def Let_def intro!: stop_ok prune_ok delete_ok publish_ok clear_keeps_order forget_ok split: prod.split)
next
  case (11 now s)
  then show ?case by (simp add: createEphemeralExportProgressTaskKey_def tasks_ok_def needed_def)
qed (auto simp: cancelExportProgressTask_def revertCancelExportProgressTask_def consumeExportProgressTaskRequest_def
    finishExportProgressTask_def Let_def publish_ok release_ok progress_ok split: option.split)

lemma tasks_reachable: "exportRun s s' \<Longrightarrow> tasks_ok s \<Longrightarrow> tasks_ok s'"
  by (induction rule: exportRun.induct) (auto intro: exportStep_ok)

lemma tasks_ok_empty: "tasks_ok emptyTaskStore"
  by (simp add: tasks_ok_def needed_def emptyTaskStore_def jm_keys_def jm_get_def)

section \<open>What happens to others\<close>

text \<open>The task an action is about.\<close>

fun actionTask :: "taskStore \<Rightarrow> exportAction \<Rightarrow> js_string option" where
  "actionTask s (Progress event) = jm_get (ts_taskKeyByJobId s) (js_trim (ee_jobId event))"
| "actionTask s NewEphemeral = None"
| "actionTask s (Look k retain) = Some (js_trim k)"
| "actionTask s (Subscribe k l retain) = Some (js_trim k)"
| "actionTask s (Unsubscribe k l) = Some (js_trim k)"
| "actionTask s (Cancel k) = Some (js_trim k)"
| "actionTask s (RevertCancel k) = Some (js_trim k)"
| "actionTask s (StartExport k st retain) = Some (js_trim k)"
| "actionTask s (Consume k key) = Some (js_trim k)"
| "actionTask s (FinishExport k jobId f) = Some (js_trim k)"
| "actionTask s (ResetExport k) = Some (js_trim k)"

text \<open>A task that is shown or runs.\<close>

definition live :: "taskRecord \<Rightarrow> bool" where
  "live r \<longleftrightarrow> tr_listeners r \<noteq> [] \<or> isActiveExportStatus (es_status (tr_state r))"

definition holds :: "js_string \<Rightarrow> taskRecord \<Rightarrow> taskStore \<Rightarrow> bool" where
  "holds k r s \<longleftrightarrow> tasks_ok s \<and> jm_get (ts_records s) k = Some r"

lemma holds_prune: "holds k r s \<Longrightarrow> live r \<Longrightarrow> holds k r (pruneRetainedTaskRecords s)"
  using prune_keeps [of s k r] prune_ok [of s] by (simp add: holds_def) (simp add: tasks_ok_def prunable_def live_def)

lemma holds_other:
  assumes "holds k r s" "k' \<noteq> k"
  shows "holds k r (publishTaskState now k' st src s)" "holds k r (clearLogs k' s)" "holds k r (forgetJob k' j s)"
    "holds k r (maybeStopRuntimeListener s)" "js_trim k' = k' \<Longrightarrow> holds k r (deleteUnusedEphemeralTask k' s)"
    "j \<noteq> [] \<Longrightarrow> js_trim k' = k' \<Longrightarrow>
     holds k r ((clearLogs k' s)\<lparr>ts_taskKeyByJobId := jm_set (ts_taskKeyByJobId s) j k', ts_listening := True\<rparr>)"
  using assms by (simp_all add: holds_def publish_ok clear_keeps_order forget_ok stop_ok delete_ok registered_ok)

lemma holds_create:
  assumes "holds k r s" "live r" "js_trim k' \<noteq> k"
  shows "holds k r (snd (getOrCreateTaskRecord k' retain s))"
proof -
  have "jm_get (ts_records (snd (getOrCreateTaskRecord k' retain s))) k = Some r"
  proof (cases "jm_get (ts_records s) (js_trim k')")
    case None
    let ?s = "touchTaskRecord (js_trim k') (s\<lparr>ts_records := jm_set (ts_records s) (js_trim k') (freshRecord retain)\<rparr>)"
    have "distinct (jm_keys (ts_records ?s))" using assms(1) by (simp add: holds_def tasks_ok_def jm_set_keys)
    moreover have "jm_get (ts_records ?s) k = Some r" using assms(1,3) by (simp add: holds_def jm_get_set)
    moreover have "\<not> prunable ?s r" using assms(2) by (auto simp: prunable_def live_def)
    ultimately show ?thesis using None prune_keeps by (simp add: getOrCreateTaskRecord_def Let_def)
  qed (use assms in \<open>simp add: getOrCreateTaskRecord_def holds_def Let_def\<close>)
  then show ?thesis using assms(1) create_ok by (simp add: holds_def)
qed

lemma holds_release:
  assumes "holds k r s" "live r" "k' \<noteq> k" "js_trim k' = k'"
  shows "holds k r (releaseJob k' j s)"
  unfolding releaseJob_def using assms by (intro holds_other(4) holds_prune holds_other(5) holds_other(3))

lemma holds_update:
  assumes "holds k r s" "k' \<noteq> k" "\<And>r. log_ok r \<Longrightarrow> log_ok (f r)"
  shows "holds k r ((updateRecord k' f s)\<lparr>ts_listening := True\<rparr>)"
  using assms by (simp add: holds_def listen_ok)

lemma step_holds:
  assumes "holds k r s" "live r" "actionTask s a \<noteq> Some k"
  shows "jm_get (ts_records (exportStep now a s)) k = Some r"
proof -
  note create = holds_create [OF assms(1,2)]
  have "holds k r (exportStep now a s)" if "\<And>i l. a \<noteq> Unsubscribe i l" "a \<noteq> NewEphemeral"
  proof (cases a)
    case (Look i retain)
    then show ?thesis using assms(3) create [of i retain]
      by (simp add: getExportProgressTaskSnapshot_def case_prod_beta Let_def)
  next
    case (Subscribe i l retain)
    then show ?thesis using assms(3) create [of "js_trim i" retain]
      by (simp add: subscribeExportProgressTask_def Let_def) (rule holds_update, auto simp: log_ok_def)
  next
    case (StartExport i st retain)
    then show ?thesis using assms(3) create [of "js_trim i" retain]
      by (auto simp: startExportProgressTask_def Let_def case_prod_beta intro!: holds_other(1,3,6))
  next
    case (ResetExport i)
    then show ?thesis using assms(2,3) create [of "js_trim i" False]
      by (auto simp: resetExportProgressTask_def Let_def case_prod_beta
          intro!: holds_other(4) holds_prune holds_other(5) holds_other(1,2,3))
  next
    case (Progress event)
    have "k' = js_trim k'" if "jm_get (ts_taskKeyByJobId s) j = Some k'" for j k'
      using that assms(1) map_of_SomeD [of "ts_taskKeyByJobId s" j k'] by (force simp: holds_def tasks_ok_def jm_get_def)
    then show ?thesis using assms Progress
      by (auto simp: applyBackendProgress_def Let_def split: option.split intro!: holds_release holds_other(1))
  next
    case (FinishExport i j f)
    then show ?thesis using assms
      by (auto simp: finishExportProgressTask_def Let_def split: option.split intro!: holds_release holds_other(1))
  qed (use assms that in \<open>auto simp: cancelExportProgressTask_def revertCancelExportProgressTask_def
      consumeExportProgressTaskRequest_def Let_def split: option.split intro!: holds_other(1)\<close>)
  moreover have ?thesis if "a = Unsubscribe i l" for i l
    using that assms(1,3) by (simp add: unsubscribeExportProgressTask_def Let_def holds_def)
  moreover have ?thesis if "a = NewEphemeral"
    using that assms(1) by (simp add: createEphemeralExportProgressTaskKey_def holds_def)
  ultimately show ?thesis unfolding holds_def by blast
qed

section \<open>An export that has ended\<close>

text \<open>
  The task shows \<open>st\<close>, or it was dropped and shows nothing, and the job of \<open>st\<close> no longer leads to it.
\<close>

definition settled :: "js_string \<Rightarrow> exportState \<Rightarrow> taskStore \<Rightarrow> bool" where
  "settled k st s \<longleftrightarrow>
     (\<forall>r. jm_get (ts_records s) k = Some r \<longrightarrow> tr_state r \<in> {st, createInitialExportProgressState})
     \<and> jm_get (ts_taskKeyByJobId s) (es_jobId st) \<noteq> Some k \<and> jm_get (ts_taskKeyByJobId s) [] = None"

text \<open>The actions that begin another export of the task or end one; all others cannot revive it.\<close>

fun renews :: "js_string \<Rightarrow> exportAction \<Rightarrow> bool" where
  "renews k (StartExport i st retain) = (js_trim i = k)"
| "renews k (ResetExport i) = (js_trim i = k)"
| "renews k (FinishExport i j f) = (js_trim i = k)"
| "renews k _ = False"

lemma settled_fewer:
  "settled k st s \<Longrightarrow> jm_get (ts_records s') k \<in> {None, jm_get (ts_records s) k} \<Longrightarrow>
   ts_taskKeyByJobId s' = ts_taskKeyByJobId s \<Longrightarrow> settled k st s'"
  by (auto simp: settled_def)

lemma settled_update: "settled k st s \<Longrightarrow> (\<And>r. tr_state (f r) = tr_state r) \<Longrightarrow> settled k st (updateRecord k' f s)"
  by (auto simp: settled_def)

lemma settled_touch: "settled k st s \<Longrightarrow> settled k st (touchTaskRecord k' s)"
  by (auto simp: settled_def)

lemma settled_clear: "settled k st s \<Longrightarrow> settled k st (clearLogs k' s)"
  unfolding clearLogs_def by (rule settled_update) simp_all

lemma settled_parts:
  "settled k st s \<Longrightarrow> settled k st (pruneRetainedTaskRecords s)"
  "settled k st s \<Longrightarrow> settled k st (deleteUnusedEphemeralTask k' s)"
  "settled k st s \<Longrightarrow> settled k st (maybeStopRuntimeListener s)"
  "settled k st s \<Longrightarrow> settled k st (forgetJob k' j s)"
  "settled k st s \<Longrightarrow> k' \<noteq> k \<Longrightarrow> settled k st (publishTaskState now k' st' src s)"
  "settled k st s \<Longrightarrow> k' \<noteq> k \<Longrightarrow> j \<noteq> [] \<Longrightarrow>
     settled k st ((clearLogs k' s)\<lparr>ts_taskKeyByJobId := jm_set (ts_taskKeyByJobId s) j k', ts_listening := True\<rparr>)"
  using prune_get [of s k] delete_get [of k' s k]
  by (auto intro: settled_fewer) (auto simp: settled_def forget_get jm_get_set)

lemma settled_create: "settled k st s \<Longrightarrow> settled k st (snd (getOrCreateTaskRecord k' retain s))"
proof -
  assume s: "settled k st s"
  then have "settled k st (s\<lparr>ts_records := jm_set (ts_records s) i (freshRecord retain)\<rparr>)" for i
    by (auto simp: settled_def jm_get_set freshRecord_def)
  moreover have "settled k st (updateRecord i (\<lambda>r. if retain then r\<lparr>tr_retainAfterUnmount := True\<rparr> else r) s)" for i
    using s by (rule settled_update) simp
  ultimately show ?thesis
    by (auto simp: getOrCreateTaskRecord_def Let_def settled_touch settled_parts(1) split: option.split)
qed

lemma settled_release: "settled k st s \<Longrightarrow> settled k st (releaseJob k' j s)"
  by (simp add: releaseJob_def settled_parts)

lemma settled_listening: "settled k st (s\<lparr>ts_listening := b\<rparr>) \<longleftrightarrow> settled k st s"
  by (simp add: settled_def)

text \<open>Neither state of a settled task is active, and no job leads to the task with its own id.\<close>

lemma settled_state:
  assumes "settled k st s" "isTerminalExportStatus (es_status st)" "jm_get (ts_records s) k = Some r"
  shows "\<not> isActiveExportStatus (es_status (tr_state r))"
    and "jm_get (ts_taskKeyByJobId s) j = Some k \<Longrightarrow> es_jobId (tr_state r) \<noteq> j"
  using assms by (auto simp: settled_def isActiveExportStatus_def isTerminalExportStatus_def createInitialExportProgressState_def)

lemma settled_step:
  assumes "settled k st s" "isTerminalExportStatus (es_status st)" "\<not> renews k a"
  shows "settled k st (exportStep now a s)"
proof (cases a)
  case (Look i retain)
  then show ?thesis using assms(1) by (simp add: getExportProgressTaskSnapshot_def case_prod_beta Let_def settled_create)
next
  case (Subscribe i l retain)
  then show ?thesis using assms(1)
    by (simp add: subscribeExportProgressTask_def Let_def settled_listening) (intro settled_update settled_create, auto)
next
  case (Unsubscribe i l)
  then show ?thesis using assms(1)
    by (auto simp: unsubscribeExportProgressTask_def Let_def intro!: settled_parts(2,3) settled_update)
next
  case (Progress event)
  then show ?thesis using assms(1) settled_state [OF assms(1,2)]
    by (auto simp: applyBackendProgress_def Let_def split: option.split intro!: settled_release settled_parts(5))
next
  case (StartExport i st' retain)
  then show ?thesis using assms(1,3) settled_create [OF assms(1)]
    by (auto simp: startExportProgressTask_def Let_def case_prod_beta intro!: settled_parts(4,5,6))
next
  case (ResetExport i)
  then show ?thesis using assms(1,3) settled_create [OF assms(1)]
    by (auto simp: resetExportProgressTask_def Let_def case_prod_beta intro!: settled_clear settled_parts(1,2,3,4,5))
next
  case (FinishExport i j f)
  then show ?thesis using assms(1,3)
    by (auto simp: finishExportProgressTask_def Let_def split: option.split intro!: settled_release settled_parts(5))
next
  case NewEphemeral
  then show ?thesis using assms(1) by (simp add: createEphemeralExportProgressTaskKey_def settled_def)
qed (use assms settled_state [OF assms(1,2)] in \<open>auto simp: cancelExportProgressTask_def revertCancelExportProgressTask_def
    consumeExportProgressTaskRequest_def isActiveExportStatus_def Let_def split: option.split intro!: settled_parts(5)\<close>)

lemma settled_run:
  "settled k st s \<Longrightarrow> isTerminalExportStatus (es_status st) \<Longrightarrow> \<forall>(now, a)\<in>set as. \<not> renews k a \<Longrightarrow>
   settled k st (fold (\<lambda>(now, a). exportStep now a) as s)"
  by (induction as arbitrary: s) (auto simp: settled_step)

lemma finish_settles:
  assumes "jm_get (ts_records s) k = Some r" "es_jobId (tr_state r) = jobId" "js_trim k = k"
    and "es_jobId (f (tr_state r)) = jobId" "jm_get (ts_taskKeyByJobId s) [] = None"
  shows "settled k (f (tr_state r)) (finishExportProgressTask now k jobId f s)"
proof -
  let ?s = "publishTaskState now k (f (tr_state r)) (Some FromResult) s"
  have "map_option tr_state (jm_get (ts_records ?s) k) = Some (f (tr_state r))" using publish_state assms(1) by simp
  then have "settled k (f (tr_state r)) (forgetJob k jobId ?s)"
    using assms(4,5) by (auto simp: settled_def forget_get)
  then have "settled k (f (tr_state r)) (releaseJob k jobId ?s)"
    by (simp add: releaseJob_def settled_parts)
  then show ?thesis using assms(1-3) by (simp add: finishExportProgressTask_def)
qed

section \<open>Properties\<close>

text \<open>Two tabs; the export of the first one runs and is shown, the second one is only shown.\<close>

definition twoTasks :: taskStore where
  "twoTasks = exportStep 3 (Subscribe (js ''b'') 2 True)
     (exportStep 2 (StartExport (js ''a'') (runnerStart (js ''j'') (js ''T'') [] [] None (js ''wait'') []) True)
       (exportStep 1 (Subscribe (js ''a'') 1 True) emptyTaskStore))"

lemma twoTasks_reachable: "exportRun emptyTaskStore twoTasks"
  unfolding twoTasks_def by (intro er_step er_none)

lemma twoTasks_facts:
  "jm_get (ts_records twoTasks) (js ''a'') = Some (snd (ts_records twoTasks ! 0))"
  "es_jobId (tr_state (snd (ts_records twoTasks ! 0))) = js ''j''"
  "tr_listeners (snd (ts_records twoTasks ! 0)) = [1]" "js_trim (js ''a'') = js ''a''"
  by code_simp+

text \<open>
  C23. The store of exports stays in order: the log of a task has at most two hundred entries, numbered without
  a gap up to the last one, and the store listens to the backend as long as a job is registered or a task is
  shown.
\<close>

theorem export_store_stays_in_order:
  assumes "exportRun emptyTaskStore s"
  shows "(\<forall>k r. jm_get (ts_records s) k = Some r \<longrightarrow>
      length (tr_logs r) \<le> 200
      \<and> map el_sequence (tr_logs r) = [tr_nextLogSequence r - length (tr_logs r) ..< tr_nextLogSequence r])
    \<and> (ts_taskKeyByJobId s \<noteq> [] \<or> hasTaskSubscribers s \<longrightarrow> ts_listening s)"
proof -
  have ok: "tasks_ok s" by (rule tasks_reachable [OF assms tasks_ok_empty])
  then have "log_ok r" if "jm_get (ts_records s) k = Some r" for k r
    using that by (auto simp: tasks_ok_def jm_get_entry)
  then show ?thesis using ok
    by (auto simp: log_ok_def EXPORT_PROGRESS_TASK_LOG_LIMIT_def tasks_ok_def needed_def subscribers)
qed

theorem export_store_stays_in_order_witness:
  "ts_listening twoTasks \<and> length (tr_logs (snd (ts_records twoTasks ! 0))) \<le> 200"
proof -
  have "ts_taskKeyByJobId twoTasks \<noteq> []" by code_simp
  then show ?thesis using export_store_stays_in_order [OF twoTasks_reachable] twoTasks_facts(1) by blast
qed

text \<open>
  A task that is shown or runs is left alone: nothing that happens to other tasks, however many come
  and go, changes its state or its log or drops it.
\<close>

lemma live_task_is_left_alone:
  assumes "exportRun emptyTaskStore s" "jm_get (ts_records s) k = Some r"
    and "tr_listeners r \<noteq> [] \<or> isActiveExportStatus (es_status (tr_state r))"
    and "actionTask s a \<noteq> Some k"
  shows "jm_get (ts_records (exportStep now a s)) k = Some r"
  using step_holds [of k r s] tasks_reachable [OF assms(1) tasks_ok_empty] assms(2-4) by (simp add: holds_def live_def)

lemma live_task_is_left_alone_witness:
  "jm_get (ts_records (exportStep 4 (ResetExport (js ''b'')) twoTasks)) (js ''a'') = Some (snd (ts_records twoTasks ! 0))"
proof -
  have "actionTask twoTasks (ResetExport (js ''b'')) \<noteq> Some (js ''a'')" by code_simp
  moreover have "tr_listeners (snd (ts_records twoTasks ! 0)) \<noteq> []" by (simp only: twoTasks_facts(3)) simp
  ultimately show ?thesis by (intro live_task_is_left_alone [OF twoTasks_reachable twoTasks_facts(1)] disjI1)
qed

text \<open>How a run that ended shows.\<close>

definition outcomeStatus :: "runOutcome \<Rightarrow> exportStatus" where
  "outcomeStatus outcome = (case outcome of RunSucceeded \<Rightarrow> ExDone | RunCancelled _ \<Rightarrow> ExCancelled
     | RunFailed _ \<Rightarrow> ExError | RunDismissed \<Rightarrow> ExIdle)"

lemma finishRun_update:
  assumes "outcome \<noteq> RunDismissed"
  obtains f where "finishRun title now k jobId outcome s = finishExportProgressTask now k jobId f s"
    and "\<And>prev. es_jobId (f prev) = es_jobId prev" "\<And>prev. es_status (f prev) = outcomeStatus outcome"
  using assms by (cases outcome) (auto simp: finishRun_def outcomeStatus_def finishedState_def)

text \<open>
  An export that has ended stays ended: when the runner has recorded the end of a run, no late
  progress, no cancelling or taking back of a cancelling, no view that opens or closes, and nothing that
  happens to other tasks makes the task active again; it shows the end of that run, or nothing when it was
  dropped, until it is started, reset or finished anew.
\<close>

lemma finished_export_stays_finished:
  assumes "exportRun emptyTaskStore s" "jm_get (ts_records s) k = Some r" "es_jobId (tr_state r) = jobId" "js_trim k = k"
    and "outcome \<noteq> RunDismissed" "\<forall>(t, a)\<in>set as. \<not> renews k a"
    and "s' = fold (\<lambda>(t, a). exportStep t a) as (finishRun title now k jobId outcome s)"
    and "jm_get (ts_records s') k = Some r'"
  shows "(es_status (tr_state r') = outcomeStatus outcome \<and> es_jobId (tr_state r') = jobId
      \<or> tr_state r' = createInitialExportProgressState)
    \<and> \<not> isActiveExportStatus (es_status (tr_state r'))"
proof -
  obtain f where f: "finishRun title now k jobId outcome s = finishExportProgressTask now k jobId f s"
    "es_jobId (f (tr_state r)) = jobId" "es_status (f (tr_state r)) = outcomeStatus outcome"
    using finishRun_update [OF assms(5)] assms(3) by metis
  have "jm_get (ts_taskKeyByJobId s) [] = None" using tasks_reachable [OF assms(1) tasks_ok_empty] by (simp add: tasks_ok_def)
  note settled = finish_settles [where f = f, OF assms(2-4) f(2) this, of now, folded f(1)]
  have terminal: "isTerminalExportStatus (es_status (f (tr_state r)))"
    using assms(5) f(3) by (cases outcome) (simp_all add: isTerminalExportStatus_def outcomeStatus_def)
  have end_state: "settled k (f (tr_state r)) s'" unfolding assms(7) by (rule settled_run [OF settled terminal assms(6)])
  then have "tr_state r' \<in> {f (tr_state r), createInitialExportProgressState}" using assms(8) by (simp add: settled_def)
  then show ?thesis using settled_state(1) [OF end_state terminal assms(8)] f(2,3) by auto
qed

text \<open>Late progress after a cancelled run, of the same job.\<close>

definition lateProgress :: exportEvent where
  "lateProgress = \<lparr>ee_jobId = js ''j'', ee_status = Some ExRunning, ee_stage = None, ee_current = Some (Some 7),
     ee_total = None, ee_totalRowsKnown = None, ee_format = None, ee_targetName = None, ee_filePath = None, ee_message = None\<rparr>"

lemma finished_export_stays_finished_witness:
  "let s' = fold (\<lambda>(t, a). exportStep t a) [(6, Progress lateProgress), (7, RevertCancel (js ''a''))]
       (finishRun (\<lambda>_. []) 5 (js ''a'') (js ''j'') (RunCancelled []) twoTasks) in
   \<exists>r'. jm_get (ts_records s') (js ''a'') = Some r' \<and> es_status (tr_state r') = ExCancelled"
proof -
  let ?s = "fold (\<lambda>(t, a). exportStep t a) [(6, Progress lateProgress), (7, RevertCancel (js ''a''))]
       (finishRun (\<lambda>_. []) 5 (js ''a'') (js ''j'') (RunCancelled []) twoTasks)"
  have facts: "\<forall>(t, a)\<in>set [(6::int, Progress lateProgress), (7, RevertCancel (js ''a''))]. \<not> renews (js ''a'') a"
    "map_option (\<lambda>r. es_open (tr_state r)) (jm_get (ts_records ?s) (js ''a'')) = Some True" by simp code_simp
  then obtain r' where r': "jm_get (ts_records ?s) (js ''a'') = Some r'" "es_open (tr_state r')" by auto
  from finished_export_stays_finished [OF twoTasks_reachable twoTasks_facts(1,2,4) _ facts(1) refl r'(1)] r'(2)
  have "es_status (tr_state r') = ExCancelled" by (auto simp: outcomeStatus_def createInitialExportProgressState_def)
  with r'(1) show ?thesis by (auto simp: Let_def)
qed

end
