(* ===== verification/DataSourceCapabilities.thy ===== *)
theory DataSourceCapabilities
  imports ConnectionReadOnly JsMap
begin

text \<open>
  What a connection can do (\<open>src/frontend/src/utils/dataSourceCapabilities.ts\<close>): the type of its data
  source, and the capabilities of that type narrowed by the protection of the connection. The table of
  profiles is a file both sides of the program read
  (\<open>src/internal/db/data_source_capability_contract.json\<close>); it is the argument \<open>registry\<close>. A profile's
  flag that is missing is \<open>False\<close>, as the code tests it with \<open>=== true\<close>; \<open>None\<close> stands for the error
  when the table has no profile \<open>unknown\<close>.
\<close>

section \<open>The type of a data source\<close>

text \<open>The labels of the \<open>switch\<close> and what each group returns, in source order.\<close>

definition dataSourceTokens :: "(js_string list \<times> js_string) list" where
  "dataSourceTokens =
    [([js ''doris''], js ''diros''),
     ([js ''starrocks''], js ''starrocks''),
     ([js ''postgresql'', js ''pg'', js ''pq'', js ''pgx''], js ''postgres''),
     ([js ''opengauss'', js ''open_gauss'', js ''open-gauss''], js ''opengauss''),
     ([js ''gaussdb'', js ''gauss_db'', js ''gauss-db''], js ''gaussdb''),
     ([js ''mssql'', js ''sql_server'', js ''sql-server''], js ''sqlserver''),
     ([js ''sqlite3''], js ''sqlite''),
     ([js ''kingbase8'', js ''kingbasees'', js ''kingbasev8''], js ''kingbase''),
     ([js ''goldendb'', js ''greatdb'', js ''gdb''], js ''goldendb''),
     ([js ''dm'', js ''dm8''], js ''dameng''),
     ([js ''sphinxql''], js ''sphinx''),
     ([js ''elastic'', js ''elasticsearch''], js ''elasticsearch''),
     ([js ''chromadb'', js ''chroma-db''], js ''chroma''),
     ([js ''qdrantdb'', js ''qdrant-db''], js ''qdrant''),
     ([js ''milvusdb'', js ''milvus-db''], js ''milvus''),
     ([js ''rocketmq'', js ''rocket-mq'', js ''rocket_mq'', js ''apache-rocketmq'', js ''apache_rocketmq'', js ''rmq''],
       js ''rocketmq''),
     ([js ''mqtt'', js ''mqtts''], js ''mqtt''),
     ([js ''apache-iotdb'', js ''apache_iotdb''], js ''iotdb''),
     ([js ''kafka'', js ''apache-kafka'', js ''apache_kafka''], js ''kafka''),
     ([js ''rabbitmq'', js ''rabbit-mq'', js ''rabbit_mq''], js ''rabbitmq''),
     ([js ''pulsar'', js ''apache-pulsar'', js ''apache_pulsar''], js ''pulsar''),
     ([js ''intersystems'', js ''intersystemsiris'', js ''inter-systems'', js ''inter-systems-iris''], js ''iris''),
     ([js ''cach'' @ [233], js ''intersystems cache'', js ''intersystems cach'' @ [233], js ''intersystems-cache'',
       js ''intersystems-cach'' @ [233], js ''intersystemscache'', js ''intersystemscach'' @ [233],
       js ''inter-systems-cache'', js ''inter-systems-cach'' @ [233], js ''intersystems-cache-database'',
       js ''cache-db'', js ''cachedb''], js ''cache'')]"

lemmas dataSourceTokens_code [code] = dataSourceTokens_def [simplified]

text \<open>The \<open>switch\<close> on a text that is trimmed and in lower case.\<close>

definition dataSourceToken :: "js_string \<Rightarrow> js_string" where
  "dataSourceToken t = (case find (\<lambda>(labels, _). t \<in> set labels) dataSourceTokens of
     Some (_, type) \<Rightarrow> type | None \<Rightarrow> t)"

definition normalizeDataSourceToken :: "js_string \<Rightarrow> js_string" where
  "normalizeDataSourceToken raw = dataSourceToken (js_lower (js_trim raw))"

definition resolveDataSourceType :: "connectionConfig option \<Rightarrow> js_string" where
  "resolveDataSourceType config =
     (case config of None \<Rightarrow> []
      | Some c \<Rightarrow>
          (let type = normalizeDataSourceToken (cc_type c); driver = normalizeDataSourceToken (cc_driver c);
               oracle = normalizeOceanBaseProtocol (cc_oceanBaseProtocol c) = Some ObOracle in
           if type = js ''custom'' then
             (if driver = js ''oceanbase'' \<and> oracle then js ''oracle'' else js_or driver (js ''custom''))
           else if type = js ''oceanbase'' \<and> oracle then js ''oracle''
           else type))"

definition MESSAGE_QUEUE_DATA_SOURCE_TYPES :: "js_string list" where
  "MESSAGE_QUEUE_DATA_SOURCE_TYPES = map js [''mqtt'', ''kafka'', ''rocketmq'', ''rabbitmq'', ''pulsar'']"

definition isMessageQueueDataSource :: "connectionConfig option \<Rightarrow> bool" where
  "isMessageQueueDataSource config \<longleftrightarrow> resolveDataSourceType config \<in> set MESSAGE_QUEUE_DATA_SOURCE_TYPES"

text \<open>\<open>database\<close> is the field of the connection that the other functions do not read.\<close>

definition resolveMessageQueueExecutionDbName :: "connectionConfig option \<Rightarrow> js_string \<Rightarrow> js_string \<Rightarrow> js_string" where
  "resolveMessageQueueExecutionDbName config database explicitDbName =
     (let type = resolveDataSourceType config; explicit = js_trim explicitDbName; configured = js_trim database in
      if type = js ''rabbitmq'' then js_or explicit (js_or configured (js ''/''))
      else if type \<in> set MESSAGE_QUEUE_DATA_SOURCE_TYPES then js ''topics''
      else js_or explicit configured)"

definition shouldShowOceanBaseRowNumberColumn :: "connectionConfig option \<Rightarrow> bool" where
  "shouldShowOceanBaseRowNumberColumn config \<longleftrightarrow>
     (case config of None \<Rightarrow> False
      | Some c \<Rightarrow> normalizeDataSourceToken (cc_type c) = js ''oceanbase''
          \<or> normalizeDataSourceToken (cc_driver c) = js ''oceanbase'')"

section \<open>Profiles\<close>

datatype capabilityOperation =
  OpQuery | OpMetadata | OpTransaction | OpPagination | OpCancel | OpSchema | OpSampling | OpStreaming | OpDangerousOperations

definition DATA_SOURCE_CAPABILITY_OPERATIONS :: "capabilityOperation list" where
  "DATA_SOURCE_CAPABILITY_OPERATIONS =
     [OpQuery, OpMetadata, OpTransaction, OpPagination, OpCancel, OpSchema, OpSampling, OpStreaming, OpDangerousOperations]"

record operationCapability =
  oc_supported :: bool
  oc_runtimeProbe :: bool
  oc_reason :: js_string
  oc_alternative :: js_string
  oc_messageKey :: js_string

datatype navigationKind =
  NavNone | NavDatabase | NavCatalog | NavOwner | NavNamespace | NavIndex | NavVhost | NavCatalogSchema | NavRedisDb

record navigationCapabilities =
  nc_primaryVisibilitySupported :: bool
  nc_primaryKind :: navigationKind
  nc_secondarySchemaVisibilitySupported :: bool
  nc_schemaIdentifierCaseSensitive :: bool

record uiCapabilityFlags =
  ui_explainDiagnosis :: bool
  ui_sqlQueryExport :: bool
  ui_copyInsert :: bool
  ui_copyTable :: bool
  ui_createDatabase :: bool
  ui_createDatabaseCharset :: bool
  ui_renameDatabase :: bool
  ui_dropDatabase :: bool
  ui_messagePublish :: bool
  ui_forceReadOnlyQueryResult :: bool
  ui_forceReadOnlyStructureDesigner :: bool
  ui_preferManualTotalCount :: bool
  ui_supportsApproximateTableCount :: bool
  ui_supportsApproximateTotalPages :: bool
  ui_userManagement :: bool

record capabilityProfile =
  cp_query :: operationCapability
  cp_metadata :: operationCapability
  cp_transaction :: operationCapability
  cp_pagination :: operationCapability
  cp_cancel :: operationCapability
  cp_schema :: operationCapability
  cp_sampling :: operationCapability
  cp_streaming :: operationCapability
  cp_dangerousOperations :: operationCapability
  cp_ui :: uiCapabilityFlags
  cp_navigation :: navigationCapabilities

text \<open>A contract is a profile with the type it was chosen for.\<close>

record capabilityContract = capabilityProfile +
  cp_type :: js_string

record capabilityRegistry =
  reg_profiles :: "(js_string, capabilityProfile) js_map"
  reg_drivers :: "(js_string, js_string) js_map"

definition cloneCapabilityProfile :: "js_string \<Rightarrow> capabilityProfile \<Rightarrow> capabilityContract" where
  "cloneCapabilityProfile type p = capabilityProfile.extend p (capabilityContract.fields type)"

definition isCustomConnection :: "connectionConfig option \<Rightarrow> bool" where
  "isCustomConnection config \<longleftrightarrow>
     (case config of None \<Rightarrow> False | Some c \<Rightarrow> normalizeDataSourceToken (cc_type c) = js ''custom'')"

definition profileName :: "capabilityRegistry \<Rightarrow> connectionConfig option \<Rightarrow> js_string \<Rightarrow> js_string" where
  "profileName registry config type =
     js_or (case jm_get (reg_drivers registry) type of None \<Rightarrow> [] | Some name \<Rightarrow> name)
       (if isCustomConnection config then js ''custom'' else js ''unknown'')"

definition getDataSourceCapabilityContract :: "capabilityRegistry \<Rightarrow> connectionConfig option \<Rightarrow> capabilityContract option" where
  "getDataSourceCapabilityContract registry config =
     (let type = js_or (resolveDataSourceType config) (js ''unknown'') in
      map_option (cloneCapabilityProfile type)
        (case jm_get (reg_profiles registry) (profileName registry config type) of
           Some p \<Rightarrow> Some p
         | None \<Rightarrow> jm_get (reg_profiles registry) (js ''unknown'')))"

fun operationOf :: "'a capabilityProfile_scheme \<Rightarrow> capabilityOperation \<Rightarrow> operationCapability" where
  "operationOf p OpQuery = cp_query p"
| "operationOf p OpMetadata = cp_metadata p"
| "operationOf p OpTransaction = cp_transaction p"
| "operationOf p OpPagination = cp_pagination p"
| "operationOf p OpCancel = cp_cancel p"
| "operationOf p OpSchema = cp_schema p"
| "operationOf p OpSampling = cp_sampling p"
| "operationOf p OpStreaming = cp_streaming p"
| "operationOf p OpDangerousOperations = cp_dangerousOperations p"

definition getDataSourceOperationCapability ::
  "capabilityRegistry \<Rightarrow> connectionConfig option \<Rightarrow> capabilityOperation \<Rightarrow> operationCapability option" where
  "getDataSourceOperationCapability registry config operation =
     map_option (\<lambda>p. operationOf p operation) (getDataSourceCapabilityContract registry config)"

section \<open>Capabilities\<close>

record dataSourceCapabilities =
  ds_contract :: capabilityContract
  supportsPrimaryVisibility :: bool
  supportsSecondarySchemaVisibility :: bool
  schemaIdentifierCaseSensitive :: bool
  supportsQueryEditor :: bool
  supportsExplainDiagnosis :: bool
  supportsSqlQueryExport :: bool
  supportsCopyInsert :: bool
  supportsCopyTable :: bool
  supportsCreateIndex :: bool
  supportsCreateDatabase :: bool
  supportsCreateDatabaseCharset :: bool
  supportsRenameDatabase :: bool
  supportsDropDatabase :: bool
  supportsMessagePublish :: bool
  forceReadOnlyQueryResult :: bool
  forceReadOnlyStructureDesigner :: bool
  preferManualTotalCount :: bool
  supportsApproximateTableCount :: bool
  supportsApproximateTotalPages :: bool
  supportsRelationalObjectKindFilter :: bool
  supportsUserManagement :: bool

definition getDataSourceCapabilities :: "capabilityRegistry \<Rightarrow> connectionConfig option \<Rightarrow> dataSourceCapabilities option" where
  "getDataSourceCapabilities registry config =
     map_option (\<lambda>contract.
       (let customConnection = isCustomConnection config;
            dataEditRestricted = isConnectionDataEditRestricted config;
            dataImportRestricted = isConnectionDataImportRestricted config;
            structureEditRestricted = isConnectionStructureEditRestricted config;
            ui = cp_ui contract; navigation = cp_navigation contract in
        \<lparr>ds_contract = contract,
         supportsPrimaryVisibility = nc_primaryVisibilitySupported navigation,
         supportsSecondarySchemaVisibility = nc_secondarySchemaVisibilitySupported navigation,
         schemaIdentifierCaseSensitive = nc_schemaIdentifierCaseSensitive navigation,
         supportsQueryEditor = oc_supported (cp_query contract),
         supportsExplainDiagnosis = ui_explainDiagnosis ui,
         supportsSqlQueryExport = ui_sqlQueryExport ui,
         supportsCopyInsert = ui_copyInsert ui,
         supportsCopyTable = \<not> customConnection \<and> \<not> dataImportRestricted \<and> \<not> structureEditRestricted \<and> ui_copyTable ui,
         supportsCreateIndex = cp_type contract = js ''elasticsearch'' \<and> \<not> structureEditRestricted,
         supportsCreateDatabase = \<not> structureEditRestricted \<and> ui_createDatabase ui,
         supportsCreateDatabaseCharset = \<not> structureEditRestricted \<and> ui_createDatabaseCharset ui,
         supportsRenameDatabase = \<not> structureEditRestricted \<and> ui_renameDatabase ui,
         supportsDropDatabase = \<not> structureEditRestricted \<and> ui_dropDatabase ui,
         supportsMessagePublish = \<not> dataEditRestricted \<and> ui_messagePublish ui,
         forceReadOnlyQueryResult = dataEditRestricted \<or> ui_forceReadOnlyQueryResult ui,
         forceReadOnlyStructureDesigner = structureEditRestricted \<or> ui_forceReadOnlyStructureDesigner ui,
         preferManualTotalCount = ui_preferManualTotalCount ui,
         supportsApproximateTableCount = ui_supportsApproximateTableCount ui,
         supportsApproximateTotalPages = ui_supportsApproximateTotalPages ui,
         supportsRelationalObjectKindFilter = oc_supported (cp_schema contract) \<and> \<not> isMessageQueueDataSource config,
         supportsUserManagement = \<not> customConnection \<and> ui_userManagement ui\<rparr>))
     (getDataSourceCapabilityContract registry config)"

section \<open>Two ways to name a connection\<close>

text \<open>
  The dialect of a connection (\<open>resolveSqlDialect\<close>) and the type of its data source come from two tables
  of names. The labels of the second one lead to the same dialect as what they stand for.
\<close>

lemma token_table:
  "list_all (\<lambda>(labels, type). js_lower (js_trim type) = type \<and> type \<notin> {[], js ''custom'', js ''oceanbase''}
     \<and> list_all (\<lambda>l. l \<notin> {[], js ''custom'', js ''oceanbase''} \<and> resolveSource l = resolveSource type) labels)
   dataSourceTokens"
  by code_simp

lemma token_cases:
  obtains labels type where "(labels, type) \<in> set dataSourceTokens" "t \<in> set labels" "dataSourceToken t = type"
  | "dataSourceToken t = t"
proof (cases "find (\<lambda>(labels, _). t \<in> set labels) dataSourceTokens")
  case (Some e)
  then obtain labels type where "e = (labels, type)" "(labels, type) \<in> set dataSourceTokens" "t \<in> set labels"
    by (cases e) (auto simp: find_Some_iff dest: nth_mem)
  with Some show ?thesis by (intro that(1)) (simp_all add: dataSourceToken_def)
qed (simp add: that(2) dataSourceToken_def)

lemma token_special:
  "w \<in> {[], js ''custom'', js ''oceanbase''} \<Longrightarrow> dataSourceToken t = w \<longleftrightarrow> t = w"
proof (cases t rule: token_cases)
  case (1 labels type)
  then have "type \<notin> {[], js ''custom'', js ''oceanbase''}" "t \<notin> {[], js ''custom'', js ''oceanbase''}"
    using token_table by (auto simp: list_all_iff simp del: js_Cons)
  with 1(3) show "w \<in> {[], js ''custom'', js ''oceanbase''} \<Longrightarrow> dataSourceToken t = w \<longleftrightarrow> t = w" by blast
qed simp

lemma token_source: "resolveSource (dataSourceToken t) = resolveSource t"
  by (cases t rule: token_cases) (use token_table in \<open>auto simp: list_all_iff simp del: js_Cons\<close>)

lemma token_normal: "js_lower (js_trim t) = t \<Longrightarrow> js_lower (js_trim (dataSourceToken t)) = dataSourceToken t"
  by (cases t rule: token_cases) (use token_table in \<open>auto simp: list_all_iff simp del: js_Cons\<close>)

text \<open>The dialect of a name is the dialect of its data source.\<close>

definition sourceDialect :: "js_string \<Rightarrow> js_string" where
  "sourceDialect s = (if s = [] then js ''unknown'' else resolveSource s)"

lemma dialect_of_token:
  assumes "js_lower (js_trim t) = t" "t \<noteq> js ''custom''"
  shows "dialectOf (dataSourceToken t) = sourceDialect t"
proof (cases "t = []")
  case True
  then have "dataSourceToken t = []" using token_special [of "[]" t] by simp
  moreover have "dialectOf [] = js ''unknown''" by code_simp
  ultimately show ?thesis using True by (simp add: sourceDialect_def)
next
  case False
  have "dataSourceToken t \<noteq> []" "dataSourceToken t \<noteq> js ''custom''"
    using token_special [of "[]" t] token_special [of "js ''custom''" t] False assms(2) by (simp_all del: js_Cons)
  from dialectOf_source [OF this token_normal [OF assms(1)]] False show ?thesis
    by (simp add: sourceDialect_def token_source)
qed

lemma js_lower_trim: "js_lower (js_trim (js_lower (js_trim t))) = js_lower (js_trim t)"
  by simp

lemma constants:
  "js_lower (js_trim []) = []" "dataSourceToken [] = []" "dialectOf [] = js ''unknown''" "sourceDialect [] = js ''unknown''"
  "dialectOf (js ''oracle'') = js ''oracle''" "dialectOf (js ''custom'') = js ''unknown''"
  by code_simp+

lemma oracle_protocol:
  "resolveOceanBaseProtocolForDialect p = ObOracle \<longleftrightarrow> normalizeOceanBaseProtocol p = Some ObOracle"
  by (simp add: resolveOceanBaseProtocolForDialect_def split: option.split)

lemma distinct_words:
  "js ''oceanbase'' \<noteq> []" "[] \<noteq> js ''oceanbase''" "js ''oceanbase'' \<noteq> js ''custom''" "js ''custom'' \<noteq> []" "[] \<noteq> js ''custom''"
  by simp_all

lemma dialect_of_data_source:
  assumes "\<not> (normalizeRawDialect (cc_type c) = js ''custom'' \<and> normalizeRawDialect (cc_driver c) = js ''custom'')"
  shows "dialectOf (resolveDataSourceType (Some c))
    = resolveSqlDialect (cc_type c) (cc_driver c) (cc_oceanBaseProtocol c)"
proof -
  define t where "t = js_lower (js_trim (cc_type c))"
  define d where "d = js_lower (js_trim (cc_driver c))"
  define s where "s = (if t = js ''custom'' then d else t)"
  define viaOracle where "viaOracle \<longleftrightarrow> normalizeOceanBaseProtocol (cc_oceanBaseProtocol c) = Some ObOracle"
  have normal: "js_lower (js_trim s) = s" and not_custom: "s \<noteq> js ''custom''"
    using assms by (auto simp: s_def t_def d_def normalizeRawDialect_def simp del: js_Cons)
  have rhs: "resolveSqlDialect (cc_type c) (cc_driver c) (cc_oceanBaseProtocol c)
      = (if s = js ''oceanbase'' \<and> viaOracle then js ''oracle'' else sourceDialect s)"
    by (simp add: resolveSqlDialect_def normalizeRawDialect_def Let_def s_def t_def d_def viaOracle_def
        oracle_protocol sourceDialect_def distinct_words del: js_Cons)
  have special: "dataSourceToken x = js ''custom'' \<longleftrightarrow> x = js ''custom''"
    "dataSourceToken x = js ''oceanbase'' \<longleftrightarrow> x = js ''oceanbase''" "dataSourceToken x = [] \<longleftrightarrow> x = []" for x
    by (simp_all add: token_special del: js_Cons)
  have lhs: "resolveDataSourceType (Some c)
      = (if s = js ''oceanbase'' \<and> viaOracle then js ''oracle'' else if t = js ''custom'' \<and> s = [] then js ''custom''
         else dataSourceToken s)"
    by (simp add: resolveDataSourceType_def normalizeDataSourceToken_def Let_def special s_def viaOracle_def js_or_def
        t_def [symmetric] d_def [symmetric] distinct_words del: js_Cons)
  show ?thesis
    unfolding lhs rhs using dialect_of_token [OF normal not_custom] constants(4-6)
    by (simp del: js_Cons)
qed

text \<open>
  The two tables agree: the dialect of the data source of a connection is the dialect the connection
  resolves to, whatever its type, driver and protocol are. (Excepted is a connection of type custom whose
  driver is called custom.)
\<close>

lemma data_source_and_dialect_agree:
  assumes "\<not> (normalizeRawDialect (cc_type c) = js ''custom'' \<and> normalizeRawDialect (cc_driver c) = js ''custom'')"
  shows "resolveSqlDialect (resolveDataSourceType (Some c)) [] []
    = resolveSqlDialect (cc_type c) (cc_driver c) (cc_oceanBaseProtocol c)"
  using assms by (rule dialect_of_data_source)

definition legacyReadOnly :: "js_string \<Rightarrow> js_string \<Rightarrow> connectionConfig" where
  "legacyReadOnly type driver = \<lparr>cc_type = type, cc_driver = driver, cc_oceanBaseProtocol = [], cc_readOnly = True,
     cc_protection = None\<rparr>"

lemma data_source_and_dialect_agree_witness:
  "resolveSqlDialect (resolveDataSourceType (Some (legacyReadOnly (js ''custom'') (js '' GreatDB'')))) [] [] = js ''mysql''"
proof -
  let ?c = "legacyReadOnly (js ''custom'') (js '' GreatDB'')"
  have "normalizeRawDialect (cc_driver ?c) \<noteq> js ''custom''"
    and d: "resolveSqlDialect (cc_type ?c) (cc_driver ?c) (cc_oceanBaseProtocol ?c) = js ''mysql''" by code_simp+
  from data_source_and_dialect_agree [of ?c] this(1) d show ?thesis by (simp del: js_Cons)
qed

section \<open>Restricted connections\<close>


lemma message_queue_is_not_protected:
  assumes "isMessageQueueDataSource config"
  shows "\<not> isConnectionProtectionEnabled config key"
proof -
  have same: "list_all (\<lambda>t. js_lower (js_trim (dialectOf t)) \<notin> set CONNECTION_PROTECTION_TYPES \<and> t \<notin> {[], js ''custom''})
      MESSAGE_QUEUE_DATA_SOURCE_TYPES" by code_simp
  obtain c where c: "config = Some c" using assms same
    by (cases config) (auto simp: isMessageQueueDataSource_def resolveDataSourceType_def list_all_iff)
  have t: "resolveDataSourceType (Some c) \<in> set MESSAGE_QUEUE_DATA_SOURCE_TYPES"
    using assms by (simp add: isMessageQueueDataSource_def c)
  with same have t': "resolveDataSourceType (Some c) \<noteq> js ''custom''"
    "js_lower (js_trim (dialectOf (resolveDataSourceType (Some c)))) \<notin> set CONNECTION_PROTECTION_TYPES"
    by (auto simp: list_all_iff simp del: js_Cons)
  have custom: "dataSourceToken (js ''custom'') = js ''custom''" by code_simp
  have "resolveDataSourceType (Some c) = js ''custom''"
    if "normalizeRawDialect (cc_type c) = js ''custom''" "normalizeRawDialect (cc_driver c) = js ''custom''"
    using that distinct_words(3) by (simp add: resolveDataSourceType_def normalizeDataSourceToken_def
        normalizeRawDialect_def custom js_or_def Let_def del: js_Cons)
  then have "\<not> (normalizeRawDialect (cc_type c) = js ''custom'' \<and> normalizeRawDialect (cc_driver c) = js ''custom'')"
    using t'(1) by blast
  from dialect_of_data_source [OF this] t'(2) have "\<not> supportsConnectionReadOnlyMode config"
    by (simp add: supportsConnectionReadOnlyMode_def resolveConnectionReadOnlyType_def c)
  then show ?thesis
    by (cases key) (simp_all add: isConnectionProtectionEnabled_def resolveConnectionProtectionConfig_def
        EMPTY_CONNECTION_PROTECTION_def)
qed

lemmas restriction_defs = isConnectionDataEditRestricted_def isConnectionStructureEditRestricted_def
  isConnectionDataImportRestricted_def


text \<open>
  A message queue cannot be protected: neither the read-only flag nor any of the restrictions keeps its
  connection from publishing messages when its profile allows it.
\<close>

lemma message_queue_ignores_read_only:
  assumes "isMessageQueueDataSource config" "getDataSourceCapabilities registry config = Some caps"
  shows "supportsMessagePublish caps = ui_messagePublish (cp_ui (ds_contract caps))"
  using assms(2) message_queue_is_not_protected [OF assms(1)]
  by (auto simp: getDataSourceCapabilities_def Let_def restriction_defs)

text \<open>A table with one profile that grants everything.\<close>

definition grantingProfile :: capabilityProfile where
  "grantingProfile = (let op = \<lparr>oc_supported = True, oc_runtimeProbe = False, oc_reason = [], oc_alternative = [],
       oc_messageKey = []\<rparr> in
     \<lparr>cp_query = op, cp_metadata = op, cp_transaction = op, cp_pagination = op, cp_cancel = op, cp_schema = op,
      cp_sampling = op, cp_streaming = op, cp_dangerousOperations = op,
      cp_ui = \<lparr>ui_explainDiagnosis = True, ui_sqlQueryExport = True, ui_copyInsert = True, ui_copyTable = True,
        ui_createDatabase = True, ui_createDatabaseCharset = True, ui_renameDatabase = True, ui_dropDatabase = True,
        ui_messagePublish = True, ui_forceReadOnlyQueryResult = False, ui_forceReadOnlyStructureDesigner = False,
        ui_preferManualTotalCount = False, ui_supportsApproximateTableCount = False,
        ui_supportsApproximateTotalPages = False, ui_userManagement = True\<rparr>,
      cp_navigation = \<lparr>nc_primaryVisibilitySupported = True, nc_primaryKind = NavDatabase,
        nc_secondarySchemaVisibilitySupported = False, nc_schemaIdentifierCaseSensitive = False\<rparr>\<rparr>)"

definition grantingRegistry :: capabilityRegistry where
  "grantingRegistry = \<lparr>reg_profiles = [(js ''unknown'', grantingProfile)], reg_drivers = []\<rparr>"

lemma granting_facts:
  "getDataSourceCapabilities grantingRegistry config \<noteq> None"
  by (simp add: getDataSourceCapabilities_def getDataSourceCapabilityContract_def Let_def grantingRegistry_def jm_get_def
      split: option.split)


lemma message_queue_ignores_read_only_witness:
  "\<exists>caps. getDataSourceCapabilities grantingRegistry (Some (legacyReadOnly (js ''mqtts'') [])) = Some caps
     \<and> supportsMessagePublish caps"
proof -
  let ?c = "legacyReadOnly (js ''mqtts'') []"
  obtain caps where caps: "getDataSourceCapabilities grantingRegistry (Some ?c) = Some caps" using granting_facts by blast
  have q: "isMessageQueueDataSource (Some ?c)"
    and p: "map_option (\<lambda>caps. ui_messagePublish (cp_ui (ds_contract caps))) (getDataSourceCapabilities grantingRegistry (Some ?c))
      = Some True" by code_simp+
  from message_queue_ignores_read_only [OF q caps] p caps show ?thesis by simp
qed

end
