(* ===== verification/SqlEditorScan.thy ===== *)
theory SqlEditorScan
  imports SqlEmbeddedWrite JsText
begin

text \<open>
  The scans of \<open>src/frontend/src/utils/sqlEditorTransaction.ts\<close>: the first keyword of a statement, what
  is behind its common table expressions, and the statements that change the schema. \<open>None\<close> stands for
  the \<open>-1\<close> of the scans. Unlike the other scanners of the program these take a hash as a comment and know
  dollar quotes in every dialect.
\<close>

section \<open>Keywords\<close>

definition SQL_EDITOR_DML_KEYWORDS :: "js_string list" where
  "SQL_EDITOR_DML_KEYWORDS = map js [''insert'', ''update'', ''delete'', ''replace'', ''merge'', ''upsert'']"

definition SQL_EDITOR_READ_KEYWORDS :: "js_string list" where
  "SQL_EDITOR_READ_KEYWORDS =
     map js [''select'', ''with'', ''show'', ''describe'', ''desc'', ''explain'', ''pragma'', ''values'']"

definition SQL_EDITOR_SCHEMA_CHANGE_KEYWORDS :: "js_string list" where
  "SQL_EDITOR_SCHEMA_CHANGE_KEYWORDS = map js [''create'', ''alter'', ''drop'', ''rename'', ''comment'', ''reindex'']"

definition SQL_EDITOR_TRANSACTION_CONTROL_KEYWORDS :: "js_string list" where
  "SQL_EDITOR_TRANSACTION_CONTROL_KEYWORDS = map js [''begin'', ''commit'', ''rollback'', ''savepoint'', ''release'']"

definition SQL_EDITOR_BEGIN_TRANSACTION_CONTROL_KEYWORDS :: "js_string list" where
  "SQL_EDITOR_BEGIN_TRANSACTION_CONTROL_KEYWORDS =
     map js [''transaction'', ''tran'', ''work'', ''isolation'', ''read'', ''write'', ''deferred'', ''immediate'',
       ''exclusive'', ''distributed'']"

section \<open>Scanning\<close>

definition isSqlEditorKeywordChar :: "nat \<Rightarrow> bool" where
  "isSqlEditorKeywordChar c \<longleftrightarrow> ascii_alpha c \<or> ascii_digit c \<or> c = 95"

definition triviaStep :: "js_string \<Rightarrow> nat \<Rightarrow> (nat, nat) flow" where
  "triviaStep text pos =
     (if isWhitespace (text ! pos) then Continue (pos + 1)
      else if js_starts_at (js ''--'') text pos \<or> js_starts_at (js ''#'') text pos then Continue (lineCommentEnd text pos)
      else if js_starts_at (js ''/*'') text pos then Continue (blockCommentEnd text (pos + 2))
      else Return pos)"

definition skipSqlEditorTrivia :: "js_string \<Rightarrow> nat \<Rightarrow> nat" where
  "skipSqlEditorTrivia text start = loop_state (scan_loop at_index (length text) (triviaStep text) start)"

definition wordEnd :: "js_string \<Rightarrow> nat \<Rightarrow> nat" where
  "wordEnd text pos = skip_while isSqlEditorKeywordChar text (pos + 1)"

definition lowerWord :: "js_string \<Rightarrow> nat \<Rightarrow> js_string" where
  "lowerWord text pos = js_lower (js_slice text pos (wordEnd text pos))"

text \<open>The keyword and the position behind it.\<close>

definition readSqlEditorKeyword :: "js_string \<Rightarrow> nat \<Rightarrow> js_string \<times> nat" where
  "readSqlEditorKeyword text start =
     (let pos = skipSqlEditorTrivia text start in
      if \<not> js_at_is text pos isSqlEditorKeywordChar then ([], pos) else (lowerWord text pos, wordEnd text pos))"

definition delimitedStep :: "js_string \<Rightarrow> nat \<Rightarrow> nat \<Rightarrow> (nat, nat) flow" where
  "delimitedStep text q pos =
     (if text ! pos = q then
        (if js_at text (pos + 1) = Some q then Continue (pos + 2) else Return (pos + 1))
      else Continue (pos + 1))"

definition skipSqlEditorDelimited :: "js_string \<Rightarrow> nat \<Rightarrow> nat \<Rightarrow> nat" where
  "skipSqlEditorDelimited text start q =
     loop_result (length text) (scan_loop at_index (length text) (delimitedStep text q) (start + 1))"

definition skipSqlEditorBracketIdentifier :: "js_string \<Rightarrow> nat \<Rightarrow> js_string \<Rightarrow> nat" where
  "skipSqlEditorBracketIdentifier text start dbType =
     loop_result (length text) (scan_loop at_index (length text) (bracketTextStep text dbType) (start + 1))"

text \<open>The empty text when there is no tag.\<close>

definition resolveSqlEditorDollarQuoteTag :: "js_string \<Rightarrow> nat \<Rightarrow> js_string" where
  "resolveSqlEditorDollarQuoteTag text start =
     (if js_at text start \<noteq> Some (cu CHR ''$'') then []
      else if js_at text (wordEnd text start) = Some (cu CHR ''$'') then js_slice text start (wordEnd text start + 1)
      else [])"

definition skipSqlEditorQuotedOrComment :: "js_string \<Rightarrow> nat \<Rightarrow> js_string \<Rightarrow> nat option" where
  "skipSqlEditorQuotedOrComment text start dbType =
     (if js_starts_at (js ''--'') text start \<or> js_starts_at (js ''#'') text start then Some (lineCommentEnd text start)
      else if js_starts_at (js ''/*'') text start then Some (blockCommentEnd text (start + 2))
      else
        (let c = text ! start; tag = resolveSqlEditorDollarQuoteTag text start in
         if c = 39 \<or> c = 34 \<or> c = cu CHR ''`'' then Some (skipSqlEditorDelimited text start c)
         else if c = cu CHR ''['' \<and> supportsSqlBracketIdentifier dbType
         then Some (skipSqlEditorBracketIdentifier text start dbType)
         else if tag \<noteq> [] then
           Some (case js_index_of text tag (start + length tag) of
                   None \<Rightarrow> length text | Some dollarEnd \<Rightarrow> dollarEnd + length tag)
         else None))"

definition balancedStep :: "js_string \<Rightarrow> js_string \<Rightarrow> nat \<times> int \<Rightarrow> (nat \<times> int, nat) flow" where
  "balancedStep text dbType = (\<lambda>(pos, depth).
     (case skipSqlEditorQuotedOrComment text pos dbType of
        Some skipped \<Rightarrow> Continue (skipped, depth)
      | None \<Rightarrow>
          if text ! pos = cu CHR ''('' then Continue (pos + 1, depth + 1)
          else if text ! pos = cu CHR '')'' then
            (if depth - 1 = 0 then Return (pos + 1) else Continue (pos + 1, depth - 1))
          else Continue (pos + 1, depth)))"

text \<open>A scan that gives a position, or \<open>None\<close> at the end of the text.\<close>

fun found_at :: "('s, nat) flow \<Rightarrow> nat option" where
  "found_at (Continue s) = None"
| "found_at (Return r) = Some r"

definition skipBalancedSqlEditorParens :: "js_string \<Rightarrow> nat \<Rightarrow> js_string \<Rightarrow> nat option" where
  "skipBalancedSqlEditorParens text start dbType =
     (if js_at text start \<noteq> Some (cu CHR ''('') then None
      else found_at (scan_loop fst (length text) (balancedStep text dbType) (start, 0)))"

definition skipSqlEditorIdentifierToken :: "js_string \<Rightarrow> nat \<Rightarrow> js_string \<Rightarrow> nat option" where
  "skipSqlEditorIdentifierToken text start dbType =
     (if length text \<le> start then None
      else
        (let c = text ! start in
         if c = 34 \<or> c = cu CHR ''`'' then Some (skipSqlEditorDelimited text start c)
         else if c = cu CHR ''['' \<and> supportsSqlBracketIdentifier dbType
         then Some (skipSqlEditorBracketIdentifier text start dbType)
         else if \<not> isSqlEditorKeywordChar c then None
         else Some (wordEnd text start)))"

definition topLevelStep :: "js_string \<Rightarrow> js_string \<Rightarrow> js_string \<Rightarrow> nat \<times> nat \<Rightarrow> (nat \<times> nat, nat) flow" where
  "topLevelStep text keyword dbType = (\<lambda>(pos, depth).
     (case skipSqlEditorQuotedOrComment text pos dbType of
        Some skipped \<Rightarrow> Continue (skipped, depth)
      | None \<Rightarrow>
          if text ! pos = cu CHR ''('' then Continue (pos + 1, depth + 1)
          else if text ! pos = cu CHR '')'' then Continue (pos + 1, depth - 1)
          else if depth = 0 \<and> isSqlEditorKeywordChar (text ! pos) then
            (if lowerWord text pos = keyword then Return (wordEnd text pos) else Continue (wordEnd text pos, depth))
          else Continue (pos + 1, depth)))"

definition findTopLevelSqlEditorKeyword :: "js_string \<Rightarrow> nat \<Rightarrow> js_string \<Rightarrow> js_string \<Rightarrow> nat option" where
  "findTopLevelSqlEditorKeyword text start keyword dbType =
     found_at (scan_loop fst (length text) (topLevelStep text keyword dbType) (start, 0))"

section \<open>Common table expressions\<close>

text \<open>Behind \<open>MATERIALIZED\<close> or \<open>NOT MATERIALIZED\<close>.\<close>

definition behindMaterialized :: "js_string \<Rightarrow> nat \<Rightarrow> nat" where
  "behindMaterialized text pos =
     (let (keyword, end_pos) = readSqlEditorKeyword text pos in
      if keyword = js ''not'' then
        (let (next_keyword, next_end) = readSqlEditorKeyword text end_pos in
         if next_keyword = js ''materialized'' then next_end else pos)
      else if keyword = js ''materialized'' then end_pos else pos)"

text \<open>
  One table expression: its body is added to the bodies before it. The loop returns the keyword behind the
  last one, the empty text when the statement is no list of table expressions.
\<close>

definition withStep ::
  "js_string \<Rightarrow> js_string \<Rightarrow> nat \<times> js_string list \<Rightarrow> (nat \<times> js_string list, js_string \<times> js_string list) flow" where
  "withStep text dbType = (\<lambda>(pos, bodies).
     (case skipSqlEditorIdentifierToken text (skipSqlEditorTrivia text pos) dbType of
        None \<Rightarrow> Return ([], bodies)
      | Some identifierEnd \<Rightarrow>
     (let p = skipSqlEditorTrivia text identifierEnd in
      case (if js_at text p = Some (cu CHR ''('')
            then map_option (skipSqlEditorTrivia text) (skipBalancedSqlEditorParens text p dbType) else Some p) of
        None \<Rightarrow> Return ([], bodies)
      | Some behindColumns \<Rightarrow>
     (case findTopLevelSqlEditorKeyword text behindColumns (js ''as'') dbType of
        None \<Rightarrow> Return ([], bodies)
      | Some asEnd \<Rightarrow>
     (let q = skipSqlEditorTrivia text (behindMaterialized text (skipSqlEditorTrivia text asEnd)) in
      case skipBalancedSqlEditorParens text q dbType of
        None \<Rightarrow> Return ([], bodies)
      | Some cteEnd \<Rightarrow>
     (let cteBody = js_slice text (q + 1) (max (q + 1) (cteEnd - 1)); r = skipSqlEditorTrivia text cteEnd in
      if js_at text r = Some (cu CHR '','') then Continue (r + 1, bodies @ [cteBody])
      else Return (fst (readSqlEditorKeyword text r), bodies @ [cteBody])))))))"

fun withResult :: "(nat \<times> js_string list, js_string \<times> js_string list) flow \<Rightarrow> js_string \<times> js_string list" where
  "withResult (Continue (pos, bodies)) = ([], bodies)"
| "withResult (Return r) = r"

text \<open>The keyword of the statement behind its table expressions, and their bodies.\<close>

definition resolveSqlEditorWithAnalysis :: "js_string \<Rightarrow> nat \<Rightarrow> js_string \<Rightarrow> js_string \<times> js_string list" where
  "resolveSqlEditorWithAnalysis text start dbType =
     (let pos = skipSqlEditorTrivia text start; (keyword, end_pos) = readSqlEditorKeyword text pos in
      withResult (scan_loop fst (length text) (withStep text dbType)
        (if keyword = js ''recursive'' then end_pos else pos, [])))"

definition resolveSqlEditorOperationKeyword :: "js_string \<Rightarrow> js_string \<Rightarrow> js_string" where
  "resolveSqlEditorOperationKeyword statement dbType =
     (let (keyword, end_pos) = readSqlEditorKeyword statement 0 in
      if keyword \<noteq> js ''with'' then keyword
      else js_or (fst (resolveSqlEditorWithAnalysis statement end_pos dbType)) keyword)"

section \<open>The scans move forward\<close>

lemma wordEnd_gt: "pos < wordEnd t pos"
  using skip_while_ge [of "pos + 1" isSqlEditorKeywordChar t] by (simp add: wordEnd_def del: skip_while_ge)

interpretation trivia: scanner at_index "length t" "triviaStep t" for t
  by unfold_locales (auto simp: triviaStep_def lineCommentEnd_gt blockCommentEnd_gt [simplified] split: if_splits)

interpretation delimited: scanner at_index "length t" "delimitedStep t q" for t q
  by unfold_locales (auto simp: delimitedStep_def split: if_splits)

lemma delimited_gt: "pos < length t \<Longrightarrow> pos < skipSqlEditorDelimited t pos q"
proof (cases "scan_loop at_index (length t) (delimitedStep t q) (pos + 1)")
  case (Return r)
  have "pos < r"
    by (rule delimited.return_from [OF Return, where I = "\<lambda>j. pos < j"]) (auto simp: delimitedStep_def split: if_splits)
  with Return show ?thesis by (simp add: skipSqlEditorDelimited_def)
qed (simp add: skipSqlEditorDelimited_def)

lemma bracketed_gt: "pos < length t \<Longrightarrow> pos < skipSqlEditorBracketIdentifier t pos db"
  using bracketText_gt [of pos t db] by (simp add: skipSqlEditorBracketIdentifier_def)

lemma dollar_gt:
  "pos < length t \<Longrightarrow> tag \<noteq> [] \<Longrightarrow>
   pos < (case js_index_of t tag (pos + length tag) of None \<Rightarrow> length t | Some dollarEnd \<Rightarrow> dollarEnd + length tag)"
  by (cases tag) (auto split: option.split dest!: js_index_ofD)

lemma editor_skip_gt:
  assumes "pos < length t" "skipSqlEditorQuotedOrComment t pos db = Some e"
  shows "pos < e"
  using assms dollar_gt [OF assms(1), of "resolveSqlEditorDollarQuoteTag t pos"]
  by (auto simp: skipSqlEditorQuotedOrComment_def Let_def lineCommentEnd_gt blockCommentEnd_gt [simplified] delimited_gt
      bracketed_gt split: if_splits)

interpretation balanced: scanner fst "length t" "balancedStep t db" for t db
  by unfold_locales (auto simp: balancedStep_def split: option.splits if_splits dest: editor_skip_gt)

interpretation top_level: scanner fst "length t" "topLevelStep t w db" for t w db
  by unfold_locales (auto simp: topLevelStep_def wordEnd_gt split: option.splits if_splits dest: editor_skip_gt)

lemma trivia_ge: "pos \<le> skipSqlEditorTrivia t pos"
proof (cases "scan_loop at_index (length t) (triviaStep t) pos")
  case (Continue s)
  then show ?thesis using trivia.moves_forward [OF Continue] by (simp add: skipSqlEditorTrivia_def)
next
  case (Return r)
  have "pos \<le> r"
    by (rule trivia.return_from [OF Return, where I = "\<lambda>j. pos \<le> j"])
      (auto simp: triviaStep_def split: if_splits intro!: order_trans [OF _ less_imp_le [OF lineCommentEnd_gt]] order_trans [OF _ less_imp_le [OF blockCommentEnd_gt [simplified]]])
  with Return show ?thesis by (simp add: skipSqlEditorTrivia_def)
qed

text \<open>The scans that find a position find one behind where they start.\<close>

lemma keyword_end_ge: "pos \<le> snd (readSqlEditorKeyword t pos)"
  using trivia_ge [of pos t] wordEnd_gt [of "skipSqlEditorTrivia t pos" t]
  by (auto simp: readSqlEditorKeyword_def Let_def)

lemma found_return: "found_at r = Some p \<longleftrightarrow> r = Return p"
  by (cases r) auto

lemma balanced_gt:
  assumes "skipBalancedSqlEditorParens t pos db = Some e"
  shows "pos < e" and "pos < length t"
proof -
  have run: "scan_loop fst (length t) (balancedStep t db) (pos, 0) = Return e" and at: "pos < length t"
    using assms by (auto simp: skipBalancedSqlEditorParens_def found_return js_at_def split: if_splits)
  show "pos < length t" by (rule at)
  show "pos < e"
    by (rule balanced.return_from [OF run, where I = "\<lambda>s. pos \<le> fst s"])
      (auto simp: balancedStep_def split: option.splits if_splits dest: editor_skip_gt)
qed

lemma top_level_gt:
  assumes "findTopLevelSqlEditorKeyword t pos w db = Some e"
  shows "pos < e"
proof -
  have run: "scan_loop fst (length t) (topLevelStep t w db) (pos, 0) = Return e"
    using assms by (simp add: findTopLevelSqlEditorKeyword_def found_return)
  have word: "pos \<le> wordEnd t a" "pos < wordEnd t a" if "pos \<le> a" for a
    using that wordEnd_gt [of a t] by simp_all
  have skip: "pos \<le> c" if "pos \<le> a" "a < length t" "skipSqlEditorQuotedOrComment t a db = Some c" for a c
    using that editor_skip_gt [OF that(2,3)] by simp
  show ?thesis
    by (rule top_level.return_from [OF run, where I = "\<lambda>s. pos \<le> fst s"])
      (auto simp: topLevelStep_def word skip split: option.splits if_splits)
qed

lemma token_gt: "skipSqlEditorIdentifierToken t pos db = Some e \<Longrightarrow> pos < e"
  using wordEnd_gt delimited_gt bracketed_gt by (auto simp: skipSqlEditorIdentifierToken_def Let_def split: if_splits)

lemma materialized_ge: "pos \<le> behindMaterialized t pos"
proof -
  have "pos \<le> snd (readSqlEditorKeyword t (snd (readSqlEditorKeyword t pos)))"
    using keyword_end_ge [of pos t] keyword_end_ge [of "snd (readSqlEditorKeyword t pos)" t] by linarith
  then show ?thesis using keyword_end_ge [of pos t]
    by (auto simp: behindMaterialized_def Let_def split: prod.split)
qed

text \<open>The bodies of the table expressions are shorter than the statement.\<close>

definition shorter :: "js_string \<Rightarrow> js_string list \<Rightarrow> bool" where
  "shorter t bodies \<longleftrightarrow> (\<forall>b\<in>set bodies. length b < length t)"

lemma shorter_simps [simp]: "shorter t []" "shorter t (xs @ [x]) \<longleftrightarrow> shorter t xs \<and> length x < length t"
  by (auto simp: shorter_def)

lemma slice_shorter: "q < length t \<Longrightarrow> length (js_slice t (Suc q) e) < length t"
  by (simp add: js_slice_def)

lemma with_step_shorter:
  assumes "shorter t (snd s)"
  shows "withStep t db s = Continue s' \<Longrightarrow> shorter t (snd s')"
    and "withStep t db s = Return r \<Longrightarrow> shorter t (snd r)"
  using assms by (auto simp: withStep_def Let_def slice_shorter split: prod.splits option.splits if_splits dest: balanced_gt(2))

lemma with_step_progress: "withStep t db s = Continue s' \<Longrightarrow> fst s < fst s'"
proof -
  obtain pos bodies where s: "s = (pos, bodies)" by (cases s)
  assume step: "withStep t db s = Continue s'"
  then obtain i where 1: "skipSqlEditorIdentifierToken t (skipSqlEditorTrivia t pos) db = Some i"
    by (cases "skipSqlEditorIdentifierToken t (skipSqlEditorTrivia t pos) db") (simp_all add: s withStep_def)
  define p where "p = skipSqlEditorTrivia t i"
  define columns where "columns = (if js_at t p = Some 40
    then map_option (skipSqlEditorTrivia t) (skipBalancedSqlEditorParens t p db) else Some p)"
  from step obtain c where 2: "columns = Some c"
    by (cases columns) (simp_all add: s withStep_def 1 Let_def p_def [symmetric] columns_def [symmetric])
  from step obtain a where 3: "findTopLevelSqlEditorKeyword t c (js ''as'') db = Some a"
    by (cases "findTopLevelSqlEditorKeyword t c (js ''as'') db")
      (simp_all add: s withStep_def 1 2 Let_def p_def [symmetric] columns_def [symmetric] del: js_Cons)
  define q where "q = skipSqlEditorTrivia t (behindMaterialized t (skipSqlEditorTrivia t a))"
  from step obtain e where 4: "skipBalancedSqlEditorParens t q db = Some e"
    by (cases "skipBalancedSqlEditorParens t q db")
      (simp_all add: s withStep_def 1 2 3 Let_def p_def [symmetric] columns_def [symmetric] q_def [symmetric] del: js_Cons)
  from step have 5: "fst s' = skipSqlEditorTrivia t e + 1"
    by (auto simp: s withStep_def 1 2 3 4 Let_def p_def [symmetric] columns_def [symmetric] q_def [symmetric]
        simp del: js_Cons split: if_splits)
  have "p \<le> c"
  proof (cases "js_at t p = Some 40")
    case True
    with 2 obtain d where "skipBalancedSqlEditorParens t p db = Some d" "c = skipSqlEditorTrivia t d"
      by (auto simp: columns_def)
    then show ?thesis using balanced_gt(1) [of t p db d] trivia_ge [of d t] by simp
  qed (use 2 in \<open>simp add: columns_def\<close>)
  moreover have "c < a" by (rule top_level_gt [OF 3])
  moreover have "a < e"
    using balanced_gt(1) [OF 4] trivia_ge [of a t] materialized_ge [of "skipSqlEditorTrivia t a" t]
      trivia_ge [of "behindMaterialized t (skipSqlEditorTrivia t a)" t] unfolding q_def by linarith
  moreover have "pos < p"
    using token_gt [OF 1] trivia_ge [of pos t] trivia_ge [of i t] unfolding p_def by linarith
  ultimately show ?thesis using trivia_ge [of e t] 5 by (simp add: s)
qed

interpretation with_list: scanner fst "length t" "withStep t db" for t db
  by unfold_locales (rule with_step_progress)

lemma with_bodies_shorter: "shorter t (snd (resolveSqlEditorWithAnalysis t start db))"
proof -
  define i where "i = (let pos = skipSqlEditorTrivia t start; (keyword, e) = readSqlEditorKeyword t pos in
    if keyword = js ''recursive'' then e else pos)"
  have "resolveSqlEditorWithAnalysis t start db = withResult (scan_loop fst (length t) (withStep t db) (i, []))"
    by (simp add: resolveSqlEditorWithAnalysis_def i_def Let_def split: prod.split)
  moreover have "shorter t (snd (withResult (scan_loop fst (length t) (withStep t db) (i, []))))"
  proof (cases "scan_loop fst (length t) (withStep t db) (i, [])")
    case (Continue s)
    have "shorter t (snd s)"
      by (rule with_list.invariant [OF Continue, where I = "\<lambda>s. shorter t (snd s)"]) (auto dest: with_step_shorter(1) [rotated])
    with Continue show ?thesis by (cases s) simp
  next
    case (Return r)
    have "shorter t (snd r)"
      by (rule with_list.return_from [OF Return, where I = "\<lambda>s. shorter t (snd s)"])
        (auto dest: with_step_shorter [rotated])
    with Return show ?thesis by simp
  qed
  ultimately show ?thesis by simp
qed

section \<open>Writes\<close>

text \<open>
  A statement that writes data: one that reads but has a write behind a missing semicolon, one whose table
  expressions write or stand before a write, or one that begins with a write.
\<close>

function sqlEditorStatementHasManagedWrite :: "js_string \<Rightarrow> js_string \<Rightarrow> bool" where
  "sqlEditorStatementHasManagedWrite statement dbType \<longleftrightarrow>
     (let (keyword, end_pos) = readSqlEditorKeyword statement 0 in
      if keyword \<in> set SQL_EDITOR_READ_KEYWORDS
         \<and> firstEmbeddedWriteKeyword statement dbType \<in> set SQL_EDITOR_DML_KEYWORDS then True
      else if keyword = js ''with'' then
        (let (behind, bodies) = resolveSqlEditorWithAnalysis statement end_pos dbType in
         list_ex (\<lambda>body. sqlEditorStatementHasManagedWrite body dbType) bodies \<or> behind \<in> set SQL_EDITOR_DML_KEYWORDS)
      else keyword \<in> set SQL_EDITOR_DML_KEYWORDS)"
  by pat_completeness auto

termination
proof (relation "measure (\<lambda>(statement, dbType). length statement)")
  fix statement dbType k keyword end_pos w behind bodies body
  assume "w = resolveSqlEditorWithAnalysis statement end_pos dbType" "(behind, bodies) = w" "body \<in> set bodies"
  then show "((body, dbType), statement, dbType) \<in> measure (\<lambda>(statement, dbType). length statement)"
    using with_bodies_shorter [of statement end_pos dbType] by (simp add: shorter_def split: prod.splits) (metis snd_conv)
qed simp

declare sqlEditorStatementHasManagedWrite.simps [simp del]

section \<open>Words of a statement\<close>

definition containsStep :: "js_string \<Rightarrow> js_string \<Rightarrow> js_string \<Rightarrow> nat \<Rightarrow> (nat, bool) flow" where
  "containsStep text wanted dbType pos =
     (case skipSqlEditorQuotedOrComment text pos dbType of
        Some skipped \<Rightarrow> Continue skipped
      | None \<Rightarrow>
          if \<not> isSqlEditorKeywordChar (text ! pos) then Continue (pos + 1)
          else if lowerWord text pos = wanted then Return True
          else Continue (wordEnd text pos))"

definition sqlEditorStatementContainsKeyword :: "js_string \<Rightarrow> js_string \<Rightarrow> js_string \<Rightarrow> bool" where
  "sqlEditorStatementContainsKeyword text wanted dbType =
     loop_result False (scan_loop at_index (length text) (containsStep text wanted dbType) 0)"

definition isSqlEditorSchemaKeywordAtStatementStart :: "js_string \<Rightarrow> nat \<Rightarrow> js_string \<Rightarrow> bool" where
  "isSqlEditorSchemaKeywordAtStatementStart text tokenEnd keyword =
     (let next_pos = skipSqlEditorTrivia text tokenEnd in
      if length text \<le> next_pos then keyword \<noteq> js ''comment''
      else if js_starts_at (js ''='') text next_pos \<or> js_starts_at (js '':='') text next_pos then False
      else if keyword = js ''comment'' then fst (readSqlEditorKeyword text next_pos) = js ''on''
      else js_at text next_pos \<noteq> Some (cu CHR ''.''))"

definition schemaStep :: "js_string \<Rightarrow> js_string \<Rightarrow> nat \<times> bool \<Rightarrow> (nat \<times> bool, bool) flow" where
  "schemaStep text dbType = (\<lambda>(pos, statementStart).
     (case skipSqlEditorQuotedOrComment text pos dbType of
        Some skipped \<Rightarrow> Continue (skipped, statementStart)
      | None \<Rightarrow>
          if text ! pos = cu CHR '';'' then Continue (pos + 1, True)
          else if \<not> isSqlEditorKeywordChar (text ! pos) then Continue (pos + 1, statementStart)
          else
            (let keyword = lowerWord text pos; word_end = wordEnd text pos in
             if statementStart \<and> keyword \<in> set SQL_EDITOR_SCHEMA_CHANGE_KEYWORDS
                \<and> isSqlEditorSchemaKeywordAtStatementStart text word_end keyword then Return True
             else Continue (word_end, keyword \<in> set (map js [''begin'', ''then'', ''else'', ''loop'', ''case''])))))"

definition sqlEditorStatementContainsSchemaChangeKeyword :: "js_string \<Rightarrow> js_string \<Rightarrow> bool" where
  "sqlEditorStatementContainsSchemaChangeKeyword text dbType =
     loop_result False (scan_loop fst (length text) (schemaStep text dbType) (0, True))"

definition wordPairStep ::
  "js_string \<Rightarrow> js_string \<Rightarrow> js_string \<Rightarrow> js_string \<Rightarrow> nat \<times> js_string \<Rightarrow> (nat \<times> js_string, bool) flow" where
  "wordPairStep text first_word second_word dbType = (\<lambda>(pos, previousKeyword).
     (case skipSqlEditorQuotedOrComment text pos dbType of
        Some skipped \<Rightarrow> Continue (skipped, previousKeyword)
      | None \<Rightarrow>
          if \<not> isSqlEditorKeywordChar (text ! pos) then Continue (pos + 1, previousKeyword)
          else if previousKeyword = first_word \<and> lowerWord text pos = second_word then Return True
          else Continue (wordEnd text pos, lowerWord text pos)))"

definition sqlEditorStatementContainsKeywordSequence :: "js_string \<Rightarrow> js_string \<Rightarrow> js_string \<Rightarrow> js_string \<Rightarrow> bool" where
  "sqlEditorStatementContainsKeywordSequence text first_word second_word dbType =
     loop_result False (scan_loop fst (length text) (wordPairStep text first_word second_word dbType) (0, []))"

definition sqlEditorStatementContainsDynamicSql :: "js_string \<Rightarrow> js_string \<Rightarrow> bool" where
  "sqlEditorStatementContainsDynamicSql text dbType \<longleftrightarrow>
     sqlEditorStatementContainsKeywordSequence text (js ''execute'') (js ''immediate'') dbType
     \<or> sqlEditorStatementContainsKeyword text (js ''sp_executesql'') dbType
     \<or> sqlEditorStatementContainsKeywordSequence text (js ''execute'') (js ''dynamic'') dbType"

definition isSqlEditorSchemaChangingStatement :: "js_string \<Rightarrow> js_string \<Rightarrow> bool" where
  "isSqlEditorSchemaChangingStatement text dbType =
     (let keyword = resolveSqlEditorOperationKeyword text dbType in
      if keyword \<in> set SQL_EDITOR_SCHEMA_CHANGE_KEYWORDS then True
      else if keyword = js ''do'' then True
      else if keyword \<notin> set (map js [''begin'', ''declare'']) then False
      else if sqlEditorStatementContainsDynamicSql text dbType then True
      else sqlEditorStatementContainsSchemaChangeKeyword text dbType)"

definition forUpdateStep :: "js_string \<Rightarrow> js_string \<Rightarrow> nat \<Rightarrow> (nat, bool) flow" where
  "forUpdateStep text dbType searchFrom =
     (case findTopLevelSqlEditorKeyword text searchFrom (js ''for'') dbType of
        None \<Rightarrow> Return False
      | Some forEnd \<Rightarrow>
          if fst (readSqlEditorKeyword text forEnd) = js ''update'' then Return True else Continue forEnd)"

definition hasTopLevelSqlEditorForUpdate :: "js_string \<Rightarrow> js_string \<Rightarrow> bool" where
  "hasTopLevelSqlEditorForUpdate text dbType =
     (if resolveSqlEditorOperationKeyword text dbType \<noteq> js ''select'' then False
      else loop_result False (scan_loop at_index (length text) (forUpdateStep text dbType) 0))"

interpretation contains: scanner at_index "length t" "containsStep t w db" for t w db
  by unfold_locales (auto simp: containsStep_def wordEnd_gt split: option.splits if_splits dest: editor_skip_gt)

interpretation schema: scanner fst "length t" "schemaStep t db" for t db
  by unfold_locales (auto simp: schemaStep_def Let_def wordEnd_gt split: option.splits if_splits dest: editor_skip_gt)

interpretation sequence: scanner fst "length t" "wordPairStep t a b db" for t a b db
  by unfold_locales (auto simp: wordPairStep_def wordEnd_gt split: option.splits if_splits dest: editor_skip_gt)

interpretation for_update: scanner at_index "length t" "forUpdateStep t db" for t db
  by unfold_locales (auto simp: forUpdateStep_def split: option.splits if_splits dest: top_level_gt)

text \<open>The specification: the words, in lower case, that stand outside quotes and comments, in order.\<close>

function editorWords :: "js_string \<Rightarrow> js_string \<Rightarrow> nat \<Rightarrow> js_string list" where
  "editorWords t db i =
     (if length t \<le> i then []
      else (case skipSqlEditorQuotedOrComment t i db of
          Some e \<Rightarrow> editorWords t db e
        | None \<Rightarrow>
            if \<not> isSqlEditorKeywordChar (t ! i) then editorWords t db (i + 1)
            else lowerWord t i # editorWords t db (wordEnd t i)))"
  by pat_completeness auto

termination
proof (relation "measure (\<lambda>(t, db, i). length t - i)")
  fix t db i e
  assume "\<not> length t \<le> i" "skipSqlEditorQuotedOrComment t i db = Some e"
  then show "((t, db, e), t, db, i) \<in> measure (\<lambda>(t, db, i). length t - i)" using editor_skip_gt [of i t db e] by simp
qed (use wordEnd_gt in \<open>auto intro: diff_less_mono2\<close>)

declare editorWords.simps [simp del]

lemma contains_word:
  "loop_result False (scan_loop at_index (length t) (containsStep t w db) i) \<longleftrightarrow> w \<in> set (editorWords t db i)"
proof (induction t db i rule: editorWords.induct)
  case (1 t db i)
  show ?case
  proof (cases "i < length t")
    case True
    then show ?thesis using 1
      by (subst contains.unfold, subst editorWords.simps) (auto simp: containsStep_def [of t w db i] split: option.split)
  qed (simp add: editorWords.simps)
qed

fun follows :: "js_string \<Rightarrow> js_string \<Rightarrow> js_string \<Rightarrow> js_string list \<Rightarrow> bool" where
  "follows a b prev [] = False"
| "follows a b prev (w # ws) = (prev = a \<and> w = b \<or> follows a b w ws)"

lemma follows_iff: "follows a b prev ws \<longleftrightarrow> (\<exists>xs ys. prev # ws = xs @ [a, b] @ ys)"
proof (induction ws arbitrary: prev)
  case (Cons w ws)
  have "(\<exists>xs ys. prev # w # ws = xs @ [a, b] @ ys) \<longleftrightarrow>
      prev = a \<and> w = b \<or> (\<exists>xs ys. w # ws = xs @ [a, b] @ ys)"
    by (metis (no_types) append_Cons append_Nil list.exhaust list.inject)
  then show ?case by (simp add: Cons.IH)
qed (auto simp: Cons_eq_append_conv)

lemma sequence_at:
  "wordPairStep t a b db (i, prev) =
     (case skipSqlEditorQuotedOrComment t i db of
        Some skipped \<Rightarrow> Continue (skipped, prev)
      | None \<Rightarrow>
          if \<not> isSqlEditorKeywordChar (t ! i) then Continue (i + 1, prev)
          else if prev = a \<and> lowerWord t i = b then Return True
          else Continue (wordEnd t i, lowerWord t i))"
  by (simp add: wordPairStep_def)

lemma sequence_word:
  "loop_result False (scan_loop fst (length t) (wordPairStep t a b db) (i, prev)) \<longleftrightarrow> follows a b prev (editorWords t db i)"
proof (induction t db i arbitrary: prev rule: editorWords.induct)
  case (1 t db i)
  show ?case
  proof (cases "i < length t")
    case True
    then show ?thesis using 1
      by (subst sequence.unfold, subst editorWords.simps) (auto simp: sequence_at [of t a b db i prev] split: option.split)
  qed (simp add: editorWords.simps)
qed

text \<open>
  Dynamic SQL is found between words: a statement contains it exactly when, outside quotes and comments,
  the word \<open>execute\<close> is followed by \<open>immediate\<close> or \<open>dynamic\<close>, or the word \<open>sp_executesql\<close> occurs.
\<close>

lemma dynamic_sql_refines_words:
  "sqlEditorStatementContainsDynamicSql t db \<longleftrightarrow>
     js ''sp_executesql'' \<in> set (editorWords t db 0)
     \<or> (\<exists>xs ys second. editorWords t db 0 = xs @ [js ''execute'', second] @ ys
          \<and> second \<in> {js ''immediate'', js ''dynamic''})"
proof -
  have seq: "sqlEditorStatementContainsKeywordSequence t (js ''execute'') second db
      \<longleftrightarrow> (\<exists>xs ys. editorWords t db 0 = xs @ [js ''execute'', second] @ ys)" for second
  proof -
    have "[] # ws = xs @ [js ''execute'', second] @ ys \<longleftrightarrow> (\<exists>zs. xs = [] # zs \<and> ws = zs @ [js ''execute'', second] @ ys)"
      for ws xs ys by (cases xs) auto
    then show ?thesis unfolding sqlEditorStatementContainsKeywordSequence_def sequence_word follows_iff by blast
  qed
  show ?thesis
    unfolding sqlEditorStatementContainsDynamicSql_def seq
    by (auto simp: sqlEditorStatementContainsKeyword_def contains_word simp del: js_Cons)
qed

end
