(* ===== verification/SqlTransaction.thy ===== *)
theory SqlTransaction
  imports DataSourceCapabilities SqlEditorScan
begin

text \<open>
  Which batches of the editor run in a transaction that the program manages, and which may run in one that is
  pending (\<open>src/frontend/src/utils/sqlEditorTransaction.ts\<close>), on top of the scans of SqlEditorScan. Whether
  the data source has transactions is read from the table of capabilities; \<open>None\<close> is the error of that
  table. A statement that is no text counts as the empty text.
\<close>

section \<open>Statements\<close>

definition isSqlEditorBeginTransactionControlStatement :: "js_string \<Rightarrow> nat \<Rightarrow> bool" where
  "isSqlEditorBeginTransactionControlStatement text keywordEnd =
     (let next_pos = skipSqlEditorTrivia text keywordEnd in
      if length text \<le> next_pos \<or> js_at text next_pos = Some (cu CHR '';'') then True
      else fst (readSqlEditorKeyword text keywordEnd) \<in> set SQL_EDITOR_BEGIN_TRANSACTION_CONTROL_KEYWORDS)"

definition isSqlEditorTransactionControlStatement :: "js_string \<Rightarrow> bool" where
  "isSqlEditorTransactionControlStatement text =
     (let (keyword, end_pos) = readSqlEditorKeyword text 0 in
      if keyword = js ''begin'' then isSqlEditorBeginTransactionControlStatement text end_pos
      else if keyword \<in> set SQL_EDITOR_TRANSACTION_CONTROL_KEYWORDS then True
      else keyword = js ''start'' \<and> fst (readSqlEditorKeyword text end_pos) = js ''transaction'')"

definition isSqlEditorManagedBlockWrite :: "js_string \<Rightarrow> js_string \<Rightarrow> bool" where
  "isSqlEditorManagedBlockWrite type text =
     (let (keyword, end_pos) = readSqlEditorKeyword text 0; normalizedType = js_lower (js_trim type);
          isOracleLike = normalizedType \<in> set (map js [''oracle'', ''dameng'', ''dm'', ''dm8'']);
          isSqlServer = normalizedType \<in> set (map js [''sqlserver'', ''mssql'', ''sql_server'', ''sql-server'']);
          writes = list_ex (\<lambda>keyword. sqlEditorStatementContainsKeyword text keyword normalizedType) SQL_EDITOR_DML_KEYWORDS in
      if isOracleLike then
        (if keyword \<noteq> js ''begin'' \<and> keyword \<noteq> js ''declare'' then False else writes)
      else if isSqlServer then
        (if keyword \<noteq> js ''begin'' \<or> isSqlEditorBeginTransactionControlStatement text end_pos then False else writes)
      else False)"

section \<open>Batches\<close>

definition connectionOfType :: "js_string \<Rightarrow> connectionConfig" where
  "connectionOfType type =
     \<lparr>cc_type = type, cc_driver = [], cc_oceanBaseProtocol = [], cc_readOnly = False, cc_protection = None\<rparr>"

definition supportsSqlEditorManagedTransaction ::
  "capabilityRegistry \<Rightarrow> js_string \<Rightarrow> connectionConfig option \<Rightarrow> bool option" where
  "supportsSqlEditorManagedTransaction registry type connection =
     (let normalizedType = js_trim type in
      if normalizedType = [] then Some True
      else map_option (\<lambda>contract. oc_supported (cp_transaction contract))
        (getDataSourceCapabilityContract registry
          (case connection of None \<Rightarrow> Some (connectionOfType normalizedType) | Some c \<Rightarrow> Some c)))"

text \<open>The loop over the statements, with the flag \<open>hasManagedWrite\<close>.\<close>

fun managedFrom :: "js_string \<Rightarrow> bool \<Rightarrow> js_string list \<Rightarrow> bool" where
  "managedFrom type hasManagedWrite [] = hasManagedWrite"
| "managedFrom type hasManagedWrite (statement # rest) =
     (let trimmed = js_trim statement; normalizedType = js_lower (js_trim type) in
      if trimmed = [] then managedFrom type hasManagedWrite rest
      else if isSqlEditorTransactionControlStatement trimmed then False
      else if isSqlEditorManagedBlockWrite type trimmed then managedFrom type True rest
      else if sqlEditorStatementHasManagedWrite trimmed normalizedType then managedFrom type True rest
      else if resolveSqlEditorOperationKeyword trimmed normalizedType \<in> set SQL_EDITOR_READ_KEYWORDS
      then managedFrom type hasManagedWrite rest
      else False)"

definition shouldUseSqlEditorManagedTransactionForType ::
  "capabilityRegistry \<Rightarrow> js_string \<Rightarrow> js_string list \<Rightarrow> connectionConfig option \<Rightarrow> bool option" where
  "shouldUseSqlEditorManagedTransactionForType registry type statements connection =
     map_option (\<lambda>supported. if \<not> supported then False else managedFrom type False statements)
       (supportsSqlEditorManagedTransaction registry type connection)"

definition shouldUseSqlEditorManagedTransaction :: "capabilityRegistry \<Rightarrow> js_string list \<Rightarrow> bool option" where
  "shouldUseSqlEditorManagedTransaction registry statements =
     shouldUseSqlEditorManagedTransactionForType registry [] statements None"

text \<open>The loop over the statements, with the flag \<open>hasReadStatement\<close>.\<close>

fun reuseFrom :: "js_string \<Rightarrow> bool \<Rightarrow> js_string list \<Rightarrow> bool" where
  "reuseFrom type hasReadStatement [] = hasReadStatement"
| "reuseFrom type hasReadStatement (statement # rest) =
     (let trimmed = js_trim statement; normalizedType = js_lower (js_trim type) in
      if trimmed = [] then reuseFrom type hasReadStatement rest
      else if isSqlEditorTransactionControlStatement trimmed then False
      else if isSqlEditorManagedBlockWrite type trimmed then False
      else if sqlEditorStatementHasManagedWrite trimmed normalizedType then False
      else if resolveSqlEditorOperationKeyword trimmed normalizedType \<notin> set SQL_EDITOR_READ_KEYWORDS then False
      else reuseFrom type True rest)"

definition canReusePendingSqlEditorTransactionForType ::
  "capabilityRegistry \<Rightarrow> js_string \<Rightarrow> js_string list \<Rightarrow> connectionConfig option \<Rightarrow> bool option" where
  "canReusePendingSqlEditorTransactionForType registry type statements connection =
     map_option (\<lambda>supported. if \<not> supported then False else reuseFrom type False statements)
       (supportsSqlEditorManagedTransaction registry type connection)"

definition canReusePendingSqlEditorTransaction :: "capabilityRegistry \<Rightarrow> js_string list \<Rightarrow> bool option" where
  "canReusePendingSqlEditorTransaction registry statements =
     canReusePendingSqlEditorTransactionForType registry [] statements None"

section \<open>What a batch is\<close>

text \<open>The specification: the statements of a batch, and what each of them is.\<close>

definition batchStatements :: "js_string list \<Rightarrow> js_string list" where
  "batchStatements statements = filter (\<lambda>s. s \<noteq> []) (map js_trim statements)"

definition writesData :: "js_string \<Rightarrow> js_string \<Rightarrow> bool" where
  "writesData type s \<longleftrightarrow> isSqlEditorManagedBlockWrite type s \<or> sqlEditorStatementHasManagedWrite s (js_lower (js_trim type))"

definition onlyReads :: "js_string \<Rightarrow> js_string \<Rightarrow> bool" where
  "onlyReads type s \<longleftrightarrow> \<not> writesData type s
     \<and> resolveSqlEditorOperationKeyword s (js_lower (js_trim type)) \<in> set SQL_EDITOR_READ_KEYWORDS"

text \<open>No statement controls a transaction, and each writes data or reads.\<close>

definition managedBatch :: "js_string \<Rightarrow> js_string list \<Rightarrow> bool" where
  "managedBatch type statements \<longleftrightarrow> (\<forall>s\<in>set (batchStatements statements).
     \<not> isSqlEditorTransactionControlStatement s \<and> (writesData type s \<or> onlyReads type s))"

lemma batchStatements_simps [simp]:
  "batchStatements [] = []"
  "batchStatements (s # ss) = (if js_trim s = [] then batchStatements ss else js_trim s # batchStatements ss)"
  by (simp_all add: batchStatements_def)

lemma managedFrom_iff:
  "managedFrom type has statements \<longleftrightarrow>
     managedBatch type statements \<and> (has \<or> (\<exists>s\<in>set (batchStatements statements). writesData type s))"
  by (induction type has statements rule: managedFrom.induct)
    (auto simp: Let_def managedBatch_def writesData_def onlyReads_def)

lemma reuseFrom_iff:
  "reuseFrom type has statements \<longleftrightarrow>
     managedBatch type statements \<and> (\<forall>s\<in>set (batchStatements statements). onlyReads type s)
     \<and> (has \<or> batchStatements statements \<noteq> [])"
  by (induction type has statements rule: reuseFrom.induct)
    (auto simp: Let_def managedBatch_def writesData_def onlyReads_def)

text \<open>
  C12. When the data source has transactions, a batch runs in a transaction of its own exactly when each
  statement reads or writes data, none controls a transaction itself and at least one writes; it may run in
  the pending transaction exactly when, under the same conditions, it has a statement and none writes. So no
  batch qualifies for both, and a batch that is not empty and meets the conditions for one of them.
\<close>

theorem batches_are_managed_or_reuse:
  assumes "supportsSqlEditorManagedTransaction registry type connection = Some True"
  shows "shouldUseSqlEditorManagedTransactionForType registry type statements connection
      = Some (managedBatch type statements \<and> (\<exists>s\<in>set (batchStatements statements). writesData type s))
    \<and> canReusePendingSqlEditorTransactionForType registry type statements connection
      = Some (managedBatch type statements \<and> batchStatements statements \<noteq> []
          \<and> \<not> (\<exists>s\<in>set (batchStatements statements). writesData type s))"
proof -
  have "(\<forall>s\<in>set (batchStatements statements). onlyReads type s)
      \<longleftrightarrow> \<not> (\<exists>s\<in>set (batchStatements statements). writesData type s)" if "managedBatch type statements"
    using that by (auto simp: managedBatch_def onlyReads_def)
  then show ?thesis
    by (auto simp: assms shouldUseSqlEditorManagedTransactionForType_def canReusePendingSqlEditorTransactionForType_def
        managedFrom_iff reuseFrom_iff)
qed

lemma granted: "supportsSqlEditorManagedTransaction grantingRegistry (js ''mysql'') None = Some True"
  by code_simp

theorem batches_are_managed_or_reuse_witness:
  "shouldUseSqlEditorManagedTransactionForType grantingRegistry (js ''mysql'')
     [js ''SELECT 1'', js ''WITH a AS (SELECT 1) UPDATE t SET x = 1''] None = Some True"
proof -
  let ?b = "[js ''SELECT 1'', js ''WITH a AS (SELECT 1) UPDATE t SET x = 1'']"
  have "list_all (\<lambda>s. \<not> isSqlEditorTransactionControlStatement s
      \<and> (writesData (js ''mysql'') s \<or> onlyReads (js ''mysql'') s)) (batchStatements ?b)"
    and "list_ex (writesData (js ''mysql'')) (batchStatements ?b)" by code_simp+
  then have "managedBatch (js ''mysql'') ?b \<and> (\<exists>s\<in>set (batchStatements ?b). writesData (js ''mysql'') s)"
    by (simp only: managedBatch_def list_all_iff list_ex_iff)
  then show ?thesis by (simp only: conjunct1 [OF batches_are_managed_or_reuse [OF granted, of ?b]] simp_thms)
qed

section \<open>What a reused transaction runs\<close>

text \<open>A statement, the bodies of its table expressions, the bodies of theirs, and so on.\<close>

inductive tablePart :: "js_string \<Rightarrow> js_string \<Rightarrow> js_string \<Rightarrow> bool" for db s where
  whole: "tablePart db s s"
| body: "tablePart db s p \<Longrightarrow> readSqlEditorKeyword p 0 = (js ''with'', e) \<Longrightarrow>
    b \<in> set (snd (resolveSqlEditorWithAnalysis p e db)) \<Longrightarrow> tablePart db s b"

lemma part_does_not_write:
  assumes "tablePart db s p" "\<not> sqlEditorStatementHasManagedWrite s db"
  shows "\<not> sqlEditorStatementHasManagedWrite p db"
  using assms
proof induction
  case (body p e b)
  then show ?case
    by (subst (asm) sqlEditorStatementHasManagedWrite.simps)
      (auto simp: list_ex_iff split: if_splits prod.splits simp del: js_Cons)
qed

lemma keywords_apart: "set SQL_EDITOR_READ_KEYWORDS \<inter> set SQL_EDITOR_DML_KEYWORDS = {}"
  "js ''with'' \<in> set SQL_EDITOR_READ_KEYWORDS" "js ''with'' \<notin> set SQL_EDITOR_DML_KEYWORDS"
  by code_simp+

lemma not_managed_write:
  assumes "\<not> sqlEditorStatementHasManagedWrite p db"
  shows "fst (readSqlEditorKeyword p 0) \<notin> set SQL_EDITOR_DML_KEYWORDS"
    and "fst (readSqlEditorKeyword p 0) \<in> set SQL_EDITOR_READ_KEYWORDS \<Longrightarrow>
      firstEmbeddedWriteKeyword p db \<notin> set SQL_EDITOR_DML_KEYWORDS"
  using assms keywords_apart
  by (subst (asm) sqlEditorStatementHasManagedWrite.simps, auto split: if_splits prod.splits simp del: js_Cons)+

text \<open>When the first write is not of a kind, every write of that kind stands behind one that is not.\<close>

lemma later_write:
  assumes "firstWriteWord prev ws \<notin> D" "k < length ws" "writeWord ((prev # ws) ! k) (ws ! k)" "ws ! k \<in> D"
  shows "\<exists>j<k. writeWord ((prev # ws) ! j) (ws ! j) \<and> ws ! j \<notin> D"
  using assms
proof (induction ws arbitrary: prev k)
  case (Cons w ws)
  show ?case
  proof (cases "writeWord prev w")
    case True
    then show ?thesis using Cons.prems by (intro exI [of _ 0]) (cases k, auto)
  next
    case False
    with Cons.prems obtain i where k: "k = Suc i" by (cases k) auto
    with Cons.IH [of w i] Cons.prems False obtain j where "j < i" "writeWord ((w # ws) ! j) (ws ! j)" "ws ! j \<notin> D" by auto
    then show ?thesis using k by (intro exI [of _ "Suc j"]) simp
  qed
qed simp

text \<open>
  C10. What runs in a pending transaction without being recorded as a write only reads: each statement of the
  batch begins with a word that reads; no part of it, down to the bodies of nested table expressions, begins
  with a word that changes data; and in a part that begins with a word that reads, every word that changes
  data stands behind a word that changes something else.
\<close>

theorem reused_transaction_only_reads:
  assumes "canReusePendingSqlEditorTransactionForType registry type statements connection = Some True"
    and "s \<in> set (batchStatements statements)" "db = js_lower (js_trim type)" "tablePart db s p"
    and "ws = sqlWords p db"
  shows "fst (readSqlEditorKeyword s 0) \<in> set SQL_EDITOR_READ_KEYWORDS
    \<and> fst (readSqlEditorKeyword p 0) \<notin> set SQL_EDITOR_DML_KEYWORDS
    \<and> (fst (readSqlEditorKeyword p 0) \<in> set SQL_EDITOR_READ_KEYWORDS \<longrightarrow>
        (\<forall>k<length ws. writeWord (([] # ws) ! k) (ws ! k) \<and> ws ! k \<in> set SQL_EDITOR_DML_KEYWORDS \<longrightarrow>
           (\<exists>j<k. writeWord (([] # ws) ! j) (ws ! j) \<and> ws ! j \<notin> set SQL_EDITOR_DML_KEYWORDS)))"
proof -
  have "onlyReads type s" using assms(1,2)
    by (auto simp: canReusePendingSqlEditorTransactionForType_def reuseFrom_iff split: if_splits)
  then have reads: "resolveSqlEditorOperationKeyword s db \<in> set SQL_EDITOR_READ_KEYWORDS"
    and s: "\<not> sqlEditorStatementHasManagedWrite s db" by (simp_all add: onlyReads_def writesData_def assms(3))
  have "fst (readSqlEditorKeyword s 0) \<in> set SQL_EDITOR_READ_KEYWORDS"
    using reads keywords_apart(2) by (auto simp: resolveSqlEditorOperationKeyword_def split: prod.splits if_splits simp del: js_Cons)
  moreover note not_managed_write [OF part_does_not_write [OF assms(4) s]]
  ultimately show ?thesis using later_write [of "[]" ws] by (auto simp: embedded_write_words assms(5))
qed

theorem reused_transaction_only_reads_witness:
  "fst (readSqlEditorKeyword (js ''SELECT 2'') 0) \<notin> set SQL_EDITOR_DML_KEYWORDS"
proof -
  let ?s = "js ''WITH a AS (SELECT 2) SELECT 1'' :: js_string" and ?m = "js ''mysql''"
  have reuse: "canReusePendingSqlEditorTransactionForType grantingRegistry ?m [js '' '', ?s] None = Some True" by code_simp
  have db: "?m = js_lower (js_trim ?m)" by code_simp
  have batch: "batchStatements [js '' '', ?s] = [?s]" by code_simp
  have facts: "readSqlEditorKeyword ?s 0 = (js ''with'', 4)" "resolveSqlEditorWithAnalysis ?s 4 ?m = (js ''select'', [js ''SELECT 2''])"
    by code_simp+
  have "tablePart ?m ?s (js ''SELECT 2'')"
    by (rule body [OF whole facts(1)]) (simp only: facts(2) snd_conv, simp del: js_Cons)
  from reused_transaction_only_reads [OF reuse _ db this refl] batch show ?thesis by (simp del: js_Cons)
qed

text \<open>The limit of this: a change of data behind a change of the schema counts as a read.\<close>

lemma schema_change_hides_write:
  "canReusePendingSqlEditorTransactionForType grantingRegistry (js ''mysql'')
     [js ''SELECT 1 DROP TABLE t DELETE FROM u''] None = Some True"
  by code_simp

end
