(* ===== verification/LayoutCoordinator.thy ===== *)
theory LayoutCoordinator
  imports JsPrelude
begin

text \<open>
  Sharing the layout of the sidebar (\<open>src/frontend/src/utils/connectionSidebarLayoutCoordinator.ts\<close>): a
  window keeps its layout in step with a file that all windows share and the backend guards by a revision
  (\<open>src/internal/app/connection_sidebar_layout.go\<close>). The layout itself is the type \<open>'l\<close>; copying one
  (\<open>cloneLayout\<close>) is the identity on values. What the coordinator is given is its environment: which
  functions the backend has, the text a layout is compared by, and what the store keeps of a layout it is
  told to show. Each function of the code that waits for the backend is cut where it waits; the part behind
  the wait is a function of its own, named after what happens. What runs behind \<open>finally\<close> is part of the
  answer. Callbacks are recorded in \<open>co_calls\<close>.
\<close>

section \<open>Data\<close>

record 'l remoteLayout =
  rl_layout :: 'l
  rl_initialized :: bool
  rl_revision :: nat

datatype 'l layoutSaveState = LsSaving | LsSaved nat | LsError | LsConflict 'l "'l remoteLayout"

record 'l coordinatorEnv =
  ce_hasSave :: bool
  ce_hasLoad :: bool
  ce_hasBootstrap :: bool
  ce_refreshInterval :: nat
  ce_fingerprint :: "'l \<Rightarrow> js_string"
  ce_replace :: "'l \<Rightarrow> 'l"

text \<open>While the bootstrap runs, with the layout it was asked with.\<close>

datatype 'l bootPhase = BootNotStarted | BootAsked 'l | BootSettled

text \<open>A refresh asks by bootstrapping with the own layout, by loading, or by bootstrapping with an empty one.\<close>

datatype 'l refreshKind = RefreshBootstrap 'l | RefreshLoad | RefreshEmpty

text \<open>
  \<open>co_waiting\<close>: a refresh waits for the bootstrap; \<open>co_rescheduling\<close>: the refresh that runs was started by
  the timer, which is set again when it ends.
\<close>

record 'l coordinator =
  co_disposed :: bool
  co_boot :: "'l bootPhase"
  co_bootSucceeded :: bool
  co_revision :: nat
  co_subscribed :: bool
  co_pending :: "'l option"
  co_timer :: bool
  co_inFlight :: "('l \<times> nat) option"
  co_refreshTimer :: bool
  co_refresh :: "'l refreshKind option"
  co_waiting :: bool
  co_rescheduling :: bool
  co_conflict :: "('l \<times> 'l remoteLayout) option"
  co_lastObserved :: js_string
  co_store :: 'l
  co_calls :: "'l layoutSaveState list"

definition createConnectionSidebarLayoutCoordinator :: "'l \<Rightarrow> 'l coordinator" where
  "createConnectionSidebarLayoutCoordinator layout =
     \<lparr>co_disposed = False, co_boot = BootNotStarted, co_bootSucceeded = False, co_revision = 0, co_subscribed = False,
      co_pending = None, co_timer = False, co_inFlight = None, co_refreshTimer = False, co_refresh = None,
      co_waiting = False, co_rescheduling = False, co_conflict = None, co_lastObserved = [], co_store = layout,
      co_calls = []\<rparr>"

definition reportState :: "'l layoutSaveState \<Rightarrow> 'l coordinator \<Rightarrow> 'l coordinator" where
  "reportState st s = s\<lparr>co_calls := co_calls s @ [st]\<rparr>"

section \<open>Layouts of others\<close>

definition applyRemoteLayout :: "'l coordinatorEnv \<Rightarrow> 'l remoteLayout \<Rightarrow> bool \<Rightarrow> 'l coordinator \<Rightarrow> 'l coordinator" where
  "applyRemoteLayout env layout allowBusy s =
     (if co_disposed s \<or> \<not> rl_initialized layout
         \<or> (\<not> allowBusy \<and> (co_pending s \<noteq> None \<or> co_inFlight s \<noteq> None))
         \<or> rl_revision layout < co_revision s then s
      else
        (let authoritativeFingerprint = ce_fingerprint env (rl_layout layout);
             currentFingerprint = ce_fingerprint env (co_store s);
             s1 = s\<lparr>co_revision := rl_revision layout, co_lastObserved := authoritativeFingerprint\<rparr> in
         if authoritativeFingerprint = currentFingerprint then s1
         else s1\<lparr>co_store := ce_replace env (rl_layout layout)\<rparr>))"

section \<open>Saving\<close>

definition savePendingLayout :: "'l coordinatorEnv \<Rightarrow> 'l coordinator \<Rightarrow> 'l coordinator" where
  "savePendingLayout env s0 =
     (let s = s0\<lparr>co_timer := False\<rparr> in
      if co_inFlight s \<noteq> None then s
      else if co_conflict s \<noteq> None then s
      else
        (case co_pending s of
           None \<Rightarrow> s
         | Some layout \<Rightarrow>
             (let s1 = s\<lparr>co_pending := None\<rparr> in
              if co_disposed s1 \<or> \<not> ce_hasSave env then s1
              else reportState LsSaving (s1\<lparr>co_inFlight := Some (layout, co_revision s1)\<rparr>))))"

text \<open>The answer to a save, with what runs when it has been handled.\<close>

definition saveAnswered :: "'l coordinatorEnv \<Rightarrow> bool \<Rightarrow> 'l remoteLayout \<Rightarrow> 'l coordinator \<Rightarrow> 'l coordinator" where
  "saveAnswered env conflict layout s0 =
     (let s = s0\<lparr>co_revision := rl_revision layout\<rparr> in
      if conflict \<and> \<not> co_disposed s then
        (reportState (LsConflict (co_store s) layout)
          (s\<lparr>co_pending := Some (co_store s), co_timer := False, co_conflict := Some (co_store s, layout)\<rparr>))
        \<lparr>co_inFlight := None\<rparr>
      else
        (let s1 = (if \<not> co_disposed s \<and> co_pending s = None then reportState (LsSaved (rl_revision layout)) s else s);
             s2 = s1\<lparr>co_inFlight := None\<rparr> in
         if \<not> co_disposed s2 \<and> co_conflict s2 = None \<and> co_pending s2 \<noteq> None then savePendingLayout env s2 else s2))"

definition saveFailed :: "'l coordinator \<Rightarrow> 'l coordinator" where
  "saveFailed s0 =
     (let s = s0\<lparr>co_pending := Some (co_store s0)\<rparr> in
      (if co_disposed s then s else reportState LsError s)\<lparr>co_inFlight := None\<rparr>)"

text \<open>
  One turn of the loop of \<open>flush\<close>: it is done, waits for the save that runs, or gives up because of a
  conflict. The timer is cleared before the first turn.
\<close>

datatype flushResult = FlushDone | FlushWaits | FlushRejected

definition flushTurn :: "'l coordinatorEnv \<Rightarrow> 'l coordinator \<Rightarrow> flushResult \<times> 'l coordinator" where
  "flushTurn env s =
     (if co_inFlight s \<noteq> None then (FlushWaits, s)
      else if co_pending s = None then (FlushDone, s)
      else if co_conflict s \<noteq> None then (FlushRejected, s)
      else
        (let s1 = savePendingLayout env s in (if co_inFlight s1 \<noteq> None then FlushWaits else FlushDone, s1)))"

definition flushStart :: "'l coordinatorEnv \<Rightarrow> 'l coordinator \<Rightarrow> flushResult \<times> 'l coordinator" where
  "flushStart env s = flushTurn env (s\<lparr>co_timer := False\<rparr>)"

definition acceptRemoteLayout :: "'l coordinatorEnv \<Rightarrow> 'l coordinator \<Rightarrow> 'l coordinator" where
  "acceptRemoteLayout env s =
     (if co_disposed s then s
      else (case co_conflict s of None \<Rightarrow> s
      | Some (_, remoteLayout) \<Rightarrow>
          applyRemoteLayout env remoteLayout True (s\<lparr>co_conflict := None, co_pending := None, co_timer := False\<rparr>)))"

definition retryPendingSave :: "'l coordinatorEnv \<Rightarrow> 'l coordinator \<Rightarrow> flushResult \<times> 'l coordinator" where
  "retryPendingSave env s =
     (if co_disposed s then (FlushDone, s)
      else flushStart env (if co_conflict s \<noteq> None then s\<lparr>co_pending := Some (co_store s), co_conflict := None\<rparr> else s))"

section \<open>Changes of the store\<close>

definition startSubscription :: "'l coordinatorEnv \<Rightarrow> 'l coordinator \<Rightarrow> 'l coordinator" where
  "startSubscription env s =
     (if co_subscribed s \<or> \<not> ce_hasSave env then s
      else s\<lparr>co_lastObserved := ce_fingerprint env (co_store s), co_subscribed := True\<rparr>)"

text \<open>The store shows another layout, and tells the listener when there is one.\<close>

definition storeChanges :: "'l coordinatorEnv \<Rightarrow> 'l \<Rightarrow> 'l coordinator \<Rightarrow> 'l coordinator" where
  "storeChanges env layout s0 =
     (let s = s0\<lparr>co_store := layout\<rparr>; fingerprint = ce_fingerprint env layout in
      if \<not> co_subscribed s \<or> co_disposed s then s
      else if fingerprint = co_lastObserved s then s
      else s\<lparr>co_lastObserved := fingerprint, co_pending := Some layout, co_timer := True\<rparr>)"

definition saveTimerFires :: "'l coordinatorEnv \<Rightarrow> 'l coordinator \<Rightarrow> 'l coordinator" where
  "saveTimerFires env s = (if co_timer s then savePendingLayout env (s\<lparr>co_timer := False\<rparr>) else s)"

section \<open>Looking for changes of others\<close>

definition scheduleRefresh :: "'l coordinatorEnv \<Rightarrow> 'l coordinator \<Rightarrow> 'l coordinator" where
  "scheduleRefresh env s =
     (if co_disposed s \<or> ce_refreshInterval env = 0 \<or> co_refreshTimer s \<or> \<not> (ce_hasLoad env \<or> ce_hasBootstrap env)
      then s else s\<lparr>co_refreshTimer := True\<rparr>)"

definition refreshLayout :: "'l coordinatorEnv \<Rightarrow> 'l coordinator \<Rightarrow> 'l coordinator" where
  "refreshLayout env s =
     (if co_boot s = BootNotStarted then s
      else if co_boot s \<noteq> BootSettled then s\<lparr>co_waiting := True\<rparr>
      else if co_refresh s \<noteq> None then s
      else if co_disposed s \<or> \<not> (ce_hasLoad env \<or> ce_hasBootstrap env) then s
      else s\<lparr>co_refresh := Some (if \<not> co_bootSucceeded s \<and> ce_hasBootstrap env then RefreshBootstrap (co_store s)
             else if ce_hasLoad env then RefreshLoad else RefreshEmpty)\<rparr>)"

definition refreshSettled :: "'l coordinatorEnv \<Rightarrow> 'l coordinator \<Rightarrow> 'l coordinator" where
  "refreshSettled env s =
     (let s1 = s\<lparr>co_refresh := None, co_rescheduling := False\<rparr> in
      if co_rescheduling s then scheduleRefresh env s1 else s1)"

fun bootstraps :: "'l refreshKind option \<Rightarrow> bool" where
  "bootstraps (Some (RefreshBootstrap _)) = True"
| "bootstraps _ = False"

definition refreshAnswered :: "'l coordinatorEnv \<Rightarrow> 'l remoteLayout \<Rightarrow> 'l coordinator \<Rightarrow> 'l coordinator" where
  "refreshAnswered env layout s0 =
     (let s = (if bootstraps (co_refresh s0) then s0\<lparr>co_bootSucceeded := True\<rparr> else s0) in
      refreshSettled env
        (if co_disposed s then s else startSubscription env (applyRemoteLayout env layout False s)))"

definition refreshFailed :: "'l coordinatorEnv \<Rightarrow> 'l coordinator \<Rightarrow> 'l coordinator" where
  "refreshFailed env s = refreshSettled env s"

definition refreshTimerFires :: "'l coordinatorEnv \<Rightarrow> 'l coordinator \<Rightarrow> 'l coordinator" where
  "refreshTimerFires env s =
     (if \<not> co_refreshTimer s then s
      else
        (let s1 = refreshLayout env (s\<lparr>co_refreshTimer := False\<rparr>) in
         if co_refresh s1 \<noteq> None then s1\<lparr>co_rescheduling := True\<rparr> else scheduleRefresh env s1))"

section \<open>Bootstrapping\<close>

definition bootstrapSettled :: "'l coordinatorEnv \<Rightarrow> 'l coordinator \<Rightarrow> 'l coordinator" where
  "bootstrapSettled env s =
     (let s1 = s\<lparr>co_boot := BootSettled, co_waiting := False\<rparr> in
      if co_waiting s then refreshLayout env s1 else s1)"

definition bootstrapLayout :: "'l coordinatorEnv \<Rightarrow> 'l coordinator \<Rightarrow> 'l coordinator" where
  "bootstrapLayout env s =
     (if co_boot s \<noteq> BootNotStarted then s
      else if \<not> ce_hasBootstrap env then bootstrapSettled env (scheduleRefresh env s)
      else s\<lparr>co_boot := BootAsked (co_store s)\<rparr>)"

definition bootstrapAnswered :: "'l coordinatorEnv \<Rightarrow> 'l remoteLayout \<Rightarrow> 'l coordinator \<Rightarrow> 'l coordinator" where
  "bootstrapAnswered env layout s0 =
     (let s = s0\<lparr>co_bootSucceeded := True\<rparr>;
          s1 = (if \<not> co_disposed s \<and> rl_initialized layout then applyRemoteLayout env layout False s else s);
          s2 = s1\<lparr>co_revision := rl_revision layout\<rparr> in
      bootstrapSettled env (if co_disposed s2 then s2 else scheduleRefresh env (startSubscription env s2)))"

definition bootstrapFailed :: "'l coordinatorEnv \<Rightarrow> 'l coordinator \<Rightarrow> 'l coordinator" where
  "bootstrapFailed env s = bootstrapSettled env (scheduleRefresh env s)"

definition disposeCoordinator :: "'l coordinator \<Rightarrow> 'l coordinator" where
  "disposeCoordinator s = s\<lparr>co_disposed := True, co_timer := False, co_refreshTimer := False, co_subscribed := False\<rparr>"

section \<open>The shared file\<close>

text \<open>
  The file the backend keeps, \<open>None\<close> before it is written first. A function of the backend that gives
  \<open>None\<close> reports an error and has changed nothing. What the backend makes of a layout (\<open>normalizeUnlocked\<close>,
  with its limits) and whether a layout has no groups are parameters.
\<close>

record 'l layoutFile =
  lf_revision :: nat
  lf_layout :: 'l

record 'l layoutBackend =
  lb_normalize :: "'l \<Rightarrow> 'l option"
  lb_noGroups :: "'l \<Rightarrow> bool"
  lb_empty :: 'l

definition MAX_LAYOUT_REVISION :: nat where
  "MAX_LAYOUT_REVISION = 2 ^ 64 - 1"

definition emptyConnectionSidebarLayout :: "'l layoutBackend \<Rightarrow> 'l remoteLayout" where
  "emptyConnectionSidebarLayout b = \<lparr>rl_layout = lb_empty b, rl_initialized = False, rl_revision = 0\<rparr>"

definition remoteOf :: "nat \<Rightarrow> 'l \<Rightarrow> 'l remoteLayout" where
  "remoteOf revision layout = \<lparr>rl_layout = layout, rl_initialized = True, rl_revision = revision\<rparr>"

definition LoadConnectionSidebarLayout :: "'l layoutBackend \<Rightarrow> 'l layoutFile option \<Rightarrow> 'l remoteLayout option" where
  "LoadConnectionSidebarLayout b file =
     (case file of None \<Rightarrow> Some (emptyConnectionSidebarLayout b)
      | Some f \<Rightarrow> map_option (remoteOf (lf_revision f)) (lb_normalize b (lf_layout f)))"

text \<open>The next revision, when there is one.\<close>

definition nextRevision :: "'l layoutFile option \<Rightarrow> nat option" where
  "nextRevision file =
     (case file of None \<Rightarrow> Some 1
      | Some f \<Rightarrow> if lf_revision f = MAX_LAYOUT_REVISION then None else Some (lf_revision f + 1))"

definition writeLayout ::
  "'l layoutBackend \<Rightarrow> 'l \<Rightarrow> 'l layoutFile option \<Rightarrow> ('l remoteLayout \<times> 'l layoutFile option) option" where
  "writeLayout b layout file =
     (case lb_normalize b layout of None \<Rightarrow> None
      | Some normalized \<Rightarrow>
          map_option (\<lambda>revision. (remoteOf revision normalized, Some \<lparr>lf_revision = revision, lf_layout = normalized\<rparr>))
            (nextRevision file))"

text \<open>Whether the save is in conflict, the layout that counts now, and the file.\<close>

definition SaveConnectionSidebarLayout ::
  "'l layoutBackend \<Rightarrow> nat \<Rightarrow> 'l \<Rightarrow> 'l layoutFile option \<Rightarrow> ((bool \<times> 'l remoteLayout) \<times> 'l layoutFile option) option" where
  "SaveConnectionSidebarLayout b expectedRevision layout file =
     (if expectedRevision \<noteq> (case file of None \<Rightarrow> 0 | Some f \<Rightarrow> lf_revision f)
      then map_option (\<lambda>current. ((True, current), file)) (LoadConnectionSidebarLayout b file)
      else map_option (\<lambda>(written, file'). ((False, written), file')) (writeLayout b layout file))"

definition BootstrapConnectionSidebarLayout ::
  "'l layoutBackend \<Rightarrow> 'l \<Rightarrow> 'l layoutFile option \<Rightarrow> ('l remoteLayout \<times> 'l layoutFile option) option" where
  "BootstrapConnectionSidebarLayout b candidate file =
     (case file of
        Some f \<Rightarrow>
          (if lb_normalize b (lf_layout f) = Some (lf_layout f) then Some (remoteOf (lf_revision f) (lf_layout f), file)
           else writeLayout b (lf_layout f) file)
      | None \<Rightarrow>
          if lb_noGroups b candidate then Some (emptyConnectionSidebarLayout b, None)
          else (case lb_normalize b candidate of None \<Rightarrow> None
          | Some normalized \<Rightarrow>
              if lb_noGroups b normalized then Some (emptyConnectionSidebarLayout b, None)
              else writeLayout b candidate None))"

section \<open>A window and the file\<close>

text \<open>A request: none, asked, or answered while the answer is on its way.\<close>

datatype 'a request = NotAsked | Asked | Answered 'a

record 'l layoutSystem =
  sys_client :: "'l coordinator"
  sys_file :: "'l layoutFile option"
  sys_save :: "(bool \<times> 'l remoteLayout) request"
  sys_refresh :: "'l remoteLayout request"
  sys_boot :: "'l remoteLayout request"

datatype 'l clientAction =
  StoreShows 'l | SaveTimer | AcceptRemote | RetrySave | FlushLayout | AskRefresh | RefreshTimer | StartBootstrap | DisposeClient

fun clientStep :: "'l coordinatorEnv \<Rightarrow> 'l clientAction \<Rightarrow> 'l coordinator \<Rightarrow> 'l coordinator" where
  "clientStep env (StoreShows l) c = storeChanges env l c"
| "clientStep env SaveTimer c = saveTimerFires env c"
| "clientStep env AcceptRemote c = acceptRemoteLayout env c"
| "clientStep env RetrySave c = snd (retryPendingSave env c)"
| "clientStep env FlushLayout c = snd (flushStart env c)"
| "clientStep env AskRefresh c = refreshLayout env c"
| "clientStep env RefreshTimer c = refreshTimerFires env c"
| "clientStep env StartBootstrap c = bootstrapLayout env c"
| "clientStep env DisposeClient c = disposeCoordinator c"

text \<open>A request goes out when the client waits for one and none is under way.\<close>

definition asked :: "bool \<Rightarrow> 'a request \<Rightarrow> 'a request" where
  "asked waits r = (if \<not> waits then NotAsked else if r = NotAsked then Asked else r)"

fun bootAsked :: "'l bootPhase \<Rightarrow> 'l option" where
  "bootAsked (BootAsked l) = Some l"
| "bootAsked _ = None"

definition withClient :: "'l coordinator \<Rightarrow> 'l layoutSystem \<Rightarrow> 'l layoutSystem" where
  "withClient c s =
     s\<lparr>sys_client := c, sys_save := asked (co_inFlight c \<noteq> None) (sys_save s),
       sys_refresh := asked (co_refresh c \<noteq> None) (sys_refresh s),
       sys_boot := asked (bootAsked (co_boot c) \<noteq> None) (sys_boot s)\<rparr>"

text \<open>
  What can happen: the client does something; the backend serves a request; an answer arrives, or a request
  or its answer is lost, which the client sees as an error; another window writes the file.
\<close>

datatype 'l layoutAction =
  ClientDoes "'l clientAction" | ServeSave | ServeRefresh | ServeBoot | SaveArrives | SaveLost
| RefreshArrives | RefreshLost | BootArrives | BootLost | OthersWrite 'l

definition serveRefresh ::
  "'l layoutBackend \<Rightarrow> 'l refreshKind \<Rightarrow> 'l layoutFile option \<Rightarrow> ('l remoteLayout \<times> 'l layoutFile option) option" where
  "serveRefresh b kind file =
     (case kind of RefreshBootstrap l \<Rightarrow> BootstrapConnectionSidebarLayout b l file
      | RefreshLoad \<Rightarrow> map_option (\<lambda>l. (l, file)) (LoadConnectionSidebarLayout b file)
      | RefreshEmpty \<Rightarrow> BootstrapConnectionSidebarLayout b (lb_empty b) file)"

fun layoutStep :: "'l coordinatorEnv \<Rightarrow> 'l layoutBackend \<Rightarrow> 'l layoutAction \<Rightarrow> 'l layoutSystem \<Rightarrow> 'l layoutSystem" where
  "layoutStep env b (ClientDoes a) s = withClient (clientStep env a (sys_client s)) s"
| "layoutStep env b ServeSave s =
     (case (sys_save s, co_inFlight (sys_client s)) of
        (Asked, Some (layout, expected)) \<Rightarrow>
          (case SaveConnectionSidebarLayout b expected layout (sys_file s) of None \<Rightarrow> s
           | Some (answer, file) \<Rightarrow> s\<lparr>sys_save := Answered answer, sys_file := file\<rparr>)
      | _ \<Rightarrow> s)"
| "layoutStep env b ServeRefresh s =
     (case (sys_refresh s, co_refresh (sys_client s)) of
        (Asked, Some kind) \<Rightarrow>
          (case serveRefresh b kind (sys_file s) of None \<Rightarrow> s
           | Some (answer, file) \<Rightarrow> s\<lparr>sys_refresh := Answered answer, sys_file := file\<rparr>)
      | _ \<Rightarrow> s)"
| "layoutStep env b ServeBoot s =
     (case (sys_boot s, bootAsked (co_boot (sys_client s))) of
        (Asked, Some candidate) \<Rightarrow>
          (case BootstrapConnectionSidebarLayout b candidate (sys_file s) of None \<Rightarrow> s
           | Some (answer, file) \<Rightarrow> s\<lparr>sys_boot := Answered answer, sys_file := file\<rparr>)
      | _ \<Rightarrow> s)"
| "layoutStep env b SaveArrives s =
     (case sys_save s of
        Answered (conflict, layout) \<Rightarrow>
          withClient (saveAnswered env conflict layout (sys_client s)) (s\<lparr>sys_save := NotAsked\<rparr>)
      | _ \<Rightarrow> s)"
| "layoutStep env b SaveLost s =
     (if sys_save s = NotAsked then s else withClient (saveFailed (sys_client s)) (s\<lparr>sys_save := NotAsked\<rparr>))"
| "layoutStep env b RefreshArrives s =
     (case sys_refresh s of
        Answered layout \<Rightarrow> withClient (refreshAnswered env layout (sys_client s)) (s\<lparr>sys_refresh := NotAsked\<rparr>)
      | _ \<Rightarrow> s)"
| "layoutStep env b RefreshLost s =
     (if sys_refresh s = NotAsked then s
      else withClient (refreshFailed env (sys_client s)) (s\<lparr>sys_refresh := NotAsked\<rparr>))"
| "layoutStep env b BootArrives s =
     (case sys_boot s of
        Answered layout \<Rightarrow> withClient (bootstrapAnswered env layout (sys_client s)) (s\<lparr>sys_boot := NotAsked\<rparr>)
      | _ \<Rightarrow> s)"
| "layoutStep env b BootLost s =
     (if sys_boot s = NotAsked then s
      else withClient (bootstrapFailed env (sys_client s)) (s\<lparr>sys_boot := NotAsked\<rparr>))"
| "layoutStep env b (OthersWrite l) s =
     (case writeLayout b l (sys_file s) of None \<Rightarrow> s | Some (_, file) \<Rightarrow> s\<lparr>sys_file := file\<rparr>)"

text \<open>A window that starts while the file is in some state.\<close>

definition startSystem :: "'l \<Rightarrow> 'l layoutFile option \<Rightarrow> 'l layoutSystem" where
  "startSystem layout file =
     \<lparr>sys_client = createConnectionSidebarLayoutCoordinator layout, sys_file = file, sys_save = NotAsked,
      sys_refresh = NotAsked, sys_boot = NotAsked\<rparr>"

inductive layoutRun :: "'l coordinatorEnv \<Rightarrow> 'l layoutBackend \<Rightarrow> 'l layoutSystem \<Rightarrow> 'l layoutSystem \<Rightarrow> bool"
  for env b s where
  lr_start: "layoutRun env b s s"
| lr_step: "layoutRun env b s s' \<Longrightarrow> layoutRun env b s (layoutStep env b a s')"

end
