(* ===== verification/LayoutCoordinatorProps.thy ===== *)
theory LayoutCoordinatorProps
  imports LayoutCoordinator
begin

text \<open>
  A window that has saved everything shows the layout of the file, as long as its revision is the one of the
  file; what the user has not saved yet is never replaced behind his back; and a change reaches the file.
\<close>

section \<open>Layouts that count as the same\<close>

text \<open>
  The comparison of layouts by text, what the store keeps and what the backend makes of a layout respect an
  equivalence: they change how a layout is written, not what it shows.
\<close>

definition keepsLayouts :: "('l \<Rightarrow> 'l \<Rightarrow> bool) \<Rightarrow> 'l coordinatorEnv \<Rightarrow> 'l layoutBackend \<Rightarrow> bool" where
  "keepsLayouts same env b \<longleftrightarrow> equivp same
     \<and> (\<forall>l l'. ce_fingerprint env l = ce_fingerprint env l' \<longrightarrow> same l l')
     \<and> (\<forall>l. same (ce_replace env l) l) \<and> (\<forall>l n. lb_normalize b l = Some n \<longrightarrow> same n l)"

lemma keepsD:
  assumes "keepsLayouts same env b"
  shows "same l l" "same l l' \<Longrightarrow> same l' l" "same l l' \<Longrightarrow> same l' l'' \<Longrightarrow> same l l''"
    "ce_fingerprint env l = ce_fingerprint env l' \<Longrightarrow> same l l'" "same (ce_replace env l) l"
    "lb_normalize b l = Some n \<Longrightarrow> same n l"
  using assms equivp_reflp [of same] equivp_symp [of same] equivp_transp [of same] unfolding keepsLayouts_def by metis+

section \<open>The file\<close>

definition fileRevision :: "'l layoutFile option \<Rightarrow> nat" where
  "fileRevision file = (case file of None \<Rightarrow> 0 | Some f \<Rightarrow> lf_revision f)"

definition file_ok :: "'l layoutFile option \<Rightarrow> bool" where
  "file_ok file \<longleftrightarrow> (\<forall>f. file = Some f \<longrightarrow> 0 < lf_revision f)"

text \<open>The layout at a revision: not newer than the file, and what the file has when it is at this revision.\<close>

definition agrees :: "('l \<Rightarrow> 'l \<Rightarrow> bool) \<Rightarrow> 'l layoutFile option \<Rightarrow> nat \<Rightarrow> 'l \<Rightarrow> bool" where
  "agrees same file r l \<longleftrightarrow> r \<le> fileRevision file
     \<and> (\<forall>f. file = Some f \<longrightarrow> r = lf_revision f \<longrightarrow> same l (lf_layout f))"

definition remote_ok :: "('l \<Rightarrow> 'l \<Rightarrow> bool) \<Rightarrow> 'l layoutFile option \<Rightarrow> 'l remoteLayout \<Rightarrow> bool" where
  "remote_ok same file rl \<longleftrightarrow> agrees same file (rl_revision rl) (rl_layout rl)
     \<and> (if rl_initialized rl then 0 < rl_revision rl else rl_revision rl = 0)"

text \<open>The file stays or gets the next revision.\<close>

definition grows :: "'l layoutFile option \<Rightarrow> 'l layoutFile option \<Rightarrow> bool" where
  "grows file file' \<longleftrightarrow> file' = file \<or> (\<exists>l. file' = Some \<lparr>lf_revision = fileRevision file + 1, lf_layout = l\<rparr>)"

lemma grows_ok: "grows file file' \<Longrightarrow> file_ok file \<Longrightarrow> file_ok file'"
  by (auto simp: grows_def file_ok_def)

lemma grows_agrees: "grows file file' \<Longrightarrow> agrees same file r l \<Longrightarrow> agrees same file' r l"
  by (auto simp: grows_def agrees_def fileRevision_def)

lemma grows_remote: "grows file file' \<Longrightarrow> remote_ok same file rl \<Longrightarrow> remote_ok same file' rl"
  by (auto simp: remote_ok_def grows_agrees split: if_splits)

lemma grows_revision: "grows file file' \<Longrightarrow> fileRevision file \<le> fileRevision file'"
  by (auto simp: grows_def fileRevision_def)

lemma agrees_cong: "keepsLayouts same env b \<Longrightarrow> same l l' \<Longrightarrow> agrees same file r l' \<Longrightarrow> agrees same file r l"
  using keepsD(3) [of same env b l l'] by (auto simp: agrees_def)

lemma agrees_unwritten: "file_ok file \<Longrightarrow> agrees same file 0 l"
  by (auto simp: agrees_def file_ok_def)

lemma write_grows:
  assumes "keepsLayouts same env b" "writeLayout b l file = Some (rl, file')"
  shows "grows file file'" "rl_initialized rl" "remote_ok same file' rl" "agrees same file' (rl_revision rl) l"
proof -
  obtain n r where n: "lb_normalize b l = Some n" "nextRevision file = Some r" "rl = remoteOf r n"
    "file' = Some \<lparr>lf_revision = r, lf_layout = n\<rparr>"
    using assms(2) by (auto simp: writeLayout_def split: option.splits)
  have r: "r = fileRevision file + 1"
    using n(2) by (auto simp: nextRevision_def fileRevision_def split: option.splits if_splits)
  have same: "same n l" by (rule keepsD(6) [OF assms(1) n(1)])
  show "grows file file'" "rl_initialized rl" using r n(3,4) by (auto simp: grows_def remoteOf_def)
  show "remote_ok same file' rl" "agrees same file' (rl_revision rl) l"
    using r n(3,4) keepsD(1) [OF assms(1), of n] keepsD(2) [OF assms(1) same]
    by (simp_all add: remote_ok_def agrees_def remoteOf_def fileRevision_def)
qed

lemma load_ok:
  assumes "keepsLayouts same env b" "file_ok file" "LoadConnectionSidebarLayout b file = Some rl"
  shows "remote_ok same file rl" "rl_initialized rl \<longleftrightarrow> file \<noteq> None"
  using assms keepsD(6) [OF assms(1)]
  by (auto simp: LoadConnectionSidebarLayout_def remote_ok_def agrees_def remoteOf_def emptyConnectionSidebarLayout_def
      fileRevision_def file_ok_def split: option.splits)

lemma bootstrap_ok:
  assumes "keepsLayouts same env b" "file_ok file" "BootstrapConnectionSidebarLayout b l file = Some (rl, file')"
  shows "grows file file'" "remote_ok same file' rl"
proof -
  consider "file' = file" "remote_ok same file rl" | l' where "writeLayout b l' file = Some (rl, file')"
    using assms(2,3) keepsD(1) [OF assms(1)]
    by (auto simp: BootstrapConnectionSidebarLayout_def remote_ok_def agrees_def remoteOf_def emptyConnectionSidebarLayout_def
        fileRevision_def file_ok_def split: option.splits if_splits)
  then show "grows file file'" "remote_ok same file' rl"
    using write_grows [OF assms(1)] by (cases; auto simp: grows_def)+
qed

lemma serveRefresh_ok:
  assumes "keepsLayouts same env b" "file_ok file" "serveRefresh b kind file = Some (rl, file')"
  shows "grows file file'" "remote_ok same file' rl"
  using assms load_ok(1) [OF assms(1,2)] bootstrap_ok [OF assms(1,2)]
  by (auto simp: serveRefresh_def grows_def split: refreshKind.splits)

section \<open>The window\<close>

text \<open>
  What holds of a window that is not closed. Nothing is unsaved before it listens to its store; what it has to
  save or is saving is what the store shows; it has seen no revision the file does not have; and when it has
  nothing to save, the store shows the layout of its revision.
\<close>

text \<open>The text observed last is that of a layout that shows the same.\<close>

definition observes :: "('l \<Rightarrow> 'l \<Rightarrow> bool) \<Rightarrow> 'l coordinatorEnv \<Rightarrow> js_string \<Rightarrow> 'l \<Rightarrow> bool" where
  "observes same env obs l \<longleftrightarrow> (\<exists>x. obs = ce_fingerprint env x \<and> same x l)"

lemma observes_own: "keepsLayouts same env b \<Longrightarrow> observes same env (ce_fingerprint env l) l"
  unfolding observes_def by (rule exI, rule conjI, rule refl, rule keepsD(1))

lemma observes_cong: "keepsLayouts same env b \<Longrightarrow> same l l' \<Longrightarrow> observes same env obs l \<Longrightarrow> observes same env obs l'"
  unfolding observes_def by (elim exE conjE, rule exI, rule conjI, assumption, rule keepsD(3))

definition window_ok ::
  "('l \<Rightarrow> 'l \<Rightarrow> bool) \<Rightarrow> 'l coordinatorEnv \<Rightarrow> 'l layoutFile option \<Rightarrow> bool \<Rightarrow> 'l option \<Rightarrow> ('l \<times> nat) option
     \<Rightarrow> ('l \<times> 'l remoteLayout) option \<Rightarrow> nat \<Rightarrow> js_string \<Rightarrow> 'l \<Rightarrow> bool" where
  "window_ok same env file subscribed pending inFlight conflict revision observed store \<longleftrightarrow>
     (subscribed \<longrightarrow> ce_hasSave env \<and> observes same env observed store)
     \<and> (\<not> subscribed \<longrightarrow> pending = None \<and> inFlight = None \<and> conflict = None \<and> (ce_hasSave env \<longrightarrow> revision = 0))
     \<and> revision \<le> fileRevision file
     \<and> (\<forall>p. pending = Some p \<longrightarrow> same p store)
     \<and> (\<forall>l e. inFlight = Some (l, e) \<longrightarrow> e = revision \<and> (pending = None \<longrightarrow> same l store))
     \<and> (\<forall>l rl. conflict = Some (l, rl) \<longrightarrow> inFlight = None \<and> pending \<noteq> None
          \<and> remote_ok same file rl \<and> rl_initialized rl \<and> rl_revision rl = revision)
     \<and> (subscribed \<longrightarrow> pending = None \<longrightarrow> inFlight = None \<longrightarrow> agrees same file revision store)"

definition client_ok :: "('l \<Rightarrow> 'l \<Rightarrow> bool) \<Rightarrow> 'l coordinatorEnv \<Rightarrow> 'l layoutFile option \<Rightarrow> 'l coordinator \<Rightarrow> bool" where
  "client_ok same env file c \<longleftrightarrow>
     window_ok same env file (co_subscribed c) (co_pending c) (co_inFlight c) (co_conflict c) (co_revision c)
       (co_lastObserved c) (co_store c)
     \<and> (co_boot c \<noteq> BootSettled \<longrightarrow> \<not> co_subscribed c \<and> co_revision c = 0 \<and> co_refresh c = None)"

lemma window_okD:
  assumes "window_ok same env file sub p i cf r obs st"
  shows "sub \<longrightarrow> ce_hasSave env \<and> observes same env obs st"
    and "\<not> sub \<longrightarrow> p = None \<and> i = None \<and> cf = None \<and> (ce_hasSave env \<longrightarrow> r = 0)"
    and "r \<le> fileRevision file"
    and "\<forall>q. p = Some q \<longrightarrow> same q st"
    and "\<forall>l e. i = Some (l, e) \<longrightarrow> e = r \<and> (p = None \<longrightarrow> same l st)"
    and "\<forall>l rl. cf = Some (l, rl) \<longrightarrow> i = None \<and> p \<noteq> None
          \<and> remote_ok same file rl \<and> rl_initialized rl \<and> rl_revision rl = r"
    and "sub \<longrightarrow> p = None \<longrightarrow> i = None \<longrightarrow> agrees same file r st"
  using assms unfolding window_ok_def by blast+

lemma window_okI:
  assumes "sub \<longrightarrow> ce_hasSave env \<and> observes same env obs st"
    and "\<not> sub \<longrightarrow> p = None \<and> i = None \<and> cf = None \<and> (ce_hasSave env \<longrightarrow> r = 0)"
    and "r \<le> fileRevision file"
    and "\<forall>q. p = Some q \<longrightarrow> same q st"
    and "\<forall>l e. i = Some (l, e) \<longrightarrow> e = r \<and> (p = None \<longrightarrow> same l st)"
    and "\<forall>l rl. cf = Some (l, rl) \<longrightarrow> i = None \<and> p \<noteq> None
          \<and> remote_ok same file rl \<and> rl_initialized rl \<and> rl_revision rl = r"
    and "sub \<longrightarrow> p = None \<longrightarrow> i = None \<longrightarrow> agrees same file r st"
  shows "window_ok same env file sub p i cf r obs st"
  unfolding window_ok_def by (intro conjI assms)

lemma window_grows:
  assumes "grows file file'" "window_ok same env file sub p i cf r obs st"
  shows "window_ok same env file' sub p i cf r obs st"
proof (rule window_okI)
  note w = window_okD [OF assms(2)]
  show "r \<le> fileRevision file'" using w(3) grows_revision [OF assms(1)] by (rule order_trans)
  show "\<forall>l rl. cf = Some (l, rl) \<longrightarrow> i = None \<and> p \<noteq> None
      \<and> remote_ok same file' rl \<and> rl_initialized rl \<and> rl_revision rl = r"
    by (intro allI impI) (use w(6) in \<open>simp add: grows_remote [OF assms(1)]\<close>)
  show "sub \<longrightarrow> p = None \<longrightarrow> i = None \<longrightarrow> agrees same file' r st"
    by (intro impI) (use w(7) in \<open>simp add: grows_agrees [OF assms(1)]\<close>)
qed (rule window_okD [OF assms(2)])+

lemma client_grows: "grows file file' \<Longrightarrow> client_ok same env file c \<Longrightarrow> client_ok same env file' c"
  by (simp add: client_ok_def window_grows)

text \<open>Fields the invariant does not speak of.\<close>

lemma client_irrelevant [simp]:
  "client_ok same env file (c\<lparr>co_timer := t\<rparr>) = client_ok same env file c"
  "client_ok same env file (c\<lparr>co_refreshTimer := t\<rparr>) = client_ok same env file c"
  "client_ok same env file (c\<lparr>co_waiting := t\<rparr>) = client_ok same env file c"
  "client_ok same env file (c\<lparr>co_rescheduling := t\<rparr>) = client_ok same env file c"
  "client_ok same env file (c\<lparr>co_bootSucceeded := t\<rparr>) = client_ok same env file c"
  "client_ok same env file (reportState st c) = client_ok same env file c"
  by (simp_all add: client_ok_def reportState_def)

lemma client_refresh: "client_ok same env file c \<Longrightarrow> client_ok same env file (c\<lparr>co_refresh := None\<rparr>)"
  "client_ok same env file c \<Longrightarrow> co_boot c = BootSettled \<Longrightarrow> client_ok same env file (c\<lparr>co_refresh := k\<rparr>)"
  by (simp_all add: client_ok_def)

text \<open>A save takes what is pending.\<close>

lemma window_save:
  "window_ok same env file sub (Some p) None None r obs st \<Longrightarrow> window_ok same env file sub None (Some (p, r)) None r obs st"
  unfolding window_ok_def by simp

lemma save_ok:
  assumes "client_ok same env file c" "\<not> co_disposed c"
  shows "client_ok same env file (savePendingLayout env c)"
proof (cases "co_inFlight c = None \<and> co_conflict c = None \<and> co_pending c \<noteq> None")
  case True
  then obtain p where p: "co_pending c = Some p" by auto
  have "ce_hasSave env" using assms(1) p by (auto simp: client_ok_def window_ok_def split: if_splits)
  moreover have "window_ok same env file (co_subscribed c) (Some p) None None (co_revision c) (co_lastObserved c) (co_store c)"
    using assms(1) True p by (simp add: client_ok_def)
  note window_save [OF this]
  ultimately show ?thesis using assms True p
    by (simp add: savePendingLayout_def Let_def client_ok_def reportState_def)
next
  case False
  then have "savePendingLayout env c = c\<lparr>co_timer := False\<rparr>" by (auto simp: savePendingLayout_def Let_def split: option.split)
  then show ?thesis using assms by simp
qed

lemma layout_schedule_ok: "client_ok same env file c \<Longrightarrow> client_ok same env file (scheduleRefresh env c)"
  by (simp add: scheduleRefresh_def)

lemma refreshLayout_ok: "client_ok same env file c \<Longrightarrow> client_ok same env file (refreshLayout env c)"
  by (simp add: refreshLayout_def client_refresh(2))

lemma layout_settle_ok: "client_ok same env file c \<Longrightarrow> client_ok same env file (bootstrapSettled env c)"
  by (auto simp: bootstrapSettled_def Let_def intro!: refreshLayout_ok) (simp_all add: client_ok_def)

lemma layout_flush_ok: "client_ok same env file c \<Longrightarrow> \<not> co_disposed c \<Longrightarrow> client_ok same env file (snd (flushTurn env c))"
  by (simp add: flushTurn_def Let_def save_ok)

text \<open>A store that shows the same.\<close>

lemma window_same:
  assumes "keepsLayouts same env b" "same l st" "same st l" "window_ok same env file sub p i cf r obs st"
  shows "window_ok same env file sub p i cf r obs l"
proof -
  have same: "same y l" if "same y st" for y using keepsD(3) [OF assms(1) that assms(3)] .
  note w = window_okD [OF assms(4)]
  show ?thesis
  proof (rule window_okI)
    show "sub \<longrightarrow> ce_hasSave env \<and> observes same env obs l" using w(1) observes_cong [OF assms(1,3)] by blast
    show "\<forall>q. p = Some q \<longrightarrow> same q l" using w(4) same by blast
    show "\<forall>q e. i = Some (q, e) \<longrightarrow> e = r \<and> (p = None \<longrightarrow> same q l)" using w(5) same by blast
    show "sub \<longrightarrow> p = None \<longrightarrow> i = None \<longrightarrow> agrees same file r l" using w(7) agrees_cong [OF assms(1,2)] by blast
  qed (rule w)+
qed

lemma store_ok:
  assumes "keepsLayouts same env b" "client_ok same env file c" "\<not> co_disposed c"
  shows "client_ok same env file (storeChanges env l c)"
proof -
  note keep = keepsD [OF assms(1)]
  consider "\<not> co_subscribed c" | "co_subscribed c" "ce_fingerprint env l = co_lastObserved c"
    | "co_subscribed c" "ce_fingerprint env l \<noteq> co_lastObserved c" by blast
  then show ?thesis
  proof cases
    case 1
    then show ?thesis using assms(2) by (auto simp: storeChanges_def client_ok_def window_ok_def)
  next
    case 2
    then obtain x where "ce_fingerprint env l = ce_fingerprint env x" "same x (co_store c)"
      using assms(2) unfolding client_ok_def window_ok_def observes_def by auto
    then have same: "same l (co_store c)" using keep(3) [OF keep(4)] by blast
    note same = same keep(2) [OF same]
    have "window_ok same env file True p i cf r obs l" if "window_ok same env file True p i cf r obs (co_store c)"
      for p i cf r obs using window_same [OF assms(1) same that] .
    then show ?thesis using assms(2) 2 by (auto simp: storeChanges_def Let_def client_ok_def)
  next
    case 3
    have shown: "window_ok same env file True (Some l) i cf r (ce_fingerprint env l) l"
      if "window_ok same env file True p i cf r obs st" for p i cf r obs st
    proof (rule window_okI)
      note w = window_okD [OF that]
      show "True \<longrightarrow> ce_hasSave env \<and> observes same env (ce_fingerprint env l) l"
        using w(1) observes_own [OF assms(1)] by simp
      show "\<forall>m e. i = Some (m, e) \<longrightarrow> e = r \<and> (Some l = None \<longrightarrow> same m l)" using w(5) by simp
      show "\<forall>m rl. cf = Some (m, rl) \<longrightarrow> i = None \<and> Some l \<noteq> None
          \<and> remote_ok same file rl \<and> rl_initialized rl \<and> rl_revision rl = r" using w(6) by simp
    qed (use window_okD(3) [OF that] keep(1) in simp_all)
    have "window_ok same env file True (co_pending c) (co_inFlight c) (co_conflict c) (co_revision c) (co_lastObserved c) (co_store c)"
      using assms(2) 3(1) by (simp add: client_ok_def)
    from shown [OF this] assms(2,3) 3 show ?thesis by (simp add: storeChanges_def Let_def client_ok_def)
  qed
qed

text \<open>A window that has nothing to save and shows the layout of its revision.\<close>

lemma window_fresh:
  "ce_hasSave env \<Longrightarrow> agrees same file r l \<Longrightarrow> observes same env obs l \<Longrightarrow> window_ok same env file True None None None r obs l"
  by (simp add: window_ok_def agrees_def)

lemma window_idle: "\<not> ce_hasSave env \<Longrightarrow> r \<le> fileRevision file \<Longrightarrow> window_ok same env file False None None None r obs l"
  by (simp add: window_ok_def)

lemma agrees_revision: "agrees same file r l \<Longrightarrow> r \<le> fileRevision file"
  by (simp add: agrees_def)

lemma window_unsubscribed:
  "window_ok same env file False p i cf r obs st \<Longrightarrow> p = None \<and> i = None \<and> cf = None \<and> (ce_hasSave env \<longrightarrow> r = 0)"
  by (simp add: window_ok_def)

text \<open>What taking over a layout does to a window that may.\<close>

lemma applied:
  assumes "keepsLayouts same env b" "\<not> co_disposed c" "rl_initialized rl" "co_revision c \<le> rl_revision rl"
    and "allowBusy \<or> (co_pending c = None \<and> co_inFlight c = None)"
  obtains l where "same l (rl_layout rl)" "same (rl_layout rl) l"
    "applyRemoteLayout env rl allowBusy c = c\<lparr>co_revision := rl_revision rl,
       co_lastObserved := ce_fingerprint env (rl_layout rl), co_store := l\<rparr>"
proof (cases "ce_fingerprint env (rl_layout rl) = ce_fingerprint env (co_store c)")
  case True
  then have same: "same (rl_layout rl) (co_store c)" by (rule keepsD(4) [OF assms(1)])
  have "applyRemoteLayout env rl allowBusy c = c\<lparr>co_revision := rl_revision rl,
      co_lastObserved := ce_fingerprint env (rl_layout rl), co_store := co_store c\<rparr>"
    using assms(2-5) True by (auto simp: applyRemoteLayout_def Let_def)
  with same keepsD(2) [OF assms(1) same] that show ?thesis by blast
next
  case False
  have same: "same (ce_replace env (rl_layout rl)) (rl_layout rl)" by (rule keepsD(5) [OF assms(1)])
  have "applyRemoteLayout env rl allowBusy c = c\<lparr>co_revision := rl_revision rl,
      co_lastObserved := ce_fingerprint env (rl_layout rl), co_store := ce_replace env (rl_layout rl)\<rparr>"
    using assms(2-5) False by (auto simp: applyRemoteLayout_def Let_def)
  with same keepsD(2) [OF assms(1) same] that show ?thesis by blast
qed

text \<open>A layout that is taken over agrees with the file.\<close>

lemma adopted_window:
  assumes "keepsLayouts same env b" "ce_hasSave env" "remote_ok same file rl" "same l (rl_layout rl)" "same (rl_layout rl) l"
  shows "window_ok same env file True None None None (rl_revision rl) (ce_fingerprint env (rl_layout rl)) l"
    and "window_ok same env file True None None None (rl_revision rl) (ce_fingerprint env l) l"
proof -
  have agrees: "agrees same file (rl_revision rl) l"
    by (rule agrees_cong [OF assms(1,4)]) (use assms(3) in \<open>simp add: remote_ok_def\<close>)
  show "window_ok same env file True None None None (rl_revision rl) (ce_fingerprint env (rl_layout rl)) l"
    by (rule window_fresh [OF assms(2) agrees observes_cong [OF assms(1,5) observes_own [OF assms(1)]]])
  show "window_ok same env file True None None None (rl_revision rl) (ce_fingerprint env l) l"
    by (rule window_fresh [OF assms(2) agrees observes_own [OF assms(1)]])
qed

lemma startSubscription_fresh:
  assumes "keepsLayouts same env b" "file_ok file" "client_ok same env file c" "co_boot c = BootSettled"
  shows "client_ok same env file (startSubscription env c)"
proof (cases "\<not> co_subscribed c \<and> ce_hasSave env")
  case True
  then have "co_pending c = None" "co_inFlight c = None" "co_conflict c = None" "co_revision c = 0"
    using assms(3) window_unsubscribed unfolding client_ok_def by (metis (full_types))+
  then show ?thesis using True assms(4) window_fresh [OF _ agrees_unwritten [OF assms(2)] observes_own [OF assms(1)]]
    by (simp add: startSubscription_def client_ok_def)
qed (use assms(3) in \<open>auto simp: startSubscription_def\<close>)

text \<open>The fields the invariant speaks of, when no one listens yet.\<close>

lemma idle_fields:
  assumes "client_ok same env file c" "\<not> co_subscribed c"
  shows "co_pending c = None" "co_inFlight c = None" "co_conflict c = None" "ce_hasSave env \<longrightarrow> co_revision c = 0"
  using assms window_unsubscribed [of same env "file" "co_pending c" "co_inFlight c" "co_conflict c" "co_revision c"
      "co_lastObserved c" "co_store c"] by (simp_all add: client_ok_def)

lemma client_window:
  "client_ok same env file c \<Longrightarrow> window_ok same env file (co_subscribed c) (co_pending c) (co_inFlight c) (co_conflict c)
     (co_revision c) (co_lastObserved c) (co_store c)"
  by (simp add: client_ok_def)

text \<open>A layout taken over from a refresh, with the subscription that follows.\<close>

lemma take_over_ok:
  assumes keeps: "keepsLayouts same env b" and "file_ok file" "client_ok same env file c" "\<not> co_disposed c"
    and rl: "remote_ok same file rl" and "co_boot c = BootSettled"
  shows "client_ok same env file (startSubscription env (applyRemoteLayout env rl False c))"
proof (cases "rl_initialized rl \<and> co_revision c \<le> rl_revision rl \<and> co_pending c = None \<and> co_inFlight c = None")
  case False
  then have "applyRemoteLayout env rl False c = c" by (auto simp: applyRemoteLayout_def)
  then show ?thesis using startSubscription_fresh [OF keeps assms(2,3,6)] by simp
next
  case True
  then obtain l where l: "same l (rl_layout rl)" "same (rl_layout rl) l"
    "applyRemoteLayout env rl False c = c\<lparr>co_revision := rl_revision rl,
       co_lastObserved := ce_fingerprint env (rl_layout rl), co_store := l\<rparr>"
    using applied [OF keeps assms(4)] by metis
  have conflict: "co_conflict c = None"
    using True window_okD(6) [OF client_window [OF assms(3)]] by (cases "co_conflict c") auto
  have revision: "rl_revision rl \<le> fileRevision file" using rl by (simp add: remote_ok_def agrees_def)
  show ?thesis
  proof (cases "ce_hasSave env")
    case save: True
    then show ?thesis using True conflict adopted_window [OF keeps save rl l(1,2)] assms(6)
      by (auto simp: l(3) startSubscription_def client_ok_def)
  next
    case False
    moreover have "\<not> co_subscribed c" using False window_okD(1) [OF client_window [OF assms(3)]] by auto
    ultimately show ?thesis using True conflict revision assms(6) window_idle [OF False revision]
      by (simp add: l(3) startSubscription_def client_ok_def)
  qed
qed

lemma refreshSettled_ok: "client_ok same env file c \<Longrightarrow> client_ok same env file (refreshSettled env c)"
  by (simp add: refreshSettled_def Let_def layout_schedule_ok client_refresh)

lemma refreshAnswered_ok:
  assumes "keepsLayouts same env b" "file_ok file" "client_ok same env file c" "\<not> co_disposed c"
    and "remote_ok same file rl" "co_boot c = BootSettled"
  shows "client_ok same env file (refreshAnswered env rl c)"
  using take_over_ok [OF assms(1,2) _ _ assms(5), where c = c] take_over_ok [OF assms(1,2) _ _ assms(5), where c = "c\<lparr>co_bootSucceeded := True\<rparr>"]
    assms(3,4,6) by (simp add: refreshAnswered_def Let_def refreshSettled_ok)

lemma accept_ok:
  assumes "keepsLayouts same env b" "client_ok same env file c" "\<not> co_disposed c"
  shows "client_ok same env file (acceptRemoteLayout env c)"
proof (cases "co_conflict c")
  case None
  then show ?thesis using assms(2) by (simp add: acceptRemoteLayout_def)
next
  case (Some cf)
  obtain l rl where cf: "cf = (l, rl)" by (cases cf)
  note w = window_okD [OF client_window [OF assms(2)]]
  have sub: "co_subscribed c" "ce_hasSave env" using w(1,2) Some by auto
  have rl: "co_inFlight c = None" "remote_ok same file rl" "rl_initialized rl" "rl_revision rl = co_revision c"
    using w(6) Some cf by auto
  let ?c = "c\<lparr>co_conflict := None, co_pending := None, co_timer := False\<rparr>"
  have "\<not> co_disposed ?c" "co_revision ?c \<le> rl_revision rl" using assms(3) rl(4) by simp_all
  then obtain l' where l': "same l' (rl_layout rl)" "same (rl_layout rl) l'"
    "applyRemoteLayout env rl True ?c = ?c\<lparr>co_revision := rl_revision rl,
       co_lastObserved := ce_fingerprint env (rl_layout rl), co_store := l'\<rparr>"
    using applied [OF assms(1) _ rl(3), of ?c True] by metis
  have "co_boot c = BootSettled" using assms(2) sub(1) by (simp add: client_ok_def)
  then show ?thesis using Some cf sub rl(1) assms(3) adopted_window(1) [OF assms(1) sub(2) rl(2) l'(1,2)]
    by (simp add: acceptRemoteLayout_def l'(3) client_ok_def)
qed

text \<open>The answer to a save.\<close>

definition save_answer_ok :: "('l \<Rightarrow> 'l \<Rightarrow> bool) \<Rightarrow> 'l layoutFile option \<Rightarrow> 'l \<Rightarrow> bool \<Rightarrow> 'l remoteLayout \<Rightarrow> bool" where
  "save_answer_ok same file l conflict rl \<longleftrightarrow> rl_initialized rl \<and> rl_revision rl \<le> fileRevision file
     \<and> (if conflict then remote_ok same file rl else agrees same file (rl_revision rl) l)"

lemma in_flight_fields:
  assumes "client_ok same env file c" "co_inFlight c = Some (l, e)"
  shows "co_subscribed c" "ce_hasSave env" "co_conflict c = None" "co_boot c = BootSettled"
    "co_pending c = None \<longrightarrow> same l (co_store c)" "e = co_revision c" "observes same env (co_lastObserved c) (co_store c)"
proof -
  note w = window_okD [OF client_window [OF assms(1)]]
  show sub: "co_subscribed c" using w(2) assms(2) by auto
  then show "ce_hasSave env" "observes same env (co_lastObserved c) (co_store c)" using w(1) by auto
  show "co_conflict c = None" using w(6) assms(2) by (cases "co_conflict c") auto
  show "co_pending c = None \<longrightarrow> same l (co_store c)" "e = co_revision c" using w(5) assms(2) by auto
  show "co_boot c = BootSettled" using assms(1) sub by (simp add: client_ok_def)
qed

lemma saveFailed_ok:
  assumes "keepsLayouts same env b" "client_ok same env file c" "co_inFlight c = Some (l, e)" "\<not> co_disposed c"
  shows "client_ok same env file (saveFailed c)"
proof -
  note f = in_flight_fields [OF assms(2,3)]
  have "window_ok same env file True (Some (co_store c)) None None (co_revision c) (co_lastObserved c) (co_store c)"
    using f keepsD(1) [OF assms(1)] window_okD(3) [OF client_window [OF assms(2)]] by (simp add: window_ok_def)
  then show ?thesis using f assms(4) by (simp add: saveFailed_def reportState_def client_ok_def)
qed

lemma saveAnswered_ok:
  assumes "keepsLayouts same env b" "client_ok same env file c" "co_inFlight c = Some (l, e)" "\<not> co_disposed c"
    and "save_answer_ok same file l conflict rl"
  shows "client_ok same env file (saveAnswered env conflict rl c)"
proof -
  note f = in_flight_fields [OF assms(2,3)] and keep = keepsD [OF assms(1)]
  have revision: "rl_revision rl \<le> fileRevision file" "rl_initialized rl" using assms(5) by (simp_all add: save_answer_ok_def)
  show ?thesis
  proof (cases conflict)
    case True
    then have "remote_ok same file rl" using assms(5) by (simp add: save_answer_ok_def)
    then have "window_ok same env file True (Some (co_store c)) None (Some (co_store c, rl)) (rl_revision rl)
        (co_lastObserved c) (co_store c)"
      using f keep(1) revision by (simp add: window_ok_def)
    then show ?thesis using f True assms(4) by (simp add: saveAnswered_def reportState_def client_ok_def)
  next
    case False
    show ?thesis
    proof (cases "co_pending c")
      case None
      then have "same (co_store c) l" using f(5) keep(2) by blast
      then have "agrees same file (rl_revision rl) (co_store c)"
        by (rule agrees_cong [OF assms(1)]) (use assms(5) False in \<open>simp add: save_answer_ok_def\<close>)
      from window_fresh [OF f(2) this f(7)] show ?thesis using f False None assms(4)
        by (simp add: saveAnswered_def reportState_def client_ok_def)
    next
      case (Some p)
      let ?c = "c\<lparr>co_revision := rl_revision rl, co_inFlight := None\<rparr>"
      have "same p (co_store c)" using window_okD(4) [OF client_window [OF assms(2)]] Some by blast
      then have "client_ok same env file ?c" using f Some revision by (simp add: client_ok_def window_ok_def)
      then show ?thesis using save_ok [of same env "file" ?c] Some f False assms(4)
        by (simp add: saveAnswered_def)
    qed
  qed
qed

lemma bootstrapAnswered_ok:
  assumes "keepsLayouts same env b" "file_ok file" "client_ok same env file c" "co_boot c = BootAsked l" "\<not> co_disposed c"
    and rl: "remote_ok same file rl"
  shows "client_ok same env file (bootstrapAnswered env rl c)"
proof -
  let ?c = "c\<lparr>co_boot := BootSettled, co_bootSucceeded := True\<rparr>"
  have start: "\<not> co_subscribed c" "co_revision c = 0" "co_refresh c = None" using assms(3,4) by (simp_all add: client_ok_def)
  note idle = idle_fields [OF assms(3) start(1)]
  have c: "client_ok same env file ?c" using assms(3) by (simp add: client_ok_def)
  have same: "startSubscription env ((if rl_initialized rl then applyRemoteLayout env rl False (c\<lparr>co_bootSucceeded := True\<rparr>)
        else c\<lparr>co_bootSucceeded := True\<rparr>)\<lparr>co_revision := rl_revision rl\<rparr>)\<lparr>co_boot := BootSettled\<rparr>
      = startSubscription env (applyRemoteLayout env rl False ?c)"
    using idle start assms(5) rl
    by (auto simp: applyRemoteLayout_def startSubscription_def Let_def remote_ok_def split: if_splits)
  have ok: "client_ok same env file (startSubscription env (applyRemoteLayout env rl False ?c))"
    using take_over_ok [OF assms(1,2) c _ rl] assms(5) by simp
  have settled: "bootstrapSettled env (scheduleRefresh env x) = (let y = scheduleRefresh env (x\<lparr>co_boot := BootSettled\<rparr>) in
      if co_waiting y then refreshLayout env (y\<lparr>co_waiting := False\<rparr>) else y\<lparr>co_waiting := False\<rparr>)" for x
    by (cases x) (simp add: bootstrapSettled_def scheduleRefresh_def Let_def)
  have disposed: "\<not> co_disposed ((if rl_initialized rl then applyRemoteLayout env rl False (c\<lparr>co_bootSucceeded := True\<rparr>)
        else c\<lparr>co_bootSucceeded := True\<rparr>)\<lparr>co_revision := rl_revision rl\<rparr>)"
    using assms(5) by (simp add: applyRemoteLayout_def Let_def)
  have "client_ok same env file (scheduleRefresh env (startSubscription env (applyRemoteLayout env rl False ?c)))"
    by (rule layout_schedule_ok [OF ok])
  then show ?thesis using assms(5) disposed
    by (simp add: bootstrapAnswered_def settled same Let_def refreshLayout_ok)
qed

section \<open>Window and file together\<close>

definition system_ok :: "('l \<Rightarrow> 'l \<Rightarrow> bool) \<Rightarrow> 'l coordinatorEnv \<Rightarrow> 'l layoutSystem \<Rightarrow> bool" where
  "system_ok same env s \<longleftrightarrow> file_ok (sys_file s) \<and> (\<not> co_disposed (sys_client s) \<longrightarrow>
     client_ok same env (sys_file s) (sys_client s)
     \<and> (\<forall>conflict rl. sys_save s = Answered (conflict, rl) \<longrightarrow>
          (\<exists>l e. co_inFlight (sys_client s) = Some (l, e) \<and> save_answer_ok same (sys_file s) l conflict rl))
     \<and> (sys_save s \<noteq> NotAsked \<longrightarrow> co_inFlight (sys_client s) \<noteq> None)
     \<and> (\<forall>rl. sys_refresh s = Answered rl \<longrightarrow> remote_ok same (sys_file s) rl)
     \<and> (sys_refresh s \<noteq> NotAsked \<longrightarrow> co_refresh (sys_client s) \<noteq> None)
     \<and> (\<forall>rl. sys_boot s = Answered rl \<longrightarrow> remote_ok same (sys_file s) rl)
     \<and> (sys_boot s \<noteq> NotAsked \<longrightarrow> bootAsked (co_boot (sys_client s)) \<noteq> None))"

lemma asked_simps [simp]:
  "asked w r = Answered a \<longleftrightarrow> w \<and> r = Answered a" "asked w r = NotAsked \<longleftrightarrow> \<not> w"
  by (auto simp: asked_def)

lemma withClient_fields [simp]:
  "sys_client (withClient c s) = c" "sys_file (withClient c s) = sys_file s"
  "sys_save (withClient c s) = asked (co_inFlight c \<noteq> None) (sys_save s)"
  "sys_refresh (withClient c s) = asked (co_refresh c \<noteq> None) (sys_refresh s)"
  "sys_boot (withClient c s) = asked (bootAsked (co_boot c) \<noteq> None) (sys_boot s)"
  by (simp_all add: withClient_def)

lemma withClient_ok:
  assumes "file_ok (sys_file s)" "\<not> co_disposed c \<Longrightarrow> client_ok same env (sys_file s) c"
    and "\<And>conflict rl. \<not> co_disposed c \<Longrightarrow> sys_save s = Answered (conflict, rl) \<Longrightarrow> co_inFlight c \<noteq> None \<Longrightarrow>
      \<exists>l e. co_inFlight c = Some (l, e) \<and> save_answer_ok same (sys_file s) l conflict rl"
    and "\<And>rl. \<not> co_disposed c \<Longrightarrow> sys_refresh s = Answered rl \<Longrightarrow> remote_ok same (sys_file s) rl"
    and "\<And>rl. \<not> co_disposed c \<Longrightarrow> sys_boot s = Answered rl \<Longrightarrow> remote_ok same (sys_file s) rl"
  shows "system_ok same env (withClient c s)"
  using assms by (simp add: system_ok_def)

text \<open>Which operations close the window, and that none takes back a save that runs.\<close>

lemma disposed_simps [simp]:
  "co_disposed (reportState st c) = co_disposed c"
  "co_disposed (applyRemoteLayout env rl busy c) = co_disposed c"
  "co_disposed (scheduleRefresh env c) = co_disposed c"
  "co_disposed (startSubscription env c) = co_disposed c"
  "co_disposed (refreshLayout env c) = co_disposed c"
  "co_disposed (storeChanges env l c) = co_disposed c"
  by (simp_all add: reportState_def applyRemoteLayout_def scheduleRefresh_def startSubscription_def refreshLayout_def
      storeChanges_def Let_def)

lemma disposed_more [simp]:
  "co_disposed (savePendingLayout env c) = co_disposed c"
  "co_disposed (refreshSettled env c) = co_disposed c"
  "co_disposed (bootstrapSettled env c) = co_disposed c"
  by (simp_all add: savePendingLayout_def refreshSettled_def bootstrapSettled_def Let_def split: option.split)

lemma disposed_answers [simp]:
  "co_disposed (saveFailed c) = co_disposed c"
  "co_disposed (saveAnswered env conflict rl c) = co_disposed c"
  "co_disposed (refreshAnswered env rl c) = co_disposed c"
  "co_disposed (bootstrapAnswered env rl c) = co_disposed c"
  "co_disposed (acceptRemoteLayout env c) = co_disposed c"
  "co_disposed (snd (flushTurn env c)) = co_disposed c"
  by (simp_all add: saveFailed_def saveAnswered_def refreshAnswered_def bootstrapAnswered_def acceptRemoteLayout_def
      flushTurn_def Let_def split: option.split)

lemma in_flight_simps [simp]:
  "co_inFlight (applyRemoteLayout env rl busy c) = co_inFlight c"
  "co_inFlight (scheduleRefresh env c) = co_inFlight c"
  "co_inFlight (startSubscription env c) = co_inFlight c"
  "co_inFlight (refreshLayout env c) = co_inFlight c"
  "co_inFlight (storeChanges env l c) = co_inFlight c"
  by (simp_all add: applyRemoteLayout_def scheduleRefresh_def startSubscription_def refreshLayout_def
      storeChanges_def Let_def)

lemma in_flight_more [simp]:
  "co_inFlight (refreshSettled env c) = co_inFlight c"
  "co_inFlight (bootstrapSettled env c) = co_inFlight c"
  "co_inFlight (acceptRemoteLayout env c) = co_inFlight c"
  "co_inFlight (refreshAnswered env rl c) = co_inFlight c"
  "co_inFlight (bootstrapAnswered env rl c) = co_inFlight c"
  by (simp_all add: refreshSettled_def bootstrapSettled_def acceptRemoteLayout_def refreshAnswered_def bootstrapAnswered_def
      Let_def split: option.split)

lemma in_flight_stays: "co_inFlight c \<noteq> None \<Longrightarrow> co_inFlight (clientStep env a c) = co_inFlight c"
  by (cases a) (auto simp: saveTimerFires_def savePendingLayout_def retryPendingSave_def flushStart_def flushTurn_def Let_def
      refreshTimerFires_def bootstrapLayout_def disposeCoordinator_def)

lemma closes: "co_disposed (clientStep env a c) \<longleftrightarrow> co_disposed c \<or> a = DisposeClient"
  by (cases a) (auto simp: saveTimerFires_def retryPendingSave_def flushStart_def Let_def
      refreshTimerFires_def bootstrapLayout_def disposeCoordinator_def)

lemma retry_ok:
  assumes "keepsLayouts same env b" "client_ok same env file c" "\<not> co_disposed c"
  shows "client_ok same env file (snd (retryPendingSave env c))"
proof -
  have "client_ok same env file (c\<lparr>co_pending := Some (co_store c), co_conflict := None\<rparr>)" if "co_conflict c \<noteq> None"
  proof -
    have sub: "co_subscribed c" using idle_fields(3) [OF assms(2)] that by blast
    have "window_ok same env file True (Some (co_store c)) None None (co_revision c) (co_lastObserved c) (co_store c)"
      using window_okD(1-3,6) [OF client_window [OF assms(2)]] that sub keepsD(1) [OF assms(1)]
      by (auto simp: window_ok_def)
    moreover have "co_inFlight c = None" using window_okD(6) [OF client_window [OF assms(2)]] that by auto
    ultimately show ?thesis using assms(2) sub by (simp add: client_ok_def)
  qed
  then show ?thesis using assms by (auto simp: retryPendingSave_def flushStart_def intro!: layout_flush_ok)
qed

lemma clientStep_ok:
  assumes "keepsLayouts same env b" "client_ok same env file c" "\<not> co_disposed c" "a \<noteq> DisposeClient"
  shows "client_ok same env file (clientStep env a c)"
proof (cases a)
  case RefreshTimer
  then show ?thesis using assms refreshLayout_ok [of same env "file" "c\<lparr>co_refreshTimer := False\<rparr>"]
    by (auto simp: refreshTimerFires_def Let_def layout_schedule_ok)
next
  case StartBootstrap
  then show ?thesis using assms(2)
    by (auto simp: bootstrapLayout_def layout_settle_ok layout_schedule_ok) (auto simp: client_ok_def)
qed (use assms store_ok [OF assms(1-3)] accept_ok [OF assms(1-3)] retry_ok [OF assms(1-3)] in
      \<open>auto simp: saveTimerFires_def flushStart_def intro!: save_ok layout_flush_ok refreshLayout_ok\<close>)

text \<open>Serving a request lets the file grow, and the answers already given stay true.\<close>

lemma grown_ok:
  assumes "grows (sys_file s) file'" "system_ok same env s"
  shows "system_ok same env (s\<lparr>sys_file := file'\<rparr>)"
proof -
  have "save_answer_ok same file' l conflict rl" if "save_answer_ok same (sys_file s) l conflict rl" for l conflict rl
    using that grows_remote [OF assms(1)] grows_agrees [OF assms(1)] grows_revision [OF assms(1)]
    by (auto simp: save_answer_ok_def split: if_splits)
  then show ?thesis using assms(2) grows_ok [OF assms(1)] client_grows [OF assms(1)] grows_remote [OF assms(1)]
    unfolding system_ok_def by simp blast
qed

lemma serve_save_ok:
  assumes "keepsLayouts same env b" "file_ok file" "SaveConnectionSidebarLayout b e l file = Some ((conflict, rl), file')"
  shows "grows file file'" "e \<le> fileRevision file \<Longrightarrow> save_answer_ok same file' l conflict rl"
proof -
  have e: "(case file of None \<Rightarrow> 0 | Some f \<Rightarrow> lf_revision f) = fileRevision file" by (simp add: fileRevision_def)
  have "grows file file' \<and> (e \<le> fileRevision file \<longrightarrow> save_answer_ok same file' l conflict rl)"
  proof (cases "e = fileRevision file")
    case True
    then have "conflict = False" "writeLayout b l file = Some (rl, file')"
      using assms(3) by (auto simp: SaveConnectionSidebarLayout_def e)
    then show ?thesis using write_grows [OF assms(1), of l "file" rl file'] by (simp add: save_answer_ok_def agrees_def)
  next
    case False
    then have c: "conflict" "file' = file" "LoadConnectionSidebarLayout b file = Some rl"
      using assms(3) by (auto simp: SaveConnectionSidebarLayout_def e)
    moreover have "file \<noteq> None" if "e \<le> fileRevision file" using False that by (cases "file") (auto simp: fileRevision_def)
    ultimately show ?thesis using load_ok [OF assms(1,2) c(3)]
      by (auto simp: save_answer_ok_def grows_def remote_ok_def agrees_def)
  qed
  then show "grows file file'" "e \<le> fileRevision file \<Longrightarrow> save_answer_ok same file' l conflict rl" by simp_all
qed

text \<open>What an open window of a system in order looks like.\<close>

lemma system_okD:
  assumes "system_ok same env s"
  shows "file_ok (sys_file s)" "\<not> co_disposed (sys_client s) \<Longrightarrow> client_ok same env (sys_file s) (sys_client s)"
    "\<not> co_disposed (sys_client s) \<Longrightarrow> sys_save s = Answered (conflict, rl) \<Longrightarrow>
       \<exists>l e. co_inFlight (sys_client s) = Some (l, e) \<and> save_answer_ok same (sys_file s) l conflict rl"
    "\<not> co_disposed (sys_client s) \<Longrightarrow> sys_save s \<noteq> NotAsked \<Longrightarrow> \<exists>l e. co_inFlight (sys_client s) = Some (l, e)"
    "\<not> co_disposed (sys_client s) \<Longrightarrow> sys_refresh s = Answered rl \<Longrightarrow> remote_ok same (sys_file s) rl"
    "\<not> co_disposed (sys_client s) \<Longrightarrow> sys_refresh s \<noteq> NotAsked \<Longrightarrow> co_refresh (sys_client s) \<noteq> None"
    "\<not> co_disposed (sys_client s) \<Longrightarrow> sys_boot s = Answered rl \<Longrightarrow> remote_ok same (sys_file s) rl"
    "\<not> co_disposed (sys_client s) \<Longrightarrow> sys_boot s \<noteq> NotAsked \<Longrightarrow> bootAsked (co_boot (sys_client s)) \<noteq> None"
  using assms by (auto simp: system_ok_def)

lemma bootAsked_iff: "bootAsked p \<noteq> None \<longleftrightarrow> (\<exists>l. p = BootAsked l)"
  by (cases p) auto

lemma client_does_ok:
  assumes "keepsLayouts same env b" "system_ok same env s"
  shows "system_ok same env (layoutStep env b (ClientDoes a) s)"
proof -
  note d = system_okD [OF assms(2)]
  have open': "\<not> co_disposed (sys_client s)" "a \<noteq> DisposeClient" if "\<not> co_disposed (clientStep env a (sys_client s))"
    using that by (auto simp: closes)
  have "system_ok same env (withClient (clientStep env a (sys_client s)) s)"
  proof (rule withClient_ok)
    fix conflict rl
    assume "\<not> co_disposed (clientStep env a (sys_client s))" "sys_save s = Answered (conflict, rl)"
    with open' d(3) obtain l e where "co_inFlight (sys_client s) = Some (l, e)" "save_answer_ok same (sys_file s) l conflict rl"
      by blast
    then show "\<exists>l e. co_inFlight (clientStep env a (sys_client s)) = Some (l, e) \<and> save_answer_ok same (sys_file s) l conflict rl"
      using in_flight_stays [of "sys_client s" env a] by simp
  qed (use d open' clientStep_ok [OF assms(1)] in blast)+
  then show ?thesis by simp
qed

text \<open>A window that is closed stays closed, and the file only grows.\<close>

lemma stays_closed:
  assumes "co_disposed (sys_client s)" shows "co_disposed (sys_client (layoutStep env b a s))"
proof (cases a)
  case (ClientDoes x)
  then show ?thesis using assms by (simp add: closes)
qed (use assms in \<open>auto simp: refreshFailed_def bootstrapFailed_def split: request.split option.split prod.split\<close>)

lemma step_grows:
  assumes "keepsLayouts same env b" "file_ok (sys_file s)"
  shows "grows (sys_file s) (sys_file (layoutStep env b a s))"
proof -
  have same: "grows (sys_file s) (sys_file s)" by (simp add: grows_def)
  show ?thesis
  proof (cases a)
    case ServeSave
    then show ?thesis using same serve_save_ok(1) [OF assms] by (auto split: request.split option.split)
  next
    case ServeRefresh
    then show ?thesis using same serveRefresh_ok(1) [OF assms] by (auto split: request.split option.split)
  next
    case ServeBoot
    then show ?thesis using same bootstrap_ok(1) [OF assms] by (auto split: request.split option.split)
  next
    case (OthersWrite l)
    then show ?thesis using same write_grows(1) [OF assms(1)] by (auto split: option.split)
  qed (auto simp: same split: request.split)
qed

lemma answer_arrives_ok:
  assumes "keepsLayouts same env b" "system_ok same env s" "\<not> co_disposed (sys_client s)"
  shows "system_ok same env (layoutStep env b SaveArrives s)" "system_ok same env (layoutStep env b SaveLost s)"
proof -
  note d = system_okD [OF assms(2)] and client = system_okD(2) [OF assms(2,3)]
  let ?s = "s\<lparr>sys_save := NotAsked\<rparr>"
  have step: "system_ok same env (withClient c ?s)" if "client_ok same env (sys_file s) c" for c
    by (rule withClient_ok) (use that d(1) d(5,7) [OF assms(3)] in auto)
  show "system_ok same env (layoutStep env b SaveArrives s)"
  proof (cases "\<exists>conflict rl. sys_save s = Answered (conflict, rl)")
    case True
    then obtain conflict rl where answer: "sys_save s = Answered (conflict, rl)" by blast
    obtain l e where "co_inFlight (sys_client s) = Some (l, e)" "save_answer_ok same (sys_file s) l conflict rl"
      using d(3) [OF assms(3) answer] by blast
    from step [OF saveAnswered_ok [OF assms(1) client this(1) assms(3) this(2)]] answer show ?thesis by simp
  qed (use assms(2) in \<open>auto split: request.split\<close>)
  show "system_ok same env (layoutStep env b SaveLost s)"
  proof (cases "sys_save s = NotAsked")
    case False
    obtain l e where "co_inFlight (sys_client s) = Some (l, e)" using d(4) [OF assms(3) False] by blast
    from step [OF saveFailed_ok [OF assms(1) client this assms(3)]] False show ?thesis by simp
  qed (use assms(2) in simp)
qed

text \<open>The other answers leave a save that runs as it is.\<close>

lemma other_answer_ok:
  assumes "system_ok same env s" "\<not> co_disposed (sys_client s)" "client_ok same env (sys_file s) c"
    and "co_inFlight c = co_inFlight (sys_client s)"
  shows "system_ok same env (withClient c (s\<lparr>sys_refresh := NotAsked\<rparr>))"
    "system_ok same env (withClient c (s\<lparr>sys_boot := NotAsked\<rparr>))"
  using system_okD(1,3,5,7) [OF assms(1)] assms(2-4) by (auto intro!: withClient_ok)

lemma refresh_arrives_ok:
  assumes "keepsLayouts same env b" "system_ok same env s" "\<not> co_disposed (sys_client s)"
  shows "system_ok same env (layoutStep env b RefreshArrives s)" "system_ok same env (layoutStep env b RefreshLost s)"
proof -
  note d = system_okD [OF assms(2)] and client = system_okD(2) [OF assms(2,3)]
  have settled: "co_boot (sys_client s) = BootSettled" if "sys_refresh s \<noteq> NotAsked"
    using client d(6) [OF assms(3) that] by (auto simp: client_ok_def)
  show "system_ok same env (layoutStep env b RefreshArrives s)"
  proof (cases "\<exists>rl. sys_refresh s = Answered rl")
    case True
    then obtain rl where answer: "sys_refresh s = Answered rl" by blast
    then have "co_boot (sys_client s) = BootSettled" using settled by simp
    from refreshAnswered_ok [OF assms(1) d(1) client assms(3) d(5) [OF assms(3) answer] this]
    show ?thesis using other_answer_ok(1) [OF assms(2,3)] answer by simp
  qed (use assms(2) in \<open>auto split: request.split\<close>)
  show "system_ok same env (layoutStep env b RefreshLost s)"
    using assms(2) other_answer_ok(1) [OF assms(2,3) refreshSettled_ok [OF client]] by (simp add: refreshFailed_def)
qed

lemma boot_arrives_ok:
  assumes "keepsLayouts same env b" "system_ok same env s" "\<not> co_disposed (sys_client s)"
  shows "system_ok same env (layoutStep env b BootArrives s)" "system_ok same env (layoutStep env b BootLost s)"
proof -
  note d = system_okD [OF assms(2)] and client = system_okD(2) [OF assms(2,3)]
  show "system_ok same env (layoutStep env b BootArrives s)"
  proof (cases "\<exists>rl. sys_boot s = Answered rl")
    case True
    then obtain rl where answer: "sys_boot s = Answered rl" by blast
    then have "bootAsked (co_boot (sys_client s)) \<noteq> None" using d(8) [OF assms(3)] by simp
    then obtain l where "co_boot (sys_client s) = BootAsked l" unfolding bootAsked_iff by blast
    from bootstrapAnswered_ok [OF assms(1) d(1) client this assms(3) d(7) [OF assms(3) answer]]
    show ?thesis using other_answer_ok(2) [OF assms(2,3)] answer by simp
  qed (use assms(2) in \<open>auto split: request.split\<close>)
  show "system_ok same env (layoutStep env b BootLost s)"
    using assms(2) other_answer_ok(2) [OF assms(2,3) layout_settle_ok [OF layout_schedule_ok [OF client]]] by (simp add: bootstrapFailed_def)
qed

lemma serve_ok:
  assumes "keepsLayouts same env b" "system_ok same env s" "\<not> co_disposed (sys_client s)"
  shows "system_ok same env (layoutStep env b ServeSave s)" "system_ok same env (layoutStep env b ServeRefresh s)"
    "system_ok same env (layoutStep env b ServeBoot s)" "system_ok same env (layoutStep env b (OthersWrite l) s)"
proof -
  note d = system_okD [OF assms(2)] and client = system_okD(2) [OF assms(2,3)]
  show "system_ok same env (layoutStep env b ServeSave s)"
  proof (cases "sys_save s = Asked")
    case True
    then obtain l e where flight: "co_inFlight (sys_client s) = Some (l, e)" using d(4) [OF assms(3)] by auto
    show ?thesis
    proof (cases "SaveConnectionSidebarLayout b e l (sys_file s)")
      case (Some r)
      obtain conflict rl file' where r: "r = ((conflict, rl), file')" by (cases r) auto
      have "e \<le> fileRevision (sys_file s)"
        using in_flight_fields(6) [OF client flight] window_okD(3) [OF client_window [OF client]] by simp
      note served = serve_save_ok [OF assms(1) d(1) Some [unfolded r]] and answer = serve_save_ok(2) [OF assms(1) d(1) Some [unfolded r] this]
      show ?thesis using grown_ok [OF served(1) assms(2)] answer flight True Some r assms(3)
        by (simp add: system_ok_def)
    qed (use True flight assms(2) in simp)
  qed (use assms(2) in \<open>auto split: request.split\<close>)
  show "system_ok same env (layoutStep env b ServeRefresh s)"
  proof (cases "sys_refresh s = Asked")
    case True
    then obtain kind where kind: "co_refresh (sys_client s) = Some kind" using d(6) [OF assms(3)] by auto
    show ?thesis
    proof (cases "serveRefresh b kind (sys_file s)")
      case (Some r)
      obtain rl file' where r: "r = (rl, file')" by (cases r) auto
      note served = serveRefresh_ok [OF assms(1) d(1) Some [unfolded r]]
      show ?thesis using grown_ok [OF served(1) assms(2)] served(2) kind True Some r assms(3) by (simp add: system_ok_def)
    qed (use True kind assms(2) in simp)
  qed (use assms(2) in \<open>auto split: request.split\<close>)
  show "system_ok same env (layoutStep env b ServeBoot s)"
  proof (cases "sys_boot s = Asked")
    case True
    then obtain l where boot: "bootAsked (co_boot (sys_client s)) = Some l" using d(8) [OF assms(3)] by auto
    show ?thesis
    proof (cases "BootstrapConnectionSidebarLayout b l (sys_file s)")
      case (Some r)
      obtain rl file' where r: "r = (rl, file')" by (cases r) auto
      note served = bootstrap_ok [OF assms(1) d(1) Some [unfolded r]]
      show ?thesis using grown_ok [OF served(1) assms(2)] served(2) boot True Some r assms(3) by (simp add: system_ok_def)
    qed (use True boot assms(2) in simp)
  qed (use assms(2) in \<open>auto split: request.split\<close>)
  show "system_ok same env (layoutStep env b (OthersWrite l) s)"
    using assms(2) grown_ok [OF write_grows(1) [OF assms(1)] assms(2)] by (auto split: option.split)
qed

lemma layout_step_ok:
  assumes "keepsLayouts same env b" "system_ok same env s"
  shows "system_ok same env (layoutStep env b a s)"
proof (cases "co_disposed (sys_client s)")
  case True
  have "file_ok (sys_file (layoutStep env b a s))"
    using grows_ok [OF step_grows [OF assms(1)]] system_okD(1) [OF assms(2)] by blast
  then show ?thesis using stays_closed [OF True] by (simp add: system_ok_def)
next
  case False
  show ?thesis
    using client_does_ok [OF assms] serve_ok [OF assms False] answer_arrives_ok [OF assms False]
      refresh_arrives_ok [OF assms False] boot_arrives_ok [OF assms False] by (cases a) (simp_all only:)
qed

lemma layout_run_ok:
  assumes "keepsLayouts same env b" "file_ok file" "layoutRun env b (startSystem l file) s"
  shows "system_ok same env s"
  using assms(3)
proof induction
  case lr_start
  show ?case using assms(2)
    by (simp add: system_ok_def startSystem_def client_ok_def window_ok_def createConnectionSidebarLayoutCoordinator_def)
next
  case (lr_step s' a)
  then show ?case by (intro layout_step_ok [OF assms(1)])
qed

section \<open>Properties\<close>


text \<open>There is a change that the file does not have yet.\<close>

definition unsaved :: "'l coordinator \<Rightarrow> bool" where
  "unsaved c \<longleftrightarrow> co_pending c \<noteq> None \<or> co_inFlight c \<noteq> None"

lemma store_simps [simp]:
  "co_store (reportState st c) = co_store c" "co_store (savePendingLayout env c) = co_store c"
  "co_store (scheduleRefresh env c) = co_store c" "co_store (startSubscription env c) = co_store c"
  "co_store (refreshLayout env c) = co_store c"
  by (simp_all add: reportState_def savePendingLayout_def scheduleRefresh_def startSubscription_def refreshLayout_def Let_def
      split: option.split)

lemma store_more [simp]:
  "co_store (refreshSettled env c) = co_store c" "co_store (bootstrapSettled env c) = co_store c"
  "co_store (saveFailed c) = co_store c" "co_store (saveAnswered env conflict rl c) = co_store c"
  "co_store (snd (flushTurn env c)) = co_store c"
  by (simp_all add: refreshSettled_def bootstrapSettled_def saveFailed_def saveAnswered_def flushTurn_def Let_def)

lemma unsaved_simps [simp]:
  "unsaved (c\<lparr>co_timer := t\<rparr>) = unsaved c" "unsaved (c\<lparr>co_refreshTimer := t\<rparr>) = unsaved c"
  "unsaved (c\<lparr>co_rescheduling := t\<rparr>) = unsaved c" "unsaved (c\<lparr>co_bootSucceeded := t\<rparr>) = unsaved c"
  "unsaved (c\<lparr>co_boot := p\<rparr>) = unsaved c" "unsaved (c\<lparr>co_waiting := t\<rparr>) = unsaved c"
  "unsaved (scheduleRefresh env c) = unsaved c" "unsaved (startSubscription env c) = unsaved c"
  "unsaved (refreshLayout env c) = unsaved c"
  by (simp_all add: unsaved_def scheduleRefresh_def startSubscription_def refreshLayout_def)

lemma unsaved_more [simp]:
  "unsaved (refreshSettled env c) = unsaved c" "unsaved (bootstrapSettled env c) = unsaved c"
  by (simp_all add: refreshSettled_def bootstrapSettled_def Let_def) (simp_all add: unsaved_def)

lemma unsaved_save:
  assumes "\<not> co_disposed c" "ce_hasSave env"
  shows "unsaved (savePendingLayout env c) = unsaved c"
  using assms by (auto simp: unsaved_def savePendingLayout_def reportState_def Let_def split: option.split)

lemma unsaved_client:
  assumes "\<not> co_disposed c" "ce_hasSave env" "unsaved c" "a \<notin> {AcceptRemote, DisposeClient}" "\<And>l. a \<noteq> StoreShows l"
  shows "unsaved (clientStep env a c) \<and> co_store (clientStep env a c) = co_store c"
proof (cases a)
  case RetrySave
  have "unsaved (c\<lparr>co_pending := Some (co_store c), co_conflict := None\<rparr>)" by (simp add: unsaved_def)
  then show ?thesis using assms RetrySave
    by (auto simp: retryPendingSave_def flushStart_def flushTurn_def Let_def unsaved_save)
qed (use assms in \<open>auto simp: saveTimerFires_def flushStart_def flushTurn_def Let_def unsaved_save refreshTimerFires_def
      bootstrapLayout_def\<close>)

lemma unsaved_blocks: "unsaved c \<Longrightarrow> applyRemoteLayout env rl False c = c"
  by (auto simp: unsaved_def applyRemoteLayout_def)

lemma unsaved_listens:
  assumes "client_ok same env file c" "unsaved c"
  shows "co_subscribed c \<and> ce_hasSave env \<and> co_boot c = BootSettled"
proof -
  have sub: "co_subscribed c" using idle_fields(1,2) [OF assms(1)] assms(2) unfolding unsaved_def by blast
  then have "co_boot c = BootSettled" using assms(1) by (simp add: client_ok_def)
  with sub show ?thesis using window_okD(1) [OF client_window [OF assms(1)]] by blast
qed

text \<open>
  C14. What the user has changed is kept until the file has it: as long as a change is waiting or on its way,
  nothing but the user changing the layout again or taking over the other one makes the store show something
  else, and the change stops being unsaved only when the answer arrives that the file took it.
\<close>

theorem unsaved_changes_are_kept:
  assumes "keepsLayouts same env b" "file_ok file" "layoutRun env b (startSystem l0 file) s" "c = sys_client s"
    and "\<not> co_disposed c" "unsaved c" "c' = sys_client (layoutStep env b a s)"
    and "a \<notin> {ClientDoes AcceptRemote, ClientDoes DisposeClient}" "\<And>l. a \<noteq> ClientDoes (StoreShows l)"
  shows "co_store c' = co_store c
    \<and> (unsaved c' \<or> (\<exists>rl. a = SaveArrives \<and> sys_save s = Answered (False, rl)
          \<and> agrees same (sys_file s) (rl_revision rl) (co_store c)))"
proof -
  have sys: "system_ok same env s" by (rule layout_run_ok [OF assms(1-3)])
  then have ok: "client_ok same env (sys_file s) c" using system_okD(2) assms(4,5) by blast
  note listens = unsaved_listens [OF ok assms(6)]
  show ?thesis
  proof (cases a)
    case (ClientDoes x)
    then have x: "x \<notin> {AcceptRemote, DisposeClient}" "x \<noteq> StoreShows l" for l using assms(8,9) by auto
    show ?thesis using unsaved_client [of c env x] assms(4-7) listens x ClientDoes by simp
  next
    case SaveArrives
    show ?thesis
    proof (cases "\<exists>conflict rl. sys_save s = Answered (conflict, rl)")
      case True
      then obtain conflict rl where answer: "sys_save s = Answered (conflict, rl)" by blast
      obtain l e where flight: "co_inFlight c = Some (l, e)" "save_answer_ok same (sys_file s) l conflict rl"
        using system_okD(3) [OF sys _ answer] assms(4,5) by blast
      note f = in_flight_fields [OF ok flight(1)]
      have c': "c' = saveAnswered env conflict rl c" using SaveArrives answer assms(4,7) by simp
      consider conflict | "co_pending c \<noteq> None" "\<not> conflict" | "co_pending c = None" "\<not> conflict" by blast
      then show ?thesis
      proof cases
        case 1
        then show ?thesis using assms(5) by (simp add: c' saveAnswered_def Let_def reportState_def unsaved_def)
      next
        case 2
        then have "unsaved (c\<lparr>co_revision := rl_revision rl, co_inFlight := None\<rparr>)" by (simp add: unsaved_def)
        moreover have "c' = savePendingLayout env (c\<lparr>co_revision := rl_revision rl, co_inFlight := None\<rparr>)"
          using 2 assms(5) f(3) by (auto simp: c' saveAnswered_def Let_def)
        ultimately show ?thesis using assms(5) f(2) by (simp add: unsaved_save)
      next
        case 3
        then have "agrees same (sys_file s) (rl_revision rl) (co_store c)"
          using agrees_cong [OF assms(1) keepsD(2) [OF assms(1)], of l "co_store c"] f(5) flight(2)
          by (simp add: save_answer_ok_def)
        then have "\<exists>rl. a = SaveArrives \<and> sys_save s = Answered (False, rl) \<and> agrees same (sys_file s) (rl_revision rl) (co_store c)"
          using 3 SaveArrives answer by auto
        moreover have "co_store c' = co_store c" by (simp add: c')
        ultimately show ?thesis by blast
      qed
    qed (use assms(4,6,7) SaveArrives in \<open>auto split: request.split\<close>)
  next
    case RefreshArrives
    then show ?thesis using assms(4-7) unsaved_blocks [OF assms(6)] unsaved_blocks [of "c\<lparr>co_bootSucceeded := True\<rparr>"]
      by (auto simp: refreshAnswered_def Let_def split: request.split)
  next
    case BootArrives
    then show ?thesis using system_okD(8) [OF sys] assms(4-7) listens by (auto split: request.split)
  next
    case SaveLost
    then show ?thesis using assms(4-7) by (simp add: saveFailed_def reportState_def unsaved_def)
  qed (use assms(4-7) in \<open>auto simp: refreshFailed_def bootstrapFailed_def split: request.split option.split\<close>)
qed

text \<open>
  C15. A change reaches the file: when a change waits, no conflict is open and no other window has written since,
  flushing it, the backend serving the request and the answer arriving leave the file one revision further
  with the change, and the window with nothing to save, telling that the layout was saved.
\<close>

theorem change_reaches_the_file:
  assumes "keepsLayouts same env b" "file_ok file" "layoutRun env b (startSystem l0 file) s" "c = sys_client s"
    and "\<not> co_disposed c" "co_pending c = Some p" "co_inFlight c = None" "co_conflict c = None"
    and "co_revision c = fileRevision (sys_file s)" "co_revision c < MAX_LAYOUT_REVISION" "lb_normalize b p = Some n"
    and "s' = fold (layoutStep env b) [ClientDoes FlushLayout, ServeSave, SaveArrives] s"
  shows "sys_file s' = Some \<lparr>lf_revision = co_revision c + 1, lf_layout = n\<rparr> \<and> \<not> unsaved (sys_client s')
    \<and> co_revision (sys_client s') = co_revision c + 1 \<and> last (co_calls (sys_client s')) = LsSaved (co_revision c + 1)
    \<and> same (co_store (sys_client s')) n"
proof -
  have sys: "system_ok same env s" by (rule layout_run_ok [OF assms(1-3)])
  then have ok: "client_ok same env (sys_file s) c" using system_okD(2) assms(4,5) by blast
  have "unsaved c" using assms(6) by (simp add: unsaved_def)
  note listens = unsaved_listens [OF ok this]
  let ?c = "c\<lparr>co_timer := False, co_pending := None, co_inFlight := Some (p, co_revision c), co_calls := co_calls c @ [LsSaving]\<rparr>"
  have flushed: "snd (flushStart env c) = ?c"
    using assms(5-8) listens by (simp add: flushStart_def flushTurn_def savePendingLayout_def reportState_def Let_def)
  have idle: "sys_save s = NotAsked" using system_okD(4) [OF sys] assms(4,5,7) by fastforce
  have one: "layoutStep env b (ClientDoes FlushLayout) s = withClient ?c s" using flushed assms(4) by simp
  have written: "SaveConnectionSidebarLayout b (co_revision c) p (sys_file s)
      = Some ((False, remoteOf (co_revision c + 1) n), Some \<lparr>lf_revision = co_revision c + 1, lf_layout = n\<rparr>)"
    using assms(9-11) by (auto simp: SaveConnectionSidebarLayout_def writeLayout_def nextRevision_def fileRevision_def
        split: option.splits)
  have asked: "sys_save (withClient ?c s) = Asked" using idle by (simp add: asked_def)
  let ?s2 = "(withClient ?c s)\<lparr>sys_save := Answered (False, remoteOf (co_revision c + 1) n),
    sys_file := Some \<lparr>lf_revision = co_revision c + 1, lf_layout = n\<rparr>\<rparr>"
  have two: "layoutStep env b ServeSave (withClient ?c s) = ?s2" using written asked by simp
  have three: "saveAnswered env False (remoteOf (co_revision c + 1) n) ?c
      = ?c\<lparr>co_revision := co_revision c + 1, co_inFlight := None, co_calls := co_calls ?c @ [LsSaved (co_revision c + 1)]\<rparr>"
    using assms(5,8) by (simp add: saveAnswered_def reportState_def remoteOf_def Let_def)
  have s': "s' = withClient (saveAnswered env False (remoteOf (co_revision c + 1) n) ?c) (?s2\<lparr>sys_save := NotAsked\<rparr>)"
    unfolding assms(12) by (simp add: one two del: layoutStep.simps(1,2))
  have "same p (co_store c)" using window_okD(4) [OF client_window [OF ok]] assms(6) by blast
  then have "same (co_store c) n"
    using keepsD(2,3) [OF assms(1)] keepsD(6) [OF assms(1) assms(11)] by metis
  then show ?thesis unfolding s' three by (simp add: unsaved_def)
qed

section \<open>A run\<close>

text \<open>Layouts that are texts, compared as they are.\<close>

definition textEnv :: "js_string coordinatorEnv" where
  "textEnv = \<lparr>ce_hasSave = True, ce_hasLoad = True, ce_hasBootstrap = True, ce_refreshInterval = 2000,
     ce_fingerprint = (\<lambda>l. l), ce_replace = (\<lambda>l. l)\<rparr>"

definition textBackend :: "js_string layoutBackend" where
  "textBackend = \<lparr>lb_normalize = Some, lb_noGroups = (\<lambda>l. l = []), lb_empty = []\<rparr>"

lemma text_keeps: "keepsLayouts (=) textEnv textBackend"
  by (simp add: keepsLayouts_def textEnv_def textBackend_def identity_equivp)

text \<open>The window starts with the file at revision three, and the user changes the layout.\<close>

definition startedFile :: "js_string layoutFile option" where
  "startedFile = Some \<lparr>lf_revision = 3, lf_layout = [7]\<rparr>"

definition changedSystem :: "js_string layoutSystem" where
  "changedSystem = layoutStep textEnv textBackend (ClientDoes (StoreShows [9]))
     (layoutStep textEnv textBackend BootArrives (layoutStep textEnv textBackend ServeBoot
       (layoutStep textEnv textBackend (ClientDoes StartBootstrap) (startSystem [5] startedFile))))"

lemma changed_reachable: "layoutRun textEnv textBackend (startSystem [5] startedFile) changedSystem"
  unfolding changedSystem_def by (intro lr_step lr_start)

lemma started_ok: "file_ok startedFile"
  by (simp add: file_ok_def startedFile_def)

lemma changed_facts:
  "\<not> co_disposed (sys_client changedSystem)" "co_pending (sys_client changedSystem) = Some [9]"
  "co_inFlight (sys_client changedSystem) = None" "co_conflict (sys_client changedSystem) = None"
  "co_revision (sys_client changedSystem) = 3" "fileRevision (sys_file changedSystem) = 3" "co_store (sys_client changedSystem) = [9]"
  by code_simp+

theorem change_reaches_the_file_witness:
  "sys_file (fold (layoutStep textEnv textBackend) [ClientDoes FlushLayout, ServeSave, SaveArrives] changedSystem)
     = Some \<lparr>lf_revision = 4, lf_layout = [9]\<rparr>"
proof -
  have "co_revision (sys_client changedSystem) = fileRevision (sys_file changedSystem)"
    "co_revision (sys_client changedSystem) < MAX_LAYOUT_REVISION" "lb_normalize textBackend [9] = Some [9]"
    by (simp_all add: changed_facts MAX_LAYOUT_REVISION_def textBackend_def)
  from change_reaches_the_file [OF text_keeps started_ok changed_reachable refl changed_facts(1-4) this refl] show ?thesis
    by (simp add: changed_facts)
qed

text \<open>Another window has written, and the answer to a refresh is on its way.\<close>

definition refreshedSystem :: "js_string layoutSystem" where
  "refreshedSystem = layoutStep textEnv textBackend ServeRefresh (layoutStep textEnv textBackend (OthersWrite [8])
     (layoutStep textEnv textBackend (ClientDoes AskRefresh) changedSystem))"

lemma refreshed_reachable: "layoutRun textEnv textBackend (startSystem [5] startedFile) refreshedSystem"
  unfolding refreshedSystem_def by (intro lr_step changed_reachable)

lemma refreshed_facts:
  "\<not> co_disposed (sys_client refreshedSystem)" "co_pending (sys_client refreshedSystem) = Some [9]"
  "co_store (sys_client refreshedSystem) = [9]"
  "sys_refresh refreshedSystem = Answered \<lparr>rl_layout = [8], rl_initialized = True, rl_revision = 4\<rparr>"
  by code_simp+

theorem unsaved_changes_are_kept_witness:
  "co_store (sys_client (layoutStep textEnv textBackend RefreshArrives refreshedSystem)) = [9]"
proof -
  have "unsaved (sys_client refreshedSystem)" by (simp add: unsaved_def refreshed_facts)
  from unsaved_changes_are_kept [OF text_keeps started_ok refreshed_reachable refl refreshed_facts(1) this refl, of RefreshArrives]
  show ?thesis by (simp only: refreshed_facts) simp
qed





text \<open>
  The limit of this: while the bootstrap has failed nobody listens, so a change made then is replaced by the
  layout of the file as soon as a refresh gets through, and is not reported.
\<close>

lemma change_before_listening_is_lost:
  "let s = fold (layoutStep textEnv textBackend) [ClientDoes StartBootstrap, BootLost, ClientDoes (StoreShows [9]),
       ClientDoes AskRefresh, ServeRefresh, RefreshArrives] (startSystem [5] startedFile) in
   co_store (sys_client s) = [7] \<and> co_calls (sys_client s) = []"
  by code_simp

end
