(* ===== verification/PendingTransaction.thy ===== *)
theory PendingTransaction
  imports ConnectionReadOnly JsMap
begin

text \<open>
  The pending transaction of a query tab: the hook \<open>useSqlEditorTransactionController.ts\<close> that commits it or
  rolls it back, with the confirmation for production connections (\<open>utils/productionRiskConfirm.ts\<close>,
  \<open>utils/connectionEnvironment.ts\<close>) and the text of its log (\<open>sqlEditorTransactionLog.ts\<close>), the part of a run in
  \<open>QueryEditor.tsx\<close> that receives a transaction, and the table of transactions of the back end
  (\<open>internal/app/methods_db_transaction.go\<close>).

  \<open>finishPendingSqlTransaction\<close> is cut where it waits: for the confirmation and for the back end. A call of the
  back end is recorded in \<open>tc_calls\<close>; a message to the user in \<open>tc_notices\<close>. What the code converts with
  \<open>Math.max(0, Number(x) || 0)\<close> is an integer here, an absent field 0. Times are in milliseconds.
\<close>

section \<open>Data\<close>

datatype commitMode = CmManual | CmAuto

datatype finishAction = FaCommit | FaRollback

datatype finishSource = FsManual | FsAuto | FsTabClose

record pendingTransaction =
  pt_id :: js_string
  pt_commitMode :: commitMode
  pt_autoCommitDelayMs :: int
  pt_createdAt :: int
  pt_autoCommitDueAt :: "int option"
  pt_statementCount :: int
  pt_dbType :: js_string
  pt_dbName :: js_string
  pt_statements :: "js_string list"
  pt_executionDurationMs :: int
  pt_connectionId :: js_string

record riskConnection =
  rk_id :: js_string
  rk_environmentType :: js_string
  rk_config :: "connectionConfig option"

record transactionLog =
  tl_id :: js_string
  tl_timestamp :: int
  tl_sql :: js_string
  tl_success :: bool
  tl_duration :: int
  tl_message :: "js_string option"
  tl_dbName :: js_string
  tl_transactionId :: js_string
  tl_action :: finishAction

datatype transactionNotice =
  NtConnectionNotFound | NtAutoCommitted | NtCommitted | NtRolledBack
| NtAutoCommitFailed js_string | NtCommitFailed js_string | NtRollbackFailed js_string

text \<open>A request to the back end, with what the code behind it still needs.\<close>

record finishRequest =
  fq_transaction :: pendingTransaction
  fq_action :: finishAction
  fq_source :: finishSource
  fq_startedAt :: int

record finishResult =
  fr_success :: bool
  fr_message :: "js_string option"
  fr_outcomeUnknown :: bool

text \<open>What can be thrown, as \<open>rawErrorDetail\<close> tells it apart: a text, something with a message, something else.\<close>

datatype thrownValue = ThrownText js_string | ThrownMessage js_string js_string | ThrownOther js_string | ThrownNothing

text \<open>
  \<open>tc_timer\<close> is the transaction the running timer will commit, \<open>tc_countdown\<close> the time the countdown runs to,
  \<open>tc_asking\<close> the confirmations that are open. The pending transaction is kept in a state and in a reference,
  which change together.
\<close>

record txController =
  tc_pending :: "pendingTransaction option"
  tc_stored :: "(js_string, pendingTransaction) js_map"
  tc_finishing :: "js_string list"
  tc_timer :: "js_string option"
  tc_countdown :: "int option"
  tc_remaining :: "int option"
  tc_asking :: "(pendingTransaction \<times> finishSource \<times> riskConnection) list"
  tc_calls :: "finishRequest list"
  tc_logs :: "transactionLog list"
  tc_notices :: "transactionNotice list"

definition createTxController :: "(js_string, pendingTransaction) js_map \<Rightarrow> txController" where
  "createTxController stored =
     \<lparr>tc_pending = None, tc_stored = stored, tc_finishing = [], tc_timer = None, tc_countdown = None,
      tc_remaining = None, tc_asking = [], tc_calls = [], tc_logs = [], tc_notices = []\<rparr>"

section \<open>Connections in production\<close>

definition CONNECTION_ENVIRONMENTS :: "js_string list" where
  "CONNECTION_ENVIRONMENTS = [js ''production'', js ''test'', js ''development'', js ''local'']"

definition normalizeConnectionEnvironmentType :: "js_string \<Rightarrow> js_string" where
  "normalizeConnectionEnvironmentType s =
     (let normalized = js_lower (js_trim s) in
      if normalized \<in> set CONNECTION_ENVIRONMENTS then normalized else js ''local'')"

definition requiresProductionRiskConfirmation :: "riskConnection option \<Rightarrow> bool" where
  "requiresProductionRiskConfirmation connection \<longleftrightarrow>
     normalizeConnectionEnvironmentType (case connection of None \<Rightarrow> [] | Some c \<Rightarrow> rk_environmentType c) = js ''production''
     \<and> \<not> hasAnyConnectionProtection (case connection of None \<Rightarrow> None | Some c \<Rightarrow> rk_config c)"

text \<open>The dialog of \<open>confirmProductionRisk\<close> answers once: what comes first counts, and closing it is a refusal.\<close>

datatype dialogEvent = DialogOk | DialogCancel | DialogAfterClose

definition confirmAnswer :: "dialogEvent list \<Rightarrow> bool option" where
  "confirmAnswer events = (case events of [] \<Rightarrow> None | e # _ \<Rightarrow> Some (e = DialogOk))"

section \<open>The text of the log\<close>

record transactionBoundary =
  tb_begin :: "js_string option"
  tb_commit :: js_string
  tb_rollback :: js_string
  tb_implicitBeginComment :: "js_string option"

definition plainBoundary :: "js_string \<Rightarrow> transactionBoundary" where
  "plainBoundary begins =
     \<lparr>tb_begin = Some begins, tb_commit = js ''COMMIT'', tb_rollback = js ''ROLLBACK'', tb_implicitBeginComment = None\<rparr>"

definition DEFAULT_TRANSACTION_BOUNDARY :: transactionBoundary where
  "DEFAULT_TRANSACTION_BOUNDARY = plainBoundary (js ''BEGIN'')"

definition TRANSACTION_BOUNDARIES :: "(js_string \<times> transactionBoundary) list" where
  "TRANSACTION_BOUNDARIES =
     map (\<lambda>t. (t, plainBoundary (js ''START TRANSACTION'')))
       [js ''mysql'', js ''mariadb'', js ''diros'', js ''starrocks'', js ''sphinx'', js ''oceanbase'']
     @ [(js ''sqlserver'', \<lparr>tb_begin = Some (js ''BEGIN TRANSACTION''), tb_commit = js ''COMMIT TRANSACTION'',
          tb_rollback = js ''ROLLBACK TRANSACTION'', tb_implicitBeginComment = None\<rparr>)]
     @ map (\<lambda>t. (t, DEFAULT_TRANSACTION_BOUNDARY))
       [js ''postgres'', js ''kingbase'', js ''highgo'', js ''vastbase'', js ''opengauss'', js ''gaussdb'',
        js ''sqlite'', js ''duckdb'', js ''iris'', js ''cache'']
     @ [(js ''oracle'', \<lparr>tb_begin = None, tb_commit = js ''COMMIT'', tb_rollback = js ''ROLLBACK'',
          tb_implicitBeginComment = Some (js ''-- Oracle starts the transaction implicitly with the first DML statement.'')\<rparr>)]"

definition terminateSqlStatement :: "js_string \<Rightarrow> js_string" where
  "terminateSqlStatement statement =
     (let normalized = js_trim statement in
      if normalized = [] \<or> last normalized \<in> set (js '';/'') then normalized else normalized @ js '';'')"

definition boundaryOf :: "js_string \<Rightarrow> transactionBoundary" where
  "boundaryOf dbType =
     (case map_of TRANSACTION_BOUNDARIES (js_lower (js_trim dbType)) of
        None \<Rightarrow> DEFAULT_TRANSACTION_BOUNDARY | Some b \<Rightarrow> b)"

definition transactionLogLines :: "js_string \<Rightarrow> js_string list \<Rightarrow> finishAction \<Rightarrow> js_string list" where
  "transactionLogLines dbType statements action =
     (let boundary = boundaryOf dbType;
          normalizedStatements = filter (\<lambda>s. s \<noteq> []) (map terminateSqlStatement statements) in
      (case tb_implicitBeginComment boundary of
         Some c \<Rightarrow> [c]
       | None \<Rightarrow> (case tb_begin boundary of None \<Rightarrow> [] | Some b \<Rightarrow> [b @ js '';'']))
      @ (if normalizedStatements \<noteq> [] then normalizedStatements
         else [js ''-- No SQL statements were captured for this transaction.''])
      @ [(case action of FaCommit \<Rightarrow> tb_commit boundary | FaRollback \<Rightarrow> tb_rollback boundary) @ js '';''])"

definition buildSqlEditorTransactionLog :: "js_string \<Rightarrow> js_string list \<Rightarrow> finishAction \<Rightarrow> js_string" where
  "buildSqlEditorTransactionLog dbType statements action =
     js_join [10] (transactionLogLines dbType statements action)"

section \<open>The controller\<close>

definition resolveTransactionConnection :: "riskConnection list \<Rightarrow> js_string \<Rightarrow> riskConnection option" where
  "resolveTransactionConnection connections connectionId =
     (let safeConnectionId = js_trim connectionId in
      if safeConnectionId = [] then None else find (\<lambda>c. rk_id c = safeConnectionId) connections)"

definition rawErrorDetail :: "js_string \<Rightarrow> thrownValue \<Rightarrow> js_string" where
  "rawErrorDetail unknownText e =
     (case e of
        ThrownText s \<Rightarrow> s
      | ThrownMessage m s \<Rightarrow> if js_trim m \<noteq> [] then m else s
      | ThrownOther s \<Rightarrow> s
      | ThrownNothing \<Rightarrow> unknownText)"

definition clearAutoCommitTimer :: "txController \<Rightarrow> txController" where
  "clearAutoCommitTimer s = s\<lparr>tc_timer := None, tc_countdown := None, tc_remaining := None\<rparr>"

text \<open>The action of the store (\<open>store.ts\<close>); the id of the tab is in the key.\<close>

definition setSqlEditorPendingTransaction ::
  "js_string \<Rightarrow> pendingTransaction option \<Rightarrow> (js_string, pendingTransaction) js_map
    \<Rightarrow> (js_string, pendingTransaction) js_map" where
  "setSqlEditorPendingTransaction tabId transaction stored =
     (let safeTabId = js_trim tabId in
      if safeTabId = [] then stored
      else (case transaction of None \<Rightarrow> jm_delete stored safeTabId | Some t \<Rightarrow> jm_set stored safeTabId t))"

definition updatePendingSqlTransaction :: "js_string \<Rightarrow> pendingTransaction option \<Rightarrow> txController \<Rightarrow> txController" where
  "updatePendingSqlTransaction tabId transaction s =
     s\<lparr>tc_pending := transaction, tc_stored := setSqlEditorPendingTransaction tabId transaction (tc_stored s)\<rparr>"

definition pendingIs :: "js_string \<Rightarrow> txController \<Rightarrow> bool" where
  "pendingIs i s \<longleftrightarrow> (case tc_pending s of None \<Rightarrow> False | Some t \<Rightarrow> pt_id t = i)"

definition downgradeToManualTransaction :: "js_string \<Rightarrow> pendingTransaction \<Rightarrow> txController \<Rightarrow> txController" where
  "downgradeToManualTransaction tabId transaction s =
     (if \<not> pendingIs (pt_id transaction) s then s
      else updatePendingSqlTransaction tabId
        (Some (transaction\<lparr>pt_commitMode := CmManual, pt_autoCommitDelayMs := 0, pt_autoCommitDueAt := None\<rparr>)) s)"

definition keptStatements :: "js_string list \<Rightarrow> js_string list" where
  "keptStatements statements = filter (\<lambda>s. s \<noteq> []) (map js_trim statements)"

definition appendPendingSqlTransactionExecution ::
  "js_string \<Rightarrow> js_string \<Rightarrow> js_string list \<Rightarrow> int \<Rightarrow> txController \<Rightarrow> txController" where
  "appendPendingSqlTransactionExecution tabId transactionId statements durationMs s =
     (case tc_pending s of
        None \<Rightarrow> s
      | Some transaction \<Rightarrow>
          if pt_id transaction \<noteq> js_trim transactionId then s
          else
            (let nextStatements = keptStatements statements in
             updatePendingSqlTransaction tabId
               (Some (transaction\<lparr>pt_statements := pt_statements transaction @ nextStatements,
                  pt_statementCount := max 0 (pt_statementCount transaction) + int (length nextStatements),
                  pt_executionDurationMs := max 0 (pt_executionDurationMs transaction) + max 0 durationMs\<rparr>)) s))"

definition addTransactionCompletionLog ::
  "finishRequest \<Rightarrow> bool \<Rightarrow> int \<Rightarrow> js_string \<Rightarrow> txController \<Rightarrow> txController" where
  "addTransactionCompletionLog q success now detail s =
     (let t = fq_transaction q in
      s\<lparr>tc_logs := tc_logs s @
         [\<lparr>tl_id = js ''transaction-'' @ pt_id t @ js ''-'' @ nat_text (nat now), tl_timestamp = now,
           tl_sql = buildSqlEditorTransactionLog (pt_dbType t) (pt_statements t) (fq_action q),
           tl_success = success,
           tl_duration = max 0 (pt_executionDurationMs t) + max 0 (now - fq_startedAt q),
           tl_message = (if success then None else Some detail), tl_dbName = pt_dbName t,
           tl_transactionId = pt_id t, tl_action = fq_action q\<rparr>]\<rparr>)"

definition notify :: "transactionNotice \<Rightarrow> txController \<Rightarrow> txController" where
  "notify n s = s\<lparr>tc_notices := tc_notices s @ [n]\<rparr>"

definition addFinishing :: "js_string \<Rightarrow> txController \<Rightarrow> txController" where
  "addFinishing i s = s\<lparr>tc_finishing := List.insert i (tc_finishing s)\<rparr>"

definition deleteFinishing :: "js_string \<Rightarrow> txController \<Rightarrow> txController" where
  "deleteFinishing i s = s\<lparr>tc_finishing := removeAll i (tc_finishing s)\<rparr>"

text \<open>What follows the confirmation, up to the call of the back end.\<close>

definition requestFinish ::
  "js_string \<Rightarrow> finishAction \<Rightarrow> finishSource \<Rightarrow> pendingTransaction \<Rightarrow> int \<Rightarrow> txController \<Rightarrow> txController" where
  "requestFinish tabId action source transaction now s =
     (let s1 = updatePendingSqlTransaction tabId None (addFinishing (pt_id transaction) (clearAutoCommitTimer s)) in
      s1\<lparr>tc_calls := tc_calls s1 @
        [\<lparr>fq_transaction = transaction, fq_action = action, fq_source = source, fq_startedAt = now\<rparr>]\<rparr>)"

definition finishPendingSqlTransaction ::
  "js_string \<Rightarrow> riskConnection list \<Rightarrow> finishAction \<Rightarrow> finishSource \<Rightarrow> js_string option \<Rightarrow> int
    \<Rightarrow> txController \<Rightarrow> txController" where
  "finishPendingSqlTransaction tabId connections action source transactionId now s =
     (case tc_pending s of
        None \<Rightarrow> s
      | Some transaction \<Rightarrow>
          if (case transactionId of None \<Rightarrow> False | Some i \<Rightarrow> i \<noteq> [] \<and> pt_id transaction \<noteq> i) then s
          else if pt_id transaction \<in> set (tc_finishing s) then s
          else if action = FaCommit then
            (case resolveTransactionConnection connections (pt_connectionId transaction) of
               None \<Rightarrow> notify NtConnectionNotFound s
             | Some connection \<Rightarrow>
                 if requiresProductionRiskConfirmation (Some connection) then
                   (let s1 = addFinishing (pt_id transaction) s in
                    s1\<lparr>tc_asking := tc_asking s1 @ [(transaction, source, connection)]\<rparr>)
                 else requestFinish tabId action source transaction now s)
          else requestFinish tabId action source transaction now s)"

text \<open>The answer to the \<open>n\<close>-th open confirmation.\<close>

definition confirmationAnswered :: "js_string \<Rightarrow> nat \<Rightarrow> bool \<Rightarrow> int \<Rightarrow> txController \<Rightarrow> txController" where
  "confirmationAnswered tabId n approved now s0 =
     (if length (tc_asking s0) \<le> n then s0
      else
        (let (transaction, source, _) = tc_asking s0 ! n;
             s = s0\<lparr>tc_asking := take n (tc_asking s0) @ drop (Suc n) (tc_asking s0)\<rparr> in
         if \<not> pendingIs (pt_id transaction) s then deleteFinishing (pt_id transaction) s
         else if \<not> approved then
           (let s1 = deleteFinishing (pt_id transaction) s in
            if source = FsAuto then downgradeToManualTransaction tabId transaction s1 else s1)
         else requestFinish tabId FaCommit source transaction now s))"

definition failureNotice :: "finishRequest \<Rightarrow> js_string \<Rightarrow> transactionNotice" where
  "failureNotice q detail =
     (if fq_source q = FsAuto then NtAutoCommitFailed detail
      else if fq_action q = FaCommit then NtCommitFailed detail else NtRollbackFailed detail)"

definition finishFailed :: "js_string \<Rightarrow> finishRequest \<Rightarrow> thrownValue \<Rightarrow> int \<Rightarrow> txController \<Rightarrow> txController" where
  "finishFailed unknownText q err now s =
     (let detail = rawErrorDetail unknownText err in
      deleteFinishing (pt_id (fq_transaction q))
        (notify (failureNotice q detail) (addTransactionCompletionLog q False now detail s)))"

definition finishAnswered ::
  "js_string \<Rightarrow> js_string \<Rightarrow> finishRequest \<Rightarrow> finishResult \<Rightarrow> int \<Rightarrow> txController \<Rightarrow> txController" where
  "finishAnswered unknownText outcomeText q res now s =
     deleteFinishing (pt_id (fq_transaction q))
       (if fr_success res then
          notify (if fq_action q = FaCommit then (if fq_source q = FsAuto then NtAutoCommitted else NtCommitted)
                  else NtRolledBack)
            (addTransactionCompletionLog q True now [] s)
        else
          (let detail = rawErrorDetail unknownText
                 (case fr_message res of None \<Rightarrow> ThrownNothing | Some m \<Rightarrow> ThrownText m);
               displayDetail = (if fr_outcomeUnknown res then detail @ js '' ('' @ outcomeText @ js '')'' else detail) in
           notify (failureNotice q displayDetail) (addTransactionCompletionLog q False now displayDetail s)))"

text \<open>\<open>Math.ceil (ms / 1000)\<close>.\<close>

definition ceilSeconds :: "int \<Rightarrow> int" where
  "ceilSeconds ms = - ((- ms) div 1000)"

definition activatedTransaction :: "pendingTransaction \<Rightarrow> int \<Rightarrow> pendingTransaction" where
  "activatedTransaction t now =
     t\<lparr>pt_autoCommitDelayMs := max 0 (pt_autoCommitDelayMs t),
       pt_autoCommitDueAt := (if pt_commitMode t = CmAuto then Some (now + max 0 (pt_autoCommitDelayMs t)) else None),
       pt_statements := keptStatements (pt_statements t),
       pt_executionDurationMs := max 0 (pt_executionDurationMs t)\<rparr>"

definition activatePendingSqlTransaction :: "js_string \<Rightarrow> pendingTransaction \<Rightarrow> int \<Rightarrow> txController \<Rightarrow> txController" where
  "activatePendingSqlTransaction tabId transaction now s =
     (let nextTransaction = activatedTransaction transaction now;
          s1 = updatePendingSqlTransaction tabId (Some nextTransaction) (clearAutoCommitTimer s) in
      (case pt_autoCommitDueAt nextTransaction of
         None \<Rightarrow> s1
       | Some due \<Rightarrow>
           if due = 0 then s1
           else if pt_autoCommitDelayMs nextTransaction = 0
             then s1\<lparr>tc_remaining := Some 0, tc_timer := Some (pt_id nextTransaction)\<rparr>
           else s1\<lparr>tc_remaining := Some (max 1 (ceilSeconds (due - now))), tc_countdown := Some due,
                  tc_timer := Some (pt_id nextTransaction)\<rparr>))"

definition countdownTicks :: "int \<Rightarrow> txController \<Rightarrow> txController" where
  "countdownTicks now s =
     (case tc_countdown s of None \<Rightarrow> s | Some due \<Rightarrow> s\<lparr>tc_remaining := Some (max 1 (ceilSeconds (due - now)))\<rparr>)"

definition autoCommitTimerFires :: "js_string \<Rightarrow> riskConnection list \<Rightarrow> int \<Rightarrow> txController \<Rightarrow> txController" where
  "autoCommitTimerFires tabId connections now s =
     (case tc_timer s of
        None \<Rightarrow> s
      | Some i \<Rightarrow>
          finishPendingSqlTransaction tabId connections FaCommit FsAuto (Some i) now
            (s\<lparr>tc_timer := None, tc_countdown := None, tc_remaining := None\<rparr>))"

text \<open>The tab is closed; nobody waits for the answer to the call.\<close>

definition unmountController :: "js_string \<Rightarrow> int \<Rightarrow> txController \<Rightarrow> txController" where
  "unmountController tabId now s0 =
     (let s = clearAutoCommitTimer s0 in
      case tc_pending s of
        None \<Rightarrow> s
      | Some transaction \<Rightarrow>
          if pt_id transaction = [] then s
          else s\<lparr>tc_pending := None, tc_stored := setSqlEditorPendingTransaction tabId None (tc_stored s),
                 tc_calls := tc_calls s @ [\<lparr>fq_transaction = transaction, fq_action = FaRollback,
                   fq_source = FsTabClose, fq_startedAt = now\<rparr>]\<rparr>)"

section \<open>The back end\<close>

text \<open>
  The table of the transactions that are open, all ids it has given out, and what the databases were told, with
  success. Trimming is \<open>strings.TrimSpace\<close>; the texts of the messages are a parameter by their key.
\<close>

record txBackend =
  bk_open :: "js_string list"
  bk_issued :: "js_string list"
  bk_ended :: "(js_string \<times> finishAction \<times> bool) list"

datatype dbOutcome = DbOk | DbFails | DbCloseFails

definition failedResult :: "js_string \<Rightarrow> bool \<Rightarrow> finishResult" where
  "failedResult m unknown = \<lparr>fr_success = False, fr_message = Some m, fr_outcomeUnknown = unknown\<rparr>"

definition finishManagedSQLTransaction ::
  "(js_string \<Rightarrow> js_string) \<Rightarrow> js_string \<Rightarrow> finishAction \<Rightarrow> dbOutcome \<Rightarrow> txBackend \<Rightarrow> finishResult \<times> txBackend" where
  "finishManagedSQLTransaction appText transactionID0 action outcome b =
     (let transactionID = js_trim transactionID0 in
      if transactionID = [] then (failedResult (appText (js ''transaction_id_required'')) False, b)
      else if transactionID \<notin> set (bk_open b) then (failedResult (appText (js ''transaction_not_found'')) False, b)
      else
        (let b1 = b\<lparr>bk_open := removeAll transactionID (bk_open b),
               bk_ended := bk_ended b @ [(transactionID, action, outcome \<noteq> DbFails)]\<rparr>;
             commit = (action = FaCommit) in
         case outcome of
           DbFails \<Rightarrow> (failedResult (appText (if commit then js ''transaction_commit_failed''
                        else js ''transaction_rollback_failed'')) True, b1)
         | DbCloseFails \<Rightarrow> (failedResult (appText (if commit then js ''transaction_commit_close_failed''
                        else js ''transaction_rollback_close_failed'')) False, b1)
         | DbOk \<Rightarrow> (\<lparr>fr_success = True, fr_message = Some (appText (if commit then js ''transaction_committed''
                        else js ''transaction_rolled_back'')), fr_outcomeUnknown = False\<rparr>, b1)))"

text \<open>Transactions are rolled back without being asked for when the application ends or a driver is replaced.\<close>

definition rollbackPendingSQLTransactionsMatching ::
  "(js_string \<Rightarrow> bool) \<Rightarrow> (js_string \<Rightarrow> bool) \<Rightarrow> txBackend \<Rightarrow> txBackend" where
  "rollbackPendingSQLTransactionsMatching matches works b =
     b\<lparr>bk_open := filter (\<lambda>i. \<not> matches i) (bk_open b),
       bk_ended := bk_ended b @ map (\<lambda>i. (i, FaRollback, works i)) (filter matches (bk_open b))\<rparr>"

definition openTransaction :: "js_string \<Rightarrow> txBackend \<Rightarrow> txBackend" where
  "openTransaction i b = b\<lparr>bk_open := bk_open b @ [i], bk_issued := bk_issued b @ [i]\<rparr>"

section \<open>A tab and the back end\<close>

text \<open>
  \<open>tw_seq\<close> is the number of the last run (\<open>runSeqRef\<close>); \<open>tw_runs\<close> the batches on their way that want a
  transaction, \<open>tw_runReplies\<close> the transactions on their way back, both with the number of their run;
  \<open>tw_sent\<close> all requests to finish a transaction, \<open>tw_wire\<close> those the back end has not handled, \<open>tw_replies\<close>
  the answers on their way. The calls stay within one process: they arrive, in any order; an answer may be an error.
\<close>

record txWorld =
  tw_ctrl :: txController
  tw_connections :: "riskConnection list"
  tw_unmounted :: bool
  tw_seq :: nat
  tw_runs :: "(nat \<times> pendingTransaction) list"
  tw_runReplies :: "(nat \<times> pendingTransaction) list"
  tw_sent :: "finishRequest list"
  tw_wire :: "finishRequest list"
  tw_replies :: "(finishRequest \<times> finishResult) list"
  tw_backend :: txBackend

definition startWorld :: "riskConnection list \<Rightarrow> (js_string, pendingTransaction) js_map \<Rightarrow> js_string list \<Rightarrow> txWorld" where
  "startWorld connections stored issued =
     \<lparr>tw_ctrl = createTxController stored, tw_connections = connections, tw_unmounted = False, tw_seq = 0,
      tw_runs = [], tw_runReplies = [], tw_sent = [], tw_wire = [], tw_replies = [],
      tw_backend = \<lparr>bk_open = [], bk_issued = issued, bk_ended = []\<rparr>\<rparr>"

definition sends :: "finishRequest list \<Rightarrow> txWorld \<Rightarrow> txWorld" where
  "sends qs w = w\<lparr>tw_sent := tw_sent w @ qs, tw_wire := tw_wire w @ qs\<rparr>"

text \<open>A step of the controller; the calls it makes are on their way.\<close>

definition control :: "(txController \<Rightarrow> txController) \<Rightarrow> txWorld \<Rightarrow> txWorld" where
  "control f w =
     (let c = f (tw_ctrl w) in
      sends (drop (length (tc_calls (tw_ctrl w))) (tc_calls c)) (w\<lparr>tw_ctrl := c\<rparr>))"

text \<open>The start of a run whose batch needs a transaction; the tab has at most one.\<close>

definition runStarts :: "pendingTransaction \<Rightarrow> txWorld \<Rightarrow> txWorld" where
  "runStarts transaction w =
     (if tw_unmounted w then w
      else if tc_pending (tw_ctrl w) \<noteq> None then w\<lparr>tw_seq := tw_seq w + 1\<rparr>
      else w\<lparr>tw_seq := tw_seq w + 1, tw_runs := tw_runs w @ [(tw_seq w + 1, transaction)]\<rparr>)"

definition finishCancelledRun :: "txWorld \<Rightarrow> txWorld" where
  "finishCancelledRun w = w\<lparr>tw_seq := tw_seq w + 1\<rparr>"

definition dropNth :: "nat \<Rightarrow> 'a list \<Rightarrow> 'a list" where
  "dropNth n xs = take n xs @ drop (Suc n) xs"

text \<open>The back end has run a batch; the ids it makes are new.\<close>

definition batchOpens :: "nat \<Rightarrow> js_string \<Rightarrow> txWorld \<Rightarrow> txWorld" where
  "batchOpens n i w =
     (if length (tw_runs w) \<le> n \<or> i \<in> set (bk_issued (tw_backend w)) \<or> i = [] \<or> js_trim i \<noteq> i then w
      else
        (let (seq, transaction) = tw_runs w ! n in
         w\<lparr>tw_runs := dropNth n (tw_runs w), tw_backend := openTransaction i (tw_backend w),
           tw_runReplies := tw_runReplies w @ [(seq, transaction\<lparr>pt_id := i\<rparr>)]\<rparr>))"

text \<open>The answer to a run, in \<open>handleRun\<close>.\<close>

definition runReplied :: "js_string \<Rightarrow> nat \<Rightarrow> int \<Rightarrow> txWorld \<Rightarrow> txWorld" where
  "runReplied tabId n now w =
     (if length (tw_runReplies w) \<le> n then w
      else
        (let (seq, transaction) = tw_runReplies w ! n;
             w1 = w\<lparr>tw_runReplies := dropNth n (tw_runReplies w)\<rparr> in
         if tw_unmounted w1 then
           sends [\<lparr>fq_transaction = transaction, fq_action = FaRollback, fq_source = FsTabClose, fq_startedAt = now\<rparr>] w1
         else if seq \<noteq> tw_seq w1 then w1
         else control (activatePendingSqlTransaction tabId transaction now) w1))"

definition backendFinishes :: "(js_string \<Rightarrow> js_string) \<Rightarrow> nat \<Rightarrow> dbOutcome \<Rightarrow> txWorld \<Rightarrow> txWorld" where
  "backendFinishes appText n outcome w =
     (if length (tw_wire w) \<le> n then w
      else
        (let q = tw_wire w ! n;
             (res, b) = finishManagedSQLTransaction appText (pt_id (fq_transaction q)) (fq_action q) outcome (tw_backend w) in
         w\<lparr>tw_wire := dropNth n (tw_wire w), tw_backend := b, tw_replies := tw_replies w @ [(q, res)]\<rparr>))"

text \<open>Nobody waits for the answer to the request made when the tab closed.\<close>

definition replyArrives ::
  "(finishRequest \<Rightarrow> finishResult \<Rightarrow> txController \<Rightarrow> txController) \<Rightarrow> nat \<Rightarrow> txWorld \<Rightarrow> txWorld" where
  "replyArrives f n w =
     (if length (tw_replies w) \<le> n then w
      else
        (let (q, res) = tw_replies w ! n; w1 = w\<lparr>tw_replies := dropNth n (tw_replies w)\<rparr> in
         if fq_source q = FsTabClose then w1 else control (f q res) w1))"

definition tabCloses :: "js_string \<Rightarrow> int \<Rightarrow> txWorld \<Rightarrow> txWorld" where
  "tabCloses tabId now w =
     (if tw_unmounted w then w
      else control (unmountController tabId now) (w\<lparr>tw_unmounted := True, tw_seq := tw_seq w + 1\<rparr>))"

datatype txEvent =
  TxRunStarts pendingTransaction | TxRunCancelled | TxBatchOpens nat js_string | TxRunReplied nat int
| TxAppend js_string "js_string list" int | TxFinish finishAction int | TxTimer int | TxTick int
| TxConfirm nat bool int | TxBackendFinishes nat dbOutcome | TxAnswered nat int | TxLost nat thrownValue int
| TxConnections "riskConnection list" | TxBackendRollsBack "js_string list" "js_string list" | TxClose int

record txTexts =
  tt_app :: "js_string \<Rightarrow> js_string"
  tt_unknown :: js_string
  tt_outcome :: js_string

definition txStep :: "js_string \<Rightarrow> txTexts \<Rightarrow> txEvent \<Rightarrow> txWorld \<Rightarrow> txWorld" where
  "txStep tabId texts e w =
     (case e of
        TxRunStarts t \<Rightarrow> runStarts t w
      | TxRunCancelled \<Rightarrow> finishCancelledRun w
      | TxBatchOpens n i \<Rightarrow> batchOpens n i w
      | TxRunReplied n now \<Rightarrow> runReplied tabId n now w
      | TxAppend i statements d \<Rightarrow> control (appendPendingSqlTransactionExecution tabId i statements d) w
      | TxFinish action now \<Rightarrow>
          control (finishPendingSqlTransaction tabId (tw_connections w) action FsManual None now) w
      | TxTimer now \<Rightarrow> control (autoCommitTimerFires tabId (tw_connections w) now) w
      | TxTick now \<Rightarrow> control (countdownTicks now) w
      | TxConfirm n approved now \<Rightarrow> control (confirmationAnswered tabId n approved now) w
      | TxBackendFinishes n outcome \<Rightarrow> backendFinishes (tt_app texts) n outcome w
      | TxAnswered n now \<Rightarrow>
          replyArrives (\<lambda>q res. finishAnswered (tt_unknown texts) (tt_outcome texts) q res now) n w
      | TxLost n err now \<Rightarrow> replyArrives (\<lambda>q res. finishFailed (tt_unknown texts) q err now) n w
      | TxConnections connections \<Rightarrow> w\<lparr>tw_connections := connections\<rparr>
      | TxBackendRollsBack ids works \<Rightarrow>
          w\<lparr>tw_backend := rollbackPendingSQLTransactionsMatching (\<lambda>i. i \<in> set ids) (\<lambda>i. i \<in> set works) (tw_backend w)\<rparr>
      | TxClose now \<Rightarrow> tabCloses tabId now w)"

definition runTx :: "js_string \<Rightarrow> txTexts \<Rightarrow> txEvent list \<Rightarrow> txWorld \<Rightarrow> txWorld" where
  "runTx tabId texts es w = fold (txStep tabId texts) es w"

end
