(* ===== verification/PendingTransactionProps.thy ===== *)
theory PendingTransactionProps
  imports PendingTransaction
begin

text \<open>
  What holds of the pending transaction of a tab in every reachable world (\<open>PendingTransaction\<close>): a transaction
  is finished by one request at most, a commit to a production connection was confirmed, what the tab and the store
  show agree with the timer, and a closed tab leaves no transaction open.
\<close>

section \<open>Lists\<close>

definition pendingIds :: "txController \<Rightarrow> js_string list" where
  "pendingIds c = (case tc_pending c of None \<Rightarrow> [] | Some t \<Rightarrow> [pt_id t])"

definition requestIds :: "finishRequest list \<Rightarrow> js_string list" where
  "requestIds qs = map (\<lambda>q. pt_id (fq_transaction q)) qs"

definition replyIds :: "(nat \<times> pendingTransaction) list \<Rightarrow> js_string list" where
  "replyIds rs = map (\<lambda>r. pt_id (snd r)) rs"

lemma pendingIds_simps [simp]:
  "tc_pending c = None \<Longrightarrow> pendingIds c = []"
  "tc_pending c = Some t \<Longrightarrow> pendingIds c = [pt_id t]"
  by (simp_all add: pendingIds_def)

lemma pendingIs_iff: "pendingIs i c \<longleftrightarrow> i \<in> set (pendingIds c)"
  by (auto simp: pendingIs_def pendingIds_def split: option.splits)

lemma requestIds_simps [simp]:
  "requestIds [] = []" "requestIds (q # qs) = pt_id (fq_transaction q) # requestIds qs"
  "requestIds (xs @ ys) = requestIds xs @ requestIds ys"
  by (simp_all add: requestIds_def)

lemma replyIds_simps [simp]:
  "replyIds [] = []" "replyIds (r # rs) = pt_id (snd r) # replyIds rs"
  "replyIds (xs @ ys) = replyIds xs @ replyIds ys"
  by (simp_all add: replyIds_def)

lemma dropNth_split: "n < length xs \<Longrightarrow> \<exists>as bs. xs = as @ xs ! n # bs \<and> dropNth n xs = as @ bs"
  by (metis dropNth_def id_take_nth_drop)

lemma set_dropNth: "set (dropNth n xs) \<subseteq> set xs"
  by (auto simp: dropNth_def dest: in_set_takeD in_set_dropD)

lemma length_dropNth: "n < length xs \<Longrightarrow> length (dropNth n xs) = length xs - 1"
  by (simp add: dropNth_def min_def)

section \<open>Steps of the controller\<close>

text \<open>
  What the controller does to the pending transaction and to the calls: nothing, keep its id, or end it with one
  request for it.
\<close>

definition quiet :: "txController \<Rightarrow> txController \<Rightarrow> bool" where
  "quiet c c' \<longleftrightarrow> tc_calls c' = tc_calls c \<and> pendingIds c' = pendingIds c"

definition finishes :: "txController \<Rightarrow> finishRequest \<Rightarrow> txController \<Rightarrow> bool" where
  "finishes c q c' \<longleftrightarrow> tc_calls c' = tc_calls c @ [q] \<and> pendingIds c' = []
     \<and> pendingIds c = [pt_id (fq_transaction q)]"

named_theorems tx_defs \<open>the operations of the controller\<close>

lemmas [tx_defs] = clearAutoCommitTimer_def updatePendingSqlTransaction_def addFinishing_def deleteFinishing_def
  notify_def addTransactionCompletionLog_def

lemma requestFinish_finishes:
  assumes "pendingIds c = [pt_id t]"
  shows "finishes c \<lparr>fq_transaction = t, fq_action = a, fq_source = src, fq_startedAt = now\<rparr>
           (requestFinish tab a src t now c)"
  using assms by (simp add: finishes_def requestFinish_def tx_defs Let_def)

lemma quiet_notify: "quiet c (notify n c)"
  by (simp add: quiet_def notify_def pendingIds_def)

lemma finishPending_effect:
  "quiet c (finishPendingSqlTransaction tab conns a src tid now c) \<or> (\<exists>t. tc_pending c = Some t
    \<and> finishes c \<lparr>fq_transaction = t, fq_action = a, fq_source = src, fq_startedAt = now\<rparr>
        (finishPendingSqlTransaction tab conns a src tid now c)
    \<and> (a = FaCommit \<longrightarrow> (\<exists>k. resolveTransactionConnection conns (pt_connectionId t) = Some k
         \<and> \<not> requiresProductionRiskConfirmation (Some k))))"
proof (cases "tc_pending c")
  case None
  then show ?thesis by (simp add: finishPendingSqlTransaction_def quiet_def)
next
  case (Some t)
  then have f: "finishes c \<lparr>fq_transaction = t, fq_action = a, fq_source = src, fq_startedAt = now\<rparr>
      (requestFinish tab a src t now c)" by (simp add: requestFinish_finishes)
  have r: "quiet c ((addFinishing i c)\<lparr>tc_asking := xs\<rparr>)" for i xs
    by (simp add: quiet_def addFinishing_def pendingIds_def)
  have "quiet c c" by (simp add: quiet_def)
  then show ?thesis using Some f r quiet_notify [of c NtConnectionNotFound]
    unfolding finishPendingSqlTransaction_def Let_def
    by (cases "resolveTransactionConnection conns (pt_connectionId t)"; cases a) simp_all
qed

lemma confirm_effect:
  "quiet c (confirmationAnswered tab n ok now c) \<or> (ok \<and> n < length (tc_asking c)
     \<and> finishes c \<lparr>fq_transaction = fst (tc_asking c ! n), fq_action = FaCommit,
         fq_source = fst (snd (tc_asking c ! n)), fq_startedAt = now\<rparr> (confirmationAnswered tab n ok now c))"
proof (cases "length (tc_asking c) \<le> n")
  case True
  then show ?thesis by (simp add: confirmationAnswered_def quiet_def)
next
  case False
  obtain t src k where e: "tc_asking c ! n = (t, src, k)" by (cases "tc_asking c ! n")
  let ?c = "c\<lparr>tc_asking := take n (tc_asking c) @ drop (Suc n) (tc_asking c)\<rparr>"
  have p: "pendingIds ?c = pendingIds c" "tc_calls ?c = tc_calls c" by (simp_all add: pendingIds_def)
  show ?thesis
  proof (cases "pendingIs (pt_id t) ?c")
    case False
    with e \<open>\<not> length (tc_asking c) \<le> n\<close> show ?thesis
      by (simp add: confirmationAnswered_def quiet_def deleteFinishing_def pendingIds_def)
  next
    case True
    then have i: "pendingIds c = [pt_id t]"
      by (auto simp: pendingIs_def pendingIds_def split: option.splits)
    have "finishes ?c \<lparr>fq_transaction = t, fq_action = FaCommit, fq_source = src, fq_startedAt = now\<rparr>
        (requestFinish tab FaCommit src t now ?c)" using i p by (simp add: requestFinish_finishes)
    then have "finishes c \<lparr>fq_transaction = t, fq_action = FaCommit, fq_source = src, fq_startedAt = now\<rparr>
        (requestFinish tab FaCommit src t now ?c)" using p by (simp add: finishes_def)
    moreover have "quiet c (let s1 = deleteFinishing (pt_id t) ?c in
        if src = FsAuto then downgradeToManualTransaction tab t s1 else s1)"
      using i by (simp add: quiet_def downgradeToManualTransaction_def tx_defs Let_def pendingIds_def)
    ultimately show ?thesis using False e True by (cases ok) (simp_all add: confirmationAnswered_def Let_def)
  qed
qed

lemma timer_effect:
  "quiet c (autoCommitTimerFires tab conns now c) \<or> (\<exists>t. tc_pending c = Some t
     \<and> finishes c \<lparr>fq_transaction = t, fq_action = FaCommit, fq_source = FsAuto, fq_startedAt = now\<rparr>
         (autoCommitTimerFires tab conns now c)
     \<and> (\<exists>k. resolveTransactionConnection conns (pt_connectionId t) = Some k
         \<and> \<not> requiresProductionRiskConfirmation (Some k)))"
proof (cases "tc_timer c")
  case None
  then show ?thesis by (simp add: autoCommitTimerFires_def quiet_def)
next
  case (Some i)
  let ?c = "c\<lparr>tc_timer := None, tc_countdown := None, tc_remaining := None\<rparr>"
  have p: "pendingIds ?c = pendingIds c" "tc_calls ?c = tc_calls c" "tc_pending ?c = tc_pending c"
    by (simp_all add: pendingIds_def)
  show ?thesis using finishPending_effect [of ?c tab conns FaCommit FsAuto "Some i" now] p Some
    by (simp add: autoCommitTimerFires_def quiet_def finishes_def)
qed

lemma append_quiet: "quiet c (appendPendingSqlTransactionExecution tab i ss d c)"
  by (simp add: appendPendingSqlTransactionExecution_def quiet_def tx_defs pendingIds_def Let_def split: option.splits)

lemma tick_quiet: "quiet c (countdownTicks now c)"
  by (simp add: countdownTicks_def quiet_def pendingIds_def split: option.splits)

lemma failed_quiet: "quiet c (finishFailed u q err now c)"
  by (simp add: finishFailed_def quiet_def tx_defs pendingIds_def Let_def)

lemma answered_quiet: "quiet c (finishAnswered u out q res now c)"
  by (simp add: finishAnswered_def quiet_def tx_defs pendingIds_def Let_def)

lemma unmount_effect:
  assumes "\<forall>i\<in>set (pendingIds c). i \<noteq> []"
  shows "pendingIds (unmountController tab now c) = [] \<and> (quiet c (unmountController tab now c)
    \<or> (\<exists>t. finishes c \<lparr>fq_transaction = t, fq_action = FaRollback, fq_source = FsTabClose, fq_startedAt = now\<rparr>
           (unmountController tab now c)))"
proof (cases "tc_pending c")
  case None
  then show ?thesis by (simp add: unmountController_def quiet_def tx_defs Let_def)
next
  case (Some t)
  then have "pt_id t \<noteq> []" using assms by simp
  with Some show ?thesis by (auto simp: unmountController_def finishes_def tx_defs Let_def)
qed

lemma activate_effect:
  "tc_calls (activatePendingSqlTransaction tab t now c) = tc_calls c
   \<and> pendingIds (activatePendingSqlTransaction tab t now c) = [pt_id t]"
  by (auto simp: activatePendingSqlTransaction_def activatedTransaction_def tx_defs Let_def split: option.splits)

section \<open>Requests and the books of the back end\<close>

lemma control_quiet: "quiet (tw_ctrl w) (f (tw_ctrl w)) \<Longrightarrow> control f w = w\<lparr>tw_ctrl := f (tw_ctrl w)\<rparr>"
  by (simp add: control_def sends_def quiet_def Let_def)

lemma control_finishes:
  "finishes (tw_ctrl w) q (f (tw_ctrl w)) \<Longrightarrow> control f w = sends [q] (w\<lparr>tw_ctrl := f (tw_ctrl w)\<rparr>)"
  by (simp add: control_def finishes_def Let_def)

text \<open>A step of the controller in a world: the pending transaction keeps its id, or its only request is on its way.\<close>

inductive ctrlMove :: "txWorld \<Rightarrow> txWorld \<Rightarrow> bool" where
  Keeps: "pendingIds c = pendingIds (tw_ctrl w) \<Longrightarrow> ctrlMove w (w\<lparr>tw_ctrl := c\<rparr>)"
| Ends: "pendingIds (tw_ctrl w) = [pt_id (fq_transaction q)] \<Longrightarrow> pendingIds c = []
    \<Longrightarrow> ctrlMove w (sends [q] (w\<lparr>tw_ctrl := c\<rparr>))"

lemma control_moves:
  assumes "quiet (tw_ctrl w) (f (tw_ctrl w)) \<or> (\<exists>q. finishes (tw_ctrl w) q (f (tw_ctrl w)))"
  shows "ctrlMove w (control f w)"
  using assms
proof
  assume "quiet (tw_ctrl w) (f (tw_ctrl w))"
  then show ?thesis by (simp add: control_quiet quiet_def ctrlMove.Keeps)
next
  assume "\<exists>q. finishes (tw_ctrl w) q (f (tw_ctrl w))"
  then obtain q where "finishes (tw_ctrl w) q (f (tw_ctrl w))" ..
  then show ?thesis by (simp add: control_finishes finishes_def ctrlMove.Ends)
qed

lemma controller_moves:
  "ctrlMove w (control (appendPendingSqlTransactionExecution tab i ss d) w)"
  "ctrlMove w (control (finishPendingSqlTransaction tab conns a src tid now) w)"
  "ctrlMove w (control (autoCommitTimerFires tab conns now) w)"
  "ctrlMove w (control (countdownTicks now) w)"
  "ctrlMove w (control (confirmationAnswered tab n ok now) w)"
  "ctrlMove w (control (finishAnswered u out q res now) w)"
  "ctrlMove w (control (finishFailed u q err now) w)"
proof -
  note m = control_moves [OF disjI1] control_moves
  show "ctrlMove w (control (appendPendingSqlTransactionExecution tab i ss d) w)" by (rule m, rule append_quiet)
  show "ctrlMove w (control (countdownTicks now) w)" by (rule m, rule tick_quiet)
  show "ctrlMove w (control (finishAnswered u out q res now) w)" by (rule m, rule answered_quiet)
  show "ctrlMove w (control (finishFailed u q err now) w)" by (rule m, rule failed_quiet)
  show "ctrlMove w (control (finishPendingSqlTransaction tab conns a src tid now) w)"
    using finishPending_effect by (intro control_moves) blast
  show "ctrlMove w (control (autoCommitTimerFires tab conns now) w)"
    using timer_effect by (intro control_moves) blast
  show "ctrlMove w (control (confirmationAnswered tab n ok now) w)"
    using confirm_effect by (intro control_moves) blast
qed

lemma unmount_moves:
  assumes "\<forall>i\<in>set (pendingIds (tw_ctrl w)). i \<noteq> []"
  shows "ctrlMove w (control (unmountController tab now) w)"
  using unmount_effect [OF assms] by (intro control_moves) blast

lemma replyArrives_moves:
  assumes "\<And>q res v. ctrlMove v (control (f q res) v)"
  shows "replyArrives f n w = w
    \<or> replyArrives f n w = w\<lparr>tw_replies := dropNth n (tw_replies w)\<rparr>
    \<or> ctrlMove (w\<lparr>tw_replies := dropNth n (tw_replies w)\<rparr>) (replyArrives f n w)"
  using assms by (simp add: replyArrives_def Let_def split: prod.split)

definition txIds :: "txWorld \<Rightarrow> js_string list" where
  "txIds w = pendingIds (tw_ctrl w) @ requestIds (tw_sent w) @ replyIds (tw_runReplies w)"

definition commitAsked :: "txWorld \<Rightarrow> js_string \<Rightarrow> bool" where
  "commitAsked w i \<longleftrightarrow> (\<exists>q\<in>set (tw_sent w). pt_id (fq_transaction q) = i \<and> fq_action q = FaCommit)"

definition books :: "txWorld \<Rightarrow> bool" where
  "books w \<longleftrightarrow>
     distinct (txIds w) \<and> set (txIds w) \<subseteq> set (bk_issued (tw_backend w))
     \<and> (\<forall>i\<in>set (txIds w). i \<noteq> [] \<and> js_trim i = i)
     \<and> set (tw_wire w) \<subseteq> set (tw_sent w)
     \<and> distinct (bk_open (tw_backend w) @ map fst (bk_ended (tw_backend w)))
     \<and> set (bk_open (tw_backend w) @ map fst (bk_ended (tw_backend w))) \<subseteq> set (bk_issued (tw_backend w))
     \<and> (\<forall>(i, a, ok)\<in>set (bk_ended (tw_backend w)). a = FaCommit \<longrightarrow> commitAsked w i)"

lemma books_clean: "books w \<Longrightarrow> \<forall>i\<in>set (pendingIds (tw_ctrl w)). i \<noteq> []"
  by (auto simp: books_def txIds_def)

lemma books_start: "books (startWorld conns stored issued)"
  by (simp add: books_def txIds_def startWorld_def createTxController_def pendingIds_def)

lemma commitAsked_sends: "commitAsked w i \<Longrightarrow> commitAsked (sends qs w) i"
  by (auto simp: commitAsked_def sends_def)

lemma books_move:
  assumes "ctrlMove w w'" "books w"
  shows "books w'"
  using assms
proof cases
  case (Keeps c)
  with assms(2) show ?thesis by (simp add: books_def txIds_def commitAsked_def)
next
  case (Ends q c)
  then have "txIds w = pt_id (fq_transaction q) # requestIds (tw_sent w) @ replyIds (tw_runReplies w)"
    "txIds w' = requestIds (tw_sent w) @ pt_id (fq_transaction q) # replyIds (tw_runReplies w)"
    by (simp_all add: txIds_def sends_def)
  then have "distinct (txIds w') = distinct (txIds w)" "set (txIds w') = set (txIds w)" by auto
  moreover have "commitAsked w i \<Longrightarrow> commitAsked w' i" for i
    using Ends(1) by (auto simp: commitAsked_def sends_def)
  moreover have "tw_backend w' = tw_backend w" "set (tw_wire w') = insert q (set (tw_wire w))"
    "set (tw_sent w') = insert q (set (tw_sent w))" using Ends(1) by (simp_all add: sends_def)
  ultimately show ?thesis using assms(2) by (auto simp: books_def)
qed

lemma books_cong:
  assumes "books w" "tw_ctrl w' = tw_ctrl w" "tw_sent w' = tw_sent w" "tw_runReplies w' = tw_runReplies w"
    "tw_wire w' = tw_wire w" "tw_backend w' = tw_backend w"
  shows "books w'"
  using assms by (simp add: books_def txIds_def commitAsked_def)

lemma books_batchOpens:
  assumes "books w" shows "books (batchOpens n i w)"
proof (cases "length (tw_runs w) \<le> n \<or> i \<in> set (bk_issued (tw_backend w)) \<or> i = [] \<or> js_trim i \<noteq> i")
  case True
  with assms show ?thesis by (simp add: batchOpens_def)
next
  case False
  obtain seq t where "tw_runs w ! n = (seq, t)" by fastforce
  with False assms show ?thesis
    by (auto simp: books_def batchOpens_def openTransaction_def txIds_def commitAsked_def)
qed

lemma books_dropReply:
  assumes "books w" "n < length (tw_runReplies w)"
  shows "books (w\<lparr>tw_runReplies := dropNth n (tw_runReplies w)\<rparr>)"
    "pt_id (snd (tw_runReplies w ! n)) \<notin> set (txIds (w\<lparr>tw_runReplies := dropNth n (tw_runReplies w)\<rparr>))"
    "pt_id (snd (tw_runReplies w ! n)) \<in> set (txIds w)"
proof -
  from dropNth_split [OF assms(2)] obtain as bs
    where "tw_runReplies w = as @ tw_runReplies w ! n # bs" "dropNth n (tw_runReplies w) = as @ bs" by blast
  then have e: "txIds w = (pendingIds (tw_ctrl w) @ requestIds (tw_sent w) @ replyIds as)
        @ pt_id (snd (tw_runReplies w ! n)) # replyIds bs"
      "txIds (w\<lparr>tw_runReplies := dropNth n (tw_runReplies w)\<rparr>)
        = (pendingIds (tw_ctrl w) @ requestIds (tw_sent w) @ replyIds as) @ replyIds bs"
    by (simp_all add: txIds_def) (metis replyIds_simps(2,3))
  with assms(1) show "books (w\<lparr>tw_runReplies := dropNth n (tw_runReplies w)\<rparr>)"
    by (auto simp: books_def commitAsked_def)
  from e assms(1) show "pt_id (snd (tw_runReplies w ! n))
      \<notin> set (txIds (w\<lparr>tw_runReplies := dropNth n (tw_runReplies w)\<rparr>))"
    by (auto simp: books_def)
  from e show "pt_id (snd (tw_runReplies w ! n)) \<in> set (txIds w)" by simp
qed

lemma books_runReplied:
  assumes "books w" shows "books (runReplied tab n now w)"
proof (cases "length (tw_runReplies w) \<le> n")
  case True
  with assms show ?thesis by (simp add: runReplied_def)
next
  case False
  obtain seq t where r: "tw_runReplies w ! n = (seq, t)" by fastforce
  let ?w = "w\<lparr>tw_runReplies := dropNth n (tw_runReplies w)\<rparr>"
  have b: "books ?w" "pt_id t \<notin> set (txIds ?w)" "pt_id t \<in> set (txIds w)"
    using books_dropReply [OF assms, of n] False r by simp_all
  then have t: "pt_id t \<noteq> []" "js_trim (pt_id t) = pt_id t" "pt_id t \<in> set (bk_issued (tw_backend w))"
    using assms by (auto simp: books_def)
  have "books (sends [q] ?w)" if "fq_transaction q = t" for q
    using b(1,2) t that by (auto simp: books_def sends_def txIds_def commitAsked_def)
  moreover have "books (control (activatePendingSqlTransaction tab t now) ?w)"
  proof -
    let ?c = "activatePendingSqlTransaction tab t now (tw_ctrl w)"
    have "control (activatePendingSqlTransaction tab t now) ?w = ?w\<lparr>tw_ctrl := ?c\<rparr>"
      using activate_effect [of tab t now "tw_ctrl w"] by (simp add: control_def sends_def)
    moreover have "pendingIds ?c = [pt_id t]" using activate_effect by blast
    ultimately show ?thesis using b(1,2) t by (auto simp: books_def txIds_def commitAsked_def)
  qed
  ultimately show ?thesis using b(1) False r by (simp add: runReplied_def Let_def)
qed

lemma finishManaged_books:
  assumes "finishManagedSQLTransaction appText i a outcome b = (res, b')" "js_trim i = i"
  shows "bk_issued b' = bk_issued b"
    "b' = b \<or> (i \<in> set (bk_open b) \<and> (\<exists>ok. b' = b\<lparr>bk_open := removeAll i (bk_open b), bk_ended := bk_ended b @ [(i, a, ok)]\<rparr>))"
    "i = [] \<or> set (bk_open b') \<subseteq> set (bk_open b) - {i}"
  using assms by (auto simp: finishManagedSQLTransaction_def Let_def split: if_splits dbOutcome.splits)

lemma books_backendFinishes:
  assumes "books w" shows "books (backendFinishes appText n outcome w)"
proof (cases "length (tw_wire w) \<le> n")
  case True
  with assms show ?thesis by (simp add: backendFinishes_def)
next
  case False
  let ?q = "tw_wire w ! n" and ?i = "pt_id (fq_transaction (tw_wire w ! n))"
  obtain res b where f: "finishManagedSQLTransaction appText ?i (fq_action ?q) outcome (tw_backend w) = (res, b)"
    by fastforce
  have q: "?q \<in> set (tw_sent w)" using False assms by (auto simp: books_def)
  then have "?i \<in> set (txIds w)" by (auto simp: txIds_def requestIds_def)
  then have "js_trim ?i = ?i" using assms by (auto simp: books_def)
  note m = finishManaged_books [OF f this]
  have c: "commitAsked w ?i" if "fq_action ?q = FaCommit" using q that by (auto simp: commitAsked_def)
  have w: "set (dropNth n (tw_wire w)) \<subseteq> set (tw_sent w)" using set_dropNth [of n "tw_wire w"] assms
    by (auto simp: books_def)
  have "distinct (bk_open b @ map fst (bk_ended b)) \<and> set (bk_open b @ map fst (bk_ended b)) \<subseteq> set (bk_issued b)
      \<and> (\<forall>(i, a, ok)\<in>set (bk_ended b). a = FaCommit \<longrightarrow> commitAsked w i)"
  proof (cases "b = tw_backend w")
    case False
    with m(2) obtain ok where "?i \<in> set (bk_open (tw_backend w))"
      "b = tw_backend w\<lparr>bk_open := removeAll ?i (bk_open (tw_backend w)),
             bk_ended := bk_ended (tw_backend w) @ [(?i, fq_action ?q, ok)]\<rparr>" by blast
    moreover from this(1) assms have "?i \<notin> fst ` set (bk_ended (tw_backend w))" by (auto simp: books_def)
    ultimately show ?thesis using assms c unfolding books_def
      by (simp add: distinct_removeAll subset_iff) blast
  qed (use assms in \<open>simp add: books_def\<close>)
  then show ?thesis using assms False f w m(1)
    by (auto simp: books_def backendFinishes_def txIds_def commitAsked_def)
qed

lemma books_rollsBack:
  assumes "books w"
  shows "books (w\<lparr>tw_backend := rollbackPendingSQLTransactionsMatching f g (tw_backend w)\<rparr>)"
  using assms
  by (auto simp: books_def rollbackPendingSQLTransactionsMatching_def txIds_def commitAsked_def o_def)

lemma books_replyArrives:
  assumes "books w" "\<And>q res v. ctrlMove v (control (f q res) v)"
  shows "books (replyArrives f n w)"
proof -
  let ?w = "w\<lparr>tw_replies := dropNth n (tw_replies w)\<rparr>"
  have "books ?w" by (rule books_cong [OF assms(1)]) simp_all
  moreover have "replyArrives f n w = w \<or> replyArrives f n w = ?w \<or> ctrlMove ?w (replyArrives f n w)"
    by (rule replyArrives_moves) (rule assms(2))
  ultimately show ?thesis using assms(1) books_move by metis
qed

lemma books_tabCloses:
  assumes "books w" shows "books (tabCloses tab now w)"
proof -
  let ?w = "w\<lparr>tw_unmounted := True, tw_seq := tw_seq w + 1\<rparr>"
  have "books ?w" by (rule books_cong [OF assms]) simp_all
  then have "books (control (unmountController tab now) ?w)"
    using unmount_moves [of ?w tab now] books_clean books_move by blast
  with assms show ?thesis by (simp add: tabCloses_def)
qed

lemma books_step:
  assumes "books w" shows "books (txStep tab texts e w)"
proof (cases e)
  case (TxRunStarts t)
  then show ?thesis using books_cong [OF assms] by (simp add: txStep_def runStarts_def)
next
  case TxRunCancelled
  then show ?thesis using books_cong [OF assms] by (simp add: txStep_def finishCancelledRun_def)
next
  case (TxConnections c)
  then show ?thesis using books_cong [OF assms] by (simp add: txStep_def)
next
  case (TxAnswered n now)
  then show ?thesis using books_replyArrives [OF assms controller_moves(6)] by (simp add: txStep_def)
next
  case (TxLost n err now)
  then show ?thesis using books_replyArrives [OF assms controller_moves(7)] by (simp add: txStep_def)
qed (use assms books_batchOpens books_runReplied books_backendFinishes books_rollsBack books_tabCloses
       books_move [OF controller_moves(1)] books_move [OF controller_moves(2)] books_move [OF controller_moves(3)]
       books_move [OF controller_moves(4)] books_move [OF controller_moves(5)] in \<open>simp_all add: txStep_def\<close>)

lemma runTx_snoc: "runTx tab texts (es @ [e]) w = txStep tab texts e (runTx tab texts es w)"
  by (simp add: runTx_def)

lemma books_run: "books (runTx tab texts es (startWorld conns stored issued))"
  by (induction es rule: rev_induct) (simp_all add: runTx_snoc books_step books_start, simp add: runTx_def books_start)


section \<open>Consent\<close>

text \<open>A confirmation that is open was asked for the connection of its transaction, which needs it.\<close>

definition askingOk :: "txController \<Rightarrow> bool" where
  "askingOk c \<longleftrightarrow> (\<forall>(t, src, k)\<in>set (tc_asking c).
     rk_id k = js_trim (pt_connectionId t) \<and> requiresProductionRiskConfirmation (Some k))"

lemma askingOk_less: "askingOk c \<Longrightarrow> set (tc_asking c') \<subseteq> set (tc_asking c) \<Longrightarrow> askingOk c'"
  by (auto simp: askingOk_def)

lemma resolved_id: "resolveTransactionConnection conns i = Some k \<Longrightarrow> rk_id k = js_trim i \<and> k \<in> set conns"
  by (auto simp: resolveTransactionConnection_def Let_def find_Some_iff split: if_splits)

lemma asking_requestFinish [simp]: "tc_asking (requestFinish tab a src t now c) = tc_asking c"
  by (simp add: requestFinish_def tx_defs Let_def)

lemma asking_downgrade [simp]: "tc_asking (downgradeToManualTransaction tab t c) = tc_asking c"
  by (simp add: downgradeToManualTransaction_def tx_defs)

lemma finishPending_asking:
  "set (tc_asking (finishPendingSqlTransaction tab conns a src tid now c)) \<subseteq> set (tc_asking c)
     \<union> {(t, src, k) | t k. tc_pending c = Some t \<and> resolveTransactionConnection conns (pt_connectionId t) = Some k
          \<and> requiresProductionRiskConfirmation (Some k)}"
  by (auto simp: finishPendingSqlTransaction_def tx_defs Let_def split: option.splits if_splits)

lemma askingOk_finish: "askingOk c \<Longrightarrow> askingOk (finishPendingSqlTransaction tab conns a src tid now c)"
  using finishPending_asking [of tab conns a src tid now c] resolved_id by (fastforce simp: askingOk_def)

lemma askingOk_ops:
  assumes "askingOk c"
  shows "askingOk (appendPendingSqlTransactionExecution tab i ss d c)"
    "askingOk (autoCommitTimerFires tab conns now c)"
    "askingOk (countdownTicks now c)"
    "askingOk (confirmationAnswered tab n ok now c)"
    "askingOk (finishAnswered u out q res now c)"
    "askingOk (finishFailed u q err now c)"
    "askingOk (activatePendingSqlTransaction tab t now c)"
    "askingOk (unmountController tab now c)"
proof -
  show "askingOk (appendPendingSqlTransactionExecution tab i ss d c)"
    using assms by (simp add: askingOk_def appendPendingSqlTransactionExecution_def tx_defs Let_def split: option.splits)
  show "askingOk (autoCommitTimerFires tab conns now c)"
    using assms by (auto simp: autoCommitTimerFires_def askingOk_less intro!: askingOk_finish split: option.splits)
  show "askingOk (countdownTicks now c)"
    using assms by (simp add: askingOk_def countdownTicks_def split: option.splits)
  show "askingOk (confirmationAnswered tab n ok now c)"
    by (rule askingOk_less [OF assms])
      (auto simp: confirmationAnswered_def tx_defs Let_def split: prod.splits if_splits dest: in_set_takeD in_set_dropD)
  show "askingOk (finishAnswered u out q res now c)"
    using assms by (simp add: askingOk_def finishAnswered_def tx_defs Let_def)
  show "askingOk (finishFailed u q err now c)"
    using assms by (simp add: askingOk_def finishFailed_def tx_defs Let_def)
  show "askingOk (activatePendingSqlTransaction tab t now c)"
    using assms by (simp add: askingOk_def activatePendingSqlTransaction_def tx_defs Let_def split: option.splits)
  show "askingOk (unmountController tab now c)"
    using assms by (simp add: askingOk_def unmountController_def tx_defs Let_def split: option.splits)
qed

text \<open>An invariant of the controller alone: what every operation keeps, every run keeps.\<close>

locale controller_invariant =
  fixes tab :: js_string and P :: "txController \<Rightarrow> bool"
  assumes append: "P c \<Longrightarrow> P (appendPendingSqlTransactionExecution tab i ss d c)"
    and finish: "P c \<Longrightarrow> P (finishPendingSqlTransaction tab conns a src tid now c)"
    and timer: "P c \<Longrightarrow> P (autoCommitTimerFires tab conns now c)"
    and tick: "P c \<Longrightarrow> P (countdownTicks now c)"
    and confirm: "P c \<Longrightarrow> P (confirmationAnswered tab n ok now c)"
    and answered: "P c \<Longrightarrow> P (finishAnswered u out q res now c)"
    and failed: "P c \<Longrightarrow> P (finishFailed u q err now c)"
    and activate: "P c \<Longrightarrow> P (activatePendingSqlTransaction tab t now c)"
    and unmount: "P c \<Longrightarrow> P (unmountController tab now c)"
begin

lemma step: "P (tw_ctrl w) \<Longrightarrow> P (tw_ctrl (txStep tab texts e w))"
  by (cases e)
    (simp_all add: txStep_def runStarts_def finishCancelledRun_def batchOpens_def runReplied_def backendFinishes_def
       replyArrives_def tabCloses_def control_def sends_def Let_def append finish timer tick confirm answered failed
       activate unmount split: prod.split)

lemma run: "P (tw_ctrl w) \<Longrightarrow> P (tw_ctrl (runTx tab texts es w))"
  by (induction es rule: rev_induct) (simp add: runTx_def, simp add: runTx_snoc step)

end

interpretation consented: controller_invariant tab askingOk for tab
  by unfold_locales (auto intro: askingOk_ops askingOk_finish)

definition newRequests :: "txWorld \<Rightarrow> txWorld \<Rightarrow> finishRequest list" where
  "newRequests w w' = drop (length (tw_sent w)) (tw_sent w')"

lemma newRequests_control:
  "newRequests w (control f w) = drop (length (tc_calls (tw_ctrl w))) (tc_calls (f (tw_ctrl w)))"
  by (simp add: newRequests_def control_def sends_def Let_def)

lemma newRequests_simps:
  "tw_sent w' = tw_sent w \<Longrightarrow> newRequests w w' = []"
  "newRequests w (w\<lparr>tw_runReplies := x\<rparr>) = []"
  by (simp_all add: newRequests_def)

lemma newRequests_replyArrives:
  assumes "\<And>q res c. quiet c (f q res c)"
  shows "newRequests w (replyArrives f n w) = []"
proof -
  have "tc_calls (f q res c) = tc_calls c" for q res c using assms by (simp add: quiet_def)
  then show ?thesis
    by (simp add: newRequests_def replyArrives_def control_def sends_def Let_def split: prod.split)
qed

lemma newRequests_rollback:
  assumes "q \<in> set (newRequests w (txStep tab texts e w))" "books w"
    and "\<nexists>a now. e = TxFinish a now" "\<nexists>now. e = TxTimer now" "\<nexists>n ok now. e = TxConfirm n ok now"
  shows "fq_action q = FaRollback"
proof (cases e)
  case (TxRunReplied n now)
  let ?c = "activatePendingSqlTransaction tab"
  have "tc_calls (?c t now c) = tc_calls c" for t c using activate_effect by simp
  with TxRunReplied assms(1) show ?thesis
    by (auto simp: txStep_def runReplied_def newRequests_def control_def sends_def Let_def split: prod.splits if_splits)
next
  case (TxClose now)
  have "quiet (tw_ctrl w) (unmountController tab now (tw_ctrl w))
      \<or> (\<exists>t. finishes (tw_ctrl w) \<lparr>fq_transaction = t, fq_action = FaRollback, fq_source = FsTabClose, fq_startedAt = now\<rparr>
           (unmountController tab now (tw_ctrl w)))"
    using unmount_effect books_clean [OF assms(2)] by blast
  with TxClose assms(1) show ?thesis
    by (auto simp: txStep_def tabCloses_def newRequests_def control_def sends_def Let_def quiet_def finishes_def
        split: if_splits)
next
  case (TxAppend i ss d)
  then show ?thesis using assms(1) append_quiet [of "tw_ctrl w" tab i ss d]
    by (simp add: txStep_def newRequests_control quiet_def)
next
  case (TxTick now)
  then show ?thesis using assms(1) tick_quiet [of "tw_ctrl w" now]
    by (simp add: txStep_def newRequests_control quiet_def)
next
  case (TxAnswered n now)
  then show ?thesis using assms(1) by (simp add: txStep_def newRequests_replyArrives answered_quiet)
next
  case (TxLost n err now)
  then show ?thesis using assms(1) by (simp add: txStep_def newRequests_replyArrives failed_quiet)
qed (use assms in \<open>auto simp: txStep_def newRequests_def runStarts_def finishCancelledRun_def batchOpens_def
       backendFinishes_def Let_def split: prod.splits if_splits\<close>)

text \<open>
  C6. A commit is asked of the back end only for the pending transaction, whose connection is known: either the
  connection, as it is at that moment, needs no confirmation, or the step is the user's consent to the question
  asked for just this transaction.
\<close>

theorem commit_needs_consent:
  assumes "w = runTx tab texts es (startWorld conns stored issued)"
    and "q \<in> set (newRequests w (txStep tab texts e w))" "fq_action q = FaCommit"
  shows "\<exists>t k. tc_pending (tw_ctrl w) = Some t \<and> pt_id t = pt_id (fq_transaction q)
    \<and> rk_id k = js_trim (pt_connectionId (fq_transaction q))
    \<and> (\<not> requiresProductionRiskConfirmation (Some k) \<and> k \<in> set (tw_connections w)
       \<or> requiresProductionRiskConfirmation (Some k)
         \<and> (\<exists>n now. e = TxConfirm n True now \<and> n < length (tc_asking (tw_ctrl w))
              \<and> tc_asking (tw_ctrl w) ! n = (fq_transaction q, fq_source q, k)))"
proof -
  let ?c = "tw_ctrl w"
  have b: "books w" and a: "askingOk ?c"
    using assms(1) books_run consented.run [of "startWorld conns stored issued"]
    by (simp_all add: askingOk_def startWorld_def createTxController_def)
  have pend: "\<exists>t. tc_pending ?c = Some t \<and> pt_id t = pt_id (fq_transaction q)" if "finishes ?c q c'" for c'
    using that by (auto simp: finishes_def pendingIds_def split: option.splits)
  have direct: ?thesis if f: "quiet ?c c' \<or> (\<exists>t. tc_pending ?c = Some t
        \<and> finishes ?c \<lparr>fq_transaction = t, fq_action = FaCommit, fq_source = src, fq_startedAt = now\<rparr> c'
        \<and> (\<exists>k. resolveTransactionConnection (tw_connections w) (pt_connectionId t) = Some k
             \<and> \<not> requiresProductionRiskConfirmation (Some k)))"
      and q: "q \<in> set (drop (length (tc_calls ?c)) (tc_calls c'))" for c' src now
    using f q pend resolved_id by (fastforce simp: quiet_def finishes_def)
  show ?thesis
  proof (cases e)
    case (TxFinish act now)
    have "act = FaCommit"
      using TxFinish assms(2,3) finishPending_effect [of ?c tab "tw_connections w" act FsManual None now]
      by (auto simp: txStep_def newRequests_control quiet_def finishes_def)
    with TxFinish assms(2) show ?thesis
      using direct [OF finishPending_effect [of ?c tab "tw_connections w" FaCommit FsManual None now, simplified]]
      by (simp add: txStep_def newRequests_control)
  next
    case (TxTimer now)
    with assms(2) show ?thesis using direct [OF timer_effect] by (simp add: txStep_def newRequests_control)
  next
    case (TxConfirm n ok now)
    let ?c' = "confirmationAnswered tab n ok now ?c"
    obtain t src k where n: "tc_asking ?c ! n = (t, src, k)" by (cases "tc_asking ?c ! n")
    let ?q = "\<lparr>fq_transaction = t, fq_action = FaCommit, fq_source = src, fq_startedAt = now\<rparr>"
    have "ok" "n < length (tc_asking ?c)" "finishes ?c ?q ?c'" "q = ?q"
      using TxConfirm assms(2) confirm_effect [of ?c tab n ok now] n
      by (auto simp: txStep_def newRequests_control quiet_def finishes_def)
    moreover from this(2) n a have "rk_id k = js_trim (pt_connectionId t)" "requiresProductionRiskConfirmation (Some k)"
      using nth_mem by (fastforce simp: askingOk_def)+
    ultimately show ?thesis using pend TxConfirm n by auto
  qed (use newRequests_rollback [OF assms(2) b] assms(3) in simp_all)
qed

section \<open>What the store and the timer show\<close>

definition mirror :: "js_string \<Rightarrow> (js_string, pendingTransaction) js_map \<Rightarrow> txController \<Rightarrow> bool" where
  "mirror tab stored c \<longleftrightarrow> (js_trim tab \<noteq> [] \<longrightarrow>
     (\<forall>k. jm_get (tc_stored c) k = (if k = js_trim tab then tc_pending c else jm_get stored k)))"

lemma mirror_update: "mirror tab stored c \<Longrightarrow> mirror tab stored (updatePendingSqlTransaction tab t c)"
  by (auto simp: mirror_def updatePendingSqlTransaction_def setSqlEditorPendingTransaction_def jm_get_set jm_get_delete
      Let_def split: option.splits)

lemma mirror_cong:
  "mirror tab stored c \<Longrightarrow> tc_pending c' = tc_pending c \<Longrightarrow> tc_stored c' = tc_stored c \<Longrightarrow> mirror tab stored c'"
  by (simp add: mirror_def)

lemma mirror_requestFinish:
  assumes "mirror tab stored c" shows "mirror tab stored (requestFinish tab a src t now c)"
proof -
  have "mirror tab stored (addFinishing (pt_id t) (clearAutoCommitTimer c))"
    by (rule mirror_cong [OF assms]) (simp_all add: tx_defs)
  from mirror_update [OF this, of None] show ?thesis
    unfolding requestFinish_def Let_def by (rule mirror_cong) simp_all
qed

lemma mirror_finish:
  assumes "mirror tab stored c" shows "mirror tab stored (finishPendingSqlTransaction tab conns a src tid now c)"
  using assms mirror_requestFinish [OF assms]
  by (auto simp: finishPendingSqlTransaction_def notify_def addFinishing_def Let_def
      intro!: mirror_cong [OF assms] split: option.splits)

lemma mirror_confirm:
  assumes "mirror tab stored c" shows "mirror tab stored (confirmationAnswered tab n ok now c)"
proof (cases "length (tc_asking c) \<le> n")
  case False
  obtain t src k where e: "tc_asking c ! n = (t, src, k)" by (cases "tc_asking c ! n")
  let ?c = "c\<lparr>tc_asking := take n (tc_asking c) @ drop (Suc n) (tc_asking c)\<rparr>"
  have m: "mirror tab stored ?c" "mirror tab stored (deleteFinishing (pt_id t) ?c)"
    by (auto intro!: mirror_cong [OF assms] simp: deleteFinishing_def)
  have "mirror tab stored (downgradeToManualTransaction tab t (deleteFinishing (pt_id t) ?c))"
    using m(2) mirror_update by (simp add: downgradeToManualTransaction_def)
  then show ?thesis using False e m mirror_requestFinish [OF m(1)]
    by (simp add: confirmationAnswered_def Let_def)
qed (simp add: confirmationAnswered_def assms)

lemma activate_form:
  defines "c' \<equiv> \<lambda>tab t now c. activatePendingSqlTransaction tab t now c"
    and "u \<equiv> \<lambda>tab t now c. updatePendingSqlTransaction tab (Some (activatedTransaction t now)) (clearAutoCommitTimer c)"
  shows "tc_pending (c' tab t now c) = tc_pending (u tab t now c)" "tc_stored (c' tab t now c) = tc_stored (u tab t now c)"
    "tc_asking (c' tab t now c) = tc_asking c"
    "tc_timer (c' tab t now c) \<in> (if pt_commitMode t = CmAuto then {None, Some (pt_id t)} else {None})"
    "tc_countdown (c' tab t now c) \<in> {None, pt_autoCommitDueAt (activatedTransaction t now)}"
    "tc_timer (c' tab t now c) = None \<Longrightarrow> tc_countdown (c' tab t now c) = None \<and> tc_remaining (c' tab t now c) = None"
  unfolding c'_def u_def activatePendingSqlTransaction_def tx_defs Let_def
  by (auto simp: activatedTransaction_def split: option.splits if_splits)

interpretation mirrored: controller_invariant tab "mirror tab stored" for tab stored
proof
  fix c i ss d conns a src tid now n ok u out q res err t
  assume m: "mirror tab stored c"
  show "mirror tab stored (finishPendingSqlTransaction tab conns a src tid now c)" using m by (rule mirror_finish)
  show "mirror tab stored (confirmationAnswered tab n ok now c)" using m by (rule mirror_confirm)
  show "mirror tab stored (appendPendingSqlTransactionExecution tab i ss d c)"
    using m mirror_update by (simp add: appendPendingSqlTransactionExecution_def Let_def split: option.split)
  show "mirror tab stored (autoCommitTimerFires tab conns now c)"
    using m by (auto simp: autoCommitTimerFires_def intro!: mirror_finish mirror_cong [OF m] split: option.split)
  show "mirror tab stored (countdownTicks now c)"
    by (rule mirror_cong [OF m]) (simp_all add: countdownTicks_def split: option.split)
  show "mirror tab stored (finishAnswered u out q res now c)"
    by (rule mirror_cong [OF m]) (simp_all add: finishAnswered_def tx_defs Let_def)
  show "mirror tab stored (finishFailed u q err now c)"
    by (rule mirror_cong [OF m]) (simp_all add: finishFailed_def tx_defs Let_def)
  have cl: "mirror tab stored (clearAutoCommitTimer c)"
    by (rule mirror_cong [OF m]) (simp_all add: clearAutoCommitTimer_def)
  show "mirror tab stored (activatePendingSqlTransaction tab t now c)"
    by (rule mirror_cong [OF mirror_update [OF cl]]) (rule activate_form)+
  show "mirror tab stored (unmountController tab now c)"
  proof (cases "tc_pending c")
    case (Some t)
    have "mirror tab stored (updatePendingSqlTransaction tab None (clearAutoCommitTimer c))"
      by (rule mirror_update [OF cl])
    from mirror_cong [OF this] show ?thesis using Some cl
      by (auto simp: unmountController_def updatePendingSqlTransaction_def clearAutoCommitTimer_def Let_def)
  qed (use cl in \<open>simp add: unmountController_def clearAutoCommitTimer_def Let_def\<close>)
qed

text \<open>
  The timer runs for the pending transaction, which commits by itself, and the countdown runs to its due time; it
  stands still while a question is open that the timer has asked.
\<close>

definition timerOk :: "txController \<Rightarrow> bool" where
  "timerOk c \<longleftrightarrow>
     (\<forall>i. tc_timer c = Some i \<longrightarrow> (\<exists>t. tc_pending c = Some t \<and> pt_id t = i \<and> pt_commitMode t = CmAuto
        \<and> (\<forall>d. tc_countdown c = Some d \<longrightarrow> pt_autoCommitDueAt t = Some d)))
     \<and> (tc_timer c = None \<longrightarrow> tc_countdown c = None \<and> tc_remaining c = None)
     \<and> (\<forall>(t, src, k)\<in>set (tc_asking c). pendingIs (pt_id t) c \<longrightarrow> src = FsAuto \<longrightarrow> tc_timer c = None)"

lemma timerOk_clear [simp]: "tc_timer c = None \<Longrightarrow> tc_countdown c = None \<Longrightarrow> tc_remaining c = None \<Longrightarrow> timerOk c"
  by (auto simp: timerOk_def)

lemma timerOk_requestFinish: "timerOk (requestFinish tab a src t now c)"
  by (simp add: requestFinish_def tx_defs Let_def)

lemma timerOk_less:
  assumes "timerOk c" "tc_pending c' = tc_pending c" "tc_timer c' = tc_timer c" "tc_countdown c' = tc_countdown c"
    "tc_remaining c' = tc_remaining c" "set (tc_asking c') \<subseteq> set (tc_asking c)"
  shows "timerOk c'"
  using assms by (fastforce simp: timerOk_def pendingIs_def)

lemma timerOk_finish:
  assumes "timerOk c" "src = FsAuto \<longrightarrow> tc_timer c = None"
  shows "timerOk (finishPendingSqlTransaction tab conns a src tid now c)"
proof -
  have "timerOk ((addFinishing i c)\<lparr>tc_asking := tc_asking (addFinishing i c) @ [(t, src, k)]\<rparr>)" for i t k
    using assms by (auto simp: timerOk_def addFinishing_def pendingIs_def)
  moreover have "timerOk (notify n c)" for n by (rule timerOk_less [OF assms(1)]) (simp_all add: notify_def)
  ultimately show ?thesis using assms timerOk_requestFinish
    by (simp add: finishPendingSqlTransaction_def Let_def split: option.split)
qed

lemma timerOk_confirm:
  assumes "timerOk c" shows "timerOk (confirmationAnswered tab n ok now c)"
proof (cases "length (tc_asking c) \<le> n")
  case False
  obtain t src k where e: "tc_asking c ! n = (t, src, k)" by (cases "tc_asking c ! n")
  let ?c = "c\<lparr>tc_asking := take n (tc_asking c) @ drop (Suc n) (tc_asking c)\<rparr>"
  have m: "timerOk ?c" "timerOk (deleteFinishing (pt_id t) ?c)"
    by (auto intro!: timerOk_less [OF assms] simp: deleteFinishing_def dest: in_set_takeD in_set_dropD)
  have "tc_timer c = None" if "pendingIs (pt_id t) c" "src = FsAuto"
    using that assms False e nth_mem [of n "tc_asking c"] by (fastforce simp: timerOk_def)
  then have "timerOk (downgradeToManualTransaction tab t (deleteFinishing (pt_id t) ?c))"
    if "pendingIs (pt_id t) ?c" "src = FsAuto"
    using that assms by (auto simp: downgradeToManualTransaction_def tx_defs pendingIs_def timerOk_def)
  then show ?thesis using False e m timerOk_requestFinish
    by (simp add: confirmationAnswered_def Let_def)
qed (simp add: confirmationAnswered_def assms)

lemma timerOk_activate:
  assumes "timerOk c" "\<forall>(t', src, k)\<in>set (tc_asking c). pt_id t' \<noteq> pt_id t"
  shows "timerOk (activatePendingSqlTransaction tab t now c)"
proof -
  let ?c = "activatePendingSqlTransaction tab t now c"
  have "tc_pending ?c = Some (activatedTransaction t now)" "pt_id (activatedTransaction t now) = pt_id t"
    "pt_commitMode (activatedTransaction t now) = pt_commitMode t"
    by (simp_all add: activate_form(1) updatePendingSqlTransaction_def activatedTransaction_def)
  then show ?thesis using assms(2) activate_form(3-6) [where tab = tab and t = t and now = now and c = c]
    by (auto simp: timerOk_def pendingIs_def split: if_splits)
qed

lemma timerOk_ops:
  assumes "timerOk c"
  shows "timerOk (appendPendingSqlTransactionExecution tab i ss d c)"
    "timerOk (autoCommitTimerFires tab conns now c)"
    "timerOk (countdownTicks now c)"
    "timerOk (finishAnswered u out q res now c)"
    "timerOk (finishFailed u q err now c)"
    "timerOk (unmountController tab now c)"
proof -
  show "timerOk (appendPendingSqlTransactionExecution tab i ss d c)"
    using assms by (auto simp: timerOk_def appendPendingSqlTransactionExecution_def tx_defs pendingIs_def Let_def
        split: option.splits)
  show "timerOk (autoCommitTimerFires tab conns now c)"
    using assms by (auto simp: autoCommitTimerFires_def intro!: timerOk_finish split: option.split)
  show "timerOk (countdownTicks now c)"
    using assms by (auto simp: timerOk_def countdownTicks_def pendingIs_def split: option.splits)
  show "timerOk (finishAnswered u out q res now c)"
    by (rule timerOk_less [OF assms]) (simp_all add: finishAnswered_def tx_defs Let_def)
  show "timerOk (finishFailed u q err now c)"
    by (rule timerOk_less [OF assms]) (simp_all add: finishFailed_def tx_defs Let_def)
  show "timerOk (unmountController tab now c)"
    by (simp add: unmountController_def tx_defs Let_def split: option.split)
qed

definition askingIds :: "txController \<Rightarrow> js_string set" where
  "askingIds c = (\<lambda>e. pt_id (fst e)) ` set (tc_asking c)"

lemma askingIds_ops:
  "askingIds (finishPendingSqlTransaction tab conns a src tid now c) \<subseteq> askingIds c \<union> set (pendingIds c)"
  "askingIds (autoCommitTimerFires tab conns now c) \<subseteq> askingIds c \<union> set (pendingIds c)"
  "askingIds (confirmationAnswered tab n ok now c) \<subseteq> askingIds c"
  "askingIds (appendPendingSqlTransactionExecution tab i ss d c) = askingIds c"
  "askingIds (countdownTicks now c) = askingIds c"
  "askingIds (finishAnswered u out q res now c) = askingIds c"
  "askingIds (finishFailed u q err now c) = askingIds c"
  "askingIds (unmountController tab now c) = askingIds c"
  "askingIds (activatePendingSqlTransaction tab t now c) = askingIds c"
proof -
  have f: "askingIds (finishPendingSqlTransaction tab conns a src tid now c) \<subseteq> askingIds c \<union> set (pendingIds c)"
    for conns a src tid now c
    using finishPending_asking [of tab conns a src tid now c] by (fastforce simp: askingIds_def)
  then show "askingIds (finishPendingSqlTransaction tab conns a src tid now c) \<subseteq> askingIds c \<union> set (pendingIds c)" .
  let ?c = "c\<lparr>tc_timer := None, tc_countdown := None, tc_remaining := None\<rparr>"
  have "askingIds ?c = askingIds c" "pendingIds ?c = pendingIds c" by (simp_all add: askingIds_def pendingIds_def)
  then show "askingIds (autoCommitTimerFires tab conns now c) \<subseteq> askingIds c \<union> set (pendingIds c)"
    using f [of conns FaCommit FsAuto _ now ?c] by (auto simp: autoCommitTimerFires_def split: option.splits)
  show "askingIds (confirmationAnswered tab n ok now c) \<subseteq> askingIds c"
    by (auto simp: askingIds_def confirmationAnswered_def tx_defs Let_def split: prod.splits if_splits
        dest: in_set_takeD in_set_dropD intro!: image_eqI)
  show "askingIds (appendPendingSqlTransactionExecution tab i ss d c) = askingIds c"
    by (simp add: askingIds_def appendPendingSqlTransactionExecution_def tx_defs Let_def split: option.splits)
  show "askingIds (countdownTicks now c) = askingIds c"
    by (simp add: askingIds_def countdownTicks_def split: option.splits)
  show "askingIds (finishAnswered u out q res now c) = askingIds c"
    by (simp add: askingIds_def finishAnswered_def tx_defs Let_def)
  show "askingIds (finishFailed u q err now c) = askingIds c"
    by (simp add: askingIds_def finishFailed_def tx_defs Let_def)
  show "askingIds (unmountController tab now c) = askingIds c"
    by (simp add: askingIds_def unmountController_def tx_defs Let_def split: option.splits)
  show "askingIds (activatePendingSqlTransaction tab t now c) = askingIds c"
    by (simp add: askingIds_def activate_form(3))
qed

definition asksPast :: "txWorld \<Rightarrow> bool" where
  "asksPast w \<longleftrightarrow> askingIds (tw_ctrl w) \<subseteq> set (bk_issued (tw_backend w)) - set (replyIds (tw_runReplies w))"

lemma asksPast_control:
  assumes "asksPast w" "books w" "askingIds (f (tw_ctrl w)) \<subseteq> askingIds (tw_ctrl w) \<union> set (pendingIds (tw_ctrl w))"
  shows "asksPast (control f w)"
  using assms by (auto simp: asksPast_def books_def txIds_def control_def sends_def Let_def)

lemma asksPast_cong:
  assumes "asksPast w" "askingIds (tw_ctrl w') \<subseteq> askingIds (tw_ctrl w)"
    "set (replyIds (tw_runReplies w')) \<subseteq> set (replyIds (tw_runReplies w))"
    "bk_issued (tw_backend w') = bk_issued (tw_backend w)"
  shows "asksPast w'"
  using assms by (auto simp: asksPast_def)

lemma replyIds_dropNth: "set (replyIds (dropNth n rs)) \<subseteq> set (replyIds rs)"
  using set_dropNth [of n rs] by (auto simp: replyIds_def)

lemma finishManaged_issued:
  "bk_issued (snd (finishManagedSQLTransaction appText i a outcome b)) = bk_issued b"
  by (simp add: finishManagedSQLTransaction_def Let_def split: dbOutcome.split)

lemma asksPast_step:
  assumes "asksPast w" "books w" shows "asksPast (txStep tab texts e w)"
proof (cases e)
  case (TxBatchOpens n i)
  have "askingIds (tw_ctrl w) \<subseteq> set (bk_issued (tw_backend w))" using assms(1) by (auto simp: asksPast_def)
  with TxBatchOpens assms(1) show ?thesis
    by (auto simp: asksPast_def txStep_def batchOpens_def openTransaction_def split: prod.split)
next
  case (TxRunReplied n now)
  have "askingIds (tw_ctrl (runReplied tab n now w)) = askingIds (tw_ctrl w)"
    "set (replyIds (tw_runReplies (runReplied tab n now w))) \<subseteq> set (replyIds (tw_runReplies w))"
    "tw_backend (runReplied tab n now w) = tw_backend w"
    using replyIds_dropNth [of n "tw_runReplies w"]
    by (auto simp: runReplied_def sends_def control_def askingIds_ops Let_def split: prod.splits)
  then show ?thesis using TxRunReplied by (simp add: txStep_def asksPast_cong [OF assms(1)])
next
  case (TxBackendFinishes n outcome)
  then show ?thesis
    using finishManaged_issued
    by (auto simp: txStep_def backendFinishes_def Let_def intro!: asksPast_cong [OF assms(1)] split: prod.splits)
      (metis snd_conv)
next
  case (TxAnswered n now)
  then show ?thesis
    by (auto simp: txStep_def replyArrives_def control_def sends_def askingIds_ops Let_def
        intro!: asksPast_cong [OF assms(1)] split: prod.splits)
next
  case (TxLost n err now)
  then show ?thesis
    by (auto simp: txStep_def replyArrives_def control_def sends_def askingIds_ops Let_def
        intro!: asksPast_cong [OF assms(1)] split: prod.splits)
next
  case (TxClose now)
  then show ?thesis
    by (auto simp: txStep_def tabCloses_def control_def sends_def askingIds_ops Let_def
        intro!: asksPast_cong [OF assms(1)] split: prod.splits)
qed (use askingIds_ops in \<open>simp_all add: txStep_def assms asksPast_control asksPast_cong [OF assms(1)] runStarts_def
       finishCancelledRun_def rollbackPendingSQLTransactionsMatching_def le_supI1\<close>)

lemma timer_step:
  assumes "timerOk (tw_ctrl w)" "asksPast w" shows "timerOk (tw_ctrl (txStep tab texts e w))"
proof (cases e)
  case (TxRunReplied n now)
  have "timerOk (activatePendingSqlTransaction tab t now (tw_ctrl w))"
    if "n < length (tw_runReplies w)" "tw_runReplies w ! n = (seq, t)" for seq t
  proof (rule timerOk_activate [OF assms(1)])
    have "pt_id t \<in> set (replyIds (tw_runReplies w))"
      using that nth_mem [of n "tw_runReplies w"] by (force simp: replyIds_def)
    with assms(2) show "\<forall>(t', src, k)\<in>set (tc_asking (tw_ctrl w)). pt_id t' \<noteq> pt_id t"
      by (force simp: asksPast_def askingIds_def)
  qed
  with TxRunReplied assms(1) show ?thesis
    by (simp add: txStep_def runReplied_def control_def sends_def Let_def split: prod.split)
qed (use assms timerOk_ops timerOk_confirm timerOk_finish in
       \<open>simp_all add: txStep_def control_def sends_def runStarts_def finishCancelledRun_def batchOpens_def
          backendFinishes_def replyArrives_def tabCloses_def Let_def split: prod.split\<close>)

text \<open>
  C9. In every reachable state the store shows for the tab the transaction that is pending, and for other tabs what
  it showed before; when the timer runs, it will commit the pending transaction, one that commits by itself, and
  the countdown runs to the time when it is due; when it does not run, no countdown is shown.
\<close>

theorem pending_transaction_is_shown:
  assumes "w = runTx tab texts es (startWorld conns stored issued)"
    and "js_trim tab \<noteq> []" "jm_get stored (js_trim tab) = None"
  shows "(\<forall>k. jm_get (tc_stored (tw_ctrl w)) k = (if k = js_trim tab then tc_pending (tw_ctrl w) else jm_get stored k))
    \<and> (\<forall>i. tc_timer (tw_ctrl w) = Some i \<longrightarrow>
         (\<exists>t. tc_pending (tw_ctrl w) = Some t \<and> pt_id t = i \<and> pt_commitMode t = CmAuto
            \<and> (\<forall>d. tc_countdown (tw_ctrl w) = Some d \<longrightarrow> pt_autoCommitDueAt t = Some d)))
    \<and> (tc_timer (tw_ctrl w) = None \<longrightarrow> tc_countdown (tw_ctrl w) = None \<and> tc_remaining (tw_ctrl w) = None)"
proof -
  have "mirror tab stored (tw_ctrl w)"
    unfolding assms(1) by (rule mirrored.run) (simp add: assms(3) mirror_def startWorld_def createTxController_def)
  moreover have "books v \<and> asksPast v \<and> timerOk (tw_ctrl v)"
    if "v = runTx tab texts es (startWorld conns stored issued)" for v
    unfolding that
  proof (induction es rule: rev_induct)
    case Nil
    show ?case by (simp add: runTx_def books_start)
        (simp add: asksPast_def askingIds_def startWorld_def createTxController_def)
  next
    case (snoc e es)
    then show ?case by (simp add: runTx_snoc books_step asksPast_step timer_step)
  qed
  ultimately show ?thesis using assms by (simp add: mirror_def timerOk_def)
qed

section \<open>A closed tab\<close>
















section \<open>Runs\<close>

definition productionConnection :: riskConnection where
  "productionConnection = \<lparr>rk_id = js ''p'', rk_environmentType = js ''Production'', rk_config = None\<rparr>"

definition deleteBatch :: "commitMode \<Rightarrow> pendingTransaction" where
  "deleteBatch m = \<lparr>pt_id = [], pt_commitMode = m, pt_autoCommitDelayMs = 5000, pt_createdAt = 1,
     pt_autoCommitDueAt = None, pt_statementCount = 1, pt_dbType = js ''mysql'', pt_dbName = js ''d'',
     pt_statements = [js ''DELETE FROM a''], pt_executionDurationMs = 3, pt_connectionId = js ''p''\<rparr>"

definition plainTexts :: txTexts where
  "plainTexts = \<lparr>tt_app = (\<lambda>k. k), tt_unknown = js ''unknown'', tt_outcome = js ''outcome unknown''\<rparr>"

definition opened :: "commitMode \<Rightarrow> txEvent list" where
  "opened m = [TxRunStarts (deleteBatch m), TxBatchOpens 0 (js ''tx-1''), TxRunReplied 0 10]"

definition world :: "txEvent list \<Rightarrow> txWorld" where
  "world es = runTx (js ''tab'') plainTexts es (startWorld [productionConnection] [] [])"




theorem commit_needs_consent_witness:
  "\<exists>n now. TxConfirm 0 True 30 = TxConfirm n True now
     \<and> n < length (tc_asking (tw_ctrl (world (opened CmManual @ [TxFinish FaCommit 20]))))"
proof -
  let ?es = "opened CmManual @ [TxFinish FaCommit 20]"
  let ?qs = "newRequests (world ?es) (txStep (js ''tab'') plainTexts (TxConfirm 0 True 30) (world ?es))"
  have "map fq_action ?qs = [FaCommit]" by code_simp
  then obtain q where q: "q \<in> set ?qs" "fq_action q = FaCommit" by auto
  have "\<forall>k\<in>set (tw_connections (world ?es)). requiresProductionRiskConfirmation (Some k)" by code_simp
  then show ?thesis
    using commit_needs_consent [OF refl q [unfolded world_def]] unfolding world_def by blast
qed

theorem pending_transaction_is_shown_witness:
  "\<exists>t. tc_pending (tw_ctrl (world (opened CmAuto))) = Some t \<and> pt_commitMode t = CmAuto
     \<and> pt_autoCommitDueAt t = Some 5010"
proof -
  have "js_trim (js ''tab'') \<noteq> []" "jm_get [] (js_trim (js ''tab'')) = None" by code_simp+
  moreover have "tc_timer (tw_ctrl (world (opened CmAuto))) = Some (js ''tx-1'')"
    "tc_countdown (tw_ctrl (world (opened CmAuto))) = Some 5010" by code_simp+
  ultimately show ?thesis
    using pending_transaction_is_shown [OF refl, of "js ''tab''" "[]" plainTexts "opened CmAuto" "[productionConnection]" "[]"]
    unfolding world_def by auto
qed


text \<open>
  What the code does not do as it means to. A run that is given up while its answer is on the way leaves its
  transaction open, with nothing that would end it, even when the tab is closed.
\<close>

lemma given_up_run_leaves_its_transaction:
  defines "w \<equiv> world [TxRunStarts (deleteBatch CmManual), TxBatchOpens 0 (js ''tx-1''), TxRunCancelled, TxRunReplied 0 10, TxClose 20]"
  shows "bk_open (tw_backend w) = [js ''tx-1''] \<and> tw_sent w = [] \<and> tw_runReplies w = [] \<and> tc_pending (tw_ctrl w) = None"
  unfolding w_def by code_simp

text \<open>
  When the time of the automatic commit comes while the user's own commit waits for its confirmation, and the user
  refuses, the transaction stays one that commits by itself, but nothing will commit it.
\<close>

lemma refused_commit_stops_the_timer:
  defines "c \<equiv> tw_ctrl (world (opened CmAuto @ [TxFinish FaCommit 5000, TxTimer 5010, TxConfirm 0 False 5020]))"
  shows "map_option pt_commitMode (tc_pending c) = Some CmAuto \<and> tc_timer c = None \<and> tc_asking c = []"
  unfolding c_def by code_simp

text \<open>A statement that ends while the confirmation is open is committed but missing in the log of the transaction.\<close>

lemma statement_while_asking_is_not_logged:
  defines "es \<equiv> opened CmManual @ [TxFinish FaCommit 20, TxAppend (js ''tx-1'') [js ''SELECT 1''] 5]"
  shows "map_option pt_statements (tc_pending (tw_ctrl (world es))) = Some [js ''DELETE FROM a'', js ''SELECT 1'']
    \<and> map tl_sql (tc_logs (tw_ctrl (world (es @ [TxConfirm 0 True 30, TxBackendFinishes 0 DbOk, TxAnswered 0 40]))))
        = [js ''START TRANSACTION;'' @ [10] @ js ''DELETE FROM a;'' @ [10] @ js ''COMMIT;'']"
  unfolding es_def by code_simp

end
