(* ===== verification/SavedQueries.thy ===== *)
theory SavedQueries
  imports JsMap JsText
begin

text \<open>
  Saved queries on their way to the back end (\<open>src/frontend/src/utils/savedQueryPersistence.ts\<close> and the action
  \<open>saveQuery\<close> of \<open>store.ts\<close>): what is accepted as a saved query, saving one, and the start of the program, which
  hands the queries that older versions kept in the browser over to the back end.

  A query has the fields of \<open>SavedQuery\<close>; a field that is not there is the empty text, and a time that is no
  number \<open>None\<close>. What is no object is \<open>None\<close>. The back end is a state \<open>'b\<close> with the functions it offers; a call
  that throws answers \<open>None\<close>. The clock, the translated name of a query without one, and reading and stripping the
  stored text (JSON) are parameters.
\<close>

section \<open>Data\<close>

record savedQueryParam =
  qp_name :: js_string
  qp_type :: js_string
  qp_label :: js_string
  qp_default :: js_string

record savedQuery =
  sv_id :: js_string
  sv_name :: js_string
  sv_sql :: js_string
  sv_connectionId :: js_string
  sv_dbName :: js_string
  sv_createdAt :: "int option"
  sv_connectionFingerprint :: js_string
  sv_fingerprintVersion :: js_string
  sv_bindingStatus :: js_string
  sv_originalConnectionId :: js_string
  sv_parameters :: "savedQueryParam list"

record queryEnv =
  qe_now :: int
  qe_defaultName :: "nat \<Rightarrow> js_string"

section \<open>What is accepted\<close>

definition SAVED_QUERY_PARAM_TYPES :: "js_string list" where
  "SAVED_QUERY_PARAM_TYPES =
     [js ''string'', js ''number'', js ''boolean'', js ''datetime'', js ''null'', js ''list'']"

fun parametersFrom :: "js_string list \<Rightarrow> savedQueryParam option list \<Rightarrow> savedQueryParam list" where
  "parametersFrom seen [] = []"
| "parametersFrom seen (None # items) = parametersFrom seen items"
| "parametersFrom seen (Some raw # items) =
     (let name = js_trim (qp_name raw); type = js_or (js_trim (qp_type raw)) (js ''string'') in
      if name = [] \<or> name \<in> set seen then parametersFrom seen items
      else if type \<notin> set SAVED_QUERY_PARAM_TYPES then parametersFrom seen items
      else raw\<lparr>qp_name := name, qp_type := type, qp_label := js_trim (qp_label raw)\<rparr> # parametersFrom (name # seen) items)"

definition sanitizeSavedQueryParameters :: "savedQueryParam list \<Rightarrow> savedQueryParam list" where
  "sanitizeSavedQueryParameters items = parametersFrom [] (map Some items)"

definition sanitizeSavedQuery :: "queryEnv \<Rightarrow> savedQuery option \<Rightarrow> nat \<Rightarrow> savedQuery option" where
  "sanitizeSavedQuery env v index =
     (case v of None \<Rightarrow> None
      | Some raw \<Rightarrow>
          (let connectionId = js_trim (sv_connectionId raw); dbName = js_trim (sv_dbName raw) in
           if js_trim (sv_sql raw) = [] \<or> connectionId = [] \<or> dbName = [] then None
           else Some \<lparr>sv_id = js_or (js_trim (sv_id raw)) (js ''query-'' @ nat_text (index + 1)),
                  sv_name = js_or (js_trim (sv_name raw)) (qe_defaultName env index),
                  sv_sql = sv_sql raw, sv_connectionId = connectionId, sv_dbName = dbName,
                  sv_createdAt = (case sv_createdAt raw of None \<Rightarrow> Some (qe_now env) | Some c \<Rightarrow> Some c),
                  sv_connectionFingerprint = js_trim (sv_connectionFingerprint raw),
                  sv_fingerprintVersion = js_trim (sv_fingerprintVersion raw),
                  sv_bindingStatus = js_trim (sv_bindingStatus raw),
                  sv_originalConnectionId = js_trim (sv_originalConnectionId raw),
                  sv_parameters = sanitizeSavedQueryParameters (sv_parameters raw)\<rparr>))"

text \<open>The first of the accepted queries with an id is kept.\<close>

fun acceptFrom :: "queryEnv \<Rightarrow> js_string list \<Rightarrow> nat \<Rightarrow> savedQuery option list \<Rightarrow> savedQuery list" where
  "acceptFrom env seen index [] = []"
| "acceptFrom env seen index (item # items) =
     (case sanitizeSavedQuery env item index of
        None \<Rightarrow> acceptFrom env seen (index + 1) items
      | Some query \<Rightarrow>
          if sv_id query \<in> set seen then acceptFrom env seen (index + 1) items
          else query # acceptFrom env (sv_id query # seen) (index + 1) items)"

definition sanitizeSavedQueries :: "queryEnv \<Rightarrow> savedQuery option list \<Rightarrow> savedQuery list" where
  "sanitizeSavedQueries env items = acceptFrom env [] 0 items"

text \<open>A later query with the same id takes the place of the earlier one.\<close>

definition mergeById :: "('q \<Rightarrow> js_string) \<Rightarrow> 'q list list \<Rightarrow> 'q list" where
  "mergeById key groups =
     map snd (fold (\<lambda>q m. if key q = [] then m else jm_set m (key q) q) (concat groups) [])"

definition mergeSavedQueriesById :: "savedQuery list list \<Rightarrow> savedQuery list" where
  "mergeSavedQueriesById groups = mergeById sv_id groups"

section \<open>Saving one\<close>

text \<open>The functions the back end has; \<open>Some None\<close> is an answer that is null.\<close>

record 'b queryBackend =
  qb_save :: "(savedQuery \<Rightarrow> 'b \<Rightarrow> savedQuery option option \<times> 'b) option"
  qb_get :: "('b \<Rightarrow> savedQuery option list option) option"

text \<open>Taking over queries of older versions, with their connections; whether it worked.\<close>

type_synonym ('b, 'c) queryImport = "(savedQuery list \<Rightarrow> 'c list \<Rightarrow> 'b \<Rightarrow> bool \<times> 'b) option"

datatype 'a fallible = Thrown js_string | Returned 'a

definition missingContext :: js_string where
  "missingContext = js ''saved_query.error.missing_context''"

definition saveSavedQueryToBackend ::
  "queryEnv \<Rightarrow> 'b queryBackend \<Rightarrow> savedQuery \<Rightarrow> 'b \<Rightarrow> savedQuery fallible \<times> 'b" where
  "saveSavedQueryToBackend env backend query b =
     (case sanitizeSavedQuery env (Some query) 0 of
        None \<Rightarrow> (Thrown missingContext, b)
      | Some sanitized \<Rightarrow>
          (case qb_save backend of
             None \<Rightarrow> (Returned sanitized, b)
           | Some f \<Rightarrow>
               (case f sanitized b of
                  (None, b1) \<Rightarrow> (Thrown [], b1)
                | (Some saved, b1) \<Rightarrow>
                    (Returned
                       (case sanitizeSavedQuery env (Some (case saved of None \<Rightarrow> sanitized | Some s \<Rightarrow> s)) 0 of
                          None \<Rightarrow> sanitized | Some s \<Rightarrow> s), b1))))"

text \<open>The action of the store: every query with the id is replaced, or the query is added.\<close>

definition storeSavedQuery :: "savedQuery \<Rightarrow> savedQuery list \<Rightarrow> savedQuery list" where
  "storeSavedQuery saved queries =
     (if \<exists>q\<in>set queries. sv_id q = sv_id saved
      then map (\<lambda>q. if sv_id q = sv_id saved then saved else q) queries
      else queries @ [saved])"

definition saveQuery ::
  "queryEnv \<Rightarrow> 'b queryBackend \<Rightarrow> savedQuery \<Rightarrow> savedQuery list \<times> 'b
    \<Rightarrow> savedQuery fallible \<times> savedQuery list \<times> 'b" where
  "saveQuery env backend query w =
     (case saveSavedQueryToBackend env backend query (snd w) of
        (Thrown m, b) \<Rightarrow> (Thrown m, fst w, b)
      | (Returned saved, b) \<Rightarrow> (Returned saved, storeSavedQuery saved (fst w), b))"

section \<open>Queries of older versions\<close>

record 'c importPayload =
  ip_queries :: "savedQuery list"
  ip_connections :: "'c list"

record ('p, 'c) legacyEnv =
  le_parse :: "'p \<Rightarrow> (savedQuery option list \<times> 'c list) option"
  le_strip :: "'p \<Rightarrow> 'p"
  le_connectionId :: "'c \<Rightarrow> js_string"

text \<open>
  The variable of the module and the text in the browser storage; \<open>ls_shown\<close> is what the store was told to show.
\<close>

record ('p, 'c) legacyState =
  ls_captured :: "'c importPayload"
  ls_storage :: "'p option"
  ls_shown :: "savedQuery list option"

definition noPayload :: "'c importPayload" where
  "noPayload = \<lparr>ip_queries = [], ip_connections = []\<rparr>"

definition mergeSavedQueryImportSources ::
  "('p, 'c) legacyEnv \<Rightarrow> 'c importPayload list \<Rightarrow> 'c importPayload" where
  "mergeSavedQueryImportSources le sources =
     \<lparr>ip_queries = mergeSavedQueriesById (map ip_queries sources),
      ip_connections = mergeById (\<lambda>c. js_trim (le_connectionId le c)) (map ip_connections sources)\<rparr>"

definition captureLegacySavedQueriesSnapshot ::
  "queryEnv \<Rightarrow> ('p, 'c) legacyEnv \<Rightarrow> savedQuery option list \<Rightarrow> 'c list \<Rightarrow> ('p, 'c) legacyState \<Rightarrow> ('p, 'c) legacyState" where
  "captureLegacySavedQueriesSnapshot env le v connections s =
     (let nextQueries = sanitizeSavedQueries env v in
      if nextQueries = [] then s
      else s\<lparr>ls_captured := mergeSavedQueryImportSources le
               [ls_captured s, \<lparr>ip_queries = nextQueries, ip_connections = connections\<rparr>]\<rparr>)"

definition readLegacySavedQuerySourceFromPayload ::
  "queryEnv \<Rightarrow> ('p, 'c) legacyEnv \<Rightarrow> 'p option \<Rightarrow> 'c importPayload" where
  "readLegacySavedQuerySourceFromPayload env le payload =
     (case payload of None \<Rightarrow> noPayload
      | Some p \<Rightarrow>
          (case le_parse le p of None \<Rightarrow> noPayload
           | Some (queries, connections) \<Rightarrow>
               \<lparr>ip_queries = sanitizeSavedQueries env queries, ip_connections = connections\<rparr>))"

definition handedOver :: "('p, 'c) legacyEnv \<Rightarrow> ('p, 'c) legacyState \<Rightarrow> ('p, 'c) legacyState" where
  "handedOver le s = s\<lparr>ls_captured := noPayload, ls_storage := map_option (le_strip le) (ls_storage s)\<rparr>"

text \<open>Saving them one by one; a call that throws ends the start.\<close>

fun saveAll :: "(savedQuery \<Rightarrow> 'b \<Rightarrow> savedQuery option option \<times> 'b) \<Rightarrow> savedQuery list \<Rightarrow> 'b \<Rightarrow> bool \<times> 'b" where
  "saveAll f [] b = (True, b)"
| "saveAll f (q # qs) b = (case f q b of (None, b1) \<Rightarrow> (False, b1) | (Some _, b1) \<Rightarrow> saveAll f qs b1)"

text \<open>The part that hands the old queries over: whether it came to its end, and how many it handed over.\<close>

definition handOver ::
  "('p, 'c) legacyEnv \<Rightarrow> ('b, 'c) queryImport \<Rightarrow> 'b queryBackend \<Rightarrow> 'c importPayload \<Rightarrow> ('p, 'c) legacyState \<times> 'b
    \<Rightarrow> nat fallible \<times> ('p, 'c) legacyState \<times> 'b" where
  "handOver le importer backend source w =
     (let (s, b) = w in
      if ip_queries source = [] then (Returned 0, s, b)
      else
        (case importer of
           Some f \<Rightarrow>
             (case f (ip_queries source) (ip_connections source) b of
                (True, b1) \<Rightarrow> (Returned (length (ip_queries source)), handedOver le s, b1)
              | (False, b1) \<Rightarrow> (Thrown [], s, b1))
         | None \<Rightarrow>
             (case qb_save backend of
                Some f \<Rightarrow>
                  (case saveAll f (ip_queries source) b of
                     (True, b1) \<Rightarrow> (Returned (length (ip_queries source)), handedOver le s, b1)
                   | (False, b1) \<Rightarrow> (Thrown [], s, b1))
              | None \<Rightarrow> (Returned 0, s, b))))"

definition legacySource :: "queryEnv \<Rightarrow> ('p, 'c) legacyEnv \<Rightarrow> ('p, 'c) legacyState \<Rightarrow> 'c importPayload" where
  "legacySource env le s =
     mergeSavedQueryImportSources le [ls_captured s, readLegacySavedQuerySourceFromPayload env le (ls_storage s)]"

definition bootstrapSavedQueries ::
  "queryEnv \<Rightarrow> ('p, 'c) legacyEnv \<Rightarrow> ('b, 'c) queryImport \<Rightarrow> 'b queryBackend \<Rightarrow> ('p, 'c) legacyState \<times> 'b
    \<Rightarrow> (nat \<times> nat) fallible \<times> ('p, 'c) legacyState \<times> 'b" where
  "bootstrapSavedQueries env le importer backend w =
     (let source = legacySource env le (fst w) in
      (case handOver le importer backend source w of
         (Thrown m, w1) \<Rightarrow> (Thrown m, w1)
       | (Returned importedLegacyCount, s1, b1) \<Rightarrow>
           (case (case qb_get backend of None \<Rightarrow> Some [] | Some f \<Rightarrow> map_option (sanitizeSavedQueries env) (f b1)) of
              None \<Rightarrow> (Thrown [], s1, b1)
            | Some queries \<Rightarrow>
                (let loadedQueries =
                   (if queries = [] \<and> importedLegacyCount = 0 \<and> ip_queries source \<noteq> [] then ip_queries source else queries) in
                 (Returned (importedLegacyCount, length loadedQueries), s1\<lparr>ls_shown := Some loadedQueries\<rparr>, b1)))))"

section \<open>What is accepted stays\<close>

lemma parameters_again:
  "parametersFrom seen (map Some (parametersFrom seen items)) = parametersFrom seen items"
proof (induction seen items rule: parametersFrom.induct)
  case (3 seen raw items)
  let ?name = "js_trim (qp_name raw)" and ?type = "js_or (js_trim (qp_type raw)) (js ''string'')"
  have t: "js_trim (js ''string'') = js ''string''" by code_simp
  have "js_trim ?type = ?type" using t by (simp add: js_or_def)
  moreover have "js_or ?type (js ''string'') = ?type" by (simp add: js_or_def)
  ultimately show ?case using 3 by (auto simp: Let_def)
qed auto

lemma query_again:
  assumes "sanitizeSavedQuery env v n = Some q" "\<forall>k. clean (qe_defaultName env k)"
  shows "sanitizeSavedQuery env (Some q) k = Some q"
proof -
  from assms obtain raw where raw: "v = Some raw" by (auto simp: sanitizeSavedQuery_def split: option.splits)
  have c: "js_trim (js_or (js_trim (sv_id raw)) (js ''query-'' @ nat_text (n + 1))) = js_or (js_trim (sv_id raw)) (js ''query-'' @ nat_text (n + 1))"
    using clean_numbered [of "js ''query-''" "n + 1"] by (simp add: js_or_def clean_def js_space_def)
  have d: "js_trim (js_or (js_trim (sv_name raw)) (qe_defaultName env n)) = js_or (js_trim (sv_name raw)) (qe_defaultName env n)"
    using assms(2) by (simp add: js_or_def clean_def)
  have e: "js_or (js_or a b) c = js_or a b" if "b \<noteq> []" for a b c :: js_string using that by (simp add: js_or_def)
  have n: "qe_defaultName env n \<noteq> []" using assms(2) by (simp add: clean_def)
  show ?thesis using assms(1) c d e n raw parameters_again [of "[]"]
    by (auto simp: sanitizeSavedQuery_def sanitizeSavedQueryParameters_def Let_def split: if_splits option.splits)
qed

lemma accept_again:
  assumes "\<forall>k. clean (qe_defaultName env k)"
  shows "acceptFrom env seen j (map Some (acceptFrom env seen i items)) = acceptFrom env seen i items
    \<and> distinct (map sv_id (acceptFrom env seen i items))
    \<and> (\<forall>q\<in>set (acceptFrom env seen i items). sv_id q \<notin> set seen \<and> sanitizeSavedQuery env (Some q) 0 = Some q)"
  using assms
proof (induction env seen i items arbitrary: j rule: acceptFrom.induct)
  case (2 env seen i item items)
  show ?case
  proof (cases "sanitizeSavedQuery env item i")
    case None
    with "2.IH"(1) "2.prems" show ?thesis by simp
  next
    case (Some q)
    then have q: "sanitizeSavedQuery env (Some q) k = Some q" for k using "2.prems" by (rule query_again)
    show ?thesis
    proof (cases "sv_id q \<in> set seen")
      case True
      then show ?thesis using "2.IH"(2) Some "2.prems" by simp
    next
      case False
      note IH = "2.IH"(3) [OF Some False "2.prems", of "j + 1"]
      from IH have "sv_id q \<notin> sv_id ` set (acceptFrom env (sv_id q # seen) (i + 1) items)" by fastforce
      with IH Some False q show ?thesis by simp
    qed
  qed
qed simp

text \<open>
  C22. The queries that are accepted from any list have distinct ids, a text, a connection and a database, and
  reading them again accepts exactly them.
\<close>

theorem accepted_queries_are_kept:
  assumes "\<forall>n. clean (qe_defaultName env n)"
  shows "sanitizeSavedQueries env (map Some (sanitizeSavedQueries env items)) = sanitizeSavedQueries env items
    \<and> distinct (map sv_id (sanitizeSavedQueries env items))
    \<and> (\<forall>q\<in>set (sanitizeSavedQueries env items). sv_id q \<noteq> [] \<and> js_trim (sv_sql q) \<noteq> []
         \<and> js_trim (sv_connectionId q) \<noteq> [] \<and> js_trim (sv_dbName q) \<noteq> [])"
proof -
  have nonempty: "sv_id q \<noteq> []" if "sanitizeSavedQuery env v n = Some q" for v n q
    using that by (auto simp: sanitizeSavedQuery_def js_or_def Let_def split: if_splits option.splits)
  have "sv_id q \<noteq> [] \<and> js_trim (sv_sql q) \<noteq> [] \<and> js_trim (sv_connectionId q) \<noteq> [] \<and> js_trim (sv_dbName q) \<noteq> []"
    if "sanitizeSavedQuery env (Some q) 0 = Some q" for q
    using that nonempty [OF that] by (auto simp: sanitizeSavedQuery_def Let_def split: if_splits)
  then show ?thesis unfolding sanitizeSavedQueries_def using accept_again [OF assms, of "[]" 0 0 items] by blast
qed

text \<open>
  The old queries leave the module and the browser storage only after the back end has taken all of them over; and
  when it has no function for that and no queries of its own, they are shown.
\<close>

lemma old_queries_are_kept:
  assumes "bootstrapSavedQueries env le importer backend (s, b) = (r, s', b')"
  defines "source \<equiv> legacySource env le s"
  shows "(ls_captured s' = ls_captured s \<and> ls_storage s' = ls_storage s)
      \<or> (\<exists>f. importer = Some f \<and> fst (f (ip_queries source) (ip_connections source) b))
      \<or> (\<exists>f. importer = None \<and> qb_save backend = Some f \<and> fst (saveAll f (ip_queries source) b))"
    "importer = None \<Longrightarrow> qb_save backend = None \<Longrightarrow> qb_get backend = None \<Longrightarrow> ls_shown s' = Some (ip_queries source)"
  using assms(1)
  by (auto simp: bootstrapSavedQueries_def handOver_def source_def Let_def
      split: if_splits option.splits prod.splits bool.splits fallible.splits)

theorem accepted_queries_are_kept_witness:
  "let env = \<lparr>qe_now = 1, qe_defaultName = (\<lambda>n. js ''Query'')\<rparr>;
       q = \<lparr>sv_id = [], sv_name = js '' '', sv_sql = js ''SELECT 1'', sv_connectionId = js '' c'', sv_dbName = js ''d'',
             sv_createdAt = None, sv_connectionFingerprint = [], sv_fingerprintVersion = [], sv_bindingStatus = [],
             sv_originalConnectionId = [], sv_parameters = []\<rparr>;
       accepted = sanitizeSavedQueries env [Some q, None, Some (q\<lparr>sv_dbName := []\<rparr>)] in
   length accepted = 1 \<and> sanitizeSavedQueries env (map Some accepted) = accepted"
proof -
  let ?env = "\<lparr>qe_now = 1, qe_defaultName = (\<lambda>n. js ''Query'')\<rparr>"
  let ?q = "\<lparr>sv_id = [], sv_name = js '' '', sv_sql = js ''SELECT 1'', sv_connectionId = js '' c'', sv_dbName = js ''d'',
     sv_createdAt = None, sv_connectionFingerprint = [], sv_fingerprintVersion = [], sv_bindingStatus = [],
     sv_originalConnectionId = [], sv_parameters = []\<rparr>"
  have "clean (js ''Query'')" by code_simp
  then have c: "\<forall>n. clean (qe_defaultName ?env n)" by simp
  have "length (sanitizeSavedQueries ?env [Some ?q, None, Some (?q\<lparr>sv_dbName := []\<rparr>)]) = 1" by code_simp
  then show ?thesis
    using accepted_queries_are_kept [OF c, of "[Some ?q, None, Some (?q\<lparr>sv_dbName := []\<rparr>)]"] by (simp only: Let_def)
qed

end
