(* ===== verification/ApplicationQuit.thy ===== *)
theory ApplicationQuit
  imports SavedQueries QueryDrafts WorkbenchTabs
begin

text \<open>
  Saving what is unsaved when the program or a tab is closed (\<open>src/frontend/src/utils/sqlEditorApplicationQuit.ts\<close>
  with \<open>sqlFileTabDirty.ts\<close>): which query tabs have changes, writing them to their files and saved queries, and
  taking the result over into the tabs. The files are those of the back end (\<open>ReadSQLFile\<close> and \<open>WriteSQLFile\<close> of
  \<open>internal/app/methods_file.go\<close>). The steps wait for the back end, and the user may go on typing: the drafts at the end
  are given. An exception ends the run; what was written stays written.
\<close>

section \<open>Files\<close>

datatype fileEntry = Directory | FileText js_string

type_synonym fileSystem = "js_string \<Rightarrow> fileEntry option"

text \<open>
  The answer of a read; its data is nothing, a text, or an object with its content, when it has one, and an error
  code. An answer that is not there, or a call that throws, is \<open>None\<close>.
\<close>

datatype readData = DataNone | DataText js_string | DataObject "js_string option" js_string

record readResult =
  rr_success :: bool
  rr_message :: js_string
  rr_data :: readData

text \<open>
  What the operating system makes of a path: its absolute form, and whether asking for it, reading and writing
  work. The length of a text is its number of bytes in UTF-8, half of the four bytes for each unit of a pair.
\<close>

record fileEnv =
  fe_abs :: "js_string \<Rightarrow> js_string"
  fe_stats :: "js_string \<Rightarrow> bool"
  fe_reads :: "js_string \<Rightarrow> bool"
  fe_writes :: "js_string \<Rightarrow> bool"
  fe_text :: "js_string \<Rightarrow> js_string"

definition utf8_length :: "js_string \<Rightarrow> nat" where
  "utf8_length s =
     sum_list (map (\<lambda>u. if u < 128 then 1 else if u < 2048 then 2 else if 55296 \<le> u \<and> u < 57344 then 2 else 3) s)"

definition maxSQLFileSizeBytes :: nat where
  "maxSQLFileSizeBytes = 50 * 1024 * 1024"

definition resolveSQLFilePathInfo :: "fileEnv \<Rightarrow> js_string \<Rightarrow> fileSystem \<Rightarrow> readResult + (js_string \<times> js_string)" where
  "resolveSQLFilePathInfo fe filePath fs =
     (let selection0 = js_trim filePath; selection = fe_abs fe selection0;
          failed = (\<lambda>m d. Inl \<lparr>rr_success = False, rr_message = fe_text fe m, rr_data = d\<rparr>) in
      if selection0 = [] then failed (js ''file_path_required'') DataNone
      else if \<not> fe_stats fe selection then failed (js ''read_file_info_failed'') (DataObject None [])
      else
        (case fs selection of
           None \<Rightarrow> failed (js ''read_file_info_failed'') (DataObject None (js ''file_not_found''))
         | Some Directory \<Rightarrow> failed (js ''selected_path_not_sql_file'') DataNone
         | Some (FileText t) \<Rightarrow> Inr (selection, t)))"

definition readSQLFileByPath :: "fileEnv \<Rightarrow> js_string \<Rightarrow> fileSystem \<Rightarrow> readResult" where
  "readSQLFileByPath fe filePath fs =
     (case resolveSQLFilePathInfo fe filePath fs of
        Inl failed \<Rightarrow> failed
      | Inr (selection, t) \<Rightarrow>
          if maxSQLFileSizeBytes < utf8_length t then \<lparr>rr_success = True, rr_message = [], rr_data = DataObject None []\<rparr>
          else if \<not> fe_reads fe selection
            then \<lparr>rr_success = False, rr_message = fe_text fe (js ''read_failed''), rr_data = DataNone\<rparr>
          else \<lparr>rr_success = True, rr_message = [], rr_data = DataText t\<rparr>)"

text \<open>Only a file that is there is written.\<close>

definition writeSQLFileByPath :: "fileEnv \<Rightarrow> js_string \<Rightarrow> js_string \<Rightarrow> fileSystem \<Rightarrow> (bool \<times> js_string) \<times> fileSystem" where
  "writeSQLFileByPath fe filePath content fs =
     (let target0 = js_trim filePath; target = fe_abs fe target0 in
      if target0 = [] then ((False, fe_text fe (js ''file_path_required'')), fs)
      else if \<not> fe_stats fe target \<or> fs target = None then ((False, fe_text fe (js ''read_file_info_failed'')), fs)
      else if fs target = Some Directory then ((False, fe_text fe (js ''selected_path_not_sql_file'')), fs)
      else if \<not> fe_writes fe target then ((False, fe_text fe (js ''write_failed'')), fs)
      else ((True, []), fs(target \<mapsto> FileText content)))"

section \<open>Changed files\<close>

definition getSQLFileTabPath :: "tabData \<Rightarrow> js_string" where
  "getSQLFileTabPath tab = (if \<not> isQueryTab tab then [] else trimmedField tab FFilePath)"

definition isSQLFileQueryTab :: "tabData \<Rightarrow> bool" where
  "isSQLFileQueryTab tab \<longleftrightarrow> getSQLFileTabPath tab \<noteq> []"

definition normalizeSQLFileReadContent :: "readData \<Rightarrow> js_string" where
  "normalizeSQLFileReadContent data =
     (case data of DataNone \<Rightarrow> [] | DataText t \<Rightarrow> t
      | DataObject content _ \<Rightarrow> (case content of None \<Rightarrow> [] | Some t \<Rightarrow> t))"

definition hasSQLFileTabUnsavedChanges :: "tabData \<Rightarrow> js_string \<Rightarrow> js_string \<Rightarrow> bool" where
  "hasSQLFileTabUnsavedChanges tab query diskContent \<longleftrightarrow> isSQLFileQueryTab tab \<and> query \<noteq> diskContent"

definition SQL_FILE_MISSING_MESSAGE_PATTERNS :: "js_string list" where
  "SQL_FILE_MISSING_MESSAGE_PATTERNS =
     [js ''no such file or directory'', js ''cannot find the file specified'', js ''system cannot find the file specified'',
      js ''does not exist'', js ''not exist'',
      [31995, 32479, 25214, 19981, 21040, 25351, 23450, 30340, 25991, 20214], [25991, 20214, 19981, 23384, 22312],
      [31995, 32113, 25214, 19981, 21040, 25351, 23450, 30340, 27284, 26696], [27284, 26696, 19981, 23384, 22312]]"

definition isSQLFileMissingErrorMessage :: "js_string \<Rightarrow> bool" where
  "isSQLFileMissingErrorMessage message \<longleftrightarrow>
     (let normalizedMessage = js_lower (js_trim message) in
      normalizedMessage \<noteq> [] \<and> (\<exists>pattern\<in>set SQL_FILE_MISSING_MESSAGE_PATTERNS. js_includes normalizedMessage pattern))"

definition isSQLFileMissingReadResult :: "readResult option \<Rightarrow> bool" where
  "isSQLFileMissingReadResult result =
     (case result of None \<Rightarrow> False
      | Some r \<Rightarrow>
          \<not> rr_success r \<and>
          ((case rr_data r of DataObject _ errorCode \<Rightarrow> js_lower (js_trim errorCode) = js ''file_not_found'' | _ \<Rightarrow> False)
           \<or> isSQLFileMissingErrorMessage (rr_message r)))"

section \<open>What is unsaved\<close>

datatype quitTarget =
  SqlFileTarget js_string js_string js_string js_string
| SavedQueryTarget js_string js_string savedQuery js_string js_string js_string
| UnsavedQueryTarget js_string js_string js_string js_string js_string

fun targetTabId :: "quitTarget \<Rightarrow> js_string" where
  "targetTabId (SqlFileTarget i _ _ _) = i"
| "targetTabId (SavedQueryTarget i _ _ _ _ _) = i"
| "targetTabId (UnsavedQueryTarget i _ _ _ _) = i"

fun targetTitle :: "quitTarget \<Rightarrow> js_string" where
  "targetTitle (SqlFileTarget _ t _ _) = t"
| "targetTitle (SavedQueryTarget _ t _ _ _ _) = t"
| "targetTitle (UnsavedQueryTarget _ t _ _ _) = t"

fun targetDraft :: "quitTarget \<Rightarrow> js_string" where
  "targetDraft (SqlFileTarget _ _ _ d) = d"
| "targetDraft (SavedQueryTarget _ _ _ d _ _) = d"
| "targetDraft (UnsavedQueryTarget _ _ d _ _) = d"

definition resolveTabTitle :: "tabData \<Rightarrow> js_string \<Rightarrow> js_string" where
  "resolveTabTitle tab fallback = js_or (trimmedField tab FTitle) fallback"

definition resolveSavedQueryForTab :: "tabData \<Rightarrow> savedQuery list \<Rightarrow> savedQuery option" where
  "resolveSavedQueryForTab tab savedQueries =
     (if \<not> isQueryTab tab \<or> isSQLFileQueryTab tab then None
      else
        (let savedId = js_or (trimmedField tab FSavedQueryId) (js_trim (tb_id tab)) in
         if savedId = [] then None else find (\<lambda>query. sv_id query = savedId) savedQueries))"

definition tabConnectionOr :: "tabData \<Rightarrow> savedQuery \<Rightarrow> js_string" where
  "tabConnectionOr tab savedQuery = js_trim (js_or (fieldText tab FConnectionId) (sv_connectionId savedQuery))"

definition tabDatabaseOr :: "tabData \<Rightarrow> savedQuery \<Rightarrow> js_string" where
  "tabDatabaseOr tab savedQuery = js_trim (js_or (fieldText tab FDbName) (sv_dbName savedQuery))"

definition hasSavedQueryUnsavedChanges :: "tabData \<Rightarrow> savedQuery \<Rightarrow> js_string \<Rightarrow> bool" where
  "hasSavedQueryUnsavedChanges tab savedQuery draft \<longleftrightarrow>
     draft \<noteq> sv_sql savedQuery \<or> tabConnectionOr tab savedQuery \<noteq> js_trim (sv_connectionId savedQuery)
     \<or> tabDatabaseOr tab savedQuery \<noteq> js_trim (sv_dbName savedQuery)"

text \<open>A tab with its draft; \<open>None\<close> when nothing of it is unsaved.\<close>

definition unsavedTarget ::
  "(js_string \<Rightarrow> readResult option) \<Rightarrow> savedQuery list \<Rightarrow> tabData \<Rightarrow> js_string \<Rightarrow> quitTarget option" where
  "unsavedTarget readSQLFile savedQueries tab draft =
     (if isSQLFileQueryTab tab then
        (let filePath = getSQLFileTabPath tab; res = readSQLFile filePath;
             target = Some (SqlFileTarget (tb_id tab) (resolveTabTitle tab filePath) filePath draft) in
         (case res of
            None \<Rightarrow> target
          | Some r \<Rightarrow>
              if rr_success r then
                (if hasSQLFileTabUnsavedChanges tab draft (normalizeSQLFileReadContent (rr_data r)) then target else None)
              else if isSQLFileMissingReadResult res then target
              else target))
      else
        (case resolveSavedQueryForTab tab savedQueries of
           None \<Rightarrow>
             if js_trim draft = [] then None
             else Some (UnsavedQueryTarget (tb_id tab) (resolveTabTitle tab (js ''SQL Query'')) draft
                          (trimmedField tab FConnectionId) (trimmedField tab FDbName))
         | Some savedQuery \<Rightarrow>
             if \<not> hasSavedQueryUnsavedChanges tab savedQuery draft then None
             else Some (SavedQueryTarget (tb_id tab) (resolveTabTitle tab (sv_name savedQuery)) savedQuery draft
                          (tabConnectionOr tab savedQuery) (tabDatabaseOr tab savedQuery))))"

fun collectApplicationQuitUnsavedSQLTargets ::
  "'s draftEnv \<Rightarrow> int \<Rightarrow> (js_string \<Rightarrow> readResult option) \<Rightarrow> tabData list \<Rightarrow> savedQuery list \<Rightarrow> 's draftStore
    \<Rightarrow> quitTarget list \<times> 's draftStore" where
  "collectApplicationQuitUnsavedSQLTargets env now readSQLFile [] savedQueries d = ([], d)"
| "collectApplicationQuitUnsavedSQLTargets env now readSQLFile (tab # tabs) savedQueries d =
     (if \<not> isQueryTab tab then collectApplicationQuitUnsavedSQLTargets env now readSQLFile tabs savedQueries d
      else
        (let (draft, d1) = getQueryTabDraft env now (tb_id tab) (fieldText tab FQuery) d;
             (targets, d2) = collectApplicationQuitUnsavedSQLTargets env now readSQLFile tabs savedQueries d1 in
         (case unsavedTarget readSQLFile savedQueries tab draft of None \<Rightarrow> targets | Some t \<Rightarrow> t # targets, d2)))"

definition buildApplicationQuitUnsavedSQLLabel :: "quitTarget list \<Rightarrow> js_string" where
  "buildApplicationQuitUnsavedSQLLabel targets =
     (case targets of [] \<Rightarrow> [] | [t] \<Rightarrow> targetTitle t | _ \<Rightarrow> nat_text (length targets))"

section \<open>Saving\<close>

record quitEnv =
  qt_query :: queryEnv
  qt_file :: fileEnv

text \<open>What saving writes to: the saved queries of the store, the back end, the files.\<close>

type_synonym 'b quitStorage = "savedQuery list \<times> 'b \<times> fileSystem"

definition newSavedQuery :: "queryEnv \<Rightarrow> js_string \<Rightarrow> js_string \<Rightarrow> js_string \<Rightarrow> js_string \<Rightarrow> js_string \<Rightarrow> savedQuery" where
  "newSavedQuery env i name sql connectionId dbName =
     \<lparr>sv_id = i, sv_name = name, sv_sql = sql, sv_connectionId = connectionId, sv_dbName = dbName,
      sv_createdAt = Some (qe_now env), sv_connectionFingerprint = [], sv_fingerprintVersion = [], sv_bindingStatus = [],
      sv_originalConnectionId = [], sv_parameters = []\<rparr>"

text \<open>The query that is saved for a target.\<close>

fun queryOfTarget :: "queryEnv \<Rightarrow> quitTarget \<Rightarrow> savedQuery option" where
  "queryOfTarget env (SqlFileTarget _ _ _ _) = None"
| "queryOfTarget env (SavedQueryTarget _ _ q draft connectionId dbName) =
     Some (q\<lparr>sv_sql := draft, sv_connectionId := connectionId, sv_dbName := dbName\<rparr>)"
| "queryOfTarget env (UnsavedQueryTarget i title draft connectionId dbName) =
     Some (newSavedQuery env i title draft connectionId dbName)"

definition saveTarget ::
  "quitEnv \<Rightarrow> 'b queryBackend \<Rightarrow> quitTarget \<Rightarrow> 'b quitStorage
    \<Rightarrow> (quitTarget \<times> savedQuery option) fallible \<times> 'b quitStorage" where
  "saveTarget env backend target w =
     (let (queries, b, fs) = w in
      (case target of
         SqlFileTarget _ _ filePath draft \<Rightarrow>
           (case writeSQLFileByPath (qt_file env) filePath draft fs of
              ((True, _), fs1) \<Rightarrow> (Returned (target, None), queries, b, fs1)
            | ((False, m), fs1) \<Rightarrow> (Thrown (js_or m filePath), queries, b, fs1))
       | _ \<Rightarrow>
           (case queryOfTarget (qt_query env) target of
              None \<Rightarrow> (Returned (target, None), w)
            | Some query \<Rightarrow>
                (case saveQuery (qt_query env) backend query (queries, b) of
                   (Thrown m, queries1, b1) \<Rightarrow> (Thrown m, queries1, b1, fs)
                 | (Returned saved, queries1, b1) \<Rightarrow> (Returned (target, Some saved), queries1, b1, fs)))))"

fun saveApplicationQuitUnsavedSQLTargets ::
  "quitEnv \<Rightarrow> 'b queryBackend \<Rightarrow> quitTarget list \<Rightarrow> 'b quitStorage
    \<Rightarrow> (quitTarget \<times> savedQuery option) list fallible \<times> 'b quitStorage" where
  "saveApplicationQuitUnsavedSQLTargets env backend [] w = (Returned [], w)"
| "saveApplicationQuitUnsavedSQLTargets env backend (target # targets) w =
     (case saveTarget env backend target w of
        (Thrown m, w1) \<Rightarrow> (Thrown m, w1)
      | (Returned saved, w1) \<Rightarrow>
          (case saveApplicationQuitUnsavedSQLTargets env backend targets w1 of
             (Thrown m, w2) \<Rightarrow> (Thrown m, w2)
           | (Returned savedTargets, w2) \<Rightarrow> (Returned (saved # savedTargets), w2)))"

section \<open>Taking over\<close>

definition reconcileTab :: "tabData \<Rightarrow> quitTarget \<times> savedQuery option \<Rightarrow> tabData" where
  "reconcileTab tab saved =
     (case saved of
        (SqlFileTarget _ _ _ draft, _) \<Rightarrow> setField FQuery (Text draft) tab
      | (_, None) \<Rightarrow> tab
      | (_, Some query) \<Rightarrow>
          setField FSavedQueryId (Text (sv_id query)) (setField FDbName (Text (sv_dbName query))
            (setField FConnectionId (Text (sv_connectionId query)) (setField FQuery (Text (sv_sql query))
              (setField FTitle (Text (sv_name query)) tab)))))"

definition reconcileApplicationQuitSavedSQLTargets ::
  "tabData list \<Rightarrow> (quitTarget \<times> savedQuery option) list \<Rightarrow> tabData list" where
  "reconcileApplicationQuitSavedSQLTargets tabs savedTargets =
     map (\<lambda>tab. case map_of (rev (map (\<lambda>s. (targetTabId (fst s), s)) savedTargets)) (tb_id tab) of
                  None \<Rightarrow> tab | Some saved \<Rightarrow> reconcileTab tab saved) tabs"

text \<open>The first target whose draft is no longer the text that was saved.\<close>

fun changedWhileSaving ::
  "'s draftEnv \<Rightarrow> int \<Rightarrow> (quitTarget \<times> savedQuery option) list \<Rightarrow> 's draftStore \<Rightarrow> quitTarget option \<times> 's draftStore" where
  "changedWhileSaving env now [] d = (None, d)"
| "changedWhileSaving env now (saved # savedTargets) d =
     (let target = fst saved; (draft, d1) = getQueryTabDraft env now (targetTabId target) (targetDraft target) d in
      if draft \<noteq> targetDraft target then (Some target, d1) else changedWhileSaving env now savedTargets d1)"

definition assertApplicationQuitSavedSQLTargetsUnchanged ::
  "'s draftEnv \<Rightarrow> int \<Rightarrow> (quitTarget \<times> savedQuery option) list \<Rightarrow> 's draftStore \<Rightarrow> unit fallible \<times> 's draftStore" where
  "assertApplicationQuitSavedSQLTargetsUnchanged env now savedTargets d =
     (case changedWhileSaving env now savedTargets d of
        (None, d1) \<Rightarrow> (Returned (), d1)
      | (Some target, d1) \<Rightarrow> (Thrown (js ''SQL changed while saving: '' @ targetTitle target), d1))"

text \<open>\<open>accepted\<close>: whether the browser storage accepts the writes of the drafts.\<close>

definition clearDrafts ::
  "'s draftEnv \<Rightarrow> int \<Rightarrow> bool \<Rightarrow> (quitTarget \<times> savedQuery option) list \<Rightarrow> 's draftStore \<Rightarrow> 's draftStore" where
  "clearDrafts env now accepted savedTargets d =
     fold (\<lambda>saved. clearQueryTabDraft env now accepted (targetTabId (fst saved))) savedTargets d"

record ('b, 's) quitWorld =
  qw_tabs :: "tabData list"
  qw_storage :: "'b quitStorage"
  qw_drafts :: "'s draftStore"

text \<open>\<open>typed\<close>: the drafts when the saving is over; the user may have changed any of them in the meantime.\<close>

definition saveLatestApplicationQuitUnsavedSQLState ::
  "quitEnv \<Rightarrow> 's draftEnv \<Rightarrow> int \<Rightarrow> bool \<Rightarrow> 'b queryBackend \<Rightarrow> 's draftStore
    \<Rightarrow> ('b, 's) quitWorld \<Rightarrow> (quitTarget \<times> savedQuery option) list fallible \<times> ('b, 's) quitWorld" where
  "saveLatestApplicationQuitUnsavedSQLState env denv now accepted backend typed w =
     (let (queries, b, fs) = qw_storage w;
          (targets, d1) = collectApplicationQuitUnsavedSQLTargets denv now
            (\<lambda>p. Some (readSQLFileByPath (qt_file env) p fs)) (qw_tabs w) queries (qw_drafts w);
          (saved, storage) = saveApplicationQuitUnsavedSQLTargets env backend targets (qw_storage w);
          w1 = w\<lparr>qw_storage := storage, qw_drafts := typed\<rparr> in
      (case saved of
         Thrown m \<Rightarrow> (Thrown m, w1)
       | Returned savedTargets \<Rightarrow>
           (case assertApplicationQuitSavedSQLTargetsUnchanged denv now savedTargets typed of
              (Thrown m, d3) \<Rightarrow> (Thrown m, w1\<lparr>qw_drafts := d3\<rparr>)
            | (Returned _, d3) \<Rightarrow>
                (Returned savedTargets,
                 w1\<lparr>qw_tabs := reconcileApplicationQuitSavedSQLTargets (qw_tabs w1) savedTargets,
                    qw_drafts := clearDrafts denv now accepted savedTargets d3\<rparr>))))"

end
