(* ===== verification/ApplicationQuitProps.thy ===== *)
theory ApplicationQuitProps
  imports ApplicationQuit
begin

text \<open>
  What saving on quitting guarantees (\<open>ApplicationQuit\<close>): what it reports as saved is stored and is the text of the
  editor, a failure keeps the drafts, and afterwards only what was changed in the meantime is unsaved. The files
  and the saved queries are used through one contract, the locale \<open>text_store\<close>.
\<close>

section \<open>Drafts\<close>

definition draftText :: "'s draftEnv \<Rightarrow> int \<Rightarrow> 's draftStore \<Rightarrow> js_string \<Rightarrow> js_string \<Rightarrow> js_string" where
  "draftText env now d i fallback = fst (getQueryTabDraft env now i fallback d)"

lemma hydrated_entries: "qd_hydrated (fold addEntry es d) = qd_hydrated d"
  by (induction es arbitrary: d) (simp_all add: addEntry_def)

lemma hydrated_ensure: "qd_hydrated (ensurePersistedDraftsHydrated env now d)"
  by (simp add: ensurePersistedDraftsHydrated_def hydrated_entries Let_def split: option.split)

lemma hydrated_same: "qd_hydrated d \<Longrightarrow> ensurePersistedDraftsHydrated env now d = d"
  by (simp add: ensurePersistedDraftsHydrated_def)

lemma hydrated_twice [simp]:
  "ensurePersistedDraftsHydrated env now (ensurePersistedDraftsHydrated env now d) = ensurePersistedDraftsHydrated env now d"
  by (rule hydrated_same) (rule hydrated_ensure)

lemma get_draft: "getQueryTabDraft env now i f d = (draftText env now d i f, ensurePersistedDraftsHydrated env now d)"
  by (simp add: draftText_def getQueryTabDraft_def Let_def split: option.split)

lemma draftText_hydrated [simp]: "draftText env now (ensurePersistedDraftsHydrated env now d) = draftText env now d"
  by (simp add: draftText_def getQueryTabDraft_def Let_def fun_eq_iff)




section \<open>Collecting\<close>

definition tabDraft :: "'s draftEnv \<Rightarrow> int \<Rightarrow> 's draftStore \<Rightarrow> tabData \<Rightarrow> js_string" where
  "tabDraft env now d tab = draftText env now d (tb_id tab) (fieldText tab FQuery)"

lemma tabDraft_hydrated [simp]: "tabDraft env now (ensurePersistedDraftsHydrated env now d) = tabDraft env now d"
  by (simp add: tabDraft_def fun_eq_iff)

lemma collect_eq:
  "fst (collectApplicationQuitUnsavedSQLTargets env now rd tabs queries d) =
     List.map_filter (\<lambda>tab. if isQueryTab tab then unsavedTarget rd queries tab (tabDraft env now d tab) else None) tabs"
  by (induction tabs arbitrary: d)
    (simp_all add: map_filter_simps get_draft tabDraft_def Let_def case_prod_beta cong: if_cong split: option.split)

lemma collect_drafts:
  "snd (collectApplicationQuitUnsavedSQLTargets env now rd tabs queries d) \<in> {d, ensurePersistedDraftsHydrated env now d}"
proof (induction tabs arbitrary: d)
  case (Cons tab tabs)
  show ?case using Cons.IH [of d] Cons.IH [of "ensurePersistedDraftsHydrated env now d"]
    by (auto simp: get_draft Let_def split: prod.splits)
qed simp

lemma collect_draftText [simp]:
  "draftText env now (snd (collectApplicationQuitUnsavedSQLTargets env now rd tabs queries d)) = draftText env now d"
  using collect_drafts [of env now rd tabs queries d] by auto


section \<open>The stores of texts\<close>


text \<open>What is stored under the path of a file and under the id of a saved query.\<close>

type_synonym storeKey = "bool \<times> js_string"


definition quitKey :: "quitEnv \<Rightarrow> quitTarget \<Rightarrow> storeKey" where
  "quitKey env t =
     (case t of
        SqlFileTarget _ _ filePath _ \<Rightarrow> (True, fe_abs (qt_file env) (js_trim filePath))
      | SavedQueryTarget _ _ q _ _ _ \<Rightarrow> (False, js_or (js_trim (sv_id q)) (js ''query-1''))
      | UnsavedQueryTarget i _ _ _ _ \<Rightarrow> (False, js_or (js_trim i) (js ''query-1'')))"










lemma saveTarget_file:
  "saveTarget env backend (SqlFileTarget i n p d) (qs, b, fs) = (Returned s, w') \<longleftrightarrow>
     s = (SqlFileTarget i n p d, None)
     \<and> (\<exists>m fs1. writeSQLFileByPath (qt_file env) p d fs = ((True, m), fs1) \<and> w' = (qs, b, fs1))"
  by (auto simp: saveTarget_def split: prod.splits bool.splits)

lemma saveTarget_query:
  "queryOfTarget (qt_query env) t = Some q \<Longrightarrow> saveTarget env backend t (qs, b, fs) = (Returned s, w') \<longleftrightarrow>
     (\<exists>r qs1 b1. saveQuery (qt_query env) backend q (qs, b) = (Returned r, qs1, b1) \<and> s = (t, Some r) \<and> w' = (qs1, b1, fs))"
  by (cases t) (auto simp: saveTarget_def split: prod.splits fallible.splits)

lemma query_of_target:
  "(\<exists>i n p d. t = SqlFileTarget i n p d) \<or>
     (\<exists>q. queryOfTarget (qt_query env) t = Some q \<and> sv_sql q = targetDraft t
        \<and> quitKey env t = (False, js_or (js_trim (sv_id q)) (js ''query-1'')) \<and> (\<nexists>i n p d. t = SqlFileTarget i n p d))"
  by (cases t) (auto simp: quitKey_def newSavedQuery_def)





section \<open>Tabs and what is stored for them\<close>



text \<open>What is unsaved of a tab, given what is stored.\<close>

definition unsavedOf :: "quitEnv \<Rightarrow> 'b quitStorage \<Rightarrow> tabData \<Rightarrow> js_string \<Rightarrow> quitTarget option" where
  "unsavedOf env w tab draft =
     unsavedTarget (\<lambda>p. Some (readSQLFileByPath (qt_file env) p (snd (snd w)))) (fst w) tab draft"

lemma path_trimmed [simp]: "js_trim (getSQLFileTabPath tab) = getSQLFileTabPath tab"
  by (simp add: getSQLFileTabPath_def trimmedField_def)







section \<open>A whole run\<close>

lemma changed_drafts: "snd (changedWhileSaving env now sts d) \<in> {d, ensurePersistedDraftsHydrated env now d}"
proof (induction sts arbitrary: d)
  case (Cons x sts)
  show ?case using Cons.IH [of "ensurePersistedDraftsHydrated env now d"] by (auto simp: get_draft Let_def)
qed simp

lemma changed_draftText [simp]: "draftText env now (snd (changedWhileSaving env now sts d)) = draftText env now d"
  using changed_drafts [of env now sts d] by auto

lemma changed_result: "changedWhileSaving env now sts d = (x, d') \<Longrightarrow> draftText env now d' = draftText env now d"
  using changed_draftText [of env now sts d] by simp

lemma unchanged_drafts:
  "fst (changedWhileSaving env now sts d) = None \<longleftrightarrow>
     (\<forall>x\<in>set sts. draftText env now d (targetTabId (fst x)) (targetDraft (fst x)) = targetDraft (fst x))"
  by (induction sts arbitrary: d) (simp_all add: get_draft Let_def)

definition unsavedTargets ::
  "quitEnv \<Rightarrow> 's draftEnv \<Rightarrow> int \<Rightarrow> 'b quitStorage \<Rightarrow> 's draftStore \<Rightarrow> tabData list \<Rightarrow> quitTarget list" where
  "unsavedTargets env denv now storage d tabs =
     List.map_filter (\<lambda>tab. if isQueryTab tab then unsavedOf env storage tab (tabDraft denv now d tab) else None) tabs"

lemma save_latest:
  assumes "saveLatestApplicationQuitUnsavedSQLState env denv now accepted backend typed w = (r, w')"
  obtains saved where
    "saveApplicationQuitUnsavedSQLTargets env backend (unsavedTargets env denv now (qw_storage w) (qw_drafts w) (qw_tabs w))
       (qw_storage w) = (saved, qw_storage w')"
    "\<forall>m. r = Thrown m \<longrightarrow> qw_tabs w' = qw_tabs w \<and> draftText denv now (qw_drafts w') = draftText denv now typed"
    "\<forall>sts. r = Returned sts \<longrightarrow> saved = Returned sts
       \<and> (\<forall>x\<in>set sts. draftText denv now typed (targetTabId (fst x)) (targetDraft (fst x)) = targetDraft (fst x))
       \<and> qw_tabs w' = reconcileApplicationQuitSavedSQLTargets (qw_tabs w) sts
       \<and> (\<exists>d. draftText denv now d = draftText denv now typed \<and> qw_drafts w' = clearDrafts denv now accepted sts d)"
proof -
  let ?rd = "\<lambda>p. Some (readSQLFileByPath (qt_file env) p (snd (snd (qw_storage w))))"
  let ?c = "collectApplicationQuitUnsavedSQLTargets denv now ?rd (qw_tabs w) (fst (qw_storage w)) (qw_drafts w)"
  let ?ts = "unsavedTargets env denv now (qw_storage w) (qw_drafts w) (qw_tabs w)"
  have c: "fst ?c = ?ts" by (simp add: collect_eq unsavedTargets_def unsavedOf_def cong: if_cong)
  obtain saved st where s: "saveApplicationQuitUnsavedSQLTargets env backend ?ts (qw_storage w) = (saved, st)"
    by (rule prod.exhaust)
  let ?ch = "\<lambda>sts. changedWhileSaving denv now sts typed"
  from assms c s have r: "(r, w') = (case saved of
         Thrown m \<Rightarrow> (Thrown m, w\<lparr>qw_storage := st, qw_drafts := typed\<rparr>)
       | Returned sts \<Rightarrow>
           (case ?ch sts of
              (Some t, d3) \<Rightarrow> (Thrown (js ''SQL changed while saving: '' @ targetTitle t), w\<lparr>qw_storage := st, qw_drafts := d3\<rparr>)
            | (None, d3) \<Rightarrow>
                (Returned sts, w\<lparr>qw_storage := st, qw_tabs := reconcileApplicationQuitSavedSQLTargets (qw_tabs w) sts,
                    qw_drafts := clearDrafts denv now accepted sts d3\<rparr>)))"
    by (auto simp: saveLatestApplicationQuitUnsavedSQLState_def assertApplicationQuitSavedSQLTargetsUnchanged_def Let_def
        split: prod.splits fallible.splits option.splits)
  show ?thesis
  proof (rule that [of saved])
    show "saveApplicationQuitUnsavedSQLTargets env backend ?ts (qw_storage w) = (saved, qw_storage w')"
      using s r by (auto split: fallible.splits prod.splits option.splits)
    show "\<forall>m. r = Thrown m \<longrightarrow> qw_tabs w' = qw_tabs w \<and> draftText denv now (qw_drafts w') = draftText denv now typed"
      using r by (auto simp: changed_result split: fallible.splits prod.splits option.splits)
    have "saved = Returned sts
       \<and> (\<forall>x\<in>set sts. draftText denv now typed (targetTabId (fst x)) (targetDraft (fst x)) = targetDraft (fst x))
       \<and> qw_tabs w' = reconcileApplicationQuitSavedSQLTargets (qw_tabs w) sts
       \<and> (\<exists>d. draftText denv now d = draftText denv now typed \<and> qw_drafts w' = clearDrafts denv now accepted sts d)"
      if "r = Returned sts" for sts
    proof -
      from r that have v: "saved = Returned sts" "fst (?ch sts) = None"
        "qw_tabs w' = reconcileApplicationQuitSavedSQLTargets (qw_tabs w) sts"
        "qw_drafts w' = clearDrafts denv now accepted sts (snd (?ch sts))"
        by (auto split: fallible.splits prod.splits option.splits)
      then show ?thesis using unchanged_drafts [of denv now sts typed] changed_draftText by blast
    qed
    then show "\<forall>sts. r = Returned sts \<longrightarrow> saved = Returned sts
       \<and> (\<forall>x\<in>set sts. draftText denv now typed (targetTabId (fst x)) (targetDraft (fst x)) = targetDraft (fst x))
       \<and> qw_tabs w' = reconcileApplicationQuitSavedSQLTargets (qw_tabs w) sts
       \<and> (\<exists>d. draftText denv now d = draftText denv now typed \<and> qw_drafts w' = clearDrafts denv now accepted sts d)"
      by blast
  qed
qed





lemma fieldText_setField [simp]: "fieldText (setField f (Text s) t) g = (if g = f then s else fieldText t g)"
  by (simp add: fieldText_def setField_def)

lemma setField_same [simp]: "tb_id (setField f v t) = tb_id t" "tb_type (setField f v t) = tb_type t"
  by (simp_all add: setField_def)

lemma reconcileTab_same [simp]:
  "tb_id (reconcileTab tab s) = tb_id tab" "tb_type (reconcileTab tab s) = tb_type tab"
  "isSQLFileQueryTab (reconcileTab tab s) = isSQLFileQueryTab tab" "getSQLFileTabPath (reconcileTab tab s) = getSQLFileTabPath tab"
  by (auto simp: reconcileTab_def isSQLFileQueryTab_def getSQLFileTabPath_def trimmedField_def
      split: prod.split quitTarget.split option.split)







section \<open>What cannot be saved\<close>

text \<open>A tab that keeps saving from succeeding: its file is gone, or it is a new query without its context.\<close>

definition cannotBeSaved :: "quitEnv \<Rightarrow> 'b quitStorage \<Rightarrow> tabData \<Rightarrow> js_string \<Rightarrow> bool" where
  "cannotBeSaved env w tab draft \<longleftrightarrow>
     isQueryTab tab \<and>
     (if isSQLFileQueryTab tab then snd (snd w) (fe_abs (qt_file env) (getSQLFileTabPath tab)) = None
      else resolveSavedQueryForTab tab (fst w) = None \<and> js_trim draft \<noteq> []
        \<and> (trimmedField tab FConnectionId = [] \<or> trimmedField tab FDbName = []))"

definition unsavable :: "quitEnv \<Rightarrow> fileSystem \<Rightarrow> quitTarget \<Rightarrow> bool" where
  "unsavable env fs t \<longleftrightarrow>
     (case t of
        SqlFileTarget _ _ p _ \<Rightarrow> fs (fe_abs (qt_file env) (js_trim p)) = None
      | SavedQueryTarget _ _ _ _ _ _ \<Rightarrow> False
      | UnsavedQueryTarget _ _ _ c d \<Rightarrow> js_trim c = [] \<or> js_trim d = [])"

lemma cannot_be_saved_target:
  assumes "cannotBeSaved env w tab draft"
  shows "\<exists>t. unsavedOf env w tab draft = Some t \<and> unsavable env (snd (snd w)) t"
proof (cases "isSQLFileQueryTab tab")
  case True
  with assms show ?thesis
    by (auto simp: unsavedOf_def unsavedTarget_def readSQLFileByPath_def cannotBeSaved_def unsavable_def
        resolveSQLFilePathInfo_def isSQLFileQueryTab_def Let_def)
next
  case False
  with assms show ?thesis by (auto simp: unsavedOf_def unsavedTarget_def cannotBeSaved_def unsavable_def trimmedField_def)
qed

lemma saveTarget_savable:
  assumes "saveTarget env backend t (qs, b, fs) = (Returned s, qs', b', fs')"
  shows "\<not> unsavable env fs t \<and> (\<forall>p. fs' p = None \<longleftrightarrow> fs p = None)"
proof -
  consider (onDisk) i n p d where "t = SqlFileTarget i n p d"
    | (query) q where "queryOfTarget (qt_query env) t = Some q" "\<nexists>i n p d. t = SqlFileTarget i n p d"
    using query_of_target [of t env] by blast
  then show ?thesis
  proof cases
    case onDisk
    with assms show ?thesis
      by (auto simp: saveTarget_file unsavable_def writeSQLFileByPath_def Let_def split: if_splits)
  next
    case query
    with assms obtain r where r: "saveQuery (qt_query env) backend q (qs, b) = (Returned r, qs', b')" "fs' = fs"
      by (auto simp: saveTarget_query)
    then have "sanitizeSavedQuery (qt_query env) (Some q) 0 \<noteq> None"
      by (auto simp: saveQuery_def saveSavedQueryToBackend_def split: option.splits prod.splits)
    with query r show ?thesis
      by (cases t) (auto simp: unsavable_def sanitizeSavedQuery_def newSavedQuery_def Let_def split: if_splits)
  qed
qed

lemma saveAll_savable:
  "saveApplicationQuitUnsavedSQLTargets env backend ts (qs, b, fs) = (Returned sts, w') \<Longrightarrow> t \<in> set ts \<Longrightarrow> \<not> unsavable env fs t"
proof (induction ts arbitrary: qs b fs sts)
  case (Cons u ts)
  obtain s qs1 b1 fs1 rest where s: "saveTarget env backend u (qs, b, fs) = (Returned s, qs1, b1, fs1)"
    "saveApplicationQuitUnsavedSQLTargets env backend ts (qs1, b1, fs1) = (Returned rest, w')"
    using Cons.prems(1) by (auto split: prod.splits fallible.splits)
  have e: "unsavable env fs1 t = unsavable env fs t"
    using saveTarget_savable [OF s(1)] by (simp add: unsavable_def split: quitTarget.split)
  show ?case
  proof (cases "t = u")
    case True
    with saveTarget_savable [OF s(1)] show ?thesis by simp
  next
    case False
    with Cons.IH [OF s(2)] Cons.prems(2) e show ?thesis by simp
  qed
qed simp

text \<open>
  C21. When a query tab shows a file that is not there any more, or has a text but neither a saved query nor a
  connection and a database, then saving on quitting fails, whatever the other tabs have.
\<close>

theorem tab_that_blocks_saving:
  assumes "tab \<in> set (qw_tabs w)" "cannotBeSaved env (qw_storage w) tab (tabDraft denv now (qw_drafts w) tab)"
  shows "\<exists>m. fst (saveLatestApplicationQuitUnsavedSQLState env denv now accepted backend typed w) = Thrown m"
proof (rule ccontr)
  assume no: "\<nexists>m. fst (saveLatestApplicationQuitUnsavedSQLState env denv now accepted backend typed w) = Thrown m"
  obtain r w' where run: "saveLatestApplicationQuitUnsavedSQLState env denv now accepted backend typed w = (r, w')"
    by (rule prod.exhaust)
  with no obtain sts where r: "r = Returned sts" by (cases r) auto
  let ?ts = "unsavedTargets env denv now (qw_storage w) (qw_drafts w) (qw_tabs w)"
  from run obtain saved where s: "saveApplicationQuitUnsavedSQLTargets env backend ?ts (qw_storage w) = (saved, qw_storage w')"
    and "\<forall>sts. r = Returned sts \<longrightarrow> saved = Returned sts
       \<and> (\<forall>x\<in>set sts. draftText denv now typed (targetTabId (fst x)) (targetDraft (fst x)) = targetDraft (fst x))
       \<and> qw_tabs w' = reconcileApplicationQuitSavedSQLTargets (qw_tabs w) sts
       \<and> (\<exists>d. draftText denv now d = draftText denv now typed \<and> qw_drafts w' = clearDrafts denv now accepted sts d)"
    by (rule save_latest)
  then have saved: "saved = Returned sts" using r by simp
  obtain t where t: "unsavedOf env (qw_storage w) tab (tabDraft denv now (qw_drafts w) tab) = Some t"
    "unsavable env (snd (snd (qw_storage w))) t" using cannot_be_saved_target [OF assms(2)] by blast
  have "t \<in> set ?ts" using assms t(1) by (force simp: unsavedTargets_def List.map_filter_def cannotBeSaved_def)
  with s saved t(2) show False using saveAll_savable by (metis prod.collapse)
qed

section \<open>Runs\<close>

definition someTab :: "js_string \<Rightarrow> (tabField \<times> js_string) list \<Rightarrow> tabData" where
  "someTab i fs = \<lparr>tb_id = i, tb_type = js ''query'', tb_fields = map_option Text \<circ> map_of fs\<rparr>"


definition newTab :: "js_string \<Rightarrow> tabData" where
  "newTab connection = someTab (js ''t2'') [(FTitle, js ''New''), (FConnectionId, connection), (FDbName, js ''d''), (FQuery, js ''DELETE FROM a'')]"

definition someEnv :: quitEnv where
  "someEnv = \<lparr>qt_query = \<lparr>qe_now = 1, qe_defaultName = (\<lambda>n. js ''Query'')\<rparr>,
     qt_file = \<lparr>fe_abs = (\<lambda>p. p), fe_stats = (\<lambda>p. True), fe_reads = (\<lambda>p. True), fe_writes = (\<lambda>p. True), fe_text = (\<lambda>k. k)\<rparr>\<rparr>"

definition noDraftEnv :: "unit draftEnv" where
  "noDraftEnv = \<lparr>de_storage = False, de_window = False, de_requestIdle = False, de_cancelIdle = False,
     de_parse = (\<lambda>s. None), de_stringify = (\<lambda>es. ())\<rparr>"

definition memoryBackend :: "savedQuery list queryBackend" where
  "memoryBackend = \<lparr>qb_save = Some (\<lambda>q b. (Some (Some q), b @ [q])), qb_get = Some (\<lambda>b. Some (map Some b))\<rparr>"

definition someWorld :: "tabData list \<Rightarrow> (savedQuery list, unit) quitWorld" where
  "someWorld tabs = \<lparr>qw_tabs = tabs, qw_storage = ([], [], [js ''/a.sql'' \<mapsto> FileText (js ''SELECT 1'')]), qw_drafts = loadedPage None\<rparr>"

definition someRun :: "tabData list \<Rightarrow> (quitTarget \<times> savedQuery option) list fallible \<times> (savedQuery list, unit) quitWorld" where
  "someRun tabs = saveLatestApplicationQuitUnsavedSQLState someEnv noDraftEnv 1 True memoryBackend (loadedPage None) (someWorld tabs)"







theorem tab_that_blocks_saving_witness:
  "\<exists>m. fst (someRun [newTab []]) = Thrown m"
proof -
  have "newTab [] \<in> set (qw_tabs (someWorld [newTab []]))" by (simp add: someWorld_def)
  moreover have "cannotBeSaved someEnv (qw_storage (someWorld [newTab []])) (newTab [])
      (tabDraft noDraftEnv 1 (qw_drafts (someWorld [newTab []])) (newTab []))" by code_simp
  ultimately show ?thesis unfolding someRun_def by (rule tab_that_blocks_saving)
qed

text \<open>
  Two tabs on one saved query: both are saved, one over the other, both drafts are dropped, and the text of the
  first is nowhere but in its tab.
\<close>

lemma shared_query_loses_a_text:
  defines "sharing \<equiv> \<lambda>i t. someTab i [(FSavedQueryId, js ''q''), (FConnectionId, js ''c''), (FDbName, js ''d''), (FQuery, t)]"
    and "q \<equiv> newSavedQuery \<lparr>qe_now = 1, qe_defaultName = (\<lambda>n. [])\<rparr> (js ''q'') (js ''Q'') (js ''SELECT 0'') (js ''c'') (js ''d'')"
  defines "r \<equiv> saveLatestApplicationQuitUnsavedSQLState someEnv noDraftEnv 1 True memoryBackend (loadedPage None)
    \<lparr>qw_tabs = [sharing (js ''t1'') (js ''SELECT 1''), sharing (js ''t2'') (js ''SELECT 2'')],
     qw_storage = ([q], [], \<lambda>p. None), qw_drafts = loadedPage None\<rparr>"
  shows "map sv_sql (fst (qw_storage (snd r))) = [js ''SELECT 2'']
    \<and> (case fst r of Returned sts \<Rightarrow> length sts = 2 | Thrown _ \<Rightarrow> False)"
  unfolding r_def sharing_def q_def by code_simp

end
