(* ===== verification/Spec2Isabelle.thy ===== *)
theory Spec2Isabelle
  imports SqlCaret SqlWhereProps SqlOrderProps QueryAutoLimitProps ConnectionReadOnlyProps ExecutionLifecycleProps QueryPaginationProps SavedQueryGroupsProps PersistStorageProps AsyncCachesProps RedisTreeProps SidebarOrderProps ConnectionGroupProps SidebarTagTreeProps WorkbenchClosingProps QueryTabRestore ExportTasksProps SqlTransaction LayoutCoordinatorProps PendingTransactionProps ApplicationQuitProps
begin

text \<open>
  GoNavi is a desktop client for databases. Its front end (\<open>src/frontend/src\<close>, TypeScript) holds the logic
  that decides what is sent to a database and what the user keeps: which part of a text is a statement, whether
  it writes, in which transaction it runs, how its result is paged; which connections, groups, tabs, drafts and
  exports there are, and what is stored of them. This development models that logic and proves what makes it
  correct. The back end (Go) is reached through calls; the parts of it that a property rests on are modelled
  where they are named below, everything else of it is outside.

  The parts and their theories.

  \<^item> The language. \<open>JsPrelude\<close> has the strings of JavaScript (lists of UTF-16 code units, so that positions count
    what the code counts) and the functions of its library the sources use; \<open>JsText\<close> more of the string
    library; \<open>JsMap\<close> the \<open>Map\<close> with its insertion order, behind the locale \<open>ordered_map\<close>; \<open>JsSort\<close> sorting.
    \<open>JsScan\<close> has the loop of the scanners: \<open>scan_loop\<close> runs a step on the local variables while the position
    is inside the text. It stops when a step does not move forward, so it is total; that no step of a modelled
    loop stands still is the law of the locale \<open>scanner\<close>, interpreted for every loop, and from it follow the
    rules for what holds at the end of a loop (\<open>invariant\<close>, \<open>return_from\<close>). \<open>ParentForest\<close> is the contract of
    changing one parent in a forest.

  \<^item> Statements (\<open>utils/sqlStatementSelection.ts\<close>). \<open>SqlLexical\<close>, \<open>SqlStatements\<close> and \<open>SqlSplit\<close> are the splitter,
    \<open>SqlSplitProps\<close> shows that its ranges are in order, disjoint, trimmed, and that nothing executable lies
    outside them; \<open>SqlCaret\<close> is the choice of the statement at the caret.

  \<^item> Reading or writing. \<open>SqlEmbeddedWrite\<close> (\<open>utils/sqlEmbeddedWrite.ts\<close>) finds a write behind a missing
    semicolon and is refined to the words of the text outside quotes and comments. \<open>ConnectionReadOnly\<close>
    (\<open>utils/connectionReadOnly.ts\<close>) classifies statements and has the protection of a connection;
    \<open>DataSourceCapabilities\<close> (\<open>utils/dataSourceCapabilities.ts\<close>) what a protected connection offers.
    \<open>SqlEditorScan\<close> and \<open>SqlTransaction\<close> (\<open>utils/sqlEditorTransaction.ts\<close>) decide which batches run in a
    transaction of their own and which in a pending one.

  \<^item> Names and texts of SQL. \<open>QualifiedName\<close> reads names, \<open>SqlDialect\<close> resolves dialects, \<open>SqlQuote\<close> and
    \<open>SqlBuild\<close> (\<open>utils/sql.ts\<close>) write names, literals and clauses. The locale \<open>name_style\<close> is the contract of
    a writer with the reader of names, \<open>opaque_text\<close> that of a literal with the scan for writes; the writers
    are interpretations of both. \<open>SqlWhereProps\<close> shows that no filter of the grid makes a WHERE clause that
    writes, \<open>SqlOrderProps\<close> that reversing an ORDER BY text is reversing its items. \<open>QueryAutoLimit\<close> and
    \<open>QueryPagination\<close> are the row limit and the pages of a result.

  \<^item> A running query (\<open>ExecutionLifecycle\<close>), the exports (\<open>ExportTasks\<close>), the delayed writes of the store
    (\<open>PersistStorage\<close>), the drafts of queries (\<open>QueryDrafts\<close>) and the layout of the sidebar that windows share
    (\<open>LayoutCoordinator\<close>) are state machines: a record of the variables of the module, one definition per
    function or callback, and a step function or relation over what can happen. A function that waits is cut
    where it waits. Their properties hold in all reachable states, by induction over the run. For the shared
    layout the revision check of the back end (\<open>src/internal/app/connection_sidebar_layout.go\<close>) is part of the
    model, with requests and answers that are delayed or lost and other windows that write.

  \<^item> A transaction that waits for its end (\<open>components/useSqlEditorTransactionController.ts\<close>).
    \<open>PendingTransaction\<close> has the controller of a tab with its timer and confirmations, the part of the editor
    that receives the answer of a run, and the table of open transactions of the back end
    (\<open>src/internal/app/methods_db_transaction.go\<close>). \<open>PendingTransactionProps\<close> shows, over every order of their
    steps, that nothing is committed without the consent the connection asks for, that a transaction is ended
    once, that a tab that is closed leaves none open, and that the tab shows what is pending. What every operation
    of the controller keeps is stated once, in the locale \<open>controller_invariant\<close>.

  \<^item> Saving. \<open>SavedQueries\<close> (\<open>utils/savedQueryPersistence.ts\<close>) is what is accepted as a saved query, saving one
    and taking over those of older versions; \<open>ApplicationQuit\<close> (\<open>utils/sqlEditorApplicationQuit.ts\<close>) saves what is
    unsaved when the program ends, to saved queries and to the files of the back end
    (\<open>src/internal/app/methods_file.go\<close>), and takes it over into the tabs. \<open>ApplicationQuitProps\<close> shows that no text is lost
    when every tab has a place of its own, and that nothing is unsaved afterwards; saving a list of targets is an
    instance of the locale \<open>keyed_store\<close>.

  \<^item> Connections and groups. \<open>ConnectionTags\<close> and \<open>ConnectionTreeStore\<close> are the groups of connections as the
    store (\<open>store.ts\<close>) keeps them, with every action on them; \<open>ConnectionTagsProps\<close> shows that normalization
    makes a tree and changes no tree, \<open>ConnectionTreeStoreProps\<close>, \<open>ConnectionMovesProps\<close> and
    \<open>ConnectionGroupProps\<close> what the actions do to owners and parents. \<open>SidebarOrder\<close> and \<open>SidebarHosts\<close> are
    dragging in the sidebar, \<open>SidebarTagTree\<close> the tree it shows; that a drop the sidebar offers is carried out
    by the store is the property between them. \<open>SavedQueryGroups\<close> is the forest of saved queries, \<open>RedisTree\<close>
    the tree of Redis keys, \<open>AsyncCaches\<close> two caches of promises.

  \<^item> The workbench. \<open>WorkbenchTabs\<close> has the tabs, the floating windows (\<open>DetachedWindows\<close>) and the active
    context with every action on them, \<open>RecentEntries\<close> the recent databases and files, \<open>QueryTabRestore\<close> the tabs
    after a start, which come from the stored tabs and from the drafts of \<open>QueryDrafts\<close>. \<open>WorkbenchTabsProps\<close> and
    \<open>WorkbenchClosingProps\<close> show that ids stay distinct, that the active tab and the windows belong to open tabs,
    that a running import is never closed, and what closing leaves behind.

  How to read a model. An object is a record or, where the code merges objects, a list of fields; a union of
  literals is a datatype; \<open>undefined\<close> is \<open>None\<close>; an exception is \<open>None\<close> of an option or a value of its own. A
  \<open>Map\<close> is \<open>js_map\<close>, an array a list. Numbers that count or index are naturals or integers, coordinates and
  amounts rationals, with \<open>None\<close> for what is not finite; the code's numbers have the same value below \<open>2 ^ 53\<close>.
  The revision of the shared layout is bounded by \<open>2 ^ 64 - 1\<close>, beyond which saving is an error. There is no
  fuel: loops over a text are \<open>scan_loop\<close>, walks over parents carry the ids they have met, and the recursion into
  the bodies of table expressions ends because a body is shorter than its statement.

  What is a parameter. The comparison of the collation (\<open>localeCompare\<close>), the JSON reader and the conversion of
  Mongo shell commands, the browser storage and its failures, identifiers that are made (\<open>uuid\<close>), the clock, the
  size of the viewport, translated titles, the table of capabilities (a JSON file), what the back end makes of a
  layout and of a query to save, the answers to dialogs, and what the operating system makes of a path. Where a property rests on one of them, its hypothesis says what is needed of it.

  Not modelled, and why. The components of the user interface (React) compose these modules with rendering and
  events of the browser: the editor, the data grid, the table designer, the dialogs; completion and hints of the
  editor; the chat and the tools of the assistant; synchronisation and import of data; the consoles of document,
  vector and message stores; the tools for JVM and message queues; appearance and other settings of the store;
  translations; the generated bindings; and the back end with its drivers. They are listed with their reasons in
  the manifest. Listeners are called for their effects on the user interface, so that only the calls are recorded
  or left out.

  What modelling showed is listed in the manifest as findings. Among them: the scan for writes lets an UPDATE
  after FOR pass; a short comment hides a write from the read-only check; a change of data behind a change of the
  schema counts as a read; a copied group loses its connections; a query that gets its first connection keeps the
  context of the tab before it; a change of the sidebar made while the first call to the back end has failed is
  lost; a run that is given up leaves its transaction open in the back end; a commit that is refused stops the
  automatic one; two tabs on one saved query overwrite each other when the program ends. Each is a theorem or a lemma of the theory of its component.
\<close>

end
